(* ===== verification/Prelude.thy ===== *)
theory Prelude
  imports Main "HOL-Library.Word" "HOL-Library.Sublist"
begin

section \<open>Shared vocabulary of the CRI plugin model\<close>

text \<open>
  This theory holds what every component of the model shares:
  \<^item> \<open>goerror\<close>, the error values the Go code compares, wraps and classifies, and \<open>'a result\<close>,
    the Go pair \<open>(value, error)\<close> as a sum;
  \<^item> \<open>('s, 'a) act\<close>, a state-passing action that may fail, with \<open>bindA\<close> for sequencing and
    \<open>onError\<close> for the idiom \<^verbatim>\<open>defer func() { if retErr != nil { ... } }()\<close>;
  \<^item> \<open>mul64\<close>, Go's multiplication of 64-bit signed integers, which wraps;
  \<^item> \<open>inv_system\<close>, the interface of a transition system with an inductive invariant;
  \<^item> generic lemmas on maps, lists and enumerations of maps, and the fact collections
    \<open>act_simps\<close> and \<open>enum_intros\<close>.
  Go maps are partial functions. Where the source ranges over a map, the order in which the
  runtime visits the keys is an argument of the model (\<open>enumerates m order\<close>).
\<close>

named_theorems act_simps
named_theorems enum_intros

subsection \<open>Errors\<close>

text \<open>
  An error value is a sentinel that the code compares with \<^verbatim>\<open>==\<close>, or a message built by
  \<^verbatim>\<open>errors.Errorf\<close> (the format and its arguments), or an error wrapped by \<^verbatim>\<open>errors.Wrapf\<close>.
  \<^verbatim>\<open>store.ErrNotExist\<close> is \<^verbatim>\<open>errdefs.ErrNotFound\<close> and \<^verbatim>\<open>store.ErrAlreadyExist\<close> is
  \<^verbatim>\<open>errdefs.ErrAlreadyExists\<close>, as \<^verbatim>\<open>pkg/store/errors.go\<close> says.
\<close>

datatype goerror =
    ErrNotExist
  | ErrAlreadyExist
  | ErrEmptyPrefix
  | ErrIllegalChar
  | ErrIndexNotExist
  | ErrAmbiguousPrefix string
  | ErrDigestNotFound
  | ErrDigestAmbiguous
  | ErrDigestInvalidFormat
  | ErrDigestInvalidLength
  | ErrDigestUnsupported
  | ErrCanceled
  | ErrDeadlineExceeded
  | ErrOSNotExist
  | Errorf string "string list"
  | Wrapf goerror string "string list"

type_synonym 'a result = "goerror + 'a"

text \<open>
  \<^verbatim>\<open>errdefs.IsNotFound\<close> and \<^verbatim>\<open>errdefs.IsAlreadyExists\<close> look through wrapping, whereas
  \<^verbatim>\<open>err == store.ErrNotExist\<close> is plain equality of error values.
\<close>

fun cause :: "goerror \<Rightarrow> goerror" where
  "cause (Wrapf e f args) = cause e"
| "cause e = e"

definition IsNotFound :: "goerror \<Rightarrow> bool" where
  "IsNotFound e \<longleftrightarrow> cause e = ErrNotExist"

text \<open>\<^verbatim>\<open>os.IsNotExist\<close> tests the error of a file operation itself.\<close>

definition IsOSNotExist :: "goerror \<Rightarrow> bool" where
  "IsOSNotExist e \<longleftrightarrow> e = ErrOSNotExist"

definition IsAlreadyExists :: "goerror \<Rightarrow> bool" where
  "IsAlreadyExists e \<longleftrightarrow> cause e = ErrAlreadyExist"

lemma IsNotFound_simps [simp]:
  "IsNotFound ErrNotExist" "\<not> IsNotFound ErrAlreadyExist" "\<not> IsNotFound (Errorf f args)"
  "IsNotFound (Wrapf e f args) \<longleftrightarrow> IsNotFound e"
  by (simp_all add: IsNotFound_def)

lemma IsAlreadyExists_simps [simp]:
  "IsAlreadyExists ErrAlreadyExist" "\<not> IsAlreadyExists ErrNotExist"
  "\<not> IsAlreadyExists (Errorf f args)"
  "IsAlreadyExists (Wrapf e f args) \<longleftrightarrow> IsAlreadyExists e"
  by (simp_all add: IsAlreadyExists_def)

text \<open>
  \<^verbatim>\<open>Error()\<close>: the message of an error. A verb of the format takes the next argument; \<^verbatim>\<open>%q\<close> quotes
  it (escaping inside the quotes is not modelled). A wrapped error reads \<^verbatim>\<open>message: cause\<close>.
\<close>

fun formatMsg :: "string \<Rightarrow> string list \<Rightarrow> string" where
  "formatMsg [] args = []"
| "formatMsg [c] args = [c]"
| "formatMsg (c # v # f) args =
     (if c \<noteq> CHR ''%'' then c # formatMsg (v # f) args
      else case args of
        [] \<Rightarrow> c # v # formatMsg f []
      | a # as \<Rightarrow> (if v = CHR ''q'' then [CHR 0x22] @ a @ [CHR 0x22] else a) @ formatMsg f as)"

fun Error :: "goerror \<Rightarrow> string" where
  "Error ErrNotExist = ''not found''"
| "Error ErrAlreadyExist = ''already exists''"
| "Error ErrEmptyPrefix = ''Prefix can'' @ [CHR 0x27] @ ''t be empty''"
| "Error ErrIllegalChar = ''illegal character: '' @ [CHR 0x27, CHR 0x20, CHR 0x27]"
| "Error ErrIndexNotExist = ''ID does not exist''"
| "Error (ErrAmbiguousPrefix p) = ''Multiple IDs found with provided prefix: '' @ p"
| "Error ErrDigestNotFound = ''digest not found''"
| "Error ErrDigestAmbiguous = ''ambiguous digest string''"
| "Error ErrDigestInvalidFormat = ''invalid checksum digest format''"
| "Error ErrDigestInvalidLength = ''invalid checksum digest length''"
| "Error ErrDigestUnsupported = ''unsupported digest algorithm''"
| "Error ErrCanceled = ''context canceled''"
| "Error ErrDeadlineExceeded = ''context deadline exceeded''"
| "Error ErrOSNotExist = ''file does not exist''"
| "Error (Errorf f args) = formatMsg f args"
| "Error (Wrapf e f args) = formatMsg f args @ '': '' @ Error e"

subsection \<open>Actions: state passing with errors\<close>

type_synonym ('s, 'a) act = "'s \<Rightarrow> 'a result \<times> 's"

definition returnA :: "'a \<Rightarrow> ('s, 'a) act" where
  "returnA x s = (Inr x, s)"

definition failA :: "goerror \<Rightarrow> ('s, 'a) act" where
  "failA e s = (Inl e, s)"

definition bindA :: "('s, 'a) act \<Rightarrow> ('a \<Rightarrow> ('s, 'b) act) \<Rightarrow> ('s, 'b) act" where
  "bindA m f s = (case m s of (Inl e, t) \<Rightarrow> (Inl e, t) | (Inr x, t) \<Rightarrow> f x t)"

definition thenA :: "('s, 'a) act \<Rightarrow> ('s, 'b) act \<Rightarrow> ('s, 'b) act" where
  "thenA m n = bindA m (\<lambda>_. n)"

text \<open>\<^verbatim>\<open>if err := m; err != nil { return errors.Wrapf(err, f, args) }\<close>\<close>

definition wrapA :: "('s, 'a) act \<Rightarrow> string \<Rightarrow> string list \<Rightarrow> ('s, 'a) act" where
  "wrapA m f args s = (case m s of (Inl e, t) \<Rightarrow> (Inl (Wrapf e f args), t) | r \<Rightarrow> r)"

text \<open>A deferred clean-up that runs only when the rest of the function returns an error.\<close>

definition onError :: "('s, 'a) act \<Rightarrow> (goerror \<Rightarrow> 's \<Rightarrow> 's) \<Rightarrow> ('s, 'a) act" where
  "onError m cleanup s = (case m s of (Inl e, t) \<Rightarrow> (Inl e, cleanup e t) | r \<Rightarrow> r)"

text \<open>A deferred call that runs however the rest of the function returns.\<close>

definition alwaysA :: "('s, 'a) act \<Rightarrow> ('s \<Rightarrow> 's) \<Rightarrow> ('s, 'a) act" where
  "alwaysA m cleanup s = (case m s of (r, t) \<Rightarrow> (r, cleanup t))"

definition modifyA :: "('s \<Rightarrow> 's) \<Rightarrow> ('s, unit) act" where
  "modifyA f s = (Inr (), f s)"

definition getA :: "('s \<Rightarrow> 'a) \<Rightarrow> ('s, 'a) act" where
  "getA f s = (Inr (f s), s)"

definition liftA :: "'a result \<Rightarrow> ('s, 'a) act" where
  "liftA r s = (r, s)"

text \<open>A call whose error is only logged.\<close>

definition ignoreA :: "('s, 'a) act \<Rightarrow> 's \<Rightarrow> 's" where
  "ignoreA m s = snd (m s)"

text \<open>\<^verbatim>\<open>if err := m; err != nil && !p(err) { return err }\<close>\<close>

definition tolerateA :: "('s, unit) act \<Rightarrow> (goerror \<Rightarrow> bool) \<Rightarrow> ('s, unit) act" where
  "tolerateA m p s = (case m s of (Inl e, t) \<Rightarrow> (if p e then (Inr (), t) else (Inl e, t)) | r \<Rightarrow> r)"

lemma tolerateA_Inr [act_simps]:
  "tolerateA m p s = (Inr u, t) \<longleftrightarrow> m s = (Inr (), t) \<or> (\<exists>e. m s = (Inl e, t) \<and> p e)"
  by (auto simp: tolerateA_def split: prod.splits sum.splits)

lemma tolerateA_Inl [act_simps]:
  "tolerateA m p s = (Inl e, t) \<longleftrightarrow> m s = (Inl e, t) \<and> \<not> p e"
  by (auto simp: tolerateA_def split: prod.splits sum.splits)

lemma returnA_apply [simp]: "returnA x s = (Inr x, s)" by (simp add: returnA_def)
lemma failA_apply [simp]: "failA e s = (Inl e, s)" by (simp add: failA_def)
lemma modifyA_apply [simp]: "modifyA f s = (Inr (), f s)" by (simp add: modifyA_def)
lemma getA_apply [simp]: "getA f s = (Inr (f s), s)" by (simp add: getA_def)
lemma liftA_apply [simp]: "liftA r s = (r, s)" by (simp add: liftA_def)

lemma bindA_Inr [act_simps]:
  "bindA m f s = (Inr y, u) \<longleftrightarrow> (\<exists>x t. m s = (Inr x, t) \<and> f x t = (Inr y, u))"
  by (auto simp: bindA_def split: prod.splits sum.splits)

lemma bindA_Inl [act_simps]:
  "bindA m f s = (Inl e, u) \<longleftrightarrow>
     m s = (Inl e, u) \<or> (\<exists>x t. m s = (Inr x, t) \<and> f x t = (Inl e, u))"
  by (auto simp: bindA_def split: prod.splits sum.splits)

lemma thenA_Inr [act_simps]:
  "thenA m n s = (Inr y, u) \<longleftrightarrow> (\<exists>x t. m s = (Inr x, t) \<and> n t = (Inr y, u))"
  by (simp add: thenA_def bindA_Inr)

lemma thenA_Inl [act_simps]:
  "thenA m n s = (Inl e, u) \<longleftrightarrow> m s = (Inl e, u) \<or> (\<exists>x t. m s = (Inr x, t) \<and> n t = (Inl e, u))"
  by (simp add: thenA_def bindA_Inl)

lemma wrapA_Inr [act_simps]: "wrapA m f args s = (Inr y, u) \<longleftrightarrow> m s = (Inr y, u)"
  by (auto simp: wrapA_def split: prod.splits sum.splits)

lemma wrapA_Inl [act_simps]:
  "wrapA m f args s = (Inl e, u) \<longleftrightarrow> (\<exists>e'. m s = (Inl e', u) \<and> e = Wrapf e' f args)"
  by (auto simp: wrapA_def split: prod.splits sum.splits)

lemma onError_Inr [act_simps]: "onError m c s = (Inr y, u) \<longleftrightarrow> m s = (Inr y, u)"
  by (auto simp: onError_def split: prod.splits sum.splits)

lemma onError_Inl [act_simps]:
  "onError m c s = (Inl e, u) \<longleftrightarrow> (\<exists>t. m s = (Inl e, t) \<and> u = c e t)"
  by (auto simp: onError_def split: prod.splits sum.splits)

lemma alwaysA_eq [act_simps]:
  "alwaysA m c s = (r, u) \<longleftrightarrow> (\<exists>t. m s = (r, t) \<and> u = c t)"
  by (auto simp: alwaysA_def split: prod.splits)

subsection \<open>64-bit arithmetic\<close>

text \<open>Go's \<^verbatim>\<open>int64\<close> product: the mathematical product reduced to two's complement.\<close>

definition mul64 :: "int \<Rightarrow> int \<Rightarrow> int" where
  "mul64 a b = sint (word_of_int (a * b) :: 64 word)"

lemma mul64_exact:
  assumes "- (2 ^ 63) \<le> a * b" "a * b < 2 ^ 63"
  shows "mul64 a b = a * b"
  using assms by (simp add: mul64_def signed_of_int signed_take_bit_int_eq_self del: of_int_mult)

subsection \<open>Transition systems with an inductive invariant\<close>

locale inv_system =
  fixes init :: "'s \<Rightarrow> bool" and step :: "'s \<Rightarrow> 's \<Rightarrow> bool" and inv :: "'s \<Rightarrow> bool"
  assumes inv_init: "init s \<Longrightarrow> inv s"
    and inv_step: "inv s \<Longrightarrow> step s t \<Longrightarrow> inv t"
begin

lemma inv_steps: "step\<^sup>*\<^sup>* s t \<Longrightarrow> inv s \<Longrightarrow> inv t"
  by (induction rule: rtranclp_induct) (auto intro: inv_step)

lemma inv_reachable: "init s \<Longrightarrow> step\<^sup>*\<^sup>* s t \<Longrightarrow> inv t"
  by (rule inv_steps) (auto intro: inv_init)

end

subsection \<open>Enumerating a map\<close>

definition enumerates :: "('k \<rightharpoonup> 'v) \<Rightarrow> 'k list \<Rightarrow> bool" where
  "enumerates m order \<longleftrightarrow> distinct order \<and> set order = dom m"

definition values_in :: "('k \<rightharpoonup> 'v) \<Rightarrow> 'k list \<Rightarrow> 'v list" where
  "values_in m order = List.map_filter m order"

lemma set_values_in: "set (values_in m order) = {v. \<exists>k \<in> set order. m k = Some v}"
  by (force simp: values_in_def List.map_filter_def image_iff)

lemma values_in_enumerates [enum_intros]:
  "enumerates m order \<Longrightarrow> set (values_in m order) = ran m"
  by (auto simp: set_values_in enumerates_def ran_def dom_def)

lemma length_values_in:
  "enumerates m order \<Longrightarrow> length (values_in m order) = card (dom m)"
proof -
  assume e: "enumerates m order"
  then have "filter (\<lambda>k. m k \<noteq> None) order = order"
    by (auto simp: enumerates_def filter_id_conv)
  with e show ?thesis
    by (simp add: values_in_def List.map_filter_def enumerates_def distinct_card [symmetric] comp_def)
qed

subsection \<open>Lists\<close>

lemma distinct_filter_unique:
  assumes "distinct xs" "x \<in> set xs" "P x" "\<And>y. y \<in> set xs \<Longrightarrow> P y \<Longrightarrow> y = x"
  shows "filter P xs = [x]"
proof -
  have "filter P xs = filter (\<lambda>y. y = x) xs"
    using assms(3,4) by (intro filter_cong) auto
  also have "\<dots> = [x]"
    using assms(1,2) by (induction xs) (auto simp: filter_empty_conv)
  finally show ?thesis .
qed

lemma filter_singletonD: "filter P xs = [x] \<Longrightarrow> x \<in> set xs \<and> P x"
  by (metis Cons_eq_filterD in_set_conv_decomp)

end
