(* ===== verification/Registrar.thy ===== *)
theory Registrar
  imports Prelude
begin

section \<open>The name registrar\<close>

text \<open>
  \<^verbatim>\<open>pkg/registrar/registrar.go\<close>: two maps that together hold one-to-one name/key reservations.
  The CRI service keeps one registrar for sandbox names and one for container names.
  The operations run under the registrar's lock, so each is one atomic step.
\<close>

record registrar =
  nameToKey :: "string \<rightharpoonup> string"
  keyToName :: "string \<rightharpoonup> string"

definition NewRegistrar :: registrar where
  "NewRegistrar = \<lparr>nameToKey = Map.empty, keyToName = Map.empty\<rparr>"

definition Reserve :: "registrar \<Rightarrow> string \<Rightarrow> string \<Rightarrow> unit result \<times> registrar" where
  "Reserve r name key =
     (if name = '''' \<or> key = '''' then (Inl (Errorf ''invalid name %q or key %q'' [name, key]), r)
      else case nameToKey r name of
        Some k \<Rightarrow>
          (if k \<noteq> key then (Inl (Errorf ''name %q is reserved for %q'' [name, k]), r)
           else (Inr (), r))
      | None \<Rightarrow>
          (case keyToName r key of
             Some n \<Rightarrow>
               (if n \<noteq> name then (Inl (Errorf ''key %q is reserved for %q'' [key, n]), r)
                else (Inr (), r))
           | None \<Rightarrow>
               (Inr (), r\<lparr>nameToKey := (nameToKey r)(name \<mapsto> key),
                          keyToName := (keyToName r)(key \<mapsto> name)\<rparr>)))"

definition ReleaseByName :: "registrar \<Rightarrow> string \<Rightarrow> registrar" where
  "ReleaseByName r name =
     (case nameToKey r name of
        None \<Rightarrow> r
      | Some key \<Rightarrow> r\<lparr>nameToKey := (nameToKey r)(name := None),
                      keyToName := (keyToName r)(key := None)\<rparr>)"

definition ReleaseByKey :: "registrar \<Rightarrow> string \<Rightarrow> registrar" where
  "ReleaseByKey r key =
     (case keyToName r key of
        None \<Rightarrow> r
      | Some name \<Rightarrow> r\<lparr>nameToKey := (nameToKey r)(name := None),
                       keyToName := (keyToName r)(key := None)\<rparr>)"

subsection \<open>The interface the service relies on\<close>

text \<open>
  The abstract contract: a registrar is a set of (name, key) pairs in which every name and every
  key occurs at most once. \<open>pairs\<close> is the abstraction function. The service handlers only use
  these laws: a handler that reserves a fresh name and fails afterwards gives the name back.
\<close>

locale name_index =
  fixes reserve :: "'r \<Rightarrow> string \<Rightarrow> string \<Rightarrow> unit result \<times> 'r"
    and release_name :: "'r \<Rightarrow> string \<Rightarrow> 'r"
    and release_key :: "'r \<Rightarrow> string \<Rightarrow> 'r"
    and pairs :: "'r \<Rightarrow> (string \<times> string) set"
    and ok :: "'r \<Rightarrow> bool"
  assumes reserve_ok: "ok r \<Longrightarrow> reserve r n k = (res, r') \<Longrightarrow> ok r'"
    and release_name_ok: "ok r \<Longrightarrow> ok (release_name r n)"
    and release_key_ok: "ok r \<Longrightarrow> ok (release_key r k)"
    and one_to_one: "ok r \<Longrightarrow> (n, k) \<in> pairs r \<Longrightarrow> (n', k') \<in> pairs r \<Longrightarrow> n = n' \<longleftrightarrow> k = k'"
    and reserve_Inr: "ok r \<Longrightarrow> reserve r n k = (Inr (), r') \<Longrightarrow> pairs r' = insert (n, k) (pairs r)"
    and reserve_Inl: "ok r \<Longrightarrow> reserve r n k = (Inl e, r') \<Longrightarrow> r' = r"
    and release_name_pairs: "ok r \<Longrightarrow> pairs (release_name r n) = {p \<in> pairs r. fst p \<noteq> n}"
    and release_key_pairs: "ok r \<Longrightarrow> pairs (release_key r k) = {p \<in> pairs r. snd p \<noteq> k}"
begin

lemma reserve_rollback:
  assumes "ok r" "reserve r n k = (Inr (), r')" "\<And>k. (n, k) \<notin> pairs r"
  shows "pairs (release_name r' n) = pairs r"
proof -
  have "ok r'" using assms(1,2) by (rule reserve_ok)
  then show ?thesis
    using reserve_Inr [OF assms(1,2)] assms(3) by (auto simp: release_name_pairs)
qed

lemma release_agree:
  assumes "ok r" "(n, k) \<in> pairs r"
  shows "pairs (release_name r n) = pairs (release_key r k)"
  using assms by (auto simp: release_name_pairs release_key_pairs dest: one_to_one)

lemma release_key_frees:
  assumes "ok r" "(n, k) \<in> pairs r"
  shows "n \<notin> fst ` pairs (release_key r k)" "k \<notin> snd ` pairs (release_key r k)"
  using assms by (auto simp: release_key_pairs dest: one_to_one)

end

subsection \<open>Invariant: the two maps are inverse bijections\<close>

definition reg_inv :: "registrar \<Rightarrow> bool" where
  "reg_inv r \<longleftrightarrow>
     (\<forall>n k. nameToKey r n = Some k \<longleftrightarrow> keyToName r k = Some n) \<and>
     nameToKey r '''' = None \<and> keyToName r '''' = None"

inductive reg_step :: "registrar \<Rightarrow> registrar \<Rightarrow> bool" where
  reserve: "Reserve r name key = (res, r') \<Longrightarrow> reg_step r r'"
| release_name: "reg_step r (ReleaseByName r name)"
| release_key: "reg_step r (ReleaseByKey r key)"

lemma reg_key_name: "reg_inv r \<Longrightarrow> keyToName r k = Some n \<Longrightarrow> nameToKey r n = Some k"
  by (simp add: reg_inv_def)

lemma reg_name_key: "reg_inv r \<Longrightarrow> nameToKey r n = Some k \<Longrightarrow> keyToName r k = Some n"
  by (simp add: reg_inv_def)

lemma reg_agree: "reg_inv r \<Longrightarrow> keyToName r k = Some n \<Longrightarrow> nameToKey r n = Some k' \<Longrightarrow> k' = k"
  by (auto dest: reg_key_name)

lemma reg_nonempty: "reg_inv r \<Longrightarrow> nameToKey r n = Some k \<Longrightarrow> n \<noteq> [] \<and> k \<noteq> []"
  unfolding reg_inv_def by (metis option.distinct(1))

lemma reg_inv_New [simp]: "reg_inv NewRegistrar"
  by (simp add: reg_inv_def NewRegistrar_def)

lemma reg_inv_Reserve: "reg_inv r \<Longrightarrow> reg_inv (snd (Reserve r name key))"
  by (auto simp: reg_inv_def Reserve_def split: option.splits) (metis option.inject option.distinct(1))+

lemma reg_inv_ReleaseByName: "reg_inv r \<Longrightarrow> reg_inv (ReleaseByName r name)"
  by (auto simp: reg_inv_def ReleaseByName_def split: option.splits) (metis option.inject option.distinct(1))+

lemma reg_inv_ReleaseByKey: "reg_inv r \<Longrightarrow> reg_inv (ReleaseByKey r key)"
  by (auto simp: reg_inv_def ReleaseByKey_def split: option.splits) (metis option.inject option.distinct(1))+

lemmas reg_inv_ops = reg_inv_Reserve reg_inv_ReleaseByName reg_inv_ReleaseByKey

interpretation reg: inv_system "\<lambda>r. r = NewRegistrar" reg_step reg_inv
proof
  fix r r' assume "reg_inv r" "reg_step r r'"
  then show "reg_inv r'" by (cases rule: reg_step.cases[OF \<open>reg_step r r'\<close>])
      (auto dest: reg_inv_ops simp: reg_inv_ops prod_eq_iff)
qed simp

subsection \<open>The registrar implements the contract\<close>

definition reg_pairs :: "registrar \<Rightarrow> (string \<times> string) set" where
  "reg_pairs r = {(n, k). nameToKey r n = Some k}"

lemma Reserve_Inr:
  "reg_inv r \<Longrightarrow> Reserve r n k = (Inr (), r') \<Longrightarrow>
    n \<noteq> '''' \<and> k \<noteq> '''' \<and> nameToKey r' = (nameToKey r)(n \<mapsto> k) \<and> keyToName r' = (keyToName r)(k \<mapsto> n)"
  by (auto simp: Reserve_def fun_upd_idem dest: reg_key_name reg_name_key
      split: option.splits if_splits)

lemma Reserve_Inl: "Reserve r n k = (Inl e, r') \<Longrightarrow> r' = r"
  by (auto simp: Reserve_def split: option.splits if_splits)

lemma Reserve_ok_iff:
  "reg_inv r \<Longrightarrow> fst (Reserve r n k) = Inr () \<longleftrightarrow>
    n \<noteq> '''' \<and> k \<noteq> '''' \<and>
    (nameToKey r n = Some k \<or> nameToKey r n = None \<and> keyToName r k = None)"
  by (auto simp: Reserve_def dest: reg_key_name reg_name_key split: option.splits)

interpretation nidx: name_index Reserve ReleaseByName ReleaseByKey reg_pairs reg_inv
proof
  fix r n k res r' assume "reg_inv r" "Reserve r n k = (res, r')"
  then show "reg_inv r'" using reg_inv_Reserve [of r n k] by simp
next
  fix r n k n' k' assume "reg_inv r" "(n, k) \<in> reg_pairs r" "(n', k') \<in> reg_pairs r"
  then show "n = n' \<longleftrightarrow> k = k'" unfolding reg_inv_def reg_pairs_def
    by (metis (mono_tags, lifting) case_prodD mem_Collect_eq option.inject)
next
  fix r n k r' assume "reg_inv r" "Reserve r n k = (Inr (), r')"
  moreover from this have "nameToKey r n = Some k \<or> nameToKey r n = None"
    using Reserve_ok_iff [of r n k] by auto
  ultimately show "reg_pairs r' = insert (n, k) (reg_pairs r)"
    using Reserve_Inr [of r n k r'] by (auto simp: reg_pairs_def split: if_splits)
next
  fix r k assume i: "reg_inv r"
  then show "reg_pairs (ReleaseByKey r k) = {p \<in> reg_pairs r. snd p \<noteq> k}"
    by (auto simp: reg_pairs_def ReleaseByKey_def dest: reg_name_key reg_agree
        split: option.splits if_splits)
next
  fix r n assume "reg_inv r"
  then show "reg_pairs (ReleaseByName r n) = {p \<in> reg_pairs r. fst p \<noteq> n}"
    by (auto simp: reg_pairs_def ReleaseByName_def split: option.splits if_splits)
qed (auto simp: reg_inv_ops Reserve_Inl)

subsection \<open>Properties\<close>

text \<open>
  In every registrar the operations can reach from the empty one, the two indexes are inverse
  to each other, so a name is reserved for at most one key and a key for at most one name, and
  neither the empty name nor the empty key is ever reserved.
\<close>

lemma registrar_bijection:
  assumes "reg_step\<^sup>*\<^sup>* NewRegistrar r"
  shows "(nameToKey r n = Some k \<longleftrightarrow> keyToName r k = Some n) \<and>
    (nameToKey r n = Some k \<and> nameToKey r n' = Some k \<longrightarrow> n = n') \<and>
    (nameToKey r n = Some k \<longrightarrow> n \<noteq> [] \<and> k \<noteq> [])"
proof -
  have i: "reg_inv r" using reg.inv_reachable [OF refl assms] .
  then show ?thesis
    using nidx.one_to_one [OF i, of n k n' k] reg_nonempty [OF i]
    by (auto simp: reg_pairs_def reg_inv_def)
qed

definition reg_example :: registrar where
  "reg_example = snd (Reserve NewRegistrar ''pod_ns_uid_0'' ''id1'')"

lemma reg_example_simps:
  "nameToKey reg_example ''pod_ns_uid_0'' = Some ''id1''"
  "nameToKey reg_example ''pod_ns_uid_1'' = None"
  "keyToName reg_example ''id2'' = None"
  by (simp_all add: reg_example_def Reserve_def NewRegistrar_def)

lemma reg_example_reachable: "reg_step\<^sup>*\<^sup>* NewRegistrar reg_example"
  unfolding reg_example_def
  by (rule r_into_rtranclp) (rule reg_step.reserve [OF prod.collapse [symmetric]])

lemma reg_example_inv: "reg_inv reg_example"
  using reg.inv_reachable [OF refl reg_example_reachable] .

lemma Reserve_pairs:
  assumes "reg_inv r" and "Reserve r n k = (res, r')"
  shows "(res = Inr () \<longleftrightarrow> n \<noteq> [] \<and> k \<noteq> [] \<and>
           ((n, k) \<in> reg_pairs r \<or> n \<notin> fst ` reg_pairs r \<and> k \<notin> snd ` reg_pairs r)) \<and>
    reg_pairs r' = (if res = Inr () then insert (n, k) (reg_pairs r) else reg_pairs r) \<and>
    (res = Inr () \<longrightarrow> Reserve r' n k = (Inr (), r'))"
proof (intro conjI impI)
  have none: "keyToName r k = None \<longleftrightarrow> k \<notin> snd ` reg_pairs r"
    using assms(1) unfolding reg_inv_def reg_pairs_def by (auto simp: image_iff)
  have "nameToKey r n = None \<longleftrightarrow> n \<notin> fst ` reg_pairs r"
    by (force simp: reg_pairs_def image_iff)
  with none show "res = Inr () \<longleftrightarrow> n \<noteq> [] \<and> k \<noteq> [] \<and>
           ((n, k) \<in> reg_pairs r \<or> n \<notin> fst ` reg_pairs r \<and> k \<notin> snd ` reg_pairs r)"
    using Reserve_ok_iff [OF assms(1), of n k] assms(2) by (simp add: reg_pairs_def)
  show "reg_pairs r' = (if res = Inr () then insert (n, k) (reg_pairs r) else reg_pairs r)"
    using assms by (cases res) (auto dest: Reserve_Inl nidx.reserve_Inr)
  show "Reserve r' n k = (Inr (), r')" if "res = Inr ()"
    using Reserve_Inr [OF assms(1), of n k r'] assms(2) that by (simp add: Reserve_def)
qed

lemma Release_undoes:
  assumes "reg_inv r" "Reserve r n k = (Inr (), r')" "nameToKey r n = None"
  shows "ReleaseByName r' n = r"
proof -
  have "keyToName r k = None" using Reserve_ok_iff [OF assms(1), of n k] assms by auto
  with assms show ?thesis by (auto simp: Reserve_def ReleaseByName_def fun_upd_idem split: if_splits)
qed

lemma Release_pairs:
  assumes "reg_inv r"
  shows "(Reserve r n k = (Inr (), r') \<and> nameToKey r n = None \<longrightarrow> ReleaseByName r' n = r) \<and>
    (nameToKey r n = Some k \<longrightarrow> ReleaseByKey r k = ReleaseByName r n) \<and>
    reg_pairs (ReleaseByKey r k) = {p \<in> reg_pairs r. snd p \<noteq> k}"
proof (intro conjI impI)
  assume h: "Reserve r n k = (Inr (), r') \<and> nameToKey r n = None"
  then show "ReleaseByName r' n = r" using Release_undoes [OF assms] by blast
next
  show "nameToKey r n = Some k \<Longrightarrow> ReleaseByKey r k = ReleaseByName r n"
    using reg_name_key [OF assms, of n k] by (simp add: ReleaseByKey_def ReleaseByName_def)
  show "reg_pairs (ReleaseByKey r k) = {p \<in> reg_pairs r. snd p \<noteq> k}"
    using assms by (rule nidx.release_key_pairs)
qed

text \<open>
  C2: the registrar is a set of pairs of a name and a key. After any sequence of calls the two indexes are inverse to each other, so a name is reserved for
  at most one key and a key for at most one name. A reservation succeeds exactly when name and key are non-empty
  and either the same pair is already reserved (idempotence) or both are free; success adds the pair, and a
  refused reservation changes nothing. Releasing gives back exactly the reserved pair: a fresh reservation followed by
  \<^verbatim>\<open>ReleaseByName\<close> restores the registrar, and \<^verbatim>\<open>ReleaseByKey\<close> frees both the name and the
  key of the pair, leaving every other reservation in place.
\<close>

theorem registrar_contract:
  assumes "reg_step\<^sup>*\<^sup>* NewRegistrar r" and "Reserve r n k = (res, r')"
  shows "(\<forall>a b c. (nameToKey r a = Some b \<longleftrightarrow> keyToName r b = Some a) \<and> (nameToKey r a = Some b \<and> nameToKey r c = Some b \<longrightarrow> a = c)) \<and>
    (res = Inr () \<longleftrightarrow> n \<noteq> [] \<and> k \<noteq> [] \<and>
           ((n, k) \<in> reg_pairs r \<or> n \<notin> fst ` reg_pairs r \<and> k \<notin> snd ` reg_pairs r)) \<and>
    reg_pairs r' = (if res = Inr () then insert (n, k) (reg_pairs r) else reg_pairs r) \<and>
    (res = Inr () \<longrightarrow> Reserve r' n k = (Inr (), r')) \<and>
    (res = Inr () \<and> nameToKey r n = None \<longrightarrow> ReleaseByName r' n = r) \<and>
    (nameToKey r n = Some k \<longrightarrow> ReleaseByKey r k = ReleaseByName r n) \<and>
    reg_pairs (ReleaseByKey r k) = {p \<in> reg_pairs r. snd p \<noteq> k}"
proof -
  have i: "reg_inv r" using reg.inv_reachable [OF refl assms(1)] .
  have pairs: "\<forall>a b c. (nameToKey r a = Some b \<longleftrightarrow> keyToName r b = Some a) \<and> (nameToKey r a = Some b \<and> nameToKey r c = Some b \<longrightarrow> a = c)"
    using registrar_bijection [OF assms(1)] by blast
  note reserve = Reserve_pairs [OF i assms(2)] and release = Release_pairs [OF i, of n k r']
  show ?thesis by (rule conjI [OF pairs]) (use reserve release assms(2) in blast)
qed

theorem registrar_contract_witness:
  "reg_pairs (snd (Reserve reg_example ''pod_ns_uid_1'' ''id2'')) =
     insert (''pod_ns_uid_1'', ''id2'') (reg_pairs reg_example) \<and>
   ReleaseByName (snd (Reserve reg_example ''pod_ns_uid_1'' ''id2'')) ''pod_ns_uid_1'' = reg_example"
proof -
  have "fst (Reserve reg_example ''pod_ns_uid_1'' ''id2'') = Inr ()" "nameToKey reg_example ''pod_ns_uid_1'' = None"
    by (simp_all add: Reserve_def reg_example_simps)
  then show ?thesis
    using registrar_contract [OF reg_example_reachable prod.collapse [symmetric], of "''pod_ns_uid_1''" "''id2''"] by simp
qed

end
