(* ===== verification/GoStrings.thy ===== *)
theory GoStrings
  imports Prelude
begin

section \<open>String helpers\<close>

text \<open>
  \<^verbatim>\<open>pkg/util/strings.go\<close> and the functions of Go's package \<^verbatim>\<open>strings\<close> that the plugin calls.
  A Go string is a byte sequence. \<open>EqualFold\<close> is \<^verbatim>\<open>strings.EqualFold\<close> on ASCII text: the strings it
  is applied to are image references and JSON keys, whose grammars are ASCII.
  \<^verbatim>\<open>MergeStringSlices\<close> ranges over a map, so the order of its result is the runtime's choice:
  the argument \<open>it\<close> permutes the keys (\<open>iteration it\<close>).
\<close>

definition lower_char :: "char \<Rightarrow> char" where
  "lower_char c = (if 65 \<le> (of_char c :: nat) \<and> (of_char c :: nat) \<le> 90 then char_of ((of_char c :: nat) + 32) else c)"

definition ToLower :: "string \<Rightarrow> string" where
  "ToLower s = map lower_char s"

definition EqualFold :: "string \<Rightarrow> string \<Rightarrow> bool" where
  "EqualFold s t \<longleftrightarrow> ToLower s = ToLower t"

lemma EqualFold_refl [simp]: "EqualFold s s" by (simp add: EqualFold_def)
lemma EqualFold_sym: "EqualFold s t \<longleftrightarrow> EqualFold t s" by (auto simp: EqualFold_def)
lemma EqualFold_trans: "EqualFold s t \<Longrightarrow> EqualFold t u \<Longrightarrow> EqualFold s u" by (simp add: EqualFold_def)
lemma EqualFold_length: "EqualFold s t \<Longrightarrow> length s = length t"
  by (simp add: EqualFold_def ToLower_def) (metis length_map)

lemma EqualFold_length_neq [simp]: "length s \<noteq> length t \<Longrightarrow> \<not> EqualFold s t"
  using EqualFold_length by blast

subsection \<open>Splitting and joining\<close>

text \<open>\<^verbatim>\<open>strings.SplitN(s, c, n)\<close> for a one-byte separator, \<open>n > 0\<close>.\<close>

fun SplitN :: "nat \<Rightarrow> char \<Rightarrow> string \<Rightarrow> string list" where
  "SplitN 0 c s = []"
| "SplitN (Suc 0) c s = [s]"
| "SplitN (Suc (Suc n)) c s =
     (case dropWhile (\<lambda>x. x \<noteq> c) s of
        [] \<Rightarrow> [s]
      | _ # rest \<Rightarrow> takeWhile (\<lambda>x. x \<noteq> c) s # SplitN (Suc n) c rest)"

fun Join :: "string list \<Rightarrow> string \<Rightarrow> string" where
  "Join [] sep = []"
| "Join [x] sep = x"
| "Join (x # y # xs) sep = x @ sep @ Join (y # xs) sep"

lemma SplitN_nonempty: "SplitN (Suc n) c s \<noteq> []"
  by (cases n) (auto split: list.splits)

lemma Join_SplitN: "Join (SplitN (Suc n) c s) [c] = s"
proof (induction n arbitrary: s)
  case 0
  then show ?case by simp
next
  case (Suc n)
  show ?case
  proof (cases "dropWhile (\<lambda>x. x \<noteq> c) s")
    case Nil
    then show ?thesis by (simp del: dropWhile_eq_Nil_conv)
  next
    case (Cons d rest)
    then have "d = c" using hd_dropWhile [of "\<lambda>x. x \<noteq> c" s] by auto
    moreover obtain y ys where "SplitN (Suc n) c rest = y # ys"
      using SplitN_nonempty by (meson neq_Nil_conv)
    moreover have "takeWhile (\<lambda>x. x \<noteq> c) s @ d # rest = s"
      using takeWhile_dropWhile_id [of "\<lambda>x. x \<noteq> c" s] Cons by simp
    ultimately show ?thesis using Suc [of rest] Cons by simp
  qed
qed

lemma Join_inject:
  assumes "length xs = length ys" "\<forall>x \<in> set xs. c \<notin> set x" "\<forall>y \<in> set ys. c \<notin> set y"
    and "Join xs [c] = Join ys [c]"
  shows "xs = ys"
  using assms
proof (induction xs ys rule: list_induct2)
  case (Cons x xs y ys)
  show ?case
  proof (cases xs)
    case Nil
    with Cons show ?thesis by simp
  next
    case (Cons x2 xs2)
    with Cons.hyps obtain y2 ys2 where ys: "ys = y2 # ys2" by (cases ys) auto
    have eq: "x @ c # Join xs [c] = y @ c # Join ys [c]"
      using Cons.prems(3) Cons ys by simp
    have "takeWhile (\<lambda>d. d \<noteq> c) (z @ c # zs) = z" if "c \<notin> set z" for z zs
      using that by (induction z) auto
    from this [of x] this [of y] eq have "x = y"
      using Cons.prems(1,2) by (metis list.set_intros(1))
    with eq have "x = y \<and> Join xs [c] = Join ys [c]" by simp
    with Cons.IH Cons.prems(1,2) show ?thesis by simp
  qed
qed simp

subsection \<open>Decimal numbers\<close>

text \<open>\<^verbatim>\<open>strconv.Itoa\<close> and the verb \<^verbatim>\<open>%d\<close> on a number that is not negative.\<close>

fun Itoa :: "nat \<Rightarrow> string" where
  "Itoa n = (if n < 10 then [char_of (48 + n)] else Itoa (n div 10) @ [char_of (48 + n mod 10)])"

declare Itoa.simps [simp del]

lemma Itoa_value: "foldl (\<lambda>a c. 10 * a + (of_char c - 48)) 0 (Itoa n) = n"
proof (induction n rule: Itoa.induct)
  case (1 n)
  then show ?case by (cases "n < 10"; subst Itoa.simps) simp_all
qed

lemma Itoa_inject [simp]: "Itoa m = Itoa n \<longleftrightarrow> m = n"
  by (metis Itoa_value)

lemma Itoa_digits: "c \<in> set (Itoa n) \<Longrightarrow> 48 \<le> (of_char c :: nat) \<and> (of_char c :: nat) \<le> 57"
proof (induction n rule: Itoa.induct)
  case (1 n)
  then show ?case by (cases "n < 10"; subst (asm) (2) Itoa.simps) auto
qed

lemma Itoa_nonempty [simp]: "Itoa n \<noteq> []"
  by (subst Itoa.simps) simp

subsection \<open>pkg/util/strings.go\<close>

fun InStringSlice :: "string list \<Rightarrow> string \<Rightarrow> bool" where
  "InStringSlice [] str = False"
| "InStringSlice (s # ss) str = (if EqualFold s str then True else InStringSlice ss str)"

fun SubtractStringSlice :: "string list \<Rightarrow> string \<Rightarrow> string list" where
  "SubtractStringSlice [] str = []"
| "SubtractStringSlice (s # ss) str =
     (if EqualFold s str then SubtractStringSlice ss str else s # SubtractStringSlice ss str)"

definition iteration :: "('a list \<Rightarrow> 'a list) \<Rightarrow> bool" where
  "iteration it \<longleftrightarrow> (\<forall>xs. distinct xs \<longrightarrow> distinct (it xs) \<and> set (it xs) = set xs)"

definition MergeStringSlices :: "(string list \<Rightarrow> string list) \<Rightarrow> string list \<Rightarrow> string list \<Rightarrow> string list" where
  "MergeStringSlices it a b = it (remdups (a @ b))"

lemma iteration_id [simp]: "iteration (\<lambda>xs. xs)" by (simp add: iteration_def)
lemma iteration_rev [simp]: "iteration rev" by (simp add: iteration_def)

lemma InStringSlice_iff: "InStringSlice ss str \<longleftrightarrow> (\<exists>s \<in> set ss. EqualFold s str)"
  by (induction ss) auto

lemma SubtractStringSlice_filter: "SubtractStringSlice ss str = filter (\<lambda>s. \<not> EqualFold s str) ss"
  by (induction ss) auto

lemma set_SubtractStringSlice [simp]:
  "set (SubtractStringSlice ss str) = {s \<in> set ss. \<not> EqualFold s str}"
  by (auto simp: SubtractStringSlice_filter)

lemma distinct_SubtractStringSlice [simp]: "distinct ss \<Longrightarrow> distinct (SubtractStringSlice ss str)"
  by (simp add: SubtractStringSlice_filter)

lemma set_MergeStringSlices [simp]:
  "iteration it \<Longrightarrow> set (MergeStringSlices it a b) = set a \<union> set b"
  by (simp add: iteration_def MergeStringSlices_def)

lemma distinct_MergeStringSlices [simp]: "iteration it \<Longrightarrow> distinct (MergeStringSlices it a b)"
  by (simp add: iteration_def MergeStringSlices_def)

text \<open>
  The slice helpers of \<^verbatim>\<open>pkg/util\<close> behave as set operations up to letter case: the
  subtraction leaves exactly the strings that are not equal to the given one up to case, a string
  is reported in a slice exactly when subtracting it shortens the slice, and merging yields the
  union of both slices without duplicates, whatever order the map iteration picks.
\<close>

lemma string_slices_correct:
  assumes "iteration it"
  shows "set (SubtractStringSlice ss str) = {s \<in> set ss. \<not> EqualFold s str} \<and>
    (InStringSlice ss str \<longleftrightarrow> length (SubtractStringSlice ss str) < length ss) \<and>
    distinct (MergeStringSlices it a b) \<and> set (MergeStringSlices it a b) = set a \<union> set b"
proof -
  have "length (filter (\<lambda>s. \<not> EqualFold s str) ss) < length ss \<longleftrightarrow> (\<exists>s \<in> set ss. EqualFold s str)"
    by (induction ss) (auto simp: less_Suc_eq_le)
  with assms show ?thesis by (simp add: InStringSlice_iff SubtractStringSlice_filter set_filter)
qed

lemma string_slices_example:
  "iteration (rev :: string list \<Rightarrow> string list) \<and>
   SubtractStringSlice [''a:Tag'', ''b''] ''a:tag'' = [''b''] \<and>
   distinct (MergeStringSlices rev [''a'', ''b''] [''b'', ''c'']) \<and>
   MergeStringSlices rev [''a'', ''b''] [''b'', ''c''] = [''c'', ''b'', ''a'']"
proof -
  have "SubtractStringSlice [''a:Tag'', ''b''] ''a:tag'' = [''b'']"
    by code_simp
  then show ?thesis
    using string_slices_correct [of rev "[''a:Tag'', ''b'']" "''a:tag''" "[''a'', ''b'']" "[''b'', ''c'']"]
    by (simp add: MergeStringSlices_def)
qed

end
