(* ===== verification/GoJson.thy ===== *)
theory GoJson
  imports GoStrings
begin

section \<open>JSON documents\<close>

text \<open>
  What the stores use of Go's \<^verbatim>\<open>encoding/json\<close>, at the level of JSON documents; the textual layer
  (quoting, white space) is not modelled, nor are numbers with a fraction, which no field holds.
  \<^verbatim>\<open>json.Unmarshal\<close> of an object walks over its members in order; a member assigns to the struct
  field whose name equals the key up to case, unknown keys are skipped, \<^verbatim>\<open>null\<close> leaves a field
  alone, and a value of the wrong type or out of the field's range is an error.
\<close>

datatype json =
    JNull
  | JBool bool
  | JNum int
  | JStr string
  | JArr "json list"
  | JObj "(string \<times> json) list"

definition type_error :: goerror where
  "type_error = Errorf ''json: cannot unmarshal'' []"

definition asString :: "string \<Rightarrow> json \<Rightarrow> string result" where
  "asString old j = (case j of JStr s \<Rightarrow> Inr s | JNull \<Rightarrow> Inr old | _ \<Rightarrow> Inl type_error)"

definition asUint32 :: "32 word \<Rightarrow> json \<Rightarrow> 32 word result" where
  "asUint32 old j =
     (case j of
        JNum n \<Rightarrow> if 0 \<le> n \<and> n < 2 ^ 32 then Inr (word_of_int n) else Inl type_error
      | JNull \<Rightarrow> Inr old | _ \<Rightarrow> Inl type_error)"

definition asInt32 :: "32 word \<Rightarrow> json \<Rightarrow> 32 word result" where
  "asInt32 old j =
     (case j of
        JNum n \<Rightarrow> if - (2 ^ 31) \<le> n \<and> n < 2 ^ 31 then Inr (word_of_int n) else Inl type_error
      | JNull \<Rightarrow> Inr old | _ \<Rightarrow> Inl type_error)"

definition asInt64 :: "64 word \<Rightarrow> json \<Rightarrow> 64 word result" where
  "asInt64 old j =
     (case j of
        JNum n \<Rightarrow> if - (2 ^ 63) \<le> n \<and> n < 2 ^ 63 then Inr (word_of_int n) else Inl type_error
      | JNull \<Rightarrow> Inr old | _ \<Rightarrow> Inl type_error)"

fun unmarshalMembers :: "(string \<Rightarrow> json \<Rightarrow> 'a \<Rightarrow> 'a result) \<Rightarrow> (string \<times> json) list \<Rightarrow> 'a \<Rightarrow> 'a result" where
  "unmarshalMembers set_field [] x = Inr x"
| "unmarshalMembers set_field ((k, j) # ms) x =
     (case set_field k j x of Inl e \<Rightarrow> Inl e | Inr y \<Rightarrow> unmarshalMembers set_field ms y)"

definition unmarshalObject :: "(string \<Rightarrow> json \<Rightarrow> 'a \<Rightarrow> 'a result) \<Rightarrow> json \<Rightarrow> 'a \<Rightarrow> 'a result" where
  "unmarshalObject set_field j x =
     (case j of JObj ms \<Rightarrow> unmarshalMembers set_field ms x | JNull \<Rightarrow> Inr x | _ \<Rightarrow> Inl type_error)"

definition put :: "'a result \<Rightarrow> ('a \<Rightarrow> 'b) \<Rightarrow> 'b result" where
  "put r f = (case r of Inl e \<Rightarrow> Inl e | Inr x \<Rightarrow> Inr (f x))"

lemma put_Inr [simp]: "put (Inr x) f = Inr (f x)" by (simp add: put_def)
lemma put_Inl [simp]: "put (Inl e) f = Inl e" by (simp add: put_def)

lemma asString_JStr [simp]: "asString old (JStr s) = Inr s" by (simp add: asString_def)

lemma asUint32_uint [simp]: "asUint32 old (JNum (uint w)) = Inr w"
  using uint_lt2p [of w] by (simp add: asUint32_def)

lemma asInt32_sint [simp]: "asInt32 old (JNum (sint w)) = Inr w"
  using sint_ge [of w] sint_lt [of w] by (simp add: asInt32_def)

lemma asInt64_sint [simp]: "asInt64 old (JNum (sint w)) = Inr w"
  using sint_ge [of w] sint_lt [of w] by (simp add: asInt64_def)

text \<open>A codec: what it writes is not \<^verbatim>\<open>null\<close> and reads back as the same value.\<close>

definition json_codec :: "('a \<Rightarrow> json) \<Rightarrow> (json \<Rightarrow> 'a result) \<Rightarrow> bool" where
  "json_codec enc dec \<longleftrightarrow> (\<forall>c. enc c \<noteq> JNull \<and> dec (enc c) = Inr c)"

end
