(* ===== verification/ContainerStatus.thy ===== *)
theory ContainerStatus
  imports GoJson
begin

section \<open>Container status and its checkpoint\<close>

text \<open>
  \<^verbatim>\<open>pkg/store/container/status.go\<close>: the status of a container, the state it denotes, its checkpoint
  on disk and the storage that updates both in one transaction. Integers keep their Go widths:
  \<open>Pid\<close> is a \<^verbatim>\<open>uint32\<close>, \<open>ExitCode\<close> an \<^verbatim>\<open>int32\<close> (read with \<open>sint\<close>) and the timestamps are \<^verbatim>\<open>int64\<close>
  nanoseconds. The disk is a map from paths to JSON documents; whether \<^verbatim>\<open>continuity.AtomicWriteFile\<close>
  and the file operations fail is an argument (\<open>werr\<close>, \<open>None\<close> for success).
\<close>

datatype container_state = CREATED | RUNNING | EXITED | CONTAINER_UNKNOWN

fun state_number :: "container_state \<Rightarrow> nat" where
  "state_number CREATED = 0"
| "state_number RUNNING = 1"
| "state_number EXITED = 2"
| "state_number CONTAINER_UNKNOWN = 3"

lemma state_number_inject: "state_number s = state_number t \<longleftrightarrow> s = t"
  by (cases s; cases t) auto

text \<open>The order of the CRI enum: a container that is not unknown moves up in it.\<close>

instantiation container_state :: linorder
begin

definition less_eq_container_state :: "container_state \<Rightarrow> container_state \<Rightarrow> bool" where
  "s \<le> t \<longleftrightarrow> state_number s \<le> state_number t"

definition less_container_state :: "container_state \<Rightarrow> container_state \<Rightarrow> bool" where
  "s < t \<longleftrightarrow> state_number s < state_number t"

instance
  by standard (auto simp: less_eq_container_state_def less_container_state_def
      state_number_inject [symmetric])

end

record status =
  st_Pid :: "32 word"
  st_CreatedAt :: "64 word"
  st_StartedAt :: "64 word"
  st_FinishedAt :: "64 word"
  st_ExitCode :: "32 word"
  st_Reason :: string
  st_Message :: string
  st_Starting :: bool
  st_Removing :: bool
  st_Unknown :: bool

definition zero_status :: status where
  "zero_status = \<lparr>st_Pid = 0, st_CreatedAt = 0, st_StartedAt = 0, st_FinishedAt = 0, st_ExitCode = 0,
     st_Reason = [], st_Message = [], st_Starting = False, st_Removing = False, st_Unknown = False\<rparr>"

definition State :: "status \<Rightarrow> container_state" where
  "State s =
     (if st_Unknown s then CONTAINER_UNKNOWN
      else if st_FinishedAt s \<noteq> 0 then EXITED
      else if st_StartedAt s \<noteq> 0 then RUNNING
      else if st_CreatedAt s \<noteq> 0 then CREATED
      else CONTAINER_UNKNOWN)"

subsection \<open>Encoding\<close>

definition statusVersion :: string where
  "statusVersion = ''v1''"

record versionedStatus =
  vs_Version :: string
  vs_Status :: status

definition encode :: "status \<Rightarrow> json" where
  "encode s = JObj
     [(''Version'', JStr statusVersion),
      (''Pid'', JNum (uint (st_Pid s))),
      (''CreatedAt'', JNum (sint (st_CreatedAt s))),
      (''StartedAt'', JNum (sint (st_StartedAt s))),
      (''FinishedAt'', JNum (sint (st_FinishedAt s))),
      (''ExitCode'', JNum (sint (st_ExitCode s))),
      (''Reason'', JStr (st_Reason s)),
      (''Message'', JStr (st_Message s))]"

text \<open>The fields tagged \<^verbatim>\<open>json:"-"\<close> (Starting, Removing, Unknown) are neither written nor read.\<close>

definition setStatusField :: "string \<Rightarrow> json \<Rightarrow> versionedStatus \<Rightarrow> versionedStatus result" where
  "setStatusField k j v =
     (let s = vs_Status v; upd = (\<lambda>s'. v\<lparr>vs_Status := s'\<rparr>) in
      if EqualFold k ''Version'' then put (asString (vs_Version v) j) (\<lambda>x. v\<lparr>vs_Version := x\<rparr>)
      else if EqualFold k ''Pid'' then put (asUint32 (st_Pid s) j) (\<lambda>x. upd (s\<lparr>st_Pid := x\<rparr>))
      else if EqualFold k ''CreatedAt'' then put (asInt64 (st_CreatedAt s) j) (\<lambda>x. upd (s\<lparr>st_CreatedAt := x\<rparr>))
      else if EqualFold k ''StartedAt'' then put (asInt64 (st_StartedAt s) j) (\<lambda>x. upd (s\<lparr>st_StartedAt := x\<rparr>))
      else if EqualFold k ''FinishedAt'' then put (asInt64 (st_FinishedAt s) j) (\<lambda>x. upd (s\<lparr>st_FinishedAt := x\<rparr>))
      else if EqualFold k ''ExitCode'' then put (asInt32 (st_ExitCode s) j) (\<lambda>x. upd (s\<lparr>st_ExitCode := x\<rparr>))
      else if EqualFold k ''Reason'' then put (asString (st_Reason s) j) (\<lambda>x. upd (s\<lparr>st_Reason := x\<rparr>))
      else if EqualFold k ''Message'' then put (asString (st_Message s) j) (\<lambda>x. upd (s\<lparr>st_Message := x\<rparr>))
      else Inr v)"

definition decode :: "json \<Rightarrow> status result" where
  "decode data =
     (case unmarshalObject setStatusField data \<lparr>vs_Version = [], vs_Status = zero_status\<rparr> of
        Inl e \<Rightarrow> Inl e
      | Inr versioned \<Rightarrow>
          (if vs_Version versioned = statusVersion then Inr (vs_Status versioned)
           else Inl (Errorf ''unsupported version'' [])))"

subsection \<open>The status storage\<close>

type_synonym disk = "string \<rightharpoonup> json"

type_synonym updateFunc = "status \<Rightarrow> status result"

record statusStorage =
  ss_path :: string
  ss_status :: status

definition status_path :: "string \<Rightarrow> string" where
  "status_path root = root @ ''/status''"

definition StoreStatus :: "goerror option \<Rightarrow> string \<Rightarrow> status \<Rightarrow> disk \<Rightarrow> statusStorage result \<times> disk" where
  "StoreStatus werr root s d =
     (case werr of
        Some e \<Rightarrow> (Inl (Wrapf e ''failed to checkpoint status to %q'' [status_path root]), d)
      | None \<Rightarrow> (Inr \<lparr>ss_path = status_path root, ss_status = s\<rparr>, d(status_path root \<mapsto> encode s)))"

text \<open>\<open>rerr\<close> is the outcome of \<^verbatim>\<open>ioutil.ReadFile\<close> on a file that exists.\<close>

definition LoadStatus :: "goerror option \<Rightarrow> string \<Rightarrow> disk \<Rightarrow> status result" where
  "LoadStatus rerr root d =
     (case (rerr, d (status_path root)) of
        (_, None) \<Rightarrow> Inl (Wrapf ErrOSNotExist ''failed to read status from %q'' [status_path root])
      | (Some e, _) \<Rightarrow> Inl (Wrapf e ''failed to read status from %q'' [status_path root])
      | (None, Some data) \<Rightarrow>
          (case decode data of
             Inl e \<Rightarrow> Inl (Wrapf e ''failed to decode status %q'' [])
           | Inr s \<Rightarrow> Inr s))"

definition StorageGet :: "statusStorage \<Rightarrow> status" where
  "StorageGet st = ss_status st"

definition UpdateSync ::
    "goerror option \<Rightarrow> updateFunc \<Rightarrow> statusStorage \<Rightarrow> disk \<Rightarrow> unit result \<times> statusStorage \<times> disk" where
  "UpdateSync werr u st d =
     (case u (ss_status st) of
        Inl e \<Rightarrow> (Inl e, st, d)
      | Inr newStatus \<Rightarrow>
          (case werr of
             Some e \<Rightarrow> (Inl (Wrapf e ''failed to checkpoint status to %q'' [ss_path st]), st, d)
           | None \<Rightarrow> (Inr (), st\<lparr>ss_status := newStatus\<rparr>, d(ss_path st \<mapsto> encode newStatus))))"

definition Update :: "updateFunc \<Rightarrow> statusStorage \<Rightarrow> unit result \<times> statusStorage" where
  "Update u st =
     (case u (ss_status st) of
        Inl e \<Rightarrow> (Inl e, st)
      | Inr newStatus \<Rightarrow> (Inr (), st\<lparr>ss_status := newStatus\<rparr>))"

text \<open>
  \<^verbatim>\<open>Delete\<close> renames the checkpoint to a temporary name next to its directory and removes that.
  \<open>rerr\<close> is the outcome of the rename of an existing file and \<open>derr\<close> that of the removal; renaming
  a missing file fails with \<^verbatim>\<open>os.ErrNotExist\<close>, which is ignored.
\<close>

definition del_path :: "string \<Rightarrow> string" where
  "del_path p = (let r = rev p in
     rev (drop 1 (dropWhile (\<lambda>c. c \<noteq> CHR ''/'') r)) @ ''.del-'' @ rev (takeWhile (\<lambda>c. c \<noteq> CHR ''/'') r))"

definition StorageDelete ::
    "goerror option \<Rightarrow> goerror option \<Rightarrow> statusStorage \<Rightarrow> disk \<Rightarrow> unit result \<times> disk" where
  "StorageDelete rerr derr st d =
     (let temp = del_path (ss_path st) in
      case (if d (ss_path st) = None then None else rerr) of
        Some e \<Rightarrow> (Inl e, d)
      | None \<Rightarrow>
          (let d' = (case d (ss_path st) of None \<Rightarrow> d | Some j \<Rightarrow> d(ss_path st := None, temp \<mapsto> j)) in
           case derr of Some e \<Rightarrow> (Inl e, d') | None \<Rightarrow> (Inr (), d'(temp := None))))"

subsection \<open>The contract of a status storage\<close>

text \<open>
  \<^verbatim>\<open>StatusStorage\<close> promises that an update is one transaction: it either installs what the update
  function computes from the current value, or leaves the storage as it was. The clients of the
  storage only rely on that.
\<close>

locale status_storage =
  fixes cur :: "'s \<Rightarrow> 'v"
    and upd :: "('v \<Rightarrow> 'v result) \<Rightarrow> 's \<Rightarrow> unit result \<times> 's"
  assumes upd_Inr: "upd u s = (Inr (), s') \<Longrightarrow> u (cur s) = Inr (cur s')"
    and upd_Inl: "upd u s = (Inl e, s') \<Longrightarrow> s' = s"
    and upd_refused: "u (cur s) = Inl e \<Longrightarrow> upd u s = (Inl e, s)"
begin

text \<open>An update function that is the identity on some observation cannot change it.\<close>

lemma upd_frame:
  assumes "upd u s = (r, s')" "\<And>x y. u x = Inr y \<Longrightarrow> obs y = obs x"
  shows "obs (cur s') = obs (cur s)"
proof (cases r)
  case (Inr x)
  with assms(1) have "u (cur s) = Inr (cur s')" by (intro upd_Inr) simp
  then show ?thesis by (rule assms(2))
qed (use assms(1) upd_Inl in blast)

text \<open>A flag taken by a guarded update is taken by at most one of two contenders.\<close>

lemma upd_exclusive:
  assumes "\<And>x. guard x \<Longrightarrow> \<exists>e. u x = Inl e" "\<And>x y. v x = Inr y \<Longrightarrow> guard y"
    and "upd v s = (Inr (), s')"
  shows "\<exists>e. upd u s' = (Inl e, s')"
proof -
  have "guard (cur s')" using upd_Inr [OF assms(3)] assms(2) by blast
  then show ?thesis using assms(1) upd_refused by blast
qed

end

interpretation upd: status_storage ss_status Update
  by unfold_locales (auto simp: Update_def split: sum.splits)

interpretation usync: status_storage "\<lambda>s. ss_status (fst s)"
    "\<lambda>u s. UpdateSync werr u (fst s) (snd s)"
  by unfold_locales (auto simp: UpdateSync_def split: sum.splits option.splits)

subsection \<open>The fake storage\<close>

text \<open>\<^verbatim>\<open>pkg/store/container/fake_status.go\<close>: a storage with no backend, \<^verbatim>\<open>UpdateSync\<close> being \<^verbatim>\<open>Update\<close>.\<close>

record fakeStatusStorage =
  fs_status :: status

definition Fake_Get :: "fakeStatusStorage \<Rightarrow> status" where
  "Fake_Get f = fs_status f"

definition Fake_Update :: "updateFunc \<Rightarrow> fakeStatusStorage \<Rightarrow> unit result \<times> fakeStatusStorage" where
  "Fake_Update u f =
     (case u (fs_status f) of
        Inl e \<Rightarrow> (Inl e, f)
      | Inr newStatus \<Rightarrow> (Inr (), f\<lparr>fs_status := newStatus\<rparr>))"

definition Fake_UpdateSync :: "updateFunc \<Rightarrow> fakeStatusStorage \<Rightarrow> unit result \<times> fakeStatusStorage" where
  "Fake_UpdateSync u f = Fake_Update u f"

definition Fake_Delete :: "fakeStatusStorage \<Rightarrow> unit result" where
  "Fake_Delete f = Inr ()"

interpretation fake: status_storage Fake_Get Fake_UpdateSync
  by unfold_locales (auto simp: Fake_Get_def Fake_UpdateSync_def Fake_Update_def split: sum.splits)

subsection \<open>What survives a restart\<close>

text \<open>The part of a status that the checkpoint holds.\<close>

definition durable :: "status \<Rightarrow> status" where
  "durable s = s\<lparr>st_Starting := False, st_Removing := False, st_Unknown := False\<rparr>"

definition checkpointed :: "statusStorage \<Rightarrow> disk \<Rightarrow> bool" where
  "checkpointed st d \<longleftrightarrow> d (ss_path st) = Some (encode (ss_status st))"

definition transient :: "updateFunc \<Rightarrow> bool" where
  "transient u \<longleftrightarrow> (\<forall>x y. u x = Inr y \<longrightarrow> durable y = durable x)"

lemma EqualFold_status_keys:
  "\<not> EqualFold ''StartedAt'' ''CreatedAt''" "\<not> EqualFold ''Message'' ''Version''"
  by code_simp+

lemma decode_encode: "decode (encode s) = Inr (durable s)"
  by (simp add: decode_def encode_def unmarshalObject_def setStatusField_def Let_def zero_status_def
      EqualFold_status_keys durable_def)

lemma encode_durable: "encode (durable s) = encode s"
  by (simp add: encode_def durable_def)

lemma encode_eq_iff: "encode s = encode t \<longleftrightarrow> durable s = durable t"
  by (metis decode_encode encode_durable sum.inject(2))

lemma State_durable: "\<not> st_Unknown s \<Longrightarrow> State (durable s) = State s"
  by (simp add: State_def durable_def)

lemma UpdateSync_checkpointed:
  "UpdateSync werr u st d = (r, st', d') \<Longrightarrow> checkpointed st d \<Longrightarrow> checkpointed st' d'"
  by (auto simp: UpdateSync_def checkpointed_def split: sum.splits option.splits)

lemma Update_checkpointed:
  assumes "Update u st = (r, st')" "transient u" "checkpointed st d"
  shows "checkpointed st' d"
proof -
  have "ss_path st' = ss_path st" using assms(1) by (auto simp: Update_def split: sum.splits)
  moreover have "durable (ss_status st') = durable (ss_status st)"
    using upd.upd_frame [OF assms(1), of durable] assms(2) by (auto simp: transient_def)
  ultimately show ?thesis
    using assms(3) by (metis checkpointed_def encode_eq_iff)
qed

text \<open>
  One storage under the calls the server makes: \<^verbatim>\<open>UpdateSync\<close> with any function and any outcome of the
  write, and \<^verbatim>\<open>Update\<close> with functions that touch the transient flags only.
\<close>

inductive storage_step :: "statusStorage \<times> disk \<Rightarrow> statusStorage \<times> disk \<Rightarrow> bool" where
  update_sync: "UpdateSync werr u st d = (r, st', d') \<Longrightarrow> storage_step (st, d) (st', d')"
| update: "Update u st = (r, st') \<Longrightarrow> transient u \<Longrightarrow> storage_step (st, d) (st', d)"

interpretation storage: inv_system "\<lambda>(st, d). \<exists>root s d0. StoreStatus None root s d0 = (Inr st, d) \<and> ss_path st = status_path root0"
    storage_step "\<lambda>(st, d). checkpointed st d \<and> ss_path st = status_path root0"
proof
  fix x assume "case x of (st, d) \<Rightarrow> \<exists>root s d0. StoreStatus None root s d0 = (Inr st, d) \<and> ss_path st = status_path root0"
  then show "case x of (st, d) \<Rightarrow> checkpointed st d \<and> ss_path st = status_path root0"
    by (auto simp: StoreStatus_def checkpointed_def)
next
  fix x y assume inv: "case x of (st, d) \<Rightarrow> checkpointed st d \<and> ss_path st = status_path root0"
    and st: "storage_step x y"
  from st show "case y of (st, d) \<Rightarrow> checkpointed st d \<and> ss_path st = status_path root0"
  proof cases
    case (update_sync werr u st d r st' d')
    moreover have "ss_path st' = ss_path st"
      using update_sync(3) by (auto simp: UpdateSync_def split: sum.splits option.splits)
    ultimately show ?thesis using inv UpdateSync_checkpointed by auto
  next
    case (update u st r st' d)
    moreover have "ss_path st' = ss_path st"
      using update(3) by (auto simp: Update_def split: sum.splits)
    ultimately show ?thesis using inv Update_checkpointed by auto
  qed
qed

text \<open>
  The checkpoint is a faithful copy of the status. Decoding what \<^verbatim>\<open>encode\<close> wrote gives the status
  back with exactly the transient flags cleared, so two statuses have the same checkpoint iff they
  differ in those flags only, and the state of a known container is the same after the round trip.
\<close>

lemma status_roundtrip:
  "decode (encode s) = Inr (durable s) \<and>
   (encode s = encode t \<longleftrightarrow> durable s = durable t) \<and>
   (st_Unknown s \<or> State (durable s) = State s)"
  by (simp add: decode_encode encode_eq_iff State_durable disj_imp)


definition started :: updateFunc where
  "started s = (if State s \<noteq> CREATED then Inl (Errorf ''bad state'' []) else Inr (s\<lparr>st_Pid := 7, st_StartedAt := 5\<rparr>))"


end
