(* ===== verification/TruncIndex.thy ===== *)
theory TruncIndex
  imports GoStrings
begin

section \<open>The index of truncated ids\<close>

text \<open>
  \<^verbatim>\<open>truncindex.TruncIndex\<close> of the vendored docker package, through which both object stores resolve
  ids that a client may abbreviate to a unique prefix. The Patricia trie is represented by the list
  of the keys it holds; \<open>VisitSubtree\<close> calls the visitor on the keys that extend the given prefix,
  and stops at the first error.
\<close>

record truncindex =
  ti_ids :: "string set"
  ti_trie :: "string list"

definition NewTruncIndex :: truncindex where
  "NewTruncIndex = \<lparr>ti_ids = {}, ti_trie = []\<rparr>"

definition TruncIndex_Add :: "truncindex \<Rightarrow> string \<Rightarrow> unit result \<times> truncindex" where
  "TruncIndex_Add x i =
     (if CHR '' '' \<in> set i then (Inl ErrIllegalChar, x)
      else if i = [] then (Inl ErrEmptyPrefix, x)
      else if i \<in> ti_ids x then (Inl (Errorf ''id already exists: %s'' [i]), x)
      else
        (let x' = x\<lparr>ti_ids := insert i (ti_ids x)\<rparr> in
         if i \<in> set (ti_trie x') then (Inl (Errorf ''failed to insert id: %s'' [i]), x')
         else (Inr (), x'\<lparr>ti_trie := ti_trie x' @ [i]\<rparr>)))"

definition TruncIndex_Delete :: "truncindex \<Rightarrow> string \<Rightarrow> unit result \<times> truncindex" where
  "TruncIndex_Delete x i =
     (if i \<notin> ti_ids x \<or> i = [] then (Inl (Errorf ''no such id: %s'' [i]), x)
      else
        (let x' = x\<lparr>ti_ids := ti_ids x - {i}\<rparr> in
         if i \<notin> set (ti_trie x') then (Inl (Errorf ''no such id: %s'' [i]), x')
         else (Inr (), x'\<lparr>ti_trie := filter (\<lambda>j. j \<noteq> i) (ti_trie x')\<rparr>)))"

text \<open>The visitor keeps the id found so far and reports an error on the second one.\<close>

fun subTreeVisit :: "string \<Rightarrow> string \<Rightarrow> string list \<Rightarrow> string result" where
  "subTreeVisit s i [] = Inr i"
| "subTreeVisit s i (p # ps) =
     (if i \<noteq> [] then Inl (ErrAmbiguousPrefix s) else subTreeVisit s p ps)"

definition TruncIndex_Get :: "truncindex \<Rightarrow> string \<Rightarrow> string result" where
  "TruncIndex_Get x s =
     (if s = [] then Inl ErrEmptyPrefix
      else case subTreeVisit s [] (filter (prefix s) (ti_trie x)) of
        Inl e \<Rightarrow> Inl e
      | Inr i \<Rightarrow> if i \<noteq> [] then Inr i else Inl ErrIndexNotExist)"

definition ti_inv :: "truncindex \<Rightarrow> bool" where
  "ti_inv x \<longleftrightarrow> distinct (ti_trie x) \<and> set (ti_trie x) = ti_ids x \<and> [] \<notin> ti_ids x"

definition matches :: "string set \<Rightarrow> string \<Rightarrow> string set" where
  "matches I s = {i \<in> I. prefix s i}"

subsection \<open>The interface of an id index\<close>

locale id_index =
  fixes add :: "'x \<Rightarrow> string \<Rightarrow> unit result \<times> 'x"
    and del :: "'x \<Rightarrow> string \<Rightarrow> unit result \<times> 'x"
    and find :: "'x \<Rightarrow> string \<Rightarrow> string result"
    and ids :: "'x \<Rightarrow> string set"
    and ok :: "'x \<Rightarrow> bool"
  assumes find_Inr: "ok x \<Longrightarrow> find x s = Inr i \<longleftrightarrow> s \<noteq> [] \<and> matches (ids x) s = {i}"
    and find_missing: "ok x \<Longrightarrow> find x s = Inl ErrIndexNotExist \<longleftrightarrow> s \<noteq> [] \<and> matches (ids x) s = {}"
    and add_ids: "ok x \<Longrightarrow> add x i = (res, x') \<Longrightarrow>
        ok x' \<and> ids x' = (if res = Inr () then insert i (ids x) else ids x)"
    and add_Inr: "ok x \<Longrightarrow> fst (add x i) = Inr () \<longleftrightarrow> i \<noteq> [] \<and> CHR '' '' \<notin> set i \<and> i \<notin> ids x"
    and del_ids: "ok x \<Longrightarrow> i \<in> ids x \<Longrightarrow> del x i = (res, x') \<Longrightarrow> res = Inr () \<and> ok x' \<and> ids x' = ids x - {i}"
    and ids_nonempty: "ok x \<Longrightarrow> i \<in> ids x \<Longrightarrow> i \<noteq> []"
begin

text \<open>A full id resolves to itself unless it is a proper prefix of another id.\<close>

lemma find_full:
  assumes "ok x" "i \<in> ids x" "\<And>j. j \<in> ids x \<Longrightarrow> prefix i j \<Longrightarrow> j = i"
  shows "find x i = Inr i"
  using assms ids_nonempty [OF assms(1,2)] by (auto simp: find_Inr matches_def)

lemma find_full_equal_length:
  assumes "ok x" "i \<in> ids x" "\<And>j. j \<in> ids x \<Longrightarrow> length j = length i"
  shows "find x i = Inr i"
  using assms(1,2) by (rule find_full) (metis assms(3) not_equal_is_parallel parallel_def)

lemma find_prefix: "ok x \<Longrightarrow> find x s = Inr i \<Longrightarrow> i \<in> ids x \<and> prefix s i"
  by (auto simp: find_Inr matches_def)

end

subsection \<open>The trie-based index implements it\<close>

lemma subTreeVisit_nonempty:
  "i \<noteq> [] \<Longrightarrow> subTreeVisit s i ps = (if ps = [] then Inr i else Inl (ErrAmbiguousPrefix s))"
  by (cases ps) auto

lemma subTreeVisit_start:
  "[] \<notin> set ps \<Longrightarrow> subTreeVisit s [] ps =
     (case ps of [] \<Rightarrow> Inr [] | [p] \<Rightarrow> Inr p | _ \<Rightarrow> Inl (ErrAmbiguousPrefix s))"
  by (cases ps) (auto simp: subTreeVisit_nonempty split: list.splits)

lemma Get_cases:
  assumes "ti_inv x"
  shows "TruncIndex_Get x s =
    (if s = [] then Inl ErrEmptyPrefix
     else case filter (prefix s) (ti_trie x) of
       [] \<Rightarrow> Inl ErrIndexNotExist | [i] \<Rightarrow> Inr i | _ \<Rightarrow> Inl (ErrAmbiguousPrefix s))"
proof -
  have ne: "[] \<notin> set (filter (prefix s) (ti_trie x))" using assms by (auto simp: ti_inv_def)
  show ?thesis
    using ne by (cases "filter (prefix s) (ti_trie x)")
      (auto simp: TruncIndex_Get_def subTreeVisit_nonempty split: list.splits)
qed

lemma distinct_set_singleton: "distinct xs \<Longrightarrow> set xs = {x} \<Longrightarrow> xs = [x]"
  by (cases xs) (auto simp: subset_singleton_iff)

lemma filter_matches:
  assumes "ti_inv x"
  shows "filter (prefix s) (ti_trie x) = [] \<longleftrightarrow> matches (ti_ids x) s = {}"
    and "filter (prefix s) (ti_trie x) = [i] \<longleftrightarrow> matches (ti_ids x) s = {i}"
proof -
  have set: "set (filter (prefix s) (ti_trie x)) = matches (ti_ids x) s"
    using assms by (auto simp: ti_inv_def matches_def)
  then show "filter (prefix s) (ti_trie x) = [] \<longleftrightarrow> matches (ti_ids x) s = {}"
    by (metis set_empty)
  have "distinct (filter (prefix s) (ti_trie x))" using assms by (simp add: ti_inv_def)
  with set show "filter (prefix s) (ti_trie x) = [i] \<longleftrightarrow> matches (ti_ids x) s = {i}"
    by (metis distinct_set_singleton list.set(1) list.set(2))
qed

interpretation tidx: id_index TruncIndex_Add TruncIndex_Delete TruncIndex_Get ti_ids ti_inv
proof
  fix x s i assume i: "ti_inv x"
  show "TruncIndex_Get x s = Inr i \<longleftrightarrow> s \<noteq> [] \<and> matches (ti_ids x) s = {i}"
    unfolding filter_matches(2) [OF i, symmetric] Get_cases [OF i] by (auto split: list.splits)
  show "TruncIndex_Get x s = Inl ErrIndexNotExist \<longleftrightarrow> s \<noteq> [] \<and> matches (ti_ids x) s = {}"
    unfolding filter_matches(1) [OF i, symmetric] Get_cases [OF i] by (auto split: list.splits)
qed (auto simp: ti_inv_def TruncIndex_Add_def TruncIndex_Delete_def Let_def split: if_splits)

lemma ti_inv_New [simp]: "ti_inv NewTruncIndex" "ti_ids NewTruncIndex = {}"
  by (simp_all add: ti_inv_def NewTruncIndex_def)

end
