(* ===== verification/LabelStore.thy ===== *)
theory LabelStore
  imports GoStrings
begin

section \<open>The SELinux label store\<close>

text \<open>
  \<^verbatim>\<open>pkg/store/label/label.go\<close>: reference counts of SELinux levels in use. The store calls
  \<^verbatim>\<open>selinux.ReserveLabel\<close> when a level is used for the first time and \<^verbatim>\<open>selinux.ReleaseLabel\<close> when its
  last user goes away. Those calls are the entries of \<open>ls_calls\<close>, newest first.
  \<open>NewContext\<close> is \<^verbatim>\<open>selinux.NewContext\<close> of the vendored go-selinux package, on Linux.
\<close>

datatype label_call = CallReserver string | CallReleaser string

record label_store =
  ls_levels :: "string \<rightharpoonup> int"
  ls_calls :: "label_call list"

definition NewLabelStore :: label_store where
  "NewLabelStore = \<lparr>ls_levels = Map.empty, ls_calls = []\<rparr>"

definition NewContext :: "string \<Rightarrow> (string \<rightharpoonup> string) result" where
  "NewContext lbl =
     (if length lbl \<noteq> 0 then
        (let con = SplitN 4 (CHR '':'') lbl in
         if length con < 3 then Inl (Errorf ''Invalid Label'' [])
         else Inr ((\<lambda>f. if length con > 3 then f(''level'' \<mapsto> con ! 3) else f)
                   [''user'' \<mapsto> con ! 0, ''role'' \<mapsto> con ! 1, ''type'' \<mapsto> con ! 2]))
      else Inr Map.empty)"

text \<open>A missing key of a Go map reads as the zero value, here the empty string.\<close>

definition ctx_level :: "(string \<rightharpoonup> string) \<Rightarrow> string" where
  "ctx_level c = (case c ''level'' of None \<Rightarrow> [] | Some l \<Rightarrow> l)"

definition Label_Reserve :: "label_store \<Rightarrow> string \<Rightarrow> unit result \<times> label_store" where
  "Label_Reserve s lbl =
     (case NewContext lbl of
        Inl e \<Rightarrow> (Inl e, s)
      | Inr c \<Rightarrow>
          (let level = ctx_level c in
           if level = [] then (Inr (), s)
           else
             (let s' = (if ls_levels s level = None then s\<lparr>ls_calls := CallReserver lbl # ls_calls s\<rparr> else s);
                  n = (case ls_levels s level of None \<Rightarrow> 0 | Some n \<Rightarrow> n)
              in (Inr (), s'\<lparr>ls_levels := (ls_levels s')(level \<mapsto> n + 1)\<rparr>))))"

definition Label_Release :: "label_store \<Rightarrow> string \<Rightarrow> label_store" where
  "Label_Release s lbl =
     (case NewContext lbl of
        Inl e \<Rightarrow> s
      | Inr c \<Rightarrow>
          (let level = ctx_level c in
           if level = [] then s
           else
             (case ls_levels s level of
                None \<Rightarrow> s
              | Some count \<Rightarrow>
                  (if count = 1 then
                     s\<lparr>ls_calls := CallReleaser lbl # ls_calls s, ls_levels := (ls_levels s)(level := None)\<rparr>
                   else if count < 1 then s\<lparr>ls_levels := (ls_levels s)(level := None)\<rparr>
                   else s\<lparr>ls_levels := (ls_levels s)(level \<mapsto> count - 1)\<rparr>))))"

subsection \<open>The contract: one SELinux reservation per level in use\<close>

text \<open>
  \<open>level_of lbl\<close> is the level a label carries, if it is well-formed and has one; \<open>uses s l\<close> the
  number of live users of the level; \<open>held\<close> the levels for which SELinux holds a reservation after
  the logged calls.
\<close>

definition level_of :: "string \<Rightarrow> string option" where
  "level_of lbl =
     (case NewContext lbl of
        Inl e \<Rightarrow> None
      | Inr c \<Rightarrow> (if ctx_level c = [] then None else Some (ctx_level c)))"

definition uses :: "label_store \<Rightarrow> string \<Rightarrow> nat" where
  "uses s l = (case ls_levels s l of None \<Rightarrow> 0 | Some n \<Rightarrow> nat n)"

fun held :: "label_call list \<Rightarrow> string set" where
  "held [] = {}"
| "held (CallReserver lbl # cs) = held cs \<union> set_option (level_of lbl)"
| "held (CallReleaser lbl # cs) = held cs - set_option (level_of lbl)"

definition lab_inv :: "label_store \<Rightarrow> bool" where
  "lab_inv s \<longleftrightarrow> (\<forall>l n. ls_levels s l = Some n \<longrightarrow> 1 \<le> n) \<and> held (ls_calls s) = dom (ls_levels s)"

inductive lab_step :: "label_store \<Rightarrow> label_store \<Rightarrow> bool" where
  reserve: "Label_Reserve s lbl = (res, s') \<Longrightarrow> lab_step s s'"
| release: "lab_step s (Label_Release s lbl)"

lemma Reserve_no_level: "level_of lbl = None \<Longrightarrow> snd (Label_Reserve s lbl) = s"
  by (auto simp: level_of_def Label_Reserve_def Let_def split: sum.splits if_splits)

lemma Reserve_level:
  "level_of lbl = Some l \<Longrightarrow> Label_Reserve s lbl =
     (Inr (), s\<lparr>ls_calls := (if ls_levels s l = None then [CallReserver lbl] else []) @ ls_calls s,
               ls_levels := (ls_levels s)(l \<mapsto> (case ls_levels s l of None \<Rightarrow> 0 | Some n \<Rightarrow> n) + 1)\<rparr>)"
  by (auto simp: level_of_def Label_Reserve_def Let_def split: sum.splits if_splits)

lemma Release_no_level: "level_of lbl = None \<Longrightarrow> Label_Release s lbl = s"
  by (auto simp: level_of_def Label_Release_def Let_def split: sum.splits if_splits)

lemma Release_level:
  "level_of lbl = Some l \<Longrightarrow> Label_Release s lbl =
     (case ls_levels s l of
        None \<Rightarrow> s
      | Some n \<Rightarrow>
          if n = 1 then s\<lparr>ls_calls := CallReleaser lbl # ls_calls s, ls_levels := (ls_levels s)(l := None)\<rparr>
          else if n < 1 then s\<lparr>ls_levels := (ls_levels s)(l := None)\<rparr>
          else s\<lparr>ls_levels := (ls_levels s)(l \<mapsto> n - 1)\<rparr>)"
  by (auto simp: level_of_def Label_Release_def Let_def split: sum.splits if_splits option.splits)

lemma lab_inv_Reserve: "lab_inv s \<Longrightarrow> lab_inv (snd (Label_Reserve s lbl))"
  by (cases "level_of lbl") (force simp: Reserve_no_level Reserve_level lab_inv_def split: option.splits if_splits)+

lemma lab_inv_Release: "lab_inv s \<Longrightarrow> lab_inv (Label_Release s lbl)"
  by (cases "level_of lbl") (force simp: Release_no_level Release_level lab_inv_def split: option.splits if_splits)+

interpretation lab: inv_system "\<lambda>s. s = NewLabelStore" lab_step lab_inv
proof
  fix s t assume "lab_inv s" and st: "lab_step s t"
  then show "lab_inv t"
    by (cases rule: lab_step.cases [OF st]) (auto dest: lab_inv_Reserve lab_inv_Release simp: prod_eq_iff)
qed (simp add: lab_inv_def NewLabelStore_def)

lemma uses_Reserve:
  "lab_inv s \<Longrightarrow> uses (snd (Label_Reserve s lbl)) l = uses s l + (if level_of lbl = Some l then 1 else 0)"
  by (cases "level_of lbl")
     (force simp: Reserve_no_level Reserve_level uses_def lab_inv_def nat_add_distrib split: option.splits if_splits)+

lemma uses_Release:
  "lab_inv s \<Longrightarrow> uses (Label_Release s lbl) l = uses s l - (if level_of lbl = Some l then 1 else 0)"
  by (cases "level_of lbl")
     (force simp: Release_no_level Release_level uses_def lab_inv_def nat_diff_distrib split: option.splits if_splits)+

text \<open>
  C5: after any sequence of reservations and releases, SELinux holds a reservation for exactly the
  levels with at least one live user; a successful \<^verbatim>\<open>Reserve\<close> adds one user of the label's level and
  \<^verbatim>\<open>Release\<close> removes one, both leaving every other level alone.
\<close>

theorem label_refcount:
  assumes "lab_step\<^sup>*\<^sup>* NewLabelStore s"
  shows "held (ls_calls s) = {l. 0 < uses s l} \<and>
    uses (snd (Label_Reserve s lbl)) l = uses s l + (if level_of lbl = Some l then 1 else 0) \<and>
    uses (Label_Release s lbl) l = uses s l - (if level_of lbl = Some l then 1 else 0)"
proof -
  have i: "lab_inv s" using lab.inv_reachable [OF refl assms] .
  then have "held (ls_calls s) = {l. 0 < uses s l}"
    by (force simp: lab_inv_def uses_def split: option.splits)
  with i show ?thesis by (simp add: uses_Reserve uses_Release)
qed

definition lab_example :: label_store where
  "lab_example = snd (Label_Reserve NewLabelStore ''u:r:t:s0:c1,c2'')"

lemma lab_example_reachable: "lab_step\<^sup>*\<^sup>* NewLabelStore lab_example"
  unfolding lab_example_def
  by (rule r_into_rtranclp) (rule lab_step.reserve [OF prod.collapse [symmetric]])

theorem label_refcount_witness:
  "held (ls_calls lab_example) = {''s0:c1,c2''} \<and>
   uses (Label_Release lab_example ''u:r:t:s0:c1,c2'') ''s0:c1,c2'' = 0"
proof -
  have lv: "level_of ''u:r:t:s0:c1,c2'' = Some ''s0:c1,c2''"
    by (simp add: level_of_def NewContext_def ctx_level_def numeral_eq_Suc)
  have u: "uses lab_example l = (if l = ''s0:c1,c2'' then 1 else 0)" for l
    by (simp add: lab_example_def Reserve_level [OF lv] NewLabelStore_def uses_def)
  show ?thesis
    using label_refcount [OF lab_example_reachable, of "''u:r:t:s0:c1,c2''" "''s0:c1,c2''"]
    by (auto simp: u lv)
qed

end
