(* ===== verification/ObjectStore.thy ===== *)
theory ObjectStore
  imports TruncIndex LabelStore
begin

section \<open>The contract of the object stores\<close>

text \<open>
  The container store and the sandbox store have one contract: a finite map from full ids to
  objects, looked up by unique prefixes, which keeps one SELinux label reservation per object in
  a label store that both share. \<open>object_store\<close> states it; the theories of the two stores
  interpret it on their definitions.
\<close>

text \<open>How many objects of a map use a level.\<close>

definition level_users :: "('o \<Rightarrow> string) \<Rightarrow> (string \<rightharpoonup> 'o) \<Rightarrow> string \<Rightarrow> nat" where
  "level_users lbl m l = card {i. \<exists>obj. m i = Some obj \<and> level_of (lbl obj) = Some l}"

lemma level_users_empty [simp]: "level_users lbl Map.empty l = 0"
  by (simp add: level_users_def)

lemma level_users_upd:
  assumes "finite (dom m)" "m i = None"
  shows "level_users lbl (m(i \<mapsto> obj)) l = level_users lbl m l + (if level_of (lbl obj) = Some l then 1 else 0)"
proof -
  let ?S = "{i. \<exists>obj. m i = Some obj \<and> level_of (lbl obj) = Some l}"
  have fin: "finite ?S" by (rule finite_subset [OF _ assms(1)]) auto
  have "{j. \<exists>o'. (m(i \<mapsto> obj)) j = Some o' \<and> level_of (lbl o') = Some l} =
      (if level_of (lbl obj) = Some l then insert i ?S else ?S)"
    using assms(2) by (auto split: if_splits)
  then show ?thesis using fin assms(2) by (simp add: level_users_def card_insert_if)
qed

lemma level_users_del:
  assumes "finite (dom m)" "m i = Some obj"
  shows "level_users lbl (m(i := None)) l = level_users lbl m l - (if level_of (lbl obj) = Some l then 1 else 0)"
    and "level_of (lbl obj) = Some l \<Longrightarrow> 0 < level_users lbl m l"
proof -
  have "level_users lbl ((m(i := None))(i \<mapsto> obj)) l =
      level_users lbl (m(i := None)) l + (if level_of (lbl obj) = Some l then 1 else 0)"
    using assms(1) by (intro level_users_upd) auto
  moreover have "(m(i := None))(i \<mapsto> obj) = m" using assms(2) by auto
  ultimately have eq: "level_users lbl m l =
      level_users lbl (m(i := None)) l + (if level_of (lbl obj) = Some l then 1 else 0)" by simp
  then show "level_users lbl (m(i := None)) l = level_users lbl m l - (if level_of (lbl obj) = Some l then 1 else 0)"
    by simp
  show "0 < level_users lbl m l" if "level_of (lbl obj) = Some l" using eq that by simp
qed

locale object_store =
  fixes add :: "'o \<Rightarrow> 's \<Rightarrow> label_store \<Rightarrow> unit result \<times> 's \<times> label_store"
    and get :: "'s \<Rightarrow> string \<Rightarrow> 'o result"
    and del :: "string \<Rightarrow> 's \<Rightarrow> label_store \<Rightarrow> 's \<times> label_store"
    and objs :: "'s \<Rightarrow> string \<rightharpoonup> 'o"
    and ident :: "'o \<Rightarrow> string"
    and lbl :: "'o \<Rightarrow> string"
    and ok :: "'s \<Rightarrow> bool"
  assumes ok_ident: "ok s \<Longrightarrow> objs s i = Some obj \<Longrightarrow> ident obj = i"
    and ok_finite: "ok s \<Longrightarrow> finite (dom (objs s))"
    and add_Inr: "ok s \<Longrightarrow> add obj s L = (Inr (), s', L') \<Longrightarrow>
        ok s' \<and> objs s (ident obj) = None \<and> objs s' = (objs s)(ident obj \<mapsto> obj) \<and> Label_Reserve L (lbl obj) = (Inr (), L')"
    and add_Inl: "ok s \<Longrightarrow> add obj s L = (Inl e, s', L') \<Longrightarrow> s' = s"
    and add_ok_iff: "ok s \<Longrightarrow> fst (add obj s L) = Inr () \<longleftrightarrow>
        objs s (ident obj) = None \<and> fst (Label_Reserve L (lbl obj)) = Inr () \<and>
        ident obj \<noteq> [] \<and> CHR '' '' \<notin> set (ident obj)"
    and get_Inr: "ok s \<Longrightarrow> get s x = Inr obj \<longleftrightarrow>
        x \<noteq> [] \<and> matches (dom (objs s)) x = {ident obj} \<and> objs s (ident obj) = Some obj"
    and get_missing: "ok s \<Longrightarrow> get s x = Inl ErrNotExist \<longleftrightarrow> x \<noteq> [] \<and> matches (dom (objs s)) x = {}"
    and del_found: "ok s \<Longrightarrow> get s x = Inr obj \<Longrightarrow> del x s L = (s', L') \<Longrightarrow>
        ok s' \<and> objs s' = (objs s)(ident obj := None) \<and> L' = Label_Release L (lbl obj)"
    and del_missing: "ok s \<Longrightarrow> get s x = Inl e \<Longrightarrow> del x s L = (s, L)"
begin

lemma get_objs: "ok s \<Longrightarrow> get s x = Inr obj \<Longrightarrow> objs s (ident obj) = Some obj \<and> prefix x (ident obj)"
  by (auto simp: get_Inr matches_def)

text \<open>Ids of one length resolve by their full text.\<close>

lemma get_full:
  assumes "ok s" "objs s i = Some obj" "i \<noteq> []" "\<And>j. j \<in> dom (objs s) \<Longrightarrow> length j = length i"
  shows "get s i = Inr obj"
proof -
  have "j = i" if "j \<in> dom (objs s)" "prefix i j" for j
    using assms(4) [OF that(1)] that(2) by (metis not_equal_is_parallel parallel_def)
  then have "matches (dom (objs s)) i = {i}" using assms(2) by (auto simp: matches_def)
  then show ?thesis using assms ok_ident by (auto simp: get_Inr)
qed

lemma get_after_add:
  assumes "ok s" "add obj s L = (Inr (), s', L')" "\<And>j. j \<in> dom (objs s) \<Longrightarrow> length j = length (ident obj)"
  shows "get s' (ident obj) = Inr obj"
proof (rule get_full)
  have "fst (add obj s L) = Inr ()" using assms(2) by simp
  then show "ident obj \<noteq> []" using assms(1) add_ok_iff by simp
qed (use assms add_Inr [OF assms(1,2)] in auto)

lemma add_del_restores:
  assumes "ok s" "add obj s L = (Inr (), s', L')" "\<And>j. j \<in> dom (objs s) \<Longrightarrow> length j = length (ident obj)"
    and "del (ident obj) s' M = (s'', M')"
  shows "objs s'' = objs s" "M' = Label_Release M (lbl obj)"
proof -
  have a: "ok s'" "objs s (ident obj) = None" "objs s' = (objs s)(ident obj \<mapsto> obj)"
    using add_Inr [OF assms(1,2)] by auto
  from del_found [OF a(1) get_after_add [OF assms(1-3)] assms(4)] a(2,3)
  show "objs s'' = objs s" "M' = Label_Release M (lbl obj)" by auto
qed

lemma del_frees:
  assumes "ok s" "get s i = Inr obj" "del i s L = (s', L')"
  shows "ok s'" "objs s' (ident obj) = None" "j \<noteq> ident obj \<Longrightarrow> objs s' j = objs s j"
  using del_found [OF assms] by auto

text \<open>The label store counts the objects: successful additions and deletions keep both in step.\<close>

lemma add_users:
  assumes "ok s" "lab_inv L" "add obj s L = (Inr (), s', L')" "uses L l = level_users lbl (objs s) l + k"
  shows "uses L' l = level_users lbl (objs s') l + k"
proof -
  from add_Inr [OF assms(1,3)] have
    n: "objs s (ident obj) = None" "objs s' = (objs s)(ident obj \<mapsto> obj)" and r: "Label_Reserve L (lbl obj) = (Inr (), L')"
    by auto
  have "uses L' l = uses L l + (if level_of (lbl obj) = Some l then 1 else 0)"
    using uses_Reserve [OF assms(2), of "lbl obj" l] r by simp
  then show ?thesis using level_users_upd [OF ok_finite [OF assms(1)] n(1)] n(2) assms(4) by simp
qed

lemma del_users:
  assumes "ok s" "lab_inv L" "del x s L = (s', L')" "uses L l = level_users lbl (objs s) l + k"
  shows "uses L' l = level_users lbl (objs s') l + k"
proof (cases "get s x")
  case (Inl e)
  then show ?thesis using del_missing [OF assms(1)] assms(3,4) by simp
next
  case (Inr obj)
  have d: "objs s' = (objs s)(ident obj := None)" "L' = Label_Release L (lbl obj)"
    using del_found [OF assms(1) Inr assms(3)] by auto
  have "objs s (ident obj) = Some obj" using get_objs [OF assms(1) Inr] by simp
  from level_users_del [OF ok_finite [OF assms(1)] this, of lbl l] show ?thesis
    using uses_Release [OF assms(2), of "lbl obj" l] assms(4) d by auto
qed

end

subsection \<open>A map with a truncated-id index\<close>

text \<open>Both stores keep their map next to an index of the same ids.\<close>

definition indexed :: "('o \<Rightarrow> string) \<Rightarrow> (string \<rightharpoonup> 'o) \<Rightarrow> truncindex \<Rightarrow> bool" where
  "indexed ident m x \<longleftrightarrow> ti_inv x \<and> ti_ids x = dom m \<and> (\<forall>i obj. m i = Some obj \<longrightarrow> ident obj = i)"

lemma indexedD:
  "indexed ident m x \<Longrightarrow> ti_inv x" "indexed ident m x \<Longrightarrow> ti_ids x = dom m"
  "indexed ident m x \<Longrightarrow> m i = Some obj \<Longrightarrow> ident obj = i"
  by (simp_all add: indexed_def)

lemma indexed_empty: "indexed ident Map.empty NewTruncIndex"
  by (simp add: indexed_def)

lemma indexed_finite: "indexed ident m x \<Longrightarrow> finite (dom m)"
  by (metis List.finite_set indexed_def ti_inv_def)

lemma indexed_add_Inr:
  assumes "indexed ident m x" "TruncIndex_Add x (ident obj) = (Inr (), x')"
  shows "indexed ident (m(ident obj \<mapsto> obj)) x'"
  using assms tidx.add_ids [OF indexedD(1) [OF assms(1)] assms(2)] by (simp add: indexed_def)

lemma indexed_add_Inl:
  "indexed ident m x \<Longrightarrow> TruncIndex_Add x i = (Inl e, x') \<Longrightarrow> x' = x"
  by (auto simp: indexed_def TruncIndex_Add_def ti_inv_def Let_def split: if_splits)

lemma indexed_del:
  assumes "indexed ident m x" "m i = Some obj"
  shows "indexed ident (m(i := None)) (snd (TruncIndex_Delete x i))"
proof -
  have "i \<in> ti_ids x" using indexedD(2) [OF assms(1)] assms(2) by auto
  from tidx.del_ids [OF indexedD(1) [OF assms(1)] this prod.collapse [symmetric]]
  show ?thesis using assms by (simp add: indexed_def)
qed

definition lookup :: "truncindex \<Rightarrow> (string \<rightharpoonup> 'o) \<Rightarrow> string \<Rightarrow> 'o result" where
  "lookup x m s =
     (case TruncIndex_Get x s of
        Inl e \<Rightarrow> Inl (if e = ErrIndexNotExist then ErrNotExist else e)
      | Inr i \<Rightarrow> (case m i of Some obj \<Rightarrow> Inr obj | None \<Rightarrow> Inl ErrNotExist))"

lemma lookup_found:
  assumes "indexed ident m x" "TruncIndex_Get x s = Inr i"
  obtains obj where "m i = Some obj" "ident obj = i" "lookup x m s = Inr obj"
proof -
  obtain obj where o: "m i = Some obj"
    using tidx.find_prefix [OF indexedD(1) [OF assms(1)] assms(2)] indexedD(2) [OF assms(1)] by auto
  moreover have "ident obj = i" using indexedD(3) [OF assms(1) o] .
  moreover have "lookup x m s = Inr obj" using assms(2) o by (simp add: lookup_def)
  ultimately show ?thesis using that by blast
qed

lemma lookup_Inr:
  assumes "indexed ident m x"
  shows "lookup x m s = Inr obj \<longleftrightarrow> s \<noteq> [] \<and> matches (dom m) s = {ident obj} \<and> m (ident obj) = Some obj"
proof (cases "TruncIndex_Get x s")
  case (Inl e)
  then show ?thesis
    using tidx.find_Inr [OF indexedD(1) [OF assms], of s "ident obj"] indexedD(2) [OF assms]
    by (auto simp: lookup_def)
next
  case (Inr i)
  then have "s \<noteq> []" "matches (dom m) s = {i}"
    using tidx.find_Inr [OF indexedD(1) [OF assms], of s i] indexedD(2) [OF assms] by auto
  moreover obtain obj' where "m i = Some obj'" "ident obj' = i" "lookup x m s = Inr obj'"
    using lookup_found [OF assms Inr] by blast
  ultimately show ?thesis by (metis option.inject singleton_inject sum.inject(2))
qed

lemma lookup_missing:
  assumes "indexed ident m x"
  shows "lookup x m s = Inl ErrNotExist \<longleftrightarrow> s \<noteq> [] \<and> matches (dom m) s = {}"
proof (cases "TruncIndex_Get x s")
  case (Inl e)
  have "e \<noteq> ErrNotExist" using Get_cases [OF indexedD(1) [OF assms], of s] Inl by (auto split: if_splits list.splits)
  then show ?thesis
    using Inl tidx.find_missing [OF indexedD(1) [OF assms], of s] indexedD(2) [OF assms]
    by (simp add: lookup_def)
next
  case (Inr i)
  then have "matches (dom m) s = {i}"
    using tidx.find_Inr [OF indexedD(1) [OF assms], of s i] indexedD(2) [OF assms] by auto
  moreover obtain obj where "lookup x m s = Inr obj" using lookup_found [OF assms Inr] by blast
  ultimately show ?thesis by simp
qed

lemma lookup_index:
  assumes "indexed ident m x" "lookup x m s = Inr obj"
  shows "TruncIndex_Get x s = Inr (ident obj)"
  using assms tidx.find_Inr [OF indexedD(1) [OF assms(1)]] indexedD(2) [OF assms(1)]
  by (simp add: lookup_Inr)

end
