(* ===== verification/ContainerStore.thy ===== *)
theory ContainerStore
  imports ContainerStatus ObjectStore
begin

section \<open>The container store\<close>

text \<open>
  \<^verbatim>\<open>pkg/store/container\<close>: metadata, the container object and the store of containers.
  A Go \<^verbatim>\<open>Container\<close> is copied by value, but its \<^verbatim>\<open>Status\<close> and \<^verbatim>\<open>StopCh\<close> are pointers that all copies
  share. They are a cell of a heap (\<open>cells\<close>), which the container names by \<open>c_ref\<close>. \<^verbatim>\<open>Status\<close> is nil
  until the option \<^verbatim>\<open>WithStatus\<close> runs; a fresh cell has the zero status there, and every caller of
  \<^verbatim>\<open>NewContainer\<close> passes that option. The container config is a type parameter.
\<close>

subsection \<open>Metadata\<close>

record 'cfg metadata =
  m_ID :: string
  m_Name :: string
  m_SandboxID :: string
  m_Config :: "'cfg option"
  m_ImageRef :: string
  m_LogPath :: string
  m_StopSignal :: string
  m_ProcessLabel :: string

definition metadataVersion :: string where
  "metadataVersion = ''v1''"

record 'cfg versionedMetadata =
  vm_Version :: string
  vm_Metadata :: "'cfg metadata"

definition zero_metadata :: "'cfg metadata" where
  "zero_metadata = \<lparr>m_ID = [], m_Name = [], m_SandboxID = [], m_Config = None, m_ImageRef = [],
     m_LogPath = [], m_StopSignal = [], m_ProcessLabel = []\<rparr>"

text \<open>The codec of \<^verbatim>\<open>runtime.ContainerConfig\<close>, a generated type, is a pair of functions.\<close>

definition metadata_members :: "('cfg \<Rightarrow> json) \<Rightarrow> 'cfg metadata \<Rightarrow> (string \<times> json) list" where
  "metadata_members enc m =
     [(''ID'', JStr (m_ID m)), (''Name'', JStr (m_Name m)), (''SandboxID'', JStr (m_SandboxID m)),
      (''Config'', (case m_Config m of None \<Rightarrow> JNull | Some c \<Rightarrow> enc c)),
      (''ImageRef'', JStr (m_ImageRef m)), (''LogPath'', JStr (m_LogPath m)),
      (''StopSignal'', JStr (m_StopSignal m)), (''ProcessLabel'', JStr (m_ProcessLabel m))]"

definition MarshalJSON :: "('cfg \<Rightarrow> json) \<Rightarrow> 'cfg metadata \<Rightarrow> json" where
  "MarshalJSON enc m =
     JObj [(''Version'', JStr metadataVersion), (''Metadata'', JObj (metadata_members enc m))]"

definition setMetadataField :: "(json \<Rightarrow> 'cfg result) \<Rightarrow> string \<Rightarrow> json \<Rightarrow> 'cfg metadata \<Rightarrow> 'cfg metadata result" where
  "setMetadataField dec k j m =
     (if EqualFold k ''ID'' then put (asString (m_ID m) j) (\<lambda>x. m\<lparr>m_ID := x\<rparr>)
      else if EqualFold k ''Name'' then put (asString (m_Name m) j) (\<lambda>x. m\<lparr>m_Name := x\<rparr>)
      else if EqualFold k ''SandboxID'' then put (asString (m_SandboxID m) j) (\<lambda>x. m\<lparr>m_SandboxID := x\<rparr>)
      else if EqualFold k ''Config'' then
        (if j = JNull then Inr (m\<lparr>m_Config := None\<rparr>) else put (dec j) (\<lambda>x. m\<lparr>m_Config := Some x\<rparr>))
      else if EqualFold k ''ImageRef'' then put (asString (m_ImageRef m) j) (\<lambda>x. m\<lparr>m_ImageRef := x\<rparr>)
      else if EqualFold k ''LogPath'' then put (asString (m_LogPath m) j) (\<lambda>x. m\<lparr>m_LogPath := x\<rparr>)
      else if EqualFold k ''StopSignal'' then put (asString (m_StopSignal m) j) (\<lambda>x. m\<lparr>m_StopSignal := x\<rparr>)
      else if EqualFold k ''ProcessLabel'' then put (asString (m_ProcessLabel m) j) (\<lambda>x. m\<lparr>m_ProcessLabel := x\<rparr>)
      else Inr m)"

definition setVersionedField ::
    "(json \<Rightarrow> 'cfg result) \<Rightarrow> string \<Rightarrow> json \<Rightarrow> 'cfg versionedMetadata \<Rightarrow> 'cfg versionedMetadata result" where
  "setVersionedField dec k j v =
     (if EqualFold k ''Version'' then put (asString (vm_Version v) j) (\<lambda>x. v\<lparr>vm_Version := x\<rparr>)
      else if EqualFold k ''Metadata'' then
        put (unmarshalObject (setMetadataField dec) j (vm_Metadata v)) (\<lambda>x. v\<lparr>vm_Metadata := x\<rparr>)
      else Inr v)"

definition UnmarshalJSON :: "(json \<Rightarrow> 'cfg result) \<Rightarrow> json \<Rightarrow> 'cfg metadata result" where
  "UnmarshalJSON dec data =
     (case unmarshalObject (setVersionedField dec) data \<lparr>vm_Version = [], vm_Metadata = zero_metadata\<rparr> of
        Inl e \<Rightarrow> Inl e
      | Inr versioned \<Rightarrow>
          (if vm_Version versioned = metadataVersion then Inr (vm_Metadata versioned)
           else Inl (Errorf ''unsupported version: %q'' [vm_Version versioned])))"

subsection \<open>Containers\<close>

record cell =
  cl_status :: statusStorage
  cl_stopped :: bool

record 'cfg container =
  c_meta :: "'cfg metadata"
  c_ref :: nat
  c_Container :: "string option"
  c_IO :: "string option"

definition c_ID :: "'cfg container \<Rightarrow> string" where
  "c_ID c = m_ID (c_meta c)"

definition c_ProcessLabel :: "'cfg container \<Rightarrow> string" where
  "c_ProcessLabel c = m_ProcessLabel (c_meta c)"

definition NewStopCh :: cell where
  "NewStopCh = \<lparr>cl_status = \<lparr>ss_path = [], ss_status = zero_status\<rparr>, cl_stopped = False\<rparr>"

definition Stop :: "cell \<Rightarrow> cell" where
  "Stop cl = (if cl_stopped cl then cl else cl\<lparr>cl_stopped := True\<rparr>)"

definition Stopped :: "cell \<Rightarrow> bool" where
  "Stopped cl = cl_stopped cl"

datatype opts = WithContainer string | WithContainerIO string | WithStatus status string

text \<open>Applying one option to the container under construction, its cell and the disk.\<close>

fun applyOpt ::
    "goerror option \<Rightarrow> opts \<Rightarrow> 'cfg container \<times> cell \<times> disk \<Rightarrow> unit result \<times> 'cfg container \<times> cell \<times> disk" where
  "applyOpt werr (WithContainer cntr) (c, cl, d) = (Inr (), c\<lparr>c_Container := Some cntr\<rparr>, cl, d)"
| "applyOpt werr (WithContainerIO io) (c, cl, d) = (Inr (), c\<lparr>c_IO := Some io\<rparr>, cl, d)"
| "applyOpt werr (WithStatus status root) (c, cl, d) =
     (case StoreStatus werr root status d of
        (Inl e, d') \<Rightarrow> (Inl e, c, cl, d')
      | (Inr s, d') \<Rightarrow>
          (let cl' = cl\<lparr>cl_status := s\<rparr> in
           (Inr (), c, (if State (StorageGet s) = EXITED then Stop cl' else cl'), d')))"

fun applyOpts ::
    "goerror option \<Rightarrow> opts list \<Rightarrow> 'cfg container \<times> cell \<times> disk \<Rightarrow> unit result \<times> 'cfg container \<times> cell \<times> disk" where
  "applyOpts werr [] x = (Inr (), x)"
| "applyOpts werr (opt # os) x =
     (case applyOpt werr opt x of (Inl e, y) \<Rightarrow> (Inl e, y) | (Inr _, y) \<Rightarrow> applyOpts werr os y)"

definition NewContainer ::
    "goerror option \<Rightarrow> nat \<Rightarrow> 'cfg metadata \<Rightarrow> opts list \<Rightarrow> disk \<Rightarrow> ('cfg container \<times> cell) result \<times> disk" where
  "NewContainer werr ref metadata os d =
     (case applyOpts werr os (\<lparr>c_meta = metadata, c_ref = ref, c_Container = None, c_IO = None\<rparr>, NewStopCh, d) of
        (Inl e, _, _, d') \<Rightarrow> (Inl e, d')
      | (Inr _, c, cl, d') \<Rightarrow> (Inr (c, cl), d'))"

definition Container_Delete :: "goerror option \<Rightarrow> goerror option \<Rightarrow> cell \<Rightarrow> disk \<Rightarrow> unit result \<times> disk" where
  "Container_Delete rerr derr cl d = StorageDelete rerr derr (cl_status cl) d"

subsection \<open>The store\<close>

record 'cfg cstore =
  cs_containers :: "string \<rightharpoonup> 'cfg container"
  cs_idIndex :: truncindex

definition NewStore :: "'cfg cstore" where
  "NewStore = \<lparr>cs_containers = Map.empty, cs_idIndex = NewTruncIndex\<rparr>"

definition Store_Add ::
    "'cfg container \<Rightarrow> 'cfg cstore \<Rightarrow> label_store \<Rightarrow> unit result \<times> 'cfg cstore \<times> label_store" where
  "Store_Add c s labels =
     (if cs_containers s (c_ID c) \<noteq> None then (Inl ErrAlreadyExist, s, labels)
      else case Label_Reserve labels (c_ProcessLabel c) of
        (Inl e, labels') \<Rightarrow> (Inl e, s, labels')
      | (Inr _, labels') \<Rightarrow>
          (case TruncIndex_Add (cs_idIndex s) (c_ID c) of
             (Inl e, idx) \<Rightarrow> (Inl e, s\<lparr>cs_idIndex := idx\<rparr>, labels')
           | (Inr _, idx) \<Rightarrow>
               (Inr (), s\<lparr>cs_idIndex := idx, cs_containers := (cs_containers s)(c_ID c \<mapsto> c)\<rparr>, labels')))"

definition Store_Get :: "'cfg cstore \<Rightarrow> string \<Rightarrow> 'cfg container result" where
  "Store_Get s i =
     (case TruncIndex_Get (cs_idIndex s) i of
        Inl e \<Rightarrow> Inl (if e = ErrIndexNotExist then ErrNotExist else e)
      | Inr i' \<Rightarrow> (case cs_containers s i' of Some c \<Rightarrow> Inr c | None \<Rightarrow> Inl ErrNotExist))"

definition Store_List :: "string list \<Rightarrow> 'cfg cstore \<Rightarrow> 'cfg container list" where
  "Store_List order s = values_in (cs_containers s) order"

text \<open>A missing entry of the map reads as the zero container, whose label is empty.\<close>

definition Store_Delete :: "string \<Rightarrow> 'cfg cstore \<Rightarrow> label_store \<Rightarrow> 'cfg cstore \<times> label_store" where
  "Store_Delete i s labels =
     (case TruncIndex_Get (cs_idIndex s) i of
        Inl e \<Rightarrow> (s, labels)
      | Inr i' \<Rightarrow>
          (let labels' = Label_Release labels (case cs_containers s i' of Some c \<Rightarrow> c_ProcessLabel c | None \<Rightarrow> [])
           in (s\<lparr>cs_idIndex := snd (TruncIndex_Delete (cs_idIndex s) i'),
                 cs_containers := (cs_containers s)(i' := None)\<rparr>, labels')))"

subsection \<open>Metadata survives in the containerd label\<close>

text \<open>
  C8: container metadata survives in the label under which it is stored in containerd, so a
  restarted plugin reads back the very metadata the container was created with, and metadata of any
  other version is refused.
\<close>

theorem metadata_roundtrip:
  assumes "json_codec enc dec"
  shows "UnmarshalJSON dec (MarshalJSON enc m) = Inr m \<and>
    (v \<noteq> metadataVersion \<longrightarrow>
      UnmarshalJSON dec (JObj [(''Version'', JStr v), (''Metadata'', JObj (metadata_members enc m))]) =
        Inl (Errorf ''unsupported version: %q'' [v]))"
proof -
  have "unmarshalMembers (setMetadataField dec) (metadata_members enc m) zero_metadata = Inr m"
    using assms
    by (cases "m_Config m")
       (simp_all add: metadata_members_def setMetadataField_def zero_metadata_def json_codec_def)
  then show ?thesis
    by (simp add: UnmarshalJSON_def MarshalJSON_def unmarshalObject_def setVersionedField_def)
qed

theorem metadata_roundtrip_witness:
  "UnmarshalJSON (asString []) (MarshalJSON JStr (zero_metadata\<lparr>m_ID := ''c1'', m_Config := Some ''busybox''\<rparr>)) =
     Inr (zero_metadata\<lparr>m_ID := ''c1'', m_Config := Some ''busybox''\<rparr>)"
proof -
  have "json_codec JStr (asString [])" by (simp add: json_codec_def)
  then show ?thesis using metadata_roundtrip by blast
qed

subsection \<open>The store implements the contract\<close>

definition cs_inv :: "'cfg cstore \<Rightarrow> bool" where
  "cs_inv s \<longleftrightarrow> indexed c_ID (cs_containers s) (cs_idIndex s)"

lemma Store_Get_lookup: "Store_Get s = lookup (cs_idIndex s) (cs_containers s)"
  by (simp add: fun_eq_iff Store_Get_def lookup_def)

lemma NewStore_inv: "cs_inv NewStore"
  by (simp add: cs_inv_def NewStore_def indexed_empty)

lemma Store_Add_Inr:
  assumes "cs_inv s" "Store_Add c s L = (Inr (), s', L')"
  shows "cs_inv s' \<and> cs_containers s (c_ID c) = None \<and>
    cs_containers s' = (cs_containers s)(c_ID c \<mapsto> c) \<and> Label_Reserve L (c_ProcessLabel c) = (Inr (), L')"
proof -
  obtain idx where a: "TruncIndex_Add (cs_idIndex s) (c_ID c) = (Inr (), idx)"
    "s' = s\<lparr>cs_idIndex := idx, cs_containers := (cs_containers s)(c_ID c \<mapsto> c)\<rparr>"
    "cs_containers s (c_ID c) = None" "Label_Reserve L (c_ProcessLabel c) = (Inr (), L')"
    using assms(2) by (auto simp: Store_Add_def split: if_splits prod.splits sum.splits)
  with indexed_add_Inr [OF assms(1) [unfolded cs_inv_def] a(1)] show ?thesis by (simp add: cs_inv_def)
qed

lemma Store_Add_ok_iff:
  assumes "cs_inv s"
  shows "fst (Store_Add c s L) = Inr () \<longleftrightarrow>
    cs_containers s (c_ID c) = None \<and> fst (Label_Reserve L (c_ProcessLabel c)) = Inr () \<and>
    c_ID c \<noteq> [] \<and> CHR '' '' \<notin> set (c_ID c)"
proof -
  note i = assms [unfolded cs_inv_def]
  show ?thesis
    using tidx.add_Inr [OF indexedD(1) [OF i], of "c_ID c"] indexedD(2) [OF i]
    by (auto simp: Store_Add_def domIff split: prod.splits sum.splits)
qed

lemma Store_Delete_found:
  assumes "cs_inv s" "Store_Get s x = Inr c" "Store_Delete x s L = (s', L')"
  shows "cs_inv s' \<and> cs_containers s' = (cs_containers s)(c_ID c := None) \<and> L' = Label_Release L (c_ProcessLabel c)"
proof -
  note i = assms(1) [unfolded cs_inv_def]
  have g: "TruncIndex_Get (cs_idIndex s) x = Inr (c_ID c)" "cs_containers s (c_ID c) = Some c"
    using assms(2) lookup_index [OF i] lookup_Inr [OF i] by (auto simp: Store_Get_lookup)
  then have "s' = s\<lparr>cs_idIndex := snd (TruncIndex_Delete (cs_idIndex s) (c_ID c)),
      cs_containers := (cs_containers s)(c_ID c := None)\<rparr>" "L' = Label_Release L (c_ProcessLabel c)"
    using assms(3) by (simp_all add: Store_Delete_def Let_def)
  with indexed_del [OF i g(2)] show ?thesis by (simp add: cs_inv_def)
qed

interpretation cstore: object_store Store_Add Store_Get Store_Delete cs_containers c_ID c_ProcessLabel cs_inv
proof
  fix s :: "'a cstore" and L x e i and obj :: "'a container" and s' L'
  assume inv: "cs_inv s"
  note ix = inv [unfolded cs_inv_def]
  show "finite (dom (cs_containers s))" using indexed_finite [OF ix] .
  show "c_ID obj = i" if "cs_containers s i = Some obj" using indexedD(3) [OF ix that] .
  show "Store_Get s x = Inr obj \<longleftrightarrow>
      x \<noteq> [] \<and> matches (dom (cs_containers s)) x = {c_ID obj} \<and> cs_containers s (c_ID obj) = Some obj"
    using lookup_Inr [OF ix] by (simp add: Store_Get_lookup)
  show "Store_Get s x = Inl ErrNotExist \<longleftrightarrow> x \<noteq> [] \<and> matches (dom (cs_containers s)) x = {}"
    using lookup_missing [OF ix] by (simp add: Store_Get_lookup)
  show "s' = s" if "Store_Add obj s L = (Inl e, s', L')"
    using that indexed_add_Inl [OF ix, of "c_ID obj"]
    by (auto simp: Store_Add_def split: if_splits prod.splits sum.splits)
  show "Store_Delete x s L = (s, L)" if "Store_Get s x = Inl e"
    using that lookup_found [OF ix, of x]
    by (auto simp: Store_Get_lookup Store_Delete_def split: sum.splits)
qed (rule Store_Add_ok_iff Store_Add_Inr Store_Delete_found, assumption+)+

text \<open>
  C9: the container store is a map with prefix lookup. \<^verbatim>\<open>Get\<close> returns a container exactly when its id
  is the only stored id that extends the request, and not-found exactly when no stored id does;
  \<^verbatim>\<open>Delete\<close> removes the container that \<^verbatim>\<open>Get\<close> finds and releases its label, and does nothing when
  \<^verbatim>\<open>Get\<close> fails, in particular when the prefix is ambiguous.
\<close>

theorem container_store_correct:
  assumes "cs_inv s"
  shows "(Store_Get s x = Inr c \<longleftrightarrow>
           x \<noteq> [] \<and> matches (dom (cs_containers s)) x = {c_ID c} \<and> cs_containers s (c_ID c) = Some c) \<and>
    (Store_Get s x = Inl ErrNotExist \<longleftrightarrow> x \<noteq> [] \<and> matches (dom (cs_containers s)) x = {}) \<and>
    (Store_Add c s L = (Inr (), s', L') \<longrightarrow> cs_inv s' \<and> cs_containers s' = (cs_containers s)(c_ID c \<mapsto> c)) \<and>
    (Store_Get s x = Inr c \<and> Store_Delete x s L = (s', L') \<longrightarrow>
       cs_inv s' \<and> cs_containers s' = (cs_containers s)(c_ID c := None) \<and> L' = Label_Release L (c_ProcessLabel c)) \<and>
    (Store_Get s x = Inl e \<longrightarrow> Store_Delete x s L = (s, L))"
proof (intro conjI impI)
  show "Store_Get s x = Inr c \<longleftrightarrow>
      x \<noteq> [] \<and> matches (dom (cs_containers s)) x = {c_ID c} \<and> cs_containers s (c_ID c) = Some c"
    using assms by (rule cstore.get_Inr)
  show "Store_Get s x = Inl ErrNotExist \<longleftrightarrow> x \<noteq> [] \<and> matches (dom (cs_containers s)) x = {}"
    using assms by (rule cstore.get_missing)
qed (blast dest: cstore.add_Inr [OF assms] cstore.del_found [OF assms] cstore.del_missing [OF assms])+

definition c_example :: "string \<Rightarrow> string \<Rightarrow> string container" where
  "c_example i lbl = \<lparr>c_meta = zero_metadata\<lparr>m_ID := i, m_ProcessLabel := lbl\<rparr>, c_ref = 0,
     c_Container = None, c_IO = None\<rparr>"

definition cs_example :: "string cstore" where
  "cs_example = fst (snd (Store_Add (c_example ''ab1'' []) NewStore NewLabelStore))"

lemma cs_example_eq: "cs_containers cs_example = [''ab1'' \<mapsto> c_example ''ab1'' []]" "cs_inv cs_example"
proof -
  have "fst (Store_Add (c_example ''ab1'' []) NewStore NewLabelStore) = Inr ()"
    unfolding Store_Add_ok_iff [OF NewStore_inv]
    by (simp add: NewStore_def c_example_def c_ID_def c_ProcessLabel_def
        Label_Reserve_def NewContext_def ctx_level_def)
  then have "Store_Add (c_example ''ab1'' []) NewStore NewLabelStore =
      (Inr (), cs_example, snd (snd (Store_Add (c_example ''ab1'' []) NewStore NewLabelStore)))"
    by (simp add: cs_example_def prod_eq_iff)
  from Store_Add_Inr [OF NewStore_inv this]
  show "cs_containers cs_example = [''ab1'' \<mapsto> c_example ''ab1'' []]" "cs_inv cs_example"
    by (auto simp: NewStore_def c_example_def c_ID_def)
qed

theorem container_store_correct_witness:
  "Store_Get cs_example ''ab'' = Inr (c_example ''ab1'' []) \<and> Store_Get cs_example ''b'' = Inl ErrNotExist"
  using container_store_correct [OF cs_example_eq(2), of "''ab''" "c_example ''ab1'' []"]
    container_store_correct [OF cs_example_eq(2), of "''b''" "c_example ''ab1'' []"]
  by (auto simp: cs_example_eq(1) matches_def c_example_def c_ID_def)

text \<open>
  Where \<^verbatim>\<open>Add\<close> leaks a label. If the label is reserved but the id index refuses the id (it is
  empty or has a space), \<^verbatim>\<open>Add\<close> fails and leaves the store as it was, yet the label store counts one
  user more of the container's level: nothing releases the reservation.
\<close>

lemma Store_Add_leak:
  assumes "cs_inv s" "lab_inv L" "cs_containers s (c_ID c) = None"
    and "level_of (c_ProcessLabel c) = Some l" "c_ID c = [] \<or> CHR '' '' \<in> set (c_ID c)"
  shows "\<exists>e L'. Store_Add c s L = (Inl e, s, L') \<and> uses L' l = uses L l + 1"
proof -
  obtain r s' L' where a: "Store_Add c s L = (r, s', L')" by (metis prod.collapse)
  have "r \<noteq> Inr ()" using Store_Add_ok_iff [OF assms(1), of c L] assms(5) a by auto
  then obtain e where e: "r = Inl e" by (cases r) auto
  then have "s' = s" using cstore.add_Inl [OF assms(1)] a by blast
  moreover have "Label_Reserve L (c_ProcessLabel c) = (Inr (), L')"
    using a e assms(3) Reserve_level [OF assms(4), of L]
    by (auto simp: Store_Add_def split: prod.splits sum.splits)
  ultimately show ?thesis
    using a e uses_Reserve [OF assms(2), of "c_ProcessLabel c" l] assms(4) by auto
qed

lemma Store_Add_leak_example:
  "\<exists>e L'. Store_Add (c_example ''a b'' ''u:r:t:s0'') NewStore NewLabelStore = (Inl e, NewStore, L') \<and>
     uses L' ''s0'' = uses NewLabelStore ''s0'' + 1"
  by (rule Store_Add_leak)
     (simp_all add: NewStore_inv, simp_all add: NewStore_def lab_inv_def NewLabelStore_def c_example_def c_ID_def
       c_ProcessLabel_def level_of_def NewContext_def ctx_level_def numeral_eq_Suc)

end
