(* ===== verification/SandboxStore.thy ===== *)
theory SandboxStore
  imports GoJson ObjectStore ContainerStatus
begin

section \<open>The sandbox store\<close>

text \<open>
  \<^verbatim>\<open>pkg/store/sandbox\<close>: status, metadata, sandbox objects and their store. As for containers, the
  status storage and the stop channel are pointers shared by all copies of a sandbox: a cell of a
  heap, named by \<open>sb_ref\<close>. The pod config and the CNI result are type parameters. A sandbox status is
  not checkpointed. \<^verbatim>\<open>time.Time\<close> is the number of nanoseconds since the Unix epoch; its zero value is the
  first of January of the year 1.
\<close>

subsection \<open>Status\<close>

type_synonym sb_state = "32 word"

abbreviation (input) StateReady :: sb_state where "StateReady \<equiv> 0"
abbreviation (input) StateNotReady :: sb_state where "StateNotReady \<equiv> 1"
abbreviation (input) StateUnknown :: sb_state where "StateUnknown \<equiv> 2"

text \<open>\<^verbatim>\<open>runtime.PodSandboxState\<close> of the CRI API.\<close>

datatype pod_state = SANDBOX_READY | SANDBOX_NOTREADY

fun pod_state_String :: "pod_state \<Rightarrow> string" where
  "pod_state_String SANDBOX_READY = ''SANDBOX_READY''"
| "pod_state_String SANDBOX_NOTREADY = ''SANDBOX_NOTREADY''"

text \<open>\<^verbatim>\<open>int(s)\<close> of a \<^verbatim>\<open>uint32\<close> is not negative on a 64-bit platform.\<close>

definition State_String :: "sb_state \<Rightarrow> string" where
  "State_String s =
     (if s = StateReady then pod_state_String SANDBOX_READY
      else if s = StateNotReady then pod_state_String SANDBOX_NOTREADY
      else if s = StateUnknown then ''SANDBOX_UNKNOWN''
      else ''invalid sandbox state value: '' @ Itoa (unat s))"

definition zeroTime :: int where "zeroTime = - 62135596800 * 1000000000"

record sb_status =
  sb_Pid :: "32 word"
  sb_CreatedAt :: int
  sb_State :: sb_state

record sb_statusStorage =
  sbs_status :: sb_status

definition Sandbox_StoreStatus :: "sb_status \<Rightarrow> sb_statusStorage" where
  "Sandbox_StoreStatus status = \<lparr>sbs_status = status\<rparr>"

definition Sandbox_StatusGet :: "sb_statusStorage \<Rightarrow> sb_status" where
  "Sandbox_StatusGet s = sbs_status s"

definition Sandbox_Update :: "(sb_status \<Rightarrow> sb_status result) \<Rightarrow> sb_statusStorage \<Rightarrow> unit result \<times> sb_statusStorage" where
  "Sandbox_Update u s =
     (case u (sbs_status s) of
        Inl e \<Rightarrow> (Inl e, s)
      | Inr newStatus \<Rightarrow> (Inr (), s\<lparr>sbs_status := newStatus\<rparr>))"

interpretation sbupd: status_storage Sandbox_StatusGet Sandbox_Update
  by unfold_locales (auto simp: Sandbox_StatusGet_def Sandbox_Update_def split: sum.splits)

subsection \<open>Metadata\<close>

record ('cfg, 'cni) sb_metadata =
  sm_ID :: string
  sm_Name :: string
  sm_Config :: "'cfg option"
  sm_NetNSPath :: string
  sm_IP :: string
  sm_AdditionalIPs :: "string list"
  sm_RuntimeHandler :: string
  sm_CNIResult :: "'cni option"
  sm_ProcessLabel :: string

definition zero_sb_metadata :: "('cfg, 'cni) sb_metadata" where
  "zero_sb_metadata = \<lparr>sm_ID = [], sm_Name = [], sm_Config = None, sm_NetNSPath = [], sm_IP = [],
     sm_AdditionalIPs = [], sm_RuntimeHandler = [], sm_CNIResult = None, sm_ProcessLabel = []\<rparr>"

definition sb_metadataVersion :: string where
  "sb_metadataVersion = ''v1''"

record ('cfg, 'cni) sb_versionedMetadata =
  svm_Version :: string
  svm_Metadata :: "('cfg, 'cni) sb_metadata"

definition jsonOption :: "('a \<Rightarrow> json) \<Rightarrow> 'a option \<Rightarrow> json" where
  "jsonOption enc x = (case x of None \<Rightarrow> JNull | Some y \<Rightarrow> enc y)"

text \<open>A nil slice is written as \<^verbatim>\<open>null\<close>; the code never stores an empty slice that is not nil.\<close>

definition jsonStrings :: "string list \<Rightarrow> json" where
  "jsonStrings xs = (if xs = [] then JNull else JArr (map JStr xs))"

fun asStringList :: "json list \<Rightarrow> string list result" where
  "asStringList [] = Inr []"
| "asStringList (j # js) =
     (case asString [] j of
        Inl e \<Rightarrow> Inl e
      | Inr x \<Rightarrow> (case asStringList js of Inl e \<Rightarrow> Inl e | Inr xs \<Rightarrow> Inr (x # xs)))"

definition asStrings :: "json \<Rightarrow> string list result" where
  "asStrings j = (case j of JNull \<Rightarrow> Inr [] | JArr js \<Rightarrow> asStringList js | _ \<Rightarrow> Inl type_error)"

definition asOption :: "(json \<Rightarrow> 'a result) \<Rightarrow> json \<Rightarrow> 'a option result" where
  "asOption dec j = (if j = JNull then Inr None else put (dec j) Some)"

definition sb_metadata_members ::
    "('cfg \<Rightarrow> json) \<Rightarrow> ('cni \<Rightarrow> json) \<Rightarrow> ('cfg, 'cni) sb_metadata \<Rightarrow> (string \<times> json) list" where
  "sb_metadata_members enc enc_cni m =
     [(''ID'', JStr (sm_ID m)), (''Name'', JStr (sm_Name m)), (''Config'', jsonOption enc (sm_Config m)),
      (''NetNSPath'', JStr (sm_NetNSPath m)), (''IP'', JStr (sm_IP m)),
      (''AdditionalIPs'', jsonStrings (sm_AdditionalIPs m)), (''RuntimeHandler'', JStr (sm_RuntimeHandler m)),
      (''CNIResult'', jsonOption enc_cni (sm_CNIResult m)), (''ProcessLabel'', JStr (sm_ProcessLabel m))]"

definition Sandbox_MarshalJSON ::
    "('cfg \<Rightarrow> json) \<Rightarrow> ('cni \<Rightarrow> json) \<Rightarrow> ('cfg, 'cni) sb_metadata \<Rightarrow> json" where
  "Sandbox_MarshalJSON enc enc_cni m =
     JObj [(''Version'', JStr sb_metadataVersion), (''Metadata'', JObj (sb_metadata_members enc enc_cni m))]"

definition setSandboxField ::
    "(json \<Rightarrow> 'cfg result) \<Rightarrow> (json \<Rightarrow> 'cni result) \<Rightarrow> string \<Rightarrow> json \<Rightarrow> ('cfg, 'cni) sb_metadata \<Rightarrow> ('cfg, 'cni) sb_metadata result" where
  "setSandboxField dec dec_cni k j m =
     (if EqualFold k ''ID'' then put (asString (sm_ID m) j) (\<lambda>x. m\<lparr>sm_ID := x\<rparr>)
      else if EqualFold k ''Name'' then put (asString (sm_Name m) j) (\<lambda>x. m\<lparr>sm_Name := x\<rparr>)
      else if EqualFold k ''Config'' then put (asOption dec j) (\<lambda>x. m\<lparr>sm_Config := x\<rparr>)
      else if EqualFold k ''NetNSPath'' then put (asString (sm_NetNSPath m) j) (\<lambda>x. m\<lparr>sm_NetNSPath := x\<rparr>)
      else if EqualFold k ''IP'' then put (asString (sm_IP m) j) (\<lambda>x. m\<lparr>sm_IP := x\<rparr>)
      else if EqualFold k ''AdditionalIPs'' then put (asStrings j) (\<lambda>x. m\<lparr>sm_AdditionalIPs := x\<rparr>)
      else if EqualFold k ''RuntimeHandler'' then put (asString (sm_RuntimeHandler m) j) (\<lambda>x. m\<lparr>sm_RuntimeHandler := x\<rparr>)
      else if EqualFold k ''CNIResult'' then put (asOption dec_cni j) (\<lambda>x. m\<lparr>sm_CNIResult := x\<rparr>)
      else if EqualFold k ''ProcessLabel'' then put (asString (sm_ProcessLabel m) j) (\<lambda>x. m\<lparr>sm_ProcessLabel := x\<rparr>)
      else Inr m)"

definition setSandboxVersioned ::
    "(json \<Rightarrow> 'cfg result) \<Rightarrow> (json \<Rightarrow> 'cni result) \<Rightarrow> string \<Rightarrow> json \<Rightarrow>
     ('cfg, 'cni) sb_versionedMetadata \<Rightarrow> ('cfg, 'cni) sb_versionedMetadata result" where
  "setSandboxVersioned dec dec_cni k j v =
     (if EqualFold k ''Version'' then put (asString (svm_Version v) j) (\<lambda>x. v\<lparr>svm_Version := x\<rparr>)
      else if EqualFold k ''Metadata'' then
        put (unmarshalObject (setSandboxField dec dec_cni) j (svm_Metadata v)) (\<lambda>x. v\<lparr>svm_Metadata := x\<rparr>)
      else Inr v)"

definition Sandbox_UnmarshalJSON ::
    "(json \<Rightarrow> 'cfg result) \<Rightarrow> (json \<Rightarrow> 'cni result) \<Rightarrow> json \<Rightarrow> ('cfg, 'cni) sb_metadata result" where
  "Sandbox_UnmarshalJSON dec dec_cni data =
     (case unmarshalObject (setSandboxVersioned dec dec_cni) data
             \<lparr>svm_Version = [], svm_Metadata = zero_sb_metadata\<rparr> of
        Inl e \<Rightarrow> Inl e
      | Inr versioned \<Rightarrow>
          (if svm_Version versioned = sb_metadataVersion then Inr (svm_Metadata versioned)
           else Inl (Errorf ''unsupported version: %q'' [svm_Version versioned])))"

subsection \<open>Sandboxes and their store\<close>

record sb_cell =
  sc_status :: sb_statusStorage
  sc_stopped :: bool

record ('cfg, 'cni) sandbox =
  sb_meta :: "('cfg, 'cni) sb_metadata"
  sb_ref :: nat
  sb_Container :: "string option"
  sb_NetNS :: "string option"

definition sb_ID :: "('cfg, 'cni) sandbox \<Rightarrow> string" where
  "sb_ID s = sm_ID (sb_meta s)"

definition sb_ProcessLabel :: "('cfg, 'cni) sandbox \<Rightarrow> string" where
  "sb_ProcessLabel s = sm_ProcessLabel (sb_meta s)"

definition Sandbox_Stop :: "sb_cell \<Rightarrow> sb_cell" where
  "Sandbox_Stop cl = (if sc_stopped cl then cl else cl\<lparr>sc_stopped := True\<rparr>)"

definition NewSandbox :: "nat \<Rightarrow> ('cfg, 'cni) sb_metadata \<Rightarrow> sb_status \<Rightarrow> ('cfg, 'cni) sandbox \<times> sb_cell" where
  "NewSandbox ref metadata status =
     (let s = \<lparr>sb_meta = metadata, sb_ref = ref, sb_Container = None, sb_NetNS = None\<rparr>;
          cl = \<lparr>sc_status = Sandbox_StoreStatus status, sc_stopped = False\<rparr>
      in (s, if sb_State status = StateNotReady then Sandbox_Stop cl else cl))"

record ('cfg, 'cni) sstore =
  ss_sandboxes :: "string \<rightharpoonup> ('cfg, 'cni) sandbox"
  ss_idIndex :: truncindex

definition Sandbox_NewStore :: "('cfg, 'cni) sstore" where
  "Sandbox_NewStore = \<lparr>ss_sandboxes = Map.empty, ss_idIndex = NewTruncIndex\<rparr>"

definition Sandbox_Add ::
    "('cfg, 'cni) sandbox \<Rightarrow> ('cfg, 'cni) sstore \<Rightarrow> label_store \<Rightarrow> unit result \<times> ('cfg, 'cni) sstore \<times> label_store" where
  "Sandbox_Add sb s labels =
     (if ss_sandboxes s (sb_ID sb) \<noteq> None then (Inl ErrAlreadyExist, s, labels)
      else case Label_Reserve labels (sb_ProcessLabel sb) of
        (Inl e, labels') \<Rightarrow> (Inl e, s, labels')
      | (Inr _, labels') \<Rightarrow>
          (case TruncIndex_Add (ss_idIndex s) (sb_ID sb) of
             (Inl e, idx) \<Rightarrow> (Inl e, s\<lparr>ss_idIndex := idx\<rparr>, labels')
           | (Inr _, idx) \<Rightarrow>
               (Inr (), s\<lparr>ss_idIndex := idx, ss_sandboxes := (ss_sandboxes s)(sb_ID sb \<mapsto> sb)\<rparr>, labels')))"

definition Sandbox_Get :: "('cfg, 'cni) sstore \<Rightarrow> string \<Rightarrow> ('cfg, 'cni) sandbox result" where
  "Sandbox_Get s i =
     (case TruncIndex_Get (ss_idIndex s) i of
        Inl e \<Rightarrow> Inl (if e = ErrIndexNotExist then ErrNotExist else e)
      | Inr i' \<Rightarrow> (case ss_sandboxes s i' of Some sb \<Rightarrow> Inr sb | None \<Rightarrow> Inl ErrNotExist))"

definition Sandbox_List :: "string list \<Rightarrow> ('cfg, 'cni) sstore \<Rightarrow> ('cfg, 'cni) sandbox list" where
  "Sandbox_List order s = values_in (ss_sandboxes s) order"

definition Sandbox_Delete :: "string \<Rightarrow> ('cfg, 'cni) sstore \<Rightarrow> label_store \<Rightarrow> ('cfg, 'cni) sstore \<times> label_store" where
  "Sandbox_Delete i s labels =
     (case TruncIndex_Get (ss_idIndex s) i of
        Inl e \<Rightarrow> (s, labels)
      | Inr i' \<Rightarrow>
          (let labels' = Label_Release labels (case ss_sandboxes s i' of Some sb \<Rightarrow> sb_ProcessLabel sb | None \<Rightarrow> [])
           in (s\<lparr>ss_idIndex := snd (TruncIndex_Delete (ss_idIndex s) i'),
                 ss_sandboxes := (ss_sandboxes s)(i' := None)\<rparr>, labels')))"

subsection \<open>The store implements the contract\<close>

definition sbs_inv :: "('cfg, 'cni) sstore \<Rightarrow> bool" where
  "sbs_inv s \<longleftrightarrow> indexed sb_ID (ss_sandboxes s) (ss_idIndex s)"

lemma Sandbox_Get_lookup: "Sandbox_Get s = lookup (ss_idIndex s) (ss_sandboxes s)"
  by (simp add: fun_eq_iff Sandbox_Get_def lookup_def)

lemma Sandbox_NewStore_inv: "sbs_inv Sandbox_NewStore"
  by (simp add: sbs_inv_def Sandbox_NewStore_def indexed_empty)

lemma Sandbox_Add_Inr:
  assumes "sbs_inv s" "Sandbox_Add sb s L = (Inr (), s', L')"
  shows "sbs_inv s' \<and> ss_sandboxes s (sb_ID sb) = None \<and>
    ss_sandboxes s' = (ss_sandboxes s)(sb_ID sb \<mapsto> sb) \<and> Label_Reserve L (sb_ProcessLabel sb) = (Inr (), L')"
proof -
  obtain idx where a: "TruncIndex_Add (ss_idIndex s) (sb_ID sb) = (Inr (), idx)"
    "s' = s\<lparr>ss_idIndex := idx, ss_sandboxes := (ss_sandboxes s)(sb_ID sb \<mapsto> sb)\<rparr>"
    "ss_sandboxes s (sb_ID sb) = None" "Label_Reserve L (sb_ProcessLabel sb) = (Inr (), L')"
    using assms(2) by (auto simp: Sandbox_Add_def split: if_splits prod.splits sum.splits)
  with indexed_add_Inr [OF assms(1) [unfolded sbs_inv_def] a(1)] show ?thesis by (simp add: sbs_inv_def)
qed

lemma Sandbox_Add_ok_iff:
  assumes "sbs_inv s"
  shows "fst (Sandbox_Add sb s L) = Inr () \<longleftrightarrow>
    ss_sandboxes s (sb_ID sb) = None \<and> fst (Label_Reserve L (sb_ProcessLabel sb)) = Inr () \<and>
    sb_ID sb \<noteq> [] \<and> CHR '' '' \<notin> set (sb_ID sb)"
proof -
  note i = assms [unfolded sbs_inv_def]
  show ?thesis
    using tidx.add_Inr [OF indexedD(1) [OF i], of "sb_ID sb"] indexedD(2) [OF i]
    by (auto simp: Sandbox_Add_def domIff split: prod.splits sum.splits)
qed

lemma Sandbox_Delete_found:
  assumes "sbs_inv s" "Sandbox_Get s x = Inr sb" "Sandbox_Delete x s L = (s', L')"
  shows "sbs_inv s' \<and> ss_sandboxes s' = (ss_sandboxes s)(sb_ID sb := None) \<and> L' = Label_Release L (sb_ProcessLabel sb)"
proof -
  note i = assms(1) [unfolded sbs_inv_def]
  have g: "TruncIndex_Get (ss_idIndex s) x = Inr (sb_ID sb)" "ss_sandboxes s (sb_ID sb) = Some sb"
    using assms(2) lookup_index [OF i] lookup_Inr [OF i] by (auto simp: Sandbox_Get_lookup)
  then have "s' = s\<lparr>ss_idIndex := snd (TruncIndex_Delete (ss_idIndex s) (sb_ID sb)),
      ss_sandboxes := (ss_sandboxes s)(sb_ID sb := None)\<rparr>" "L' = Label_Release L (sb_ProcessLabel sb)"
    using assms(3) by (simp_all add: Sandbox_Delete_def Let_def)
  with indexed_del [OF i g(2)] show ?thesis by (simp add: sbs_inv_def)
qed

interpretation sbstore: object_store Sandbox_Add Sandbox_Get Sandbox_Delete ss_sandboxes sb_ID sb_ProcessLabel sbs_inv
proof
  fix s :: "('a, 'b) sstore" and L x e i and obj :: "('a, 'b) sandbox" and s' L'
  assume inv: "sbs_inv s"
  note ix = inv [unfolded sbs_inv_def]
  show "finite (dom (ss_sandboxes s))" using indexed_finite [OF ix] .
  show "sb_ID obj = i" if "ss_sandboxes s i = Some obj" using indexedD(3) [OF ix that] .
  show "Sandbox_Get s x = Inr obj \<longleftrightarrow>
      x \<noteq> [] \<and> matches (dom (ss_sandboxes s)) x = {sb_ID obj} \<and> ss_sandboxes s (sb_ID obj) = Some obj"
    using lookup_Inr [OF ix] by (simp add: Sandbox_Get_lookup)
  show "Sandbox_Get s x = Inl ErrNotExist \<longleftrightarrow> x \<noteq> [] \<and> matches (dom (ss_sandboxes s)) x = {}"
    using lookup_missing [OF ix] by (simp add: Sandbox_Get_lookup)
  show "s' = s" if "Sandbox_Add obj s L = (Inl e, s', L')"
    using that indexed_add_Inl [OF ix, of "sb_ID obj"]
    by (auto simp: Sandbox_Add_def split: if_splits prod.splits sum.splits)
  show "Sandbox_Delete x s L = (s, L)" if "Sandbox_Get s x = Inl e"
    using that lookup_found [OF ix, of x]
    by (auto simp: Sandbox_Get_lookup Sandbox_Delete_def split: sum.splits)
qed (rule Sandbox_Add_ok_iff Sandbox_Add_Inr Sandbox_Delete_found, assumption+)+

subsection \<open>Metadata round trip\<close>

lemma asStringList_JStr: "asStringList (map JStr xs) = Inr xs"
  by (induction xs) auto

lemma asStrings_jsonStrings [simp]: "asStrings (jsonStrings xs) = Inr xs"
  by (simp add: asStrings_def jsonStrings_def asStringList_JStr)

lemma asOption_jsonOption: "json_codec enc dec \<Longrightarrow> asOption dec (jsonOption enc x) = Inr x"
  by (cases x) (simp_all add: asOption_def jsonOption_def json_codec_def)

lemma EqualFold_sandbox_keys:
  "\<not> EqualFold ''IP'' ''ID''" "\<not> EqualFold ''CNIResult'' ''NetNSPath''"
  by code_simp+

lemma sandbox_metadata_roundtrip:
  assumes "json_codec enc dec" "json_codec enc_cni dec_cni"
  shows "Sandbox_UnmarshalJSON dec dec_cni (Sandbox_MarshalJSON enc enc_cni m) = Inr m"
proof -
  have "unmarshalMembers (setSandboxField dec dec_cni) (sb_metadata_members enc enc_cni m) zero_sb_metadata = Inr m"
    by (simp add: sb_metadata_members_def setSandboxField_def zero_sb_metadata_def EqualFold_sandbox_keys
        asOption_jsonOption [OF assms(1)] asOption_jsonOption [OF assms(2)])
  then show ?thesis
    by (simp add: Sandbox_UnmarshalJSON_def Sandbox_MarshalJSON_def unmarshalObject_def setSandboxVersioned_def)
qed

end
