(* ===== verification/CriApi.thy ===== *)
theory CriApi
  imports ContainerStore SandboxStore
begin

section \<open>CRI messages\<close>

text \<open>
  The messages of the Kubernetes CRI that the service reads and writes (generated from
  \<^verbatim>\<open>api.proto\<close>), with the fields that the modelled code uses. A getter on a nil message returns the
  zero value of the field, so nested optional messages are flattened; a message whose absence the
  code tests is an option. Maps are partial functions.
\<close>

type_synonym labels = "string \<rightharpoonup> string"

record containerMetadata =
  cmd_Name :: string
  cmd_Attempt :: "32 word"

record podSandboxMetadata =
  pmd_Name :: string
  pmd_Uid :: string
  pmd_Namespace :: string
  pmd_Attempt :: "32 word"

datatype namespaceMode = NS_POD | NS_CONTAINER | NS_NODE | NS_TARGET

datatype mountPropagation = PROPAGATION_PRIVATE | PROPAGATION_HOST_TO_CONTAINER | PROPAGATION_BIDIRECTIONAL

record criMount =
  mt_ContainerPath :: string
  mt_HostPath :: string
  mt_Readonly :: bool
  mt_SelinuxRelabel :: bool
  mt_Propagation :: mountPropagation

record selinuxOption =
  so_User :: string
  so_Role :: string
  so_Type :: string
  so_Level :: string

record hugepageLimit =
  hl_PageSize :: string
  hl_Limit :: "64 word"

text \<open>The integers of the resources are \<^verbatim>\<open>int64\<close>.\<close>

record linuxContainerResources =
  lr_CpuPeriod :: "64 word"
  lr_CpuQuota :: "64 word"
  lr_CpuShares :: "64 word"
  lr_MemoryLimitInBytes :: "64 word"
  lr_OomScoreAdj :: "64 word"
  lr_CpusetCpus :: string
  lr_CpusetMems :: string
  lr_HugepageLimits :: "hugepageLimit list"

record criDevice =
  de_ContainerPath :: string
  de_HostPath :: string
  de_Permissions :: string

record criCapability =
  ca_AddCapabilities :: "string list"
  ca_DropCapabilities :: "string list"

record containerConfig =
  cc_Metadata :: "containerMetadata option"
  cc_Image :: string
  cc_Mounts :: "criMount list"
  cc_Labels :: labels
  cc_Annotations :: labels
  cc_LogPath :: string
  cc_Stdin :: bool
  cc_StdinOnce :: bool
  cc_Tty :: bool
  cc_Privileged :: bool
  cc_NsNetwork :: namespaceMode
  cc_NsPid :: namespaceMode
  cc_NsIpc :: namespaceMode
  cc_RunAsUser :: "int option"
  cc_RunAsGroup :: "int option"
  cc_RunAsUsername :: string
  cc_ReadonlyRootfs :: bool
  cc_ApparmorProfile :: string
  cc_SeccompProfilePath :: string
  cc_Command :: "string list option"
  cc_Args :: "string list"
  cc_WorkingDir :: string
  cc_Envs :: "(string \<times> string) list"
  cc_Devices :: "criDevice list"
  cc_Resources :: "linuxContainerResources option"
  cc_Capabilities :: "criCapability option"
  cc_SelinuxOptions :: "selinuxOption option"
  cc_MaskedPaths :: "string list option"
  cc_ReadonlyPaths :: "string list option"
  cc_NoNewPrivs :: bool
  cc_SupplementalGroups :: "64 word list"

datatype protocol = TCP | UDP | SCTP

record portMapping =
  pm_Protocol :: protocol
  pm_ContainerPort :: "32 word"
  pm_HostPort :: "32 word"
  pm_HostIp :: string

record dnsConfig =
  dns_Servers :: "string list"
  dns_Searches :: "string list"
  dns_Options :: "string list"

record podSandboxConfig =
  pc_Metadata :: "podSandboxMetadata option"
  pc_Hostname :: string
  pc_LogDirectory :: string
  pc_DnsConfig :: "dnsConfig option"
  pc_PortMappings :: "portMapping list"
  pc_Labels :: labels
  pc_Annotations :: labels
  pc_CgroupParent :: string
  pc_Privileged :: bool
  pc_NsNetwork :: namespaceMode
  pc_NsPid :: namespaceMode
  pc_NsIpc :: namespaceMode
  pc_Sysctls :: labels
  pc_SelinuxOptions :: "selinuxOption option"
  pc_SupplementalGroups :: "64 word list"
  pc_RunAsUser :: "int option"
  pc_RunAsGroup :: "int option"
  pc_SeccompProfilePath :: string

text \<open>
  The result of go-cni: per interface its IP configs. An address knows its text and whether it has
  an IPv4 form (\<^verbatim>\<open>net.IP.To4\<close>).
\<close>

record ipConfig =
  ip_text :: string
  ip_is4 :: bool

record cniResult =
  cni_Interfaces :: "string \<rightharpoonup> ipConfig list"

text \<open>What the service asks of go-cni for one pod: labels, port mappings, bandwidth and DNS.\<close>

record cniPortMapping =
  np_HostPort :: "32 word"
  np_ContainerPort :: "32 word"
  np_Protocol :: string
  np_HostIP :: string

record cniBandWidth =
  bw_IngressRate :: "64 word"
  bw_IngressBurst :: "64 word"
  bw_EgressRate :: "64 word"
  bw_EgressBurst :: "64 word"

record cniOpts =
  on_Labels :: "(string \<times> string) list"
  on_PortMap :: "cniPortMapping list option"
  on_BandWidth :: "cniBandWidth option"
  on_DNS :: "dnsConfig option"

type_synonym ctr = "containerConfig container"
type_synonym sbx = "(podSandboxConfig, cniResult) sandbox"

end
