(* ===== verification/Paths.thy ===== *)
theory Paths
  imports GoStrings
begin

section \<open>Paths and globs\<close>

text \<open>
  What the plugin uses of Go's packages \<^verbatim>\<open>path\<close> and \<^verbatim>\<open>path/filepath\<close> on Unix and of \<^verbatim>\<open>strings\<close> and \<^verbatim>\<open>strconv\<close>:
  lexical cleaning of a path, its number of parts, shell patterns for annotation keys, and parsing a
  number. \<^verbatim>\<open>path.Match\<close> works on runes; the keys and patterns it is applied to are ASCII here.
\<close>

subsection \<open>Cleaning\<close>

text \<open>\<^verbatim>\<open>strings.Split\<close> with a one-byte separator.\<close>

fun Split :: "char \<Rightarrow> string \<Rightarrow> string list" where
  "Split c [] = [[]]"
| "Split c (x # xs) =
     (if x = c then [] # Split c xs else case Split c xs of [] \<Rightarrow> [[x]] | y # ys \<Rightarrow> (x # y) # ys)"

fun cleanSegs :: "bool \<Rightarrow> string list \<Rightarrow> string list \<Rightarrow> string list" where
  "cleanSegs rooted [] out = rev out"
| "cleanSegs rooted (x # xs) out =
     (if x = [] \<or> x = ''.'' then cleanSegs rooted xs out
      else if x = ''..'' then
        (case out of
           [] \<Rightarrow> cleanSegs rooted xs (if rooted then [] else [''..''])
         | a # as \<Rightarrow> cleanSegs rooted xs (if a = ''..'' then ''..'' # out else as))
      else cleanSegs rooted xs (x # out))"

definition Clean :: "string \<Rightarrow> string" where
  "Clean p = (let rooted = (p \<noteq> [] \<and> hd p = CHR ''/'');
                  out = Join (cleanSegs rooted (Split (CHR ''/'') p) []) ''/''
              in if rooted then CHR ''/'' # out else if out = [] then ''.'' else out)"

definition Count :: "char \<Rightarrow> string \<Rightarrow> nat" where
  "Count c s = length (filter (\<lambda>x. x = c) s)"

lemma Count_append [simp]: "Count c (a @ b) = Count c a + Count c b"
  by (simp add: Count_def)

text \<open>A path strictly below another, other than the root, has more parts.\<close>

definition below :: "string \<Rightarrow> string \<Rightarrow> bool" where
  "below a b \<longleftrightarrow> prefix (Clean a @ ''/'') (Clean b)"

lemma below_parts: "below a b \<Longrightarrow> Count (CHR ''/'') (Clean a) < Count (CHR ''/'') (Clean b)"
proof -
  assume "below a b"
  then obtain x where "Clean b = (Clean a @ ''/'') @ x" by (auto simp: below_def prefix_def)
  then show ?thesis by (simp only: Count_append) (simp add: Count_def)
qed

text \<open>\<^verbatim>\<open>filepath.Join\<close> of two elements, the first not empty, and \<^verbatim>\<open>path.Base\<close>.\<close>

definition PathJoin :: "string \<Rightarrow> string \<Rightarrow> string" where
  "PathJoin a b = Clean (if a = [] then b else if b = [] then a else a @ ''/'' @ b)"

definition Base :: "string \<Rightarrow> string" where
  "Base p = (if p = [] then ''.'' else
     let q = rev (dropWhile (\<lambda>x. x = CHR ''/'') (rev p)) in
     if q = [] then ''/'' else last (Split (CHR ''/'') q))"

subsection \<open>Prefixes and substrings\<close>

definition HasPrefix :: "string \<Rightarrow> string \<Rightarrow> bool" where
  "HasPrefix s p \<longleftrightarrow> take (length p) s = p"

definition HasSuffix :: "string \<Rightarrow> string \<Rightarrow> bool" where
  "HasSuffix s p \<longleftrightarrow> HasPrefix (rev s) (rev p)"

definition TrimPrefix :: "string \<Rightarrow> string \<Rightarrow> string" where
  "TrimPrefix s p = (if HasPrefix s p then drop (length p) s else s)"

fun Contains :: "string \<Rightarrow> string \<Rightarrow> bool" where
  "Contains [] t \<longleftrightarrow> t = []"
| "Contains (x # xs) t \<longleftrightarrow> HasPrefix (x # xs) t \<or> Contains xs t"

lemma HasPrefix_append [simp]: "HasPrefix (p @ s) p"
  by (simp add: HasPrefix_def)

lemma HasPrefix_iff: "HasPrefix s p \<longleftrightarrow> prefix p s"
  by (metis HasPrefix_append HasPrefix_def append_take_drop_id prefix_def)

lemma TrimPrefix_append [simp]: "TrimPrefix (p @ s) p = s"
  by (simp add: TrimPrefix_def)

subsection \<open>Numbers\<close>

definition isSpace :: "char \<Rightarrow> bool" where
  "isSpace c \<longleftrightarrow> c \<in> {CHR 0x09, CHR 0x0A, CHR 0x0B, CHR 0x0C, CHR 0x0D, CHR 0x20}"

definition TrimSpace :: "string \<Rightarrow> string" where
  "TrimSpace s = rev (dropWhile isSpace (rev (dropWhile isSpace s)))"

definition isDigit :: "char \<Rightarrow> bool" where
  "isDigit c \<longleftrightarrow> 48 \<le> (of_char c :: nat) \<and> (of_char c :: nat) \<le> 57"

definition digitsValue :: "string \<Rightarrow> int" where
  "digitsValue s = foldl (\<lambda>a c. 10 * a + (of_char c - 48)) 0 s"

text \<open>\<^verbatim>\<open>strconv.Atoi\<close> into a 64-bit \<^verbatim>\<open>int\<close>.\<close>

definition Atoi :: "string \<Rightarrow> int result" where
  "Atoi s =
     (let neg = (s \<noteq> [] \<and> hd s = CHR ''-'');
          ds = (if s \<noteq> [] \<and> hd s \<in> {CHR ''-'', CHR ''+''} then tl s else s);
          v = (if neg then - digitsValue ds else digitsValue ds)
      in if ds = [] \<or> \<not> list_all isDigit ds then Inl (Errorf ''strconv.Atoi: parsing %q: invalid syntax'' [s])
         else if v < - (2 ^ 63) \<or> 2 ^ 63 \<le> v then Inl (Errorf ''strconv.Atoi: parsing %q: value out of range'' [s])
         else Inr v)"

text \<open>\<^verbatim>\<open>strconv.FormatInt(n, 10)\<close>\<close>

definition FormatInt :: "int \<Rightarrow> string" where
  "FormatInt n = (if n < 0 then CHR ''-'' # Itoa (nat (- n)) else Itoa (nat n))"

lemma Itoa_isDigit: "c \<in> set (Itoa n) \<Longrightarrow> isDigit c"
  by (simp add: isDigit_def Itoa_digits)

lemma FormatInt_nonempty [simp]: "FormatInt n \<noteq> []"
  by (simp add: FormatInt_def)

lemma FormatInt_no_colon: "CHR '':'' \<notin> set (FormatInt n)"
proof -
  have "CHR '':'' \<notin> set (Itoa m)" for m
    using Itoa_isDigit [of "CHR '':''" m] by (auto simp: isDigit_def)
  then show ?thesis by (simp add: FormatInt_def)
qed

lemma FormatInt_inject [simp]: "FormatInt m = FormatInt n \<longleftrightarrow> m = n"
proof -
  have minus: "CHR ''-'' # x \<noteq> Itoa k" for x k
    using Itoa_isDigit [of "CHR ''-''" k] by (auto simp: isDigit_def) (metis list.set_intros(1))
  then show ?thesis
    by (auto simp: FormatInt_def split: if_splits) (metis minus)+
qed

subsection \<open>Globs\<close>

fun getEsc :: "string \<Rightarrow> (char \<times> string) option" where
  "getEsc [] = None"
| "getEsc (c # cs) =
     (if c = CHR ''-'' \<or> c = CHR '']'' then None
      else if c = CHR 0x5C then
        (case cs of d # ds \<Rightarrow> (if ds = [] then None else Some (d, ds)) | [] \<Rightarrow> None)
      else if cs = [] then None else Some (c, cs))"

lemma getEsc_shorter: "getEsc s = Some (c, t) \<Longrightarrow> length t < length s"
  by (cases s) (auto split: if_splits list.splits)

text \<open>The class after the bracket: whether \<open>r\<close> is in one of its ranges, and the pattern behind it.\<close>

function (sequential) classLoop :: "bool \<Rightarrow> char \<Rightarrow> bool \<Rightarrow> string \<Rightarrow> (bool \<times> string) option" where
  "classLoop some r m chunk =
     (if some \<and> chunk \<noteq> [] \<and> hd chunk = CHR '']'' then Some (m, tl chunk)
      else case getEsc chunk of
        None \<Rightarrow> None
      | Some (lo, c1) \<Rightarrow>
          (case (if c1 \<noteq> [] \<and> hd c1 = CHR ''-'' then getEsc (tl c1) else Some (lo, c1)) of
             None \<Rightarrow> None
           | Some (hi, c2) \<Rightarrow>
               classLoop True r (m \<or> (of_char lo :: nat) \<le> of_char r \<and> (of_char r :: nat) \<le> of_char hi) c2))"
  by pat_completeness auto
termination
proof (relation "measure (\<lambda>(_, _, _, chunk). length chunk)", goal_cases)
  case (2 some r m chunk a lo c1 b hi c2)
  from 2(2) 2(3) have 1: "length c1 < length chunk" by (cases a) (auto dest: getEsc_shorter)
  have "length c2 \<le> length c1"
    using 2(4,5) by (cases b) (auto split: if_splits dest: getEsc_shorter)
  with 1 show ?case by simp
qed simp

declare classLoop.simps [simp del]

lemma classLoop_shorter: "classLoop some r m chunk = Some (b, rest) \<Longrightarrow> length rest \<le> length chunk"
proof (induction some r m chunk rule: classLoop.induct)
  case (1 some r m chunk)
  show ?case
  proof (cases "some \<and> chunk \<noteq> [] \<and> hd chunk = CHR '']''")
    case True
    then have "rest = tl chunk" using 1(2) by (subst (asm) classLoop.simps) simp
    then show ?thesis by simp
  next
    case False
    then obtain lo c1 hi c2 where e: "getEsc chunk = Some (lo, c1)"
      "(if c1 \<noteq> [] \<and> hd c1 = CHR ''-'' then getEsc (tl c1) else Some (lo, c1)) = Some (hi, c2)"
      "classLoop True r (m \<or> (of_char lo :: nat) \<le> of_char r \<and> (of_char r :: nat) \<le> of_char hi) c2 = Some (b, rest)"
      using 1(2) by (subst (asm) classLoop.simps) (auto split: option.splits prod.splits)
    have "length c2 \<le> length c1" using e(2) by (auto split: if_splits dest: getEsc_shorter)
    with 1(1) [OF False e(1) refl e(2) refl e(3)] getEsc_shorter [OF e(1)] show ?thesis by simp
  qed
qed

text \<open>\<^verbatim>\<open>ok, _ := path.Match(pattern, name)\<close>\<close>

function (sequential) Match :: "string \<Rightarrow> string \<Rightarrow> bool" where
  "Match [] s \<longleftrightarrow> s = []"
| "Match (c # p) s \<longleftrightarrow>
     (if c = CHR ''*'' then
        Match p s \<or> (case s of [] \<Rightarrow> False | x # xs \<Rightarrow> x \<noteq> CHR ''/'' \<and> Match (c # p) xs)
      else case s of
        [] \<Rightarrow> False
      | x # xs \<Rightarrow>
          (if c = CHR ''?'' then x \<noteq> CHR ''/'' \<and> Match p xs
           else if c = CHR ''['' then
             (let neg = (p \<noteq> [] \<and> hd p = CHR ''^'') in
              case classLoop False x False (if neg then tl p else p) of
                None \<Rightarrow> False
              | Some (m, p') \<Rightarrow> m \<noteq> neg \<and> Match p' xs)
           else if c = CHR 0x5C then
             (case p of [] \<Rightarrow> False | d # p' \<Rightarrow> x = d \<and> Match p' xs)
           else x = c \<and> Match p xs))"
  by pat_completeness auto
termination
proof (relation "measure (\<lambda>(p, s). length p + length s)", goal_cases)
  case (5 c p s x xs neg a m p')
  then have "length p' \<le> length (if neg then tl p else p)" by (auto dest!: classLoop_shorter)
  then show ?case using 5(1,2) by (auto split: if_splits)
qed auto

declare Match.simps [simp del]

end
