(* ===== verification/OciSpec.thy ===== *)
theory OciSpec
  imports CriApi Paths
begin

section \<open>OCI specs and their options\<close>

text \<open>
  The runtime spec of a container and the options that build it: \<^verbatim>\<open>pkg/containerd/opts/spec.go\<close> and \<^verbatim>\<open>spec_unix.go\<close>, and the options
  of containerd (\<^verbatim>\<open>vendor/github.com/containerd/containerd/oci/spec_opts.go\<close>) that the plugin composes with them. A nil pointer is
  \<open>None\<close>; a nil slice is the empty list. An option is an action: it maps a spec to a spec, may fail, and
  may call the operating system. The calls made so far, newest first, are its state; what they
  answer is an argument (\<open>osEnv\<close>). When an option fails the spec is dropped, so only the error is kept.
\<close>

subsection \<open>The spec\<close>

record ociMount =
  om_Source :: string
  om_Destination :: string
  om_Type :: string
  om_Options :: "string list"

record linuxCapabilities =
  cap_Bounding :: "string list"
  cap_Effective :: "string list"
  cap_Permitted :: "string list"
  cap_Inheritable :: "string list"
  cap_Ambient :: "string list"

record ociProcess =
  pr_Terminal :: bool
  pr_AdditionalGids :: "32 word list"
  pr_Args :: "string list"
  pr_Env :: "string list"
  pr_Cwd :: string
  pr_Capabilities :: "linuxCapabilities option"
  pr_Rlimits :: "string list"
  pr_NoNewPrivileges :: bool
  pr_ApparmorProfile :: string
  pr_OOMScoreAdj :: "int option"
  pr_SelinuxLabel :: string

record ociRoot =
  ro_Path :: string
  ro_Readonly :: bool

datatype nsType = PIDNamespace | IPCNamespace | UTSNamespace | MountNamespace | NetworkNamespace | CgroupNamespace | UserNamespace

record linuxNamespace =
  ns_Type :: nsType
  ns_Path :: string

record linuxDevice =
  dv_Path :: string
  dv_Type :: string
  dv_Major :: int
  dv_Minor :: int
  dv_UID :: "32 word"
  dv_GID :: "32 word"

record linuxDeviceCgroup =
  dg_Allow :: bool
  dg_Type :: string
  dg_Major :: "int option"
  dg_Minor :: "int option"
  dg_Access :: string

record linuxCPU =
  cpu_Shares :: "64 word option"
  cpu_Quota :: "64 word option"
  cpu_Period :: "64 word option"
  cpu_Cpus :: string
  cpu_Mems :: string

record linuxMemory =
  mem_Limit :: "64 word option"

record linuxResources =
  re_Devices :: "linuxDeviceCgroup list"
  re_Memory :: "linuxMemory option"
  re_CPU :: "linuxCPU option"
  re_HugepageLimits :: "hugepageLimit list"

record ociLinux =
  li_Sysctl :: labels
  li_Resources :: "linuxResources option"
  li_CgroupsPath :: string
  li_Namespaces :: "linuxNamespace list"
  li_Devices :: "linuxDevice list"
  li_Seccomp :: "string option"
  li_RootfsPropagation :: string
  li_MaskedPaths :: "string list"
  li_ReadonlyPaths :: "string list"
  li_MountLabel :: string

record ociSpec =
  sp_Process :: "ociProcess option"
  sp_Root :: "ociRoot option"
  sp_Hostname :: string
  sp_Mounts :: "ociMount list"
  sp_Annotations :: labels
  sp_Linux :: "ociLinux option"

definition zeroProcess :: ociProcess where
  "zeroProcess = \<lparr>pr_Terminal = False, pr_AdditionalGids = [], pr_Args = [], pr_Env = [], pr_Cwd = [], pr_Capabilities = None,
     pr_Rlimits = [], pr_NoNewPrivileges = False, pr_ApparmorProfile = [], pr_OOMScoreAdj = None, pr_SelinuxLabel = []\<rparr>"

definition zeroCapabilities :: linuxCapabilities where
  "zeroCapabilities = \<lparr>cap_Bounding = [], cap_Effective = [], cap_Permitted = [], cap_Inheritable = [], cap_Ambient = []\<rparr>"

definition zeroLinux :: ociLinux where
  "zeroLinux = \<lparr>li_Sysctl = Map.empty, li_Resources = None, li_CgroupsPath = [], li_Namespaces = [], li_Devices = [],
     li_Seccomp = None, li_RootfsPropagation = [], li_MaskedPaths = [], li_ReadonlyPaths = [], li_MountLabel = []\<rparr>"

definition zeroResources :: linuxResources where
  "zeroResources = \<lparr>re_Devices = [], re_Memory = None, re_CPU = None, re_HugepageLimits = []\<rparr>"

definition zeroCPU :: linuxCPU where
  "zeroCPU = \<lparr>cpu_Shares = None, cpu_Quota = None, cpu_Period = None, cpu_Cpus = [], cpu_Mems = []\<rparr>"

definition orNew :: "'a \<Rightarrow> 'a option \<Rightarrow> 'a" where
  "orNew z p = (case p of None \<Rightarrow> z | Some x \<Rightarrow> x)"

text \<open>\<^verbatim>\<open>setProcess\<close>, \<^verbatim>\<open>setLinux\<close> and the like allocate the part if it is nil; then the option changes it.\<close>

abbreviation processOf :: "ociSpec \<Rightarrow> ociProcess" where
  "processOf s \<equiv> orNew zeroProcess (sp_Process s)"

abbreviation linuxOf :: "ociSpec \<Rightarrow> ociLinux" where
  "linuxOf s \<equiv> orNew zeroLinux (sp_Linux s)"

definition updProcess :: "(ociProcess \<Rightarrow> ociProcess) \<Rightarrow> ociSpec \<Rightarrow> ociSpec" where
  "updProcess f s = s\<lparr>sp_Process := Some (f (processOf s))\<rparr>"

definition updLinux :: "(ociLinux \<Rightarrow> ociLinux) \<Rightarrow> ociSpec \<Rightarrow> ociSpec" where
  "updLinux f s = s\<lparr>sp_Linux := Some (f (linuxOf s))\<rparr>"

definition updResources :: "(linuxResources \<Rightarrow> linuxResources) \<Rightarrow> ociSpec \<Rightarrow> ociSpec" where
  "updResources f = updLinux (\<lambda>l. l\<lparr>li_Resources := Some (f (orNew zeroResources (li_Resources l)))\<rparr>)"

definition updCapabilities :: "(linuxCapabilities \<Rightarrow> linuxCapabilities) \<Rightarrow> ociSpec \<Rightarrow> ociSpec" where
  "updCapabilities f = updProcess (\<lambda>p. p\<lparr>pr_Capabilities := Some (f (orNew zeroCapabilities (pr_Capabilities p)))\<rparr>)"

subsection \<open>Options and the operating system\<close>

datatype oscall =
    OsStat string | OsMkdirAll string | OsResolve string | OsLookupMount string | OsRelabel string string
  | OsDevice string string | OsGetDevices | OsReadOOMScoreAdj | OsHostname | OsInitLabels "string list" | OsReleaseLabel string

record mountInfo =
  mi_Mountpoint :: string
  mi_Optional :: string

record osDevice =
  od_Type :: string
  od_Major :: int
  od_Minor :: int
  od_Uid :: "32 word"
  od_Gid :: "32 word"
  od_Permissions :: string

record osEnv =
  os_err :: "oscall list \<Rightarrow> oscall \<Rightarrow> goerror option"
  os_resolved :: "oscall list \<Rightarrow> string \<Rightarrow> string"
  os_mountInfo :: "oscall list \<Rightarrow> string \<Rightarrow> mountInfo"
  os_device :: "oscall list \<Rightarrow> string \<Rightarrow> string \<Rightarrow> osDevice"
  os_hostDevices :: "oscall list \<Rightarrow> linuxDevice list"
  os_oomScoreAdj :: "oscall list \<Rightarrow> string"
  os_hostname :: "oscall list \<Rightarrow> string"
  os_labels :: "oscall list \<Rightarrow> string list \<Rightarrow> string \<times> string"
  os_dupSecOpt :: "string \<Rightarrow> string list result"
  os_unified :: bool
  os_hugetlbDir :: bool
  os_controllers :: "string option"
  os_allCapabilities :: "string list"

type_synonym 'a osact = "(oscall list, 'a) act"
type_synonym specOpt = "osEnv \<Rightarrow> ociSpec \<Rightarrow> ociSpec osact"

definition osCall :: "osEnv \<Rightarrow> oscall \<Rightarrow> unit osact" where
  "osCall os c tr = ((case os_err os tr c of None \<Rightarrow> Inr () | Some e \<Rightarrow> Inl e), c # tr)"

definition pureOpt :: "(ociSpec \<Rightarrow> ociSpec) \<Rightarrow> specOpt" where
  "pureOpt f os s = returnA (f s)"

text \<open>\<^verbatim>\<open>oci.Compose\<close> and \<^verbatim>\<open>oci.ApplyOpts\<close>\<close>

fun applySpecOpts :: "specOpt list \<Rightarrow> specOpt" where
  "applySpecOpts [] os s = returnA s"
| "applySpecOpts (o' # opts) os s = bindA (o' os s) (applySpecOpts opts os)"

subsection \<open>Options of containerd\<close>

definition envKey :: "string \<Rightarrow> string" where
  "envKey e = hd (SplitN 2 (CHR ''='') e)"

text \<open>\<open>cache\<close>: the index of the last default with that key.\<close>

fun envCache :: "nat \<Rightarrow> string list \<Rightarrow> (string \<rightharpoonup> nat) \<Rightarrow> (string \<rightharpoonup> nat)" where
  "envCache i [] m = m"
| "envCache i (e # es) m = envCache (Suc i) es (m(envKey e \<mapsto> i))"

fun envOverride :: "(string \<rightharpoonup> nat) \<Rightarrow> string list \<Rightarrow> string list \<Rightarrow> string list" where
  "envOverride cache [] results = results"
| "envOverride cache (v # vs) results =
     (if CHR ''='' \<notin> set v then
        envOverride cache vs (case cache v of Some i \<Rightarrow> results[i := []] | None \<Rightarrow> results)
      else
        envOverride cache vs (case cache (envKey v) of Some i \<Rightarrow> results[i := v] | None \<Rightarrow> results @ [v]))"

definition replaceOrAppendEnvValues :: "string list \<Rightarrow> string list \<Rightarrow> string list" where
  "replaceOrAppendEnvValues defaults overrides =
     filter (\<lambda>e. e \<noteq> []) (envOverride (envCache 0 defaults Map.empty) overrides defaults)"

definition Oci_WithEnv :: "string list \<Rightarrow> specOpt" where
  "Oci_WithEnv env = pureOpt (\<lambda>s. if env \<noteq> [] then
     updProcess (\<lambda>p. p\<lparr>pr_Env := replaceOrAppendEnvValues (pr_Env p) env\<rparr>) s else s)"

definition defaultUnixEnv :: "string list" where
  "defaultUnixEnv = [''PATH=/usr/local/sbin:/usr/local/bin:/usr/sbin:/usr/bin:/sbin:/bin'']"

text \<open>This one dereferences the process without a test.\<close>

definition WithDefaultPathEnv :: specOpt where
  "WithDefaultPathEnv os s =
     (case sp_Process s of
        None \<Rightarrow> failA (Errorf ''invalid memory address or nil pointer dereference'' [])
      | Some p \<Rightarrow> returnA (s\<lparr>sp_Process := Some (p\<lparr>pr_Env := replaceOrAppendEnvValues (pr_Env p) defaultUnixEnv\<rparr>)\<rparr>))"

definition Oci_WithProcessArgs :: "string list \<Rightarrow> specOpt" where
  "Oci_WithProcessArgs args = pureOpt (updProcess (\<lambda>p. p\<lparr>pr_Args := args\<rparr>))"

definition WithProcessCwd :: "string \<Rightarrow> specOpt" where
  "WithProcessCwd cwd = pureOpt (updProcess (\<lambda>p. p\<lparr>pr_Cwd := cwd\<rparr>))"

definition WithTTY :: specOpt where
  "WithTTY = pureOpt (\<lambda>s. updProcess (\<lambda>p. p\<lparr>pr_Terminal := True,
     pr_Env := (if sp_Linux s \<noteq> None then pr_Env p @ [''TERM=xterm''] else pr_Env p)\<rparr>) s)"

definition WithHostname :: "string \<Rightarrow> specOpt" where
  "WithHostname name = pureOpt (\<lambda>s. s\<lparr>sp_Hostname := name\<rparr>)"

definition Oci_WithMounts :: "ociMount list \<Rightarrow> specOpt" where
  "Oci_WithMounts mounts = pureOpt (\<lambda>s. s\<lparr>sp_Mounts := sp_Mounts s @ mounts\<rparr>)"

fun setNamespace :: "linuxNamespace \<Rightarrow> linuxNamespace list \<Rightarrow> linuxNamespace list" where
  "setNamespace ns [] = [ns]"
| "setNamespace ns (n # rest) = (if ns_Type n = ns_Type ns then ns # rest else n # setNamespace ns rest)"

definition WithLinuxNamespace :: "linuxNamespace \<Rightarrow> specOpt" where
  "WithLinuxNamespace ns = pureOpt (updLinux (\<lambda>l. l\<lparr>li_Namespaces := setNamespace ns (li_Namespaces l)\<rparr>))"

definition WithNewPrivileges :: specOpt where
  "WithNewPrivileges = pureOpt (updProcess (\<lambda>p. p\<lparr>pr_NoNewPrivileges := False\<rparr>))"

definition WithNoNewPrivileges :: specOpt where
  "WithNoNewPrivileges = pureOpt (updProcess (\<lambda>p. p\<lparr>pr_NoNewPrivileges := True\<rparr>))"

definition WithRootFSReadonly :: specOpt where
  "WithRootFSReadonly = pureOpt (\<lambda>s. s\<lparr>sp_Root := Some ((orNew \<lparr>ro_Path = [], ro_Readonly = False\<rparr> (sp_Root s))\<lparr>ro_Readonly := True\<rparr>)\<rparr>)"

definition WithCgroup :: "string \<Rightarrow> specOpt" where
  "WithCgroup path = pureOpt (updLinux (\<lambda>l. l\<lparr>li_CgroupsPath := path\<rparr>))"

definition WithMaskedPaths :: "string list \<Rightarrow> specOpt" where
  "WithMaskedPaths paths = pureOpt (updLinux (\<lambda>l. l\<lparr>li_MaskedPaths := paths\<rparr>))"

definition WithReadonlyPaths :: "string list \<Rightarrow> specOpt" where
  "WithReadonlyPaths paths = pureOpt (updLinux (\<lambda>l. l\<lparr>li_ReadonlyPaths := paths\<rparr>))"

definition setCaps :: "(string list \<Rightarrow> string list) \<Rightarrow> linuxCapabilities \<Rightarrow> linuxCapabilities" where
  "setCaps f c = c\<lparr>cap_Bounding := f (cap_Bounding c), cap_Effective := f (cap_Effective c),
     cap_Permitted := f (cap_Permitted c), cap_Inheritable := f (cap_Inheritable c)\<rparr>"

definition Oci_WithCapabilities :: "string list \<Rightarrow> specOpt" where
  "Oci_WithCapabilities caps = pureOpt (updCapabilities (setCaps (\<lambda>_. caps)))"

definition WithAllCapabilities :: specOpt where
  "WithAllCapabilities os = Oci_WithCapabilities (os_allCapabilities os) os"

text \<open>Each of the four sets treats the capabilities one after the other.\<close>

definition addCap :: "string \<Rightarrow> string list \<Rightarrow> string list" where
  "addCap c cl = (if c \<in> set cl then cl else cl @ [c])"

definition removeCap :: "string \<Rightarrow> string list \<Rightarrow> string list" where
  "removeCap c cl = filter (\<lambda>x. x \<noteq> c) cl"

definition WithAddedCapabilities :: "string list \<Rightarrow> specOpt" where
  "WithAddedCapabilities caps = pureOpt (updCapabilities (setCaps (\<lambda>cl. fold addCap caps cl)))"

definition WithDroppedCapabilities :: "string list \<Rightarrow> specOpt" where
  "WithDroppedCapabilities caps = pureOpt (updCapabilities (setCaps (\<lambda>cl. fold removeCap caps cl)))"

definition writeable :: "string \<Rightarrow> ociMount \<Rightarrow> ociMount" where
  "writeable t m = (if om_Type m = t then m\<lparr>om_Options := map (\<lambda>x. if x = ''ro'' then ''rw'' else x) (om_Options m)\<rparr> else m)"

definition WithWriteableSysfs :: specOpt where
  "WithWriteableSysfs = pureOpt (\<lambda>s. s\<lparr>sp_Mounts := map (writeable ''sysfs'') (sp_Mounts s)\<rparr>)"

definition WithWriteableCgroupfs :: specOpt where
  "WithWriteableCgroupfs = pureOpt (\<lambda>s. s\<lparr>sp_Mounts := map (writeable ''cgroup'') (sp_Mounts s)\<rparr>)"

definition WithSelinuxLabel :: "string \<Rightarrow> specOpt" where
  "WithSelinuxLabel label = pureOpt (updProcess (\<lambda>p. p\<lparr>pr_SelinuxLabel := label\<rparr>))"

definition WithApparmorProfile :: "string \<Rightarrow> specOpt" where
  "WithApparmorProfile profile = pureOpt (updProcess (\<lambda>p. p\<lparr>pr_ApparmorProfile := profile\<rparr>))"

definition WithSeccompUnconfined :: specOpt where
  "WithSeccompUnconfined = pureOpt (updLinux (\<lambda>l. l\<lparr>li_Seccomp := None\<rparr>))"

definition WithPrivileged :: specOpt where
  "WithPrivileged = applySpecOpts
     [WithAllCapabilities, WithMaskedPaths [], WithReadonlyPaths [], WithWriteableSysfs, WithWriteableCgroupfs,
      WithSelinuxLabel [], WithApparmorProfile [], WithSeccompUnconfined]"

definition WithAllDevicesAllowed :: specOpt where
  "WithAllDevicesAllowed = pureOpt (updResources (\<lambda>r. r\<lparr>re_Devices :=
     [\<lparr>dg_Allow = True, dg_Type = [], dg_Major = None, dg_Minor = None, dg_Access = ''rwm''\<rparr>]\<rparr>))"

definition WithHostDevices :: specOpt where
  "WithHostDevices os s =
     thenA (osCall os OsGetDevices)
           (getA (\<lambda>tr. updLinux (\<lambda>l. l\<lparr>li_Devices := li_Devices l @ os_hostDevices os tr\<rparr>) s))"

end
