(* ===== verification/DigestSet.thy ===== *)
theory DigestSet
  imports GoStrings "HOL-Library.Char_ord" "HOL-Library.List_Lexorder" "HOL-Library.Product_Lexorder"
begin

section \<open>The set of image digests\<close>

text \<open>
  \<^verbatim>\<open>digestset.Set\<close> of the vendored go-digest package, through which the image store resolves image
  ids that may be abbreviated: a slice of entries kept in the order of (hex value, algorithm) and
  searched by bisection. Strings are ordered bytewise.
\<close>

subsection \<open>sort.Search\<close>

function search :: "(nat \<Rightarrow> bool) \<Rightarrow> nat \<Rightarrow> nat \<Rightarrow> nat" where
  "search f i j =
     (if i < j then let h = (i + j) div 2 in if \<not> f h then search f (h + 1) j else search f i h
      else i)"
  by pat_completeness auto
termination
  by (relation "measure (\<lambda>(f, i, j). j - i)") (auto simp: Let_def)

declare search.simps [simp del]

definition Search :: "nat \<Rightarrow> (nat \<Rightarrow> bool) \<Rightarrow> nat" where
  "Search n f = search f 0 n"

lemma search_spec:
  assumes "\<And>a b. a \<le> b \<Longrightarrow> b < n \<Longrightarrow> f a \<Longrightarrow> f b"
    and "i \<le> j" "j \<le> n" "\<And>k. k < i \<Longrightarrow> \<not> f k" "j < n \<Longrightarrow> f j"
  shows "search f i j \<le> n \<and> (\<forall>k < search f i j. \<not> f k) \<and> (search f i j < n \<longrightarrow> f (search f i j))"
  using assms
proof (induction f i j rule: search.induct)
  case (1 f i j)
  show ?case
  proof (cases "i < j")
    case False
    then have "search f i j = i" by (subst search.simps) simp
    moreover have "i = j" using False "1.prems"(2) by simp
    ultimately show ?thesis using "1.prems" by simp
  next
    case True
    let ?h = "(i + j) div 2"
    have h: "i \<le> ?h" "?h < j" using True by auto
    show ?thesis
    proof (cases "f ?h")
      case False
      have "\<not> f k" if "k < ?h + 1" for k
      proof -
        have "k \<le> ?h" "?h < n" using that h "1.prems"(3) by linarith+
        then show ?thesis using "1.prems"(1) False by blast
      qed
      moreover have "search f i j = search f (?h + 1) j" using True False by (subst search.simps) simp
      moreover have "search f (?h + 1) j \<le> n \<and> (\<forall>k < search f (?h + 1) j. \<not> f k) \<and>
          (search f (?h + 1) j < n \<longrightarrow> f (search f (?h + 1) j))"
      proof (rule "1.IH"(1) [OF True refl False])
        show "\<not> f k" if "k < ?h + 1" for k using calculation(1) that .
      qed (use "1.prems"(1,3,5) h in auto)
      ultimately show ?thesis by simp
    next
      case h2: True
      then have "search f i j = search f i ?h" using True by (subst search.simps) simp
      moreover have "search f i ?h \<le> n \<and> (\<forall>k < search f i ?h. \<not> f k) \<and>
          (search f i ?h < n \<longrightarrow> f (search f i ?h))"
      proof (rule "1.IH"(2) [OF True refl])
        show "f b" if "a \<le> b" "b < n" "f a" for a b using "1.prems"(1) that .
      qed (use "1.prems"(3,4) h h2 in auto)
      ultimately show ?thesis by simp
    qed
  qed
qed

lemma Search_spec:
  assumes "\<And>a b. a \<le> b \<Longrightarrow> b < n \<Longrightarrow> f a \<Longrightarrow> f b"
  shows "Search n f \<le> n" "k < Search n f \<Longrightarrow> \<not> f k" "Search n f < n \<Longrightarrow> f (Search n f)"
  using search_spec [of n f 0 n] assms unfolding Search_def by blast+

subsection \<open>Digests\<close>

definition split_digest :: "string \<Rightarrow> string \<times> string" where
  "split_digest s = (takeWhile (\<lambda>c. c \<noteq> CHR '':'') s, drop 1 (dropWhile (\<lambda>c. c \<noteq> CHR '':'') s))"

definition digest_Algorithm :: "string \<Rightarrow> string" where
  "digest_Algorithm d = fst (split_digest d)"

definition digest_Hex :: "string \<Rightarrow> string" where
  "digest_Hex d = snd (split_digest d)"

definition hex_size :: "string \<Rightarrow> nat option" where
  "hex_size alg = (if alg = ''sha256'' then Some 64 else if alg = ''sha384'' then Some 96
     else if alg = ''sha512'' then Some 128 else None)"

definition is_lower_alnum :: "char \<Rightarrow> bool" where
  "is_lower_alnum c \<longleftrightarrow> c \<in> set ''abcdefghijklmnopqrstuvwxyz0123456789''"

definition is_alg_sep :: "char \<Rightarrow> bool" where
  "is_alg_sep c \<longleftrightarrow> c \<in> set ''.+_-''"

definition is_hash_char :: "char \<Rightarrow> bool" where
  "is_hash_char c \<longleftrightarrow> c \<in> set ''abcdefghijklmnopqrstuvwxyzABCDEFGHIJKLMNOPQRSTUVWXYZ0123456789=_-''"

text \<open>The algorithm part of the regular expression: non-empty words joined by single separators.\<close>

fun alg_words :: "bool \<Rightarrow> string \<Rightarrow> bool" where
  "alg_words w [] = w"
| "alg_words w (c # cs) = (if is_lower_alnum c then alg_words True cs else is_alg_sep c \<and> w \<and> alg_words False cs)"

definition DigestRegexpAnchored :: "string \<Rightarrow> bool" where
  "DigestRegexpAnchored s \<longleftrightarrow> CHR '':'' \<in> set s \<and> alg_words False (digest_Algorithm s) \<and>
     digest_Hex s \<noteq> [] \<and> list_all is_hash_char (digest_Hex s)"

definition Validate :: "string \<Rightarrow> goerror option" where
  "Validate s =
     (if CHR '':'' \<notin> set s \<or> digest_Algorithm s = [] \<or> digest_Hex s = [] then Some ErrDigestInvalidFormat
      else case hex_size (digest_Algorithm s) of
        None \<Rightarrow> Some (if DigestRegexpAnchored s then ErrDigestUnsupported else ErrDigestInvalidFormat)
      | Some n \<Rightarrow>
          (if length (digest_Hex s) \<noteq> n then Some ErrDigestInvalidLength
           else if list_all (\<lambda>c. c \<in> set ''abcdef0123456789'') (digest_Hex s) then None
           else Some ErrDigestInvalidFormat))"

lemma split_digest_join:
  "CHR '':'' \<in> set s \<Longrightarrow> s = digest_Algorithm s @ CHR '':'' # digest_Hex s"
proof -
  assume "CHR '':'' \<in> set s"
  then have "dropWhile (\<lambda>c. c \<noteq> CHR '':'') s \<noteq> []" by (auto simp: dropWhile_eq_Nil_conv)
  then obtain r where "dropWhile (\<lambda>c. c \<noteq> CHR '':'') s = CHR '':'' # r"
    using hd_dropWhile [of "\<lambda>c. c \<noteq> CHR '':''" s] by (metis list.collapse)
  then show ?thesis
    using takeWhile_dropWhile_id [of "\<lambda>c. c \<noteq> CHR '':''" s]
    by (simp add: digest_Algorithm_def digest_Hex_def split_digest_def)
qed

lemma Validate_None:
  "Validate s = None \<Longrightarrow> CHR '':'' \<in> set s \<and> hex_size (digest_Algorithm s) = Some (length (digest_Hex s))"
  by (auto simp: Validate_def split: if_splits option.splits)

subsection \<open>The set\<close>

record digestEntry =
  de_alg :: string
  de_val :: string
  de_digest :: string

type_synonym digest_set = "digestEntry list"

definition de_key :: "digestEntry \<Rightarrow> string \<times> string" where
  "de_key e = (de_val e, de_alg e)"

definition checkShortMatch :: "string \<Rightarrow> string \<Rightarrow> string \<Rightarrow> string \<Rightarrow> bool" where
  "checkShortMatch alg hex shortAlg shortHex \<longleftrightarrow>
     (if length hex = length shortHex then
        (if hex \<noteq> shortHex then False
         else if length shortAlg > 0 \<and> alg \<noteq> shortAlg then False else True)
      else if \<not> prefix shortHex hex then False
      else if length shortAlg > 0 \<and> alg \<noteq> shortAlg then False
      else True)"

definition fullSearch :: "digest_set \<Rightarrow> string \<Rightarrow> string \<Rightarrow> nat \<Rightarrow> bool" where
  "fullSearch es hex alg i =
     (if de_val (es ! i) = hex then alg \<le> de_alg (es ! i) else hex \<le> de_val (es ! i))"

definition DigestSet_Lookup :: "digest_set \<Rightarrow> string \<Rightarrow> string result" where
  "DigestSet_Lookup es d =
     (if length es = 0 then Inl ErrDigestNotFound
      else
        let short = (Validate d = Some ErrDigestInvalidFormat);
            hex = (if short then d else digest_Hex d);
            alg = (if short then [] else digest_Algorithm d);
            searchFunc = (if short then (\<lambda>i. d \<le> de_val (es ! i)) else fullSearch es hex alg);
            idx = Search (length es) searchFunc
        in if idx = length es \<or> \<not> checkShortMatch (de_alg (es ! idx)) (de_val (es ! idx)) alg hex
           then Inl ErrDigestNotFound
           else if de_alg (es ! idx) = alg \<and> de_val (es ! idx) = hex then Inr (de_digest (es ! idx))
           else if idx + 1 < length es \<and>
                   checkShortMatch (de_alg (es ! (idx + 1))) (de_val (es ! (idx + 1))) alg hex
           then Inl ErrDigestAmbiguous
           else Inr (de_digest (es ! idx)))"

definition mkEntry :: "string \<Rightarrow> digestEntry" where
  "mkEntry d = \<lparr>de_alg = digest_Algorithm d, de_val = digest_Hex d, de_digest = d\<rparr>"

definition DigestSet_Add :: "digest_set \<Rightarrow> string \<Rightarrow> unit result \<times> digest_set" where
  "DigestSet_Add es d =
     (case Validate d of
        Some e \<Rightarrow> (Inl e, es)
      | None \<Rightarrow>
          (let entry = mkEntry d;
               idx = Search (length es) (fullSearch es (de_val entry) (de_alg entry))
           in if idx = length es then (Inr (), es @ [entry])
              else if de_digest (es ! idx) = d then (Inr (), es)
              else (Inr (), take idx es @ entry # drop idx es)))"

definition DigestSet_Remove :: "digest_set \<Rightarrow> string \<Rightarrow> unit result \<times> digest_set" where
  "DigestSet_Remove es d =
     (case Validate d of
        Some e \<Rightarrow> (Inl e, es)
      | None \<Rightarrow>
          (let entry = mkEntry d;
               idx = Search (length es) (fullSearch es (de_val entry) (de_alg entry))
           in if idx = length es \<or> de_digest (es ! idx) \<noteq> d then (Inr (), es)
              else (Inr (), take idx es @ drop (idx + 1) es)))"

subsection \<open>Invariant and exact lookup\<close>

definition ds_inv :: "digest_set \<Rightarrow> bool" where
  "ds_inv es \<longleftrightarrow> sorted_wrt (\<lambda>a b. de_key a < de_key b) es \<and>
     (\<forall>e \<in> set es. Validate (de_digest e) = None \<and> e = mkEntry (de_digest e))"

definition digests :: "digest_set \<Rightarrow> string set" where
  "digests es = de_digest ` set es"

lemma fullSearch_key: "fullSearch es hex alg i \<longleftrightarrow> (hex, alg) \<le> de_key (es ! i)"
  by (auto simp: fullSearch_def de_key_def)

lemma mkEntry_key:
  assumes "Validate d = None" "Validate d' = None"
  shows "de_key (mkEntry d) = de_key (mkEntry d') \<longleftrightarrow> d = d'"
proof
  assume "de_key (mkEntry d) = de_key (mkEntry d')"
  then have "digest_Algorithm d = digest_Algorithm d'" "digest_Hex d = digest_Hex d'"
    by (simp_all add: de_key_def mkEntry_def)
  moreover have "d = digest_Algorithm d @ CHR '':'' # digest_Hex d" "d' = digest_Algorithm d' @ CHR '':'' # digest_Hex d'"
    using assms Validate_None split_digest_join by blast+
  ultimately show "d = d'" by metis
qed simp

text \<open>The position that the bisection finds: everything before it is smaller, everything from it on is not.\<close>

lemma position:
  fixes hex alg :: string
  assumes "ds_inv es"
  defines "p \<equiv> Search (length es) (fullSearch es hex alg)"
  shows "p \<le> length es" "i < p \<Longrightarrow> de_key (es ! i) < (hex, alg)"
    "p \<le> i \<Longrightarrow> i < length es \<Longrightarrow> (hex, alg) \<le> de_key (es ! i)"
proof -
  have s: "sorted_wrt (\<lambda>a b. de_key a < de_key b) es" using assms(1) by (simp add: ds_inv_def)
  have mono: "fullSearch es hex alg a \<Longrightarrow> fullSearch es hex alg b" if "a \<le> b" "b < length es" for a b
    using sorted_wrt_nth_less [OF s, of a b] that by (cases "a = b") (auto simp: fullSearch_key)
  show "p \<le> length es" unfolding p_def by (rule Search_spec(1)) (rule mono)
  show "de_key (es ! i) < (hex, alg)" if "i < p"
    using Search_spec(2) [of "length es" "fullSearch es hex alg" i] mono that
    unfolding p_def fullSearch_key by (simp add: not_le)
  show "(hex, alg) \<le> de_key (es ! i)" if "p \<le> i" "i < length es"
    using Search_spec(3) [of "length es" "fullSearch es hex alg"] mono that
    unfolding p_def fullSearch_key by (meson le_less_trans)
qed

definition pos :: "digest_set \<Rightarrow> string \<Rightarrow> nat" where
  "pos es d = Search (length es) (fullSearch es (digest_Hex d) (digest_Algorithm d))"

lemma key_mkEntry: "de_key (mkEntry d) = (digest_Hex d, digest_Algorithm d)"
  by (simp add: de_key_def mkEntry_def)

lemma pos_before: "ds_inv es \<Longrightarrow> i < pos es d \<Longrightarrow> de_key (es ! i) < de_key (mkEntry d)"
  unfolding pos_def key_mkEntry by (rule position)

lemma pos_after: "ds_inv es \<Longrightarrow> pos es d \<le> i \<Longrightarrow> i < length es \<Longrightarrow> de_key (mkEntry d) \<le> de_key (es ! i)"
  unfolding pos_def key_mkEntry by (rule position)

lemma pos_le: "ds_inv es \<Longrightarrow> pos es d \<le> length es"
  unfolding pos_def by (rule position)

lemma ds_entry: "ds_inv es \<Longrightarrow> e \<in> set es \<Longrightarrow> Validate (de_digest e) = None \<and> e = mkEntry (de_digest e)"
  by (simp add: ds_inv_def)

lemma digests_nth: "i < length es \<Longrightarrow> de_digest (es ! i) \<in> digests es"
  by (simp add: digests_def)

lemma pos_exact:
  assumes "ds_inv es" "Validate d = None"
  shows "d \<in> digests es \<longleftrightarrow> pos es d < length es \<and> es ! pos es d = mkEntry d"
proof
  assume "d \<in> digests es"
  then obtain i where i: "i < length es" "es ! i = mkEntry d"
    using ds_entry [OF assms(1)] by (force simp: digests_def in_set_conv_nth)
  have "\<not> i < pos es d" using pos_before [OF assms(1), of i d] i by auto
  moreover have "\<not> pos es d < i"
  proof
    assume "pos es d < i"
    then have "de_key (es ! pos es d) < de_key (mkEntry d)"
      using assms(1) i sorted_wrt_nth_less [of "\<lambda>a b. de_key a < de_key b" es "pos es d" i]
      by (simp add: ds_inv_def)
    then show False using pos_after [OF assms(1), of d "pos es d"] i \<open>pos es d < i\<close> by simp
  qed
  ultimately show "pos es d < length es \<and> es ! pos es d = mkEntry d" using i by (metis linorder_neqE_nat)
next
  assume "pos es d < length es \<and> es ! pos es d = mkEntry d"
  then have "mkEntry d \<in> set es" by (metis nth_mem)
  then show "d \<in> digests es" by (force simp: digests_def mkEntry_def)
qed

lemma short_match_exact:
  assumes "Validate d = None" "Validate d' = None"
    and "checkShortMatch (digest_Algorithm d') (digest_Hex d') (digest_Algorithm d) (digest_Hex d)"
  shows "d' = d"
proof -
  have "digest_Algorithm d \<noteq> []" using assms(1) by (auto simp: Validate_def split: if_splits)
  then have a: "digest_Algorithm d' = digest_Algorithm d"
    using assms(3) by (auto simp: checkShortMatch_def split: if_splits)
  then have "length (digest_Hex d') = length (digest_Hex d)"
    using Validate_None [OF assms(1)] Validate_None [OF assms(2)] by simp
  then have "digest_Hex d' = digest_Hex d"
    using assms(3) by (auto simp: checkShortMatch_def split: if_splits)
  with a show ?thesis using mkEntry_key [OF assms(2,1)] by (simp add: key_mkEntry)
qed

lemma DigestSet_Lookup_exact:
  assumes "ds_inv es" "Validate d = None"
  shows "DigestSet_Lookup es d = (if d \<in> digests es then Inr d else Inl ErrDigestNotFound)"
proof (cases "pos es d < length es \<and> es ! pos es d = mkEntry d")
  case True
  then show ?thesis using pos_exact [OF assms] assms(2)
    by (auto simp: DigestSet_Lookup_def Let_def pos_def [symmetric] mkEntry_def checkShortMatch_def)
next
  case False
  then have n: "d \<notin> digests es" using pos_exact [OF assms] by simp
  have "\<not> checkShortMatch (de_alg (es ! pos es d)) (de_val (es ! pos es d)) (digest_Algorithm d) (digest_Hex d)"
    if "pos es d < length es"
  proof
    let ?e = "es ! pos es d"
    assume m: "checkShortMatch (de_alg ?e) (de_val ?e) (digest_Algorithm d) (digest_Hex d)"
    have e: "Validate (de_digest ?e) = None" "?e = mkEntry (de_digest ?e)"
      using ds_entry [OF assms(1)] that by auto
    then have "de_alg ?e = digest_Algorithm (de_digest ?e)" "de_val ?e = digest_Hex (de_digest ?e)"
      by (metis mkEntry_def digestEntry.select_convs(1,2))+
    with short_match_exact [OF assms(2) e(1)] m have "de_digest ?e = d" by simp
    then show False using n digests_nth [OF that] by simp
  qed
  then show ?thesis using n pos_le [OF assms(1), of d] assms(2)
    by (auto simp: DigestSet_Lookup_def Let_def pos_def [symmetric])
qed

lemma DigestSet_Add_ok:
  assumes "ds_inv es" "Validate d = None" "DigestSet_Add es d = (r, es')"
  shows "r = Inr () \<and> ds_inv es' \<and> digests es' = insert d (digests es)"
proof (cases "d \<in> digests es")
  case True
  then have "es' = es" "r = Inr ()" using pos_exact [OF assms(1,2)] assms(2,3)
    by (auto simp: DigestSet_Add_def Let_def mkEntry_def pos_def)
  with True assms(1) show ?thesis by auto
next
  case False
  let ?p = "pos es d" and ?e = "mkEntry d"
  have "de_digest (es ! ?p) \<noteq> d" if "?p < length es"
    using False digests_nth [OF that] by auto
  then have es': "es' = take ?p es @ ?e # drop ?p es" "r = Inr ()"
    using assms(2,3) pos_le [OF assms(1), of d]
    by (auto simp: DigestSet_Add_def Let_def mkEntry_def pos_def split: if_splits)
  have before: "de_key x < de_key ?e" if "x \<in> set (take ?p es)" for x
    using that pos_before [OF assms(1)] by (auto simp: in_set_conv_nth)
  have "de_key ?e < de_key x" if x: "x \<in> set (drop ?p es)" for x
  proof -
    obtain i where "?p \<le> i" "i < length es" "x = es ! i"
      using x by (auto simp: in_set_conv_nth) (metis add.commute le_add1 less_diff_conv)
    then have "de_key ?e \<le> de_key x" using pos_after [OF assms(1)] by simp
    moreover have "x \<in> set es" using x by (meson in_set_dropD)
    then have "de_key ?e \<noteq> de_key x"
      using ds_entry [OF assms(1)] False mkEntry_key [OF assms(2)] by (metis digests_def imageI)
    ultimately show ?thesis by simp
  qed
  moreover have "sorted_wrt (\<lambda>a b. de_key a < de_key b) (take ?p es @ drop ?p es)"
    using assms(1) by (simp add: ds_inv_def)
  ultimately have "sorted_wrt (\<lambda>a b. de_key a < de_key b) es'"
    using before unfolding es' sorted_wrt_append by (auto intro: less_trans)
  moreover have "set es' = insert ?e (set es)" unfolding es'
    by (metis append_take_drop_id list.simps(15) set_append Un_insert_right)
  ultimately show ?thesis
    using assms(1,2) es'(2) by (auto simp: ds_inv_def digests_def mkEntry_def)
qed

lemma DigestSet_Remove_ok:
  assumes "ds_inv es" "Validate d = None" "DigestSet_Remove es d = (r, es')"
  shows "r = Inr () \<and> ds_inv es' \<and> digests es' = digests es - {d}"
proof (cases "d \<in> digests es")
  case False
  then have "pos es d = length es \<or> de_digest (es ! pos es d) \<noteq> d"
    using digests_nth [of "pos es d" es] pos_le [OF assms(1), of d] by (metis le_neq_implies_less)
  then have "es' = es" "r = Inr ()" using assms(2,3)
    by (auto simp: DigestSet_Remove_def Let_def mkEntry_def pos_def)
  with False assms(1) show ?thesis by auto
next
  case True
  let ?p = "pos es d"
  have p: "?p < length es" "es ! ?p = mkEntry d" using pos_exact [OF assms(1,2)] True by auto
  then have es': "es' = take ?p es @ drop (Suc ?p) es" "r = Inr ()"
    using assms(2,3) by (auto simp: DigestSet_Remove_def Let_def mkEntry_def pos_def)
  have split: "es = take ?p es @ mkEntry d # drop (Suc ?p) es"
    using p by (metis id_take_nth_drop)
  have sorted: "sorted_wrt (\<lambda>a b. de_key a < de_key b) (take ?p es @ mkEntry d # drop (Suc ?p) es)"
    using assms(1) split by (simp add: ds_inv_def)
  have "de_digest x \<noteq> d" if "x \<in> set es'" for x
  proof
    assume "de_digest x = d"
    moreover have "x \<in> set es" using that es' by (auto dest: in_set_takeD in_set_dropD)
    ultimately have "x = mkEntry d" using ds_entry [OF assms(1)] by metis
    then show False using that sorted es' by (auto simp: sorted_wrt_append)
  qed
  moreover have "set es = insert (mkEntry d) (set es')"
    using split es' by (metis list.simps(15) set_append Un_insert_right)
  moreover have "sorted_wrt (\<lambda>a b. de_key a < de_key b) es'"
    using sorted es' by (auto simp: sorted_wrt_append)
  ultimately show ?thesis
    using assms(1) es'(2) by (auto simp: ds_inv_def digests_def mkEntry_def)
qed

lemma ds_inv_empty [simp]: "ds_inv []" "digests [] = {}"
  by (simp_all add: ds_inv_def digests_def)

end
