(* ===== verification/ImageStore.thy ===== *)
theory ImageStore
  imports DigestSet
begin

section \<open>The image store\<close>

text \<open>
  \<^verbatim>\<open>pkg/store/image/image.go\<close>: the cache of containerd's images, a map from references to image ids
  and a map from image ids to images, each with the list of its references. \<open>Image_Update\<close> brings
  the cache up to date with containerd for one reference; what containerd answers (\<open>GetImage\<close> and the
  content reads of \<open>getImage\<close>) is an argument. The argument \<open>it\<close> is the iteration order of
  \<^verbatim>\<open>util.MergeStringSlices\<close>.
\<close>

subsection \<open>State and operations\<close>

text \<open>Of the OCI image config only the fields the plugin reads.\<close>

record image_config =
  ic_User :: string
  ic_StopSignal :: string
  ic_Volumes :: "string list"
  ic_Entrypoint :: "string list"
  ic_Cmd :: "string list"
  ic_Env :: "string list"
  ic_WorkingDir :: string

record image =
  im_ID :: string
  im_References :: "string list"
  im_ChainID :: string
  im_Size :: "64 word"
  im_Spec :: image_config

record image_map =
  st_images :: "string \<rightharpoonup> image"
  st_digestSet :: digest_set

record image_store =
  is_refCache :: "string \<rightharpoonup> string"
  is_store :: image_map

definition Image_NewStore :: image_store where
  "Image_NewStore = \<lparr>is_refCache = Map.empty, is_store = \<lparr>st_images = Map.empty, st_digestSet = []\<rparr>\<rparr>"

definition store_list :: "string list \<Rightarrow> image_map \<Rightarrow> image list" where
  "store_list order s = values_in (st_images s) order"

definition store_add :: "(string list \<Rightarrow> string list) \<Rightarrow> image_map \<Rightarrow> image \<Rightarrow> unit result \<times> image_map" where
  "store_add it s img =
     (let (err, ds) =
        (case DigestSet_Lookup (st_digestSet s) (im_ID img) of
           Inr _ \<Rightarrow> (None, st_digestSet s)
         | Inl e \<Rightarrow>
             (if e \<noteq> ErrDigestNotFound then (Some e, st_digestSet s)
              else case DigestSet_Add (st_digestSet s) (im_ID img) of
                (Inl e, ds) \<Rightarrow> (Some e, ds)
              | (Inr _, ds) \<Rightarrow> (None, ds)))
      in case err of
           Some e \<Rightarrow> (Inl e, s\<lparr>st_digestSet := ds\<rparr>)
         | None \<Rightarrow>
             (let i = (case st_images s (im_ID img) of
                         None \<Rightarrow> img
                       | Some i \<Rightarrow> i\<lparr>im_References := MergeStringSlices it (im_References i) (im_References img)\<rparr>)
              in (Inr (), s\<lparr>st_digestSet := ds, st_images := (st_images s)(im_ID img \<mapsto> i)\<rparr>)))"

definition store_get :: "image_map \<Rightarrow> string \<Rightarrow> image result" where
  "store_get s i =
     (case DigestSet_Lookup (st_digestSet s) i of
        Inl e \<Rightarrow> Inl (if e = ErrDigestNotFound then ErrNotExist else e)
      | Inr digest \<Rightarrow> (case st_images s digest of Some img \<Rightarrow> Inr img | None \<Rightarrow> Inl ErrNotExist))"

definition store_delete :: "image_map \<Rightarrow> string \<Rightarrow> string \<Rightarrow> image_map" where
  "store_delete s i ref =
     (case DigestSet_Lookup (st_digestSet s) i of
        Inl e \<Rightarrow> s
      | Inr digest \<Rightarrow>
          (case st_images s digest of
             None \<Rightarrow> s
           | Some img \<Rightarrow>
               (let img' = img\<lparr>im_References := SubtractStringSlice (im_References img) ref\<rparr> in
                if length (im_References img') \<noteq> 0 then s\<lparr>st_images := (st_images s)(digest \<mapsto> img')\<rparr>
                else s\<lparr>st_digestSet := snd (DigestSet_Remove (st_digestSet s) digest),
                       st_images := (st_images s)(digest := None)\<rparr>)))"

definition update :: "(string list \<Rightarrow> string list) \<Rightarrow> image_store \<Rightarrow> string \<Rightarrow> image option \<Rightarrow> unit result \<times> image_store" where
  "update it s ref img =
     (case img of
        None \<Rightarrow>
          (case is_refCache s ref of
             None \<Rightarrow> (Inr (), s)
           | Some oldID \<Rightarrow>
               (Inr (), s\<lparr>is_store := store_delete (is_store s) oldID ref,
                          is_refCache := (is_refCache s)(ref := None)\<rparr>))
      | Some img \<Rightarrow>
          (if is_refCache s ref = Some (im_ID img) then (Inr (), s)
           else
             (let st = (case is_refCache s ref of None \<Rightarrow> is_store s | Some oldID \<Rightarrow> store_delete (is_store s) oldID ref);
                  (r, st') = store_add it st img
              in (r, s\<lparr>is_refCache := (is_refCache s)(ref \<mapsto> im_ID img), is_store := st'\<rparr>))))"

text \<open>
  What containerd reports on an image: diff ids, size, config digest and config blob, each of which
  may fail, its labels and the digest of its target; \<open>chain\<close> is \<^verbatim>\<open>identity.ChainID\<close>.
\<close>

record ctrd_image =
  ci_Name :: string
  ci_RootFS :: "string list result"
  ci_Size :: "64 word result"
  ci_Config :: "string result"
  ci_Blob :: "string result"
  ci_Unmarshal :: "image_config result"
  ci_Labels :: "string \<rightharpoonup> string"
  ci_Target :: string

definition getImage :: "(string list \<Rightarrow> string) \<Rightarrow> ctrd_image \<Rightarrow> image result" where
  "getImage chain i =
     (case ci_RootFS i of
        Inl e \<Rightarrow> Inl (Wrapf e ''get image diffIDs'' [])
      | Inr diffIDs \<Rightarrow>
     (case ci_Size i of
        Inl e \<Rightarrow> Inl (Wrapf e ''get image compressed resource size'' [])
      | Inr sz \<Rightarrow>
     (case ci_Config i of
        Inl e \<Rightarrow> Inl (Wrapf e ''get image config descriptor'' [])
      | Inr desc \<Rightarrow>
     (case ci_Blob i of
        Inl e \<Rightarrow> Inl (Wrapf e ''read image config from content store'' [])
      | Inr rb \<Rightarrow>
     (case ci_Unmarshal i of
        Inl e \<Rightarrow> Inl (Wrapf e ''unmarshal image config %s'' [rb])
      | Inr ociimage \<Rightarrow>
          Inr \<lparr>im_ID = desc, im_References = [ci_Name i], im_ChainID = chain diffIDs,
               im_Size = sz, im_Spec = ociimage\<rparr>)))))"

definition Image_Update ::
    "(string list \<Rightarrow> string list) \<Rightarrow> (string list \<Rightarrow> string) \<Rightarrow> ctrd_image result \<Rightarrow> image_store \<Rightarrow> string \<Rightarrow>
     unit result \<times> image_store" where
  "Image_Update it chain answer s ref =
     (case answer of
        Inl e \<Rightarrow> (if \<not> IsNotFound e then (Inl (Wrapf e ''get image from containerd'' []), s)
                  else update it s ref None)
      | Inr i \<Rightarrow>
          (case getImage chain i of
             Inl e \<Rightarrow> (Inl (Wrapf e ''get image info from containerd'' []), s)
           | Inr img \<Rightarrow> update it s ref (Some img)))"

definition Resolve :: "image_store \<Rightarrow> string \<Rightarrow> string result" where
  "Resolve s ref = (case is_refCache s ref of None \<Rightarrow> Inl ErrNotExist | Some i \<Rightarrow> Inr i)"

definition Image_Get :: "image_store \<Rightarrow> string \<Rightarrow> image result" where
  "Image_Get s i = store_get (is_store s) i"

definition Image_List :: "string list \<Rightarrow> image_store \<Rightarrow> image list" where
  "Image_List order s = store_list order (is_store s)"

subsection \<open>Invariant\<close>

text \<open>
  The two maps agree: an image is stored under its id, its references are exactly the references
  cached for that id, and there is at least one. \<open>fold_distinct\<close>: no two cached references differ in
  letter case only.
\<close>

definition is_inv :: "image_store \<Rightarrow> bool" where
  "is_inv s \<longleftrightarrow>
     ds_inv (st_digestSet (is_store s)) \<and> digests (st_digestSet (is_store s)) = dom (st_images (is_store s)) \<and>
     (\<forall>i img. st_images (is_store s) i = Some img \<longrightarrow>
        im_ID img = i \<and> distinct (im_References img) \<and> im_References img \<noteq> [] \<and>
        set (im_References img) = {r. is_refCache s r = Some i}) \<and>
     (\<forall>r i. is_refCache s r = Some i \<longrightarrow> i \<in> dom (st_images (is_store s)))"

definition fold_distinct :: "image_store \<Rightarrow> string \<Rightarrow> bool" where
  "fold_distinct s ref \<longleftrightarrow> (\<forall>r \<in> dom (is_refCache s). EqualFold r ref \<longrightarrow> r = ref)"

lemma is_inv_empty: "is_inv Image_NewStore"
  by (simp add: is_inv_def Image_NewStore_def)

lemma is_invD:
  assumes "is_inv s"
  shows "ds_inv (st_digestSet (is_store s))" "digests (st_digestSet (is_store s)) = dom (st_images (is_store s))"
    and "st_images (is_store s) i = Some img \<Longrightarrow>
       im_ID img = i \<and> distinct (im_References img) \<and> im_References img \<noteq> [] \<and>
       set (im_References img) = {r. is_refCache s r = Some i}"
    and "is_refCache s r = Some i \<Longrightarrow> \<exists>img. st_images (is_store s) i = Some img"
  using assms by (auto simp: is_inv_def)

lemma digests_valid: "ds_inv es \<Longrightarrow> d \<in> digests es \<Longrightarrow> Validate d = None"
  by (auto simp: ds_inv_def digests_def)

text \<open>The state between removing a reference and installing its successor.\<close>

lemma delete_step:
  assumes "is_inv s" "is_refCache s ref = Some oldID" "fold_distinct s ref"
  shows "is_inv (s\<lparr>is_store := store_delete (is_store s) oldID ref, is_refCache := (is_refCache s)(ref := None)\<rparr>)"
proof -
  let ?S = "is_store s" and ?C = "is_refCache s"
  let ?ds = "st_digestSet ?S"
  note i = is_invD [OF assms(1)]
  obtain img where img: "st_images ?S oldID = Some img" using i(4) [OF assms(2)] by blast
  have img': "im_ID img = oldID" "distinct (im_References img)" "set (im_References img) = {r. ?C r = Some oldID}"
    using i(3) [OF img] by auto
  have mem: "oldID \<in> digests ?ds" using img i(2) by auto
  have valid: "Validate oldID = None" using digests_valid [OF i(1) mem] .
  have look: "DigestSet_Lookup ?ds oldID = Inr oldID" using DigestSet_Lookup_exact [OF i(1) valid] mem by simp
  let ?refs = "SubtractStringSlice (im_References img) ref"
  have refs: "set ?refs = {r. ?C r = Some oldID} - {ref}"
    using img'(3) assms(2,3) by (auto simp: fold_distinct_def)
  have dref: "distinct ?refs" using img'(2) by simp
  show ?thesis
  proof (cases "?refs = []")
    case False
    then have "store_delete ?S oldID ref =
        ?S\<lparr>st_images := (st_images ?S)(oldID \<mapsto> img\<lparr>im_References := ?refs\<rparr>)\<rparr>"
      using look img by (simp add: store_delete_def Let_def)
    then show ?thesis using i refs dref img' False img assms(2) by (auto simp: is_inv_def split: if_splits)
  next
    case True
    then have "store_delete ?S oldID ref =
        ?S\<lparr>st_digestSet := snd (DigestSet_Remove ?ds oldID), st_images := (st_images ?S)(oldID := None)\<rparr>"
      using look img by (simp add: store_delete_def Let_def)
    moreover have "ds_inv (snd (DigestSet_Remove ?ds oldID))"
      "digests (snd (DigestSet_Remove ?ds oldID)) = digests ?ds - {oldID}"
      using DigestSet_Remove_ok [OF i(1) valid prod.collapse [symmetric]] by auto
    moreover have "\<And>r. r \<noteq> ref \<Longrightarrow> ?C r \<noteq> Some oldID" using True refs by auto
    ultimately show ?thesis using i assms(2) by (auto simp: is_inv_def split: if_splits)
  qed
qed

lemma add_step:
  assumes "is_inv s" "is_refCache s ref = None" "im_References img = [ref]" "Validate (im_ID img) = None" "iteration it"
  shows "fst (store_add it (is_store s) img) = Inr () \<and>
    is_inv (s\<lparr>is_refCache := (is_refCache s)(ref \<mapsto> im_ID img), is_store := snd (store_add it (is_store s) img)\<rparr>)"
proof -
  let ?S = "is_store s" and ?C = "is_refCache s" and ?d = "im_ID img"
  let ?ds = "st_digestSet ?S"
  note i = is_invD [OF assms(1)]
  have look: "DigestSet_Lookup ?ds ?d = (if ?d \<in> digests ?ds then Inr ?d else Inl ErrDigestNotFound)"
    using DigestSet_Lookup_exact [OF i(1) assms(4)] .
  show ?thesis
  proof (cases "st_images ?S ?d")
    case (Some old)
    then have "store_add it ?S img = (Inr (), ?S\<lparr>st_images := (st_images ?S)(?d \<mapsto>
        old\<lparr>im_References := MergeStringSlices it (im_References old) [ref]\<rparr>)\<rparr>)"
      using look i(2) assms(3) by (auto simp: store_add_def Let_def)
    moreover have "set (MergeStringSlices it (im_References old) [ref]) = insert ref {r. ?C r = Some ?d}"
      using i(3) [OF Some] assms(5) by simp
    moreover have "MergeStringSlices it (im_References old) [ref] \<noteq> []"
      using calculation(2) by (metis empty_set insert_not_empty)
    moreover have "im_ID old = ?d" using i(3) [OF Some] by simp
    ultimately show ?thesis using i assms(2,5) Some by (auto simp: is_inv_def)
  next
    case None
    then have nd: "?d \<notin> digests ?ds" using i(2) by auto
    have dadd: "fst (DigestSet_Add ?ds ?d) = Inr ()" "ds_inv (snd (DigestSet_Add ?ds ?d))"
      "digests (snd (DigestSet_Add ?ds ?d)) = insert ?d (digests ?ds)"
      using DigestSet_Add_ok [OF i(1) assms(4) prod.collapse [symmetric]] by auto
    have "store_add it ?S img = (Inr (), ?S\<lparr>st_digestSet := snd (DigestSet_Add ?ds ?d),
        st_images := (st_images ?S)(?d \<mapsto> img)\<rparr>)"
      using look nd None dadd(1) by (auto simp: store_add_def Let_def split: prod.splits sum.splits)
    moreover have "\<And>r. ?C r \<noteq> Some ?d" using i(4) None by fastforce
    ultimately show ?thesis using i dadd assms(2,3) by (auto simp: is_inv_def)
  qed
qed

lemma update_inv:
  assumes "is_inv s" "fold_distinct s ref" "iteration it"
    and "pred_option (\<lambda>img. im_References img = [ref] \<and> Validate (im_ID img) = None) o_img"
  shows "fst (update it s ref o_img) = Inr () \<and> is_inv (snd (update it s ref o_img)) \<and>
    is_refCache (snd (update it s ref o_img)) = (is_refCache s)(ref := map_option im_ID o_img)"
proof (cases o_img)
  case None
  then show ?thesis using assms(1) delete_step [OF assms(1) _ assms(2)]
    by (cases "is_refCache s ref") (auto simp: update_def)
next
  case (Some img)
  have img: "im_References img = [ref]" "Validate (im_ID img) = None" using assms(4) Some by auto
  show ?thesis
  proof (cases "is_refCache s ref")
    case None
    then show ?thesis using add_step [OF assms(1) None _ _ assms(3), of img] img Some
      by (auto simp: update_def Let_def split: prod.splits)
  next
    case old: (Some oldID)
    let ?s = "s\<lparr>is_store := store_delete (is_store s) oldID ref, is_refCache := (is_refCache s)(ref := None)\<rparr>"
    have "is_inv ?s" using delete_step [OF assms(1) old assms(2)] .
    from add_step [OF this _ _ _ assms(3), of ref img] show ?thesis
      using img Some old assms(1) by (auto simp: update_def Let_def fun_upd_idem split: prod.splits)
  qed
qed

text \<open>
  C11: the image cache follows containerd. If containerd has the reference, then after
  \<^verbatim>\<open>Update\<close> the reference resolves to the image's id and that id to an image that lists the reference;
  if containerd does not have it, it no longer resolves and no image lists it. The two maps stay
  consistent: every image is listed under its id with exactly the references that resolve to it, at
  least one, and every other reference resolves as before. (References are assumed not to differ in
  letter case only, and containerd to return valid digests and the name that was asked for.)
\<close>

theorem image_update_correct:
  assumes "is_inv s" "fold_distinct s ref" "iteration it"
    and "pred_option (\<lambda>img. im_References img = [ref] \<and> Validate (im_ID img) = None) o_img"
    and "update it s ref o_img = (r, s')"
  shows "r = Inr () \<and> is_inv s' \<and>
    (\<forall>x. Resolve s' x = (if x = ref then (case o_img of None \<Rightarrow> Inl ErrNotExist | Some img \<Rightarrow> Inr (im_ID img))
                          else Resolve s x)) \<and>
    (\<forall>img. o_img = Some img \<longrightarrow> (\<exists>i. Image_Get s' (im_ID img) = Inr i \<and> im_ID i = im_ID img \<and> ref \<in> set (im_References i))) \<and>
    (o_img = None \<longrightarrow> (\<forall>i \<in> ran (st_images (is_store s')). ref \<notin> set (im_References i)))"
proof -
  have u: "r = Inr ()" "is_inv s'" "is_refCache s' = (is_refCache s)(ref := map_option im_ID o_img)"
    using update_inv [OF assms(1-4)] assms(5) by auto
  note i = is_invD [OF u(2)]
  have "\<exists>i. Image_Get s' (im_ID img) = Inr i \<and> im_ID i = im_ID img \<and> ref \<in> set (im_References i)"
    if img: "o_img = Some img" for img
  proof -
    have c: "is_refCache s' ref = Some (im_ID img)" using u(3) img by simp
    from i(4) [OF this] obtain img' where im: "st_images (is_store s') (im_ID img) = Some img'" by blast
    then have "im_ID img \<in> digests (st_digestSet (is_store s'))" using i(2) by auto
    then have "DigestSet_Lookup (st_digestSet (is_store s')) (im_ID img) = Inr (im_ID img)"
      using DigestSet_Lookup_exact [OF i(1)] digests_valid [OF i(1)] by simp
    with im i(3) [OF im] c show ?thesis by (auto simp: Image_Get_def store_get_def)
  qed
  moreover have "\<forall>i \<in> ran (st_images (is_store s')). ref \<notin> set (im_References i)" if "o_img = None"
    using that i(3) u(3) by (auto simp: ran_def)
  ultimately show ?thesis using u by (auto simp: Resolve_def split: option.splits)
qed

definition example_digest :: string where
  "example_digest = ''sha256:'' @ replicate 64 (CHR ''a'')"

definition example_image :: "string \<Rightarrow> image" where
  "example_image ref = \<lparr>im_ID = example_digest, im_References = [ref], im_ChainID = [], im_Size = 1,
     im_Spec = \<lparr>ic_User = [], ic_StopSignal = [], ic_Volumes = [], ic_Entrypoint = [], ic_Cmd = [], ic_Env = [], ic_WorkingDir = []\<rparr>\<rparr>"

lemma example_digest_valid: "Validate example_digest = None"
  by code_simp

theorem image_update_correct_witness:
  "Resolve (snd (update rev Image_NewStore ''repo:v1'' (Some (example_image ''repo:v1'')))) ''repo:v1'' = Inr example_digest"
proof -
  have "fold_distinct Image_NewStore ''repo:v1''" by (simp add: fold_distinct_def Image_NewStore_def)
  from image_update_correct [OF is_inv_empty this iteration_rev _ prod.collapse [symmetric],
      of "Some (example_image ''repo:v1'')"]
  show ?thesis by (simp add: example_image_def example_digest_valid)
qed

text \<open>
  What the assumption on letter case excludes. Two references of one image that differ in letter
  case only are both dropped when one of them is deleted, since \<^verbatim>\<open>SubtractStringSlice\<close> compares with
  \<^verbatim>\<open>strings.EqualFold\<close>: the image is removed although the other reference still exists, and that
  reference then resolves to an id that the store does not know.
\<close>

definition after_case_delete :: image_store where
  "after_case_delete =
     (let s1 = snd (update (\<lambda>x. x) Image_NewStore ''repo:Tag'' (Some (example_image ''repo:Tag'')));
          s2 = snd (update (\<lambda>x. x) s1 ''repo:tag'' (Some (example_image ''repo:tag'')))
      in snd (update (\<lambda>x. x) s2 ''repo:tag'' None))"

lemma case_insensitive_delete:
  "Resolve after_case_delete ''repo:Tag'' = Inr example_digest \<and>
   Image_Get after_case_delete example_digest = Inl ErrNotExist"
  by code_simp

end
