(* ===== verification/OciOpts.thy ===== *)
theory OciOpts
  imports OciSpec ImageStore "HOL-Library.Multiset"
begin

section \<open>The plugin's own spec options\<close>

text \<open>
  \<^verbatim>\<open>pkg/containerd/opts/spec.go\<close> and \<^verbatim>\<open>spec_unix.go\<close>. \<^verbatim>\<open>sort.Sort\<close> is not stable, so the order it gives to mounts with equally
  many parts is not determined: the sorting function is an argument of \<open>WithMounts\<close>, and \<open>sortsMounts\<close> is what the
  documentation of \<^verbatim>\<open>sort\<close> promises.
\<close>

subsection \<open>spec.go\<close>

definition WithRelativeRoot :: "string \<Rightarrow> specOpt" where
  "WithRelativeRoot root = pureOpt (\<lambda>s. s\<lparr>sp_Root := Some ((orNew \<lparr>ro_Path = [], ro_Readonly = False\<rparr> (sp_Root s))\<lparr>ro_Path := root\<rparr>)\<rparr>)"

definition WithoutRoot :: specOpt where
  "WithoutRoot = pureOpt (\<lambda>s. s\<lparr>sp_Root := None\<rparr>)"

text \<open>A command that is nil, unlike one that is empty, is taken from the image.\<close>

definition processArgs :: "containerConfig \<Rightarrow> image_config \<Rightarrow> string list result" where
  "processArgs config img =
     (let command0 = orNew [] (cc_Command config);
          args = (if command0 = [] \<and> cc_Args config = [] then ic_Cmd img else cc_Args config);
          command = (if command0 = [] \<and> cc_Command config = None then ic_Entrypoint img else command0)
      in if command = [] \<and> args = [] then Inl (Errorf ''no command specified'' []) else Inr (command @ args))"

definition WithProcessArgs :: "containerConfig \<Rightarrow> image_config \<Rightarrow> specOpt" where
  "WithProcessArgs config img os s =
     bindA (liftA (processArgs config img)) (\<lambda>args. Oci_WithProcessArgs args os s)"

definition parts :: "criMount \<Rightarrow> nat" where
  "parts m = Count (CHR ''/'') (Clean (mt_ContainerPath m))"

definition sortsMounts :: "(criMount list \<Rightarrow> criMount list) \<Rightarrow> bool" where
  "sortsMounts srt \<longleftrightarrow> (\<forall>ms. mset (srt ms) = mset ms \<and> sorted (map parts (srt ms)))"

definition WithAnnotation :: "string \<Rightarrow> string \<Rightarrow> specOpt" where
  "WithAnnotation k v = pureOpt (\<lambda>s. s\<lparr>sp_Annotations := (sp_Annotations s)(k \<mapsto> v)\<rparr>)"

subsection \<open>Groups, mounts and default settings\<close>

text \<open>The union, through a map, is sorted and free of duplicates.\<close>

definition mergeGids :: "32 word list \<Rightarrow> 32 word list \<Rightarrow> 32 word list" where
  "mergeGids gids1 gids2 = sorted_list_of_set (set gids1 \<union> set gids2)"

definition WithoutRunMount :: specOpt where
  "WithoutRunMount = pureOpt (\<lambda>s. s\<lparr>sp_Mounts := filter (\<lambda>m. Clean (om_Destination m) \<noteq> ''/run'') (sp_Mounts s)\<rparr>)"

definition WithoutDefaultSecuritySettings :: specOpt where
  "WithoutDefaultSecuritySettings = pureOpt (\<lambda>s.
     let s1 = updProcess (\<lambda>p. p\<lparr>pr_ApparmorProfile := [], pr_Rlimits := []\<rparr>) s in
     s1\<lparr>sp_Linux := map_option (\<lambda>l. l\<lparr>li_Seccomp := None\<rparr>) (sp_Linux s1)\<rparr>)"

fun mountShared :: "string list \<Rightarrow> string list \<Rightarrow> bool" where
  "mountShared pfs [] \<longleftrightarrow> False"
| "mountShared pfs (opt # opts) \<longleftrightarrow> list_ex (HasPrefix opt) pfs \<or> mountShared pfs opts"

definition ensureMount :: "string list \<Rightarrow> string \<Rightarrow> osEnv \<Rightarrow> string \<Rightarrow> unit osact" where
  "ensureMount pfs msg os path =
     thenA (osCall os (OsLookupMount path))
    (bindA (getA (\<lambda>tr. os_mountInfo os tr path)) (\<lambda>info.
       if mountShared pfs (Split (CHR '' '') (mi_Optional info)) then returnA ()
       else failA (Errorf msg [path, mi_Mountpoint info])))"

definition ensureShared :: "osEnv \<Rightarrow> string \<Rightarrow> unit osact" where
  "ensureShared = ensureMount [''shared:''] ''path %q is mounted on %q but it is not a shared mount''"

definition ensureSharedOrSlave :: "osEnv \<Rightarrow> string \<Rightarrow> unit osact" where
  "ensureSharedOrSlave = ensureMount [''shared:'', ''master:''] ''path %q is mounted on %q but it is not a shared or slave mount''"

text \<open>Extra mounts whose destination a CRI mount has are dropped.\<close>

definition mergeMounts :: "criMount list \<Rightarrow> criMount list \<Rightarrow> criMount list" where
  "mergeMounts criMounts extra =
     criMounts @ filter (\<lambda>e. \<not> list_ex (\<lambda>c. Clean (mt_ContainerPath e) = Clean (mt_ContainerPath c)) criMounts) extra"

definition cgroupMount :: ociMount where
  "cgroupMount = \<lparr>om_Source = ''cgroup'', om_Destination = ''/sys/fs/cgroup'', om_Type = ''cgroup'',
     om_Options = [''nosuid'', ''noexec'', ''nodev'', ''relatime'', ''ro'']\<rparr>"

definition keptDefault :: "criMount list \<Rightarrow> ociMount \<Rightarrow> bool" where
  "keptDefault mounts m \<longleftrightarrow>
     (let mountSet = map (\<lambda>m. Clean (mt_ContainerPath m)) mounts; dst = Clean (om_Destination m) in
      dst \<notin> set mountSet \<and> \<not> (''/dev'' \<in> set mountSet \<and> HasPrefix dst ''/dev/''))"

text \<open>The loop over the mounts. \<open>rootProp\<close> is \<^verbatim>\<open>s.Linux.RootfsPropagation\<close>.\<close>

definition ensureHostPath :: "osEnv \<Rightarrow> string \<Rightarrow> unit osact" where
  "ensureHostPath os src tr =
     (case osCall os (OsStat src) tr of
        (Inr _, tr1) \<Rightarrow> (Inr (), tr1)
      | (Inl err, tr1) \<Rightarrow>
          (if \<not> IsOSNotExist err then (Inl (Wrapf err ''failed to stat %q'' [src]), tr1)
           else wrapA (osCall os (OsMkdirAll src)) ''failed to mkdir %q'' [src] tr1))"

definition resolveLink :: "osEnv \<Rightarrow> string \<Rightarrow> string osact" where
  "resolveLink os path = thenA (osCall os (OsResolve path)) (getA (\<lambda>tr. os_resolved os tr path))"

definition propagation :: "osEnv \<Rightarrow> string \<Rightarrow> mountPropagation \<Rightarrow> string \<Rightarrow> (string \<times> string) osact" where
  "propagation os src p rootProp =
     (case p of
        PROPAGATION_PRIVATE \<Rightarrow> returnA (''rprivate'', rootProp)
      | PROPAGATION_BIDIRECTIONAL \<Rightarrow> thenA (ensureShared os src) (returnA (''rshared'', ''rshared''))
      | PROPAGATION_HOST_TO_CONTAINER \<Rightarrow>
          thenA (ensureSharedOrSlave os src)
            (returnA (''rslave'', if rootProp \<noteq> ''rshared'' \<and> rootProp \<noteq> ''rslave'' then ''rslave'' else rootProp)))"

definition relabel :: "osEnv \<Rightarrow> criMount \<Rightarrow> string \<Rightarrow> string \<Rightarrow> unit osact" where
  "relabel os mount src mountLabel =
     (if mt_SelinuxRelabel mount then
        wrapA (tolerateA (osCall os (OsRelabel src mountLabel)) (\<lambda>e. e = Errorf ''operation not supported'' []))
          ''relabel %q with %q failed'' [src, mountLabel]
      else returnA ())"

definition addMount :: "osEnv \<Rightarrow> string \<Rightarrow> criMount \<Rightarrow> ociSpec \<Rightarrow> ociSpec osact" where
  "addMount os mountLabel mount s =
     thenA (ensureHostPath os (mt_HostPath mount))
    (bindA (wrapA (resolveLink os (mt_HostPath mount)) ''failed to resolve symlink %q'' [[]]) (\<lambda>src.
     bindA (propagation os src (mt_Propagation mount) (li_RootfsPropagation (linuxOf s))) (\<lambda>(opt, rootProp).
     thenA (relabel os mount src mountLabel)
           (returnA (updLinux (\<lambda>l. l\<lparr>li_RootfsPropagation := rootProp\<rparr>)
              (s\<lparr>sp_Mounts := sp_Mounts s @ [\<lparr>om_Source = src, om_Destination = mt_ContainerPath mount, om_Type = ''bind'',
                   om_Options = [''rbind'', opt, if mt_Readonly mount then ''ro'' else ''rw'']\<rparr>]\<rparr>))))))"

fun addMounts :: "osEnv \<Rightarrow> string \<Rightarrow> criMount list \<Rightarrow> ociSpec \<Rightarrow> ociSpec osact" where
  "addMounts os mountLabel [] s = returnA s"
| "addMounts os mountLabel (m # ms) s = bindA (addMount os mountLabel m s) (addMounts os mountLabel ms)"

definition WithMounts :: "(criMount list \<Rightarrow> criMount list) \<Rightarrow> containerConfig \<Rightarrow> criMount list \<Rightarrow> string \<Rightarrow> specOpt" where
  "WithMounts srt config extra mountLabel os s =
     (let mounts = srt (mergeMounts (cc_Mounts config) extra);
          defaultMounts = sp_Mounts s @ [cgroupMount]
      in addMounts os mountLabel mounts (s\<lparr>sp_Mounts := filter (keptDefault mounts) defaultMounts\<rparr>))"

subsection \<open>Devices and capabilities\<close>

fun addDeviceTo :: "linuxDevice \<Rightarrow> linuxDevice list \<Rightarrow> linuxDevice list" where
  "addDeviceTo rd [] = [rd]"
| "addDeviceTo rd (dev # devs) = (if dv_Path dev = dv_Path rd then rd # devs else dev # addDeviceTo rd devs)"

definition addDevice :: "linuxDevice \<Rightarrow> ociSpec \<Rightarrow> ociSpec" where
  "addDevice rd = updLinux (\<lambda>l. l\<lparr>li_Devices := addDeviceTo rd (li_Devices l)\<rparr>)"

definition withDevice :: "osEnv \<Rightarrow> criDevice \<Rightarrow> ociSpec \<Rightarrow> ociSpec osact" where
  "withDevice os device s =
     bindA (resolveLink os (de_HostPath device)) (\<lambda>path.
     thenA (osCall os (OsDevice path (de_Permissions device)))
    (bindA (getA (\<lambda>tr. os_device os tr path (de_Permissions device))) (\<lambda>dev.
       returnA (updResources (\<lambda>r. r\<lparr>re_Devices := re_Devices r @ [\<lparr>dg_Allow = True, dg_Type = od_Type dev,
              dg_Major = Some (od_Major dev), dg_Minor = Some (od_Minor dev), dg_Access = od_Permissions dev\<rparr>]\<rparr>)
         (addDevice \<lparr>dv_Path = de_ContainerPath device, dv_Type = od_Type dev, dv_Major = od_Major dev, dv_Minor = od_Minor dev,
              dv_UID = od_Uid dev, dv_GID = od_Gid dev\<rparr> s)))))"

fun withDevices :: "criDevice list \<Rightarrow> specOpt" where
  "withDevices [] os s = returnA s"
| "withDevices (d # ds) os s = bindA (withDevice os d s) (withDevices ds os)"

definition WithDevices :: "containerConfig \<Rightarrow> specOpt" where
  "WithDevices config os s = withDevices (cc_Devices config) os (updResources id s)"

definition upper_char :: "char \<Rightarrow> char" where
  "upper_char c = (if 97 \<le> (of_char c :: nat) \<and> (of_char c :: nat) \<le> 122 then char_of ((of_char c :: nat) - 32) else c)"

definition ToUpper :: "string \<Rightarrow> string" where
  "ToUpper s = map upper_char s"

definition capNames :: "string list \<Rightarrow> string list" where
  "capNames cs = map (\<lambda>c. ''CAP_'' @ ToUpper c) (filter (\<lambda>c. ToUpper c \<noteq> ''ALL'') cs)"

definition nullOpt :: specOpt where
  "nullOpt = pureOpt id"

definition WithCapabilities :: "containerConfig \<Rightarrow> specOpt" where
  "WithCapabilities sc =
     (case cc_Capabilities sc of
        None \<Rightarrow> nullOpt
      | Some capabilities \<Rightarrow> applySpecOpts
          ((if InStringSlice (ca_AddCapabilities capabilities) ''ALL'' then [WithAllCapabilities] else []) @
           (if InStringSlice (ca_DropCapabilities capabilities) ''ALL'' then [Oci_WithCapabilities []] else []) @
           [WithAddedCapabilities (capNames (ca_AddCapabilities capabilities)),
            WithDroppedCapabilities (capNames (ca_DropCapabilities capabilities))]))"

definition WithoutAmbientCaps :: specOpt where
  "WithoutAmbientCaps = pureOpt (updCapabilities (\<lambda>c. c\<lparr>cap_Ambient := []\<rparr>))"

subsection \<open>Cgroups, labels and resources\<close>

definition WithDisabledCgroups :: specOpt where
  "WithDisabledCgroups = pureOpt (updLinux (\<lambda>l. l\<lparr>li_CgroupsPath := []\<rparr>))"

definition WithSelinuxLabels :: "string \<Rightarrow> string \<Rightarrow> specOpt" where
  "WithSelinuxLabels process mount =
     pureOpt (\<lambda>s. updProcess (\<lambda>p. p\<lparr>pr_SelinuxLabel := process\<rparr>) (updLinux (\<lambda>l. l\<lparr>li_MountLabel := mount\<rparr>) s))"

definition cgroupv1HasHugetlb :: "osEnv \<Rightarrow> bool" where
  "cgroupv1HasHugetlb os = os_hugetlbDir os"

definition cgroupv2HasHugetlb :: "osEnv \<Rightarrow> bool" where
  "cgroupv2HasHugetlb os = (case os_controllers os of None \<Rightarrow> False | Some controllers \<Rightarrow> Contains controllers ''hugetlb'')"

definition isHugetlbControllerPresent :: "osEnv \<Rightarrow> bool" where
  "isHugetlbControllerPresent os = (if os_unified os then cgroupv2HasHugetlb os else cgroupv1HasHugetlb os)"

definition setCPU :: "linuxContainerResources \<Rightarrow> linuxCPU \<Rightarrow> linuxCPU" where
  "setCPU r c = c\<lparr>cpu_Period := (if lr_CpuPeriod r \<noteq> 0 then Some (lr_CpuPeriod r) else cpu_Period c),
     cpu_Quota := (if lr_CpuQuota r \<noteq> 0 then Some (lr_CpuQuota r) else cpu_Quota c),
     cpu_Shares := (if lr_CpuShares r \<noteq> 0 then Some (lr_CpuShares r) else cpu_Shares c),
     cpu_Cpus := (if lr_CpusetCpus r \<noteq> [] then lr_CpusetCpus r else cpu_Cpus c),
     cpu_Mems := (if lr_CpusetMems r \<noteq> [] then lr_CpusetMems r else cpu_Mems c)\<rparr>"

definition setMemory :: "linuxContainerResources \<Rightarrow> linuxMemory \<Rightarrow> linuxMemory" where
  "setMemory r m = m\<lparr>mem_Limit := (if lr_MemoryLimitInBytes r \<noteq> 0 then Some (lr_MemoryLimitInBytes r) else mem_Limit m)\<rparr>"

definition WithResources :: "linuxContainerResources option \<Rightarrow> bool \<Rightarrow> bool \<Rightarrow> specOpt" where
  "WithResources resources tolerateMissingHugetlbController disableHugetlbController os s =
     (case resources of
        None \<Rightarrow> returnA s
      | Some r \<Rightarrow>
          (let s1 = updResources (\<lambda>x. x\<lparr>re_CPU := Some (setCPU r (orNew zeroCPU (re_CPU x))),
                 re_Memory := Some (setMemory r (orNew \<lparr>mem_Limit = None\<rparr> (re_Memory x)))\<rparr>) s
           in if disableHugetlbController then returnA s1
              else if isHugetlbControllerPresent os then
                returnA (updResources (\<lambda>x. x\<lparr>re_HugepageLimits := re_HugepageLimits x @ lr_HugepageLimits r\<rparr>) s1)
              else if \<not> tolerateMissingHugetlbController then
                failA (Errorf (''huge pages limits are specified but hugetlb cgroup controller is missing. '' @
                  ''Please set tolerate_missing_hugetlb_controller to `true` to ignore this error'') [])
              else returnA s1))"

definition getCurrentOOMScoreAdj :: "osEnv \<Rightarrow> int osact" where
  "getCurrentOOMScoreAdj os =
     thenA (wrapA (osCall os OsReadOOMScoreAdj) ''could not get the daemon oom_score_adj'' [])
    (bindA (getA (os_oomScoreAdj os)) (\<lambda>b.
       wrapA (liftA (Atoi (TrimSpace b))) ''could not get the daemon oom_score_adj'' []))"

definition restrictOOMScoreAdj :: "osEnv \<Rightarrow> int \<Rightarrow> int osact" where
  "restrictOOMScoreAdj os preferredOOMScoreAdj =
     bindA (getCurrentOOMScoreAdj os) (\<lambda>current.
       returnA (if preferredOOMScoreAdj < current then current else preferredOOMScoreAdj))"

definition WithPodOOMScoreAdj :: "int \<Rightarrow> bool \<Rightarrow> specOpt" where
  "WithPodOOMScoreAdj adj restrict os s =
     bindA (if restrict then restrictOOMScoreAdj os adj else returnA adj) (\<lambda>a.
       returnA (updProcess (\<lambda>p. p\<lparr>pr_OOMScoreAdj := Some a\<rparr>) s))"

definition WithOOMScoreAdj :: "containerConfig \<Rightarrow> bool \<Rightarrow> specOpt" where
  "WithOOMScoreAdj config restrict os s =
     (case cc_Resources config of
        None \<Rightarrow> returnA (updProcess id s)
      | Some r \<Rightarrow>
          bindA (if restrict then restrictOOMScoreAdj os (sint (lr_OomScoreAdj r)) else returnA (sint (lr_OomScoreAdj r))) (\<lambda>a.
            returnA (updProcess (\<lambda>p. p\<lparr>pr_OOMScoreAdj := Some a\<rparr>) s)))"

definition WithSysctls :: "labels \<Rightarrow> specOpt" where
  "WithSysctls sysctls = pureOpt (updLinux (\<lambda>l. l\<lparr>li_Sysctl := li_Sysctl l ++ sysctls\<rparr>))"

definition WithSupplementalGroups :: "64 word list \<Rightarrow> specOpt" where
  "WithSupplementalGroups groups =
     pureOpt (updProcess (\<lambda>p. p\<lparr>pr_AdditionalGids := mergeGids (pr_AdditionalGids p) (map ucast groups)\<rparr>))"

text \<open>\<open>added\<close>: the groups that \<^verbatim>\<open>oci.WithAdditionalGIDs\<close> sets from the root filesystem of the image.\<close>

definition WithAdditionalGIDs :: "32 word list \<Rightarrow> specOpt" where
  "WithAdditionalGIDs added =
     pureOpt (updProcess (\<lambda>p. p\<lparr>pr_AdditionalGids := mergeGids added (pr_AdditionalGids p)\<rparr>))"

subsection \<open>Namespaces\<close>

definition procNS :: "string \<Rightarrow> 32 word \<Rightarrow> string" where
  "procNS kind pid = ''/proc/'' @ Itoa (unat pid) @ ''/ns/'' @ kind"

definition GetNetworkNamespace :: "32 word \<Rightarrow> string" where "GetNetworkNamespace = procNS ''net''"
definition GetIPCNamespace :: "32 word \<Rightarrow> string" where "GetIPCNamespace = procNS ''ipc''"
definition GetUTSNamespace :: "32 word \<Rightarrow> string" where "GetUTSNamespace = procNS ''uts''"
definition GetPIDNamespace :: "32 word \<Rightarrow> string" where "GetPIDNamespace = procNS ''pid''"

definition WithPodNamespaces :: "containerConfig \<Rightarrow> 32 word \<Rightarrow> specOpt" where
  "WithPodNamespaces config pid = applySpecOpts
     ([WithLinuxNamespace \<lparr>ns_Type = NetworkNamespace, ns_Path = GetNetworkNamespace pid\<rparr>,
       WithLinuxNamespace \<lparr>ns_Type = IPCNamespace, ns_Path = GetIPCNamespace pid\<rparr>,
       WithLinuxNamespace \<lparr>ns_Type = UTSNamespace, ns_Path = GetUTSNamespace pid\<rparr>] @
      (if cc_NsPid config \<noteq> NS_CONTAINER then [WithLinuxNamespace \<lparr>ns_Type = PIDNamespace, ns_Path = GetPIDNamespace pid\<rparr>] else []))"

definition DefaultSandboxCPUshares :: "64 word" where "DefaultSandboxCPUshares = 2"

definition WithDefaultSandboxShares :: specOpt where
  "WithDefaultSandboxShares = pureOpt (updResources (\<lambda>r. r\<lparr>re_CPU := Some ((orNew zeroCPU (re_CPU r))\<lparr>cpu_Shares := Some DefaultSandboxCPUshares\<rparr>)\<rparr>))"

definition WithoutNamespace :: "nsType \<Rightarrow> specOpt" where
  "WithoutNamespace t = pureOpt (\<lambda>s. s\<lparr>sp_Linux := map_option (\<lambda>l. l\<lparr>li_Namespaces := filter (\<lambda>n. ns_Type n \<noteq> t) (li_Namespaces l)\<rparr>) (sp_Linux s)\<rparr>)"

subsection \<open>What the mounts are\<close>

lemma orNew_simps [simp]: "orNew z None = z" "orNew z (Some x) = x"
  by (simp_all add: orNew_def)

lemma updSpec_frame [simp]:
  "sp_Mounts (updLinux f s) = sp_Mounts s" "sp_Process (updLinux f s) = sp_Process s" "sp_Root (updLinux f s) = sp_Root s"
  "sp_Hostname (updLinux f s) = sp_Hostname s" "sp_Annotations (updLinux f s) = sp_Annotations s" "sp_Linux (updLinux f s) = Some (f (linuxOf s))"
  "sp_Mounts (updProcess g s) = sp_Mounts s" "sp_Linux (updProcess g s) = sp_Linux s" "sp_Root (updProcess g s) = sp_Root s"
  "sp_Hostname (updProcess g s) = sp_Hostname s" "sp_Annotations (updProcess g s) = sp_Annotations s" "sp_Process (updProcess g s) = Some (g (processOf s))"
  by (simp_all add: updLinux_def updProcess_def)

definition keepsRest :: "ociSpec \<Rightarrow> ociSpec \<Rightarrow> bool" where
  "keepsRest s s' \<longleftrightarrow> sp_Process s' = sp_Process s \<and> sp_Root s' = sp_Root s \<and> sp_Hostname s' = sp_Hostname s \<and>
     sp_Annotations s' = sp_Annotations s"

text \<open>The bind mount that a CRI mount becomes.\<close>

definition bindsTo :: "criMount \<Rightarrow> ociMount \<Rightarrow> bool" where
  "bindsTo m b \<longleftrightarrow> om_Destination b = mt_ContainerPath m \<and> om_Type b = ''bind'' \<and>
     (''ro'' \<in> set (om_Options b) \<longleftrightarrow> mt_Readonly m) \<and>
     (''rshared'' \<in> set (om_Options b) \<longleftrightarrow> mt_Propagation m = PROPAGATION_BIDIRECTIONAL)"

lemma propagation_Inr:
  assumes "propagation os src p rp tr = (Inr (opt, rp'), tr')"
  shows "opt \<in> {''rprivate'', ''rshared'', ''rslave''} \<and> (opt = ''rshared'' \<longleftrightarrow> p = PROPAGATION_BIDIRECTIONAL) \<and>
    (rp = ''rshared'' \<or> p = PROPAGATION_BIDIRECTIONAL \<longrightarrow> rp' = ''rshared'')"
  using assms by (cases p) (auto simp: propagation_def act_simps)

lemma addMount_Inr:
  assumes "addMount os l m s tr = (Inr s', tr')"
  shows "\<exists>b. sp_Mounts s' = sp_Mounts s @ [b] \<and> bindsTo m b \<and> keepsRest s s' \<and>
    (li_RootfsPropagation (linuxOf s) = ''rshared'' \<or> mt_Propagation m = PROPAGATION_BIDIRECTIONAL \<longrightarrow>
       li_RootfsPropagation (linuxOf s') = ''rshared'')"
proof -
  from assms obtain src opt rp tr1 tr2 where
    p: "propagation os src (mt_Propagation m) (li_RootfsPropagation (linuxOf s)) tr1 = (Inr (opt, rp), tr2)" and
    s': "s' = updLinux (\<lambda>l. l\<lparr>li_RootfsPropagation := rp\<rparr>)
              (s\<lparr>sp_Mounts := sp_Mounts s @ [\<lparr>om_Source = src, om_Destination = mt_ContainerPath m, om_Type = ''bind'',
                   om_Options = [''rbind'', opt, if mt_Readonly m then ''ro'' else ''rw'']\<rparr>]\<rparr>)"
    by (auto simp: addMount_def act_simps)
  show ?thesis
    using propagation_Inr [OF p] unfolding s'
    by (intro exI [of _ "\<lparr>om_Source = src, om_Destination = mt_ContainerPath m, om_Type = ''bind'',
                   om_Options = [''rbind'', opt, if mt_Readonly m then ''ro'' else ''rw'']\<rparr>"] conjI)
       (auto simp: bindsTo_def keepsRest_def)
qed

lemma addMounts_Inr:
  assumes "addMounts os l ms s tr = (Inr s', tr')"
  shows "\<exists>binds. sp_Mounts s' = sp_Mounts s @ binds \<and> list_all2 bindsTo ms binds \<and>
    keepsRest s s' \<and>
    (li_RootfsPropagation (linuxOf s) = ''rshared'' \<or> (\<exists>m \<in> set ms. mt_Propagation m = PROPAGATION_BIDIRECTIONAL) \<longrightarrow>
       li_RootfsPropagation (linuxOf s') = ''rshared'')"
  using assms
proof (induction ms arbitrary: s tr)
  case Nil
  then show ?case by (auto simp: keepsRest_def)
next
  case (Cons m ms)
  then obtain s1 tr1 where a: "addMount os l m s tr = (Inr s1, tr1)" "addMounts os l ms s1 tr1 = (Inr s', tr')"
    by (auto simp: act_simps)
  from addMount_Inr [OF a(1)] obtain b where b: "sp_Mounts s1 = sp_Mounts s @ [b]" "bindsTo m b"
    "keepsRest s s1"
    "li_RootfsPropagation (linuxOf s) = ''rshared'' \<or> mt_Propagation m = PROPAGATION_BIDIRECTIONAL \<longrightarrow>
       li_RootfsPropagation (linuxOf s1) = ''rshared''" by blast
  from Cons.IH [OF a(2)] obtain bs where bs: "sp_Mounts s' = sp_Mounts s1 @ bs" "list_all2 bindsTo ms bs"
    "keepsRest s1 s'"
    "li_RootfsPropagation (linuxOf s1) = ''rshared'' \<or> (\<exists>m \<in> set ms. mt_Propagation m = PROPAGATION_BIDIRECTIONAL) \<longrightarrow>
       li_RootfsPropagation (linuxOf s') = ''rshared''" by blast
  have "keepsRest s s'" using b(3) bs(3) by (simp add: keepsRest_def)
  then show ?case using b bs by (intro exI [of _ "b # bs"]) auto
qed

lemma sorted_below:
  assumes "sorted (map parts ms)" "i < j" "j < length ms"
  shows "\<not> below (mt_ContainerPath (ms ! j)) (mt_ContainerPath (ms ! i))"
proof
  assume "below (mt_ContainerPath (ms ! j)) (mt_ContainerPath (ms ! i))"
  then have "parts (ms ! j) < parts (ms ! i)" using below_parts by (simp add: parts_def)
  moreover have "parts (ms ! i) \<le> parts (ms ! j)"
    using assms sorted_nth_mono [of "map parts ms" i j] by simp
  ultimately show False by simp
qed

lemma keptDefault_iff:
  "keptDefault mounts d \<longleftrightarrow> (\<forall>m \<in> set mounts. Clean (om_Destination d) \<noteq> Clean (mt_ContainerPath m)) \<and>
     ((\<exists>m \<in> set mounts. Clean (mt_ContainerPath m) = ''/dev'') \<longrightarrow> \<not> prefix ''/dev/'' (Clean (om_Destination d)))"
  by (auto simp: keptDefault_def Let_def HasPrefix_iff) (metis image_eqI)


subsection \<open>The default spec, and an example\<close>

text \<open>\<^verbatim>\<open>populateDefaultUnixSpec\<close> in the namespace \<^verbatim>\<open>k8s.io\<close>\<close>

definition defaultUnixCaps :: "string list" where
  "defaultUnixCaps = [''CAP_CHOWN'', ''CAP_DAC_OVERRIDE'', ''CAP_FSETID'', ''CAP_FOWNER'', ''CAP_MKNOD'', ''CAP_NET_RAW'', ''CAP_SETGID'',
     ''CAP_SETUID'', ''CAP_SETFCAP'', ''CAP_SETPCAP'', ''CAP_NET_BIND_SERVICE'', ''CAP_SYS_CHROOT'', ''CAP_KILL'', ''CAP_AUDIT_WRITE'']"

definition defaultUnixNamespaces :: "linuxNamespace list" where
  "defaultUnixNamespaces = map (\<lambda>t. \<lparr>ns_Type = t, ns_Path = []\<rparr>) [PIDNamespace, IPCNamespace, UTSNamespace, MountNamespace, NetworkNamespace]"

definition defaultUnixMounts :: "ociMount list" where
  "defaultUnixMounts =
     [\<lparr>om_Source = ''proc'', om_Destination = ''/proc'', om_Type = ''proc'', om_Options = [''nosuid'', ''noexec'', ''nodev'']\<rparr>,
      \<lparr>om_Source = ''tmpfs'', om_Destination = ''/dev'', om_Type = ''tmpfs'', om_Options = [''nosuid'', ''strictatime'', ''mode=755'', ''size=65536k'']\<rparr>,
      \<lparr>om_Source = ''devpts'', om_Destination = ''/dev/pts'', om_Type = ''devpts'', om_Options = [''nosuid'', ''noexec'', ''newinstance'', ''ptmxmode=0666'', ''mode=0620'', ''gid=5'']\<rparr>,
      \<lparr>om_Source = ''shm'', om_Destination = ''/dev/shm'', om_Type = ''tmpfs'', om_Options = [''nosuid'', ''noexec'', ''nodev'', ''mode=1777'', ''size=65536k'']\<rparr>,
      \<lparr>om_Source = ''mqueue'', om_Destination = ''/dev/mqueue'', om_Type = ''mqueue'', om_Options = [''nosuid'', ''noexec'', ''nodev'']\<rparr>,
      \<lparr>om_Source = ''sysfs'', om_Destination = ''/sys'', om_Type = ''sysfs'', om_Options = [''nosuid'', ''noexec'', ''nodev'', ''ro'']\<rparr>,
      \<lparr>om_Source = ''tmpfs'', om_Destination = ''/run'', om_Type = ''tmpfs'', om_Options = [''nosuid'', ''strictatime'', ''mode=755'', ''size=65536k'']\<rparr>]"

definition defaultSpec :: "string \<Rightarrow> ociSpec" where
  "defaultSpec i = \<lparr>
     sp_Process = Some (zeroProcess\<lparr>pr_Cwd := ''/'', pr_NoNewPrivileges := True,
       pr_Capabilities := Some \<lparr>cap_Bounding = defaultUnixCaps, cap_Effective = defaultUnixCaps, cap_Permitted = defaultUnixCaps,
         cap_Inheritable = defaultUnixCaps, cap_Ambient = []\<rparr>,
       pr_Rlimits := [''RLIMIT_NOFILE'']\<rparr>),
     sp_Root = Some \<lparr>ro_Path = ''rootfs'', ro_Readonly = False\<rparr>, sp_Hostname = [],
     sp_Mounts = defaultUnixMounts, sp_Annotations = Map.empty,
     sp_Linux = Some (zeroLinux\<lparr>
       li_MaskedPaths := [''/proc/acpi'', ''/proc/asound'', ''/proc/kcore'', ''/proc/keys'', ''/proc/latency_stats'', ''/proc/timer_list'',
         ''/proc/timer_stats'', ''/proc/sched_debug'', ''/sys/firmware'', ''/proc/scsi''],
       li_ReadonlyPaths := [''/proc/bus'', ''/proc/fs'', ''/proc/irq'', ''/proc/sys'', ''/proc/sysrq-trigger''],
       li_CgroupsPath := PathJoin ''/k8s.io'' i,
       li_Resources := Some (zeroResources\<lparr>re_Devices := [\<lparr>dg_Allow = False, dg_Type = [], dg_Major = None, dg_Minor = None, dg_Access = ''rwm''\<rparr>]\<rparr>),
       li_Namespaces := defaultUnixNamespaces\<rparr>)\<rparr>"

definition example_os :: osEnv where
  "example_os = \<lparr>os_err = (\<lambda>_ _. None), os_resolved = (\<lambda>_ p. p), os_mountInfo = (\<lambda>_ _. \<lparr>mi_Mountpoint = ''/'', mi_Optional = ''shared:1''\<rparr>),
     os_device = (\<lambda>_ _ _. \<lparr>od_Type = ''c'', od_Major = 1, od_Minor = 3, od_Uid = 0, od_Gid = 0, od_Permissions = ''rw''\<rparr>),
     os_hostDevices = (\<lambda>_. []), os_oomScoreAdj = (\<lambda>_. ''-999''), os_hostname = (\<lambda>_. ''node''),
     os_labels = (\<lambda>_ _. (''u:r:t:s0:c1,c2'', ''u:o:f:s0:c1,c2'')), os_dupSecOpt = (\<lambda>_. Inr []),
     os_unified = False, os_hugetlbDir = True, os_controllers = None, os_allCapabilities = [''CAP_CHOWN'', ''CAP_SYS_ADMIN'']\<rparr>"

lemma sort_key_sortsMounts: "sortsMounts (sort_key parts)"
  by (simp add: sortsMounts_def)

definition zeroConfig :: containerConfig where
  "zeroConfig = \<lparr>cc_Metadata = None, cc_Image = [], cc_Mounts = [], cc_Labels = Map.empty, cc_Annotations = Map.empty, cc_LogPath = [],
     cc_Stdin = False, cc_StdinOnce = False, cc_Tty = False, cc_Privileged = False, cc_NsNetwork = NS_POD, cc_NsPid = NS_POD, cc_NsIpc = NS_POD,
     cc_RunAsUser = None, cc_RunAsGroup = None, cc_RunAsUsername = [], cc_ReadonlyRootfs = False, cc_ApparmorProfile = [],
     cc_SeccompProfilePath = [], cc_Command = None, cc_Args = [], cc_WorkingDir = [], cc_Envs = [], cc_Devices = [], cc_Resources = None,
     cc_Capabilities = None, cc_SelinuxOptions = None, cc_MaskedPaths = None, cc_ReadonlyPaths = None, cc_NoNewPrivs = False,
     cc_SupplementalGroups = []\<rparr>"

definition two_mounts :: containerConfig where
  "two_mounts = zeroConfig\<lparr>cc_Mounts := [
     \<lparr>mt_ContainerPath = ''/a/b'', mt_HostPath = ''/x'', mt_Readonly = True, mt_SelinuxRelabel = False, mt_Propagation = PROPAGATION_PRIVATE\<rparr>,
     \<lparr>mt_ContainerPath = ''/a/'', mt_HostPath = ''/y'', mt_Readonly = False, mt_SelinuxRelabel = False, mt_Propagation = PROPAGATION_BIDIRECTIONAL\<rparr>]\<rparr>"

text \<open>Without failures of the operating system and on shared mounts, every mount can be added.\<close>

lemma addMounts_succeeds:
  assumes "\<And>tr c. os_err os tr c = None" "\<And>tr p. mi_Optional (os_mountInfo os tr p) = ''shared:1''"
  shows "\<exists>s' tr'. addMounts os l ms s tr = (Inr s', tr')"
proof (induction ms arbitrary: s tr)
  case Nil
  show ?case by simp
next
  case (Cons m ms)
  have [simp]: "osCall os c tr = (Inr (), c # tr)" for c tr by (simp add: osCall_def assms(1))
  have r: "resolveLink os p tr = (Inr (os_resolved os (OsResolve p # tr) p), OsResolve p # tr)" for p tr
    by (simp add: resolveLink_def thenA_def bindA_def)
  have e: "ensureMount (''shared:'' # pfs) msg os p tr = (Inr (), OsLookupMount p # tr)" for pfs msg p tr
    by (simp add: ensureMount_def thenA_def bindA_def assms(2) HasPrefix_def)
  have "\<exists>s1 tr1. addMount os l m s tr = (Inr s1, tr1)"
    by (cases "mt_Propagation m")
      (simp_all add: addMount_def ensureHostPath_def propagation_def relabel_def ensureShared_def ensureSharedOrSlave_def thenA_def bindA_def wrapA_def
        tolerateA_def r e)
  then obtain s1 tr1 where "addMount os l m s tr = (Inr s1, tr1)" by blast
  then show ?case using Cons [of s1 tr1] by (auto simp: bindA_def)
qed

lemma two_mounts_run: "\<exists>s'. fst (WithMounts (sort_key parts) two_mounts [] [] example_os (defaultSpec ''c1'') []) = Inr s'"
proof -
  have "\<exists>s' tr'. addMounts example_os l ms s tr = (Inr s', tr')" for l ms s tr
    by (rule addMounts_succeeds) (simp_all add: example_os_def)
  then show ?thesis unfolding WithMounts_def Let_def by (metis fst_conv)
qed


end
