(* ===== verification/Service.thy ===== *)
theory Service
  imports Registrar OciOpts
begin

section \<open>The service state and its environment\<close>

text \<open>
  The state of \<^verbatim>\<open>criService\<close> (\<^verbatim>\<open>pkg/server/service.go\<close>): the stores, the name indexes, the shared label
  store, the heaps of the shared cells of containers and sandboxes, the checkpoints on disk, and
  the trace of the calls made to the outside (containerd, the operating system, CNI), newest first.

  What those calls answer is the environment, a record of functions of the calls made so far and the
  call: every theorem on a handler holds for every environment. A call that fails has no effect
  that the model sees. While a handler blocks on a stop channel, the other goroutines run: \<open>w_env\<close>
  is what they do to the state in the meantime. Apart from that, a handler runs undisturbed;
  the theory \<^verbatim>\<open>Lifecycle\<close> covers the interleaving of status transactions of concurrent handlers.
\<close>

record runtimeConfig =
  rt_Type :: string
  rt_PodAnnotations :: "string list"
  rt_ContainerAnnotations :: "string list"
  rt_PrivilegedWithoutHostDevices :: bool
  rt_BaseRuntimeSpec :: string

text \<open>The extension that a containerd container carries: the metadata of the CRI object.\<close>

datatype extension =
    ContainerMetadata "containerConfig metadata"
  | SandboxMetadata "(podSandboxConfig, cniResult) sb_metadata"

datatype stream_sink = NoSink | DiscardLogger | CRILogger string string int

datatype (plugins only: code) extcall =
    CtrInfo string | CtrSpec string | CtrTask string | CtrNew string labels extension | CtrDelete string
  | TaskNew string | TaskWait string | TaskStart string | TaskDelete string | TaskKill string int
  | AddOutput string stream_sink stream_sink | Pipe string | NewIO string | IOClose string
  | OpenLogFile string | WriteFile string | RenameFile string | RemoveFile string
  | EnsureRemoveAll string | RemoveAll string | MkdirAll string
  | WaitStop string "int option" | StartExitMonitor string "32 word" | StopExitMonitor string
  | GetImage string | CtrdPull string | ImageConfig string | CreateImage string string | UpdateImageRef string string
  | DeleteImageRef string bool
  | NewNetNS string | NetNSClosed string | NetNSRemove string
  | CNISetup string string cniOpts | CNIRemove string string cniOpts
  | Hostname | WriteData string string | CopyFile string string | StatFile string
  | MountShm string | FollowSymlink string | Unmount string
  | GenSandboxSpec string string runtimeConfig | GenContainerSpec string string "criMount list" runtimeConfig
  | GenSpecOpts string | GenRuntimeOptions string
  | ReleaseLabel string
  | ListContainers string | ListImages | Extensions string | TaskStatus string
  | GenerateID | UpdateSpec string ociSpec | UpdateTask string "linuxResources option"
  | ReadFile string | ReadDir string | CheckImage string | IsUnpacked string

record criConfig =
  cf_RootDir :: string
  cf_StateDir :: string
  cf_MaxContainerLogLineSize :: int
  cf_SandboxImage :: string
  cf_DefaultRuntimeName :: string
  cf_Runtimes :: "string \<rightharpoonup> runtimeConfig"
  cf_IgnoreImageDefinedVolumes :: bool
  cf_DisableCgroup :: bool
  cf_DisableApparmor :: bool
  cf_RestrictOOMScoreAdj :: bool
  cf_DisableProcMount :: bool
  cf_UnsetSeccompProfile :: string
  cf_TolerateMissingHugetlbController :: bool
  cf_DisableHugetlbController :: bool

record svc =
  sv_config :: criConfig
  sandboxNameIndex :: registrar
  containerNameIndex :: registrar
  sandboxStore :: "(podSandboxConfig, cniResult) sstore"
  containerStore :: "containerConfig cstore"
  labelStore :: label_store
  imageStore :: image_store
  netPlugin :: bool
  cells :: "nat \<Rightarrow> cell"
  sbCells :: "nat \<Rightarrow> sb_cell"
  nextRef :: nat
  svDisk :: disk
  trace :: "extcall list"

text \<open>A parsed image reference: its normal form, its name, and whether it carries a tag or a digest.\<close>

record namedRef =
  nr_String :: string
  nr_Name :: string
  nr_Tagged :: bool
  nr_Canonical :: bool

text \<open>What containerd says of a task.\<close>

datatype processStatus = Task_Created | Task_Running | Task_Stopped | Task_Other string

record taskStatus =
  ts_Status :: processStatus
  ts_ExitStatus :: "32 word"
  ts_ExitTime :: "64 word"

record world =
  w_err :: "extcall list \<Rightarrow> extcall \<Rightarrow> goerror option"
  w_now :: "extcall list \<Rightarrow> 64 word"
  w_pid :: "extcall list \<Rightarrow> string \<Rightarrow> 32 word"
  w_createdAt :: "extcall list \<Rightarrow> string \<Rightarrow> int"
  w_ctxErr :: "extcall list \<Rightarrow> goerror option"
  w_env :: "extcall list \<Rightarrow> svc \<Rightarrow> svc"
  w_parseSignal :: "string \<Rightarrow> int result"
  w_genID :: "extcall list \<Rightarrow> string"
  w_image :: "extcall list \<Rightarrow> string \<Rightarrow> ctrd_image result"
  w_oldImage :: "extcall list \<Rightarrow> string \<Rightarrow> string \<times> (string \<rightharpoonup> string)"
  w_schema1 :: "extcall list \<Rightarrow> bool"
  w_parseRef :: "string \<Rightarrow> namedRef result"
  w_chainID :: "string list \<Rightarrow> string"
  w_iter :: "string list \<Rightarrow> string list"
  w_netnsPath :: "extcall list \<Rightarrow> string"
  w_netnsClosed :: "extcall list \<Rightarrow> string \<Rightarrow> bool"
  w_cni :: "extcall list \<Rightarrow> cniResult"
  w_processLabel :: "extcall list \<Rightarrow> string"
  w_parseQuantity :: "string \<Rightarrow> int result"
  w_hostname :: "extcall list \<Rightarrow> string"
  w_followed :: "extcall list \<Rightarrow> string \<Rightarrow> string"
  w_containers :: "extcall list \<Rightarrow> string \<Rightarrow> string list"
  w_ctrMeta :: "extcall list \<Rightarrow> string \<Rightarrow> containerConfig metadata result option"
  w_sbMeta :: "extcall list \<Rightarrow> string \<Rightarrow> (podSandboxConfig, cniResult) sb_metadata result option"
  w_taskStatus :: "extcall list \<Rightarrow> string \<Rightarrow> taskStatus"
  w_images :: "extcall list \<Rightarrow> string list"
  w_imageOk :: "extcall list \<Rightarrow> string \<Rightarrow> bool"
  w_dirs :: "extcall list \<Rightarrow> string \<Rightarrow> (string \<times> bool) list"
  w_spec :: "extcall list \<Rightarrow> string \<Rightarrow> ociSpec"
  w_os :: osEnv

type_synonym 'a handler = "(svc, 'a) act"

subsection \<open>Primitive actions\<close>

definition logCall :: "extcall \<Rightarrow> svc \<Rightarrow> svc" where
  "logCall c s = s\<lparr>trace := c # trace s\<rparr>"

definition ext :: "world \<Rightarrow> extcall \<Rightarrow> unit handler" where
  "ext w c s = ((case w_err w (trace s) c of None \<Rightarrow> Inr () | Some e \<Rightarrow> Inl e), logCall c s)"

definition containerGet :: "string \<Rightarrow> ctr handler" where
  "containerGet i s = (Store_Get (containerStore s) i, s)"

definition sandboxGet :: "string \<Rightarrow> sbx handler" where
  "sandboxGet i s = (Sandbox_Get (sandboxStore s) i, s)"

text \<open>\<^verbatim>\<open>cntr.Status.Get()\<close>, \<^verbatim>\<open>Update\<close> and \<^verbatim>\<open>UpdateSync\<close> through the shared cell.\<close>

definition statusOf :: "ctr \<Rightarrow> svc \<Rightarrow> status" where
  "statusOf c s = StorageGet (cl_status (cells s (c_ref c)))"

definition statusUpdate :: "updateFunc \<Rightarrow> ctr \<Rightarrow> unit handler" where
  "statusUpdate u c s =
     (let cl = cells s (c_ref c); (r, st) = Update u (cl_status cl)
      in (r, s\<lparr>cells := (cells s)(c_ref c := cl\<lparr>cl_status := st\<rparr>)\<rparr>))"

definition statusUpdateSync :: "world \<Rightarrow> updateFunc \<Rightarrow> ctr \<Rightarrow> unit handler" where
  "statusUpdateSync w u c s =
     (let cl = cells s (c_ref c);
          call = WriteFile (ss_path (cl_status cl));
          (r, st, d) = UpdateSync (w_err w (trace s) call) u (cl_status cl) (svDisk s);
          s' = (case u (ss_status (cl_status cl)) of Inl _ \<Rightarrow> s | Inr _ \<Rightarrow> logCall call s)
      in (r, s'\<lparr>cells := (cells s)(c_ref c := cl\<lparr>cl_status := st\<rparr>), svDisk := d\<rparr>))"

definition containerStop :: "ctr \<Rightarrow> svc \<Rightarrow> svc" where
  "containerStop c s = s\<lparr>cells := (cells s)(c_ref c := Stop (cells s (c_ref c)))\<rparr>"

definition sbStatusOf :: "sbx \<Rightarrow> svc \<Rightarrow> sb_status" where
  "sbStatusOf sb s = Sandbox_StatusGet (sc_status (sbCells s (sb_ref sb)))"

definition sbStatusUpdate :: "(sb_status \<Rightarrow> sb_status result) \<Rightarrow> sbx \<Rightarrow> unit handler" where
  "sbStatusUpdate u sb s =
     (let cl = sbCells s (sb_ref sb); (r, st) = Sandbox_Update u (sc_status cl)
      in (r, s\<lparr>sbCells := (sbCells s)(sb_ref sb := cl\<lparr>sc_status := st\<rparr>)\<rparr>))"

definition sandboxStop :: "sbx \<Rightarrow> svc \<Rightarrow> svc" where
  "sandboxStop sb s = s\<lparr>sbCells := (sbCells s)(sb_ref sb := Sandbox_Stop (sbCells s (sb_ref sb)))\<rparr>"

subsection \<open>Directories and names\<close>

text \<open>\<^verbatim>\<open>pkg/server/helpers.go\<close>. The directories of the config are clean absolute paths and ids are
  path segments, so that \<^verbatim>\<open>filepath.Join\<close> is concatenation with slashes.\<close>

definition getSandboxRootDir :: "criConfig \<Rightarrow> string \<Rightarrow> string" where
  "getSandboxRootDir c i = Join [cf_RootDir c, ''sandboxes'', i] ''/''"

definition getVolatileSandboxRootDir :: "criConfig \<Rightarrow> string \<Rightarrow> string" where
  "getVolatileSandboxRootDir c i = Join [cf_StateDir c, ''sandboxes'', i] ''/''"

definition getContainerRootDir :: "criConfig \<Rightarrow> string \<Rightarrow> string" where
  "getContainerRootDir c i = Join [cf_RootDir c, ''containers'', i] ''/''"

definition getVolatileContainerRootDir :: "criConfig \<Rightarrow> string \<Rightarrow> string" where
  "getVolatileContainerRootDir c i = Join [cf_StateDir c, ''containers'', i] ''/''"

definition makeSandboxName :: "podSandboxMetadata \<Rightarrow> string" where
  "makeSandboxName s =
     Join [pmd_Name s, pmd_Namespace s, pmd_Uid s, Itoa (unat (pmd_Attempt s))] ''_''"

definition makeContainerName :: "containerMetadata \<Rightarrow> podSandboxMetadata \<Rightarrow> string" where
  "makeContainerName c s =
     Join [cmd_Name c, pmd_Name s, pmd_Namespace s, pmd_Uid s, Itoa (unat (cmd_Attempt c))] ''_''"

fun criContainerStateToString :: "container_state \<Rightarrow> string" where
  "criContainerStateToString CREATED = ''CONTAINER_CREATED''"
| "criContainerStateToString RUNNING = ''CONTAINER_RUNNING''"
| "criContainerStateToString EXITED = ''CONTAINER_EXITED''"
| "criContainerStateToString CONTAINER_UNKNOWN = ''CONTAINER_UNKNOWN''"

definition errorStartExitCode :: "32 word" where "errorStartExitCode = 128"
definition errorStartReason :: string where "errorStartReason = ''StartError''"
definition completeExitReason :: string where "completeExitReason = ''Completed''"
definition errorExitReason :: string where "errorExitReason = ''Error''"
definition oomExitReason :: string where "oomExitReason = ''OOMKilled''"
definition unknownExitCode :: "32 word" where "unknownExitCode = 255"
definition unknownExitReason :: string where "unknownExitReason = ''Unknown''"

definition unknownContainerStatus :: status where
  "unknownContainerStatus =
     zero_status\<lparr>st_ExitCode := unknownExitCode, st_Reason := unknownExitReason, st_Unknown := True\<rparr>"

definition unknownSandboxStatus :: sb_status where
  "unknownSandboxStatus = \<lparr>sb_Pid = 0, sb_CreatedAt = zeroTime, sb_State = StateUnknown\<rparr>"

subsection \<open>Rules for the primitive actions\<close>

lemma trace_logCall [simp]: "trace (logCall c s) = c # trace s" by (simp add: logCall_def)

lemma logCall_frame [simp]:
  "sv_config (logCall c s) = sv_config s" "sandboxNameIndex (logCall c s) = sandboxNameIndex s"
  "containerNameIndex (logCall c s) = containerNameIndex s" "sandboxStore (logCall c s) = sandboxStore s"
  "containerStore (logCall c s) = containerStore s" "labelStore (logCall c s) = labelStore s"
  "imageStore (logCall c s) = imageStore s" "netPlugin (logCall c s) = netPlugin s" "cells (logCall c s) = cells s" "sbCells (logCall c s) = sbCells s"
  "nextRef (logCall c s) = nextRef s" "svDisk (logCall c s) = svDisk s"
  by (simp_all add: logCall_def)

lemma statusOf_logCall [simp]: "statusOf c (logCall x s) = statusOf c s" by (simp add: statusOf_def)
lemma sbStatusOf_logCall [simp]: "sbStatusOf c (logCall x s) = sbStatusOf c s" by (simp add: sbStatusOf_def)

lemma ext_Inr [act_simps]: "ext w c s = (Inr u, t) \<longleftrightarrow> w_err w (trace s) c = None \<and> t = logCall c s"
  by (auto simp: ext_def split: option.splits)

lemma ext_Inl [act_simps]: "ext w c s = (Inl e, t) \<longleftrightarrow> w_err w (trace s) c = Some e \<and> t = logCall c s"
  by (auto simp: ext_def split: option.splits)

lemma containerGet_eq [act_simps]: "containerGet i s = (r, t) \<longleftrightarrow> r = Store_Get (containerStore s) i \<and> t = s"
  by (auto simp: containerGet_def)

lemma sandboxGet_eq [act_simps]: "sandboxGet i s = (r, t) \<longleftrightarrow> r = Sandbox_Get (sandboxStore s) i \<and> t = s"
  by (auto simp: sandboxGet_def)

text \<open>Installing a status in the cell of a container.\<close>

definition setStatus :: "ctr \<Rightarrow> status \<Rightarrow> svc \<Rightarrow> svc" where
  "setStatus c x s = s\<lparr>cells := (cells s)(c_ref c := (cells s (c_ref c))
     \<lparr>cl_status := (cl_status (cells s (c_ref c)))\<lparr>ss_status := x\<rparr>\<rparr>)\<rparr>"

definition writeStatus :: "ctr \<Rightarrow> status \<Rightarrow> svc \<Rightarrow> svc" where
  "writeStatus c x s = (let p = ss_path (cl_status (cells s (c_ref c))) in
     setStatus c x (logCall (WriteFile p) s)\<lparr>svDisk := (svDisk s)(p \<mapsto> encode x)\<rparr>)"

lemma statusOf_setStatus [simp]: "statusOf c (setStatus c x s) = x"
  by (simp add: statusOf_def setStatus_def StorageGet_def)

lemma statusOf_writeStatus [simp]: "statusOf c (writeStatus c x s) = x"
  by (simp add: writeStatus_def Let_def statusOf_def setStatus_def StorageGet_def)

lemma setStatus_frame [simp]:
  "sv_config (setStatus c x s) = sv_config s" "sandboxNameIndex (setStatus c x s) = sandboxNameIndex s"
  "containerNameIndex (setStatus c x s) = containerNameIndex s" "sandboxStore (setStatus c x s) = sandboxStore s"
  "containerStore (setStatus c x s) = containerStore s" "labelStore (setStatus c x s) = labelStore s"
  "imageStore (setStatus c x s) = imageStore s" "netPlugin (setStatus c x s) = netPlugin s" "sbCells (setStatus c x s) = sbCells s"
  "nextRef (setStatus c x s) = nextRef s" "svDisk (setStatus c x s) = svDisk s" "trace (setStatus c x s) = trace s"
  "sbStatusOf sb (setStatus c x s) = sbStatusOf sb s"
  by (simp_all add: setStatus_def sbStatusOf_def)

lemma writeStatus_frame [simp]:
  "sv_config (writeStatus c x s) = sv_config s" "sandboxNameIndex (writeStatus c x s) = sandboxNameIndex s"
  "containerNameIndex (writeStatus c x s) = containerNameIndex s" "sandboxStore (writeStatus c x s) = sandboxStore s"
  "containerStore (writeStatus c x s) = containerStore s" "labelStore (writeStatus c x s) = labelStore s"
  "imageStore (writeStatus c x s) = imageStore s" "netPlugin (writeStatus c x s) = netPlugin s" "sbCells (writeStatus c x s) = sbCells s"
  "nextRef (writeStatus c x s) = nextRef s"
  "trace (writeStatus c x s) = WriteFile (ss_path (cl_status (cells s (c_ref c)))) # trace s"
  "sbStatusOf sb (writeStatus c x s) = sbStatusOf sb s"
  by (simp_all add: writeStatus_def Let_def sbStatusOf_def)

lemma statusUpdate_Inr [act_simps]:
  "statusUpdate u c s = (Inr v, t) \<longleftrightarrow> (\<exists>x. u (statusOf c s) = Inr x \<and> t = setStatus c x s)"
  by (auto simp: statusUpdate_def Update_def statusOf_def StorageGet_def setStatus_def Let_def
      split: sum.splits prod.splits)

lemma statusUpdate_Inl [act_simps]:
  "statusUpdate u c s = (Inl e, t) \<longleftrightarrow> u (statusOf c s) = Inl e \<and> t = s"
  by (auto simp: statusUpdate_def Update_def statusOf_def StorageGet_def Let_def split: sum.splits prod.splits)

lemma statusUpdateSync_Inr [act_simps]:
  "statusUpdateSync w u c s = (Inr v, t) \<longleftrightarrow>
     (\<exists>x. u (statusOf c s) = Inr x \<and> w_err w (trace s) (WriteFile (ss_path (cl_status (cells s (c_ref c))))) = None \<and>
          t = writeStatus c x s)"
  by (auto simp: statusUpdateSync_def UpdateSync_def statusOf_def StorageGet_def writeStatus_def setStatus_def
      logCall_def Let_def split: sum.splits prod.splits option.splits)

lemma statusUpdateSync_Inl [act_simps]:
  "statusUpdateSync w u c s = (Inl e, t) \<longleftrightarrow>
     (u (statusOf c s) = Inl e \<and> t = s) \<or>
     (\<exists>x e'. let p = ss_path (cl_status (cells s (c_ref c))) in
        u (statusOf c s) = Inr x \<and> w_err w (trace s) (WriteFile p) = Some e' \<and>
        e = Wrapf e' ''failed to checkpoint status to %q'' [p] \<and> t = logCall (WriteFile p) s)"
  by (auto simp: statusUpdateSync_def UpdateSync_def statusOf_def StorageGet_def logCall_def Let_def
      split: sum.splits prod.splits option.splits)

text \<open>\<open>calls pre s t\<close>: from \<open>s\<close> to \<open>t\<close> nothing happened but the calls \<open>pre\<close> (newest first).\<close>

definition calls :: "extcall list \<Rightarrow> svc \<Rightarrow> svc \<Rightarrow> bool" where
  "calls pre s t \<longleftrightarrow> t = s\<lparr>trace := pre @ trace s\<rparr>"

lemma calls_refl [simp, intro]: "calls [] s s" by (simp add: calls_def)

lemma calls_step: "calls pre s t \<Longrightarrow> calls (c # pre) s (logCall c t)"
  by (simp add: calls_def logCall_def)

lemma calls_trans: "calls p s t \<Longrightarrow> calls q t u \<Longrightarrow> calls (q @ p) s u"
  by (simp add: calls_def)

lemma calls_trace: "calls pre s t \<Longrightarrow> trace t = pre @ trace s" by (simp add: calls_def)

lemma calls_frame:
  assumes "calls pre s t"
  shows "cells t = cells s" "sbCells t = sbCells s" "containerStore t = containerStore s"
    "sandboxStore t = sandboxStore s" "labelStore t = labelStore s" "svDisk t = svDisk s"
    "containerNameIndex t = containerNameIndex s" "sandboxNameIndex t = sandboxNameIndex s"
    "sv_config t = sv_config s" "imageStore t = imageStore s" "nextRef t = nextRef s"
    "statusOf c t = statusOf c s" "sbStatusOf sb t = sbStatusOf sb s" "netPlugin t = netPlugin s"
  using assms by (simp_all add: calls_def statusOf_def sbStatusOf_def)

lemma ext_calls: "ext w c s = (r, t) \<Longrightarrow> calls [c] s t"
  by (auto simp: ext_def calls_def logCall_def)

subsection \<open>Actions that only call out\<close>

text \<open>
  \<open>calls_only A m\<close>: the action changes nothing but the trace, to which it adds calls of \<open>A\<close>;
  \<open>fails_clean A m\<close>: the same when it returns an error.
\<close>

named_theorems call_intros

definition onlyCalls :: "extcall set \<Rightarrow> svc \<Rightarrow> svc \<Rightarrow> bool" where
  "onlyCalls A s t \<longleftrightarrow> (\<exists>pre. calls pre s t \<and> set pre \<subseteq> A)"

definition calls_only :: "extcall set \<Rightarrow> 'a handler \<Rightarrow> bool" where
  "calls_only A m \<longleftrightarrow> (\<forall>s r t. m s = (r, t) \<longrightarrow> onlyCalls A s t)"

definition fails_clean :: "extcall set \<Rightarrow> 'a handler \<Rightarrow> bool" where
  "fails_clean A m \<longleftrightarrow> (\<forall>s e t. m s = (Inl e, t) \<longrightarrow> onlyCalls A s t)"

lemma onlyCalls_refl [simp, intro]: "onlyCalls A s s"
  unfolding onlyCalls_def by (rule exI [of _ "[]"]) simp

lemma onlyCalls_trans: "onlyCalls A s t \<Longrightarrow> onlyCalls A t u \<Longrightarrow> onlyCalls A s u"
  unfolding onlyCalls_def by (metis calls_trans le_sup_iff set_append)

lemma onlyCalls_logCall [intro]: "onlyCalls A s t \<Longrightarrow> c \<in> A \<Longrightarrow> onlyCalls A s (logCall c t)"
  unfolding onlyCalls_def by (metis calls_step insert_subset list.simps(15))

lemma onlyCallsE:
  assumes "onlyCalls A s t"
  obtains pre where "calls pre s t" "set pre \<subseteq> A"
  using assms by (auto simp: onlyCalls_def)

lemma calls_onlyD: "calls_only A m \<Longrightarrow> m s = (r, t) \<Longrightarrow> onlyCalls A s t"
  by (simp add: calls_only_def)

lemma fails_cleanD: "fails_clean A m \<Longrightarrow> m s = (Inl e, t) \<Longrightarrow> onlyCalls A s t"
  by (simp add: fails_clean_def)

lemma calls_only_fails: "calls_only A m \<Longrightarrow> fails_clean A m"
  by (simp add: calls_only_def fails_clean_def)

lemma calls_only_basic [call_intros]:
  "calls_only A (returnA x)" "calls_only A (failA e)" "calls_only A (getA f)" "calls_only A (liftA r')"
  "calls_only A (containerGet i)" "calls_only A (sandboxGet i)"
  by (auto simp: calls_only_def containerGet_def sandboxGet_def)

lemma calls_only_ext [call_intros]: "c \<in> A \<Longrightarrow> calls_only A (ext w c)"
  by (auto simp: calls_only_def ext_def)

lemma calls_only_log [call_intros]: "c \<in> A \<Longrightarrow> calls_only A (modifyA (logCall c))"
  by (auto simp: calls_only_def)

lemma calls_only_bind [call_intros]:
  "calls_only A m \<Longrightarrow> (\<And>x. calls_only A (f x)) \<Longrightarrow> calls_only A (bindA m f)"
  by (fastforce simp: calls_only_def bindA_def split: prod.splits sum.splits intro: onlyCalls_trans)

lemma calls_only_then [call_intros]: "calls_only A m \<Longrightarrow> calls_only A n \<Longrightarrow> calls_only A (thenA m n)"
  unfolding thenA_def by (rule calls_only_bind)

lemma calls_only_wrap [call_intros]: "calls_only A m \<Longrightarrow> calls_only A (wrapA m f args)"
  by (fastforce simp: calls_only_def wrapA_def split: prod.splits sum.splits)

lemma calls_only_tolerate [call_intros]: "calls_only A m \<Longrightarrow> calls_only A (tolerateA m p)"
  by (fastforce simp: calls_only_def tolerateA_def split: prod.splits sum.splits)

lemma calls_only_if [call_intros]:
  "(b \<Longrightarrow> calls_only A m) \<Longrightarrow> (\<not> b \<Longrightarrow> calls_only A n) \<Longrightarrow> calls_only A (if b then m else n)"
  by simp

lemma fails_clean_bind [call_intros]:
  "calls_only A m \<Longrightarrow> (\<And>x. fails_clean A (f x)) \<Longrightarrow> fails_clean A (bindA m f)"
  unfolding fails_clean_def bindA_Inl by (blast dest: calls_onlyD intro: onlyCalls_trans)

lemma fails_clean_then [call_intros]: "calls_only A m \<Longrightarrow> fails_clean A n \<Longrightarrow> fails_clean A (thenA m n)"
  unfolding thenA_def by (rule fails_clean_bind)

lemma fails_clean_last: "fails_clean A m \<Longrightarrow> (\<And>s. \<exists>x t. n s = (Inr x, t)) \<Longrightarrow> fails_clean A (thenA m n)"
  unfolding fails_clean_def thenA_Inl by (metis Pair_inject sum.distinct(1))

lemma fails_clean_wrap [call_intros]: "fails_clean A m \<Longrightarrow> fails_clean A (wrapA m f args)"
  unfolding fails_clean_def wrapA_Inl by blast

lemma fails_clean_if [call_intros]:
  "(b \<Longrightarrow> fails_clean A m) \<Longrightarrow> (\<not> b \<Longrightarrow> fails_clean A n) \<Longrightarrow> fails_clean A (if b then m else n)"
  by simp

lemma fails_clean_update [call_intros]: "fails_clean A (statusUpdate u c)"
  by (auto simp: fails_clean_def statusUpdate_Inl)

lemma fails_clean_updateSync [call_intros]:
  "range WriteFile \<subseteq> A \<Longrightarrow> fails_clean A (\<lambda>s. statusUpdateSync w (u s) c s)"
  by (force simp: fails_clean_def statusUpdateSync_Inl Let_def)

lemma fails_clean_onError:
  "fails_clean A m \<Longrightarrow> (\<And>e s. onlyCalls A s (k e s)) \<Longrightarrow> fails_clean A (onError m k)"
  unfolding fails_clean_def onError_Inl by (blast intro: onlyCalls_trans)

lemma onlyCalls_frame:
  assumes "onlyCalls A s t"
  shows "cells t = cells s" "sbCells t = sbCells s" "containerStore t = containerStore s"
    "sandboxStore t = sandboxStore s" "labelStore t = labelStore s" "svDisk t = svDisk s"
    "containerNameIndex t = containerNameIndex s" "sandboxNameIndex t = sandboxNameIndex s"
    "sv_config t = sv_config s" "imageStore t = imageStore s" "nextRef t = nextRef s"
    "statusOf c t = statusOf c s" "sbStatusOf sb t = sbStatusOf sb s" "netPlugin t = netPlugin s"
  using assms by (auto elim!: onlyCallsE simp: calls_frame)

end
