(* ===== verification/ContainerHandlers.thy ===== *)
theory ContainerHandlers
  imports Service
begin

section \<open>Starting, stopping and removing containers\<close>

text \<open>
  \<^verbatim>\<open>container_start.go\<close>, \<^verbatim>\<open>container_stop.go\<close>, \<^verbatim>\<open>container_remove.go\<close> and the exit handler of
  \<^verbatim>\<open>events.go\<close>. Deferred functions are \<open>onError\<close> and \<open>alwaysA\<close> around the rest of the handler, so that
  the last one deferred runs first.
\<close>

subsection \<open>Status transactions\<close>

definition setStarting :: updateFunc where
  "setStarting status =
     (if State status \<noteq> CREATED then
        Inl (Errorf ''container is in %s state'' [criContainerStateToString (State status)])
      else if st_Removing status then Inl (Errorf (''container is in removing state, can'' @ [CHR 0x27] @ ''t be started'') [])
      else if st_Starting status then Inl (Errorf ''container is already in starting state'' [])
      else Inr (status\<lparr>st_Starting := True\<rparr>))"

definition resetStarting :: updateFunc where
  "resetStarting status = Inr (status\<lparr>st_Starting := False\<rparr>)"

definition startFailed :: "64 word \<Rightarrow> goerror \<Rightarrow> updateFunc" where
  "startFailed now retErr status =
     Inr (status\<lparr>st_Pid := 0, st_FinishedAt := now, st_ExitCode := errorStartExitCode,
                st_Reason := errorStartReason, st_Message := Error retErr\<rparr>)"

definition startSucceeded :: "32 word \<Rightarrow> 64 word \<Rightarrow> updateFunc" where
  "startSucceeded pid now status = Inr (status\<lparr>st_Pid := pid, st_StartedAt := now\<rparr>)"

definition setRemoving :: updateFunc where
  "setRemoving status =
     (if State status = RUNNING then Inl (Errorf ''container is still running, to stop first'' [])
      else if State status = CONTAINER_UNKNOWN then Inl (Errorf ''container state is unknown, to stop first'' [])
      else if st_Starting status then Inl (Errorf (''container is in starting state, can'' @ [CHR 0x27] @ ''t be removed'') [])
      else if st_Removing status then Inl (Errorf ''container is already in removing state'' [])
      else Inr (status\<lparr>st_Removing := True\<rparr>))"

definition resetRemoving :: updateFunc where
  "resetRemoving status = Inr (status\<lparr>st_Removing := False\<rparr>)"

record taskExit =
  te_ContainerID :: string
  te_ID :: string
  te_Pid :: "32 word"
  te_ExitStatus :: "32 word"
  te_ExitedAt :: "64 word"

text \<open>\<^verbatim>\<open>int32(e.ExitStatus)\<close> keeps the bits of the \<^verbatim>\<open>uint32\<close>.\<close>

definition exited :: "taskExit \<Rightarrow> updateFunc" where
  "exited e status =
     (let status1 = (if st_FinishedAt status = 0 then
            status\<lparr>st_Pid := 0, st_FinishedAt := te_ExitedAt e, st_ExitCode := te_ExitStatus e\<rparr> else status);
          status2 = (if st_Unknown status1 then status1\<lparr>st_Unknown := False\<rparr> else status1)
      in Inr status2)"

definition oomKilled :: updateFunc where
  "oomKilled status = Inr (status\<lparr>st_Reason := oomExitReason\<rparr>)"

subsection \<open>Starting a container\<close>

definition setContainerStarting :: "ctr \<Rightarrow> unit handler" where
  "setContainerStarting c = statusUpdate setStarting c"

definition resetContainerStarting :: "ctr \<Rightarrow> unit handler" where
  "resetContainerStarting c = statusUpdate resetStarting c"

text \<open>The two sinks of the container's output. Only the opening of the log file can fail.\<close>

definition createContainerLoggers :: "world \<Rightarrow> string \<Rightarrow> bool \<Rightarrow> (stream_sink \<times> stream_sink) handler" where
  "createContainerLoggers w logPath tty s =
     (if logPath \<noteq> [] then
        bindA (wrapA (ext w (OpenLogFile logPath)) ''failed to create and open log file'' [])
          (\<lambda>_. let maxLen = cf_MaxContainerLogLineSize (sv_config s) in
               returnA (CRILogger logPath ''stdout'' maxLen,
                        if \<not> tty then CRILogger logPath ''stderr'' maxLen else NoSink)) s
      else (Inr (DiscardLogger, DiscardLogger), s))"

definition configTty :: "ctr \<Rightarrow> bool" where
  "configTty c = (case m_Config (c_meta c) of None \<Rightarrow> False | Some cfg \<Rightarrow> cc_Tty cfg)"

text \<open>\<^verbatim>\<open>container.NewTask\<close> calls the IO creator before it creates the task.\<close>

definition newTask :: "world \<Rightarrow> ctr \<Rightarrow> unit handler" where
  "newTask w c =
     bindA (wrapA (createContainerLoggers w (m_LogPath (c_meta c)) (configTty c)) ''failed to create container loggers'' [])
       (\<lambda>(stdoutWC, stderrWC).
          thenA (modifyA (logCall (AddOutput (c_ID c) stdoutWC stderrWC)))
         (thenA (modifyA (logCall (Pipe (c_ID c))))
                (ext w (TaskNew (c_ID c)))))"

text \<open>The part of \<^verbatim>\<open>StartContainer\<close> after the task exists, with the deferred removal of the task.\<close>

definition startTask :: "world \<Rightarrow> ctr \<Rightarrow> unit handler" where
  "startTask w c =
     onError
       (thenA (wrapA (ext w (TaskWait (c_ID c))) ''failed to wait for containerd task'' [])
       (thenA (wrapA (ext w (TaskStart (c_ID c))) ''failed to start containerd task %q'' [c_ID c])
       (thenA (wrapA (\<lambda>s. statusUpdateSync w
                 (startSucceeded (w_pid w (trace s) (c_ID c)) (w_now w (trace s))) c s)
                 ''failed to update container %q state'' [c_ID c])
              (\<lambda>s. (Inr (), logCall (StartExitMonitor (c_ID c) (w_pid w (trace s) (c_ID c))) s)))))
       (\<lambda>e. ignoreA (ext w (TaskDelete (c_ID c))))"

definition startBody :: "world \<Rightarrow> ctr \<Rightarrow> unit handler" where
  "startBody w c =
     (let sandboxID = m_SandboxID (c_meta c) in
      bindA (wrapA (sandboxGet sandboxID) ''sandbox %q not found'' [sandboxID]) (\<lambda>sandbox.
      bindA (getA (sbStatusOf sandbox)) (\<lambda>sbStatus.
      if sb_State sbStatus \<noteq> StateReady then failA (Errorf ''sandbox container %q is not running'' [sandboxID])
      else
        thenA (wrapA (ext w (CtrInfo (c_ID c))) ''failed to get container info'' [])
       (thenA (wrapA (newTask w c) ''failed to create containerd task'' [])
              (startTask w c)))))"

definition StartContainer :: "world \<Rightarrow> string \<Rightarrow> unit handler" where
  "StartContainer w r =
     bindA (wrapA (containerGet r) ''an error occurred when try to find container %q'' [r]) (\<lambda>cntr.
     thenA (wrapA (setContainerStarting cntr) ''failed to set starting state for container %q'' [c_ID cntr])
       (alwaysA
          (onError (startBody w cntr)
             (\<lambda>retErr s. ignoreA (statusUpdateSync w (startFailed (w_now w (trace s)) retErr) cntr) s))
          (ignoreA (resetContainerStarting cntr))))"

subsection \<open>Container exit\<close>

definition handleContainerExit :: "world \<Rightarrow> taskExit \<Rightarrow> ctr \<Rightarrow> unit handler" where
  "handleContainerExit w e c s =
     (let (task, s1) = ext w (CtrTask (c_ID c)) s;
          update = bindA (wrapA (statusUpdateSync w (exited e) c) ''failed to update container state'' [])
                     (\<lambda>_. modifyA (containerStop c))
      in case task of
           Inl err \<Rightarrow>
             (if \<not> IsNotFound err then (Inl (Wrapf err ''failed to load task for container'' []), s1)
              else update s1)
         | Inr _ \<Rightarrow>
             thenA (wrapA (tolerateA (ext w (TaskDelete (c_ID c))) IsNotFound) ''failed to stop container'' []) update s1)"

subsection \<open>Stopping a container\<close>

text \<open>
  \<^verbatim>\<open>select\<close> between the context and the stop channel. The other goroutines run while it blocks; it
  returns nil only if the container is stopped by then, and the error of the context otherwise.
  \<open>timeout\<close> is the timeout, in nanoseconds, that the context adds to that of the request, if any.
\<close>

definition runOthers :: "world \<Rightarrow> svc \<Rightarrow> svc" where
  "runOthers w s = (w_env w (trace s) s)\<lparr>trace := trace s\<rparr>"

definition waitContainerStop :: "world \<Rightarrow> int option \<Rightarrow> ctr \<Rightarrow> unit handler" where
  "waitContainerStop w timeout c s =
     (let s' = logCall (WaitStop (c_ID c) timeout) (runOthers w s) in
      case w_err w (trace s) (WaitStop (c_ID c) timeout) of
        Some e \<Rightarrow> (Inl (Wrapf e ''wait container %q'' [c_ID c]), s')
      | None \<Rightarrow>
          (if Stopped (cells s' (c_ref c)) then (Inr (), s')
           else (Inl (Wrapf ErrDeadlineExceeded ''wait container %q'' [c_ID c]), s')))"

definition cleanupUnknownContainer :: "world \<Rightarrow> string \<Rightarrow> ctr \<Rightarrow> unit handler" where
  "cleanupUnknownContainer w i c s =
     handleContainerExit w \<lparr>te_ContainerID = i, te_ID = i, te_Pid = 0, te_ExitStatus = unknownExitCode,
       te_ExitedAt = w_now w (trace s)\<rparr> c s"

definition SIGKILL :: int where "SIGKILL = 9"

text \<open>The signal that asks the container to stop: its own, else that of its image, else SIGTERM.\<close>

definition stopSignalOf :: "ctr \<Rightarrow> svc \<Rightarrow> string result" where
  "stopSignalOf c s =
     (if m_StopSignal (c_meta c) \<noteq> [] then Inr (m_StopSignal (c_meta c))
      else case Image_Get (imageStore s) (m_ImageRef (c_meta c)) of
        Inl e \<Rightarrow> (if e \<noteq> ErrNotExist then Inl (Wrapf e ''failed to get image %q'' [m_ImageRef (c_meta c)])
                  else Inr ''SIGTERM'')
      | Inr img \<Rightarrow>
          Inr (if ic_StopSignal (im_Spec img) \<noteq> [] then ic_StopSignal (im_Spec img) else ''SIGTERM''))"

text \<open>
  The graceful phase; it yields whether the container stopped on the first signal. If it did not,
  the request is given up when its own context is done.
\<close>

definition waitGracefully :: "world \<Rightarrow> int \<Rightarrow> ctr \<Rightarrow> bool handler" where
  "waitGracefully w timeout c s =
     (case waitContainerStop w (Some timeout) c s of
        (Inr _, s') \<Rightarrow> (Inr True, s')
      | (Inl _, s') \<Rightarrow>
          (case w_ctxErr w (trace s') of Some e \<Rightarrow> (Inl e, s') | None \<Rightarrow> (Inr False, s')))"

definition stopGracefully :: "world \<Rightarrow> ctr \<Rightarrow> int \<Rightarrow> bool handler" where
  "stopGracefully w c timeout =
     bindA (\<lambda>s. (stopSignalOf c s, s)) (\<lambda>stopSignal.
     bindA (wrapA (liftA (w_parseSignal w stopSignal)) ''failed to parse stop signal %q'' [stopSignal]) (\<lambda>sig.
     thenA (wrapA (tolerateA (ext w (TaskKill (c_ID c) sig)) IsNotFound) ''failed to stop container %q'' [c_ID c])
       (waitGracefully w timeout c)))"

definition killContainer :: "world \<Rightarrow> ctr \<Rightarrow> unit handler" where
  "killContainer w c =
     thenA (wrapA (tolerateA (ext w (TaskKill (c_ID c) SIGKILL)) IsNotFound) ''failed to kill container %q'' [c_ID c])
           (wrapA (waitContainerStop w None c) ''an error occurs during waiting for container %q to be killed'' [c_ID c])"

definition stopTask :: "world \<Rightarrow> ctr \<Rightarrow> int \<Rightarrow> unit handler" where
  "stopTask w c timeout =
     (if timeout > 0 then
        bindA (stopGracefully w c timeout) (\<lambda>stopped. if stopped then returnA () else killContainer w c)
      else killContainer w c)"

definition stopContainer :: "world \<Rightarrow> ctr \<Rightarrow> int \<Rightarrow> unit handler" where
  "stopContainer w c timeout s =
     (let state = State (statusOf c s); i = c_ID c in
      if state \<noteq> RUNNING \<and> state \<noteq> CONTAINER_UNKNOWN then (Inr (), s)
      else case ext w (CtrTask i) s of
        (Inl err, s1) \<Rightarrow>
          (if \<not> IsNotFound err then (Inl (Wrapf err ''failed to get task for container %q'' [i]), s1)
           else if state = CONTAINER_UNKNOWN then cleanupUnknownContainer w i c s1
           else (Inr (), s1))
      | (Inr _, s1) \<Rightarrow>
          (if state = CONTAINER_UNKNOWN then
             (case ext w (TaskWait i) s1 of
                (Inl err, s2) \<Rightarrow>
                  (if \<not> IsNotFound err then (Inl (Wrapf err ''failed to wait for task for %q'' [i]), s2)
                   else cleanupUnknownContainer w i c s2)
              | (Inr _, s2) \<Rightarrow>
                  alwaysA (stopTask w c timeout) (logCall (StopExitMonitor i))
                    (logCall (StartExitMonitor i (w_pid w (trace s2) i)) s2))
           else stopTask w c timeout s1))"

text \<open>\<^verbatim>\<open>time.Duration(r.GetTimeout())*time.Second\<close> is a product of 64-bit integers.\<close>

definition StopContainer :: "world \<Rightarrow> string \<Rightarrow> int \<Rightarrow> unit handler" where
  "StopContainer w r timeout =
     bindA (wrapA (containerGet r) ''an error occurred when try to find container %q'' [r])
       (\<lambda>container. stopContainer w container (mul64 timeout 1000000000))"

subsection \<open>Removing a container\<close>

definition setContainerRemoving :: "ctr \<Rightarrow> unit handler" where
  "setContainerRemoving c = statusUpdate setRemoving c"

definition resetContainerRemoving :: "ctr \<Rightarrow> unit handler" where
  "resetContainerRemoving c = statusUpdate resetRemoving c"

text \<open>Removing a directory also removes the checkpoints below it.\<close>

definition removeDir :: "world \<Rightarrow> string \<Rightarrow> unit handler" where
  "removeDir w dir =
     thenA (ext w (EnsureRemoveAll dir))
       (modifyA (\<lambda>s. s\<lparr>svDisk := (\<lambda>p. if prefix (dir @ ''/'') p then None else svDisk s p)\<rparr>))"

definition deleteCheckpoint :: "world \<Rightarrow> ctr \<Rightarrow> unit handler" where
  "deleteCheckpoint w c s =
     (let cl = cells s (c_ref c); p = ss_path (cl_status cl);
          t1 = RenameFile p # trace s;
          (r, d) = Container_Delete (w_err w (trace s) (RenameFile p)) (w_err w t1 (RemoveFile (del_path p))) cl (svDisk s)
      in (r, s\<lparr>svDisk := d, trace := (if svDisk s p \<noteq> None \<and> w_err w (trace s) (RenameFile p) \<noteq> None then t1
                                     else RemoveFile (del_path p) # t1)\<rparr>))"

definition storeDelete :: "string \<Rightarrow> svc \<Rightarrow> svc" where
  "storeDelete i s = (let (st, L) = Store_Delete i (containerStore s) (labelStore s)
     in s\<lparr>containerStore := st, labelStore := L\<rparr>)"

definition removeBody :: "world \<Rightarrow> ctr \<Rightarrow> unit handler" where
  "removeBody w c =
     (let i = c_ID c in
      thenA (wrapA (tolerateA (ext w (CtrDelete i)) IsNotFound) ''failed to delete containerd container %q'' [i])
     (thenA (wrapA (deleteCheckpoint w c) ''failed to delete container checkpoint for %q'' [i])
     (bindA (getA sv_config) (\<lambda>cfg.
      thenA (wrapA (removeDir w (getContainerRootDir cfg i))
               ''failed to remove container root directory %q'' [getContainerRootDir cfg i])
     (thenA (wrapA (removeDir w (getVolatileContainerRootDir cfg i))
               ''failed to remove volatile container root directory %q'' [getVolatileContainerRootDir cfg i])
     (thenA (modifyA (storeDelete i))
            (modifyA (\<lambda>s. s\<lparr>containerNameIndex := ReleaseByKey (containerNameIndex s) i\<rparr>))))))))"

definition RemoveContainer :: "world \<Rightarrow> string \<Rightarrow> unit handler" where
  "RemoveContainer w r s =
     (case containerGet r s of
        (Inl err, _) \<Rightarrow>
          (if err \<noteq> ErrNotExist then (Inl (Wrapf err ''an error occurred when try to find container %q'' [r]), s)
           else (Inr (), s))
      | (Inr c, _) \<Rightarrow>
          (let state = State (statusOf c s) in
           thenA (if state = RUNNING \<or> state = CONTAINER_UNKNOWN
                  then wrapA (stopContainer w c 0) ''failed to forcibly stop container %q'' [c_ID c]
                  else returnA ())
          (thenA (wrapA (setContainerRemoving c) ''failed to set removing state for container %q'' [c_ID c])
             (onError (removeBody w c) (\<lambda>_. ignoreA (resetContainerRemoving c)))) s))"

subsection \<open>What StartContainer leaves behind\<close>

text \<open>The calls of the body before the task is created, and after.\<close>

definition preTask :: "string \<Rightarrow> extcall set" where
  "preTask i = {c. c = CtrInfo i \<or> c = Pipe i \<or> (\<exists>p. c = OpenLogFile p) \<or> (\<exists>x y. c = AddOutput i x y)}"

definition postTask :: "string \<Rightarrow> extcall set" where
  "postTask i = {TaskWait i, TaskStart i} \<union> range WriteFile"

lemma createContainerLoggers_calls: "calls_only (preTask i) (createContainerLoggers w p tty)"
proof -
  have "calls_only (preTask i) (wrapA (ext w (OpenLogFile p)) f [])" for f
    by (intro call_intros) (simp add: preTask_def)
  then show ?thesis
    unfolding calls_only_def createContainerLoggers_def
    by (auto simp: bindA_def Let_def split: prod.splits sum.splits if_splits)
qed

lemma startTask_Inl:
  assumes "startTask w c s = (Inl e, t)"
  obtains s1 where "onlyCalls (postTask (c_ID c)) s s1" "t = logCall (TaskDelete (c_ID c)) s1"
proof -
  let ?i = "c_ID c"
  have "fails_clean (postTask ?i)
      (thenA (wrapA (ext w (TaskWait ?i)) ''failed to wait for containerd task'' [])
       (thenA (wrapA (ext w (TaskStart ?i)) ''failed to start containerd task %q'' [?i])
       (thenA (wrapA (\<lambda>s. statusUpdateSync w (startSucceeded (w_pid w (trace s) ?i) (w_now w (trace s))) c s)
                 ''failed to update container %q state'' [?i])
              (\<lambda>s. (Inr (), logCall (StartExitMonitor ?i (w_pid w (trace s) ?i)) s)))))"
    by (intro call_intros fails_clean_last) (auto simp: postTask_def)
  with assms show ?thesis
    by (auto simp: startTask_def onError_Inl ignoreA_def ext_def dest!: fails_cleanD intro: that)
qed

text \<open>The status of a started container and of a failed start.\<close>

definition startedStatus :: "32 word \<Rightarrow> 64 word \<Rightarrow> status \<Rightarrow> status" where
  "startedStatus pid now st = st\<lparr>st_Pid := pid, st_StartedAt := now\<rparr>"

definition failedStatus :: "64 word \<Rightarrow> goerror \<Rightarrow> status \<Rightarrow> status" where
  "failedStatus now e st = st\<lparr>st_Pid := 0, st_FinishedAt := now, st_ExitCode := 128,
     st_Reason := ''StartError'', st_Message := Error e\<rparr>"

lemma status_reset:
  "(failedStatus now e (x\<lparr>st_Starting := b\<rparr>))\<lparr>st_Starting := b'\<rparr> = failedStatus now e (x\<lparr>st_Starting := b'\<rparr>)"
  "(startedStatus pid now (x\<lparr>st_Starting := b\<rparr>))\<lparr>st_Starting := b'\<rparr> = startedStatus pid now (x\<lparr>st_Starting := b'\<rparr>)"
  by (simp_all add: failedStatus_def startedStatus_def)

definition started :: "ctr \<Rightarrow> svc \<Rightarrow> svc \<Rightarrow> bool" where
  "started c s t \<longleftrightarrow> (\<exists>pid now mon s1. onlyCalls (postTask (c_ID c)) s s1 \<and>
     t = logCall (StartExitMonitor (c_ID c) mon) (writeStatus c (startedStatus pid now (statusOf c s)) s1))"

lemma startTask_Inr:
  assumes "startTask w c s = (Inr u, t)"
  shows "started c s t"
proof -
  let ?s1 = "logCall (TaskStart (c_ID c)) (logCall (TaskWait (c_ID c)) s)"
  have o: "onlyCalls (postTask (c_ID c)) s ?s1" by (auto simp: postTask_def)
  have "\<exists>pid now mon. t = logCall (StartExitMonitor (c_ID c) mon)
      (writeStatus c (startedStatus pid now (statusOf c s)) ?s1)"
    using assms by (auto simp: startTask_def act_simps startSucceeded_def startedStatus_def)
  with o show ?thesis unfolding started_def by blast
qed

text \<open>
  How the body of \<^verbatim>\<open>StartContainer\<close> ends: without a task, with the task deleted again, or with the
  started status written and the exit monitor running.
\<close>

definition gaveUp :: "ctr \<Rightarrow> svc \<Rightarrow> svc \<Rightarrow> bool" where
  "gaveUp c s t \<longleftrightarrow> (\<exists>s1 s2. onlyCalls (preTask (c_ID c)) s s1 \<and>
     onlyCalls (postTask (c_ID c)) (logCall (TaskNew (c_ID c)) s1) s2 \<and> t = logCall (TaskDelete (c_ID c)) s2)"

lemma newTask_cases:
  assumes "newTask w c s = (r, t)"
  shows "(\<exists>e. r = Inl e \<and> onlyCalls (preTask (c_ID c)) s t) \<or>
    (\<exists>s1. onlyCalls (preTask (c_ID c)) s s1 \<and> ext w (TaskNew (c_ID c)) s1 = (r, t))"
proof -
  let ?mk = "wrapA (createContainerLoggers w (m_LogPath (c_meta c)) (configTty c)) ''failed to create container loggers'' []"
  obtain r1 s1 where mk: "?mk s = (r1, s1)" by fastforce
  have o: "onlyCalls (preTask (c_ID c)) s s1"
    using calls_onlyD [OF calls_only_wrap [OF createContainerLoggers_calls] mk] .
  show ?thesis
  proof (cases r1)
    case (Inl e)
    then show ?thesis using assms mk o by (auto simp: newTask_def bindA_def)
  next
    case (Inr x)
    obtain out err where x: "x = (out, err)" by fastforce
    have "onlyCalls (preTask (c_ID c)) s (logCall (Pipe (c_ID c)) (logCall (AddOutput (c_ID c) out err) s1))"
      using o by (intro onlyCalls_logCall) (assumption, simp_all add: preTask_def)
    moreover have "ext w (TaskNew (c_ID c)) (logCall (Pipe (c_ID c)) (logCall (AddOutput (c_ID c) out err) s1)) = (r, t)"
      using assms mk Inr x by (simp add: newTask_def bindA_def thenA_def)
    ultimately show ?thesis by blast
  qed
qed

lemma startBody_cases:
  assumes "startBody w c s = (r, t)"
  shows "(\<exists>e. r = Inl e \<and> onlyCalls (preTask (c_ID c)) s t) \<or>
    (\<exists>e err s1. r = Inl e \<and> onlyCalls (preTask (c_ID c)) s s1 \<and>
       w_err w (trace s1) (TaskNew (c_ID c)) = Some err \<and> t = logCall (TaskNew (c_ID c)) s1) \<or>
    (\<exists>e. r = Inl e \<and> gaveUp c s t) \<or>
    (r = Inr () \<and> (\<exists>s1. onlyCalls (preTask (c_ID c)) s s1 \<and> started c (logCall (TaskNew (c_ID c)) s1) t))"
proof -
  let ?i = "c_ID c"
  let ?P = "preTask ?i" and ?s0 = "logCall (CtrInfo ?i) s"
  have s0: "onlyCalls ?P s ?s0" by (intro onlyCalls_logCall) (auto simp: preTask_def)
  have "(\<exists>e. r = Inl e \<and> onlyCalls ?P s t) \<or>
      thenA (wrapA (newTask w c) ''failed to create containerd task'' []) (startTask w c) ?s0 = (r, t)"
    using assms s0
    by (auto simp: startBody_def Let_def bindA_def thenA_def wrapA_def sandboxGet_def ext_def
        split: sum.splits prod.splits if_splits option.splits)
  then show ?thesis
  proof
    assume n: "thenA (wrapA (newTask w c) ''failed to create containerd task'' []) (startTask w c) ?s0 = (r, t)"
    obtain r1 s1 where nt: "newTask w c ?s0 = (r1, s1)" by fastforce
    from newTask_cases [OF nt] show ?thesis
    proof (elim disjE exE conjE)
      fix e assume "r1 = Inl e" "onlyCalls ?P ?s0 s1"
      then show ?thesis using n nt onlyCalls_trans [OF s0]
        by (auto simp: thenA_def bindA_def wrapA_def)
    next
      fix s2 assume o: "onlyCalls ?P ?s0 s2" and x: "ext w (TaskNew ?i) s2 = (r1, s1)"
      then have s1: "s1 = logCall (TaskNew ?i) s2" and o': "onlyCalls ?P s s2"
        using onlyCalls_trans [OF s0] by (auto simp: ext_def)
      show ?thesis
      proof (cases r1)
        case (Inl e)
        then have "w_err w (trace s2) (TaskNew ?i) = Some e" using x by (auto simp: ext_def split: option.splits)
        then show ?thesis using n nt s1 o' Inl by (auto simp: thenA_def bindA_def wrapA_def)
      next
        case (Inr u)
        then have st: "startTask w c s1 = (r, t)" using n nt by (simp add: thenA_def bindA_def wrapA_def)
        then show ?thesis
          using startTask_Inr [of w c s1] startTask_Inl [of w c s1] o' s1
          by (cases r) (fastforce simp: gaveUp_def)+
      qed
    qed
  qed blast
qed

lemma StartContainer_unfold:
  assumes "Store_Get (containerStore s) r = Inr c" "setStarting (statusOf c s) = Inr st"
    and "startBody w c (setStatus c st s) = (r1, s1)"
  shows "StartContainer w r s =
    (r1, ignoreA (resetContainerStarting c)
           (case r1 of Inr _ \<Rightarrow> s1
            | Inl e \<Rightarrow> ignoreA (statusUpdateSync w (startFailed (w_now w (trace s1)) e) c) s1))"
proof -
  have "setContainerStarting c s = (Inr (), setStatus c st s)"
    using assms(2) by (simp add: setContainerStarting_def statusUpdate_Inr)
  then show ?thesis using assms(1,3)
    by (auto simp: StartContainer_def bindA_def thenA_def wrapA_def containerGet_def alwaysA_def onError_def
        split: sum.splits)
qed

lemma setStarting_Inr: "setStarting x = Inr y \<longleftrightarrow>
    State x = CREATED \<and> \<not> st_Removing x \<and> \<not> st_Starting x \<and> y = x\<lparr>st_Starting := True\<rparr>"
  by (auto simp: setStarting_def)

lemma reset_eq: "ignoreA (resetContainerStarting c) s = setStatus c ((statusOf c s)\<lparr>st_Starting := False\<rparr>) s"
proof -
  have "resetContainerStarting c s = (Inr (), setStatus c ((statusOf c s)\<lparr>st_Starting := False\<rparr>) s)"
    by (simp add: resetContainerStarting_def statusUpdate_Inr resetStarting_def)
  then show ?thesis by (simp add: ignoreA_def)
qed

lemma startFailed_cases:
  "ignoreA (statusUpdateSync w (startFailed now e) c) s =
     (case w_err w (trace s) (WriteFile (ss_path (cl_status (cells s (c_ref c))))) of
        None \<Rightarrow> writeStatus c (failedStatus now e (statusOf c s)) s
      | Some _ \<Rightarrow> logCall (WriteFile (ss_path (cl_status (cells s (c_ref c))))) s)"
proof -
  have "startFailed now e (statusOf c s) = Inr (failedStatus now e (statusOf c s))"
    by (simp add: startFailed_def failedStatus_def errorStartExitCode_def errorStartReason_def)
  then show ?thesis
    by (auto simp: ignoreA_def statusUpdateSync_def UpdateSync_def statusOf_def StorageGet_def writeStatus_def
        setStatus_def logCall_def Let_def split: option.splits prod.splits)
qed

text \<open>\<open>sameButCell c s t\<close>: only the status of \<open>c\<close> (memory and disk) and the trace differ.\<close>

definition sameButCell :: "ctr \<Rightarrow> svc \<Rightarrow> svc \<Rightarrow> bool" where
  "sameButCell c s t \<longleftrightarrow>
     containerStore t = containerStore s \<and> sandboxStore t = sandboxStore s \<and> labelStore t = labelStore s \<and>
     containerNameIndex t = containerNameIndex s \<and> sandboxNameIndex t = sandboxNameIndex s \<and>
     sbCells t = sbCells s \<and> (\<forall>ref. ref \<noteq> c_ref c \<longrightarrow> cells t ref = cells s ref)"

lemma sameButCell_simps [simp]:
  "sameButCell c s s" "sameButCell c s (setStatus c x t) \<longleftrightarrow> sameButCell c s t"
  "sameButCell c s (writeStatus c x t) \<longleftrightarrow> sameButCell c s t"
  "sameButCell c s (logCall y t) \<longleftrightarrow> sameButCell c s t"
  by (auto simp: sameButCell_def writeStatus_def setStatus_def Let_def)

lemma sameButCell_onlyCalls: "onlyCalls A t u \<Longrightarrow> sameButCell c s t \<Longrightarrow> sameButCell c s u"
  by (simp add: sameButCell_def onlyCalls_frame)

lemma startBody_frame:
  assumes "startBody w c s1 = (r, t)"
  shows "sameButCell c s s1 \<Longrightarrow> sameButCell c s t" "r = Inl e \<Longrightarrow> statusOf c t = statusOf c s1"
    "r = Inr () \<Longrightarrow> \<exists>pid now. statusOf c t = startedStatus pid now (statusOf c s1)"
proof -
  note cases = startBody_cases [OF assms]
  show "sameButCell c s t" if "sameButCell c s s1"
    using cases that by (auto simp: gaveUp_def started_def) (meson sameButCell_onlyCalls sameButCell_simps(4))+
  show "statusOf c t = statusOf c s1" if "r = Inl e"
    using cases that by (auto simp: gaveUp_def onlyCalls_frame)
  show "\<exists>pid now. statusOf c t = startedStatus pid now (statusOf c s1)" if "r = Inr ()"
    using cases that by (auto simp: started_def onlyCalls_frame) blast
qed

text \<open>
  What \<^verbatim>\<open>StartContainer\<close> does to the container's status. If the container is not in CREATED state,
  or is being started or removed, the request is refused and nothing changes. Otherwise the
  container ends up either started (pid and start time set) or failed (EXITED record: pid 0, finish
  time, exit code 128, reason StartError, the error as message), or, if even the checkpoint of the
  failure cannot be written, as it was before; in every case the starting flag is clear again, and no
  other container, sandbox, store or name is touched.
\<close>

lemma StartContainer_status:
  assumes "Store_Get (containerStore s) r = Inr c" "StartContainer w r s = (res, s')"
  shows "(\<forall>e. setStarting (statusOf c s) = Inl e \<longrightarrow>
            res = Inl (Wrapf e ''failed to set starting state for container %q'' [c_ID c]) \<and> s' = s) \<and>
    (State (statusOf c s) = CREATED \<and> \<not> st_Removing (statusOf c s) \<and> \<not> st_Starting (statusOf c s) \<longrightarrow>
       sameButCell c s s' \<and>
       (res = Inr () \<longrightarrow> (\<exists>pid now. statusOf c s' = startedStatus pid now (statusOf c s))) \<and>
       (\<forall>e. res = Inl e \<longrightarrow>
          (\<exists>now. statusOf c s' = failedStatus now e (statusOf c s)) \<or>
          (statusOf c s' = statusOf c s \<and> (\<exists>tr p err. w_err w tr (WriteFile p) = Some err))))"
proof (intro conjI impI allI)
  fix e assume "setStarting (statusOf c s) = Inl e"
  then have "setContainerStarting c s = (Inl e, s)"
    by (simp add: setContainerStarting_def statusUpdate_Inl)
  with assms show "res = Inl (Wrapf e ''failed to set starting state for container %q'' [c_ID c])" "s' = s"
    by (simp_all add: StartContainer_def bindA_def thenA_def wrapA_def containerGet_def)
next
  let ?st = "(statusOf c s)\<lparr>st_Starting := True\<rparr>"
  assume g: "State (statusOf c s) = CREATED \<and> \<not> st_Removing (statusOf c s) \<and> \<not> st_Starting (statusOf c s)"
  then have st: "setStarting (statusOf c s) = Inr ?st" by (simp add: setStarting_Inr)
  have undo: "(statusOf c s)\<lparr>st_Starting := False\<rparr> = statusOf c s" using g by simp
  obtain r1 s1 where b: "startBody w c (setStatus c ?st s) = (r1, s1)" by fastforce
  note u = StartContainer_unfold [OF assms(1) st b, unfolded assms(2) reset_eq]
  show "sameButCell c s s'"
    using u startBody_frame(1) [OF b, of s] by (auto simp: startFailed_cases split: sum.splits option.splits)
  show "\<exists>pid now. statusOf c s' = startedStatus pid now (statusOf c s)" if "res = Inr ()"
  proof -
    have r1: "r1 = Inr ()" using u that by simp
    obtain pid now where x: "statusOf c s1 = startedStatus pid now ?st"
      using startBody_frame(3) [OF b r1] by auto
    then have "statusOf c s' = (startedStatus pid now ?st)\<lparr>st_Starting := False\<rparr>" using u r1 by simp
    then show ?thesis unfolding status_reset undo by blast
  qed
  show "(\<exists>now. statusOf c s' = failedStatus now e (statusOf c s)) \<or>
      (statusOf c s' = statusOf c s \<and> (\<exists>tr p err. w_err w tr (WriteFile p) = Some err))" if "res = Inl e" for e
  proof -
    have r1: "r1 = Inl e" and x: "statusOf c s1 = ?st" using u that startBody_frame(2) [OF b, of e] by auto
    let ?p = "ss_path (cl_status (cells s1 (c_ref c)))"
    show ?thesis
    proof (cases "w_err w (trace s1) (WriteFile ?p)")
      case None
      then have "statusOf c s' = (failedStatus (w_now w (trace s1)) e ?st)\<lparr>st_Starting := False\<rparr>"
        using u r1 x by (simp add: startFailed_cases)
      then show ?thesis by (auto simp: status_reset undo)
    next
      case (Some err)
      then have "statusOf c s' = ?st\<lparr>st_Starting := False\<rparr>"
        using u r1 x by (simp add: startFailed_cases)
      then show ?thesis using Some undo by auto
    qed
  qed
qed


subsection \<open>A small service to run the handlers on\<close>

definition example_world :: world where
  "example_world = \<lparr>w_err = (\<lambda>_ _. None), w_now = (\<lambda>tr. 100 + word_of_nat (length tr)), w_pid = (\<lambda>_ _. 42),
     w_createdAt = (\<lambda>_ _. 7), w_ctxErr = (\<lambda>_. None), w_env = (\<lambda>_ s. s), w_parseSignal = (\<lambda>_. Inr 15),
     w_genID = (\<lambda>_. ''new1''), w_image = (\<lambda>_ _. Inl ErrNotExist), w_oldImage = (\<lambda>_ _. ([], Map.empty)),
     w_schema1 = (\<lambda>_. False), w_parseRef = (\<lambda>r. Inr \<lparr>nr_String = r, nr_Name = r, nr_Tagged = True, nr_Canonical = False\<rparr>),
     w_chainID = concat, w_iter = (\<lambda>x. x), w_netnsPath = (\<lambda>_. ''/ns''), w_netnsClosed = (\<lambda>_ _. True),
     w_cni = (\<lambda>_. \<lparr>cni_Interfaces = Map.empty\<rparr>), w_processLabel = (\<lambda>_. []), w_parseQuantity = (\<lambda>_. Inr 5000),
     w_hostname = (\<lambda>_. ''host''), w_followed = (\<lambda>_ p. p), w_containers = (\<lambda>_ _. []), w_ctrMeta = (\<lambda>_ _. None),
     w_sbMeta = (\<lambda>_ _. None), w_taskStatus = (\<lambda>_ _. \<lparr>ts_Status = Task_Running, ts_ExitStatus = 0, ts_ExitTime = 0\<rparr>),
     w_images = (\<lambda>_. []), w_imageOk = (\<lambda>_ _. True), w_dirs = (\<lambda>_ _. []),
     w_spec = (\<lambda>_ _. defaultSpec ''c1''), w_os = example_os\<rparr>"

text \<open>One ready sandbox with one container in it, in the given status.\<close>

definition example_ctr :: ctr where
  "example_ctr = \<lparr>c_meta = zero_metadata\<lparr>m_ID := ''c1'', m_Name := ''n1'', m_SandboxID := ''sb1''\<rparr>,
     c_ref = 0, c_Container = Some ''c1'', c_IO = Some ''c1''\<rparr>"

definition example_sbx :: sbx where
  "example_sbx = \<lparr>sb_meta = zero_sb_metadata\<lparr>sm_ID := ''sb1'', sm_Name := ''p1''\<rparr>, sb_ref = 0,
     sb_Container = Some ''sb1'', sb_NetNS = None\<rparr>"

definition example_config :: criConfig where
  "example_config = \<lparr>cf_RootDir = ''/r'', cf_StateDir = ''/s'', cf_MaxContainerLogLineSize = 16384,
     cf_SandboxImage = ''pause'', cf_DefaultRuntimeName = ''runc'', cf_Runtimes = Map.empty,
     cf_IgnoreImageDefinedVolumes = False, cf_DisableCgroup = False, cf_DisableApparmor = False, cf_RestrictOOMScoreAdj = False,
     cf_DisableProcMount = False, cf_UnsetSeccompProfile = [], cf_TolerateMissingHugetlbController = False, cf_DisableHugetlbController = False\<rparr>"

definition example_svc :: "status \<Rightarrow> svc" where
  "example_svc st = \<lparr>sv_config = example_config,
     sandboxNameIndex = NewRegistrar,
     containerNameIndex = \<lparr>nameToKey = [''n1'' \<mapsto> ''c1''], keyToName = [''c1'' \<mapsto> ''n1'']\<rparr>,
     sandboxStore = \<lparr>ss_sandboxes = [''sb1'' \<mapsto> example_sbx], ss_idIndex = \<lparr>ti_ids = {''sb1''}, ti_trie = [''sb1'']\<rparr>\<rparr>,
     containerStore = \<lparr>cs_containers = [''c1'' \<mapsto> example_ctr], cs_idIndex = \<lparr>ti_ids = {''c1''}, ti_trie = [''c1'']\<rparr>\<rparr>,
     labelStore = NewLabelStore, imageStore = Image_NewStore, netPlugin = True,
     cells = (\<lambda>_. \<lparr>cl_status = \<lparr>ss_path = ''/r/containers/c1/status'', ss_status = st\<rparr>, cl_stopped = False\<rparr>),
     sbCells = (\<lambda>_. \<lparr>sc_status = \<lparr>sbs_status = \<lparr>sb_Pid = 5, sb_CreatedAt = 1, sb_State = StateReady\<rparr>\<rparr>, sc_stopped = False\<rparr>),
     nextRef = 1, svDisk = [''/r/containers/c1/status'' \<mapsto> encode st], trace = []\<rparr>"

definition created_status :: status where
  "created_status = zero_status\<lparr>st_CreatedAt := 1\<rparr>"

lemma example_get [simp]: "Store_Get (containerStore (example_svc st)) ''c1'' = Inr example_ctr"
  by (simp add: example_svc_def Store_Get_def TruncIndex_Get_def)

lemma example_status [simp]: "statusOf example_ctr (example_svc st) = st"
  by (simp add: statusOf_def StorageGet_def example_svc_def)

lemma created_status_simps [simp]:
  "State created_status = CREATED" "\<not> st_Removing created_status" "\<not> st_Starting created_status"
  by (simp_all add: created_status_def zero_status_def State_def)

subsection \<open>A failed start leaves no task behind\<close>

text \<open>
  \<open>leaksTask w i new old\<close>: among the calls \<open>new\<close> made after \<open>old\<close> a task was created successfully that
  no later call deletes.
\<close>

definition leaksTask :: "world \<Rightarrow> string \<Rightarrow> extcall list \<Rightarrow> extcall list \<Rightarrow> bool" where
  "leaksTask w i new old \<longleftrightarrow> (\<exists>later earlier. new = later @ TaskNew i # earlier \<and>
     w_err w (earlier @ old) (TaskNew i) = None \<and> TaskDelete i \<notin> set later)"

lemma leaksTask_append:
  assumes "TaskNew i \<notin> set xs" "leaksTask w i (xs @ ys) old"
  shows "leaksTask w i ys old"
proof -
  obtain l e where le: "xs @ ys = l @ TaskNew i # e" "w_err w (e @ old) (TaskNew i) = None" "TaskDelete i \<notin> set l"
    using assms(2) by (auto simp: leaksTask_def)
  then obtain zs where "l = xs @ zs" "ys = zs @ TaskNew i # e"
    using assms(1) by (force simp: append_eq_append_conv2 append_eq_Cons_conv)
  then show ?thesis using le by (auto simp: leaksTask_def)
qed

lemma not_leaks:
  "TaskNew i \<notin> set new \<Longrightarrow> \<not> leaksTask w i new old"
  "w_err w (pre @ old) (TaskNew i) = Some err \<Longrightarrow> TaskNew i \<notin> set pre \<Longrightarrow> \<not> leaksTask w i (TaskNew i # pre) old"
  "\<not> leaksTask w i (TaskDelete i # new) old"
  by (auto simp: leaksTask_def Cons_eq_append_conv append_eq_Cons_conv)

lemma TaskNew_notin: "TaskNew i \<notin> preTask i" "TaskNew i \<notin> postTask i"
  by (auto simp: preTask_def postTask_def)

lemma startBody_no_leak:
  assumes "startBody w c s = (Inl e, t)"
  shows "\<exists>new. trace t = new @ trace s \<and> \<not> leaksTask w (c_ID c) new (trace s)"
  using startBody_cases [OF assms]
proof (elim disjE exE conjE)
  assume "onlyCalls (preTask (c_ID c)) s t"
  then show ?thesis using TaskNew_notin(1) by (auto elim!: onlyCallsE simp: calls_trace intro!: not_leaks(1))
next
  fix err s1 assume o: "onlyCalls (preTask (c_ID c)) s s1"
    and err: "w_err w (trace s1) (TaskNew (c_ID c)) = Some err" and t: "t = logCall (TaskNew (c_ID c)) s1"
  from o obtain pre where "trace s1 = pre @ trace s" "TaskNew (c_ID c) \<notin> set pre"
    using TaskNew_notin(1) [of "c_ID c"] by (auto elim!: onlyCallsE dest: calls_trace)
  then show ?thesis using err t not_leaks(2) [of w pre "trace s"]
    by (intro exI [of _ "TaskNew (c_ID c) # pre"]) auto
next
  assume "gaveUp c s t"
  then obtain s1 s2 where "onlyCalls (preTask (c_ID c)) s s1"
    "onlyCalls (postTask (c_ID c)) (logCall (TaskNew (c_ID c)) s1) s2" "t = logCall (TaskDelete (c_ID c)) s2"
    by (auto simp: gaveUp_def)
  then obtain p q where "trace t = TaskDelete (c_ID c) # (q @ TaskNew (c_ID c) # p) @ trace s"
    by (auto elim!: onlyCallsE simp: calls_trace)
  then show ?thesis using not_leaks(3)
    by (intro exI [of _ "TaskDelete (c_ID c) # q @ TaskNew (c_ID c) # p"]) simp
qed simp

text \<open>
  A failed start leaves no task behind. Whatever containerd, the file system and the clock
  answer, if \<^verbatim>\<open>StartContainer\<close> returns an error then every task it managed to create was deleted
  again by a later call.
\<close>

lemma StartContainer_no_task_leak:
  assumes "Store_Get (containerStore s) r = Inr c" "StartContainer w r s = (Inl e, s')"
  shows "\<exists>new. trace s' = new @ trace s \<and> \<not> leaksTask w (c_ID c) new (trace s)"
proof (cases "setStarting (statusOf c s)")
  case (Inl e')
  then have "setContainerStarting c s = (Inl e', s)" by (simp add: setContainerStarting_def statusUpdate_Inl)
  then have "s' = s" using assms by (simp add: StartContainer_def bindA_def thenA_def wrapA_def containerGet_def)
  then show ?thesis using not_leaks(1) [of "c_ID c" "[]"] by simp
next
  case (Inr st)
  obtain r1 s1 where b: "startBody w c (setStatus c st s) = (r1, s1)" by fastforce
  note u = StartContainer_unfold [OF assms(1) Inr b, unfolded assms(2) reset_eq]
  then have r1: "r1 = Inl e" by simp
  from startBody_no_leak [OF b [unfolded r1]]
  obtain new where new: "trace s1 = new @ trace s" "\<not> leaksTask w (c_ID c) new (trace s)" by auto
  have "trace s' = WriteFile (ss_path (cl_status (cells s1 (c_ref c)))) # trace s1"
    using u by (auto simp: r1 startFailed_cases split: option.splits)
  with new leaksTask_append [of "c_ID c" "[WriteFile (ss_path (cl_status (cells s1 (c_ref c))))]" w new]
  show ?thesis by auto
qed

definition failing_world :: world where
  "failing_world = example_world\<lparr>w_err := (\<lambda>_ c. case c of TaskStart i \<Rightarrow> Some ErrNotExist | _ \<Rightarrow> None)\<rparr>"



end
