(* ===== verification/StopRemove.thy ===== *)
theory StopRemove
  imports ContainerHandlers
begin

section \<open>Exit, stop and removal of containers\<close>

text \<open>
  What the handlers of \<^verbatim>\<open>ContainerHandlers\<close> guarantee when a container exits, is stopped or removed.
\<close>

subsection \<open>Exit events\<close>

definition exitedStatus :: "taskExit \<Rightarrow> status \<Rightarrow> status" where
  "exitedStatus e st = (if st_FinishedAt st = 0
     then st\<lparr>st_Pid := 0, st_FinishedAt := te_ExitedAt e, st_ExitCode := te_ExitStatus e, st_Unknown := False\<rparr>
     else st\<lparr>st_Unknown := False\<rparr>)"

lemma exited_eq: "exited e st = Inr (exitedStatus e st)"
  by (simp add: exited_def exitedStatus_def Let_def)

definition exitCalls :: "string \<Rightarrow> extcall set" where
  "exitCalls i = {CtrTask i, TaskDelete i} \<union> range WriteFile"

lemma exit_update_cases:
  assumes "bindA (wrapA (statusUpdateSync w (exited e) c) f []) (\<lambda>_. modifyA (containerStop c)) s = (r, t)"
  shows "(r = Inr () \<and> t = containerStop c (writeStatus c (exitedStatus e (statusOf c s)) s)) \<or>
    (\<exists>err. r = Inl err \<and> onlyCalls (range WriteFile) s t)"
proof (cases r)
  case (Inl err)
  have "fails_clean (range WriteFile) (wrapA (statusUpdateSync w (exited e) c) f [])"
    by (rule fails_clean_wrap) (rule fails_clean_updateSync [of _ _ "\<lambda>_. exited e"], simp)
  then show ?thesis using assms Inl by (auto simp: bindA_Inl dest: fails_cleanD)
next
  case (Inr u)
  then show ?thesis using assms by (auto simp: act_simps exited_eq)
qed

lemma handleContainerExit_cases:
  assumes "handleContainerExit w e c s = (r, t)"
  shows "(r = Inr () \<and> (\<exists>s1. onlyCalls (exitCalls (c_ID c)) s s1 \<and>
             t = containerStop c (writeStatus c (exitedStatus e (statusOf c s)) s1))) \<or>
    (\<exists>err. r = Inl err \<and> onlyCalls (exitCalls (c_ID c)) s t)"
proof -
  let ?i = "c_ID c" and ?A = "exitCalls (c_ID c)"
  let ?upd = "bindA (wrapA (statusUpdateSync w (exited e) c) ''failed to update container state'' [])
    (\<lambda>_. modifyA (containerStop c))"
  let ?del = "wrapA (tolerateA (ext w (TaskDelete ?i)) IsNotFound) ''failed to stop container'' []"
  have del: "calls_only ?A ?del" by (intro call_intros) (simp add: exitCalls_def)
  have mono: "onlyCalls ?A a b" if "onlyCalls (range WriteFile) a b" for a b
    using that by (auto simp: onlyCalls_def exitCalls_def)
  have s1: "onlyCalls ?A s (logCall (CtrTask ?i) s)" by (intro onlyCalls_logCall) (simp_all add: exitCalls_def)
  have upd: ?thesis if "?upd s1 = (r, t)" "onlyCalls ?A s s1" for s1
    using exit_update_cases [OF that(1)] mono that(2)
    by (auto simp: onlyCalls_frame(12) [OF that(2)] intro: onlyCalls_trans)
  consider err where "r = Inl err" "onlyCalls ?A s t" | s1 where "?upd s1 = (r, t)" "onlyCalls ?A s s1"
  proof (cases "w_err w (trace s) (CtrTask ?i)")
    case (Some err)
    then show ?thesis using assms s1 that
      by (auto simp: handleContainerExit_def ext_def Let_def split: if_splits)
  next
    case None
    then have "thenA ?del ?upd (logCall (CtrTask ?i) s) = (r, t)"
      using assms by (simp add: handleContainerExit_def ext_def Let_def)
    moreover obtain r1 s2 where d: "?del (logCall (CtrTask ?i) s) = (r1, s2)" by fastforce
    ultimately show ?thesis
      using that onlyCalls_trans [OF s1 calls_onlyD [OF del d]]
      by (cases r1) (auto simp: thenA_def bindA_def)
  qed
  then show ?thesis using upd by cases blast+
qed

text \<open>
  C15: the exit of a container is recorded exactly once. If \<^verbatim>\<open>handleContainerExit\<close> succeeds, the stop
  channel is closed, the unknown flag is clear and the status is EXITED; the exit code, finish time
  and pid are those of the event if the container had not finished before, and are left alone
  otherwise, so that the first exit wins. If it fails, nothing has changed, so the event can be
  handled again.
\<close>

theorem handleContainerExit_correct:
  assumes "handleContainerExit w e c s = (r, t)" "te_ExitedAt e \<noteq> 0"
  shows "sameButCell c s t \<and>
    (r = Inr () \<longrightarrow> Stopped (cells t (c_ref c)) \<and> State (statusOf c t) = EXITED \<and>
       statusOf c t = (if st_FinishedAt (statusOf c s) = 0
         then (statusOf c s)\<lparr>st_Pid := 0, st_FinishedAt := te_ExitedAt e, st_ExitCode := te_ExitStatus e, st_Unknown := False\<rparr>
         else (statusOf c s)\<lparr>st_Unknown := False\<rparr>)) \<and>
    (\<forall>err. r = Inl err \<longrightarrow> cells t = cells s \<and> svDisk t = svDisk s)"
  using handleContainerExit_cases [OF assms(1)]
proof (elim disjE conjE exE)
  fix s1 assume o: "onlyCalls (exitCalls (c_ID c)) s s1" and r: "r = Inr ()"
    and t: "t = containerStop c (writeStatus c (exitedStatus e (statusOf c s)) s1)"
  have "sameButCell c s (writeStatus c (exitedStatus e (statusOf c s)) s1)"
    using sameButCell_onlyCalls [OF o, of c s] by simp
  then have "sameButCell c s t" unfolding t containerStop_def sameButCell_def by simp
  moreover have "statusOf c t = exitedStatus e (statusOf c s)"
    using statusOf_writeStatus [of c "exitedStatus e (statusOf c s)" s1]
    by (simp add: t containerStop_def statusOf_def Stop_def)
  moreover have "Stopped (cells t (c_ref c))" by (simp add: t containerStop_def Stopped_def Stop_def)
  moreover have "State (exitedStatus e (statusOf c s)) = EXITED" using assms(2) by (simp add: exitedStatus_def State_def)
  ultimately show ?thesis using r by (simp add: exitedStatus_def)
next
  fix err assume "r = Inl err" "onlyCalls (exitCalls (c_ID c)) s t"
  then show ?thesis using sameButCell_onlyCalls [of _ s t c s] by (simp add: onlyCalls_frame)
qed

definition example_exit :: taskExit where
  "example_exit = \<lparr>te_ContainerID = ''c1'', te_ID = ''c1'', te_Pid = 42, te_ExitStatus = 137, te_ExitedAt = 9\<rparr>"

definition running_status :: status where
  "running_status = zero_status\<lparr>st_CreatedAt := 1, st_StartedAt := 2, st_Pid := 42\<rparr>"

theorem handleContainerExit_correct_witness:
  "State (statusOf example_ctr (snd (handleContainerExit example_world example_exit example_ctr (example_svc running_status)))) = EXITED"
proof -
  have "fst (handleContainerExit example_world example_exit example_ctr (example_svc running_status)) = Inr ()"
    by code_simp
  moreover have "te_ExitedAt example_exit \<noteq> 0" by (simp add: example_exit_def)
  ultimately show ?thesis
    using handleContainerExit_correct [of example_world example_exit example_ctr "example_svc running_status",
        OF prod.collapse [symmetric]] by blast
qed

subsection \<open>Stopping\<close>

lemma waitContainerStop_Inr:
  "waitContainerStop w d c s = (Inr u, t) \<Longrightarrow> Stopped (cells t (c_ref c)) \<and> trace t = WaitStop (c_ID c) d # trace s"
  by (auto simp: waitContainerStop_def runOthers_def Let_def split: option.splits if_splits)

lemma waitContainerStop_trace:
  "waitContainerStop w d c s = (r, t) \<Longrightarrow> trace t = WaitStop (c_ID c) d # trace s"
  by (auto simp: waitContainerStop_def runOthers_def Let_def split: option.splits if_splits)

text \<open>The signals of a trace, oldest first.\<close>

definition signals :: "extcall list \<Rightarrow> int list" where
  "signals tr = rev (List.map_filter (\<lambda>c. case c of TaskKill i sig \<Rightarrow> Some sig | _ \<Rightarrow> None) tr)"

lemma signals_simps [simp]:
  "signals [] = []" "signals (TaskKill i sig # tr) = signals tr @ [sig]"
  "signals (WaitStop i d # tr) = signals tr" "signals (CtrTask i # tr) = signals tr"
  "signals (TaskWait i # tr) = signals tr"
  "signals (StartExitMonitor i p # tr) = signals tr" "signals (StopExitMonitor i # tr) = signals tr"
  by (simp_all add: signals_def List.map_filter_simps)

lemma killContainer_cases:
  assumes "killContainer w c s = (r, t)"
  shows "signals (trace t) = signals (trace s) @ [SIGKILL] \<and> (r = Inr () \<longrightarrow> Stopped (cells t (c_ref c)))"
proof (cases r)
  case (Inl e)
  then show ?thesis using assms
    by (auto simp: killContainer_def act_simps dest!: waitContainerStop_trace)
next
  case (Inr u)
  then show ?thesis using assms
    by (auto simp: killContainer_def act_simps dest!: waitContainerStop_Inr)
qed

lemma waitGracefully_cases:
  assumes "waitGracefully w timeout c s = (r, t)"
  shows "trace t = WaitStop (c_ID c) (Some timeout) # trace s \<and> (r = Inr True \<longrightarrow> Stopped (cells t (c_ref c)))"
proof -
  obtain r1 t1 where x: "waitContainerStop w (Some timeout) c s = (r1, t1)" by fastforce
  show ?thesis
    using assms x waitContainerStop_trace [OF x] waitContainerStop_Inr [of w "Some timeout" c s "()" t1]
    by (cases r1) (auto simp: waitGracefully_def split: option.splits)
qed

lemma stopGracefully_cases:
  assumes "stopGracefully w c timeout s = (r, t)"
  shows "(\<exists>e. r = Inl e \<and> signals (trace t) = signals (trace s)) \<or>
    (\<exists>sg sig. stopSignalOf c s = Inr sg \<and> w_parseSignal w sg = Inr sig \<and> signals (trace t) = signals (trace s) @ [sig] \<and>
       (r = Inr True \<longrightarrow> Stopped (cells t (c_ref c))) \<and>
       (\<forall>b. r = Inr b \<longrightarrow> hd (trace t) = WaitStop (c_ID c) (Some timeout)))"
  using assms
  by (cases r) (auto simp: stopGracefully_def act_simps dest!: waitGracefully_cases)

text \<open>The signals that a stop may send, in order: the graceful one only with a positive timeout.\<close>

definition stopSignals :: "world \<Rightarrow> ctr \<Rightarrow> int \<Rightarrow> svc \<Rightarrow> int list set" where
  "stopSignals w c timeout s =
     (if 0 < timeout
      then {[]} \<union> {new. \<exists>sg sig. stopSignalOf c s = Inr sg \<and> w_parseSignal w sg = Inr sig \<and> (new = [sig] \<or> new = [sig, SIGKILL])}
      else {[], [SIGKILL]})"

lemma stopTask_cases:
  assumes "stopTask w c timeout s = (r, t)"
  shows "(\<exists>new \<in> stopSignals w c timeout s. signals (trace t) = signals (trace s) @ new) \<and>
    (r = Inr () \<longrightarrow> Stopped (cells t (c_ref c)))"
proof (cases "0 < timeout")
  case False
  then show ?thesis using assms killContainer_cases [of w c s r t] by (auto simp: stopTask_def stopSignals_def)
next
  case True
  obtain r1 s1 where g: "stopGracefully w c timeout s = (r1, s1)" by fastforce
  note gc = stopGracefully_cases [OF g]
  show ?thesis
  proof (cases "r1 = Inr False")
    case k: True
    then have "killContainer w c s1 = (r, t)" using assms g True by (simp add: stopTask_def bindA_def)
    from killContainer_cases [OF this] gc k True show ?thesis by (fastforce simp: stopSignals_def)
  next
    case False
    then show ?thesis using gc assms g True
      by (cases r1) (auto simp: stopTask_def bindA_def stopSignals_def)
  qed
qed

lemma cleanup_cases:
  assumes "cleanupUnknownContainer w i c s = (r, t)"
  shows "signals (trace t) = signals (trace s) \<and> (r = Inr () \<longrightarrow> Stopped (cells t (c_ref c)))"
proof -
  have sg: "signals (trace b) = signals (trace a)" if o: "onlyCalls (exitCalls (c_ID c)) a b" for a b
  proof -
    obtain pre where p: "calls pre a b" "set pre \<subseteq> exitCalls (c_ID c)"
      using o by (rule onlyCallsE)
    moreover have "filter (\<lambda>x. (case x of TaskKill i sig \<Rightarrow> Some sig | _ \<Rightarrow> None) \<noteq> None) pre = []"
      using calculation(2) by (auto simp: filter_empty_conv exitCalls_def split: extcall.splits)
    ultimately show ?thesis by (simp add: signals_def List.map_filter_def calls_trace)
  qed
  show ?thesis
    using handleContainerExit_cases [OF assms [unfolded cleanupUnknownContainer_def]]
  proof (elim disjE conjE exE)
    fix s1 assume o: "onlyCalls (exitCalls (c_ID c)) s s1" and "r = Inr ()"
    let ?e = "\<lparr>te_ContainerID = i, te_ID = i, te_Pid = 0, te_ExitStatus = unknownExitCode, te_ExitedAt = w_now w (trace s)\<rparr>"
    assume t: "t = containerStop c (writeStatus c (exitedStatus ?e (statusOf c s)) s1)"
    then show ?thesis using sg [OF o]
      by (simp add: containerStop_def Stopped_def Stop_def signals_def List.map_filter_simps)
  qed (use sg in auto)
qed





subsection \<open>Removing\<close>

lemma setRemoving_Inr: "setRemoving x = Inr y \<longleftrightarrow>
    (State x = CREATED \<or> State x = EXITED) \<and> \<not> st_Starting x \<and> \<not> st_Removing x \<and> y = x\<lparr>st_Removing := True\<rparr>"
  by (cases "State x") (auto simp: setRemoving_def)

lemma reset_removing_eq:
  "ignoreA (resetContainerRemoving c) s = setStatus c ((statusOf c s)\<lparr>st_Removing := False\<rparr>) s"
proof -
  have "resetContainerRemoving c s = (Inr (), setStatus c ((statusOf c s)\<lparr>st_Removing := False\<rparr>) s)"
    by (simp add: resetContainerRemoving_def statusUpdate_Inr resetRemoving_def)
  then show ?thesis by (simp add: ignoreA_def)
qed

text \<open>\<open>ioOnly s t\<close>: only the disk and the trace differ.\<close>

definition ioOnly :: "svc \<Rightarrow> svc \<Rightarrow> bool" where
  "ioOnly s t \<longleftrightarrow> s\<lparr>svDisk := Map.empty, trace := []\<rparr> = t\<lparr>svDisk := Map.empty, trace := []\<rparr>"

lemma ioOnly_refl [simp]: "ioOnly s s" by (simp add: ioOnly_def)

lemma ioOnly_trans: "ioOnly s t \<Longrightarrow> ioOnly t u \<Longrightarrow> ioOnly s u" by (simp add: ioOnly_def)

lemma ioOnly_logCall [simp]: "ioOnly s (logCall c t) \<longleftrightarrow> ioOnly s t" "ioOnly (logCall c s) t \<longleftrightarrow> ioOnly s t"
  by (simp_all add: ioOnly_def logCall_def)

lemma ioOnly_checkpoint: "deleteCheckpoint w c s = (r, t) \<Longrightarrow> ioOnly s t"
  by (auto simp: ioOnly_def deleteCheckpoint_def Let_def split: prod.splits)

lemma ioOnly_removeDir: "removeDir w dir s = (r, t) \<Longrightarrow> ioOnly s t"
  by (cases r) (auto simp: removeDir_def act_simps logCall_def ioOnly_def)

lemma ioOnly_fields:
  assumes "ioOnly s t"
  shows "cells t = cells s" "containerStore t = containerStore s" "labelStore t = labelStore s"
    "containerNameIndex t = containerNameIndex s" "sv_config t = sv_config s"
    "sandboxStore t = sandboxStore s" "sandboxNameIndex t = sandboxNameIndex s" "sbCells t = sbCells s"
  using assms [unfolded ioOnly_def, THEN arg_cong, of cells] assms [unfolded ioOnly_def, THEN arg_cong, of containerStore]
    assms [unfolded ioOnly_def, THEN arg_cong, of labelStore] assms [unfolded ioOnly_def, THEN arg_cong, of containerNameIndex]
    assms [unfolded ioOnly_def, THEN arg_cong, of sv_config] assms [unfolded ioOnly_def, THEN arg_cong, of sandboxStore]
    assms [unfolded ioOnly_def, THEN arg_cong, of sandboxNameIndex] assms [unfolded ioOnly_def, THEN arg_cong, of sbCells]
  by simp_all

lemma ioOnly_frame:
  assumes "ioOnly s t"
  shows "statusOf c t = statusOf c s" "sameButCell c s' t \<longleftrightarrow> sameButCell c s' s"
  by (simp_all add: statusOf_def sameButCell_def ioOnly_fields [OF assms])

text \<open>The body of the removal either fails having done input and output only, or frees everything.\<close>

lemma removeBody_Inl:
  assumes "removeBody w c s = (Inl e, t)"
  shows "ioOnly s t"
proof -
  have "ioOnly (logCall (CtrDelete (c_ID c)) s) t"
    using assms
    by (auto simp: removeBody_def Let_def act_simps dest!: ioOnly_checkpoint ioOnly_removeDir)
       (blast intro: ioOnly_trans)+
  then show ?thesis by simp
qed

lemma removeDir_Inr:
  "removeDir w dir s = (Inr u, t) \<Longrightarrow> svDisk t = (\<lambda>p. if prefix (dir @ ''/'') p then None else svDisk s p)"
  by (auto simp: removeDir_def act_simps)

lemma removeBody_Inr:
  assumes "removeBody w c s = (Inr u, t)"
  shows "\<exists>s1. ioOnly s s1 \<and>
    (\<forall>p. prefix (getContainerRootDir (sv_config s) (c_ID c) @ ''/'') p \<longrightarrow> svDisk s1 p = None) \<and>
    t = (storeDelete (c_ID c) s1)\<lparr>containerNameIndex := ReleaseByKey (containerNameIndex s1) (c_ID c)\<rparr>"
proof -
  let ?i = "c_ID c"
  obtain s0 s1 s2 s3 where
    s0: "s0 = logCall (CtrDelete ?i) s" and s1: "deleteCheckpoint w c s0 = (Inr (), s1)"
    and s2: "removeDir w (getContainerRootDir (sv_config s1) ?i) s1 = (Inr (), s2)"
    and s3: "removeDir w (getVolatileContainerRootDir (sv_config s1) ?i) s2 = (Inr (), s3)"
    and t: "t = (storeDelete ?i s3)\<lparr>containerNameIndex := ReleaseByKey (containerNameIndex (storeDelete ?i s3)) ?i\<rparr>"
    using assms by (auto simp: removeBody_def Let_def act_simps)
  have "ioOnly s s3"
    using ioOnly_checkpoint [OF s1] ioOnly_removeDir [OF s2] ioOnly_removeDir [OF s3] unfolding s0
    by (simp, blast intro: ioOnly_trans)
  moreover have "sv_config s1 = sv_config s" using ioOnly_fields(5) [OF ioOnly_checkpoint [OF s1]] by (simp add: s0)
  moreover have "containerNameIndex (storeDelete ?i s3) = containerNameIndex s3"
    by (simp add: storeDelete_def Let_def split: prod.splits)
  ultimately show ?thesis using removeDir_Inr [OF s2] removeDir_Inr [OF s3] t by auto
qed

lemma cs_nonempty: "cs_inv st \<Longrightarrow> cs_containers st i = Some c \<Longrightarrow> i \<noteq> []"
  by (auto simp: cs_inv_def indexed_def ti_inv_def)

lemma removeBody_frees:
  assumes "removeBody w c s = (Inr u, t)" "cs_inv (containerStore s)" "reg_inv (containerNameIndex s)"
    and "Store_Get (containerStore s) (c_ID c) = Inr c"
  shows "cs_inv (containerStore t)" "cs_containers (containerStore t) = (cs_containers (containerStore s))(c_ID c := None)"
    and "labelStore t = Label_Release (labelStore s) (c_ProcessLabel c)" "reg_inv (containerNameIndex t)"
    and "reg_pairs (containerNameIndex t) = {p \<in> reg_pairs (containerNameIndex s). snd p \<noteq> c_ID c}"
    and "prefix (getContainerRootDir (sv_config s) (c_ID c) @ ''/'') p \<Longrightarrow> svDisk t p = None"
    and "sandboxStore t = sandboxStore s" "sandboxNameIndex t = sandboxNameIndex s" "sv_config t = sv_config s"
proof -
  obtain s1 where s1: "ioOnly s s1" "\<forall>p. prefix (getContainerRootDir (sv_config s) (c_ID c) @ ''/'') p \<longrightarrow> svDisk s1 p = None"
    and t: "t = (storeDelete (c_ID c) s1)\<lparr>containerNameIndex := ReleaseByKey (containerNameIndex s1) (c_ID c)\<rparr>"
    using removeBody_Inr [OF assms(1)] by blast
  obtain st L where d: "Store_Delete (c_ID c) (containerStore s) (labelStore s) = (st, L)" by fastforce
  have eq: "containerStore t = st" "labelStore t = L" "containerNameIndex t = ReleaseByKey (containerNameIndex s) (c_ID c)"
    "svDisk t = svDisk s1"
    using t ioOnly_fields [OF s1(1)] d by (simp_all add: storeDelete_def)
  show "sandboxStore t = sandboxStore s" "sandboxNameIndex t = sandboxNameIndex s" "sv_config t = sv_config s"
    using t ioOnly_fields [OF s1(1)] d by (simp_all add: storeDelete_def)
  from cstore.del_found [OF assms(2,4) d] show "cs_inv (containerStore t)"
    "cs_containers (containerStore t) = (cs_containers (containerStore s))(c_ID c := None)"
    "labelStore t = Label_Release (labelStore s) (c_ProcessLabel c)" by (auto simp: eq)
  show "reg_inv (containerNameIndex t)" "reg_pairs (containerNameIndex t) = {p \<in> reg_pairs (containerNameIndex s). snd p \<noteq> c_ID c}"
    using reg_inv_ReleaseByKey [OF assms(3)] nidx.release_key_pairs [OF assms(3)] by (simp_all add: eq)
  show "prefix (getContainerRootDir (sv_config s) (c_ID c) @ ''/'') p \<Longrightarrow> svDisk t p = None" using s1(2) by (simp add: eq)
qed

text \<open>
  C18: removing a container that is not running. An unknown id is not an error and changes nothing.
  If the container is being started or removed already the request is refused. Otherwise, success
  means that the container is gone from the store, its label and its name are released, nothing is
  left of it below its root directory, and no other container or name is affected; failure means
  that the removing flag is cleared again, so that the status is what it was and the container can be
  removed again, and that store and names are untouched.
\<close>

theorem RemoveContainer_correct:
  assumes "cs_inv (containerStore s)" "reg_inv (containerNameIndex s)"
    and "\<forall>j \<in> dom (cs_containers (containerStore s)). length j = length (c_ID c)"
    and "Store_Get (containerStore s) r = Inr c" "State (statusOf c s) = CREATED \<or> State (statusOf c s) = EXITED"
    and "RemoveContainer w r s = (res, s')"
  shows "(res = Inr () \<longrightarrow>
      cs_containers (containerStore s') = (cs_containers (containerStore s))(c_ID c := None) \<and> cs_inv (containerStore s') \<and>
      labelStore s' = Label_Release (labelStore s) (c_ProcessLabel c) \<and>
      reg_pairs (containerNameIndex s') = {p \<in> reg_pairs (containerNameIndex s). snd p \<noteq> c_ID c} \<and>
      (\<forall>p. prefix (getContainerRootDir (sv_config s) (c_ID c) @ ''/'') p \<longrightarrow> svDisk s' p = None)) \<and>
    (\<forall>e. res = Inl e \<longrightarrow> sameButCell c s s' \<and> statusOf c s' = statusOf c s) \<and>
    (st_Starting (statusOf c s) \<or> st_Removing (statusOf c s) \<longrightarrow> (\<exists>e. res = Inl e) \<and> s' = s)"
proof -
  have run: "RemoveContainer w r s = thenA (wrapA (setContainerRemoving c) ''failed to set removing state for container %q'' [c_ID c])
      (onError (removeBody w c) (\<lambda>_. ignoreA (resetContainerRemoving c))) s"
    using assms(4,5) by (auto simp: RemoveContainer_def containerGet_def Let_def thenA_def bindA_def)
  show ?thesis
  proof (cases "setRemoving (statusOf c s)")
    case (Inl e)
    then have "setContainerRemoving c s = (Inl e, s)" by (simp add: setContainerRemoving_def statusUpdate_Inl)
    then have "s' = s" "\<exists>e. res = Inl e"
      using assms(6) unfolding run by (auto simp: thenA_def bindA_def wrapA_def)
    then show ?thesis by auto
  next
    case (Inr st)
    let ?s1 = "setStatus c st s"
    have st: "st = (statusOf c s)\<lparr>st_Removing := True\<rparr>" "\<not> st_Removing (statusOf c s)" "\<not> st_Starting (statusOf c s)"
      using Inr by (auto simp: setRemoving_Inr)
    obtain r1 t where b: "removeBody w c ?s1 = (r1, t)" by fastforce
    have out: "(res, s') = (r1, case r1 of Inl _ \<Rightarrow> setStatus c ((statusOf c t)\<lparr>st_Removing := False\<rparr>) t | Inr _ \<Rightarrow> t)"
    proof -
      have "setContainerRemoving c s = (Inr (), ?s1)" using Inr by (simp add: setContainerRemoving_def statusUpdate_Inr)
      then show ?thesis using assms(6) b unfolding run
        by (auto simp: thenA_def bindA_def wrapA_def onError_def reset_removing_eq split: sum.splits)
    qed
    show ?thesis
    proof (cases r1)
      case l: (Inl e)
      have io: "ioOnly ?s1 t" using removeBody_Inl b l by blast
      have "sameButCell c s s'" using out l ioOnly_frame(2) [OF io, of c s] by simp
      moreover have "statusOf c s' = statusOf c s" using out l ioOnly_frame(1) [OF io, of c] st by simp
      ultimately show ?thesis using out l st by auto
    next
      case (Inr u)
      then have b': "removeBody w c ?s1 = (Inr (), s')" using b out by simp
      have stored: "cs_containers (containerStore s) (c_ID c) = Some c" using cstore.get_objs [OF assms(1,4)] by simp
      have "Store_Get (containerStore ?s1) (c_ID c) = Inr c"
        using assms(3) cs_nonempty [OF assms(1) stored] by simp (intro cstore.get_full [OF assms(1) stored]; auto)
      from removeBody_frees [OF b' _ _ this] assms(1,2) show ?thesis using out Inr st by auto
    qed
  qed
qed

lemma example_inv: "cs_inv (containerStore (example_svc st))" "reg_inv (containerNameIndex (example_svc st))"
  by (auto simp: example_svc_def cs_inv_def indexed_def ti_inv_def example_ctr_def c_ID_def reg_inv_def)

theorem RemoveContainer_correct_witness:
  "cs_containers (containerStore (snd (RemoveContainer example_world ''c1'' (example_svc created_status)))) ''c1'' = None"
proof -
  let ?s = "example_svc created_status"
  have "fst (RemoveContainer example_world ''c1'' ?s) = Inr ()" by code_simp
  moreover have "\<forall>j \<in> dom (cs_containers (containerStore ?s)). length j = length (c_ID example_ctr)"
    by (simp add: example_svc_def example_ctr_def c_ID_def)
  ultimately show ?thesis
    using RemoveContainer_correct [OF example_inv _ example_get _ prod.collapse [symmetric], of created_status example_world]
    by simp (simp add: example_ctr_def c_ID_def)
qed

end
