(* ===== verification/Lifecycle.thy ===== *)
theory Lifecycle
  imports StopRemove
begin

section \<open>The life of one container under concurrent handlers\<close>

text \<open>
  The handlers run concurrently and meet in the transactions on the status of a container. This
  theory interleaves the transactions of any number of \<^verbatim>\<open>StartContainer\<close> and \<^verbatim>\<open>RemoveContainer\<close> requests,
  exit events and OOM events on one container. A start request is \<open>pending\<close> from its
  \<^verbatim>\<open>setContainerStarting\<close> until it has recorded success or failure, and \<open>finishing\<close> until its deferred
  \<^verbatim>\<open>resetContainerStarting\<close>; a removal is under way from \<^verbatim>\<open>setContainerRemoving\<close> until it fails or has
  removed the container. Exit events come from monitors that are started for running
  or unknown containers only. The update functions are those of the handlers.
\<close>

record life =
  lf_status :: status
  lf_pending :: nat
  lf_finishing :: nat
  lf_removing :: nat
  lf_starts :: nat
  lf_removed :: bool

inductive life_step :: "life \<Rightarrow> life \<Rightarrow> bool" where
  start: "setStarting (lf_status l) = Inr st \<Longrightarrow>
    life_step l (l\<lparr>lf_status := st, lf_pending := Suc (lf_pending l)\<rparr>)"
| start_ok: "lf_pending l = Suc n \<Longrightarrow> now \<noteq> 0 \<Longrightarrow> startSucceeded pid now (lf_status l) = Inr st \<Longrightarrow>
    life_step l (l\<lparr>lf_status := st, lf_pending := n, lf_finishing := Suc (lf_finishing l), lf_starts := Suc (lf_starts l)\<rparr>)"
| start_failed: "lf_pending l = Suc n \<Longrightarrow> now \<noteq> 0 \<Longrightarrow> startFailed now e (lf_status l) = Inr st \<Longrightarrow>
    life_step l (l\<lparr>lf_status := st, lf_pending := n, lf_finishing := Suc (lf_finishing l)\<rparr>)"
| start_unrecorded: "lf_pending l = Suc n \<Longrightarrow>
    life_step l (l\<lparr>lf_pending := n, lf_finishing := Suc (lf_finishing l)\<rparr>)"
| start_end: "lf_finishing l = Suc n \<Longrightarrow> resetStarting (lf_status l) = Inr st \<Longrightarrow>
    life_step l (l\<lparr>lf_status := st, lf_finishing := n\<rparr>)"
| exit: "State (lf_status l) \<noteq> CREATED \<Longrightarrow> te_ExitedAt e \<noteq> 0 \<Longrightarrow> exited e (lf_status l) = Inr st \<Longrightarrow>
    life_step l (l\<lparr>lf_status := st\<rparr>)"
| oom: "oomKilled (lf_status l) = Inr st \<Longrightarrow> life_step l (l\<lparr>lf_status := st\<rparr>)"
| remove: "setRemoving (lf_status l) = Inr st \<Longrightarrow>
    life_step l (l\<lparr>lf_status := st, lf_removing := Suc (lf_removing l)\<rparr>)"
| remove_failed: "lf_removing l = Suc n \<Longrightarrow> resetRemoving (lf_status l) = Inr st \<Longrightarrow>
    life_step l (l\<lparr>lf_status := st, lf_removing := n\<rparr>)"
| remove_done: "lf_removing l = Suc n \<Longrightarrow> life_step l (l\<lparr>lf_removed := True\<rparr>)"

text \<open>A container as created, or as loaded after a restart: no request is under way.\<close>

definition life_init :: "life \<Rightarrow> bool" where
  "life_init l \<longleftrightarrow> \<not> st_Starting (lf_status l) \<and> \<not> st_Removing (lf_status l) \<and> lf_pending l = 0 \<and>
     lf_finishing l = 0 \<and> lf_removing l = 0 \<and> lf_starts l = 0 \<and> \<not> lf_removed l"

definition life_inv :: "life \<Rightarrow> bool" where
  "life_inv l \<longleftrightarrow>
     lf_pending l + lf_finishing l = of_bool (st_Starting (lf_status l)) \<and>
     lf_removing l = of_bool (st_Removing (lf_status l)) \<and>
     \<not> (st_Starting (lf_status l) \<and> st_Removing (lf_status l)) \<and>
     (0 < lf_pending l \<longrightarrow> State (lf_status l) = CREATED) \<and>
     (0 < lf_removing l \<longrightarrow> State (lf_status l) = CREATED \<or> State (lf_status l) = EXITED) \<and>
     lf_starts l \<le> 1 \<and> (State (lf_status l) = CREATED \<longrightarrow> lf_starts l = 0)"

lemma State_transient [simp]:
  "State (s\<lparr>st_Starting := b\<rparr>) = State s" "State (s\<lparr>st_Removing := b\<rparr>) = State s" "State (s\<lparr>st_Reason := r\<rparr>) = State s"
  by (simp_all add: State_def)

lemma State_startSucceeded:
  "State s = CREATED \<Longrightarrow> now \<noteq> 0 \<Longrightarrow> startSucceeded pid now s = Inr t \<Longrightarrow>
     State t = RUNNING \<and> st_Starting t = st_Starting s \<and> st_Removing t = st_Removing s"
  by (auto simp: startSucceeded_def State_def split: if_splits)

lemma State_startFailed:
  "State s = CREATED \<Longrightarrow> now \<noteq> 0 \<Longrightarrow> startFailed now e s = Inr t \<Longrightarrow>
     State t = EXITED \<and> st_Starting t = st_Starting s \<and> st_Removing t = st_Removing s"
  by (auto simp: startFailed_def State_def split: if_splits)

lemma State_exited:
  "te_ExitedAt e \<noteq> 0 \<Longrightarrow> exited e s = Inr t \<Longrightarrow>
     State t = EXITED \<and> st_Starting t = st_Starting s \<and> st_Removing t = st_Removing s"
  by (cases "st_FinishedAt s = 0") (auto simp: exited_eq exitedStatus_def State_def)

lemma life_inv_start:
  "life_inv l \<Longrightarrow> setStarting (lf_status l) = Inr st \<Longrightarrow>
     life_inv (l\<lparr>lf_status := st, lf_pending := Suc (lf_pending l)\<rparr>)"
  by (auto simp: life_inv_def setStarting_Inr)

lemma life_inv_pending:
  "life_inv l \<Longrightarrow> lf_pending l = Suc n \<Longrightarrow>
     State (lf_status l) = CREATED \<and> n = 0 \<and> lf_finishing l = 0 \<and> lf_removing l = 0 \<and> lf_starts l = 0 \<and>
     st_Starting (lf_status l) \<and> \<not> st_Removing (lf_status l)"
  by (auto simp: life_inv_def of_bool_def split: if_splits)

lemma life_inv_step:
  assumes "life_inv l" "life_step l m"
  shows "life_inv m"
  using assms(2)
proof cases
  case (start st)
  then show ?thesis using life_inv_start [OF assms(1)] by simp
next
  case (start_ok n now pid st)
  then show ?thesis using life_inv_pending [OF assms(1)] State_startSucceeded [of "lf_status l" now pid st]
    by (simp add: life_inv_def)
next
  case (start_failed n now e st)
  then show ?thesis using life_inv_pending [OF assms(1)] State_startFailed [of "lf_status l" now e st]
    by (simp add: life_inv_def)
next
  case (start_unrecorded n)
  then show ?thesis using life_inv_pending [OF assms(1)] by (simp add: life_inv_def)
next
  case (start_end n st)
  then show ?thesis using assms(1) by (auto simp: life_inv_def resetStarting_def of_bool_def split: if_splits)
next
  case (exit e st)
  then show ?thesis using assms(1) State_exited [of e "lf_status l" st] by (auto simp: life_inv_def)
next
  case (oom st)
  then show ?thesis using assms(1) by (auto simp: life_inv_def oomKilled_def)
next
  case (remove st)
  then show ?thesis using assms(1) by (auto simp: life_inv_def setRemoving_Inr)
next
  case (remove_failed n st)
  then show ?thesis using assms(1) by (auto simp: life_inv_def resetRemoving_def of_bool_def split: if_splits)
next
  case (remove_done n)
  then show ?thesis using assms(1) by (simp add: life_inv_def)
qed

interpretation life: inv_system life_init life_step life_inv
  by unfold_locales (auto simp: life_inv_step, simp add: life_init_def life_inv_def)

text \<open>The state only moves forward: unknown containers go to EXITED, the others up in the CRI order.\<close>

definition progress :: "container_state \<Rightarrow> container_state \<Rightarrow> bool" where
  "progress x y \<longleftrightarrow> x = y \<or> (if x = CONTAINER_UNKNOWN then y = EXITED else x < y \<and> y \<noteq> CONTAINER_UNKNOWN)"

lemma progress_refl [simp]: "progress x x" by (simp add: progress_def)

lemma progress_trans: "progress x y \<Longrightarrow> progress y z \<Longrightarrow> progress x z"
  by (cases x; cases y; cases z) (auto simp: progress_def less_container_state_def)

lemma life_progress_step:
  assumes "life_inv l" "life_step l m"
  shows "progress (State (lf_status l)) (State (lf_status m))"
  using assms(2)
proof cases
  case (start_ok n now pid st)
  then show ?thesis using life_inv_pending [OF assms(1)] State_startSucceeded [of "lf_status l" now pid st]
    by (simp add: progress_def less_container_state_def)
next
  case (start_failed n now e st)
  then show ?thesis using life_inv_pending [OF assms(1)] State_startFailed [of "lf_status l" now e st]
    by (simp add: progress_def less_container_state_def)
next
  case (exit e st)
  then show ?thesis using State_exited [of e "lf_status l" st]
    by (cases "State (lf_status l)") (auto simp: progress_def less_container_state_def)
qed (auto simp: setStarting_Inr setRemoving_Inr resetStarting_def resetRemoving_def oomKilled_def)

lemma life_progress: "life_step\<^sup>*\<^sup>* l m \<Longrightarrow> life_inv l \<Longrightarrow> progress (State (lf_status l)) (State (lf_status m))"
proof (induction rule: rtranclp_induct)
  case (step m n)
  then show ?case using life.inv_steps [OF step(1)] life_progress_step progress_trans by blast
qed simp

text \<open>
  C19: mutual exclusion and the state machine of a container. However requests and events on a container interleave, at most one start
  request is under way, never together with a removal, and at most one removal; a container is
  started at most once; a start that has not finished finds its container still in CREATED state, and
  a container that is being removed is neither running nor unknown. The state only
  moves from CREATED to RUNNING to EXITED, possibly skipping RUNNING, and from UNKNOWN to EXITED;
  an exited container stays exited.
\<close>

theorem container_mutual_exclusion:
  assumes "life_init l" "life_step\<^sup>*\<^sup>* l m"
  shows "lf_pending m + lf_finishing m \<le> 1 \<and> lf_removing m \<le> 1 \<and>
    (0 < lf_pending m + lf_finishing m \<longrightarrow> lf_removing m = 0) \<and> lf_starts m \<le> 1 \<and>
    (0 < lf_pending m \<longrightarrow> State (lf_status m) = CREATED) \<and>
    (0 < lf_removing m \<longrightarrow> State (lf_status m) = CREATED \<or> State (lf_status m) = EXITED) \<and>
    (\<forall>n. life_step\<^sup>*\<^sup>* m n \<longrightarrow> progress (State (lf_status m)) (State (lf_status n)) \<and>
       (State (lf_status m) = EXITED \<longrightarrow> State (lf_status n) = EXITED))"
proof -
  note inv = life.inv_reachable [OF assms]
  have "progress (State (lf_status m)) (State (lf_status n)) \<and> (State (lf_status m) = EXITED \<longrightarrow> State (lf_status n) = EXITED)"
    if "life_step\<^sup>*\<^sup>* m n" for n
    using life_progress [OF that inv] by (cases "State (lf_status n)") (auto simp: progress_def less_container_state_def)
  then show ?thesis using inv by (auto simp: life_inv_def)
qed

definition life0 :: life where
  "life0 = \<lparr>lf_status = created_status, lf_pending = 0, lf_finishing = 0, lf_removing = 0, lf_starts = 0, lf_removed = False\<rparr>"

definition life1 :: life where
  "life1 = life0\<lparr>lf_status := created_status\<lparr>st_Starting := True\<rparr>, lf_pending := 1\<rparr>"

lemma life0_init: "life_init life0"
  by (simp add: life_init_def life0_def)

lemma life01: "life_step\<^sup>*\<^sup>* life0 life1"
proof -
  have "life_step life0 (life0\<lparr>lf_status := created_status\<lparr>st_Starting := True\<rparr>, lf_pending := Suc (lf_pending life0)\<rparr>)"
    by (rule life_step.start) (simp add: setStarting_Inr life0_def)
  then show ?thesis by (simp add: life1_def life0_def r_into_rtranclp)
qed

theorem container_mutual_exclusion_witness: "lf_pending life1 = 1 \<and> lf_removing life1 = 0"
  using container_mutual_exclusion [OF life0_init life01] by (simp add: life1_def life0_def)

end
