(* ===== verification/ImageHandlers.thy ===== *)
theory ImageHandlers
  imports ContainerHandlers
begin

section \<open>Image requests\<close>

text \<open>
  The image side of the service: \<^verbatim>\<open>image_pull.go\<close>, \<^verbatim>\<open>image_remove.go\<close>, \<^verbatim>\<open>image_status.go\<close>, \<^verbatim>\<open>image_list.go\<close> and the
  image helpers of \<^verbatim>\<open>helpers.go\<close>. The reference grammar of the distribution library is the
  environment's \<open>w_parseRef\<close>; containerd's image service answers through \<open>w_image\<close> and \<open>w_oldImage\<close>.
\<close>

definition imageLabelKey :: string where "imageLabelKey = ''io.cri-containerd.image''"
definition imageLabelValue :: string where "imageLabelValue = ''managed''"

subsection \<open>Resolving and updating\<close>

text \<open>\<^verbatim>\<open>c.imageStore.Update(ctx, r)\<close> asks containerd for the reference.\<close>

definition storeUpdate :: "world \<Rightarrow> string \<Rightarrow> unit handler" where
  "storeUpdate w ref s =
     (let (r, st) = Image_Update (w_iter w) (w_chainID w) (w_image w (trace s) ref) (imageStore s) ref
      in (r, (logCall (GetImage ref) s)\<lparr>imageStore := st\<rparr>))"

definition localResolve :: "world \<Rightarrow> string \<Rightarrow> image handler" where
  "localResolve w refOrID s =
     (let imageID =
        (if Validate refOrID = None then refOrID
         else case w_parseRef w refOrID of
           Inl _ \<Rightarrow> []
         | Inr normalized \<Rightarrow> (case Resolve (imageStore s) (nr_String normalized) of Inl _ \<Rightarrow> [] | Inr i \<Rightarrow> i));
          imageID' = (if imageID = [] then refOrID else imageID)
      in (Image_Get (imageStore s) imageID', s))"

definition toContainerdImage :: "world \<Rightarrow> image \<Rightarrow> ctrd_image handler" where
  "toContainerdImage w img s =
     (case im_References img of
        [] \<Rightarrow> (Inl (Errorf ''invalid image with no reference %q'' [im_ID img]), s)
      | ref # _ \<Rightarrow> (w_image w (trace s) ref, logCall (GetImage ref) s))"

definition createImageReference :: "world \<Rightarrow> string \<Rightarrow> string \<Rightarrow> unit handler" where
  "createImageReference w name target s =
     (case ext w (CreateImage name target) s of
        (Inr _, s1) \<Rightarrow> (Inr (), s1)
      | (Inl e, s1) \<Rightarrow>
          (if \<not> IsAlreadyExists e then (Inl e, s1)
           else
             (let (oldTarget, oldLabels) = w_oldImage w (trace s) name in
              if oldTarget = target \<and> oldLabels imageLabelKey = Some imageLabelValue then (Inr (), s1)
              else ext w (UpdateImageRef name target) s1)))"

definition updateImage :: "world \<Rightarrow> string \<Rightarrow> unit handler" where
  "updateImage w r s =
     (let s0 = logCall (GetImage r) s;
          refresh = wrapA (storeUpdate w r) ''update image store for %q'' [r]
      in case w_image w (trace s) r of
           Inl e \<Rightarrow> (if \<not> IsNotFound e then (Inl (Wrapf e ''get image by reference'' []), s0) else refresh s0)
         | Inr img \<Rightarrow>
             (if ci_Labels img imageLabelKey \<noteq> Some imageLabelValue then
                bindA (wrapA (thenA (modifyA (logCall (ImageConfig r))) (liftA (ci_Config img))) ''get image id'' []) (\<lambda>i.
                thenA (wrapA (createImageReference w i (ci_Target img)) ''create image id reference %q'' [i])
               (thenA (wrapA (storeUpdate w i) ''update image store for %q'' [i])
               (thenA (wrapA (createImageReference w r (ci_Target img)) ''create managed label'' [])
                      refresh))) s0
              else refresh s0))"

subsection \<open>Pulling\<close>

definition getRepoDigestAndTag :: "namedRef \<Rightarrow> string \<Rightarrow> bool \<Rightarrow> string \<times> string" where
  "getRepoDigestAndTag namedRef digest schema1 =
     (let repoTag = (if nr_Tagged namedRef then nr_String namedRef else []);
          repoDigest = (if nr_Canonical namedRef then nr_String namedRef
                        else if \<not> schema1 then nr_Name namedRef @ ''@'' @ digest else [])
      in (repoDigest, repoTag))"

fun pullReferences :: "world \<Rightarrow> string \<Rightarrow> string list \<Rightarrow> unit handler" where
  "pullReferences w target [] = returnA ()"
| "pullReferences w target (r # rs) =
     (if r = [] then pullReferences w target rs
      else
        thenA (wrapA (createImageReference w r target) ''failed to create image reference %q'' [r])
       (thenA (wrapA (storeUpdate w r) ''failed to update image store %q'' [r])
              (pullReferences w target rs)))"

definition PullImage :: "world \<Rightarrow> string \<Rightarrow> string handler" where
  "PullImage w imageRef =
     bindA (wrapA (liftA (w_parseRef w imageRef)) ''failed to parse image reference %q'' [imageRef]) (\<lambda>namedRef.
     let ref = nr_String namedRef in
     bindA (wrapA (\<lambda>s. (w_image w (trace s) ref, logCall (CtrdPull ref) s)) ''failed to pull and unpack image %q'' [ref]) (\<lambda>img.
     bindA (wrapA (thenA (modifyA (logCall (ImageConfig ref))) (liftA (ci_Config img))) ''get image config descriptor'' []) (\<lambda>imageID.
     bindA (getA (\<lambda>s. w_schema1 w (trace s))) (\<lambda>isSchema1.
     let (repoDigest, repoTag) = getRepoDigestAndTag namedRef (ci_Target img) isSchema1 in
     thenA (pullReferences w (ci_Target img) [imageID, repoTag, repoDigest])
           (returnA imageID)))))"

definition ensureImageExists :: "world \<Rightarrow> string \<Rightarrow> image handler" where
  "ensureImageExists w ref s =
     (case localResolve w ref s of
        (Inr img, s1) \<Rightarrow> (Inr img, s1)
      | (Inl e, s1) \<Rightarrow>
          (if e \<noteq> ErrNotExist then (Inl (Wrapf e ''failed to get image %q'' [ref]), s1)
           else
             bindA (wrapA (PullImage w ref) ''failed to pull image %q'' [ref]) (\<lambda>imageID.
             wrapA (\<lambda>s. (Image_Get (imageStore s) imageID, s)) ''failed to get image %q after pulling'' [imageID]) s1))"

subsection \<open>Removing\<close>

fun removeReferences :: "world \<Rightarrow> string \<Rightarrow> string list \<Rightarrow> unit handler" where
  "removeReferences w i [] = returnA ()"
| "removeReferences w i (ref # refs) =
     thenA (wrapA (tolerateA (ext w (DeleteImageRef ref (refs = []))) IsNotFound)
              ''failed to delete image reference %q for %q'' [ref, i])
    (thenA (wrapA (storeUpdate w ref) ''failed to update image reference %q for %q'' [ref, i])
           (removeReferences w i refs))"

definition RemoveImage :: "world \<Rightarrow> string \<Rightarrow> unit handler" where
  "RemoveImage w r s =
     (case localResolve w r s of
        (Inl e, s1) \<Rightarrow>
          (if e = ErrNotExist then (Inr (), s1) else (Inl (Wrapf e ''can not resolve %q locally'' [r]), s1))
      | (Inr img, s1) \<Rightarrow> removeReferences w (im_ID img) (im_References img) s1)"

subsection \<open>Status and listing\<close>

text \<open>A reference as \<^verbatim>\<open>docker.ParseAnyReference\<close> reads it.\<close>

datatype anyRef = CanonicalRef string | TaggedRef string | OtherRef string

fun parseImageReferences :: "(string \<Rightarrow> anyRef result) \<Rightarrow> string list \<Rightarrow> string list \<times> string list" where
  "parseImageReferences parse [] = ([], [])"
| "parseImageReferences parse (ref # refs) =
     (let (tags, digests) = parseImageReferences parse refs in
      case parse ref of
        Inl _ \<Rightarrow> (tags, digests)
      | Inr (CanonicalRef s) \<Rightarrow> (tags, s # digests)
      | Inr (TaggedRef s) \<Rightarrow> (s # tags, digests)
      | Inr (OtherRef _) \<Rightarrow> (tags, digests))"

text \<open>\<^verbatim>\<open>strconv.ParseInt(s, 10, 64)\<close>.\<close>

definition is_digit :: "char \<Rightarrow> bool" where
  "is_digit c \<longleftrightarrow> 48 \<le> (of_char c :: nat) \<and> (of_char c :: nat) \<le> 57"

definition digitsValue :: "string \<Rightarrow> nat" where
  "digitsValue s = foldl (\<lambda>a c. 10 * a + (of_char c - 48)) 0 s"

definition ParseInt64 :: "string \<Rightarrow> int option" where
  "ParseInt64 s =
     (let neg = (s \<noteq> [] \<and> hd s = CHR ''-'');
          ds = (if s \<noteq> [] \<and> (hd s = CHR ''-'' \<or> hd s = CHR ''+'') then tl s else s);
          n = (if neg then - int (digitsValue ds) else int (digitsValue ds))
      in if ds = [] \<or> \<not> list_all is_digit ds \<or> n < - (2 ^ 63) \<or> 2 ^ 63 \<le> n then None else Some n)"

definition getUserFromImage :: "string \<Rightarrow> int option \<times> string" where
  "getUserFromImage user =
     (if user = [] then (None, [])
      else
        let user' = takeWhile (\<lambda>c. c \<noteq> CHR '':'') user in
        case ParseInt64 user' of None \<Rightarrow> (None, user') | Some uid \<Rightarrow> (Some uid, []))"

record criImage =
  ri_Id :: string
  ri_RepoTags :: "string list"
  ri_RepoDigests :: "string list"
  ri_Size :: "64 word"
  ri_Uid :: "int option"
  ri_Username :: string

definition toCRIImage :: "(string \<Rightarrow> anyRef result) \<Rightarrow> image \<Rightarrow> criImage" where
  "toCRIImage parse img =
     (let (repoTags, repoDigests) = parseImageReferences parse (im_References img);
          (uid, username) = getUserFromImage (ic_User (im_Spec img))
      in \<lparr>ri_Id = im_ID img, ri_RepoTags = repoTags, ri_RepoDigests = repoDigests, ri_Size = im_Size img,
          ri_Uid = uid, ri_Username = username\<rparr>)"

definition ImageStatus :: "world \<Rightarrow> (string \<Rightarrow> anyRef result) \<Rightarrow> string \<Rightarrow> criImage option handler" where
  "ImageStatus w parse r s =
     (case localResolve w r s of
        (Inl e, s1) \<Rightarrow>
          (if e = ErrNotExist then (Inr None, s1) else (Inl (Wrapf e ''can not resolve %q locally'' [r]), s1))
      | (Inr img, s1) \<Rightarrow> (Inr (Some (toCRIImage parse img)), s1))"

definition ListImages :: "(string \<Rightarrow> anyRef result) \<Rightarrow> string list \<Rightarrow> svc \<Rightarrow> criImage list" where
  "ListImages parse order s = map (toCRIImage parse) (Image_List order (imageStore s))"

subsection \<open>Registry credentials and labels\<close>

record authConfig =
  au_Username :: string
  au_Password :: string
  au_Auth :: string
  au_ServerAddress :: string
  au_IdentityToken :: string

text \<open>\<open>urlHost\<close> is the host of \<^verbatim>\<open>url.Parse\<close>; \<open>decode64\<close> decodes base64 into a buffer padded with NUL.\<close>

definition trimNul :: "string \<Rightarrow> string" where
  "trimNul s = rev (dropWhile (\<lambda>c. c = CHR 0x00) (rev (dropWhile (\<lambda>c. c = CHR 0x00) s)))"

definition ParseAuth ::
    "(string \<Rightarrow> string result) \<Rightarrow> (string \<Rightarrow> string result) \<Rightarrow> authConfig option \<Rightarrow> string \<Rightarrow> (string \<times> string) result" where
  "ParseAuth urlHost decode64 auth host =
     (case auth of
        None \<Rightarrow> Inr ([], [])
      | Some a \<Rightarrow>
          (let credentials =
             (if au_Username a \<noteq> [] then Inr (au_Username a, au_Password a)
              else if au_IdentityToken a \<noteq> [] then Inr ([], au_IdentityToken a)
              else if au_Auth a \<noteq> [] then
                (case decode64 (au_Auth a) of
                   Inl e \<Rightarrow> Inl e
                 | Inr decoded \<Rightarrow>
                     (case SplitN 2 (CHR '':'') decoded of
                        [user, passwd] \<Rightarrow> Inr (user, trimNul passwd)
                      | _ \<Rightarrow> Inl (Errorf ''invalid decoded auth: %q'' [decoded])))
              else Inr ([], []))
           in if au_ServerAddress a \<noteq> [] then
                (case urlHost (au_ServerAddress a) of
                   Inl e \<Rightarrow> Inl (Wrapf e ''parse server address'' [])
                 | Inr h \<Rightarrow> (if host \<noteq> h then Inr ([], []) else credentials))
              else credentials))"

record descriptor =
  ds_MediaType :: string
  ds_Digest :: string

text \<open>\<open>isLayer\<close> is \<^verbatim>\<open>images.IsLayerType\<close>; \<open>validate\<close> limits the size of a label.\<close>

fun getLayersLoop :: "(string \<Rightarrow> bool) \<Rightarrow> (string \<Rightarrow> bool) \<Rightarrow> string \<Rightarrow> descriptor list \<Rightarrow> string" where
  "getLayersLoop isLayer validate layers [] = layers"
| "getLayersLoop isLayer validate layers (l # descs) =
     (if isLayer (ds_MediaType l) then
        (let item = (if layers \<noteq> [] then '','' @ ds_Digest l else ds_Digest l) in
         if \<not> validate (layers @ item) then layers
         else getLayersLoop isLayer validate (layers @ item) descs)
      else getLayersLoop isLayer validate layers descs)"

definition getLayers :: "(string \<Rightarrow> bool) \<Rightarrow> (string \<Rightarrow> bool) \<Rightarrow> descriptor list \<Rightarrow> string" where
  "getLayers isLayer validate descs = getLayersLoop isLayer validate [] descs"

text \<open>\<open>splitHost\<close> is the host part of \<^verbatim>\<open>net.SplitHostPort\<close>, an error without a port.\<close>

definition defaultScheme :: "(string \<Rightarrow> string result) \<Rightarrow> string \<Rightarrow> string" where
  "defaultScheme splitHost host =
     (let host' = (case splitHost host of Inr h \<Rightarrow> h | Inl _ \<Rightarrow> host) in
      if host' = ''localhost'' \<or> host' = ''127.0.0.1'' \<or> host' = ''::1'' then ''http'' else ''https'')"

definition addDefaultScheme :: "(string \<Rightarrow> string result) \<Rightarrow> (string \<Rightarrow> string result) \<Rightarrow> string \<Rightarrow> string result" where
  "addDefaultScheme splitHost urlHost endpoint =
     (if sublist ''://'' endpoint then Inr endpoint
      else case urlHost (''dummy://'' @ endpoint) of
        Inl e \<Rightarrow> Inl e
      | Inr h \<Rightarrow> Inr (defaultScheme splitHost h @ ''://'' @ endpoint))"

subsection \<open>Removal frees every reference\<close>

text \<open>No two cached references differ in letter case only.\<close>

definition case_distinct :: "image_store \<Rightarrow> bool" where
  "case_distinct s \<longleftrightarrow> (\<forall>a \<in> dom (is_refCache s). \<forall>b \<in> dom (is_refCache s). EqualFold a b \<longrightarrow> a = b)"

text \<open>containerd does not find a reference that has been deleted.\<close>

definition deleted_not_found :: "world \<Rightarrow> bool" where
  "deleted_not_found w \<longleftrightarrow> (\<forall>tr ref b. DeleteImageRef ref b \<in> set tr \<longrightarrow> (\<exists>e. w_image w tr ref = Inl e \<and> IsNotFound e))"

lemma fold_distinct_cached: "case_distinct s \<Longrightarrow> ref \<in> dom (is_refCache s) \<Longrightarrow> fold_distinct s ref"
  by (auto simp: case_distinct_def fold_distinct_def)

lemma storeUpdate_deleted:
  assumes "deleted_not_found w" "DeleteImageRef ref b \<in> set (trace s)" "is_inv (imageStore s)"
    "case_distinct (imageStore s)" "iteration (w_iter w)" "storeUpdate w ref s = (r, t)"
  shows "r = Inr () \<and> is_inv (imageStore t) \<and> case_distinct (imageStore t) \<and>
    is_refCache (imageStore t) = (is_refCache (imageStore s))(ref := None) \<and> trace t = GetImage ref # trace s"
proof -
  obtain e where "w_image w (trace s) ref = Inl e" "IsNotFound e"
    using assms(1,2) by (auto simp: deleted_not_found_def)
  then have t: "r = fst (update (w_iter w) (imageStore s) ref None)"
    "imageStore t = snd (update (w_iter w) (imageStore s) ref None)" "trace t = GetImage ref # trace s"
    using assms(6) by (auto simp: storeUpdate_def Image_Update_def split: prod.splits)
  have "fst (update (w_iter w) (imageStore s) ref None) = Inr () \<and> is_inv (snd (update (w_iter w) (imageStore s) ref None)) \<and>
      is_refCache (snd (update (w_iter w) (imageStore s) ref None)) = (is_refCache (imageStore s))(ref := None)"
  proof (cases "is_refCache (imageStore s) ref")
    case None
    then show ?thesis using assms(3) by (simp add: update_def fun_upd_idem)
  next
    case (Some i)
    then have "fold_distinct (imageStore s) ref" using fold_distinct_cached [OF assms(4)] by auto
    from update_inv [OF assms(3) this assms(5), of None] show ?thesis by simp
  qed
  then show ?thesis using t assms(4) by (auto simp: case_distinct_def)
qed

lemma removeReferences_ok:
  assumes "removeReferences w i refs s = (Inr u, t)" "deleted_not_found w" "iteration (w_iter w)"
    "is_inv (imageStore s)" "case_distinct (imageStore s)"
  shows "is_inv (imageStore t) \<and>
    is_refCache (imageStore t) = (\<lambda>r. if r \<in> set refs then None else is_refCache (imageStore s) r)"
  using assms
proof (induction refs arbitrary: s)
  case (Cons ref refs)
  let ?c = "DeleteImageRef ref (refs = [])"
  obtain s1 where s1: "storeUpdate w ref (logCall ?c s) = (Inr (), s1)" and rest: "removeReferences w i refs s1 = (Inr u, t)"
    using Cons.prems(1) by (auto simp: act_simps)
  note su = storeUpdate_deleted [OF Cons.prems(2) _ _ _ Cons.prems(3) s1, of "refs = []"]
  have "is_inv (imageStore s1)" "case_distinct (imageStore s1)"
    "is_refCache (imageStore s1) = (is_refCache (imageStore s))(ref := None)"
    using su Cons.prems(4,5) by auto
  then show ?case using Cons.IH [OF rest Cons.prems(2,3)] by auto
qed auto

lemma image_needs_reference:
  assumes "is_inv s" "\<And>r. is_refCache s r \<noteq> Some i"
  shows "st_images (is_store s) i = None"
proof (rule ccontr)
  assume "st_images (is_store s) i \<noteq> None"
  then obtain img where "st_images (is_store s) i = Some img" by blast
  from is_invD(3) [OF assms(1) this] assms(2) show False by auto
qed


definition one_image :: image_store where
  "one_image = snd (update (\<lambda>x. x) Image_NewStore ''repo:v1'' (Some (example_image ''repo:v1'')))"

lemma one_image_inv: "is_inv one_image" "is_refCache one_image = [''repo:v1'' \<mapsto> example_digest]"
proof -
  have "fold_distinct Image_NewStore ''repo:v1''" by (simp add: fold_distinct_def Image_NewStore_def)
  from update_inv [OF is_inv_empty this iteration_id, of "Some (example_image ''repo:v1'')"]
  show "is_inv one_image" "is_refCache one_image = [''repo:v1'' \<mapsto> example_digest]"
    by (simp_all add: one_image_def example_image_def example_digest_valid Image_NewStore_def)
qed

definition image_svc :: svc where
  "image_svc = (example_svc created_status)\<lparr>imageStore := one_image\<rparr>"


subsection \<open>Credentials and labels\<close>

text \<open>
  Credentials that are bound to a server address go to no other host: if \<^verbatim>\<open>ParseAuth\<close> returns a
  non-empty user or secret, the configuration names no server or the requested host is the host of that
  server.
\<close>

lemma ParseAuth_no_leak:
  assumes "ParseAuth urlHost decode64 (Some a) host = Inr (user, secret)" "user \<noteq> [] \<or> secret \<noteq> []"
  shows "au_ServerAddress a = [] \<or> urlHost (au_ServerAddress a) = Inr host"
  using assms by (auto simp: ParseAuth_def Let_def split: if_splits sum.splits)

lemma Join_append:
  "xs \<noteq> [] \<Longrightarrow> Join (xs @ [x]) sep = Join xs sep @ sep @ x"
  by (induction xs sep rule: Join.induct) auto

lemma Join_nonempty: "xs \<noteq> [] \<Longrightarrow> [] \<notin> set xs \<Longrightarrow> Join xs sep \<noteq> []"
  by (cases "(xs, sep)" rule: Join.cases) auto

lemma getLayersLoop_spec:
  fixes prev :: "string list"
  assumes "[] \<notin> set prev" "[] \<notin> set (map ds_Digest (filter (\<lambda>l. isLayer (ds_MediaType l)) descs))"
  shows "\<exists>k. getLayersLoop isLayer validate (Join prev '','') descs =
      Join (prev @ take k (map ds_Digest (filter (\<lambda>l. isLayer (ds_MediaType l)) descs))) '','' \<and>
    k \<le> length (filter (\<lambda>l. isLayer (ds_MediaType l)) descs) \<and>
    (\<forall>j. 0 < j \<and> j \<le> k \<longrightarrow> validate (Join (prev @ take j (map ds_Digest (filter (\<lambda>l. isLayer (ds_MediaType l)) descs))) '','')) \<and>
    (k < length (filter (\<lambda>l. isLayer (ds_MediaType l)) descs) \<longrightarrow>
       \<not> validate (Join (prev @ take (Suc k) (map ds_Digest (filter (\<lambda>l. isLayer (ds_MediaType l)) descs))) '',''))"
  using assms
proof (induction descs arbitrary: prev)
  case (Cons l descs)
  let ?D = "map ds_Digest (filter (\<lambda>l. isLayer (ds_MediaType l)) descs)"
  show ?case
  proof (cases "isLayer (ds_MediaType l)")
    case False
    then show ?thesis using Cons.IH [of prev] Cons.prems by simp
  next
    case True
    let ?prev' = "prev @ [ds_Digest l]"
    have j: "Join prev '','' @ (if Join prev '','' \<noteq> [] then '','' @ ds_Digest l else ds_Digest l) = Join ?prev' '',''"
      using Cons.prems(1) Join_nonempty [of prev "'',''"] by (cases "prev = []") (auto simp: Join_append)
    show ?thesis
    proof (cases "validate (Join ?prev' '','')")
      case False
      then show ?thesis using True j by (intro exI [of _ 0]) (simp add: Let_def)
    next
      case v: True
      from Cons.IH [of ?prev'] Cons.prems True obtain k where
        k: "getLayersLoop isLayer validate (Join ?prev' '','') descs = Join (?prev' @ take k ?D) '',''" "k \<le> length ?D"
          "\<forall>j. 0 < j \<and> j \<le> k \<longrightarrow> validate (Join (?prev' @ take j ?D) '','')"
          "k < length ?D \<longrightarrow> \<not> validate (Join (?prev' @ take (Suc k) ?D) '','')" by auto
      have "validate (Join (prev @ take j (ds_Digest l # ?D)) '','')" if "0 < j" "j \<le> Suc k" for j
      proof (cases j)
        case (Suc i)
        then show ?thesis using k(3) v that by (cases i) auto
      qed (use that in simp)
      with k True v j show ?thesis by (intro exI [of _ "Suc k"]) (simp add: Let_def)
    qed
  qed
qed auto

text \<open>
  \<^verbatim>\<open>getLayers\<close> joins the digests of the longest run of layers, from the first on, for which every
  longer and longer label stays valid; descriptors that are not layers are skipped.
\<close>

lemma getLayers_correct:
  assumes "\<forall>l \<in> set descs. ds_Digest l \<noteq> []"
  shows "\<exists>k. let D = map ds_Digest (filter (\<lambda>l. isLayer (ds_MediaType l)) descs) in
    k \<le> length D \<and> getLayers isLayer validate descs = Join (take k D) '','' \<and>
    (\<forall>j. 0 < j \<and> j \<le> k \<longrightarrow> validate (Join (take j D) '','')) \<and>
    (k < length D \<longrightarrow> \<not> validate (Join (take (Suc k) D) '',''))"
proof -
  have "[] \<notin> set (map ds_Digest (filter (\<lambda>l. isLayer (ds_MediaType l)) descs))" using assms by auto
  from getLayersLoop_spec [of "[]", OF _ this, of validate] show ?thesis
    unfolding getLayers_def Let_def by auto
qed

end
