(* ===== verification/EventMonitor.thy ===== *)
theory EventMonitor
  imports ImageHandlers
begin

section \<open>The event monitor\<close>

text \<open>
  \<^verbatim>\<open>pkg/server/events.go\<close>: the monitor handles one event at a time; an event whose handling fails is
  queued under its id and retried with exponential backoff, and later events of the same id queue up
  behind it. The clock is an argument (\<open>now\<close>, in nanoseconds); durations are 64-bit. The order in which
  a map is ranged over is an argument as well.
\<close>

datatype event =
    TaskExit taskExit
  | TaskOOM string
  | ImageCreate string
  | ImageUpdate string
  | ImageDelete string

text \<open>An event as it comes off the wire: of an unsupported type or malformed, or one of the above.\<close>

datatype anyEvent = Malformed | Unsupported | Known event

definition convertEvent :: "anyEvent \<Rightarrow> (string \<times> event) result" where
  "convertEvent e =
     (case e of
        Malformed \<Rightarrow> Inl (Wrapf (Errorf ''malformed'' []) ''failed to unmarshalany'' [])
      | Known (TaskOOM i) \<Rightarrow> Inr (i, TaskOOM i)
      | Known (ImageCreate n) \<Rightarrow> Inr (n, ImageCreate n)
      | Known (ImageUpdate n) \<Rightarrow> Inr (n, ImageUpdate n)
      | Known (ImageDelete n) \<Rightarrow> Inr (n, ImageDelete n)
      | _ \<Rightarrow> Inl (Errorf ''unsupported event'' []))"

text \<open>
  \<^verbatim>\<open>startExitMonitor\<close>: what its goroutine sends. The outcome is \<open>None\<close> if the context is cancelled
  first, else the exit status and time, or the error of reading them.
\<close>

definition startExitMonitor :: "string \<Rightarrow> 32 word \<Rightarrow> 64 word \<Rightarrow> (32 word \<times> 64 word) result option \<Rightarrow> taskExit option" where
  "startExitMonitor i pid now exitRes =
     (case exitRes of
        None \<Rightarrow> None
      | Some res \<Rightarrow>
          (let (exitStatus, exitedAt) = (case res of Inl err \<Rightarrow> (unknownExitCode, now) | Inr x \<Rightarrow> x)
           in Some \<lparr>te_ContainerID = i, te_ID = i, te_Pid = pid, te_ExitStatus = exitStatus, te_ExitedAt = exitedAt\<rparr>))"

subsection \<open>Handling one event\<close>

definition sandboxExited :: "sb_status \<Rightarrow> sb_status result" where
  "sandboxExited status = Inr (status\<lparr>sb_State := StateNotReady, sb_Pid := 0\<rparr>)"

definition handleSandboxExit :: "world \<Rightarrow> taskExit \<Rightarrow> sbx \<Rightarrow> unit handler" where
  "handleSandboxExit w e sb s =
     (let (task, s1) = ext w (CtrTask (sb_ID sb)) s;
          update = bindA (wrapA (sbStatusUpdate sandboxExited sb) ''failed to update sandbox state'' [])
                     (\<lambda>_. modifyA (sandboxStop sb))
      in case task of
           Inl err \<Rightarrow>
             (if \<not> IsNotFound err then (Inl (Wrapf err ''failed to load task for sandbox'' []), s1)
              else update s1)
         | Inr _ \<Rightarrow>
             thenA (wrapA (tolerateA (ext w (TaskDelete (sb_ID sb))) IsNotFound) ''failed to stop sandbox'' []) update s1)"

definition handleTaskExit :: "world \<Rightarrow> taskExit \<Rightarrow> unit handler" where
  "handleTaskExit w e s =
     (case Store_Get (containerStore s) (te_ID e) of
        Inr cntr \<Rightarrow> wrapA (handleContainerExit w e cntr) ''failed to handle container TaskExit event'' [] s
      | Inl err \<Rightarrow>
          (if err \<noteq> ErrNotExist then (Inl (Wrapf err (''can'' @ [CHR 0x27] @ ''t find container for TaskExit event'') []), s)
           else case Sandbox_Get (sandboxStore s) (te_ID e) of
             Inr sb \<Rightarrow> wrapA (handleSandboxExit w e sb) ''failed to handle sandbox TaskExit event'' [] s
           | Inl err \<Rightarrow>
               (if err \<noteq> ErrNotExist then (Inl (Wrapf err (''can'' @ [CHR 0x27] @ ''t find sandbox for TaskExit event'') []), s)
                else (Inr (), s))))"

definition handleOOM :: "world \<Rightarrow> string \<Rightarrow> unit handler" where
  "handleOOM w i s =
     (case Store_Get (containerStore s) i of
        Inl err \<Rightarrow>
          (if err \<noteq> ErrNotExist then (Inl (Wrapf err (''can'' @ [CHR 0x27] @ ''t find container for TaskOOM event'') []), s)
           else (Inr (), s))
      | Inr cntr \<Rightarrow>
          wrapA (statusUpdateSync w oomKilled cntr) ''failed to update container status for TaskOOM event'' [] s)"

fun handleEvent :: "world \<Rightarrow> event \<Rightarrow> unit handler" where
  "handleEvent w (TaskExit e) = handleTaskExit w e"
| "handleEvent w (TaskOOM i) = handleOOM w i"
| "handleEvent w (ImageCreate n) = updateImage w n"
| "handleEvent w (ImageUpdate n) = updateImage w n"
| "handleEvent w (ImageDelete n) = updateImage w n"

subsection \<open>Backoff queues\<close>

definition backOffInitDuration :: int where "backOffInitDuration = 1000000000"
definition backOffMaxDuration :: int where "backOffMaxDuration = 300000000000"

record 'e backOffQueue =
  bq_events :: "'e list"
  bq_expireTime :: int
  bq_duration :: int

record 'e backOff =
  bo_queuePool :: "string \<rightharpoonup> 'e backOffQueue"
  bo_minDuration :: int
  bo_maxDuration :: int

definition newBackOff :: "'e backOff" where
  "newBackOff = \<lparr>bo_queuePool = Map.empty, bo_minDuration = backOffInitDuration, bo_maxDuration = backOffMaxDuration\<rparr>"

definition newBackOffQueue :: "'e list \<Rightarrow> int \<Rightarrow> int \<Rightarrow> 'e backOffQueue" where
  "newBackOffQueue events initial now = \<lparr>bq_events = events, bq_expireTime = now + initial, bq_duration = initial\<rparr>"

definition isExpire :: "int \<Rightarrow> 'e backOffQueue \<Rightarrow> bool" where
  "isExpire now q \<longleftrightarrow> \<not> now < bq_expireTime q"

definition getExpiredIDs :: "string list \<Rightarrow> int \<Rightarrow> 'e backOff \<Rightarrow> string list" where
  "getExpiredIDs order now b =
     filter (\<lambda>i. case bo_queuePool b i of None \<Rightarrow> False | Some q \<Rightarrow> isExpire now q) order"

definition isInBackOff :: "'e backOff \<Rightarrow> string \<Rightarrow> bool" where
  "isInBackOff b key \<longleftrightarrow> bo_queuePool b key \<noteq> None"

definition enBackOff :: "int \<Rightarrow> string \<Rightarrow> 'e \<Rightarrow> 'e backOff \<Rightarrow> 'e backOff" where
  "enBackOff now key evt b =
     (case bo_queuePool b key of
        Some q \<Rightarrow> b\<lparr>bo_queuePool := (bo_queuePool b)(key \<mapsto> q\<lparr>bq_events := bq_events q @ [evt]\<rparr>)\<rparr>
      | None \<Rightarrow> b\<lparr>bo_queuePool := (bo_queuePool b)(key \<mapsto> newBackOffQueue [evt] (bo_minDuration b) now)\<rparr>)"

text \<open>The queue of an id that is not queued is a nil pointer; the monitor only asks for queued ids.\<close>

definition deBackOff :: "string \<Rightarrow> 'e backOff \<Rightarrow> 'e backOffQueue option \<times> 'e backOff" where
  "deBackOff key b = (bo_queuePool b key, b\<lparr>bo_queuePool := (bo_queuePool b)(key := None)\<rparr>)"

definition reBackOff :: "int \<Rightarrow> string \<Rightarrow> 'e list \<Rightarrow> int \<Rightarrow> 'e backOff \<Rightarrow> 'e backOff" where
  "reBackOff now key events oldDuration b =
     (let duration = mul64 2 oldDuration;
          duration' = (if duration > bo_maxDuration b then bo_maxDuration b else duration)
      in b\<lparr>bo_queuePool := (bo_queuePool b)(key \<mapsto> newBackOffQueue events duration' now)\<rparr>)"

subsection \<open>The loop\<close>

text \<open>
  One turn of the loop. The handler is an argument: it takes an event and the service state to the
  outcome and the new state. Each turn also yields the events that were handled successfully, in
  order, with their ids; an event that was retried successfully appears then.
\<close>

type_synonym ('e, 's) handleFn = "'e \<Rightarrow> 's \<Rightarrow> unit result \<times> 's"

definition onEvent ::
    "('e, 's) handleFn \<Rightarrow> int \<Rightarrow> string \<Rightarrow> 'e \<Rightarrow> 'e backOff \<Rightarrow> 's \<Rightarrow> 'e backOff \<times> 's \<times> (string \<times> 'e) list" where
  "onEvent handle now i e b s =
     (if isInBackOff b i then (enBackOff now i e b, s, [])
      else case handle e s of
        (Inl err, s') \<Rightarrow> (enBackOff now i e b, s', [])
      | (Inr _, s') \<Rightarrow> (b, s', [(i, e)]))"

fun retryQueue ::
    "('e, 's) handleFn \<Rightarrow> int \<Rightarrow> string \<Rightarrow> int \<Rightarrow> 'e list \<Rightarrow> 'e backOff \<Rightarrow> 's \<Rightarrow> 'e backOff \<times> 's \<times> (string \<times> 'e) list" where
  "retryQueue handle now i duration [] b s = (b, s, [])"
| "retryQueue handle now i duration (e # es) b s =
     (case handle e s of
        (Inl err, s') \<Rightarrow> (reBackOff now i (e # es) duration b, s', [])
      | (Inr _, s') \<Rightarrow> (let (b', s'', log) = retryQueue handle now i duration es b s' in (b', s'', (i, e) # log)))"

fun retryAll ::
    "('e, 's) handleFn \<Rightarrow> int \<Rightarrow> string list \<Rightarrow> 'e backOff \<Rightarrow> 's \<Rightarrow> 'e backOff \<times> 's \<times> (string \<times> 'e) list" where
  "retryAll handle now [] b s = (b, s, [])"
| "retryAll handle now (i # ids) b s =
     (case deBackOff i b of
        (None, b') \<Rightarrow> retryAll handle now ids b' s
      | (Some q, b') \<Rightarrow>
          (let (b1, s1, log1) = retryQueue handle now i (bq_duration q) (bq_events q) b' s;
               (b2, s2, log2) = retryAll handle now ids b1 s1
           in (b2, s2, log1 @ log2)))"

definition onTick ::
    "('e, 's) handleFn \<Rightarrow> string list \<Rightarrow> int \<Rightarrow> 'e backOff \<Rightarrow> 's \<Rightarrow> 'e backOff \<times> 's \<times> (string \<times> 'e) list" where
  "onTick handle order now b s = retryAll handle now (getExpiredIDs order now b) b s"

text \<open>An envelope from containerd: other namespaces and unknown events are dropped.\<close>

definition onEnvelope ::
    "world \<Rightarrow> int \<Rightarrow> string \<Rightarrow> anyEvent \<Rightarrow> event backOff \<Rightarrow> svc \<Rightarrow> event backOff \<times> svc \<times> (string \<times> event) list" where
  "onEnvelope w now namespace e b s =
     (if namespace \<noteq> ''k8s.io'' then (b, s, [])
      else case convertEvent e of
        Inl err \<Rightarrow> (b, s, [])
      | Inr (i, evt) \<Rightarrow> onEvent (handleEvent w) now i evt b s)"

definition onExit :: "world \<Rightarrow> int \<Rightarrow> taskExit \<Rightarrow> event backOff \<Rightarrow> svc \<Rightarrow> event backOff \<times> svc \<times> (string \<times> event) list" where
  "onExit w now e b s = onEvent (handleEvent w) now (te_ID e) (TaskExit e) b s"

subsection \<open>No event is lost or reordered\<close>

definition queued :: "'e backOff \<Rightarrow> string \<Rightarrow> 'e list" where
  "queued b i = (case bo_queuePool b i of None \<Rightarrow> [] | Some q \<Rightarrow> bq_events q)"

definition logged :: "string \<Rightarrow> (string \<times> 'e) list \<Rightarrow> 'e list" where
  "logged i log = map snd (filter (\<lambda>p. fst p = i) log)"

lemma logged_simps [simp]: "logged i [] = []" "logged i ((j, e) # log) = (if j = i then e # logged i log else logged i log)"
  "logged i (xs @ ys) = logged i xs @ logged i ys"
  by (simp_all add: logged_def)

text \<open>Queues are never empty, and their backoff stays between the bounds.\<close>

definition bo_ok :: "'e backOff \<Rightarrow> bool" where
  "bo_ok b \<longleftrightarrow> bo_minDuration b = backOffInitDuration \<and> bo_maxDuration b = backOffMaxDuration \<and>
     (\<forall>i q. bo_queuePool b i = Some q \<longrightarrow> bq_events q \<noteq> [] \<and>
        backOffInitDuration \<le> bq_duration q \<and> bq_duration q \<le> backOffMaxDuration)"

lemma reBackOff_duration:
  assumes "backOffInitDuration \<le> d" "d \<le> backOffMaxDuration" "bo_maxDuration b = backOffMaxDuration"
  shows "bo_queuePool (reBackOff now i es d b) = (bo_queuePool b)(i \<mapsto> newBackOffQueue es (min (2 * d) backOffMaxDuration) now)"
proof -
  have "mul64 2 d = 2 * d"
    using assms(1,2) by (intro mul64_exact) (auto simp: backOffInitDuration_def backOffMaxDuration_def)
  then show ?thesis using assms(3) by (auto simp: reBackOff_def Let_def min_def)
qed

lemma enBackOff_queued: "queued (enBackOff now i e b) j = (if j = i then queued b i @ [e] else queued b j)"
  by (auto simp: enBackOff_def queued_def newBackOffQueue_def split: option.splits)

lemma enBackOff_ok: "bo_ok b \<Longrightarrow> bo_ok (enBackOff now i e b)"
  by (auto simp: bo_ok_def enBackOff_def newBackOffQueue_def backOffInitDuration_def backOffMaxDuration_def
      split: option.splits if_splits)

lemma reBackOff_ok:
  assumes "bo_ok b" "es \<noteq> []" "backOffInitDuration \<le> d" "d \<le> backOffMaxDuration"
  shows "bo_ok (reBackOff now i es d b)"
proof -
  have "bo_minDuration (reBackOff now i es d b) = bo_minDuration b" "bo_maxDuration (reBackOff now i es d b) = bo_maxDuration b"
    by (simp_all add: reBackOff_def Let_def)
  then show ?thesis using assms reBackOff_duration [OF assms(3,4), of b now i es]
    by (auto simp: bo_ok_def newBackOffQueue_def backOffInitDuration_def backOffMaxDuration_def)
qed

lemma retryQueue_spec:
  assumes "retryQueue handle now i d es b s = (b', s', log)" "bo_ok b" "queued b i = []"
    "backOffInitDuration \<le> d" "d \<le> backOffMaxDuration"
  shows "bo_ok b' \<and> es = logged i log @ queued b' i \<and> (\<forall>j. j \<noteq> i \<longrightarrow> logged j log = [] \<and> queued b' j = queued b j)"
  using assms
proof (induction es arbitrary: s log s' b')
  case (Cons e es)
  show ?case
  proof (cases "handle e s")
    case (Pair r s1)
    show ?thesis
    proof (cases r)
      case (Inl err)
      then have "b' = reBackOff now i (e # es) d b" "log = []" using Cons.prems(1) Pair by auto
      moreover have "queued (reBackOff now i (e # es) d b) j = (if j = i then e # es else queued b j)" for j
        using reBackOff_duration [OF Cons.prems(4,5), of b now i "e # es"] Cons.prems(2)
        by (auto simp: bo_ok_def queued_def newBackOffQueue_def)
      ultimately show ?thesis using reBackOff_ok [OF Cons.prems(2) _ Cons.prems(4,5), of "e # es"] by simp
    next
      case (Inr u)
      obtain b2 s2 log2 where r: "retryQueue handle now i d es b s1 = (b2, s2, log2)" by (metis prod_cases3)
      then show ?thesis using Cons.IH [OF r Cons.prems(2-5)] Cons.prems(1) Pair Inr by auto
    qed
  qed
qed auto

lemma retryAll_spec:
  assumes "retryAll handle now ids b s = (b', s', log)" "bo_ok b"
  shows "bo_ok b' \<and> (\<forall>i. queued b i = logged i log @ queued b' i)"
  using assms
proof (induction ids arbitrary: b s log s' b')
  case (Cons i ids)
  let ?b0 = "b\<lparr>bo_queuePool := (bo_queuePool b)(i := None)\<rparr>"
  have b0: "bo_ok ?b0" "queued ?b0 i = []" "\<And>j. j \<noteq> i \<Longrightarrow> queued ?b0 j = queued b j"
    using Cons.prems(2) by (auto simp: bo_ok_def queued_def)
  show ?case
  proof (cases "bo_queuePool b i")
    case None
    then have "queued b = queued ?b0" by (auto simp: queued_def fun_eq_iff)
    then show ?thesis using Cons.IH [OF _ b0(1)] Cons.prems(1) None by (simp add: deBackOff_def)
  next
    case (Some q)
    then have q: "backOffInitDuration \<le> bq_duration q" "bq_duration q \<le> backOffMaxDuration" "queued b i = bq_events q"
      using Cons.prems(2) by (auto simp: bo_ok_def queued_def)
    obtain b1 s1 log1 where r1: "retryQueue handle now i (bq_duration q) (bq_events q) ?b0 s = (b1, s1, log1)" by (metis prod_cases3)
    obtain b2 s2 log2 where r2: "retryAll handle now ids b1 s1 = (b2, s2, log2)" by (metis prod_cases3)
    have e: "b' = b2" "log = log1 @ log2" using Cons.prems(1) Some r1 r2 by (auto simp: deBackOff_def)
    note s1 = retryQueue_spec [OF r1 b0(1,2) q(1,2)]
    then have "bo_ok b2 \<and> (\<forall>j. queued b1 j = logged j log2 @ queued b2 j)" using Cons.IH [OF r2] by simp
    moreover have "queued b j = logged j log1 @ queued b1 j" for j
      using s1 b0(3) q(3) by (cases "j = i") auto
    ultimately show ?thesis using e by simp
  qed
qed auto

lemma onEvent_spec:
  assumes "onEvent handle now i e b s = (b', s', log)" "bo_ok b"
  shows "bo_ok b' \<and> (\<forall>j. queued b j @ (if j = i then [e] else []) = logged j log @ queued b' j)"
proof (cases "isInBackOff b i")
  case True
  then show ?thesis using assms enBackOff_ok [OF assms(2), of now i e] by (auto simp: onEvent_def enBackOff_queued)
next
  case False
  then have "queued b i = []" by (simp add: isInBackOff_def queued_def)
  moreover obtain r s1 where h: "handle e s = (r, s1)" by fastforce
  ultimately show ?thesis using assms False enBackOff_ok [OF assms(2), of now i e]
    by (cases r) (auto simp: onEvent_def enBackOff_queued)
qed

text \<open>
  The monitor over time, with the events received and the events handled successfully per id. A
  step is the arrival of an event or a tick; the handler, the clock and the order of map iteration are
  arbitrary.
\<close>

type_synonym ('e, 's) monitor = "'e backOff \<times> 's \<times> (string \<Rightarrow> 'e list) \<times> (string \<Rightarrow> 'e list)"

inductive monitor_step :: "('e, 's) handleFn \<Rightarrow> ('e, 's) monitor \<Rightarrow> ('e, 's) monitor \<Rightarrow> bool"
  for handle :: "('e, 's) handleFn" where
  arrive: "onEvent handle now i e b s = (b', s', log) \<Longrightarrow>
    monitor_step handle (b, s, received, handled) (b', s', received(i := received i @ [e]), \<lambda>j. handled j @ logged j log)"
| tick: "onTick handle order now b s = (b', s', log) \<Longrightarrow>
    monitor_step handle (b, s, received, handled) (b', s', received, \<lambda>j. handled j @ logged j log)"

definition monitor_init :: "('e, 's) monitor \<Rightarrow> bool" where
  "monitor_init m \<longleftrightarrow> (\<exists>s. m = (newBackOff, s, \<lambda>_. [], \<lambda>_. []))"

definition monitor_inv :: "('e, 's) monitor \<Rightarrow> bool" where
  "monitor_inv m = (case m of (b, s, received, handled) \<Rightarrow> bo_ok b \<and> (\<forall>i. received i = handled i @ queued b i))"

interpretation monitor: inv_system monitor_init "monitor_step handle" monitor_inv
proof
  fix m :: "('a, 'b) monitor" assume "monitor_init m"
  then show "monitor_inv m" by (auto simp: monitor_init_def monitor_inv_def newBackOff_def bo_ok_def queued_def)
next
  fix m n :: "('a, 'b) monitor" assume inv: "monitor_inv m" and step: "monitor_step handle m n"
  from step show "monitor_inv n"
  proof cases
    case (arrive now i e b s b' s' log received handled)
    have "bo_ok b" and m: "\<And>j. received j = handled j @ queued b j"
      using inv arrive(1) by (auto simp: monitor_inv_def)
    with onEvent_spec [OF arrive(3)] have ok: "bo_ok b'"
      and q: "\<And>j. queued b j @ (if j = i then [e] else []) = logged j log @ queued b' j" by auto
    have "(received(i := received i @ [e])) j = (handled j @ logged j log) @ queued b' j" for j
      using q [of j] m [of j] by (cases "j = i") (simp_all flip: append_assoc, simp_all)
    then show ?thesis using ok arrive(2) by (simp add: monitor_inv_def)
  next
    case (tick order now b s b' s' log received handled)
    then show ?thesis using retryAll_spec [of handle now "getExpiredIDs order now b" b s b' s' log] inv
      by (simp add: monitor_inv_def onTick_def)
  qed
qed

text \<open>
  C24: no event is lost, duplicated or reordered. Whatever the handler does, at any time the events
  received for an id are the events of that id handled so far followed by those waiting in its queue, in
  order of arrival; and a waiting queue is not empty and has a backoff of 1 second to 5 minutes.
\<close>

theorem events_in_order:
  assumes "monitor_init m" "(monitor_step handle)\<^sup>*\<^sup>* m (b, s, received, handled)"
  shows "received i = handled i @ queued b i \<and>
    (\<forall>q. bo_queuePool b i = Some q \<longrightarrow> bq_events q \<noteq> [] \<and> 1000000000 \<le> bq_duration q \<and> bq_duration q \<le> 300000000000)"
  using monitor.inv_reachable [OF assms]
  by (auto simp: monitor_inv_def bo_ok_def backOffInitDuration_def backOffMaxDuration_def)

definition always_fails :: "(nat, unit) handleFn" where
  "always_fails e s = (Inl ErrNotExist, s)"

theorem events_in_order_witness:
  "queued (fst (onEvent always_fails 0 ''c1'' 7 newBackOff ())) ''c1'' = [7]"
proof -
  let ?r = "onEvent always_fails 0 ''c1'' 7 newBackOff ()"
  have i: "monitor_init (newBackOff, (), (\<lambda>_. []) :: string \<Rightarrow> nat list, \<lambda>_. [])" by (simp add: monitor_init_def)
  have "monitor_step always_fails (newBackOff, (), \<lambda>_. [], \<lambda>_. [])
      (fst ?r, fst (snd ?r), (\<lambda>_. [])(''c1'' := [] @ [7]), \<lambda>j. [] @ logged j (snd (snd ?r)))"
    by (rule monitor_step.arrive [where now = 0]) (simp add: prod_eq_iff)
  from events_in_order [OF i r_into_rtranclp, OF this, of "''c1''"] show ?thesis
    by (simp add: onEvent_def isInBackOff_def newBackOff_def always_fails_def)
qed

text \<open>
  Exponential backoff. An event that fails waits 1 second; after \<open>k\<close> further failed retries its
  queue waits \<open>2\<^sup>k\<close> seconds, but at most 5 minutes.
\<close>

fun requeued :: "int \<Rightarrow> string \<Rightarrow> 'e list \<Rightarrow> nat \<Rightarrow> 'e backOff \<Rightarrow> 'e backOff" where
  "requeued now i es 0 b = b"
| "requeued now i es (Suc k) b =
     (case deBackOff i (requeued now i es k b) of
        (None, b') \<Rightarrow> b'
      | (Some q, b') \<Rightarrow> reBackOff now i es (bq_duration q) b')"

lemma exponential_backoff:
  "map_option bq_duration (bo_queuePool (requeued now i es k (enBackOff now i e newBackOff)) i) =
     Some (min (2 ^ k * 1000000000) 300000000000) \<and>
   bo_maxDuration (requeued now i es k (enBackOff now i e newBackOff)) = 300000000000"
proof (induction k)
  case 0
  show ?case by (simp add: enBackOff_def newBackOff_def newBackOffQueue_def backOffInitDuration_def backOffMaxDuration_def)
next
  case (Suc k)
  let ?b = "requeued now i es k (enBackOff now i e newBackOff)"
  obtain q where q: "bo_queuePool ?b i = Some q" "bq_duration q = min (2 ^ k * 1000000000) 300000000000"
    using Suc.IH by auto
  let ?b' = "?b\<lparr>bo_queuePool := (bo_queuePool ?b)(i := None)\<rparr>"
  have d: "backOffInitDuration \<le> bq_duration q" "bq_duration q \<le> backOffMaxDuration" "bo_maxDuration ?b' = backOffMaxDuration"
    using q(2) Suc.IH by (auto simp: backOffInitDuration_def backOffMaxDuration_def)
  have "requeued now i es (Suc k) (enBackOff now i e newBackOff) = reBackOff now i es (bq_duration q) ?b'"
    using q(1) by (simp add: deBackOff_def)
  then show ?case
    using reBackOff_duration [OF d, of now i es] Suc.IH q(2)
    by (simp add: newBackOffQueue_def backOffMaxDuration_def reBackOff_def Let_def)
qed

end
