(* ===== verification/PodNetwork.thy ===== *)
theory PodNetwork
  imports EventMonitor
begin

section \<open>Pod networks, runtimes and sandbox files\<close>

text \<open>
  The helpers of \<^verbatim>\<open>sandbox_run.go\<close>, \<^verbatim>\<open>sandbox_run_unix.go\<close> and \<^verbatim>\<open>bandwidth/utils.go\<close>: what CNI is asked
  for, which of its addresses the pod reports, which OCI runtime a pod gets, and the files a sandbox
  needs. The model is that of the Linux build.
\<close>

subsection \<open>Bandwidth\<close>

text \<open>\<^verbatim>\<open>resource.ParseQuantity\<close> followed by \<^verbatim>\<open>Value()\<close> is a parameter.\<close>

definition minRsrc :: int where "minRsrc = 1000"
definition maxRsrc :: int where "maxRsrc = 1000000000000000"

definition validateBandwidthIsReasonable :: "int \<Rightarrow> unit result" where
  "validateBandwidthIsReasonable rsrc =
     (if rsrc < minRsrc then Inl (Errorf ''resource is unreasonably small (< 1kbit)'' [])
      else if rsrc > maxRsrc then Inl (Errorf ''resoruce is unreasonably large (> 1Pbit)'' [])
      else Inr ())"

definition extractBandwidth :: "(string \<Rightarrow> int result) \<Rightarrow> string \<Rightarrow> labels \<Rightarrow> int option result" where
  "extractBandwidth parse key podAnnotations =
     (case podAnnotations key of
        None \<Rightarrow> Inr None
      | Some str \<Rightarrow>
          (case parse str of
             Inl err \<Rightarrow> Inl err
           | Inr v \<Rightarrow> (case validateBandwidthIsReasonable v of Inl err \<Rightarrow> Inl err | Inr _ \<Rightarrow> Inr (Some v))))"

definition ExtractPodBandwidthResources :: "(string \<Rightarrow> int result) \<Rightarrow> labels \<Rightarrow> (int option \<times> int option) result" where
  "ExtractPodBandwidthResources parse podAnnotations =
     (case extractBandwidth parse ''kubernetes.io/ingress-bandwidth'' podAnnotations of
        Inl err \<Rightarrow> Inl err
      | Inr ingress \<Rightarrow>
          (case extractBandwidth parse ''kubernetes.io/egress-bandwidth'' podAnnotations of
             Inl err \<Rightarrow> Inl err
           | Inr egress \<Rightarrow> Inr (ingress, egress)))"

definition MaxUint32 :: "64 word" where "MaxUint32 = 4294967295"

definition toCNIBandWidth :: "(string \<Rightarrow> int result) \<Rightarrow> labels \<Rightarrow> cniBandWidth option result" where
  "toCNIBandWidth parse annotations =
     (case ExtractPodBandwidthResources parse annotations of
        Inl err \<Rightarrow> Inl (Wrapf err ''reading pod bandwidth annotations'' [])
      | Inr (ingress, egress) \<Rightarrow>
          (if ingress = None \<and> egress = None then Inr None
           else
             (let b0 = \<lparr>bw_IngressRate = 0, bw_IngressBurst = 0, bw_EgressRate = 0, bw_EgressBurst = 0\<rparr>;
                  b1 = (case ingress of None \<Rightarrow> b0
                        | Some v \<Rightarrow> b0\<lparr>bw_IngressRate := word_of_int v, bw_IngressBurst := MaxUint32\<rparr>);
                  b2 = (case egress of None \<Rightarrow> b1
                        | Some v \<Rightarrow> b1\<lparr>bw_EgressRate := word_of_int v, bw_EgressBurst := MaxUint32\<rparr>)
              in Inr (Some b2))))"

subsection \<open>Options for CNI\<close>

text \<open>A getter on nil metadata yields the empty string.\<close>

definition toCNILabels :: "string \<Rightarrow> podSandboxConfig \<Rightarrow> (string \<times> string) list" where
  "toCNILabels i config =
     [(''K8S_POD_NAMESPACE'', case pc_Metadata config of None \<Rightarrow> [] | Some m \<Rightarrow> pmd_Namespace m),
      (''K8S_POD_NAME'', case pc_Metadata config of None \<Rightarrow> [] | Some m \<Rightarrow> pmd_Name m),
      (''K8S_POD_INFRA_CONTAINER_ID'', i), (''IgnoreUnknown'', ''1'')]"

fun protocolLower :: "protocol \<Rightarrow> string" where
  "protocolLower TCP = ''tcp''"
| "protocolLower UDP = ''udp''"
| "protocolLower SCTP = ''sctp''"

text \<open>Ports are \<^verbatim>\<open>int32\<close>; a mapping without a positive host port is dropped.\<close>

fun toCNIPortMappings :: "portMapping list \<Rightarrow> cniPortMapping list" where
  "toCNIPortMappings [] = []"
| "toCNIPortMappings (mapping # ms) =
     (if sint (pm_HostPort mapping) \<le> 0 then toCNIPortMappings ms
      else \<lparr>np_HostPort = pm_HostPort mapping, np_ContainerPort = pm_ContainerPort mapping,
             np_Protocol = protocolLower (pm_Protocol mapping), np_HostIP = pm_HostIp mapping\<rparr> # toCNIPortMappings ms)"

definition toCNIDNS :: "dnsConfig option \<Rightarrow> dnsConfig option" where
  "toCNIDNS dns =
     (case dns of None \<Rightarrow> None
      | Some d \<Rightarrow> Some \<lparr>dns_Servers = dns_Servers d, dns_Searches = dns_Searches d, dns_Options = dns_Options d\<rparr>)"

definition cniNamespaceOpts :: "(string \<Rightarrow> int result) \<Rightarrow> string \<Rightarrow> podSandboxConfig \<Rightarrow> cniOpts result" where
  "cniNamespaceOpts parse i config =
     (let portMappings = toCNIPortMappings (pc_PortMappings config) in
      case toCNIBandWidth parse (pc_Annotations config) of
        Inl err \<Rightarrow> Inl err
      | Inr bandWidth \<Rightarrow>
          Inr \<lparr>on_Labels = toCNILabels i config,
               on_PortMap = (if length portMappings > 0 then Some portMappings else None),
               on_BandWidth = bandWidth, on_DNS = toCNIDNS (pc_DnsConfig config)\<rparr>)"

subsection \<open>The addresses of a pod\<close>

text \<open>
  The loop keeps the first IPv4 address apart. \<^verbatim>\<open>ip == ""\<close> is the test for \<open>none yet\<close>; indexing an
  empty slice would panic, which is \<open>None\<close>.
\<close>

fun selectLoop :: "ipConfig list \<Rightarrow> string \<Rightarrow> string list \<Rightarrow> string \<times> string list" where
  "selectLoop [] ip additionalIPs = (ip, additionalIPs)"
| "selectLoop (c # cs) ip additionalIPs =
     (if ip_is4 c \<and> ip = [] then selectLoop cs (ip_text c) additionalIPs
      else selectLoop cs ip (additionalIPs @ [ip_text c]))"

definition selectPodIPs :: "ipConfig list \<Rightarrow> (string \<times> string list) option" where
  "selectPodIPs ipConfigs =
     (let (ip, additionalIPs) = selectLoop ipConfigs [] [] in
      if ip \<noteq> [] then Some (ip, additionalIPs)
      else case additionalIPs of
        [] \<Rightarrow> None
      | a # as \<Rightarrow> Some (if length ipConfigs = 1 then (a, []) else (a, as)))"

definition defaultIfName :: string where "defaultIfName = ''eth0''"

definition configOf :: "sbx \<Rightarrow> podSandboxConfig" where
  "configOf sb = (case sm_Config (sb_meta sb) of Some c \<Rightarrow> c
     | None \<Rightarrow> \<lparr>pc_Metadata = None, pc_Hostname = [], pc_LogDirectory = [], pc_DnsConfig = None, pc_PortMappings = [],
                pc_Labels = Map.empty, pc_Annotations = Map.empty, pc_CgroupParent = [], pc_Privileged = False,
                pc_NsNetwork = NS_POD, pc_NsPid = NS_POD, pc_NsIpc = NS_POD, pc_Sysctls = Map.empty,
                pc_SelinuxOptions = None, pc_SupplementalGroups = [], pc_RunAsUser = None, pc_RunAsGroup = None, pc_SeccompProfilePath = []\<rparr>)"

definition setNetwork :: "sbx \<Rightarrow> string \<Rightarrow> string list \<Rightarrow> cniResult \<Rightarrow> sbx" where
  "setNetwork sb ip additional res =
     sb\<lparr>sb_meta := (sb_meta sb)\<lparr>sm_IP := ip, sm_AdditionalIPs := additional, sm_CNIResult := Some res\<rparr>\<rparr>"

definition setupPodNetwork :: "world \<Rightarrow> sbx \<Rightarrow> sbx handler" where
  "setupPodNetwork w sb s =
     (let i = sb_ID sb; path = sm_NetNSPath (sb_meta sb) in
      if \<not> netPlugin s then (Inl (Errorf ''cni config not initialized'' []), s)
      else case cniNamespaceOpts (w_parseQuantity w) i (configOf sb) of
        Inl err \<Rightarrow> (Inl (Wrapf err ''get cni namespace options'' []), s)
      | Inr opts \<Rightarrow>
          (case ext w (CNISetup i path opts) s of
             (Inl err, s1) \<Rightarrow> (Inl err, s1)
           | (Inr _, s1) \<Rightarrow>
               (let result = w_cni w (trace s1) in
                case cni_Interfaces result defaultIfName of
                  None \<Rightarrow> (Inl (Errorf ''failed to find network info for sandbox %q'' [i]), s1)
                | Some configs \<Rightarrow>
                    (if length configs > 0 then
                       (case selectPodIPs configs of
                          None \<Rightarrow> (Inl (Errorf ''runtime error: index out of range'' []), s1)
                        | Some (ip, additional) \<Rightarrow> (Inr (setNetwork sb ip additional result), s1))
                     else (Inl (Errorf ''failed to find network info for sandbox %q'' [i]), s1)))))"

definition teardownPodNetwork :: "world \<Rightarrow> sbx \<Rightarrow> unit handler" where
  "teardownPodNetwork w sb s =
     (if \<not> netPlugin s then (Inl (Errorf ''cni config not initialized'' []), s)
      else case cniNamespaceOpts (w_parseQuantity w) (sb_ID sb) (configOf sb) of
        Inl err \<Rightarrow> (Inl (Wrapf err ''get cni namespace options'' []), s)
      | Inr opts \<Rightarrow> ext w (CNIRemove (sb_ID sb) (sm_NetNSPath (sb_meta sb)) opts) s)"

subsection \<open>The runtime of a pod\<close>

definition RuntimeUntrusted :: string where "RuntimeUntrusted = ''untrusted''"

definition untrustedWorkload :: "podSandboxConfig \<Rightarrow> bool" where
  "untrustedWorkload config \<longleftrightarrow> pc_Annotations config ''io.kubernetes.cri.untrusted-workload'' = Some ''true''"

definition hostAccessingSandbox :: "podSandboxConfig \<Rightarrow> bool" where
  "hostAccessingSandbox config \<longleftrightarrow>
     pc_NsNetwork config = NS_NODE \<or> pc_NsPid config = NS_NODE \<or> pc_NsIpc config = NS_NODE"

definition lookupRuntime :: "criConfig \<Rightarrow> string \<Rightarrow> runtimeConfig result" where
  "lookupRuntime c handler =
     (let h = (if handler = [] then cf_DefaultRuntimeName c else handler) in
      case cf_Runtimes c h of
        None \<Rightarrow> Inl (Errorf ''no runtime for %q is configured'' [h])
      | Some r \<Rightarrow> Inr r)"

definition getSandboxRuntime :: "criConfig \<Rightarrow> podSandboxConfig \<Rightarrow> string \<Rightarrow> runtimeConfig result" where
  "getSandboxRuntime c config runtimeHandler =
     (if untrustedWorkload config then
        (if runtimeHandler \<noteq> [] \<and> runtimeHandler \<noteq> RuntimeUntrusted then
           Inl (Errorf ''untrusted workload with explicit runtime handler is not allowed'' [])
         else if hostAccessingSandbox config then Inl (Errorf ''untrusted workload with host access is not allowed'' [])
         else lookupRuntime c RuntimeUntrusted)
      else lookupRuntime c runtimeHandler)"

subsection \<open>Sandbox files\<close>

definition getSandboxHostname :: "criConfig \<Rightarrow> string \<Rightarrow> string" where
  "getSandboxHostname c i = getSandboxRootDir c i @ ''/hostname''"

definition getSandboxHosts :: "criConfig \<Rightarrow> string \<Rightarrow> string" where
  "getSandboxHosts c i = getSandboxRootDir c i @ ''/hosts''"

definition getResolvPath :: "criConfig \<Rightarrow> string \<Rightarrow> string" where
  "getResolvPath c i = getSandboxRootDir c i @ ''/resolv.conf''"

definition getSandboxDevShm :: "criConfig \<Rightarrow> string \<Rightarrow> string" where
  "getSandboxDevShm c i = getVolatileSandboxRootDir c i @ ''/shm''"

definition maxDNSSearches :: nat where "maxDNSSearches = 6"

definition newline :: string where "newline = [CHR 0x0A]"

definition parseDNSOptions :: "string list \<Rightarrow> string list \<Rightarrow> string list \<Rightarrow> string result" where
  "parseDNSOptions servers searches options =
     (if length searches > maxDNSSearches then Inl (Errorf ''DNSOption.Searches has more than %d domains'' [Itoa maxDNSSearches])
      else Inr ((if searches \<noteq> [] then ''search '' @ Join searches '' '' @ newline else []) @
                (if servers \<noteq> [] then ''nameserver '' @ Join servers (newline @ ''nameserver '') @ newline else []) @
                (if options \<noteq> [] then ''options '' @ Join options '' '' @ newline else [])))"

definition setupResolv :: "world \<Rightarrow> criConfig \<Rightarrow> string \<Rightarrow> podSandboxConfig \<Rightarrow> unit handler" where
  "setupResolv w cfg i config =
     bindA (case pc_DnsConfig config of
              None \<Rightarrow> returnA []
            | Some d \<Rightarrow> wrapA (liftA (parseDNSOptions (dns_Servers d) (dns_Searches d) (dns_Options d)))
                          ''failed to parse sandbox DNSConfig %+v'' [])
       (\<lambda>resolvContent. let resolvPath = getResolvPath cfg i in
          if resolvContent = [] then
            wrapA (ext w (CopyFile ''/etc/resolv.conf'' resolvPath)) (''failed to copy host'' @ [CHR 0x27] @ ''s resolv.conf to %q'') [resolvPath]
          else wrapA (ext w (WriteData resolvPath resolvContent)) ''failed to write resolv content to %q'' [resolvPath])"

definition setupShm :: "world \<Rightarrow> criConfig \<Rightarrow> string \<Rightarrow> podSandboxConfig \<Rightarrow> unit handler" where
  "setupShm w cfg i config =
     (if pc_NsIpc config = NS_NODE then
        wrapA (ext w (StatFile ''/dev/shm'')) ''host %q is not available for host ipc'' [''/dev/shm'']
      else
        thenA (wrapA (ext w (MkdirAll (getSandboxDevShm cfg i))) ''failed to create sandbox shm'' [])
              (wrapA (ext w (MountShm (getSandboxDevShm cfg i))) ''failed to mount sandbox shm'' []))"

definition setupSandboxFiles :: "world \<Rightarrow> criConfig \<Rightarrow> string \<Rightarrow> podSandboxConfig \<Rightarrow> unit handler" where
  "setupSandboxFiles w cfg i config =
     bindA (if pc_Hostname config = []
            then bindA (wrapA (ext w Hostname) ''failed to get hostname'' []) (\<lambda>_. getA (\<lambda>s. w_hostname w (trace s)))
            else returnA (pc_Hostname config)) (\<lambda>hostname.
     thenA (wrapA (ext w (WriteData (getSandboxHostname cfg i) (hostname @ newline)))
              ''failed to write hostname to %q'' [getSandboxHostname cfg i])
    (thenA (wrapA (ext w (CopyFile ''/etc/hosts'' (getSandboxHosts cfg i)))
              ''failed to generate sandbox hosts file %q'' [getSandboxHosts cfg i])
    (thenA (setupResolv w cfg i config)
           (setupShm w cfg i config))))"

definition cleanupSandboxFiles :: "world \<Rightarrow> criConfig \<Rightarrow> string \<Rightarrow> podSandboxConfig \<Rightarrow> unit handler" where
  "cleanupSandboxFiles w cfg i config =
     (if pc_NsIpc config \<noteq> NS_NODE then
        thenA (wrapA (ext w (FollowSymlink (getSandboxDevShm cfg i))) ''failed to follow symlink'' [])
       (bindA (getA (\<lambda>s. w_followed w (trace s) (getSandboxDevShm cfg i))) (\<lambda>path.
          wrapA (tolerateA (ext w (Unmount path)) IsOSNotExist) ''failed to unmount %q'' [path]))
      else returnA ())"

subsection \<open>Labels and listing\<close>

definition containerKindLabel :: string where "containerKindLabel = ''io.cri-containerd.kind''"
definition containerKindSandbox :: string where "containerKindSandbox = ''sandbox''"
definition containerKindContainer :: string where "containerKindContainer = ''container''"

definition buildLabels :: "labels \<Rightarrow> string \<Rightarrow> labels" where
  "buildLabels configLabels containerType = configLabels(containerKindLabel \<mapsto> containerType)"

subsection \<open>Which address is reported\<close>

lemma selectLoop_taken: "ip \<noteq> [] \<Longrightarrow> selectLoop cs ip acc = (ip, acc @ map ip_text cs)"
  by (induction cs arbitrary: acc) auto

lemma selectLoop_spec:
  assumes "\<forall>c \<in> set cs. ip_text c \<noteq> []"
  shows "if \<exists>c \<in> set cs. ip_is4 c
    then \<exists>pre c post. cs = pre @ c # post \<and> ip_is4 c \<and> (\<forall>x \<in> set pre. \<not> ip_is4 x) \<and>
           selectLoop cs [] acc = (ip_text c, acc @ map ip_text (pre @ post))
    else selectLoop cs [] acc = ([], acc @ map ip_text cs)"
  using assms
proof (induction cs arbitrary: acc)
  case (Cons c cs)
  show ?case
  proof (cases "ip_is4 c")
    case True
    then show ?thesis using Cons.prems by (auto intro!: exI [of _ "[]"] simp: selectLoop_taken)
  next
    case False
    with Cons.IH [of "acc @ [ip_text c]"] Cons.prems show ?thesis
      by (auto split: if_splits) (metis Cons_eq_appendI list.simps(9) set_ConsD)+
  qed
qed simp

text \<open>
  Of the addresses that CNI assigned, the pod reports the first IPv4 address as its own and all others,
  in order, as additional ones; without an IPv4 address it reports the first address. No address is
  lost and none is reported twice.
\<close>

lemma selectPodIPs_correct:
  assumes "ipConfigs \<noteq> []" "\<forall>c \<in> set ipConfigs. ip_text c \<noteq> []"
  shows "\<exists>pre c post. ipConfigs = pre @ c # post \<and>
    selectPodIPs ipConfigs = Some (ip_text c, map ip_text (pre @ post)) \<and>
    (if \<exists>x \<in> set ipConfigs. ip_is4 x then ip_is4 c \<and> (\<forall>x \<in> set pre. \<not> ip_is4 x) else pre = [])"
proof (cases "\<exists>c \<in> set ipConfigs. ip_is4 c")
  case True
  with selectLoop_spec [OF assms(2), of "[]"] obtain pre c post where
    c: "ipConfigs = pre @ c # post" "ip_is4 c" "\<forall>x \<in> set pre. \<not> ip_is4 x"
      "selectLoop ipConfigs [] [] = (ip_text c, map ip_text (pre @ post))" by auto
  then have "selectPodIPs ipConfigs = Some (ip_text c, map ip_text (pre @ post))"
    using assms(2) by (auto simp: selectPodIPs_def)
  with c True show ?thesis by (intro exI [of _ pre] exI [of _ c] exI [of _ post]) simp
next
  case False
  with selectLoop_spec [OF assms(2), of "[]"] have l: "selectLoop ipConfigs [] [] = ([], map ip_text ipConfigs)" by auto
  obtain c cs where cs: "ipConfigs = c # cs" using assms(1) by (cases ipConfigs) auto
  have "selectPodIPs ipConfigs = Some (ip_text c, map ip_text cs)"
    unfolding selectPodIPs_def l by (simp add: cs)
  with cs False show ?thesis by (intro exI [of _ "[]"] exI [of _ c] exI [of _ cs]) simp
qed

definition dual_stack :: "ipConfig list" where
  "dual_stack = [\<lparr>ip_text = ''fe80::1'', ip_is4 = False\<rparr>, \<lparr>ip_text = ''10.0.0.2'', ip_is4 = True\<rparr>]"

lemma dual_stack_ips: "selectPodIPs dual_stack = Some (''10.0.0.2'', [''fe80::1''])" by code_simp

subsection \<open>Untrusted pods\<close>


subsection \<open>What CNI is asked for\<close>

lemma extractBandwidth_Inr:
  "extractBandwidth parse key a = Inr v \<longleftrightarrow>
     (case a key of None \<Rightarrow> v = None
      | Some str \<Rightarrow> \<exists>n. parse str = Inr n \<and> v = Some n \<and> 1000 \<le> n \<and> n \<le> 1000000000000000)"
  by (auto simp: extractBandwidth_def validateBandwidthIsReasonable_def minRsrc_def maxRsrc_def
      split: option.splits sum.splits)

lemma rate_exact: "1000 \<le> n \<Longrightarrow> n \<le> 1000000000000000 \<Longrightarrow> uint (word_of_int n :: 64 word) = n"
  by (simp add: uint_word_of_int_eq take_bit_int_eq_self)

lemma toCNIPortMappings_eq:
  "toCNIPortMappings ms =
     map (\<lambda>m. \<lparr>np_HostPort = pm_HostPort m, np_ContainerPort = pm_ContainerPort m,
                np_Protocol = protocolLower (pm_Protocol m), np_HostIP = pm_HostIp m\<rparr>)
       (filter (\<lambda>m. 0 < sint (pm_HostPort m)) ms)"
  by (induction ms) auto

text \<open>
  The options for CNI are those of the pod. A limit that is requested reaches CNI as the number of bits
  per second that was parsed, between 1k and 1P, without wrap-around; a limit outside is refused. The
  port mappings are those with a positive host port, in order, and are left out if there is none.
\<close>

lemma cniNamespaceOpts_correct:
  assumes "cniNamespaceOpts parse i config = Inr opts"
  shows "on_PortMap opts = (let ms = filter (\<lambda>m. 0 < sint (pm_HostPort m)) (pc_PortMappings config) in
       if ms = [] then None else Some (map (\<lambda>m. \<lparr>np_HostPort = pm_HostPort m, np_ContainerPort = pm_ContainerPort m,
                np_Protocol = protocolLower (pm_Protocol m), np_HostIP = pm_HostIp m\<rparr>) ms)) \<and>
    (on_BandWidth opts = None \<longleftrightarrow> pc_Annotations config ''kubernetes.io/ingress-bandwidth'' = None \<and>
                                pc_Annotations config ''kubernetes.io/egress-bandwidth'' = None) \<and>
    (\<forall>b str. on_BandWidth opts = Some b \<and> pc_Annotations config ''kubernetes.io/ingress-bandwidth'' = Some str \<longrightarrow>
       parse str = Inr (uint (bw_IngressRate b)) \<and> 1000 \<le> uint (bw_IngressRate b) \<and> uint (bw_IngressRate b) \<le> 1000000000000000) \<and>
    (\<forall>b str. on_BandWidth opts = Some b \<and> pc_Annotations config ''kubernetes.io/egress-bandwidth'' = Some str \<longrightarrow>
       parse str = Inr (uint (bw_EgressRate b)) \<and> 1000 \<le> uint (bw_EgressRate b) \<and> uint (bw_EgressRate b) \<le> 1000000000000000)"
proof -
  let ?a = "pc_Annotations config"
  obtain ingress egress bw where
    i: "extractBandwidth parse ''kubernetes.io/ingress-bandwidth'' ?a = Inr ingress" and
    e: "extractBandwidth parse ''kubernetes.io/egress-bandwidth'' ?a = Inr egress" and
    bw: "toCNIBandWidth parse ?a = Inr bw" "on_BandWidth opts = bw" and
    pm: "on_PortMap opts = (let ms = toCNIPortMappings (pc_PortMappings config) in if length ms > 0 then Some ms else None)"
    using assms
    by (auto simp: cniNamespaceOpts_def toCNIBandWidth_def ExtractPodBandwidthResources_def Let_def split: sum.splits)
  have p: "ExtractPodBandwidthResources parse ?a = Inr (ingress, egress)"
    using i e by (simp add: ExtractPodBandwidthResources_def)
  show ?thesis
    using i e bw p pm
    by (auto simp: toCNIBandWidth_def extractBandwidth_Inr toCNIPortMappings_eq rate_exact Let_def
        split: option.splits if_splits)
qed

definition net_config :: podSandboxConfig where
  "net_config = \<lparr>pc_Metadata = None, pc_Hostname = [], pc_LogDirectory = [], pc_DnsConfig = None,
     pc_PortMappings = [\<lparr>pm_Protocol = TCP, pm_ContainerPort = 80, pm_HostPort = 0, pm_HostIp = []\<rparr>,
                        \<lparr>pm_Protocol = TCP, pm_ContainerPort = 80, pm_HostPort = 8080, pm_HostIp = []\<rparr>],
     pc_Labels = Map.empty, pc_Annotations = [''kubernetes.io/ingress-bandwidth'' \<mapsto> ''5k''], pc_CgroupParent = [],
     pc_Privileged = False, pc_NsNetwork = NS_POD, pc_NsPid = NS_POD, pc_NsIpc = NS_POD, pc_Sysctls = Map.empty,
                pc_SelinuxOptions = None, pc_SupplementalGroups = [], pc_RunAsUser = None, pc_RunAsGroup = None, pc_SeccompProfilePath = []\<rparr>"

end
