(* ===== verification/Frames.thy ===== *)
theory Frames
  imports Service
begin

section \<open>What handlers keep and what they clean up\<close>

text \<open>
  Reasoning principles for handlers, used by the pod and container creation. \<open>always R m\<close> says that
  every run of \<open>m\<close> relates its start and end states by \<open>R\<close>, \<open>failing R m\<close> that every failing run does; the locale
  \<open>state_rel\<close> derives the rules for the combinators from reflexivity and transitivity of \<open>R\<close>.
  \<open>clean w a R m\<close> says that a failing run leaves no successful call \<open>a\<close> without a later call from \<open>R\<close>, which
  is how a deferred clean-up gives back what the call acquired.
\<close>

named_theorems rel_intros
named_theorems clean_intros

definition always :: "(svc \<Rightarrow> svc \<Rightarrow> bool) \<Rightarrow> 'a handler \<Rightarrow> bool" where
  "always R m \<longleftrightarrow> (\<forall>s r t. m s = (r, t) \<longrightarrow> R s t)"

definition failing :: "(svc \<Rightarrow> svc \<Rightarrow> bool) \<Rightarrow> 'a handler \<Rightarrow> bool" where
  "failing R m \<longleftrightarrow> (\<forall>s e t. m s = (Inl e, t) \<longrightarrow> R s t)"

lemma alwaysD: "always R m \<Longrightarrow> m s = (r, t) \<Longrightarrow> R s t" by (simp add: always_def)
lemma failingD: "failing R m \<Longrightarrow> m s = (Inl e, t) \<Longrightarrow> R s t" by (simp add: failing_def)
lemma always_failing: "always R m \<Longrightarrow> failing R m" by (simp add: always_def failing_def)
lemma always_mono: "always R m \<Longrightarrow> (\<And>s t. R s t \<Longrightarrow> Q s t) \<Longrightarrow> always Q m" by (auto simp: always_def)

lemma always_ignore: "always R m \<Longrightarrow> R s (ignoreA m s)"
  unfolding ignoreA_def by (rule alwaysD [where r = "fst (m s)"]) simp_all

locale state_rel =
  fixes R :: "svc \<Rightarrow> svc \<Rightarrow> bool"
  assumes rel_refl: "R s s"
    and rel_trans: "R s t \<Longrightarrow> R t u \<Longrightarrow> R s u"
begin

lemma always_basic [rel_intros]:
  "always R (returnA x)" "always R (failA e)" "always R (getA f)" "always R (liftA r)"
  "always R (containerGet i)" "always R (sandboxGet i)"
  by (auto simp: always_def containerGet_def sandboxGet_def rel_refl)

lemma always_modify [rel_intros]: "(\<And>s. R s (f s)) \<Longrightarrow> always R (modifyA f)"
  by (simp add: always_def)

lemma always_bind [rel_intros]: "always R m \<Longrightarrow> (\<And>x. always R (f x)) \<Longrightarrow> always R (bindA m f)"
  by (fastforce simp: always_def bindA_def split: prod.splits sum.splits intro: rel_trans)

lemma always_then [rel_intros]: "always R m \<Longrightarrow> always R n \<Longrightarrow> always R (thenA m n)"
  unfolding thenA_def by (rule always_bind)

lemma always_wrap [rel_intros]: "always R m \<Longrightarrow> always R (wrapA m f args)"
  by (fastforce simp: always_def wrapA_def split: prod.splits sum.splits)

lemma always_tolerate [rel_intros]: "always R m \<Longrightarrow> always R (tolerateA m p)"
  by (fastforce simp: always_def tolerateA_def split: prod.splits sum.splits)

lemma always_onError [rel_intros]:
  assumes "always R m" "\<And>e s. R s (k e s)"
  shows "always R (onError m k)"
  unfolding always_def
proof (intro allI impI)
  fix s r t assume h: "onError m k s = (r, t)"
  show "R s t"
  proof (cases r)
    case (Inl e)
    with h obtain u where "m s = (Inl e, u)" "t = k e u" by (auto simp: onError_Inl)
    then show ?thesis using alwaysD [OF assms(1)] assms(2) rel_trans by blast
  next
    case (Inr x)
    with h show ?thesis using alwaysD [OF assms(1)] by (auto simp: onError_Inr)
  qed
qed

lemma always_alwaysA [rel_intros]: "always R m \<Longrightarrow> (\<And>s. R s (k s)) \<Longrightarrow> always R (alwaysA m k)"
  unfolding always_def alwaysA_eq by (blast intro: rel_trans)

lemma always_if [rel_intros]: "always R m \<Longrightarrow> always R n \<Longrightarrow> always R (if b then m else n)"
  by simp

text \<open>Handlers that are written as functions of the state.\<close>

lemma always_ret: "always R (\<lambda>s. (r, s))" "always R (Pair r)"
  by (simp_all add: always_def rel_refl)

lemma always_cond: "always R m \<Longrightarrow> always R n \<Longrightarrow> always R (\<lambda>s. if P s then m s else n s)"
  by (simp add: always_def)

lemma always_case:
  assumes "always R m" "\<And>e. always R (k e)" "\<And>x. always R (n x)"
  shows "always R (\<lambda>s. case m s of (Inl e, s1) \<Rightarrow> k e s1 | (Inr x, s1) \<Rightarrow> n x s1)"
    "always R (\<lambda>s. case fst (m s) of Inl e \<Rightarrow> k e (snd (m s)) | Inr x \<Rightarrow> n x (snd (m s)))"
proof -
  have "R s t" if "(case m s of (Inl e, s1) \<Rightarrow> k e s1 | (Inr x, s1) \<Rightarrow> n x s1) = (r, t)" for s r t
  proof (cases "m s")
    case (Pair v u)
    then have "R s u" by (rule alwaysD [OF assms(1)])
    moreover have "R u t" using that Pair alwaysD [OF assms(2)] alwaysD [OF assms(3)] by (cases v) auto
    ultimately show ?thesis by (rule rel_trans)
  qed
  then show "always R (\<lambda>s. case m s of (Inl e, s1) \<Rightarrow> k e s1 | (Inr x, s1) \<Rightarrow> n x s1)" by (simp add: always_def)
  then show "always R (\<lambda>s. case fst (m s) of Inl e \<Rightarrow> k e (snd (m s)) | Inr x \<Rightarrow> n x (snd (m s)))"
    by (simp add: case_prod_beta)
qed

lemma always_after: "always R m \<Longrightarrow> (\<And>s. R s (f s)) \<Longrightarrow> always R (\<lambda>s. m (f s))"
  unfolding always_def by (blast intro: rel_trans)

lemmas always_fun = always_ret always_cond always_case

lemma failing_bind_dep:
  "always R m \<Longrightarrow> (\<And>s x t. m s = (Inr x, t) \<Longrightarrow> failing R (f x)) \<Longrightarrow> failing R (bindA m f)"
  unfolding failing_def bindA_Inl by (blast dest: alwaysD intro: rel_trans)

lemma failing_bind [rel_intros]: "always R m \<Longrightarrow> (\<And>x. failing R (f x)) \<Longrightarrow> failing R (bindA m f)"
  unfolding failing_def bindA_Inl by (blast dest: alwaysD intro: rel_trans)

lemma failing_then [rel_intros]: "always R m \<Longrightarrow> failing R n \<Longrightarrow> failing R (thenA m n)"
  unfolding thenA_def by (rule failing_bind)

lemma failing_wrap [rel_intros]: "failing R m \<Longrightarrow> failing R (wrapA m f args)"
  unfolding failing_def wrapA_Inl by blast

lemma failing_onError [rel_intros]: "failing R m \<Longrightarrow> (\<And>e s. R s (k e s)) \<Longrightarrow> failing R (onError m k)"
  unfolding failing_def onError_Inl by (blast intro: rel_trans)

lemma failing_if [rel_intros]: "failing R m \<Longrightarrow> failing R n \<Longrightarrow> failing R (if b then m else n)"
  by simp

lemma failing_last: "failing R m \<Longrightarrow> failing R (thenA m (modifyA f))"
  by (auto simp: failing_def thenA_Inl)

lemma rel_comp: "(\<And>s. R s (f s)) \<Longrightarrow> (\<And>s. R s (g s)) \<Longrightarrow> R s (g (f s))"
  by (blast intro: rel_trans)

end

subsection \<open>Extending the trace\<close>

definition extends :: "extcall set \<Rightarrow> svc \<Rightarrow> svc \<Rightarrow> bool" where
  "extends A s t \<longleftrightarrow> (\<exists>new. trace t = new @ trace s \<and> set new \<subseteq> A)"

lemma extendsI: "trace t = new @ trace s \<Longrightarrow> set new \<subseteq> A \<Longrightarrow> extends A s t"
  by (auto simp: extends_def)

interpretation tr: state_rel "extends A"
proof
  show "extends A s s" for s by (rule extendsI [of _ "[]"]) auto
  show "extends A s u" if "extends A s t" "extends A t u" for s t u
    using that unfolding extends_def by (metis append.assoc le_sup_iff set_append)
qed

lemma extends_same: "trace t = trace s \<Longrightarrow> extends A s t" by (rule extendsI [of _ "[]"]) auto

lemma extends_logCall [intro]: "c \<in> A \<Longrightarrow> extends A s (logCall c s)" by (rule extendsI [of _ "[c]"]) auto

lemma extends_mono: "extends A s t \<Longrightarrow> A \<subseteq> B \<Longrightarrow> extends B s t" by (auto simp: extends_def)

lemma extends_ext [rel_intros]: "c \<in> A \<Longrightarrow> always (extends A) (ext w c)"
  by (auto simp: always_def ext_def)

lemma extends_silent [rel_intros]: "(\<And>s. trace (f s) = trace s) \<Longrightarrow> always (extends A) (modifyA f)"
  by (auto simp: always_def intro: extends_same)

lemma extends_update [rel_intros]:
  "always (extends A) (sbStatusUpdate u sb)" "always (extends A) (statusUpdate v c)"
  by (auto simp: always_def sbStatusUpdate_def statusUpdate_def Let_def intro!: extends_same split: prod.splits)

subsection \<open>Releasing what was acquired\<close>

definition leaks :: "world \<Rightarrow> extcall set \<Rightarrow> extcall set \<Rightarrow> extcall list \<Rightarrow> extcall list \<Rightarrow> bool" where
  "leaks w A R new old \<longleftrightarrow> (\<exists>later a earlier. a \<in> A \<and> new = later @ a # earlier \<and>
     w_err w (earlier @ old) a = None \<and> set later \<inter> R = {})"

definition clean :: "world \<Rightarrow> extcall set \<Rightarrow> extcall set \<Rightarrow> 'a handler \<Rightarrow> bool" where
  "clean w A R m \<longleftrightarrow> (\<forall>s e t. m s = (Inl e, t) \<longrightarrow>
     (\<exists>new. trace t = new @ trace s \<and> \<not> leaks w A R new (trace s)))"

definition releasing :: "extcall set \<Rightarrow> extcall set \<Rightarrow> 'a handler \<Rightarrow> bool" where
  "releasing A R m \<longleftrightarrow> (\<forall>s e t. m s = (Inl e, t) \<longrightarrow>
     (\<exists>later before. trace t = later @ before @ trace s \<and> set later \<inter> A = {} \<and> set later \<inter> R \<noteq> {}))"

lemma cleanD: "clean w A R m \<Longrightarrow> m s = (Inl e, t) \<Longrightarrow> \<exists>new. trace t = new @ trace s \<and> \<not> leaks w A R new (trace s)"
  by (simp add: clean_def)

lemma releasingD:
  "releasing A R m \<Longrightarrow> m s = (Inl e, t) \<Longrightarrow>
     \<exists>later before. trace t = later @ before @ trace s \<and> set later \<inter> A = {} \<and> set later \<inter> R \<noteq> {}"
  by (simp add: releasing_def)

lemma split_append:
  assumes "ys @ xs = later @ a # earlier"
  obtains (left) us where "ys = later @ a # us" "earlier = us @ xs" | (right) us where "later = ys @ us" "xs = us @ a # earlier"
proof -
  from assms obtain us where "ys = later @ us \<and> us @ xs = a # earlier \<or> ys @ us = later \<and> xs = us @ a # earlier"
    by (auto simp: append_eq_append_conv2)
  then show thesis by (cases us) (auto intro: that)
qed

lemma leaksE:
  assumes "leaks w A R (ys @ xs) old"
  obtains (left) "leaks w A R ys (xs @ old)" "set ys \<inter> A \<noteq> {}" | (right) "leaks w A R xs old" "set ys \<inter> R = {}"
proof -
  from assms obtain later a earlier where l: "a \<in> A" "ys @ xs = later @ a # earlier" "w_err w (earlier @ old) a = None"
    "set later \<inter> R = {}" unfolding leaks_def by blast
  from l(2) show thesis
  proof (cases rule: split_append)
    case (left us)
    then have "leaks w A R ys (xs @ old)" using l unfolding leaks_def by (intro exI [of _ later] exI [of _ a] exI [of _ us]) simp
    then show thesis using left l(1) by (intro that(1)) auto
  next
    case (right us)
    then have "leaks w A R xs old" using l unfolding leaks_def by (intro exI [of _ us] exI [of _ a] exI [of _ earlier]) auto
    then show thesis using right l(4) by (intro that(2)) auto
  qed
qed

lemma clean_avoid:
  assumes "failing (extends (- A)) m"
  shows "clean w A R m"
  unfolding clean_def
proof (intro allI impI)
  fix s e t assume "m s = (Inl e, t)"
  from failingD [OF assms this] obtain new where "trace t = new @ trace s" "set new \<subseteq> - A" by (auto simp: extends_def)
  then show "\<exists>new. trace t = new @ trace s \<and> \<not> leaks w A R new (trace s)" by (auto simp: leaks_def)
qed

lemma clean_wrap [clean_intros]: "clean w A R m \<Longrightarrow> clean w A R (wrapA m f args)"
  unfolding clean_def wrapA_Inl by blast

lemma clean_if [clean_intros]: "(b \<Longrightarrow> clean w A R m) \<Longrightarrow> (\<not> b \<Longrightarrow> clean w A R n) \<Longrightarrow> clean w A R (if b then m else n)"
  by simp

lemma clean_bind_dep:
  assumes m: "always (extends (- A)) m" and f: "\<And>s x t. m s = (Inr x, t) \<Longrightarrow> clean w A R (f x)"
  shows "clean w A R (bindA m f)"
  unfolding clean_def
proof (intro allI impI)
  fix s e t assume "bindA m f s = (Inl e, t)"
  then consider "m s = (Inl e, t)" | x u where "m s = (Inr x, u)" "f x u = (Inl e, t)" by (auto simp: bindA_Inl)
  then show "\<exists>new. trace t = new @ trace s \<and> \<not> leaks w A R new (trace s)"
  proof cases
    case 1
    then show ?thesis using cleanD [OF clean_avoid [OF always_failing [OF m]]] by simp
  next
    case (2 x u)
    from alwaysD [OF m 2(1)] obtain xs where xs: "trace u = xs @ trace s" "set xs \<inter> A = {}"
      unfolding extends_def by blast
    from cleanD [OF f [OF 2(1)] 2(2)] obtain ys where ys: "trace t = ys @ trace u" "\<not> leaks w A R ys (trace u)" by blast
    have "\<not> leaks w A R xs (trace s)" using xs(2) by (auto simp: leaks_def)
    then have "\<not> leaks w A R (ys @ xs) (trace s)" using xs(1) ys(2) by (auto elim: leaksE)
    then show ?thesis using xs ys by auto
  qed
qed

lemma clean_bind [clean_intros]:
  "always (extends (- A)) m \<Longrightarrow> (\<And>x. clean w A R (f x)) \<Longrightarrow> clean w A R (bindA m f)"
  by (rule clean_bind_dep)

lemma clean_then [clean_intros]: "always (extends (- A)) m \<Longrightarrow> clean w A R n \<Longrightarrow> clean w A R (thenA m n)"
  unfolding thenA_def by (rule clean_bind)

lemma clean_onError [clean_intros]:
  assumes m: "clean w A R m" and k: "\<And>e s. extends (- A) s (k e s)"
  shows "clean w A R (onError m k)"
  unfolding clean_def
proof (intro allI impI)
  fix s e t assume "onError m k s = (Inl e, t)"
  then obtain u where u: "m s = (Inl e, u)" "t = k e u" by (auto simp: onError_Inl)
  from cleanD [OF m u(1)] obtain xs where xs: "trace u = xs @ trace s" "\<not> leaks w A R xs (trace s)" by blast
  from k [where e = e and s = u] obtain ys where ys: "trace t = ys @ trace u" "set ys \<inter> A = {}"
    unfolding extends_def u(2) [symmetric] by blast
  then have "\<not> leaks w A R (ys @ xs) (trace s)" using xs(2) by (auto elim: leaksE)
  then show "\<exists>new. trace t = new @ trace s \<and> \<not> leaks w A R new (trace s)" using xs(1) ys(1) by auto
qed

text \<open>The idiom: a call that acquires something, and the deferred call that gives it back.\<close>

lemma clean_ext: "clean w A R (ext w a)"
  unfolding clean_def
proof (intro allI impI)
  fix s e t assume "ext w a s = (Inl e, t)"
  then have f: "w_err w (trace s) a = Some e" "t = logCall a s" by (auto simp: ext_Inl)
  then have "\<not> leaks w A R [a] (trace s)" by (auto simp: leaks_def Cons_eq_append_conv)
  then show "\<exists>new. trace t = new @ trace s \<and> \<not> leaks w A R new (trace s)"
    using f(2) by (intro exI [of _ "[a]"]) simp
qed

lemma clean_acquire:
  assumes m0: "clean w A R m0" "always (extends UNIV) m0" and m: "releasing A R m"
  shows "clean w A R (thenA m0 m)"
  unfolding clean_def
proof (intro allI impI)
  fix s e t assume "thenA m0 m s = (Inl e, t)"
  then consider (fail) "m0 s = (Inl e, t)" | (ok) x u where "m0 s = (Inr x, u)" "m u = (Inl e, t)" by (auto simp: thenA_Inl)
  then show "\<exists>new. trace t = new @ trace s \<and> \<not> leaks w A R new (trace s)"
  proof cases
    case fail
    then show ?thesis using cleanD [OF m0(1)] by simp
  next
    case (ok x u)
    from alwaysD [OF m0(2) ok(1)] obtain xs where xs: "trace u = xs @ trace s" by (auto simp: extends_def)
    from releasingD [OF m ok(2)] obtain later before where l: "trace t = later @ before @ trace u"
      "set later \<inter> A = {}" "set later \<inter> R \<noteq> {}" by (elim exE conjE)
    have "\<not> leaks w A R (later @ (before @ xs)) (trace s)" using l(2,3) by (auto elim: leaksE)
    then show ?thesis using l(1) xs by (intro exI [of _ "later @ (before @ xs)"]) simp
  qed
qed

lemma clean_acquire_ext: "releasing A R m \<Longrightarrow> clean w A R (thenA (wrapA (ext w a) f args) m)"
  by (intro clean_acquire clean_wrap clean_ext rel_intros) simp_all

lemma releasing_onError:
  assumes m: "always (extends UNIV) m"
    and k: "\<And>e s. \<exists>new. trace (k e s) = new @ trace s \<and> set new \<inter> A = {} \<and> set new \<inter> R \<noteq> {}"
  shows "releasing A R (onError m k)"
  unfolding releasing_def
proof (intro allI impI)
  fix s e t assume "onError m k s = (Inl e, t)"
  then obtain u where u: "m s = (Inl e, u)" "t = k e u" by (auto simp: onError_Inl)
  from alwaysD [OF m u(1)] obtain xs where "trace u = xs @ trace s" by (auto simp: extends_def)
  moreover from k [where e = e and s = u] obtain ys where "trace t = ys @ trace u" "set ys \<inter> A = {}" "set ys \<inter> R \<noteq> {}"
    unfolding u(2) by blast
  ultimately show "\<exists>later before. trace t = later @ before @ trace s \<and> set later \<inter> A = {} \<and> set later \<inter> R \<noteq> {}"
    by (intro exI [of _ ys] exI [of _ xs]) simp
qed

lemma releasing_get: "(\<And>x. releasing A R (f x)) \<Longrightarrow> releasing A R (bindA (getA g) f)"
  by (auto simp: releasing_def bindA_def)

lemma release_ext:
  "c \<notin> A \<Longrightarrow> c \<in> R \<Longrightarrow> \<exists>new. trace (ignoreA (ext w c) s) = new @ trace s \<and> set new \<inter> A = {} \<and> set new \<inter> R \<noteq> {}"
  by (rule exI [of _ "[c]"]) (auto simp: ignoreA_def ext_def)

end
