(* ===== verification/SandboxHandlers.thy ===== *)
theory SandboxHandlers
  imports PodNetwork Frames
begin

section \<open>Running, stopping and removing pod sandboxes\<close>

text \<open>
  \<^verbatim>\<open>sandbox_run.go\<close>, \<^verbatim>\<open>sandbox_stop.go\<close> and \<^verbatim>\<open>sandbox_remove.go\<close>. \<^verbatim>\<open>RunPodSandbox\<close> is one Go function whose
  resources are given back by deferred functions if it fails; here it is a chain of definitions, one per
  resource, each of which calls the next, so that its deferred function is \<open>onError\<close> around
  the rest. The spec generation is a call that yields the SELinux label of the process.
\<close>

subsection \<open>Running a pod\<close>

definition sandboxAdd :: "sbx \<Rightarrow> unit handler" where
  "sandboxAdd sb s = (let (r, st, L) = Sandbox_Add sb (sandboxStore s) (labelStore s)
     in (r, s\<lparr>sandboxStore := st, labelStore := L\<rparr>))"

text \<open>\<^verbatim>\<open>os.RemoveAll\<close> also removes the checkpoints below the directory.\<close>

definition osRemoveAll :: "world \<Rightarrow> string \<Rightarrow> unit handler" where
  "osRemoveAll w dir =
     thenA (ext w (RemoveAll dir))
       (modifyA (\<lambda>s. s\<lparr>svDisk := (\<lambda>p. if prefix (dir @ ''/'') p then None else svDisk s p)\<rparr>))"

definition sandboxReady :: "32 word \<Rightarrow> int \<Rightarrow> sb_status \<Rightarrow> sb_status result" where
  "sandboxReady pid createdAt status = Inr (status\<lparr>sb_Pid := pid, sb_State := StateReady, sb_CreatedAt := createdAt\<rparr>)"

definition runTask :: "world \<Rightarrow> sbx \<Rightarrow> int \<Rightarrow> unit handler" where
  "runTask w sb createdAt =
     (let i = sb_ID sb in
      thenA (wrapA (ext w (TaskNew i)) ''failed to create containerd task'' [])
     (bindA (getA (\<lambda>s. w_pid w (trace s) i)) (\<lambda>pid.
      onError
        (thenA (wrapA (ext w (TaskWait i)) ''failed to wait for sandbox container task'' [])
        (thenA (wrapA (ext w (TaskStart i)) ''failed to start sandbox container task %q'' [i])
        (thenA (wrapA (sbStatusUpdate (sandboxReady pid createdAt) sb) ''failed to update sandbox status'' [])
        (thenA (wrapA (sandboxAdd (sb\<lparr>sb_Container := Some i\<rparr>)) ''failed to add sandbox %+v into store'' [])
               (modifyA (logCall (StartExitMonitor i pid)))))))
        (\<lambda>_. ignoreA (ext w (TaskDelete i))))))"

definition runFiles :: "world \<Rightarrow> sbx \<Rightarrow> podSandboxConfig \<Rightarrow> criConfig \<Rightarrow> unit handler" where
  "runFiles w sb config cfg =
     (let i = sb_ID sb in
      thenA (wrapA (setupSandboxFiles w cfg i config) ''failed to setup sandbox files'' [])
        (onError
           (thenA (wrapA (ext w (CtrInfo i)) ''failed to get sandbox container info'' [])
           (bindA (getA (\<lambda>s. w_createdAt w (trace s) i)) (\<lambda>createdAt.
            runTask w sb createdAt)))
           (\<lambda>_. ignoreA (cleanupSandboxFiles w cfg i config))))"

definition runVolatileDir :: "world \<Rightarrow> sbx \<Rightarrow> podSandboxConfig \<Rightarrow> criConfig \<Rightarrow> unit handler" where
  "runVolatileDir w sb config cfg =
     (let dir = getVolatileSandboxRootDir cfg (sb_ID sb) in
      thenA (wrapA (ext w (MkdirAll dir)) ''failed to create volatile sandbox root directory %q'' [dir])
            (onError (runFiles w sb config cfg) (\<lambda>_. ignoreA (osRemoveAll w dir))))"

definition runRootDir :: "world \<Rightarrow> sbx \<Rightarrow> podSandboxConfig \<Rightarrow> criConfig \<Rightarrow> unit handler" where
  "runRootDir w sb config cfg =
     (let dir = getSandboxRootDir cfg (sb_ID sb) in
      thenA (wrapA (ext w (MkdirAll dir)) ''failed to create sandbox root directory %q'' [dir])
            (onError (runVolatileDir w sb config cfg) (\<lambda>_. ignoreA (osRemoveAll w dir))))"

definition runContainer :: "world \<Rightarrow> sbx \<Rightarrow> podSandboxConfig \<Rightarrow> criConfig \<Rightarrow> unit handler" where
  "runContainer w sb config cfg =
     (let i = sb_ID sb in
      thenA (wrapA (ext w (CtrNew i (buildLabels (pc_Labels config) containerKindSandbox) (SandboxMetadata (sb_meta sb))))
               ''failed to create containerd container'' [])
            (onError (runRootDir w sb config cfg) (\<lambda>_. ignoreA (ext w (CtrDelete i)))))"

definition setProcessLabel :: "sbx \<Rightarrow> string \<Rightarrow> sbx" where
  "setProcessLabel sb l = sb\<lparr>sb_meta := (sb_meta sb)\<lparr>sm_ProcessLabel := l\<rparr>\<rparr>"

text \<open>The label is recorded even if the pod is privileged and the spec loses it.\<close>

definition runSpec :: "world \<Rightarrow> podSandboxConfig \<Rightarrow> runtimeConfig \<Rightarrow> criConfig \<Rightarrow> sbx \<Rightarrow> unit handler" where
  "runSpec w config ociRuntime cfg sb =
     (let i = sb_ID sb in
      thenA (wrapA (ext w (GenSandboxSpec i (sm_NetNSPath (sb_meta sb)) ociRuntime)) ''failed to generate sandbox container spec'' [])
     (bindA (getA (\<lambda>s. w_processLabel w (trace s))) (\<lambda>label.
      onError
        (thenA (wrapA (ext w (GenSpecOpts i)) ''failed to generate sanbdox container spec options'' [])
        (thenA (wrapA (ext w (GenRuntimeOptions i)) ''failed to generate runtime options'' [])
               (runContainer w (setProcessLabel sb label) config cfg)))
        (\<lambda>_. logCall (ReleaseLabel label)))))"

definition setNetNS :: "sbx \<Rightarrow> string \<Rightarrow> sbx" where
  "setNetNS sb path = sb\<lparr>sb_NetNS := Some path, sb_meta := (sb_meta sb)\<lparr>sm_NetNSPath := path\<rparr>\<rparr>"

text \<open>
  The deferred teardown sees the sandbox as it is then, with its addresses; that does not
  matter, since teardown reads the id, the config and the network namespace only.
\<close>

definition runNetwork :: "world \<Rightarrow> podSandboxConfig \<Rightarrow> runtimeConfig \<Rightarrow> criConfig \<Rightarrow> sbx \<Rightarrow> unit handler" where
  "runNetwork w config ociRuntime cfg sb =
     (let i = sb_ID sb in
      if pc_NsNetwork config \<noteq> NS_NODE then
        thenA (wrapA (ext w (NewNetNS i)) ''failed to create network namespace for sandbox %q'' [i])
       (bindA (getA (\<lambda>s. w_netnsPath w (trace s))) (\<lambda>path.
        onError
          (bindA (wrapA (setupPodNetwork w (setNetNS sb path)) ''failed to setup network for sandbox %q'' [i])
             (runSpec w config ociRuntime cfg))
          (\<lambda>_ s. ignoreA (ext w (NetNSRemove path)) (ignoreA (teardownPodNetwork w (setNetNS sb path)) s))))
      else runSpec w config ociRuntime cfg sb)"

text \<open>The sandbox object of the request, with a new cell for its status.\<close>

definition newSandbox :: "string \<Rightarrow> string \<Rightarrow> podSandboxConfig \<Rightarrow> string \<Rightarrow> sbx handler" where
  "newSandbox i name config runtimeHandler s =
     (let (sb, cl) = NewSandbox (nextRef s)
            (zero_sb_metadata\<lparr>sm_ID := i, sm_Name := name, sm_Config := Some config, sm_RuntimeHandler := runtimeHandler\<rparr>)
            \<lparr>sb_Pid = 0, sb_CreatedAt = zeroTime, sb_State = StateUnknown\<rparr>
      in (Inr sb, s\<lparr>nextRef := Suc (nextRef s), sbCells := (sbCells s)(nextRef s := cl)\<rparr>))"

definition runBody :: "world \<Rightarrow> criConfig \<Rightarrow> podSandboxConfig \<Rightarrow> string \<Rightarrow> string \<Rightarrow> string \<Rightarrow> unit handler" where
  "runBody w cfg config runtimeHandler i name =
     bindA (newSandbox i name config runtimeHandler) (\<lambda>sb.
     bindA (wrapA (ensureImageExists w (cf_SandboxImage cfg)) ''failed to get sandbox image %q'' [cf_SandboxImage cfg]) (\<lambda>img.
     bindA (wrapA (toContainerdImage w img) ''failed to get image from containerd %q'' [im_ID img]) (\<lambda>_.
     bindA (wrapA (liftA (getSandboxRuntime cfg config runtimeHandler)) ''failed to get sandbox runtime'' []) (\<lambda>ociRuntime.
     runNetwork w config ociRuntime cfg sb))))"

definition reserveSandboxName :: "string \<Rightarrow> string \<Rightarrow> unit handler" where
  "reserveSandboxName name i s =
     (let (r, idx) = Reserve (sandboxNameIndex s) name i in (r, s\<lparr>sandboxNameIndex := idx\<rparr>))"

definition RunPodSandbox :: "world \<Rightarrow> podSandboxConfig \<Rightarrow> string \<Rightarrow> string handler" where
  "RunPodSandbox w config runtimeHandler s =
     (let i = w_genID w (trace s) in
      case pc_Metadata config of
        None \<Rightarrow> (Inl (Errorf ''sandbox config must include metadata'' []), s)
      | Some metadata \<Rightarrow>
          (let name = makeSandboxName metadata in
           thenA (wrapA (reserveSandboxName name i) ''failed to reserve sandbox name %q'' [name])
          (thenA (onError (runBody w (sv_config s) config runtimeHandler i name)
                    (\<lambda>_ s. s\<lparr>sandboxNameIndex := ReleaseByName (sandboxNameIndex s) name\<rparr>))
                 (returnA i)) s))"

subsection \<open>Stopping a pod\<close>

text \<open>
  \<open>order\<close> is the order in which \<^verbatim>\<open>List\<close> visits the map of containers. The containers are those of the list
  as it was when the request came.
\<close>

fun stopContainers :: "world \<Rightarrow> string \<Rightarrow> ctr list \<Rightarrow> unit handler" where
  "stopContainers w i [] = returnA ()"
| "stopContainers w i (c # cs) =
     (if m_SandboxID (c_meta c) \<noteq> i then stopContainers w i cs
      else thenA (wrapA (stopContainer w c 0) ''failed to stop container %q'' [c_ID c]) (stopContainers w i cs))"

definition waitSandboxStop :: "world \<Rightarrow> sbx \<Rightarrow> unit handler" where
  "waitSandboxStop w sb s =
     (let s' = logCall (WaitStop (sb_ID sb) None) (runOthers w s) in
      case w_err w (trace s) (WaitStop (sb_ID sb) None) of
        Some e \<Rightarrow> (Inl (Wrapf e ''wait sandbox container %q'' [sb_ID sb]), s')
      | None \<Rightarrow>
          (if sc_stopped (sbCells s' (sb_ref sb)) then (Inr (), s')
           else (Inl (Wrapf ErrDeadlineExceeded ''wait sandbox container %q'' [sb_ID sb]), s')))"

definition cleanupUnknownSandbox :: "world \<Rightarrow> string \<Rightarrow> sbx \<Rightarrow> unit handler" where
  "cleanupUnknownSandbox w i sb s =
     handleSandboxExit w \<lparr>te_ContainerID = i, te_ID = i, te_Pid = 0, te_ExitStatus = unknownExitCode,
       te_ExitedAt = w_now w (trace s)\<rparr> sb s"

definition killSandbox :: "world \<Rightarrow> sbx \<Rightarrow> unit handler" where
  "killSandbox w sb =
     thenA (wrapA (tolerateA (ext w (TaskKill (sb_ID sb) SIGKILL)) IsNotFound) ''failed to kill sandbox container'' [])
           (waitSandboxStop w sb)"

definition stopSandboxIn :: "world \<Rightarrow> sbx \<Rightarrow> 32 word \<Rightarrow> unit handler" where
  "stopSandboxIn w sb state s =
     (let i = sb_ID sb in
      case ext w (CtrTask i) s of
        (Inl err, s1) \<Rightarrow>
          (if \<not> IsNotFound err then (Inl (Wrapf err ''failed to get sandbox container'' []), s1)
           else if state = StateUnknown then cleanupUnknownSandbox w i sb s1
           else (Inr (), s1))
      | (Inr _, s1) \<Rightarrow>
          (if state = StateUnknown then
             (case ext w (TaskWait i) s1 of
                (Inl err, s2) \<Rightarrow>
                  (if \<not> IsNotFound err then (Inl (Wrapf err ''failed to wait for task'' []), s2)
                   else cleanupUnknownSandbox w i sb s2)
              | (Inr _, s2) \<Rightarrow>
                  alwaysA (killSandbox w sb) (logCall (StopExitMonitor i))
                    (logCall (StartExitMonitor i (w_pid w (trace s2) i)) s2))
           else killSandbox w sb s1))"

definition stopSandboxContainer :: "world \<Rightarrow> sbx \<Rightarrow> unit handler" where
  "stopSandboxContainer w sb s = stopSandboxIn w sb (sb_State (sbStatusOf sb s)) s"

text \<open>\<^verbatim>\<open>sandbox.NetNS.Closed()\<close>: whether the namespace is gone, or an error.\<close>

definition netNSClosed :: "world \<Rightarrow> string \<Rightarrow> bool handler" where
  "netNSClosed w path = thenA (ext w (NetNSClosed path)) (getA (\<lambda>s. w_netnsClosed w (trace s) path))"

definition clearNetNSPath :: "sbx \<Rightarrow> sbx" where
  "clearNetNSPath sb = sb\<lparr>sb_meta := (sb_meta sb)\<lparr>sm_NetNSPath := []\<rparr>\<rparr>"

definition stopNetwork :: "world \<Rightarrow> sbx \<Rightarrow> unit handler" where
  "stopNetwork w sb =
     (case sb_NetNS sb of
        None \<Rightarrow> returnA ()
      | Some path \<Rightarrow>
          bindA (wrapA (netNSClosed w path) ''failed to check network namespace closed'' []) (\<lambda>closed.
          thenA (wrapA (teardownPodNetwork w (if closed then clearNetNSPath sb else sb))
                   ''failed to destroy network for sandbox %q'' [sb_ID sb])
                (wrapA (ext w (NetNSRemove path)) ''failed to remove network namespace for sandbox %q'' [sb_ID sb])))"

definition stopPodSandbox :: "world \<Rightarrow> string list \<Rightarrow> sbx \<Rightarrow> unit handler" where
  "stopPodSandbox w order sb s =
     (let i = sb_ID sb in
      thenA (stopContainers w i (Store_List order (containerStore s)))
     (thenA (wrapA (cleanupSandboxFiles w (sv_config s) i (configOf sb)) ''failed to cleanup sandbox files'' [])
     (bindA (getA (\<lambda>s. sb_State (sbStatusOf sb s))) (\<lambda>state.
      thenA (if state = StateReady \<or> state = StateUnknown then
               wrapA (stopSandboxContainer w sb) ''failed to stop sandbox container %q in %q state'' [i, State_String state]
             else returnA ())
            (stopNetwork w sb)))) s)"

definition StopPodSandbox :: "world \<Rightarrow> string list \<Rightarrow> string \<Rightarrow> unit handler" where
  "StopPodSandbox w order r =
     bindA (wrapA (sandboxGet r) ''an error occurred when try to find sandbox %q'' [r]) (stopPodSandbox w order)"

subsection \<open>Removing a pod\<close>

fun removeContainers :: "world \<Rightarrow> string \<Rightarrow> ctr list \<Rightarrow> unit handler" where
  "removeContainers w i [] = returnA ()"
| "removeContainers w i (c # cs) =
     (if m_SandboxID (c_meta c) \<noteq> i then removeContainers w i cs
      else thenA (wrapA (RemoveContainer w (c_ID c)) ''failed to remove container %q'' [c_ID c]) (removeContainers w i cs))"

definition checkNetNSClosed :: "world \<Rightarrow> sbx \<Rightarrow> unit handler" where
  "checkNetNSClosed w sb =
     (case sb_NetNS sb of
        None \<Rightarrow> returnA ()
      | Some path \<Rightarrow>
          bindA (wrapA (netNSClosed w path) ''failed to check sandbox network namespace %q closed'' [path]) (\<lambda>closed.
          if \<not> closed then failA (Errorf ''sandbox network namespace %q is not fully closed'' [path]) else returnA ()))"

definition sandboxDelete :: "string \<Rightarrow> svc \<Rightarrow> svc" where
  "sandboxDelete i s = (let (st, L) = Sandbox_Delete i (sandboxStore s) (labelStore s)
     in s\<lparr>sandboxStore := st, labelStore := L\<rparr>)"

definition removeSandboxBody :: "world \<Rightarrow> sbx \<Rightarrow> unit handler" where
  "removeSandboxBody w sb =
     (let i = sb_ID sb in
      bindA (getA sv_config) (\<lambda>cfg.
      thenA (wrapA (removeDir w (getSandboxRootDir cfg i)) ''failed to remove sandbox root directory %q'' [getSandboxRootDir cfg i])
     (thenA (wrapA (removeDir w (getVolatileSandboxRootDir cfg i))
               ''failed to remove volatile sandbox root directory %q'' [getVolatileSandboxRootDir cfg i])
     (thenA (wrapA (tolerateA (ext w (CtrDelete i)) IsNotFound) ''failed to delete sandbox container %q'' [i])
     (thenA (modifyA (sandboxDelete i))
            (modifyA (\<lambda>s. s\<lparr>sandboxNameIndex := ReleaseByKey (sandboxNameIndex s) i\<rparr>)))))))"

definition RemovePodSandbox :: "world \<Rightarrow> string list \<Rightarrow> string list \<Rightarrow> string \<Rightarrow> unit handler" where
  "RemovePodSandbox w order order' r s =
     (case Sandbox_Get (sandboxStore s) r of
        Inl err \<Rightarrow>
          (if err \<noteq> ErrNotExist then (Inl (Wrapf err ''an error occurred when try to find sandbox %q'' [r]), s)
           else (Inr (), s))
      | Inr sb \<Rightarrow>
          (let i = sb_ID sb; state = sb_State (sbStatusOf sb s) in
           thenA (if state = StateReady \<or> state = StateUnknown then
                    wrapA (stopPodSandbox w order sb) ''failed to forcibly stop sandbox %q'' [i]
                  else returnA ())
          (thenA (checkNetNSClosed w sb)
          (thenA (\<lambda>s. removeContainers w i (Store_List order' (containerStore s)) s)
                 (removeSandboxBody w sb))) s))"

end
