(* ===== verification/PodLifecycle.thy ===== *)
theory PodLifecycle
  imports SandboxHandlers
begin

section \<open>What the pod handlers guarantee\<close>

text \<open>
  \<^verbatim>\<open>RunPodSandbox\<close> either leaves a ready pod or rolls everything back; \<^verbatim>\<open>StopPodSandbox\<close> and \<^verbatim>\<open>RemovePodSandbox\<close>
  take a pod down in order.
\<close>

subsection \<open>Calls made while a pod is created\<close>

definition imageCalls :: "extcall set" where
  "imageCalls = {c. (\<exists>r. c = GetImage r) \<or> (\<exists>r. c = CtrdPull r) \<or> (\<exists>r. c = ImageConfig r) \<or>
     (\<exists>n t. c = CreateImage n t) \<or> (\<exists>n t. c = UpdateImageRef n t)}"

lemma createImageReference_extends: "always (extends imageCalls) (createImageReference w n target)"
proof -
  have "extends imageCalls s (logCall (CreateImage n target) s)" for s by (auto simp: imageCalls_def)
  moreover have "extends imageCalls s (logCall (UpdateImageRef n target) s)" for s by (auto simp: imageCalls_def)
  ultimately show ?thesis
    unfolding always_def createImageReference_def ext_def
    by (auto split: option.splits if_splits prod.splits intro: tr.rel_trans)
qed

lemma storeUpdate_extends: "always (extends imageCalls) (storeUpdate w r)"
  unfolding always_def storeUpdate_def
  by (auto intro!: extendsI [of _ "[GetImage r]"] simp: imageCalls_def split: prod.splits)

lemma pullReferences_extends: "always (extends imageCalls) (pullReferences w target rs)"
proof (induction rs)
  case Nil
  show ?case by (simp add: always_def tr.rel_refl)
next
  case (Cons r rs)
  then show ?case unfolding pullReferences.simps by (intro rel_intros createImageReference_extends storeUpdate_extends)
qed

lemma PullImage_extends: "always (extends imageCalls) (PullImage w r)"
proof -
  have p: "always (extends imageCalls) (\<lambda>s. (f s, logCall (CtrdPull ref) s))" for f :: "svc \<Rightarrow> ctrd_image result" and ref
    by (auto simp: always_def imageCalls_def)
  have c: "extends imageCalls s (logCall (ImageConfig ref) s)" for s ref by (auto simp: imageCalls_def)
  show ?thesis
    unfolding PullImage_def Let_def case_prod_beta
    by (intro rel_intros p c pullReferences_extends)
qed

lemma ensureImageExists_extends: "always (extends imageCalls) (ensureImageExists w r)"
proof -
  have g: "always (extends imageCalls) (wrapA (\<lambda>s. (Image_Get (imageStore s) i, s)) f args)" for i f args
    by (intro rel_intros) (simp add: always_def tr.rel_refl)
  have "always (extends imageCalls) (bindA (wrapA (PullImage w r) f [r]) (\<lambda>i. wrapA (\<lambda>s. (Image_Get (imageStore s) i, s)) (g i) (args i)))"
    for f g args by (intro rel_intros g PullImage_extends)
  then show ?thesis
    unfolding always_def ensureImageExists_def localResolve_def Let_def
    by (auto simp: tr.rel_refl split: sum.splits if_splits)
qed

lemma toContainerdImage_extends: "always (extends imageCalls) (toContainerdImage w img)"
  unfolding always_def toContainerdImage_def
  by (auto simp: imageCalls_def tr.rel_refl split: list.splits)

lemma extends_weaken: "always (extends A) m \<Longrightarrow> A \<subseteq> B \<Longrightarrow> always (extends B) m"
  by (erule always_mono) (erule extends_mono)

lemma newSandbox_extends: "always (extends A) (newSandbox i name config h)"
  by (auto simp: always_def newSandbox_def Let_def split: prod.splits intro!: extends_same)

lemma sandboxAdd_extends: "always (extends A) (sandboxAdd sb)"
  by (auto simp: always_def sandboxAdd_def Let_def split: prod.splits intro!: extends_same)

lemma osRemoveAll_extends: "RemoveAll d \<in> A \<Longrightarrow> always (extends A) (osRemoveAll w d)"
  unfolding osRemoveAll_def by (intro rel_intros) simp_all

definition networkCalls :: "extcall set" where
  "networkCalls = {c. (\<exists>i p o'. c = CNISetup i p o') \<or> (\<exists>i p o'. c = CNIRemove i p o')}"

lemma setupPodNetwork_extends: "always (extends networkCalls) (setupPodNetwork w sb)"
  unfolding always_def setupPodNetwork_def ext_def
  by (auto simp: networkCalls_def tr.rel_refl Let_def split: option.splits sum.splits prod.splits if_splits)

lemma teardownPodNetwork_extends: "always (extends networkCalls) (teardownPodNetwork w sb)"
  unfolding always_def teardownPodNetwork_def ext_def
  by (auto simp: networkCalls_def tr.rel_refl split: option.splits sum.splits)

definition fileCalls :: "extcall set" where
  "fileCalls = {c. c = Hostname \<or> (\<exists>p d. c = WriteData p d) \<or> (\<exists>p d. c = CopyFile p d) \<or> (\<exists>p. c = StatFile p) \<or>
     (\<exists>p. c = MountShm p) \<or> (\<exists>p. c = MkdirAll p) \<or> (\<exists>p. c = FollowSymlink p) \<or> (\<exists>p. c = Unmount p)}"

lemma option_handler [rel_intros]:
  "always R m \<Longrightarrow> (\<And>x. always R (f x)) \<Longrightarrow> always R (case v of None \<Rightarrow> m | Some x \<Rightarrow> f x)"
  by (cases v) auto

lemma setupSandboxFiles_extends: "always (extends fileCalls) (setupSandboxFiles w cfg i config)"
  unfolding setupSandboxFiles_def setupResolv_def setupShm_def Let_def
  by (intro rel_intros) (auto simp: fileCalls_def)

lemma cleanupSandboxFiles_extends: "always (extends fileCalls) (cleanupSandboxFiles w cfg i config)"
  unfolding cleanupSandboxFiles_def by (intro rel_intros) (auto simp: fileCalls_def)

lemmas run_extends = newSandbox_extends sandboxAdd_extends osRemoveAll_extends
  extends_weaken [OF ensureImageExists_extends] extends_weaken [OF toContainerdImage_extends]
  extends_weaken [OF setupPodNetwork_extends] extends_weaken [OF teardownPodNetwork_extends]
  extends_weaken [OF setupSandboxFiles_extends] extends_weaken [OF cleanupSandboxFiles_extends]

lemmas run_ignore = always_ignore [OF extends_ext] always_ignore [OF osRemoveAll_extends]
  always_ignore [OF extends_weaken [OF cleanupSandboxFiles_extends]]
  always_ignore [OF extends_weaken [OF teardownPodNetwork_extends]]


lemma runTask_any: "always (extends UNIV) (runTask w sb createdAt)"
  unfolding runTask_def Let_def by (intro rel_intros run_extends run_ignore) auto

lemma runFiles_any: "always (extends UNIV) (runFiles w sb config cfg)"
  unfolding runFiles_def Let_def by (intro rel_intros run_extends run_ignore runTask_any) auto

lemma runVolatileDir_any: "always (extends UNIV) (runVolatileDir w sb config cfg)"
  unfolding runVolatileDir_def Let_def by (intro rel_intros run_extends run_ignore runFiles_any) auto

lemma runRootDir_any: "always (extends UNIV) (runRootDir w sb config cfg)"
  unfolding runRootDir_def Let_def by (intro rel_intros run_extends run_ignore runVolatileDir_any) auto

lemma runContainer_any: "always (extends UNIV) (runContainer w sb config cfg)"
  unfolding runContainer_def Let_def by (intro rel_intros run_extends run_ignore runRootDir_any) auto

lemma runSpec_any: "always (extends UNIV) (runSpec w config rt cfg sb)"
  unfolding runSpec_def Let_def by (intro rel_intros run_extends run_ignore runContainer_any) auto

subsection \<open>Every resource is released on failure\<close>

text \<open>
  A resource is the set \<open>A\<close> of calls that acquire it and the set \<open>R\<close> of calls that release it. A layer of
  \<^verbatim>\<open>RunPodSandbox\<close> that does not touch a resource itself is clean if the rest is.
\<close>

lemma runFiles_clean:
  assumes "fileCalls \<subseteq> - A" "CtrInfo (sb_ID sb) \<notin> A"
    "\<And>c. clean w A R (runTask w sb c)"
  shows "clean w A R (runFiles w sb config cfg)"
  unfolding runFiles_def Let_def
  by (intro clean_intros rel_intros run_extends run_ignore) (simp_all add: assms)

lemma runVolatileDir_clean:
  assumes "\<And>d. MkdirAll d \<notin> A" "\<And>d. RemoveAll d \<notin> A" "clean w A R (runFiles w sb config cfg)"
  shows "clean w A R (runVolatileDir w sb config cfg)"
  unfolding runVolatileDir_def Let_def
  by (intro clean_intros rel_intros run_extends run_ignore) (simp_all add: assms)

lemma runRootDir_clean:
  assumes "MkdirAll (getSandboxRootDir cfg (sb_ID sb)) \<notin> A" "\<And>d. RemoveAll d \<notin> A" "clean w A R (runVolatileDir w sb config cfg)"
  shows "clean w A R (runRootDir w sb config cfg)"
  unfolding runRootDir_def Let_def
  by (intro clean_intros rel_intros run_extends run_ignore) (simp_all add: assms)

lemma runContainer_clean:
  assumes "\<And>i l x. CtrNew i l x \<notin> A" "\<And>i. CtrDelete i \<notin> A" "clean w A R (runRootDir w sb config cfg)"
  shows "clean w A R (runContainer w sb config cfg)"
  unfolding runContainer_def Let_def
  by (intro clean_intros rel_intros run_extends run_ignore) (simp_all add: assms)

lemma runSpec_clean:
  assumes "\<And>i p r. GenSandboxSpec i p r \<notin> A" "\<And>i. GenSpecOpts i \<notin> A" "\<And>i. GenRuntimeOptions i \<notin> A" "\<And>l. ReleaseLabel l \<notin> A"
    "\<And>l. clean w A R (runContainer w (setProcessLabel sb l) config cfg)"
  shows "clean w A R (runSpec w config rt cfg sb)"
  unfolding runSpec_def Let_def
  by (intro clean_intros rel_intros run_extends run_ignore extends_logCall) (simp_all add: assms)

lemma setupPodNetwork_ID: "setupPodNetwork w sb s = (Inr sb', t) \<Longrightarrow> sb_ID sb' = sb_ID sb"
  by (auto simp: setupPodNetwork_def setNetwork_def sb_ID_def Let_def split: if_splits sum.splits prod.splits option.splits)

lemma runNetwork_clean:
  assumes "\<And>i. NewNetNS i \<notin> A" "\<And>p. NetNSRemove p \<notin> A" "networkCalls \<subseteq> - A"
    "\<And>sb'. sb_ID sb' = sb_ID sb \<Longrightarrow> clean w A R (runSpec w config rt cfg sb')"
  shows "clean w A R (runNetwork w config rt cfg sb)"
proof -
  have k: "extends (- A) s (ignoreA (ext w (NetNSRemove p)) (ignoreA (teardownPodNetwork w sb') s))" for p sb' s
    by (rule tr.rel_trans [OF run_ignore(4) run_ignore(1)]) (simp_all add: assms)
  have b: "clean w A R (bindA (wrapA (setupPodNetwork w (setNetNS sb p)) f [i]) (runSpec w config rt cfg))" for p f i
  proof (rule clean_bind_dep)
    show "always (extends (- A)) (wrapA (setupPodNetwork w (setNetNS sb p)) f [i])"
      by (intro rel_intros run_extends) (simp add: assms)
    show "clean w A R (runSpec w config rt cfg sb')" if "wrapA (setupPodNetwork w (setNetNS sb p)) f [i] s = (Inr sb', t)" for s sb' t
      using that setupPodNetwork_ID [of w "setNetNS sb p" s sb' t] by (intro assms(4)) (simp add: wrapA_Inr setNetNS_def sb_ID_def)
  qed
  show ?thesis
    unfolding runNetwork_def Let_def
    by (intro clean_if clean_then clean_bind clean_onError k b rel_intros assms) (simp_all add: assms)
qed

lemma runBody_clean:
  assumes "imageCalls \<subseteq> - A" "\<And>rt sb. sb_ID sb = i \<Longrightarrow> clean w A R (runNetwork w config rt cfg sb)"
  shows "clean w A R (runBody w cfg config h i name)"
  unfolding runBody_def
proof (rule clean_bind_dep)
  fix s sb t assume "newSandbox i name config h s = (Inr sb, t)"
  then have "sb_ID sb = i" by (auto simp: newSandbox_def NewSandbox_def zero_sb_metadata_def sb_ID_def Let_def)
  then show "clean w A R (
     bindA (wrapA (ensureImageExists w (cf_SandboxImage cfg)) ''failed to get sandbox image %q'' [cf_SandboxImage cfg]) (\<lambda>img.
     bindA (wrapA (toContainerdImage w img) ''failed to get image from containerd %q'' [im_ID img]) (\<lambda>_.
     bindA (wrapA (liftA (getSandboxRuntime cfg config h)) ''failed to get sandbox runtime'' []) (\<lambda>ociRuntime.
     runNetwork w config ociRuntime cfg sb))))"
    by (intro clean_intros rel_intros run_extends assms)
qed (rule newSandbox_extends)

text \<open>The layer that acquires a resource releases it.\<close>

lemma runTask_acquire: "clean w {TaskNew (sb_ID sb)} {TaskDelete (sb_ID sb)} (runTask w sb c)"
  unfolding runTask_def Let_def
  by (intro clean_acquire_ext releasing_get releasing_onError release_ext rel_intros run_extends) auto

lemma setupShm_clean: "clean w {MountShm p} R (setupSandboxFiles w cfg i config)"
  unfolding setupSandboxFiles_def setupResolv_def setupShm_def Let_def
  by (intro clean_intros clean_ext rel_intros) simp_all

lemma cleanupSandboxFiles_follows:
  "pc_NsIpc config \<noteq> NS_NODE \<Longrightarrow> \<exists>new. trace (ignoreA (cleanupSandboxFiles w cfg i config) s) = new @ trace s \<and>
     set new \<inter> {MountShm (getSandboxDevShm cfg i)} = {} \<and> set new \<inter> {FollowSymlink (getSandboxDevShm cfg i)} \<noteq> {}"
  by (auto simp: cleanupSandboxFiles_def ignoreA_def thenA_def bindA_def wrapA_def tolerateA_def ext_def
      split: option.splits sum.splits prod.splits if_splits)

lemma runFiles_acquire:
  "clean w {MountShm (getSandboxDevShm cfg (sb_ID sb))} {FollowSymlink (getSandboxDevShm cfg (sb_ID sb))} (runFiles w sb config cfg)"
proof (cases "pc_NsIpc config = NS_NODE")
  case True
  have f: "always (extends (- {MountShm p})) (setupSandboxFiles w cfg (sb_ID sb) config)" for p
    unfolding setupSandboxFiles_def setupResolv_def setupShm_def Let_def unfolding True simp_thms if_True
    by (intro rel_intros) simp_all
  have c: "always (extends (- {MountShm p})) (cleanupSandboxFiles w cfg (sb_ID sb) config)" for p
    unfolding cleanupSandboxFiles_def by (intro rel_intros) simp_all
  have t: "always (extends (- {MountShm p})) (runTask w sb c)" for p c
    unfolding runTask_def Let_def by (intro rel_intros run_extends run_ignore extends_logCall) simp_all
  have "always (extends (- {MountShm p})) (runFiles w sb config cfg)" for p
    unfolding runFiles_def Let_def by (intro rel_intros f t always_ignore [OF c]) simp_all
  then show ?thesis by (intro clean_avoid always_failing)
next
  case False
  then show ?thesis
    unfolding runFiles_def Let_def
    by (intro clean_acquire clean_wrap setupShm_clean releasing_onError cleanupSandboxFiles_follows rel_intros run_extends runTask_any) auto
qed

lemma release_osRemoveAll:
  "\<exists>new. trace (ignoreA (osRemoveAll w d) s) = new @ trace s \<and> set new \<inter> {MkdirAll d'} = {} \<and> set new \<inter> {RemoveAll d} \<noteq> {}"
  by (rule exI [of _ "[RemoveAll d]"]) (auto simp: osRemoveAll_def ignoreA_def ext_def thenA_def bindA_def split: option.splits)

lemma runVolatileDir_acquire:
  assumes "getVolatileSandboxRootDir cfg (sb_ID sb) = d"
  shows "clean w {MkdirAll d} {RemoveAll d} (runVolatileDir w sb config cfg)"
  unfolding runVolatileDir_def Let_def assms
  by (intro clean_acquire_ext releasing_onError runFiles_any release_osRemoveAll)

lemma runRootDir_acquire:
  assumes "d \<in> {getSandboxRootDir cfg (sb_ID sb), getVolatileSandboxRootDir cfg (sb_ID sb)}"
  shows "clean w {MkdirAll d} {RemoveAll d} (runRootDir w sb config cfg)"
proof (cases "d = getSandboxRootDir cfg (sb_ID sb)")
  case True
  show ?thesis unfolding runRootDir_def Let_def True
    by (intro clean_acquire_ext releasing_onError runVolatileDir_any release_osRemoveAll)
next
  case False
  with assms show ?thesis by (intro runRootDir_clean runVolatileDir_acquire) auto
qed

lemma runContainer_acquire:
  "clean w {c. \<exists>l x. c = CtrNew (sb_ID sb) l x} {CtrDelete (sb_ID sb)} (runContainer w sb config cfg)"
  unfolding runContainer_def Let_def
  by (intro clean_acquire_ext releasing_onError release_ext runRootDir_any) auto

lemma runSpec_acquire:
  "clean w {c. \<exists>p r. c = GenSandboxSpec i p r} (range ReleaseLabel) (runSpec w config rt cfg sb)"
proof -
  have "\<exists>new. trace (logCall (ReleaseLabel l) s) = new @ trace s \<and> set new \<inter> {c. \<exists>p r. c = GenSandboxSpec i p r} = {} \<and>
      set new \<inter> range ReleaseLabel \<noteq> {}" for l s
    by (rule exI [of _ "[ReleaseLabel l]"]) auto
  then show ?thesis unfolding runSpec_def Let_def
    by (intro clean_acquire_ext releasing_get releasing_onError rel_intros runContainer_any) auto
qed

lemma runNetwork_acquire: "clean w {NewNetNS (sb_ID sb)} (range NetNSRemove) (runNetwork w config rt cfg sb)"
proof -
  have k: "\<exists>new. trace (ignoreA (ext w (NetNSRemove p)) (ignoreA (teardownPodNetwork w sb') s)) = new @ trace s \<and>
      set new \<inter> {NewNetNS (sb_ID sb)} = {} \<and> set new \<inter> range NetNSRemove \<noteq> {}" for p sb' s
  proof -
    have "extends (- {NewNetNS (sb_ID sb)}) s (ignoreA (teardownPodNetwork w sb') s)"
      by (rule run_ignore(4)) (auto simp: networkCalls_def)
    then obtain xs where "trace (ignoreA (teardownPodNetwork w sb') s) = xs @ trace s" "set xs \<inter> {NewNetNS (sb_ID sb)} = {}"
      by (auto simp: extends_def)
    then show ?thesis by (intro exI [of _ "NetNSRemove p # xs"]) (simp add: ignoreA_def ext_def)
  qed
  have s: "clean w {NewNetNS (sb_ID sb)} (range NetNSRemove) (runSpec w config rt cfg sb)"
  proof (rule clean_avoid [OF always_failing])
    show "always (extends (- {NewNetNS (sb_ID sb)})) (runSpec w config rt cfg sb)"
      unfolding runSpec_def runContainer_def runRootDir_def runVolatileDir_def runFiles_def runTask_def Let_def
      by (intro rel_intros run_extends run_ignore extends_logCall) (auto simp: fileCalls_def)
  qed
  show ?thesis
  proof (cases "pc_NsNetwork config = NS_NODE")
    case True
    then show ?thesis using s by (simp add: runNetwork_def)
  next
    case False
    have "always (extends UNIV) (setupPodNetwork w sb')" for sb' by (rule extends_weaken [OF setupPodNetwork_extends]) simp
    with False show ?thesis unfolding runNetwork_def Let_def
      by (auto intro!: clean_acquire_ext releasing_get releasing_onError k rel_intros runSpec_any)
  qed
qed

text \<open>The resources of a pod, as pairs of acquiring and releasing calls.\<close>

definition podResources :: "criConfig \<Rightarrow> string \<Rightarrow> (extcall set \<times> extcall set) set" where
  "podResources cfg i =
     {({NewNetNS i}, range NetNSRemove),
      ({c. \<exists>p r. c = GenSandboxSpec i p r}, range ReleaseLabel),
      ({c. \<exists>l x. c = CtrNew i l x}, {CtrDelete i}),
      ({MkdirAll (getSandboxRootDir cfg i)}, {RemoveAll (getSandboxRootDir cfg i)}),
      ({MkdirAll (getVolatileSandboxRootDir cfg i)}, {RemoveAll (getVolatileSandboxRootDir cfg i)}),
      ({MountShm (getSandboxDevShm cfg i)}, {FollowSymlink (getSandboxDevShm cfg i)}),
      ({TaskNew i}, {TaskDelete i})}"

lemma imageCalls_disjoint:
  "imageCalls \<subseteq> - {NewNetNS i}" "imageCalls \<subseteq> - {c. \<exists>p r. c = GenSandboxSpec i p r}" "imageCalls \<subseteq> - {c. \<exists>l x. c = CtrNew i l x}"
  "imageCalls \<subseteq> - {MkdirAll d}" "imageCalls \<subseteq> - {MountShm d}" "imageCalls \<subseteq> - {TaskNew i}"
  "networkCalls \<subseteq> - {c. \<exists>p r. c = GenSandboxSpec i p r}" "networkCalls \<subseteq> - {c. \<exists>l x. c = CtrNew i l x}"
  "networkCalls \<subseteq> - {MkdirAll d}" "networkCalls \<subseteq> - {MountShm d}" "networkCalls \<subseteq> - {TaskNew i}"
  "fileCalls \<subseteq> - {TaskNew i}"
  by (auto simp: imageCalls_def networkCalls_def fileCalls_def)

lemma sb_ID_label [simp]: "sb_ID (setProcessLabel sb l) = sb_ID sb" by (simp add: setProcessLabel_def sb_ID_def)

lemmas run_clean = runBody_clean runNetwork_clean runSpec_clean runContainer_clean

lemma acquire:
  "sb_ID sb = i \<Longrightarrow> clean w {c. \<exists>l x. c = CtrNew i l x} {CtrDelete i} (runContainer w sb config cfg)"
  "sb_ID sb = i \<Longrightarrow> clean w {MountShm (getSandboxDevShm cfg i)} {FollowSymlink (getSandboxDevShm cfg i)} (runFiles w sb config cfg)"
  "sb_ID sb = i \<Longrightarrow> clean w {TaskNew i} {TaskDelete i} (runTask w sb c)"
  using runContainer_acquire [of w sb] runFiles_acquire [of w cfg sb] runTask_acquire [of w sb] by simp_all

lemma runBody_clean_all:
  assumes "(A, R) \<in> podResources cfg i"
  shows "clean w A R (runBody w cfg config h i name)"
proof -
  let ?G = "{c. \<exists>p r. c = GenSandboxSpec i p r}" and ?C = "{c. \<exists>l x. c = CtrNew i l x}"
  let ?root = "getSandboxRootDir cfg i" and ?vol = "getVolatileSandboxRootDir cfg i" and ?shm = "getSandboxDevShm cfg i"
  have 1: "clean w {NewNetNS i} (range NetNSRemove) (runBody w cfg config h i name)"
    by (intro runBody_clean imageCalls_disjoint) (metis runNetwork_acquire)
  have 2: "clean w ?G (range ReleaseLabel) (runBody w cfg config h i name)"
    by (intro runBody_clean runNetwork_clean imageCalls_disjoint runSpec_acquire) auto
  have 3: "clean w ?C {CtrDelete i} (runBody w cfg config h i name)"
    by (intro runBody_clean runNetwork_clean runSpec_clean imageCalls_disjoint acquire) simp_all
  have 4: "clean w {MkdirAll d} {RemoveAll d} (runBody w cfg config h i name)" if "d \<in> {?root, ?vol}" for d
    using that by (intro run_clean imageCalls_disjoint runRootDir_acquire) auto
  have 5: "clean w {MountShm ?shm} {FollowSymlink ?shm} (runBody w cfg config h i name)"
    by (intro run_clean imageCalls_disjoint runRootDir_clean runVolatileDir_clean acquire) simp_all
  have 6: "clean w {TaskNew i} {TaskDelete i} (runBody w cfg config h i name)"
    by (intro run_clean imageCalls_disjoint runRootDir_clean runVolatileDir_clean runFiles_clean acquire) simp_all
  note r = 1 2 3 4 [of ?root, simplified] 4 [of ?vol, simplified] 5 6
  show ?thesis using assms unfolding podResources_def by (elim insertE emptyE) (simp_all only: prod.inject r)
qed

subsection \<open>The stores are left alone on failure\<close>

text \<open>
  \<open>podRel i ref s t\<close>: if \<open>i\<close> is an id that the sandbox store can accept, then the stores, the name indexes, the
  labels and every cell but the one at \<open>ref\<close> are the same in both states.
\<close>

definition podSame :: "nat \<Rightarrow> svc \<Rightarrow> svc \<Rightarrow> bool" where
  "podSame ref s t \<longleftrightarrow> sandboxStore t = sandboxStore s \<and> containerStore t = containerStore s \<and> labelStore t = labelStore s \<and>
     containerNameIndex t = containerNameIndex s \<and> sandboxNameIndex t = sandboxNameIndex s \<and> cells t = cells s \<and>
     sv_config t = sv_config s \<and> netPlugin t = netPlugin s \<and> (\<forall>r. r \<noteq> ref \<longrightarrow> sbCells t r = sbCells s r)"

definition podPre :: "string \<Rightarrow> svc \<Rightarrow> bool" where
  "podPre i s \<longleftrightarrow> sbs_inv (sandboxStore s) \<and> ss_sandboxes (sandboxStore s) i = None \<and> i \<noteq> [] \<and> CHR '' '' \<notin> set i"

definition podRel :: "string \<Rightarrow> nat \<Rightarrow> svc \<Rightarrow> svc \<Rightarrow> bool" where
  "podRel i ref s t \<longleftrightarrow> (podPre i s \<longrightarrow> podSame ref s t)"

interpretation pod: state_rel "podRel i ref"
proof
  show "podRel i ref s s" for s by (simp add: podRel_def podSame_def)
  show "podRel i ref s u" if "podRel i ref s t" "podRel i ref t u" for s t u
    using that by (auto simp: podRel_def podSame_def podPre_def)
qed

lemma podRel_logCall [intro]: "podRel i ref s (logCall c s)" by (simp add: podRel_def podSame_def)

lemma podRel_ext [rel_intros]: "always (podRel i ref) (ext w c)"
  by (auto simp: always_def ext_def)

lemma podRel_sbStatus [rel_intros]: "sb_ref sb = ref \<Longrightarrow> always (podRel i ref) (sbStatusUpdate u sb)"
  by (auto simp: always_def sbStatusUpdate_def podRel_def podSame_def Let_def split: prod.splits)

lemma podRel_disk [rel_intros]: "always (podRel i ref) (modifyA (\<lambda>s. s\<lparr>svDisk := f s\<rparr>))"
  by (auto simp: always_def podRel_def podSame_def)

lemma podRel_sandboxAdd: "sb_ID sb = i \<Longrightarrow> failing (podRel i ref) (sandboxAdd sb)"
  unfolding failing_def podRel_def podPre_def
proof (intro allI impI)
  fix s e t assume i: "sb_ID sb = i" and a: "sandboxAdd sb s = (Inl e, t)" and
    pre: "sbs_inv (sandboxStore s) \<and> ss_sandboxes (sandboxStore s) i = None \<and> i \<noteq> [] \<and> CHR '' '' \<notin> set i"
  from a obtain st L where add: "Sandbox_Add sb (sandboxStore s) (labelStore s) = (Inl e, st, L)"
    and t: "t = s\<lparr>sandboxStore := st, labelStore := L\<rparr>" by (auto simp: sandboxAdd_def Let_def split: prod.splits)
  have st: "st = sandboxStore s" using sbstore.add_Inl [OF _ add] pre by blast
  have "fst (Label_Reserve (labelStore s) (sb_ProcessLabel sb)) \<noteq> Inr ()"
    using sbstore.add_ok_iff [of "sandboxStore s" sb "labelStore s"] add pre i by auto
  then have "L = labelStore s"
    using add pre i by (auto simp: Sandbox_Add_def Label_Reserve_def Let_def split: sum.splits prod.splits if_splits)
  with st t show "podSame ref s t" by (simp add: podSame_def)
qed

lemma podRel_image:
  "always (podRel i ref) (ensureImageExists w r)" "always (podRel i ref) (toContainerdImage w img)"
proof -
  have u: "always (podRel i ref) (storeUpdate w n)" for n
    by (auto simp: always_def storeUpdate_def podRel_def podSame_def Let_def split: prod.splits)
  have c: "always (podRel i ref) (createImageReference w n target)" for n target
    unfolding always_def createImageReference_def ext_def
    by (auto simp: podRel_def podSame_def split: option.splits if_splits prod.splits)
  have p: "always (podRel i ref) (pullReferences w target rs)" for target rs
  proof (induction rs)
    case Nil
    show ?case by (simp add: always_def pod.rel_refl)
  next
    case (Cons r rs)
    then show ?case unfolding pullReferences.simps by (intro rel_intros c u)
  qed
  have l: "always (podRel i ref) (\<lambda>s. (f s, logCall (CtrdPull n) s))" for f :: "svc \<Rightarrow> ctrd_image result" and n
    by (auto simp: always_def)
  have pull: "always (podRel i ref) (PullImage w r)" for r
    unfolding PullImage_def Let_def case_prod_beta by (intro rel_intros p l podRel_logCall)
  have g: "always (podRel i ref) (wrapA (\<lambda>s. (Image_Get (imageStore s) n, s)) f args)" for n f args
    by (intro rel_intros) (simp add: always_def pod.rel_refl)
  have "always (podRel i ref) (bindA (wrapA (PullImage w r) f [r]) (\<lambda>n. wrapA (\<lambda>s. (Image_Get (imageStore s) n, s)) (g n) (args n)))"
    for f g args by (intro rel_intros g pull)
  then show "always (podRel i ref) (ensureImageExists w r)"
    unfolding always_def ensureImageExists_def localResolve_def Let_def
    by (auto simp: pod.rel_refl split: sum.splits if_splits)
  show "always (podRel i ref) (toContainerdImage w img)"
    unfolding always_def toContainerdImage_def by (auto simp: pod.rel_refl split: list.splits)
qed

lemma podRel_network:
  "always (podRel i ref) (setupPodNetwork w sb)" "always (podRel i ref) (teardownPodNetwork w sb)"
  unfolding always_def setupPodNetwork_def teardownPodNetwork_def ext_def
  by (auto simp: pod.rel_refl Let_def split: option.splits sum.splits prod.splits if_splits)

lemma podRel_files:
  "always (podRel i ref) (setupSandboxFiles w cfg j config)" "always (podRel i ref) (cleanupSandboxFiles w cfg j config)"
  "always (podRel i ref) (osRemoveAll w d)"
  unfolding setupSandboxFiles_def setupResolv_def setupShm_def cleanupSandboxFiles_def osRemoveAll_def Let_def
  by (intro rel_intros)+

lemmas podRel_intros = podRel_image podRel_network podRel_files
  podRel_image [THEN always_ignore] podRel_network [THEN always_ignore] podRel_files [THEN always_ignore] podRel_ext [THEN always_ignore]

lemma runContainer_frame:
  assumes "sb_ID sb = i" "sb_ref sb = ref"
  shows "failing (podRel i ref) (runContainer w sb config cfg)"
proof -
  have id: "sb_ID (sb\<lparr>sb_Container := x\<rparr>) = i" for x using assms by (simp add: sb_ID_def)
  show ?thesis
    unfolding runContainer_def runRootDir_def runVolatileDir_def runFiles_def runTask_def Let_def
    by (intro rel_intros pod.failing_last podRel_intros podRel_sandboxAdd [OF id] assms(2))
qed

lemma runSpec_frame:
  assumes "sb_ID sb = i" "sb_ref sb = ref"
  shows "failing (podRel i ref) (runSpec w config rt cfg sb)"
proof -
  have "failing (podRel i ref) (runContainer w (setProcessLabel sb l) config cfg)" for l
    by (rule runContainer_frame) (use assms in \<open>simp_all add: setProcessLabel_def sb_ID_def\<close>)
  then show ?thesis unfolding runSpec_def Let_def by (intro rel_intros podRel_intros podRel_logCall)
qed

lemma setupPodNetwork_same:
  "setupPodNetwork w sb s = (Inr sb', t) \<Longrightarrow> sb_ref sb' = sb_ref sb \<and> sm_ID (sb_meta sb') = sm_ID (sb_meta sb) \<and>
     sm_Name (sb_meta sb') = sm_Name (sb_meta sb) \<and> sm_Config (sb_meta sb') = sm_Config (sb_meta sb) \<and>
     sm_RuntimeHandler (sb_meta sb') = sm_RuntimeHandler (sb_meta sb)"
  by (auto simp: setupPodNetwork_def setNetwork_def Let_def split: if_splits sum.splits prod.splits option.splits)

lemma runNetwork_frame:
  assumes "sb_ID sb = i" "sb_ref sb = ref"
  shows "failing (podRel i ref) (runNetwork w config rt cfg sb)"
proof -
  have b: "failing (podRel i ref) (bindA (wrapA (setupPodNetwork w (setNetNS sb p)) f [j]) (runSpec w config rt cfg))" for p f j
  proof (rule pod.failing_bind_dep)
    show "always (podRel i ref) (wrapA (setupPodNetwork w (setNetNS sb p)) f [j])" by (intro rel_intros podRel_intros)
    show "failing (podRel i ref) (runSpec w config rt cfg sb')" if "wrapA (setupPodNetwork w (setNetNS sb p)) f [j] s = (Inr sb', t)" for s sb' t
      using that setupPodNetwork_same [of w "setNetNS sb p" s sb' t] assms
      by (intro runSpec_frame) (simp_all add: wrapA_Inr setNetNS_def sb_ID_def)
  qed
  have k: "podRel i ref s (ignoreA (ext w (NetNSRemove p)) (ignoreA (teardownPodNetwork w sb') s))" for p sb' s
    by (rule pod.rel_trans) (rule podRel_intros)+
  show ?thesis
    unfolding runNetwork_def Let_def by (intro rel_intros b k runSpec_frame assms)
qed

lemma runBody_frame:
  assumes "runBody w cfg config h i name s = (Inl e, t)" "podPre i s"
  shows "podSame (nextRef s) s t"
proof -
  let ?sb = "fst (NewSandbox (nextRef s) (zero_sb_metadata\<lparr>sm_ID := i, sm_Name := name, sm_Config := Some config, sm_RuntimeHandler := h\<rparr>)
            \<lparr>sb_Pid = 0, sb_CreatedAt = zeroTime, sb_State = StateUnknown\<rparr>)"
  obtain u where u: "newSandbox i name config h s = (Inr ?sb, u)" by (simp add: newSandbox_def Let_def case_prod_beta)
  have sb: "sb_ID ?sb = i" "sb_ref ?sb = nextRef s"
    by (simp_all add: NewSandbox_def sb_ID_def zero_sb_metadata_def Let_def)
  have su: "podSame (nextRef s) s u" "podPre i u"
    using u assms(2) by (auto simp: newSandbox_def podSame_def podPre_def Let_def split: prod.splits)
  have "failing (podRel i (nextRef s))
     (bindA (wrapA (ensureImageExists w (cf_SandboxImage cfg)) ''failed to get sandbox image %q'' [cf_SandboxImage cfg]) (\<lambda>img.
      bindA (wrapA (toContainerdImage w img) ''failed to get image from containerd %q'' [im_ID img]) (\<lambda>_.
      bindA (wrapA (liftA (getSandboxRuntime cfg config h)) ''failed to get sandbox runtime'' []) (\<lambda>ociRuntime.
      runNetwork w config ociRuntime cfg ?sb))))"
    by (intro rel_intros podRel_intros runNetwork_frame sb)
  then have "podRel i (nextRef s) u t"
    by (rule failingD [where e = e]) (use assms(1) u in \<open>simp add: runBody_def bindA_def\<close>)
  with su show ?thesis by (auto simp: podRel_def podSame_def)
qed

text \<open>
  A failed \<^verbatim>\<open>RunPodSandbox\<close> leaves nothing behind. The stores, name indexes, labels and the cells of
  all other objects are as before, so that the pod name can be used again; and whatever it had
  acquired -- network namespace, SELinux label, containerd container, the two root directories, the
  shared memory mount, the task -- was followed by the call that gives it back. This needs only that
  the generated id is not in use.
\<close>

lemma RunPodSandbox_rollback:
  assumes "RunPodSandbox w config h s = (Inl e, t)" "reg_inv (sandboxNameIndex s)" "sbs_inv (sandboxStore s)"
    and "i = w_genID w (trace s)" "i \<noteq> []" "CHR '' '' \<notin> set i"
    and "ss_sandboxes (sandboxStore s) i = None" "keyToName (sandboxNameIndex s) i = None"
  shows "podSame (nextRef s) s t \<and>
    (\<exists>new. trace t = new @ trace s \<and> (\<forall>(A, R) \<in> podResources (sv_config s) i. \<not> leaks w A R new (trace s)))"
proof (cases "\<exists>md idx u. pc_Metadata config = Some md \<and> Reserve (sandboxNameIndex s) (makeSandboxName md) i = (Inr (), idx) \<and>
    runBody w (sv_config s) config h i (makeSandboxName md) (s\<lparr>sandboxNameIndex := idx\<rparr>) = (Inl e, u) \<and>
    t = u\<lparr>sandboxNameIndex := ReleaseByName (sandboxNameIndex u) (makeSandboxName md)\<rparr>")
  case False
  then have "t = s"
    using assms(1,4)
    by (auto simp: RunPodSandbox_def Let_def thenA_Inl wrapA_Inl wrapA_Inr onError_Inl reserveSandboxName_def
        split: option.splits prod.splits dest: Reserve_Inl)
  then show ?thesis by (auto simp: podSame_def leaks_def intro!: exI [of _ "[]"])
next
  case True
  then obtain md idx u where r: "Reserve (sandboxNameIndex s) (makeSandboxName md) i = (Inr (), idx)"
    and b: "runBody w (sv_config s) config h i (makeSandboxName md) (s\<lparr>sandboxNameIndex := idx\<rparr>) = (Inl e, u)"
    and t: "t = u\<lparr>sandboxNameIndex := ReleaseByName (sandboxNameIndex u) (makeSandboxName md)\<rparr>" by blast
  have "podPre i (s\<lparr>sandboxNameIndex := idx\<rparr>)" using assms by (simp add: podPre_def)
  from runBody_frame [OF b this] have f: "podSame (nextRef s) (s\<lparr>sandboxNameIndex := idx\<rparr>) u" by simp
  have "fst (Reserve (sandboxNameIndex s) (makeSandboxName md) i) = Inr ()" using r by simp
  with Reserve_ok_iff [OF assms(2)] reg_name_key [OF assms(2)] assms(8)
  have "nameToKey (sandboxNameIndex s) (makeSandboxName md) = None" by auto
  then have rel: "ReleaseByName idx (makeSandboxName md) = sandboxNameIndex s"
    using Release_undoes [OF assms(2) r] by simp
  have "podSame (nextRef s) s t" using f t rel by (simp add: podSame_def)
  moreover have "\<exists>new. trace t = new @ trace s \<and> (\<forall>(A, R) \<in> podResources (sv_config s) i. \<not> leaks w A R new (trace s))"
  proof -
    have c: "\<exists>new. trace u = new @ trace s \<and> \<not> leaks w A R new (trace s)" if "(A, R) \<in> podResources (sv_config s) i" for A R
      using cleanD [OF runBody_clean_all [OF that] b] by simp
    have "(({TaskNew i}, {TaskDelete i})) \<in> podResources (sv_config s) i" by (simp add: podResources_def)
    from c [OF this] obtain new where new: "trace u = new @ trace s" by blast
    have "\<not> leaks w A R new (trace s)" if "(A, R) \<in> podResources (sv_config s) i" for A R
      using c [OF that] new by auto
    then show ?thesis using new t by auto
  qed
  ultimately show ?thesis by blast
qed

subsection \<open>A pod that runs\<close>

lemma runTask_Inr:
  assumes "runTask w sb c s = (Inr (), t)"
  shows "\<exists>pid st L new. Sandbox_Add (sb\<lparr>sb_Container := Some (sb_ID sb)\<rparr>) (sandboxStore s) (labelStore s) = (Inr (), st, L) \<and>
    sandboxStore t = st \<and> labelStore t = L \<and> sandboxNameIndex t = sandboxNameIndex s \<and> containerStore t = containerStore s \<and>
    containerNameIndex t = containerNameIndex s \<and> sbCells t = (sbCells s)(sb_ref sb := (sbCells s (sb_ref sb))\<lparr>sc_status :=
       \<lparr>sbs_status = \<lparr>sb_Pid = pid, sb_CreatedAt = c, sb_State = StateReady\<rparr>\<rparr>\<rparr>) \<and>
    trace t = StartExitMonitor (sb_ID sb) pid # new @ trace s \<and> (\<exists>tr. w_err w tr (TaskStart (sb_ID sb)) = None)"
  using assms
  by (auto simp: runTask_def Let_def act_simps sandboxAdd_def sbStatusUpdate_def Sandbox_Update_def sandboxReady_def logCall_def
      split: prod.splits)
     (auto intro!: exI sb_status.equality sb_statusStorage.equality)

lemma setupSandboxFiles_quiet: "calls_only UNIV (setupSandboxFiles w cfg i config)"
proof -
  have "calls_only UNIV (case v of None \<Rightarrow> returnA [] | Some d \<Rightarrow> wrapA (liftA (g d)) f [])" for v :: "dnsConfig option" and g f
    by (cases v) (simp_all only: option.case call_intros)
  then show ?thesis
    unfolding setupSandboxFiles_def setupResolv_def setupShm_def Let_def by (intro call_intros) auto
qed

lemma runContainer_Inr:
  assumes "runContainer w sb config cfg s = (Inr (), t)"
  shows "\<exists>s1 c. onlyCalls UNIV s s1 \<and> runTask w sb c s1 = (Inr (), t) \<and>
    CtrNew (sb_ID sb) (buildLabels (pc_Labels config) containerKindSandbox) (SandboxMetadata (sb_meta sb)) \<in> set (trace s1)"
proof -
  let ?N = "CtrNew (sb_ID sb) (buildLabels (pc_Labels config) containerKindSandbox) (SandboxMetadata (sb_meta sb))"
  let ?s0 = "logCall (MkdirAll (getVolatileSandboxRootDir cfg (sb_ID sb))) (logCall (MkdirAll (getSandboxRootDir cfg (sb_ID sb))) (logCall ?N s))"
  from assms obtain u where u: "setupSandboxFiles w cfg (sb_ID sb) config ?s0 = (Inr (), u)"
    and r: "runTask w sb (w_createdAt w (trace (logCall (CtrInfo (sb_ID sb)) u)) (sb_ID sb)) (logCall (CtrInfo (sb_ID sb)) u) = (Inr (), t)"
    by (auto simp: runContainer_def runRootDir_def runVolatileDir_def runFiles_def Let_def act_simps)
  have s0: "onlyCalls UNIV s ?s0" "onlyCalls UNIV ?s0 u"
    using calls_onlyD [OF setupSandboxFiles_quiet u] by (auto intro!: onlyCalls_logCall)
  from s0(2) obtain xs where "trace u = xs @ trace ?s0" by (auto simp: onlyCalls_def calls_def)
  then have "?N \<in> set (trace (logCall (CtrInfo (sb_ID sb)) u))" by simp
  moreover have "onlyCalls UNIV s (logCall (CtrInfo (sb_ID sb)) u)" using onlyCalls_trans [OF s0] by (rule onlyCalls_logCall) simp
  ultimately show ?thesis using r by blast
qed

text \<open>\<open>sameRequest sb sb'\<close>: the same sandbox object, up to what the network and the spec have added.\<close>

definition sameRequest :: "sbx \<Rightarrow> sbx \<Rightarrow> bool" where
  "sameRequest sb sb' \<longleftrightarrow> sb_ref sb' = sb_ref sb \<and> sm_ID (sb_meta sb') = sm_ID (sb_meta sb) \<and> sm_Name (sb_meta sb') = sm_Name (sb_meta sb) \<and>
     sm_Config (sb_meta sb') = sm_Config (sb_meta sb) \<and> sm_RuntimeHandler (sb_meta sb') = sm_RuntimeHandler (sb_meta sb)"

lemma setupPodNetwork_quiet: "setupPodNetwork w sb s = (r, t) \<Longrightarrow> onlyCalls UNIV s t"
  by (auto simp: setupPodNetwork_def ext_def Let_def intro!: onlyCalls_logCall split: if_splits sum.splits prod.splits option.splits)

lemma runSpec_Inr:
  assumes "runSpec w config rt cfg sb s = (Inr (), t)"
  shows "\<exists>s1 sb'. onlyCalls UNIV s s1 \<and> sameRequest sb sb' \<and> runContainer w sb' config cfg s1 = (Inr (), t)"
proof -
  from assms obtain l where "runContainer w (setProcessLabel sb l) config cfg (logCall (GenRuntimeOptions (sb_ID sb))
      (logCall (GenSpecOpts (sb_ID sb)) (logCall (GenSandboxSpec (sb_ID sb) (sm_NetNSPath (sb_meta sb)) rt) s))) = (Inr (), t)"
    by (auto simp: runSpec_def Let_def act_simps)
  then show ?thesis by (intro exI conjI) (auto intro!: onlyCalls_logCall simp: sameRequest_def setProcessLabel_def)
qed

lemma runNetwork_Inr:
  assumes "runNetwork w config rt cfg sb s = (Inr (), t)"
  shows "\<exists>s1 sb'. onlyCalls UNIV s s1 \<and> sameRequest sb sb' \<and> runContainer w sb' config cfg s1 = (Inr (), t)"
proof (cases "pc_NsNetwork config = NS_NODE")
  case True
  then show ?thesis using assms runSpec_Inr [of w config rt cfg sb s t] by (simp add: runNetwork_def)
next
  case False
  with assms obtain p sb1 u where u: "setupPodNetwork w (setNetNS sb p) (logCall (NewNetNS (sb_ID sb)) s) = (Inr sb1, u)"
    and r: "runSpec w config rt cfg sb1 u = (Inr (), t)" by (auto simp: runNetwork_def Let_def act_simps)
  have "onlyCalls UNIV s u" using setupPodNetwork_quiet [OF u] onlyCalls_logCall [OF onlyCalls_refl] by (blast intro: onlyCalls_trans)
  moreover have "sameRequest sb sb1" using setupPodNetwork_same [OF u] by (simp add: sameRequest_def setNetNS_def)
  ultimately show ?thesis using runSpec_Inr [OF r] unfolding sameRequest_def by (metis (no_types, lifting) onlyCalls_trans)
qed

lemma runBody_Inr:
  assumes "runBody w cfg config h i name s = (Inr (), t)" "podPre i s"
  shows "\<exists>sb s1. sb_ref sb = nextRef s \<and> sm_ID (sb_meta sb) = i \<and> sm_Name (sb_meta sb) = name \<and> sm_Config (sb_meta sb) = Some config \<and>
    sm_RuntimeHandler (sb_meta sb) = h \<and> runContainer w sb config cfg s1 = (Inr (), t) \<and> extends UNIV s s1 \<and>
    sandboxStore s1 = sandboxStore s \<and> labelStore s1 = labelStore s \<and> sandboxNameIndex s1 = sandboxNameIndex s \<and>
    containerStore s1 = containerStore s \<and> containerNameIndex s1 = containerNameIndex s \<and> \<not> sc_stopped (sbCells s1 (nextRef s))"
proof -
  let ?R = "podRel i (Suc (nextRef s))"
  from assms(1) obtain sb u img v x s2 rt where u: "newSandbox i name config h s = (Inr sb, u)"
    and v: "ensureImageExists w (cf_SandboxImage cfg) u = (Inr img, v)" and s2: "toContainerdImage w img v = (Inr x, s2)"
    and n: "runNetwork w config rt cfg sb s2 = (Inr (), t)"
    by (auto simp: runBody_def act_simps)
  have sb: "sb_ref sb = nextRef s" "sm_ID (sb_meta sb) = i" "sm_Name (sb_meta sb) = name" "sm_Config (sb_meta sb) = Some config"
      "sm_RuntimeHandler (sb_meta sb) = h" "podPre i u" "sandboxStore u = sandboxStore s" "labelStore u = labelStore s"
      "sandboxNameIndex u = sandboxNameIndex s" "containerStore u = containerStore s" "\<not> sc_stopped (sbCells u (nextRef s))" "trace u = trace s"
      "containerNameIndex u = containerNameIndex s"
    using u assms(2) by (auto simp: newSandbox_def NewSandbox_def zero_sb_metadata_def podPre_def Let_def)
  have "?R u s2"
    using alwaysD [OF podRel_image(1) v] alwaysD [OF podRel_image(2) s2] by (rule pod.rel_trans)
  with sb have f: "podSame (Suc (nextRef s)) u s2" by (simp add: podRel_def)
  have e: "extends UNIV s s2"
    using extends_same [OF sb(12)] alwaysD [OF extends_weaken [OF ensureImageExists_extends] v]
      alwaysD [OF extends_weaken [OF toContainerdImage_extends] s2] by (blast intro: tr.rel_trans)
  from runNetwork_Inr [OF n] obtain s1 sb' where s1: "onlyCalls UNIV s2 s1" "sameRequest sb sb'" "runContainer w sb' config cfg s1 = (Inr (), t)"
    by blast
  have "extends UNIV s s1" using e s1(1) by (auto simp: onlyCalls_def calls_def extends_def)
  moreover have "\<not> sc_stopped (sbCells s1 (nextRef s))" using f sb(11) onlyCalls_frame(2) [OF s1(1)] by (simp add: podSame_def)
  ultimately show ?thesis
    using s1 sb f onlyCalls_frame [OF s1(1)] by (intro exI [of _ sb'] exI [of _ s1]) (simp add: sameRequest_def podSame_def)
qed

text \<open>
  A successful \<^verbatim>\<open>RunPodSandbox\<close> leaves exactly one more pod. The store maps the new id to a sandbox
  with the name, config and runtime handler of the request, whose status is ready with the pid of the
  task that was started, and which is not stopped; the name is reserved for it; the metadata kept in
  containerd, from which a restart recovers, is that of the stored sandbox; and the exit monitor of
  the task starts last.
\<close>

definition podStarted :: "podSandboxConfig \<Rightarrow> string \<Rightarrow> svc \<Rightarrow> string \<Rightarrow> svc \<Rightarrow> bool" where
  "podStarted config h s i t \<longleftrightarrow> (\<exists>sb md pid createdAt new.
    ss_sandboxes (sandboxStore t) = (ss_sandboxes (sandboxStore s))(i \<mapsto> sb) \<and> sbs_inv (sandboxStore t) \<and>
    sb_ID sb = i \<and> pc_Metadata config = Some md \<and> sm_Name (sb_meta sb) = makeSandboxName md \<and>
    sm_Config (sb_meta sb) = Some config \<and> sm_RuntimeHandler (sb_meta sb) = h \<and>
    sbStatusOf sb t = \<lparr>sb_Pid = pid, sb_CreatedAt = createdAt, sb_State = StateReady\<rparr> \<and> \<not> sc_stopped (sbCells t (sb_ref sb)) \<and>
    Reserve (sandboxNameIndex s) (makeSandboxName md) i = (Inr (), sandboxNameIndex t) \<and>
    nameToKey (sandboxNameIndex t) (makeSandboxName md) = Some i \<and>
    containerStore t = containerStore s \<and> containerNameIndex t = containerNameIndex s \<and>
    trace t = StartExitMonitor i pid # new @ trace s \<and>
    CtrNew i (buildLabels (pc_Labels config) containerKindSandbox) (SandboxMetadata (sb_meta sb)) \<in> set (trace t))"

lemma RunPodSandbox_ready:
  assumes "RunPodSandbox w config h s = (Inr i, t)" "reg_inv (sandboxNameIndex s)" "sbs_inv (sandboxStore s)"
    and "ss_sandboxes (sandboxStore s) (w_genID w (trace s)) = None"
    and "w_genID w (trace s) \<noteq> []" "CHR '' '' \<notin> set (w_genID w (trace s))"
  shows "i = w_genID w (trace s) \<and> podStarted config h s i t"
proof -
  let ?i = "w_genID w (trace s)"
  from assms(1) obtain md idx where md: "pc_Metadata config = Some md" "i = ?i"
    and r: "Reserve (sandboxNameIndex s) (makeSandboxName md) ?i = (Inr (), idx)"
    and b: "runBody w (sv_config s) config h ?i (makeSandboxName md) (s\<lparr>sandboxNameIndex := idx\<rparr>) = (Inr (), t)"
    by (auto simp: RunPodSandbox_def Let_def act_simps reserveSandboxName_def split: option.splits prod.splits)
  have "podPre ?i (s\<lparr>sandboxNameIndex := idx\<rparr>)" using assms by (simp add: podPre_def)
  from runBody_Inr [OF b this] obtain sb s1 where
    sb: "sb_ref sb = nextRef s" "sm_ID (sb_meta sb) = ?i" "sm_Name (sb_meta sb) = makeSandboxName md" "sm_Config (sb_meta sb) = Some config"
      "sm_RuntimeHandler (sb_meta sb) = h" "runContainer w sb config (sv_config s) s1 = (Inr (), t)" "extends UNIV s s1"
      "sandboxStore s1 = sandboxStore s" "labelStore s1 = labelStore s" "sandboxNameIndex s1 = idx" "containerStore s1 = containerStore s"
      "containerNameIndex s1 = containerNameIndex s" "\<not> sc_stopped (sbCells s1 (nextRef s))"
    by (auto simp: extends_def)
  let ?sb = "sb\<lparr>sb_Container := Some (sb_ID sb)\<rparr>"
  from runContainer_Inr [OF sb(6)] obtain s2 c where s2: "onlyCalls UNIV s1 s2" "runTask w sb c s2 = (Inr (), t)"
    "CtrNew ?i (buildLabels (pc_Labels config) containerKindSandbox) (SandboxMetadata (sb_meta sb)) \<in> set (trace s2)"
    using sb(2) by (auto simp: sb_ID_def)
  from runTask_Inr [OF s2(2)] obtain pid st L new where
    add: "Sandbox_Add ?sb (sandboxStore s) (labelStore s) = (Inr (), st, L)" "sandboxStore t = st" "sandboxNameIndex t = idx"
      "containerStore t = containerStore s" "containerNameIndex t = containerNameIndex s"
      "sbCells t = (sbCells s2)(sb_ref sb := (sbCells s2 (sb_ref sb))\<lparr>sc_status :=
         \<lparr>sbs_status = \<lparr>sb_Pid = pid, sb_CreatedAt = c, sb_State = StateReady\<rparr>\<rparr>\<rparr>)"
      "trace t = StartExitMonitor ?i pid # new @ trace s2"
    using sb(2,8-12) onlyCalls_frame [OF s2(1)] by (auto simp: sb_ID_def)
  from sbstore.add_Inr [OF assms(3) add(1)] have "sbs_inv st" "ss_sandboxes st = (ss_sandboxes (sandboxStore s))(?i \<mapsto> ?sb)"
    using sb(2) by (simp_all add: sb_ID_def)
  moreover from sb(7) s2(1) obtain xs where "trace s2 = xs @ trace s" by (auto simp: extends_def onlyCalls_def calls_def)
  moreover have "nameToKey idx (makeSandboxName md) = Some ?i" using Reserve_Inr [OF assms(2) r] by simp
  ultimately show ?thesis
    unfolding podStarted_def using md r sb add s2(3) onlyCalls_frame(2) [OF s2(1)]
    by (intro conjI exI [of _ ?sb] exI [of _ md] exI [of _ pid] exI [of _ c] exI [of _ "new @ xs"])
       (simp_all add: sb_ID_def sbStatusOf_def Sandbox_StatusGet_def)
qed


subsection \<open>When a pod comes up\<close>

text \<open>With an environment in which every call succeeds, only the request can make the handler fail.\<close>

definition noFailures :: "world \<Rightarrow> bool" where
  "noFailures w \<longleftrightarrow> (\<forall>tr c. w_err w tr c = None)"

lemma ext_ok: "noFailures w \<Longrightarrow> ext w c s = (Inr (), logCall c s)"
  by (simp add: ext_def noFailures_def)

lemmas run_simps = thenA_def bindA_def wrapA_def onError_def Let_def

definition dnsOk :: "podSandboxConfig \<Rightarrow> bool" where
  "dnsOk config \<longleftrightarrow> (case pc_DnsConfig config of None \<Rightarrow> True | Some d \<Rightarrow> length (dns_Searches d) \<le> maxDNSSearches)"

lemma setupSandboxFiles_ok: "noFailures w \<Longrightarrow> dnsOk config \<Longrightarrow> fst (setupSandboxFiles w cfg i config s) = Inr ()"
  by (auto simp: setupSandboxFiles_def setupResolv_def setupShm_def run_simps ext_ok dnsOk_def parseDNSOptions_def split: option.splits)

lemma runTask_ok:
  assumes "noFailures w" "fst (Sandbox_Add (sb\<lparr>sb_Container := Some (sb_ID sb)\<rparr>) (sandboxStore s) (labelStore s)) = Inr ()"
  shows "fst (runTask w sb c s) = Inr ()"
  using assms
  by (auto simp: runTask_def run_simps ext_ok sbStatusUpdate_def Sandbox_Update_def sandboxReady_def sandboxAdd_def split: prod.splits)

lemma runContainer_ok:
  assumes "noFailures w" "dnsOk config" "fst (Sandbox_Add (sb\<lparr>sb_Container := Some (sb_ID sb)\<rparr>) (sandboxStore s) (labelStore s)) = Inr ()"
  shows "fst (runContainer w sb config cfg s) = Inr ()"
proof -
  let ?i = "sb_ID sb"
  let ?s0 = "logCall (MkdirAll (getVolatileSandboxRootDir cfg ?i)) (logCall (MkdirAll (getSandboxRootDir cfg ?i))
    (logCall (CtrNew ?i (buildLabels (pc_Labels config) containerKindSandbox) (SandboxMetadata (sb_meta sb))) s))"
  obtain u where u: "setupSandboxFiles w cfg ?i config ?s0 = (Inr (), u)"
    using setupSandboxFiles_ok [OF assms(1,2), of cfg ?i ?s0] by (metis prod.collapse)
  have "onlyCalls UNIV ?s0 u" by (rule calls_onlyD [OF setupSandboxFiles_quiet u])
  then have "sandboxStore u = sandboxStore s" "labelStore u = labelStore s" by (simp_all add: onlyCalls_frame)
  with assms(3) have "fst (runTask w sb c (logCall x u)) = Inr ()" for c x by (intro runTask_ok assms(1)) simp
  then obtain v where "runTask w sb (w_createdAt w (trace (logCall (CtrInfo ?i) u)) ?i) (logCall (CtrInfo ?i) u) = (Inr (), v)"
    by (metis prod.collapse)
  then show ?thesis
    by (simp add: runContainer_def runRootDir_def runVolatileDir_def runFiles_def run_simps ext_ok [OF assms(1)] u)
qed

lemma Sandbox_Add_fresh:
  assumes "podPre i s" "sb_ID sb = i" "fst (Label_Reserve (labelStore s) (sb_ProcessLabel sb)) = Inr ()"
  shows "fst (Sandbox_Add sb (sandboxStore s) (labelStore s)) = Inr ()"
  using assms sbstore.add_ok_iff [of "sandboxStore s" sb "labelStore s"] by (simp add: podPre_def)

lemma runSpec_ok:
  assumes "noFailures w" "dnsOk config" "podPre (sb_ID sb) s"
    and "\<And>tr. fst (Label_Reserve (labelStore s) (w_processLabel w tr)) = Inr ()"
  shows "fst (runSpec w config rt cfg sb s) = Inr ()"
proof -
  have a: "fst (Sandbox_Add ((setProcessLabel sb (w_processLabel w tr))\<lparr>sb_Container := x\<rparr>) (sandboxStore s) (labelStore s)) = Inr ()" for tr x
    by (rule Sandbox_Add_fresh [OF assms(3)]) (simp_all add: assms(4) setProcessLabel_def sb_ID_def sb_ProcessLabel_def)
  let ?s = "logCall (GenRuntimeOptions (sb_ID sb)) (logCall (GenSpecOpts (sb_ID sb)) (logCall (GenSandboxSpec (sb_ID sb) (sm_NetNSPath (sb_meta sb)) rt) s))"
  have "fst (runContainer w (setProcessLabel sb (w_processLabel w tr)) config cfg ?s) = Inr ()" for tr
    by (rule runContainer_ok [OF assms(1,2)]) (simp add: a)
  then have "\<exists>u. runContainer w (setProcessLabel sb (w_processLabel w tr)) config cfg ?s = (Inr (), u)" for tr
    by (metis prod.collapse)
  then obtain u where "runContainer w (setProcessLabel sb (w_processLabel w (GenSandboxSpec (sb_ID sb) (sm_NetNSPath (sb_meta sb)) rt # trace s))) config cfg ?s = (Inr (), u)"
    by blast
  then show ?thesis by (simp add: runSpec_def run_simps ext_ok [OF assms(1)])
qed

text \<open>The pod network can be set up, or is that of the node.\<close>

definition networkOk :: "world \<Rightarrow> podSandboxConfig \<Rightarrow> svc \<Rightarrow> bool" where
  "networkOk w config s \<longleftrightarrow> pc_NsNetwork config = NS_NODE \<or>
     netPlugin s \<and> (\<exists>bw. toCNIBandWidth (w_parseQuantity w) (pc_Annotations config) = Inr bw) \<and>
     (\<forall>tr. \<exists>ips. cni_Interfaces (w_cni w tr) ''eth0'' = Some ips \<and> ips \<noteq> [] \<and> (\<forall>c \<in> set ips. ip_text c \<noteq> []))"

lemma selectPodIPs_Some:
  assumes "ips \<noteq> []" "\<forall>c \<in> set ips. ip_text c \<noteq> []"
  shows "\<exists>ip rest. selectPodIPs ips = Some (ip, rest)"
proof -
  obtain ip rest where l: "selectLoop ips [] [] = (ip, rest)" by fastforce
  have "ip \<noteq> [] \<or> rest \<noteq> []" using selectLoop_spec [OF assms(2), of "[]"] assms l by (auto split: if_splits)
  then show ?thesis unfolding selectPodIPs_def l by (cases rest) (auto simp: Let_def)
qed

lemma setupPodNetwork_ok:
  assumes "noFailures w" "networkOk w (configOf sb) s" "pc_NsNetwork (configOf sb) \<noteq> NS_NODE"
  shows "\<exists>sb' t. setupPodNetwork w sb s = (Inr sb', t)"
proof -
  from assms obtain bw where n: "netPlugin s" "toCNIBandWidth (w_parseQuantity w) (pc_Annotations (configOf sb)) = Inr bw" and
    c: "\<And>tr. \<exists>ips. cni_Interfaces (w_cni w tr) ''eth0'' = Some ips \<and> ips \<noteq> [] \<and> (\<forall>c \<in> set ips. ip_text c \<noteq> [])"
    by (auto simp: networkOk_def)
  have i: "\<exists>ips ip rest. cni_Interfaces (w_cni w tr) ''eth0'' = Some ips \<and> ips \<noteq> [] \<and> selectPodIPs ips = Some (ip, rest)" for tr
    using c [of tr] selectPodIPs_Some by blast
  obtain opts where o: "cniNamespaceOpts (w_parseQuantity w) (sb_ID sb) (configOf sb) = Inr opts"
    using n(2) by (auto simp: cniNamespaceOpts_def Let_def)
  let ?tr = "CNISetup (sb_ID sb) (sm_NetNSPath (sb_meta sb)) opts # trace s"
  obtain ips ip rest where "cni_Interfaces (w_cni w ?tr) ''eth0'' = Some ips" "ips \<noteq> []" "selectPodIPs ips = Some (ip, rest)"
    using i by blast
  with n(1) o show ?thesis by (simp add: setupPodNetwork_def ext_ok [OF assms(1)] defaultIfName_def Let_def)
qed

lemma configOf_setNetNS [simp]: "configOf (setNetNS sb p) = configOf sb" "sb_ID (setNetNS sb p) = sb_ID sb"
  by (simp_all add: configOf_def setNetNS_def sb_ID_def)

lemma runNetwork_ok:
  assumes "noFailures w" "dnsOk config" "podPre (sb_ID sb) s" "networkOk w config s" "sm_Config (sb_meta sb) = Some config"
    and "\<And>tr. fst (Label_Reserve (labelStore s) (w_processLabel w tr)) = Inr ()"
  shows "fst (runNetwork w config rt cfg sb s) = Inr ()"
proof (cases "pc_NsNetwork config = NS_NODE")
  case True
  then show ?thesis using runSpec_ok [OF assms(1-3,6)] by (simp add: runNetwork_def)
next
  case False
  let ?s = "logCall (NewNetNS (sb_ID sb)) s" and ?sb = "setNetNS sb (w_netnsPath w (NewNetNS (sb_ID sb) # trace s))"
  have cf: "configOf sb = config" using assms(5) by (simp add: configOf_def)
  have "networkOk w config ?s" using assms(4) by (simp add: networkOk_def)
  then obtain sb' t where t: "setupPodNetwork w ?sb ?s = (Inr sb', t)"
    using setupPodNetwork_ok [OF assms(1), of ?sb ?s] False cf by auto
  have "onlyCalls UNIV ?s t" by (rule setupPodNetwork_quiet [OF t])
  then have st: "sandboxStore t = sandboxStore s" "labelStore t = labelStore s" by (simp_all add: onlyCalls_frame)
  have "sb_ID sb' = sb_ID sb" using setupPodNetwork_same [OF t] by (simp add: sb_ID_def setNetNS_def)
  with assms(3) st have "podPre (sb_ID sb') t" by (simp add: podPre_def)
  then have "fst (runSpec w config rt cfg sb' t) = Inr ()" using assms(6) st by (intro runSpec_ok [OF assms(1,2)]) simp_all
  then obtain u where u: "runSpec w config rt cfg sb' t = (Inr (), u)" by (metis prod.collapse)
  show ?thesis using False u by (simp add: runNetwork_def run_simps ext_ok [OF assms(1)] t)
qed

lemma RunPodSandbox_total:
  assumes "noFailures w" "reg_inv (sandboxNameIndex s)" "podPre (w_genID w (trace s)) s"
    and "pc_Metadata config = Some md" "nameToKey (sandboxNameIndex s) (makeSandboxName md) = None" "makeSandboxName md \<noteq> []"
    and "keyToName (sandboxNameIndex s) (w_genID w (trace s)) = None"
    and "fst (localResolve w (cf_SandboxImage (sv_config s)) s) = Inr img" "im_References img \<noteq> []"
    and "\<And>tr r. \<exists>x. w_image w tr r = Inr x" "getSandboxRuntime (sv_config s) config h = Inr rt"
    and "networkOk w config s" "dnsOk config" "\<And>tr. fst (Label_Reserve (labelStore s) (w_processLabel w tr)) = Inr ()"
  shows "fst (RunPodSandbox w config h s) = Inr (w_genID w (trace s))"
proof -
  let ?i = "w_genID w (trace s)" and ?n = "makeSandboxName md" and ?cfg = "sv_config s"
  have i: "?i \<noteq> []" using assms(3) by (simp add: podPre_def)
  obtain idx where r: "Reserve (sandboxNameIndex s) ?n ?i = (Inr (), idx)"
    using assms(5-7) i by (simp add: Reserve_def)
  let ?s1 = "s\<lparr>sandboxNameIndex := idx\<rparr>"
  obtain sb s2 where sb: "newSandbox ?i ?n config h ?s1 = (Inr sb, s2)" by (simp add: newSandbox_def case_prod_beta)
  have p: "sb_ID sb = ?i" "sm_Config (sb_meta sb) = Some config" "sandboxStore s2 = sandboxStore s" "labelStore s2 = labelStore s"
      "netPlugin s2 = netPlugin s" "imageStore s2 = imageStore s"
    using sb by (auto simp: newSandbox_def NewSandbox_def zero_sb_metadata_def sb_ID_def Let_def)
  have "localResolve w (cf_SandboxImage ?cfg) s2 = (Inr img, s2)"
    using assms(8) unfolding localResolve_def Let_def p(6) by simp
  then have e: "ensureImageExists w (cf_SandboxImage ?cfg) s2 = (Inr img, s2)" by (simp add: ensureImageExists_def)
  obtain ref refs where "im_References img = ref # refs" using assms(9) by (cases "im_References img") auto
  moreover obtain x where "w_image w (trace s2) ref = Inr x" using assms(10) by blast
  ultimately have c: "toContainerdImage w img s2 = (Inr x, logCall (GetImage ref) s2)" by (simp add: toContainerdImage_def)
  have "fst (runNetwork w config rt ?cfg sb (logCall (GetImage ref) s2)) = Inr ()"
    using assms(3,12,14) p by (intro runNetwork_ok assms(1,13)) (simp_all add: podPre_def networkOk_def)
  then obtain t where "runNetwork w config rt ?cfg sb (logCall (GetImage ref) s2) = (Inr (), t)" by (metis prod.collapse)
  then have "runBody w ?cfg config h ?i ?n ?s1 = (Inr (), t)"
    by (simp add: runBody_def run_simps sb e c assms(11))
  then show ?thesis by (simp add: RunPodSandbox_def assms(4) run_simps reserveSandboxName_def r)
qed

text \<open>
  C31: a pod comes up. If every call to the outside succeeds, then \<^verbatim>\<open>RunPodSandbox\<close> succeeds for every request
  with metadata whose name is free, whose runtime is configured and granted, whose network can be set
  up and that has at most six DNS search domains, on a node that has the sandbox image; there
  is no other way for it to fail.
\<close>

theorem RunPodSandbox_succeeds:
  assumes "noFailures w" "reg_inv (sandboxNameIndex s)" "podPre (w_genID w (trace s)) s"
    and "pc_Metadata config = Some md" "nameToKey (sandboxNameIndex s) (makeSandboxName md) = None" "makeSandboxName md \<noteq> []"
    and "keyToName (sandboxNameIndex s) (w_genID w (trace s)) = None"
    and "fst (localResolve w (cf_SandboxImage (sv_config s)) s) = Inr img" "im_References img \<noteq> []"
    and "\<And>tr r. \<exists>x. w_image w tr r = Inr x" "getSandboxRuntime (sv_config s) config h = Inr rt"
    and "networkOk w config s" "dnsOk config" "\<And>tr. fst (Label_Reserve (labelStore s) (w_processLabel w tr)) = Inr ()"
  shows "fst (RunPodSandbox w config h s) = Inr (w_genID w (trace s))"
  using assms by (rule RunPodSandbox_total)

text \<open>A node with the pause image and a default runtime, and a pod config.\<close>

definition pod_config :: podSandboxConfig where
  "pod_config = net_config\<lparr>pc_Metadata := Some \<lparr>pmd_Name = ''web'', pmd_Uid = ''u1'', pmd_Namespace = ''ns'', pmd_Attempt = 0\<rparr>,
     pc_Annotations := Map.empty\<rparr>"

definition runc_runtime :: runtimeConfig where
  "runc_runtime = \<lparr>rt_Type = ''io.containerd.runc.v2'', rt_PodAnnotations = [], rt_ContainerAnnotations = [],
     rt_PrivilegedWithoutHostDevices = False, rt_BaseRuntimeSpec = []\<rparr>"

definition pod_svc :: svc where
  "pod_svc = image_svc\<lparr>sv_config := example_config\<lparr>cf_SandboxImage := ''repo:v1'',
     cf_Runtimes := [''runc'' \<mapsto> runc_runtime]\<rparr>\<rparr>"

definition pod_world :: world where
  "pod_world = example_world\<lparr>
     w_image := (\<lambda>_ _. Inr \<lparr>ci_Name = ''repo:v1'', ci_RootFS = Inr [], ci_Size = Inr 1, ci_Config = Inr example_digest, ci_Blob = Inr [],
       ci_Unmarshal = Inr (im_Spec (example_image [])), ci_Labels = Map.empty, ci_Target = example_digest\<rparr>),
     w_cni := (\<lambda>_. \<lparr>cni_Interfaces = [''eth0'' \<mapsto> dual_stack]\<rparr>)\<rparr>"

definition pod_failing :: world where
  "pod_failing = pod_world\<lparr>w_err := (\<lambda>_ c. case c of TaskStart i \<Rightarrow> Some ErrDeadlineExceeded | _ \<Rightarrow> None)\<rparr>"

lemma pod_svc_simps:
  "sandboxNameIndex pod_svc = NewRegistrar" "trace pod_svc = []" "ss_sandboxes (sandboxStore pod_svc) = [''sb1'' \<mapsto> example_sbx]"
  "w_genID pod_world [] = ''new1''" "w_genID pod_failing [] = ''new1''" "sbs_inv (sandboxStore pod_svc)"
  by (auto simp: pod_svc_def image_svc_def example_svc_def pod_world_def pod_failing_def example_world_def sbs_inv_def
      indexed_def ti_inv_def example_sbx_def sb_ID_def zero_sb_metadata_def)

lemma pod_svc_ready:
  "podPre ''new1'' pod_svc" "reg_inv (sandboxNameIndex pod_svc)" "keyToName (sandboxNameIndex pod_svc) ''new1'' = None" "nextRef pod_svc = 1"
  "labelStore pod_svc = NewLabelStore" "netPlugin pod_svc"
  by (simp_all add: podPre_def pod_svc_simps)
     (simp_all add: pod_svc_def image_svc_def example_svc_def NewRegistrar_def)

lemma pod_runs: "fst (RunPodSandbox pod_world pod_config [] pod_svc) = Inr ''new1''"
proof -
  have w: "noFailures pod_world" "\<And>tr r. \<exists>x. w_image pod_world tr r = Inr x" "\<And>tr. w_processLabel pod_world tr = []"
    by (simp_all add: noFailures_def pod_world_def example_world_def)
  have img: "fst (localResolve pod_world (cf_SandboxImage (sv_config pod_svc)) pod_svc) = Inr (example_image ''repo:v1'')" by code_simp
  have net: "networkOk pod_world pod_config pod_svc"
    using pod_svc_ready(6)
    by (auto simp: networkOk_def pod_config_def net_config_def toCNIBandWidth_def ExtractPodBandwidthResources_def extractBandwidth_def
        pod_world_def dual_stack_def)
  have rt: "getSandboxRuntime (sv_config pod_svc) pod_config [] = Inr runc_runtime"
    by (simp add: getSandboxRuntime_def untrustedWorkload_def lookupRuntime_def pod_config_def pod_svc_def example_config_def)
  have "fst (RunPodSandbox pod_world pod_config [] pod_svc) = Inr (w_genID pod_world (trace pod_svc))"
    by (rule RunPodSandbox_total [OF w(1) pod_svc_ready(2) _ _ _ _ _ img _ w(2) rt net])
       (simp_all add: pod_svc_simps pod_svc_ready w(3) pod_config_def example_image_def dnsOk_def net_config_def makeSandboxName_def
          NewRegistrar_def Label_Reserve_def NewContext_def ctx_level_def Let_def)
  then show ?thesis by (simp add: pod_svc_simps)
qed


definition host_config :: podSandboxConfig where
  "host_config = pod_config\<lparr>pc_NsNetwork := NS_NODE\<rparr>"

theorem RunPodSandbox_succeeds_witness: "fst (RunPodSandbox pod_world host_config [] pod_svc) = Inr ''new1''"
proof -
  have w: "noFailures pod_world" "\<And>tr r. \<exists>x. w_image pod_world tr r = Inr x" "\<And>tr. w_processLabel pod_world tr = []"
    by (simp_all add: noFailures_def pod_world_def example_world_def)
  have img: "fst (localResolve pod_world (cf_SandboxImage (sv_config pod_svc)) pod_svc) = Inr (example_image ''repo:v1'')" by code_simp
  have rt: "getSandboxRuntime (sv_config pod_svc) host_config [] = Inr runc_runtime"
    by (simp add: getSandboxRuntime_def untrustedWorkload_def lookupRuntime_def host_config_def pod_config_def pod_svc_def example_config_def)
  have "fst (RunPodSandbox pod_world host_config [] pod_svc) = Inr (w_genID pod_world (trace pod_svc))"
    by (rule RunPodSandbox_succeeds [OF w(1) pod_svc_ready(2) _ _ _ _ _ img _ w(2) rt])
       (simp_all add: pod_svc_simps pod_svc_ready w(3) pod_config_def host_config_def example_image_def dnsOk_def net_config_def
          networkOk_def makeSandboxName_def NewRegistrar_def Label_Reserve_def NewContext_def ctx_level_def Let_def)
  then show ?thesis by (simp add: pod_svc_simps)
qed

end
