(* ===== verification/PodTeardown.thy ===== *)
theory PodTeardown
  imports PodLifecycle StopRemove
begin

section \<open>Taking pods down\<close>

text \<open>
  What \<^verbatim>\<open>StopPodSandbox\<close> and \<^verbatim>\<open>RemovePodSandbox\<close> guarantee. While they wait for a task to exit other
  goroutines run; \<open>quietEnv\<close> says that those add and remove no pods.
\<close>

subsection \<open>Handlers that leave the stores alone\<close>

text \<open>
  A relation that holds between states with the same stores and name indexes, and for what the other goroutines do, holds for
  every run of the handlers that stop something.
\<close>

definition sameStores :: "svc \<Rightarrow> svc \<Rightarrow> bool" where
  "sameStores s t \<longleftrightarrow> sandboxStore t = sandboxStore s \<and> sandboxNameIndex t = sandboxNameIndex s \<and> containerStore t = containerStore s \<and>
     containerNameIndex t = containerNameIndex s \<and> sv_config t = sv_config s"

text \<open>The first step of a removal.\<close>

definition forcedStop :: "world \<Rightarrow> string list \<Rightarrow> sbx \<Rightarrow> unit handler" where
  "forcedStop w order sb s =
     (if sb_State (sbStatusOf sb s) \<in> {StateReady, StateUnknown}
      then wrapA (stopPodSandbox w order sb) ''failed to forcibly stop sandbox %q'' [sb_ID sb] s else (Inr (), s))"

locale quiet_rel = state_rel R for R :: "svc \<Rightarrow> svc \<Rightarrow> bool" +
  fixes w :: world
  assumes same: "sameStores s t \<Longrightarrow> R s t"
    and others: "R s (runOthers w s)"
begin

lemma quiet_logCall [intro, simp]: "R s (logCall c s)" by (rule same) (simp add: sameStores_def)

lemma quiet_prim [rel_intros]:
  "always R (ext w' c)" "always R (statusUpdate u c')" "always R (statusUpdateSync w' u c')"
  "always R (sbStatusUpdate v sb)" "always R (deleteCheckpoint w' c')"
  "always R (modifyA (containerStop c'))" "always R (modifyA (sandboxStop sb))"
  "always R (modifyA (logCall c))"
  by (auto simp: always_def ext_def statusUpdate_def statusUpdateSync_def sbStatusUpdate_def deleteCheckpoint_def
      containerStop_def sandboxStop_def Let_def logCall_def sameStores_def intro!: same split: prod.splits sum.splits)

lemma quiet_removeDir [rel_intros]: "always R (removeDir w' d)"
  unfolding removeDir_def by (intro rel_intros same) (simp add: sameStores_def)

lemma quiet_exit [rel_intros]: "always R (handleContainerExit w' e c)" "always R (handleSandboxExit w' e' sb)"
  unfolding handleContainerExit_def [abs_def] handleSandboxExit_def [abs_def] Let_def case_prod_beta
  by (intro always_fun rel_intros)+

lemma quiet_wait [rel_intros]: "always R (waitContainerStop w timeout c)" "always R (waitSandboxStop w sb)"
proof -
  have "R s (logCall x (runOthers w s))" for s x using rel_trans [OF others quiet_logCall] .
  then show "always R (waitContainerStop w timeout c)" "always R (waitSandboxStop w sb)"
    by (auto simp: always_def waitContainerStop_def waitSandboxStop_def Let_def split: option.splits if_splits)
qed

lemma quiet_stop [rel_intros]: "always R (stopContainer w c timeout)"
proof -
  have g: "always R (waitGracefully w timeout c)"
    using quiet_wait(1) [of "Some timeout" c]
    by (auto simp: always_def waitGracefully_def split: prod.splits sum.splits option.splits)
  have l: "always R (\<lambda>s. (stopSignalOf c s, s))" by (simp add: always_def rel_refl)
  have t: "always R (stopTask w c timeout)"
    unfolding stopTask_def stopGracefully_def killContainer_def by (intro rel_intros g l)
  have u: "always R (cleanupUnknownContainer w i c)" for i
    using quiet_exit(1) by (simp add: always_def cleanupUnknownContainer_def)
  have m: "always R (\<lambda>s. alwaysA (stopTask w c timeout) (logCall x) (logCall (y s) s))" for x y
    by (rule always_after) (intro rel_intros t quiet_logCall)+
  have "always R (\<lambda>s. if state \<noteq> RUNNING \<and> state \<noteq> CONTAINER_UNKNOWN then (Inr (), s)
      else case ext w (CtrTask i) s of
        (Inl err, s1) \<Rightarrow>
          (if \<not> IsNotFound err then (Inl (Wrapf err ''failed to get task for container %q'' [i]), s1)
           else if state = CONTAINER_UNKNOWN then cleanupUnknownContainer w i c s1 else (Inr (), s1))
      | (Inr _, s1) \<Rightarrow>
          (if state = CONTAINER_UNKNOWN then
             (case ext w (TaskWait i) s1 of
                (Inl err, s2) \<Rightarrow>
                  (if \<not> IsNotFound err then (Inl (Wrapf err ''failed to wait for task for %q'' [i]), s2)
                   else cleanupUnknownContainer w i c s2)
              | (Inr _, s2) \<Rightarrow>
                  alwaysA (stopTask w c timeout) (logCall (StopExitMonitor i)) (logCall (StartExitMonitor i (w_pid w (trace s2) i)) s2))
           else stopTask w c timeout s1))" for state i
    by (intro always_fun rel_intros t u m)
  from alwaysD [OF this] show ?thesis unfolding always_def stopContainer_def Let_def by (intro allI impI)
qed

lemma quiet_stopContainers [rel_intros]: "always R (stopContainers w i cs)"
proof (induction cs)
  case Nil
  show ?case unfolding stopContainers.simps by (intro rel_intros)
next
  case (Cons c cs)
  then show ?case unfolding stopContainers.simps by (intro rel_intros)
qed

lemma quiet_network [rel_intros]: "always R (stopNetwork w' sb)" "always R (checkNetNSClosed w' sb)"
proof -
  have td: "always R (teardownPodNetwork w' sb')" for sb'
    by (auto simp: always_def teardownPodNetwork_def ext_def rel_refl split: sum.splits option.splits)
  show "always R (stopNetwork w' sb)"
    unfolding stopNetwork_def netNSClosed_def by (intro rel_intros td)
  show "always R (checkNetNSClosed w' sb)"
    unfolding checkNetNSClosed_def netNSClosed_def by (intro rel_intros)
qed

lemma quiet_stopSandbox [rel_intros]: "always R (stopSandboxContainer w sb)"
proof -
  have k: "always R (killSandbox w sb)" unfolding killSandbox_def by (intro rel_intros)
  have u: "always R (cleanupUnknownSandbox w i sb)" for i
    using quiet_exit(2) by (simp add: always_def cleanupUnknownSandbox_def)
  have m: "always R (\<lambda>s. alwaysA (killSandbox w sb) (logCall x) (logCall (y s) s))" for x y
    by (rule always_after) (intro rel_intros k quiet_logCall)+
  have "always R (stopSandboxIn w sb state)" for state
    unfolding stopSandboxIn_def [abs_def] Let_def by (intro always_fun rel_intros k u m)
  from alwaysD [OF this] show ?thesis unfolding always_def stopSandboxContainer_def by (intro allI impI)
qed

lemma quiet_files [rel_intros]: "always R (cleanupSandboxFiles w' cfg i config)"
  unfolding cleanupSandboxFiles_def by (intro rel_intros)

lemma quiet_stopPod [rel_intros]: "always R (stopPodSandbox w order sb)"
proof -
  have "always R (thenA (stopContainers w i cs) (thenA (wrapA (cleanupSandboxFiles w cfg i (configOf sb)) f [])
      (bindA (getA (\<lambda>s. sb_State (sbStatusOf sb s))) (\<lambda>state.
        thenA (if state = StateReady \<or> state = StateUnknown then wrapA (stopSandboxContainer w sb) g (h state) else returnA ())
              (stopNetwork w sb)))))" for i cs cfg f g h
    by (intro rel_intros)
  from alwaysD [OF this] show ?thesis unfolding always_def stopPodSandbox_def Let_def by (intro allI impI)
qed

lemma quiet_forcedStop [rel_intros]: "always R (forcedStop w order sb)"
proof -
  have "always R (wrapA (stopPodSandbox w order sb) f xs)" for f xs by (intro rel_intros)
  from alwaysD [OF this] show ?thesis by (auto simp: always_def forcedStop_def rel_refl)
qed

end

subsection \<open>What keeps the pods\<close>

definition keepPods :: "svc \<Rightarrow> svc \<Rightarrow> bool" where
  "keepPods s t \<longleftrightarrow> sandboxStore t = sandboxStore s \<and> sandboxNameIndex t = sandboxNameIndex s \<and> sv_config t = sv_config s"

definition quietEnv :: "world \<Rightarrow> bool" where
  "quietEnv w \<longleftrightarrow> (\<forall>tr s. keepPods s (w_env w tr s))"

definition keptPods :: "world \<Rightarrow> svc \<Rightarrow> svc \<Rightarrow> bool" where
  "keptPods w s t \<longleftrightarrow> (quietEnv w \<longrightarrow> keepPods s t)"

interpretation kp: state_rel keepPods
  by unfold_locales (auto simp: keepPods_def)

interpretation kq: quiet_rel "keptPods w" w for w
  by unfold_locales (auto simp: keptPods_def keepPods_def sameStores_def quietEnv_def runOthers_def)

lemma keptPodsD: "always (keptPods w) m \<Longrightarrow> quietEnv w \<Longrightarrow> always keepPods m"
  by (simp add: always_def keptPods_def)

lemma keptPods_remove [rel_intros]: "always (keptPods w) (RemoveContainer w r)"
proof -
  have s: "keptPods w s (storeDelete i s)" for s i
    by (auto simp: keptPods_def keepPods_def storeDelete_def Let_def split: prod.splits)
  have i: "keptPods w s (s\<lparr>containerNameIndex := x s\<rparr>)" for s x by (simp add: keptPods_def keepPods_def)
  have b: "always (keptPods w) (onError (removeBody w c) (\<lambda>_. ignoreA (resetContainerRemoving c)))" for c
    unfolding removeBody_def resetContainerRemoving_def Let_def by (intro rel_intros s i always_ignore [OF kq.quiet_prim(2)])
  have m: "always (keptPods w) (thenA (if b then wrapA (stopContainer w c 0) f [j] else returnA ())
      (thenA (wrapA (setContainerRemoving c) g [j]) (onError (removeBody w c) (\<lambda>_. ignoreA (resetContainerRemoving c)))))" for b c f g j
    unfolding setContainerRemoving_def by (intro rel_intros b)
  show ?thesis
    using m unfolding always_def RemoveContainer_def containerGet_def Let_def
    by (fastforce simp: kq.rel_refl split: sum.splits if_splits)
qed

lemma keptPods_removeContainers [rel_intros]: "always (keptPods w) (removeContainers w i cs)"
proof (induction cs)
  case Nil
  show ?case unfolding removeContainers.simps by (intro rel_intros)
next
  case (Cons c cs)
  then show ?case unfolding removeContainers.simps by (intro rel_intros)
qed

subsection \<open>Stopping\<close>

lemma stopNetwork_Inr:
  assumes "stopNetwork w sb s = (Inr (), t)"
  shows "onlyCalls UNIV s t \<and> (\<forall>path. sb_NetNS sb = Some path \<longrightarrow>
    (\<exists>opts. trace t = NetNSRemove path # CNIRemove (sb_ID sb)
       (if w_netnsClosed w (NetNSClosed path # trace s) path then [] else sm_NetNSPath (sb_meta sb)) opts # NetNSClosed path # trace s))"
proof (cases "sb_NetNS sb")
  case None
  then show ?thesis using assms by (simp add: stopNetwork_def)
next
  case (Some path)
  then show ?thesis
    using assms
    by (auto simp: stopNetwork_def netNSClosed_def act_simps teardownPodNetwork_def clearNetNSPath_def sb_ID_def
        intro!: onlyCalls_logCall split: if_splits sum.splits)
qed

lemma waitSandboxStop_Inr: "waitSandboxStop w sb s = (Inr (), t) \<Longrightarrow> sc_stopped (sbCells t (sb_ref sb))"
  by (auto simp: waitSandboxStop_def Let_def split: option.splits if_splits)

lemma sandboxStop_stopped [simp]: "sc_stopped (sbCells (sandboxStop sb s) (sb_ref sb))"
  by (simp add: sandboxStop_def Sandbox_Stop_def)

lemma handleSandboxExit_Inr: "handleSandboxExit w e sb s = (Inr (), t) \<Longrightarrow> sc_stopped (sbCells t (sb_ref sb))"
  by (auto simp: handleSandboxExit_def Let_def case_prod_beta act_simps split: sum.splits if_splits)

lemma stopSandboxContainer_Inr:
  assumes "stopSandboxContainer w sb s = (Inr (), t)"
  shows "sc_stopped (sbCells t (sb_ref sb)) \<or>
    sb_State (sbStatusOf sb s) \<noteq> StateUnknown \<and> (\<exists>e. w_err w (trace s) (CtrTask (sb_ID sb)) = Some e \<and> IsNotFound e)"
  using assms
  by (auto simp: stopSandboxContainer_def stopSandboxIn_def killSandbox_def cleanupUnknownSandbox_def Let_def act_simps ext_def logCall_def
      split: option.splits if_splits dest!: waitSandboxStop_Inr handleSandboxExit_Inr)


definition gone_world :: world where
  "gone_world = example_world\<lparr>w_err := (\<lambda>_ c. case c of CtrTask i \<Rightarrow> Some ErrNotExist | _ \<Rightarrow> None)\<rparr>"

definition netns_sbx :: sbx where
  "netns_sbx = example_sbx\<lparr>sb_NetNS := Some ''/ns''\<rparr>"

lemma gone_stops: "fst (stopPodSandbox gone_world [''c1''] netns_sbx (example_svc created_status)) = Inr ()"
  by code_simp


subsection \<open>Removing\<close>

lemma keepPods_removeDir: "always keepPods (removeDir w d)"
  by (auto simp: always_def removeDir_def thenA_def bindA_def ext_def keepPods_def logCall_def split: option.splits)

lemma removeDir_labels: "removeDir w d s = (r, t) \<Longrightarrow> labelStore t = labelStore s"
  by (auto simp: removeDir_def thenA_def bindA_def ext_def split: option.splits)

lemma removeSandboxBody_cases:
  assumes "removeSandboxBody w sb s = (r, t)" "sbs_inv (sandboxStore s)" "Sandbox_Get (sandboxStore s) (sb_ID sb) = Inr sb" "reg_inv (sandboxNameIndex s)"
  shows "(r = Inr () \<and> ss_sandboxes (sandboxStore t) = (ss_sandboxes (sandboxStore s))(sb_ID sb := None) \<and> sbs_inv (sandboxStore t) \<and>
      labelStore t = Label_Release (labelStore s) (sb_ProcessLabel sb) \<and>
      reg_pairs (sandboxNameIndex t) = {p \<in> reg_pairs (sandboxNameIndex s). snd p \<noteq> sb_ID sb}) \<or>
    ((\<exists>e. r = Inl e) \<and> keepPods s t)"
proof (cases r)
  case (Inl e)
  have e: "always keepPods (ext w c)" for c by (simp add: always_def ext_def keepPods_def)
  have "failing keepPods (removeSandboxBody w sb)"
    unfolding removeSandboxBody_def Let_def thenA_def
    by (intro rel_intros e keepPods_removeDir kp.failing_last [unfolded thenA_def]) (auto simp: failing_def bindA_def)
  then show ?thesis using assms(1) Inl by (auto dest: failingD)
next
  case (Inr x)
  with assms(1) obtain d1 d2 u1 u2 u where d: "removeDir w d1 s = (Inr (), u1)" "removeDir w d2 u1 = (Inr (), u2)"
    "tolerateA (ext w (CtrDelete (sb_ID sb))) IsNotFound u2 = (Inr (), u)" and
    t: "t = (sandboxDelete (sb_ID sb) u)\<lparr>sandboxNameIndex := ReleaseByKey (sandboxNameIndex (sandboxDelete (sb_ID sb) u)) (sb_ID sb)\<rparr>"
    by (auto simp: removeSandboxBody_def Let_def thenA_Inr bindA_Inr wrapA_Inr)
  have u: "keepPods s u" "labelStore u = labelStore s"
    using alwaysD [OF keepPods_removeDir d(1)] alwaysD [OF keepPods_removeDir d(2)] removeDir_labels [OF d(1)] removeDir_labels [OF d(2)] d(3)
    by (auto simp: keepPods_def act_simps)
  obtain st L where del: "Sandbox_Delete (sb_ID sb) (sandboxStore s) (labelStore s) = (st, L)" by fastforce
  have i: "sandboxNameIndex (sandboxDelete (sb_ID sb) u) = sandboxNameIndex s" "sandboxStore t = st" "labelStore t = L"
    using u t del by (auto simp: sandboxDelete_def keepPods_def)
  from sbstore.del_found [OF assms(2,3) del] Inr i t nidx.release_key_pairs [OF assms(4), of "sb_ID sb"]
  show ?thesis by auto
qed

lemma sbs_nonempty: "sbs_inv st \<Longrightarrow> ss_sandboxes st i = Some sb \<Longrightarrow> i \<noteq> []"
  by (auto simp: sbs_inv_def indexed_def ti_inv_def)

text \<open>The phases of a removal, each with the error that ends it.\<close>

lemma RemovePodSandbox_phases:
  assumes "RemovePodSandbox w order order' r s = (res, t)" "Sandbox_Get (sandboxStore s) r = Inr sb"
  obtains (stop) e where "res = Inl e" "forcedStop w order sb s = (Inl e, t)"
  | (check) e u1 where "res = Inl e" "forcedStop w order sb s = (Inr (), u1)" "checkNetNSClosed w sb u1 = (Inl e, t)"
  | (loop) u1 u2 r3 u3 where "forcedStop w order sb s = (Inr (), u1)" "checkNetNSClosed w sb u1 = (Inr (), u2)"
      "removeContainers w (sb_ID sb) (Store_List order' (containerStore u2)) u2 = (r3, u3)"
      "if r3 = Inr () then removeSandboxBody w sb u3 = (res, t) else res = r3 \<and> u3 = t"
proof -
  let ?rem = "\<lambda>s. removeContainers w (sb_ID sb) (Store_List order' (containerStore s)) s"
  have run: "thenA (forcedStop w order sb) (thenA (checkNetNSClosed w sb) (thenA ?rem (removeSandboxBody w sb))) s = (res, t)"
    using assms by (auto simp: RemovePodSandbox_def forcedStop_def thenA_def bindA_def Let_def)
  obtain r1 u1 r2 u2 r3 u3 where x: "forcedStop w order sb s = (r1, u1)" "checkNetNSClosed w sb u1 = (r2, u2)" "?rem u2 = (r3, u3)"
    by (metis surj_pair)
  show thesis
  proof (cases r1)
    case (Inl e)
    then show thesis using run x stop [of e] by (simp add: thenA_def bindA_def)
  next
    case r1: (Inr v1)
    show thesis
    proof (cases r2)
      case (Inl e)
      then show thesis using run x r1 check [of e] by (simp add: thenA_def bindA_def)
    next
      case (Inr v2)
      then show thesis using run x r1 loop [of u1 u2 r3 u3] by (cases r3) (auto simp: thenA_def bindA_def)
    qed
  qed
qed


definition empty_pod :: svc where
  "empty_pod = (example_svc created_status)\<lparr>containerStore := NewStore\<rparr>"


end
