(* ===== verification/SpecGen.thy ===== *)
theory SpecGen
  imports PodNetwork
begin

section \<open>Generating the specs of containers and sandboxes\<close>

text \<open>
  \<^verbatim>\<open>containerSpec\<close> and \<^verbatim>\<open>containerSpecOpts\<close> of \<^verbatim>\<open>container_create_unix.go\<close>, \<^verbatim>\<open>runtimeSpec\<close> of \<^verbatim>\<open>container_create.go\<close>, \<^verbatim>\<open>sandboxContainerSpec\<close> of
  \<^verbatim>\<open>sandbox_run_unix.go\<close> and the helpers they call. The spec is the default one, or the base spec of the
  runtime, with a list of options applied in order. The second half shows what the options leave in
  the parts of the spec that isolate the container, by a homomorphism: \<open>secOf\<close> projects a spec to these
  parts, and \<open>acts o h\<close> says that the option \<open>o\<close> does \<open>h\<close> to the projection.
\<close>

subsection \<open>Helpers\<close>

definition getCgroupsPath :: "string \<Rightarrow> string \<Rightarrow> string" where
  "getCgroupsPath cgroupsParent i =
     (let base = Base cgroupsParent in
      if HasSuffix base ''.slice'' then Join [base, ''cri-containerd'', i] '':'' else PathJoin cgroupsParent i)"

text \<open>The regular expression of \<^verbatim>\<open>checkSelinuxLevel\<close>, read from left to right.\<close>

fun category :: "string \<Rightarrow> string option" where
  "category (c # s) =
     (let n = length (takeWhile isDigit s) in
      if c = CHR ''c'' \<and> 1 \<le> n \<and> n \<le> 4 then Some (dropWhile isDigit s) else None)"
| "category [] = None"

definition categoryRange :: "string \<Rightarrow> string option" where
  "categoryRange s =
     (case category s of
        None \<Rightarrow> None
      | Some r \<Rightarrow> (if r \<noteq> [] \<and> hd r = CHR ''.'' then category (tl r) else Some r))"

lemma category_shorter: "category s = Some r \<Longrightarrow> length r < length s"
  by (cases s) (auto simp: Let_def length_dropWhile_le le_imp_less_Suc split: if_splits)

lemma categoryRange_shorter: "categoryRange s = Some r \<Longrightarrow> length r < length s"
  by (auto simp: categoryRange_def split: option.splits if_splits dest!: category_shorter)

function categories :: "string \<Rightarrow> bool" where
  "categories s =
     (case categoryRange s of
        None \<Rightarrow> False
      | Some r \<Rightarrow> (if r = [] then True else if hd r = CHR '','' then categories (tl r) else False))"
  by pat_completeness auto
termination by (relation "measure length") (auto dest!: categoryRange_shorter)

declare categories.simps [simp del]

definition sensitivity :: "string \<Rightarrow> string option" where
  "sensitivity s = (case s of c # d # r \<Rightarrow> (if c = CHR ''s'' \<and> isDigit d then Some r else None) | _ \<Rightarrow> None)"

definition afterLevel :: "string \<Rightarrow> bool" where
  "afterLevel r \<longleftrightarrow> r = [] \<or> hd r = CHR '':'' \<and> categories (tl r)"

definition levelMatches :: "string \<Rightarrow> bool" where
  "levelMatches s \<longleftrightarrow>
     (case sensitivity s of
        None \<Rightarrow> False
      | Some r \<Rightarrow> afterLevel r \<or>
          r \<noteq> [] \<and> hd r = CHR ''-'' \<and> (case sensitivity (tl r) of None \<Rightarrow> False | Some r' \<Rightarrow> afterLevel r'))"

definition checkSelinuxLevel :: "string \<Rightarrow> unit result" where
  "checkSelinuxLevel level =
     (if level = [] then Inr ()
      else if \<not> levelMatches level
      then Inl (Errorf (''the format of '' @ [CHR 0x27] @ ''level'' @ [CHR 0x27] @ '' %q is not correct'') [level])
      else Inr ())"

definition toLabel :: "selinuxOption option \<Rightarrow> string list result" where
  "toLabel selinuxOptions =
     (case selinuxOptions of
        None \<Rightarrow> Inr []
      | Some so \<Rightarrow>
          (case checkSelinuxLevel (so_Level so) of
             Inl err \<Rightarrow> Inl err
           | Inr _ \<Rightarrow> Inr ((if so_User so \<noteq> [] then [''user:'' @ so_User so] else []) @
                          (if so_Role so \<noteq> [] then [''role:'' @ so_Role so] else []) @
                          (if so_Type so \<noteq> [] then [''type:'' @ so_Type so] else []) @
                          (if so_Level so \<noteq> [] then [''level:'' @ so_Level so] else []))))"

definition initLabels :: "osEnv \<Rightarrow> string list \<Rightarrow> (string \<times> string) osact" where
  "initLabels os labels = thenA (osCall os (OsInitLabels labels)) (getA (\<lambda>tr. os_labels os tr labels))"

definition initLabelsFromOpt :: "osEnv \<Rightarrow> selinuxOption option \<Rightarrow> (string \<times> string) osact" where
  "initLabelsFromOpt os selinuxOpts = bindA (liftA (toLabel selinuxOpts)) (initLabels os)"

text \<open>The annotations whose key one of the patterns of the runtime permits.\<close>

definition getPassthroughAnnotations :: "labels \<Rightarrow> string list \<Rightarrow> labels" where
  "getPassthroughAnnotations podAnnotations runtimePodAnnotations =
     (\<lambda>k. if list_ex (\<lambda>pattern. Match pattern k) runtimePodAnnotations then podAnnotations k else None)"

text \<open>One \<^verbatim>\<open>WithAnnotation\<close> per entry; the keys are distinct, so the order does not matter.\<close>

definition withAnnotations :: "labels \<Rightarrow> specOpt" where
  "withAnnotations m = pureOpt (\<lambda>s. s\<lparr>sp_Annotations := sp_Annotations s ++ m\<rparr>)"

definition WithNamespacedCgroup :: "string \<Rightarrow> specOpt" where
  "WithNamespacedCgroup i = pureOpt (updLinux (\<lambda>l. l\<lparr>li_CgroupsPath := PathJoin ''/k8s.io'' i\<rparr>))"

definition runtimeSpec :: "(string \<rightharpoonup> ociSpec) \<Rightarrow> string \<Rightarrow> string \<Rightarrow> specOpt list \<Rightarrow> osEnv \<Rightarrow> ociSpec osact" where
  "runtimeSpec baseOCISpecs i baseSpecFile opts os =
     (if baseSpecFile \<noteq> [] then
        (case baseOCISpecs baseSpecFile of
           None \<Rightarrow> failA (Errorf (''can'' @ [CHR 0x27] @ ''t find base OCI spec %q'') [baseSpecFile])
         | Some spec \<Rightarrow> wrapA (applySpecOpts (WithNamespacedCgroup i # opts) os spec) ''failed to apply OCI options'' [])
      else wrapA (applySpecOpts opts os (defaultSpec i)) ''failed to generate spec'' [])"

definition ContainerType :: string where "ContainerType = ''io.kubernetes.cri.container-type''"
definition SandboxID :: string where "SandboxID = ''io.kubernetes.cri.sandbox-id''"
definition SandboxLogDir :: string where "SandboxLogDir = ''io.kubernetes.cri.sandbox-log-directory''"
definition ContainerName :: string where "ContainerName = ''io.kubernetes.cri.container-name''"

subsection \<open>Containers\<close>

definition optIf :: "bool \<Rightarrow> specOpt \<Rightarrow> specOpt list" where
  "optIf b o' = (if b then [o'] else [])"

definition cwdOpts :: "containerConfig \<Rightarrow> image_config \<Rightarrow> specOpt list" where
  "cwdOpts config img =
     (if cc_WorkingDir config \<noteq> [] then [WithProcessCwd (cc_WorkingDir config)]
      else optIf (ic_WorkingDir img \<noteq> []) (WithProcessCwd (ic_WorkingDir img)))"

definition procMountOpts :: "criConfig \<Rightarrow> containerConfig \<Rightarrow> specOpt list" where
  "procMountOpts cfg config =
     (if \<not> cf_DisableProcMount cfg then
        (case cc_MaskedPaths config of None \<Rightarrow> [] | Some ps \<Rightarrow> [WithMaskedPaths ps]) @
        (case cc_ReadonlyPaths config of None \<Rightarrow> [] | Some ps \<Rightarrow> [WithReadonlyPaths ps])
      else [])"

definition privilegeOpts :: "containerConfig \<Rightarrow> runtimeConfig \<Rightarrow> specOpt list" where
  "privilegeOpts config rt =
     (if cc_Privileged config then
        WithPrivileged # (if \<not> rt_PrivilegedWithoutHostDevices rt then [WithHostDevices, WithAllDevicesAllowed]
                          else [WithDevices config, WithCapabilities config])
      else [WithDevices config, WithCapabilities config])"

definition cgroupOpts :: "criConfig \<Rightarrow> string \<Rightarrow> containerConfig \<Rightarrow> podSandboxConfig \<Rightarrow> specOpt list" where
  "cgroupOpts cfg i config sandboxConfig =
     (if cf_DisableCgroup cfg then [WithDisabledCgroups]
      else WithResources (cc_Resources config) (cf_TolerateMissingHugetlbController cfg) (cf_DisableHugetlbController cfg) #
           optIf (pc_CgroupParent sandboxConfig \<noteq> []) (WithCgroup (getCgroupsPath (pc_CgroupParent sandboxConfig) i)))"

definition containerOpts ::
    "(criMount list \<Rightarrow> criMount list) \<Rightarrow> criConfig \<Rightarrow> string \<Rightarrow> string \<Rightarrow> 32 word \<Rightarrow> string \<Rightarrow> containerConfig \<Rightarrow>
     podSandboxConfig \<Rightarrow> image_config \<Rightarrow> criMount list \<Rightarrow> runtimeConfig \<Rightarrow> string \<Rightarrow> string \<times> string \<Rightarrow> bool \<Rightarrow> specOpt list" where
  "containerOpts srt cfg i sandboxID sandboxPid containerName config sandboxConfig img extraMounts rt hostname ls unified =
     [WithoutRunMount, WithoutDefaultSecuritySettings, WithRelativeRoot ''rootfs'', WithProcessArgs config img,
      WithDefaultPathEnv, WithNewPrivileges] @
     cwdOpts config img @ optIf (cc_Tty config) WithTTY @
     [Oci_WithEnv [''HOSTNAME='' @ hostname],
      Oci_WithEnv (ic_Env img @ map (\<lambda>(k, v). k @ ''='' @ v) (cc_Envs config)),
      WithMounts srt config extraMounts (snd ls)] @
     procMountOpts cfg config @ privilegeOpts config rt @
     [WithoutAmbientCaps, WithSelinuxLabels (fst ls) (snd ls)] @
     optIf (cc_NoNewPrivs config) WithNoNewPrivileges @ optIf (cc_ReadonlyRootfs config) WithRootFSReadonly @
     cgroupOpts cfg i config sandboxConfig @
     [withAnnotations (getPassthroughAnnotations (pc_Annotations sandboxConfig) (rt_PodAnnotations rt)),
      withAnnotations (getPassthroughAnnotations (cc_Annotations config) (rt_ContainerAnnotations rt)),
      WithOOMScoreAdj config (cf_RestrictOOMScoreAdj cfg), WithPodNamespaces config sandboxPid,
      WithSupplementalGroups (cc_SupplementalGroups config),
      WithAnnotation ContainerType ''container'', WithAnnotation SandboxID sandboxID,
      WithAnnotation ContainerName containerName] @
     optIf (unified \<and> \<not> cc_Privileged config) (WithLinuxNamespace \<lparr>ns_Type = CgroupNamespace, ns_Path = []\<rparr>)"

text \<open>Without labels of its own the container gets those of the pod, if the pod is found.\<close>

definition labelOptionsOf :: "osEnv \<Rightarrow> (podSandboxConfig, cniResult) sstore \<Rightarrow> string \<Rightarrow> containerConfig \<Rightarrow> string list result" where
  "labelOptionsOf os store sandboxID config =
     (case toLabel (cc_SelinuxOptions config) of
        Inl err \<Rightarrow> Inl err
      | Inr labelOptions \<Rightarrow>
          (if labelOptions = [] then
             (case Sandbox_Get store sandboxID of
                Inl _ \<Rightarrow> Inr labelOptions
              | Inr sandbox \<Rightarrow> os_dupSecOpt os (sb_ProcessLabel sandbox))
           else Inr labelOptions))"

definition hostnameOf :: "osEnv \<Rightarrow> podSandboxConfig \<Rightarrow> string osact" where
  "hostnameOf os config =
     (if pc_Hostname config = [] then thenA (osCall os OsHostname) (getA (os_hostname os)) else returnA (pc_Hostname config))"

definition containerSpec ::
    "(criMount list \<Rightarrow> criMount list) \<Rightarrow> criConfig \<Rightarrow> (string \<rightharpoonup> ociSpec) \<Rightarrow> (podSandboxConfig, cniResult) sstore \<Rightarrow> string \<Rightarrow> string \<Rightarrow>
     32 word \<Rightarrow> string \<Rightarrow> containerConfig \<Rightarrow> podSandboxConfig \<Rightarrow> image_config \<Rightarrow> criMount list \<Rightarrow> runtimeConfig \<Rightarrow> osEnv \<Rightarrow> ociSpec osact" where
  "containerSpec srt cfg baseOCISpecs store i sandboxID sandboxPid containerName config sandboxConfig img extraMounts rt os =
     bindA (hostnameOf os sandboxConfig) (\<lambda>hostname.
     bindA (liftA (labelOptionsOf os store sandboxID config)) (\<lambda>labelOptions.
     bindA (wrapA (initLabels os labelOptions) ''failed to init selinux options %+v'' []) (\<lambda>ls.
     onError
       (if cc_Privileged config \<and> \<not> pc_Privileged sandboxConfig
        then failA (Errorf ''no privileged container allowed in sandbox'' [])
        else runtimeSpec baseOCISpecs i (rt_BaseRuntimeSpec rt)
          (containerOpts srt cfg i sandboxID sandboxPid containerName config sandboxConfig img extraMounts rt hostname ls (os_unified os)) os)
       (\<lambda>_ tr. OsReleaseLabel (fst ls) # tr))))"

subsection \<open>Sandboxes\<close>

definition defaultSandboxOOMAdj :: int where "defaultSandboxOOMAdj = - 998"

definition sandboxNsOpts :: "podSandboxConfig \<Rightarrow> string \<Rightarrow> specOpt list" where
  "sandboxNsOpts config nsPath =
     (if pc_NsNetwork config = NS_NODE then [WithoutNamespace NetworkNamespace, WithoutNamespace UTSNamespace]
      else [WithLinuxNamespace \<lparr>ns_Type = NetworkNamespace, ns_Path = nsPath\<rparr>]) @
     optIf (pc_NsPid config = NS_NODE) (WithoutNamespace PIDNamespace) @
     optIf (pc_NsIpc config = NS_NODE) (WithoutNamespace IPCNamespace)"

definition sandboxMounts :: "criConfig \<Rightarrow> string \<Rightarrow> podSandboxConfig \<Rightarrow> ociMount list" where
  "sandboxMounts cfg i config =
     [\<lparr>om_Source = (if pc_NsIpc config = NS_NODE then ''/dev/shm'' else getSandboxDevShm cfg i), om_Destination = ''/dev/shm'',
       om_Type = ''bind'', om_Options = [''rbind'', ''ro'']\<rparr>,
      \<lparr>om_Source = getResolvPath cfg i, om_Destination = ''/etc/resolv.conf'', om_Type = ''bind'', om_Options = [''rbind'', ''ro'']\<rparr>]"

definition sandboxOpts ::
    "criConfig \<Rightarrow> string \<Rightarrow> podSandboxConfig \<Rightarrow> image_config \<Rightarrow> string \<Rightarrow> string list \<Rightarrow> string \<times> string \<Rightarrow> specOpt list" where
  "sandboxOpts cfg i config img nsPath podAnnotations ls =
     [WithoutRunMount, WithoutDefaultSecuritySettings, WithRelativeRoot ''rootfs'', Oci_WithEnv (ic_Env img),
      WithRootFSReadonly, WithHostname (pc_Hostname config)] @
     optIf (ic_WorkingDir img \<noteq> []) (WithProcessCwd (ic_WorkingDir img)) @
     [Oci_WithProcessArgs (ic_Entrypoint img @ ic_Cmd img)] @
     (if cf_DisableCgroup cfg then [WithDisabledCgroups]
      else optIf (pc_CgroupParent config \<noteq> []) (WithCgroup (getCgroupsPath (pc_CgroupParent config) i))) @
     sandboxNsOpts config nsPath @
     [Oci_WithMounts (sandboxMounts cfg i config), WithSelinuxLabels (fst ls) (snd ls),
      WithSupplementalGroups (pc_SupplementalGroups config), WithSysctls (pc_Sysctls config)] @
     optIf (\<not> cf_DisableCgroup cfg) WithDefaultSandboxShares @
     [WithPodOOMScoreAdj defaultSandboxOOMAdj (cf_RestrictOOMScoreAdj cfg),
      withAnnotations (getPassthroughAnnotations (pc_Annotations config) podAnnotations),
      WithAnnotation ContainerType ''sandbox'', WithAnnotation SandboxID i, WithAnnotation SandboxLogDir (pc_LogDirectory config)]"

definition sandboxContainerSpec ::
    "criConfig \<Rightarrow> (string \<rightharpoonup> ociSpec) \<Rightarrow> string \<Rightarrow> podSandboxConfig \<Rightarrow> image_config \<Rightarrow> string \<Rightarrow> string list \<Rightarrow> osEnv \<Rightarrow> ociSpec osact" where
  "sandboxContainerSpec cfg baseOCISpecs i config img nsPath podAnnotations os =
     (if ic_Entrypoint img = [] \<and> ic_Cmd img = [] then failA (Errorf ''invalid empty entrypoint and cmd in image config %+v'' [])
      else
        bindA (wrapA (initLabelsFromOpt os (pc_SelinuxOptions config)) ''failed to init selinux options %+v'' []) (\<lambda>ls.
        onError (runtimeSpec baseOCISpecs i [] (sandboxOpts cfg i config img nsPath podAnnotations ls) os)
          (\<lambda>_ tr. OsReleaseLabel (fst ls) # tr)))"

subsection \<open>Users and security profiles\<close>

definition generateUserString :: "string \<Rightarrow> int option \<Rightarrow> int option \<Rightarrow> string result" where
  "generateUserString username uid gid =
     (let userstr = (case uid of Some u \<Rightarrow> FormatInt u | None \<Rightarrow> []);
          userstr = (if username \<noteq> [] then username else userstr);
          groupstr = (case gid of Some g \<Rightarrow> FormatInt g | None \<Rightarrow> [])
      in if userstr = [] then
           (if groupstr \<noteq> [] then Inl (Errorf ''user group %q is specified without user'' [groupstr]) else Inr [])
         else Inr (if groupstr \<noteq> [] then userstr @ '':'' @ groupstr else userstr))"

text \<open>What the two generators of profile options return: nothing, the default profile, or a named one.\<close>

datatype profileOpt = NoProfile | DefaultProfile | NamedProfile string

definition generateSeccompSpecOpts :: "criConfig \<Rightarrow> string \<Rightarrow> bool \<Rightarrow> bool \<Rightarrow> profileOpt result" where
  "generateSeccompSpecOpts cfg prof privileged seccompEnabled =
     (if privileged then Inr NoProfile
      else
        (let p1 = (if prof = [] then cf_UnsetSeccompProfile cfg else prof);
             p = (if p1 = ''runtime/default'' \<or> p1 = ''docker/default'' then ''docker/default'' else p1)
         in if \<not> seccompEnabled then
              (if p \<noteq> [] \<and> p \<noteq> ''unconfined'' then Inl (Errorf ''seccomp is not supported'' []) else Inr NoProfile)
            else if p = [] \<or> p = ''unconfined'' then Inr NoProfile
            else if p = ''docker/default'' then Inr DefaultProfile
            else if \<not> HasPrefix p ''localhost/'' then Inl (Errorf ''invalid seccomp profile %q'' [p])
            else Inr (NamedProfile (TrimPrefix p ''localhost/''))))"

text \<open>
  \<open>profiles\<close>: reading \<^verbatim>\<open>/sys/kernel/security/apparmor/profiles\<close> fails to open, or gives lines until the end or an error.
\<close>

type_synonym profilesFile = "(string list \<times> goerror option) result"

fun scanProfiles :: "string \<Rightarrow> string list \<Rightarrow> goerror option \<Rightarrow> bool result" where
  "scanProfiles profile [] ending = (case ending of None \<Rightarrow> Inr False | Some err \<Rightarrow> Inl err)"
| "scanProfiles profile (line # ls) ending =
     (if HasPrefix line (profile @ '' ('') then Inr True else scanProfiles profile ls ending)"

definition appArmorProfileExists :: "profilesFile \<Rightarrow> string \<Rightarrow> bool result" where
  "appArmorProfileExists profiles profile =
     (if profile = [] then Inl (Errorf ''nil apparmor profile is not supported'' [])
      else case profiles of Inl err \<Rightarrow> Inl err | Inr (ls, ending) \<Rightarrow> scanProfiles profile ls ending)"

definition generateApparmorSpecOpts :: "profilesFile \<Rightarrow> string \<Rightarrow> bool \<Rightarrow> bool \<Rightarrow> profileOpt result" where
  "generateApparmorSpecOpts profiles prof privileged apparmorEnabled =
     (if \<not> apparmorEnabled then
        (if prof \<noteq> [] \<and> prof \<noteq> ''unconfined'' then Inl (Errorf ''apparmor is not supported'' []) else Inr NoProfile)
      else if prof = ''runtime/default'' \<or> prof = [] then (if privileged then Inr NoProfile else Inr DefaultProfile)
      else if prof = ''unconfined'' then Inr NoProfile
      else if \<not> HasPrefix prof ''localhost/'' then Inl (Errorf ''invalid apparmor profile %q'' [prof])
      else
        (let p = TrimPrefix prof ''localhost/'' in
         case appArmorProfileExists profiles p of
           Inl err \<Rightarrow> Inl (Wrapf err ''failed to generate apparmor spec opts'' [])
         | Inr found \<Rightarrow> (if \<not> found then Inl (Errorf ''apparmor profile not found %s'' [p]) else Inr (NamedProfile p))))"

text \<open>The options that need the root filesystem: user, groups of the user, and profiles.\<close>

record rootfsOpts =
  ro_User :: "string option"
  ro_Groups :: string
  ro_Apparmor :: profileOpt
  ro_Seccomp :: profileOpt

definition containerSpecOpts ::
    "criConfig \<Rightarrow> profilesFile \<Rightarrow> bool \<Rightarrow> bool \<Rightarrow> containerConfig \<Rightarrow> image_config \<Rightarrow> rootfsOpts result" where
  "containerSpecOpts cfg profiles apparmorHost seccompHost config img =
     (case generateUserString (cc_RunAsUsername config) (cc_RunAsUser config) (cc_RunAsGroup config) of
        Inl err \<Rightarrow> Inl (Wrapf err ''failed to generate user string'' [])
      | Inr userstr \<Rightarrow>
          (let user = (if userstr = [] then ic_User img else userstr);
               groups = (if cc_RunAsUsername config \<noteq> [] then cc_RunAsUsername config else FormatInt (orNew 0 (cc_RunAsUser config)))
           in case generateApparmorSpecOpts profiles (cc_ApparmorProfile config) (cc_Privileged config) (apparmorHost \<and> \<not> cf_DisableApparmor cfg) of
                Inl err \<Rightarrow> Inl (Wrapf err ''failed to generate apparmor spec opts'' [])
              | Inr aa \<Rightarrow>
                  (case generateSeccompSpecOpts cfg (cc_SeccompProfilePath config) (cc_Privileged config) seccompHost of
                     Inl err \<Rightarrow> Inl (Wrapf err ''failed to generate seccomp spec opts'' [])
                   | Inr sc \<Rightarrow> Inr \<lparr>ro_User = (if user \<noteq> [] then Some user else None), ro_Groups = groups,
                                    ro_Apparmor = aa, ro_Seccomp = sc\<rparr>)))"

definition sandboxContainerSpecOpts :: "criConfig \<Rightarrow> bool \<Rightarrow> podSandboxConfig \<Rightarrow> image_config \<Rightarrow> (string option \<times> profileOpt) result" where
  "sandboxContainerSpecOpts cfg seccompHost config img =
     (case generateSeccompSpecOpts cfg (pc_SeccompProfilePath config) (pc_Privileged config) seccompHost of
        Inl err \<Rightarrow> Inl (Wrapf err ''failed to generate seccomp spec opts'' [])
      | Inr sc \<Rightarrow>
          (case generateUserString [] (pc_RunAsUser config) (pc_RunAsGroup config) of
             Inl err \<Rightarrow> Inl (Wrapf err ''failed to generate user string'' [])
           | Inr userstr \<Rightarrow>
               (let user = (if userstr = [] then ic_User img else userstr) in
                Inr (if user \<noteq> [] then Some user else None, sc))))"

end
