(* ===== verification/SpecSecurity.thy ===== *)
theory SpecSecurity
  imports SpecGen
begin

section \<open>What isolates a container\<close>

text \<open>
  \<open>secOf\<close> projects a spec to the parts that isolate the container. \<open>acts os o h\<close> says that whenever the option \<open>o\<close> succeeds it
  does \<open>h\<close> to this projection; options compose, and so do their actions. \<open>containerView\<close> is the
  abstract specification of all the options of a container together.
\<close>

named_theorems act_rules

record secView =
  v_NoNewPrivileges :: bool
  v_Apparmor :: string
  v_Rlimits :: "string list"
  v_Caps :: linuxCapabilities
  v_SelinuxLabel :: string
  v_MountLabel :: string
  v_Namespaces :: "linuxNamespace list"
  v_Annotations :: labels
  v_Seccomp :: "string option"
  v_Root :: ociRoot
  v_Masked :: "string list"
  v_ReadonlyPaths :: "string list"

definition secOf :: "ociSpec \<Rightarrow> secView" where
  "secOf s = \<lparr>v_NoNewPrivileges = pr_NoNewPrivileges (processOf s), v_Apparmor = pr_ApparmorProfile (processOf s),
     v_Rlimits = pr_Rlimits (processOf s), v_Caps = orNew zeroCapabilities (pr_Capabilities (processOf s)),
     v_SelinuxLabel = pr_SelinuxLabel (processOf s), v_MountLabel = li_MountLabel (linuxOf s),
     v_Namespaces = li_Namespaces (linuxOf s), v_Annotations = sp_Annotations s, v_Seccomp = li_Seccomp (linuxOf s),
     v_Root = orNew \<lparr>ro_Path = [], ro_Readonly = False\<rparr> (sp_Root s),
     v_Masked = li_MaskedPaths (linuxOf s), v_ReadonlyPaths = li_ReadonlyPaths (linuxOf s)\<rparr>"

definition acts :: "osEnv \<Rightarrow> specOpt \<Rightarrow> (secView \<Rightarrow> secView) \<Rightarrow> bool" where
  "acts os o' h \<longleftrightarrow> (\<forall>s tr s' tr'. o' os s tr = (Inr s', tr') \<longrightarrow> secOf s' = h (secOf s))"

abbreviation actsL :: "osEnv \<Rightarrow> specOpt list \<Rightarrow> (secView \<Rightarrow> secView) \<Rightarrow> bool" where
  "actsL os opts \<equiv> acts os (applySpecOpts opts)"

subsection \<open>Composition\<close>

lemma actsD: "acts os o' h \<Longrightarrow> o' os s tr = (Inr s', tr') \<Longrightarrow> secOf s' = h (secOf s)"
  by (auto simp: acts_def)

lemma acts_pure: "(\<And>s. secOf (f s) = h (secOf s)) \<Longrightarrow> acts os (pureOpt f) h"
  by (simp add: acts_def pureOpt_def)

lemma acts_cong: "acts os o' h \<Longrightarrow> (\<And>v. h v = k v) \<Longrightarrow> acts os o' k"
  by (simp add: acts_def)

lemma actsL_Nil: "actsL os [] (\<lambda>v. v)"
  by (simp add: acts_def)

lemma actsL_Cons: "acts os o' h \<Longrightarrow> actsL os opts k \<Longrightarrow> actsL os (o' # opts) (\<lambda>v. k (h v))"
  by (fastforce simp: acts_def act_simps)

lemma applySpecOpts_append: "applySpecOpts (xs @ ys) os s = bindA (applySpecOpts xs os s) (applySpecOpts ys os)"
  by (induction xs arbitrary: s) (auto simp: bindA_def returnA_def fun_eq_iff split: prod.splits sum.splits)

lemma actsL_append: "actsL os xs h \<Longrightarrow> actsL os ys k \<Longrightarrow> actsL os (xs @ ys) (\<lambda>v. k (h v))"
  by (fastforce simp: acts_def act_simps applySpecOpts_append)

lemma actsL_optIf: "acts os o' h \<Longrightarrow> actsL os (optIf b o') (\<lambda>v. if b then h v else v)"
  by (auto simp: optIf_def acts_def act_simps)

lemma actsL_one: "acts os o' h \<Longrightarrow> actsL os [o'] h"
  by (fastforce simp: acts_def act_simps)

lemma actsL_if: "actsL os xs h \<Longrightarrow> actsL os ys k \<Longrightarrow> actsL os (if b then xs else ys) (if b then h else k)"
  by simp

lemma acts_same: "(\<And>s tr s' tr'. o' os s tr = (Inr s', tr') \<Longrightarrow> secOf s' = secOf s) \<Longrightarrow> acts os o' (\<lambda>v. v)"
  by (auto simp: acts_def)

subsection \<open>Options that isolation does not depend on\<close>

lemmas pure_opts = WithoutRunMount_def Oci_WithProcessArgs_def WithProcessCwd_def WithTTY_def Oci_WithEnv_def WithHostname_def
  Oci_WithMounts_def WithCgroup_def WithDisabledCgroups_def WithSupplementalGroups_def WithSysctls_def WithDefaultSandboxShares_def
  WithAllDevicesAllowed_def WithNamespacedCgroup_def

lemma secOf_frame [simp]:
  "secOf (s\<lparr>sp_Mounts := ms\<rparr>) = secOf s" "secOf (s\<lparr>sp_Hostname := h\<rparr>) = secOf s"
  "secOf (updResources f s) = secOf s"
  by (simp_all add: secOf_def updResources_def)

lemma keeps_pure [act_rules]:
  "acts os WithoutRunMount (\<lambda>v. v)" "acts os (Oci_WithProcessArgs args) (\<lambda>v. v)" "acts os (WithProcessCwd cwd) (\<lambda>v. v)"
  "acts os WithTTY (\<lambda>v. v)" "acts os (Oci_WithEnv env) (\<lambda>v. v)" "acts os (WithHostname n) (\<lambda>v. v)" "acts os (Oci_WithMounts ms) (\<lambda>v. v)"
  "acts os (WithCgroup p) (\<lambda>v. v)" "acts os WithDisabledCgroups (\<lambda>v. v)" "acts os (WithSupplementalGroups gs) (\<lambda>v. v)"
  "acts os (WithSysctls m) (\<lambda>v. v)" "acts os WithDefaultSandboxShares (\<lambda>v. v)" "acts os WithAllDevicesAllowed (\<lambda>v. v)"
  "acts os (WithNamespacedCgroup i) (\<lambda>v. v)"
  unfolding pure_opts by (rule acts_pure, simp add: secOf_def updResources_def)+

lemma keeps_processArgs [act_rules]: "acts os (WithProcessArgs config img) (\<lambda>v. v)"
  by (rule acts_same) (auto simp: WithProcessArgs_def act_simps dest: actsD [OF keeps_pure(2)])

lemma keeps_pathEnv [act_rules]: "acts os WithDefaultPathEnv (\<lambda>v. v)"
  by (rule acts_same) (auto simp: WithDefaultPathEnv_def secOf_def split: option.splits)

lemma addMount_secOf: "addMount os l m s tr = (Inr s', tr') \<Longrightarrow> secOf s' = secOf s"
  by (auto simp: addMount_def act_simps) (simp_all add: secOf_def)

lemma addMounts_secOf: "addMounts os l ms s tr = (Inr s', tr') \<Longrightarrow> secOf s' = secOf s"
  by (induction ms arbitrary: s tr) (auto simp: act_simps dest: addMount_secOf)

lemma keeps_mounts [act_rules]: "acts os (WithMounts srt config extra l) (\<lambda>v. v)"
  by (rule acts_same) (auto simp: WithMounts_def Let_def dest: addMounts_secOf)

lemma withDevice_secOf: "withDevice os d s tr = (Inr s', tr') \<Longrightarrow> secOf s' = secOf s"
  by (auto simp: withDevice_def act_simps addDevice_def) (simp_all add: secOf_def)

lemma withDevices_secOf: "withDevices ds os s tr = (Inr s', tr') \<Longrightarrow> secOf s' = secOf s"
  by (induction ds arbitrary: s tr) (auto simp: act_simps dest: withDevice_secOf)

lemma keeps_devices [act_rules]: "acts os (WithDevices config) (\<lambda>v. v)" "acts os WithHostDevices (\<lambda>v. v)"
  by (rule acts_same, auto simp: WithDevices_def dest!: withDevices_secOf)
    (rule acts_same, auto simp: WithHostDevices_def act_simps secOf_def)

lemma keeps_resources [act_rules]: "acts os (WithResources r tol dis) (\<lambda>v. v)"
  by (rule acts_same) (auto simp: WithResources_def Let_def split: option.splits if_splits)

lemma keeps_oom [act_rules]: "acts os (WithOOMScoreAdj config b) (\<lambda>v. v)" "acts os (WithPodOOMScoreAdj adj b) (\<lambda>v. v)"
  by (rule acts_same, auto simp: WithOOMScoreAdj_def WithPodOOMScoreAdj_def act_simps secOf_def split: option.splits)+

subsection \<open>Options that isolation depends on\<close>

lemma acts_security [act_rules]:
  "acts os WithoutDefaultSecuritySettings (\<lambda>v. v\<lparr>v_Apparmor := [], v_Rlimits := [], v_Seccomp := None\<rparr>)"
  "acts os (WithRelativeRoot r) (\<lambda>v. v\<lparr>v_Root := (v_Root v)\<lparr>ro_Path := r\<rparr>\<rparr>)"
  "acts os WithRootFSReadonly (\<lambda>v. v\<lparr>v_Root := (v_Root v)\<lparr>ro_Readonly := True\<rparr>\<rparr>)"
  "acts os WithNewPrivileges (\<lambda>v. v\<lparr>v_NoNewPrivileges := False\<rparr>)"
  "acts os WithNoNewPrivileges (\<lambda>v. v\<lparr>v_NoNewPrivileges := True\<rparr>)"
  "acts os (WithMaskedPaths ps) (\<lambda>v. v\<lparr>v_Masked := ps\<rparr>)"
  "acts os (WithReadonlyPaths ps) (\<lambda>v. v\<lparr>v_ReadonlyPaths := ps\<rparr>)"
  "acts os WithoutAmbientCaps (\<lambda>v. v\<lparr>v_Caps := (v_Caps v)\<lparr>cap_Ambient := []\<rparr>\<rparr>)"
  "acts os (WithSelinuxLabels p m) (\<lambda>v. v\<lparr>v_SelinuxLabel := p, v_MountLabel := m\<rparr>)"
  "acts os (WithAnnotation k x) (\<lambda>v. v\<lparr>v_Annotations := (v_Annotations v)(k \<mapsto> x)\<rparr>)"
  "acts os (withAnnotations a) (\<lambda>v. v\<lparr>v_Annotations := v_Annotations v ++ a\<rparr>)"
  "acts os (WithLinuxNamespace ns) (\<lambda>v. v\<lparr>v_Namespaces := setNamespace ns (v_Namespaces v)\<rparr>)"
  "acts os (WithoutNamespace t) (\<lambda>v. v\<lparr>v_Namespaces := filter (\<lambda>n. ns_Type n \<noteq> t) (v_Namespaces v)\<rparr>)"
  unfolding WithoutDefaultSecuritySettings_def WithRelativeRoot_def WithRootFSReadonly_def WithNewPrivileges_def WithNoNewPrivileges_def
    WithMaskedPaths_def WithReadonlyPaths_def WithoutAmbientCaps_def WithSelinuxLabels_def WithAnnotation_def withAnnotations_def
    WithLinuxNamespace_def WithoutNamespace_def
  by (rule acts_pure, simp add: secOf_def updCapabilities_def zeroLinux_def orNew_def Let_def split: option.split)+

text \<open>Capabilities: the four sets are treated alike.\<close>

definition capFun :: "osEnv \<Rightarrow> containerConfig \<Rightarrow> string list \<Rightarrow> string list" where
  "capFun os config cl =
     (case cc_Capabilities config of
        None \<Rightarrow> cl
      | Some c \<Rightarrow> fold removeCap (capNames (ca_DropCapabilities c)) (fold addCap (capNames (ca_AddCapabilities c))
          (if InStringSlice (ca_DropCapabilities c) ''ALL'' then [] else if InStringSlice (ca_AddCapabilities c) ''ALL'' then os_allCapabilities os else cl)))"

lemma acts_caps:
  "acts os (Oci_WithCapabilities caps) (\<lambda>v. v\<lparr>v_Caps := setCaps (\<lambda>_. caps) (v_Caps v)\<rparr>)"
  "acts os WithAllCapabilities (\<lambda>v. v\<lparr>v_Caps := setCaps (\<lambda>_. os_allCapabilities os) (v_Caps v)\<rparr>)"
  "acts os (WithAddedCapabilities caps) (\<lambda>v. v\<lparr>v_Caps := setCaps (fold addCap caps) (v_Caps v)\<rparr>)"
  "acts os (WithDroppedCapabilities caps) (\<lambda>v. v\<lparr>v_Caps := setCaps (fold removeCap caps) (v_Caps v)\<rparr>)"
proof -
  show c: "acts os (Oci_WithCapabilities caps) (\<lambda>v. v\<lparr>v_Caps := setCaps (\<lambda>_. caps) (v_Caps v)\<rparr>)" for caps
    unfolding Oci_WithCapabilities_def by (rule acts_pure) (simp add: secOf_def updCapabilities_def)
  show "acts os WithAllCapabilities (\<lambda>v. v\<lparr>v_Caps := setCaps (\<lambda>_. os_allCapabilities os) (v_Caps v)\<rparr>)"
    using c [of "os_allCapabilities os"] by (simp add: acts_def WithAllCapabilities_def)
  show "acts os (WithAddedCapabilities caps) (\<lambda>v. v\<lparr>v_Caps := setCaps (fold addCap caps) (v_Caps v)\<rparr>)"
    unfolding WithAddedCapabilities_def by (rule acts_pure) (simp add: secOf_def updCapabilities_def)
  show "acts os (WithDroppedCapabilities caps) (\<lambda>v. v\<lparr>v_Caps := setCaps (fold removeCap caps) (v_Caps v)\<rparr>)"
    unfolding WithDroppedCapabilities_def by (rule acts_pure) (simp add: secOf_def updCapabilities_def)
qed

lemma setCaps_comp: "setCaps f (setCaps g c) = setCaps (\<lambda>x. f (g x)) c" "setCaps (\<lambda>x. x) c = c"
  by (simp_all add: setCaps_def)

lemma acts_capabilities [act_rules]: "acts os (WithCapabilities config) (\<lambda>v. v\<lparr>v_Caps := setCaps (capFun os config) (v_Caps v)\<rparr>)"
proof (cases "cc_Capabilities config")
  case None
  then have "capFun os config = (\<lambda>x. x)" by (simp add: fun_eq_iff capFun_def)
  then show ?thesis
    using None by (simp add: WithCapabilities_def nullOpt_def acts_def pureOpt_def setCaps_comp)
next
  case (Some c)
  let ?all = "InStringSlice (ca_AddCapabilities c) ''ALL''" and ?none = "InStringSlice (ca_DropCapabilities c) ''ALL''"
  let ?opts = "(if ?all then [WithAllCapabilities] else []) @ (if ?none then [Oci_WithCapabilities []] else []) @
     [WithAddedCapabilities (capNames (ca_AddCapabilities c)), WithDroppedCapabilities (capNames (ca_DropCapabilities c))]"
  note r = actsL_append [OF actsL_if [where b = ?all, OF actsL_one [OF acts_caps(2) [of os]] actsL_Nil]
      actsL_append [OF actsL_if [where b = ?none, OF actsL_one [OF acts_caps(1) [of os "[]"]] actsL_Nil]
        actsL_Cons [OF acts_caps(3) [of os "capNames (ca_AddCapabilities c)"] actsL_one [OF acts_caps(4) [of os "capNames (ca_DropCapabilities c)"]]]]]
  have "acts os (applySpecOpts ?opts) (\<lambda>v. v\<lparr>v_Caps := setCaps (capFun os config) (v_Caps v)\<rparr>)"
    by (rule acts_cong [OF r]) (auto simp: capFun_def Some setCaps_def)
  then show ?thesis using Some by (simp add: WithCapabilities_def)
qed

lemma acts_by: "\<exists>h. acts os o' h \<and> (\<forall>v. h v = k v) \<Longrightarrow> acts os o' k"
  using acts_cong by blast

lemma acts_profile [act_rules]:
  "acts os (WithSelinuxLabel l) (\<lambda>v. v\<lparr>v_SelinuxLabel := l\<rparr>)" "acts os (WithApparmorProfile a) (\<lambda>v. v\<lparr>v_Apparmor := a\<rparr>)"
  "acts os WithSeccompUnconfined (\<lambda>v. v\<lparr>v_Seccomp := None\<rparr>)" "acts os WithWriteableSysfs (\<lambda>v. v)" "acts os WithWriteableCgroupfs (\<lambda>v. v)"
  unfolding WithSelinuxLabel_def WithApparmorProfile_def WithSeccompUnconfined_def WithWriteableSysfs_def WithWriteableCgroupfs_def
  by (rule acts_pure, simp add: secOf_def)+

lemma acts_privileged [act_rules]:
  "acts os WithPrivileged (\<lambda>v. v\<lparr>v_Caps := setCaps (\<lambda>_. os_allCapabilities os) (v_Caps v), v_Masked := [], v_ReadonlyPaths := [],
     v_SelinuxLabel := [], v_Apparmor := [], v_Seccomp := None\<rparr>)"
  unfolding WithPrivileged_def
  by (rule acts_by, rule exI, rule conjI, (rule actsL_Cons actsL_Nil act_rules acts_caps)+) simp

definition podNamespaces :: "containerConfig \<Rightarrow> 32 word \<Rightarrow> linuxNamespace list \<Rightarrow> linuxNamespace list" where
  "podNamespaces config pid ns =
     (let ns' = setNamespace \<lparr>ns_Type = UTSNamespace, ns_Path = GetUTSNamespace pid\<rparr>
           (setNamespace \<lparr>ns_Type = IPCNamespace, ns_Path = GetIPCNamespace pid\<rparr>
           (setNamespace \<lparr>ns_Type = NetworkNamespace, ns_Path = GetNetworkNamespace pid\<rparr> ns))
      in if cc_NsPid config \<noteq> NS_CONTAINER then setNamespace \<lparr>ns_Type = PIDNamespace, ns_Path = GetPIDNamespace pid\<rparr> ns' else ns')"

lemma acts_podNamespaces [act_rules]: "acts os (WithPodNamespaces config pid) (\<lambda>v. v\<lparr>v_Namespaces := podNamespaces config pid (v_Namespaces v)\<rparr>)"
  unfolding WithPodNamespaces_def
  by (rule acts_by, rule exI, rule conjI, (rule actsL_append actsL_if actsL_Cons actsL_Nil act_rules)+) (simp add: podNamespaces_def Let_def)

lemma acts_cwd [act_rules]: "actsL os (cwdOpts config img) (\<lambda>v. v)"
  unfolding cwdOpts_def
  by (rule acts_by, rule exI, rule conjI, (rule actsL_if actsL_optIf actsL_Cons actsL_Nil act_rules)+) simp

lemma acts_cgroup [act_rules]: "actsL os (cgroupOpts cfg i config sandboxConfig) (\<lambda>v. v)"
  unfolding cgroupOpts_def
  by (rule acts_by, rule exI, rule conjI, (rule actsL_if actsL_Cons actsL_optIf actsL_Nil act_rules)+) simp

text \<open>
  The two largest actions are constants with a simp rule per field, so that composing them does not
  multiply their text.
\<close>

definition procMountV :: "criConfig \<Rightarrow> containerConfig \<Rightarrow> secView \<Rightarrow> secView" where
  "procMountV cfg config v = v\<lparr>
     v_Masked := (if cf_DisableProcMount cfg then v_Masked v else orNew (v_Masked v) (cc_MaskedPaths config)),
     v_ReadonlyPaths := (if cf_DisableProcMount cfg then v_ReadonlyPaths v else orNew (v_ReadonlyPaths v) (cc_ReadonlyPaths config))\<rparr>"

definition privilegeV :: "osEnv \<Rightarrow> containerConfig \<Rightarrow> runtimeConfig \<Rightarrow> secView \<Rightarrow> secView" where
  "privilegeV os config rt v = v\<lparr>
     v_Caps := (let c = (if cc_Privileged config then setCaps (\<lambda>_. os_allCapabilities os) (v_Caps v) else v_Caps v)
                in if cc_Privileged config \<and> \<not> rt_PrivilegedWithoutHostDevices rt then c else setCaps (capFun os config) c),
     v_Masked := (if cc_Privileged config then [] else v_Masked v),
     v_ReadonlyPaths := (if cc_Privileged config then [] else v_ReadonlyPaths v),
     v_SelinuxLabel := (if cc_Privileged config then [] else v_SelinuxLabel v),
     v_Apparmor := (if cc_Privileged config then [] else v_Apparmor v),
     v_Seccomp := (if cc_Privileged config then None else v_Seccomp v)\<rparr>"

lemma procMountV_simps [simp]:
  "v_NoNewPrivileges (procMountV cfg config v) = v_NoNewPrivileges v" "v_Apparmor (procMountV cfg config v) = v_Apparmor v"
  "v_Rlimits (procMountV cfg config v) = v_Rlimits v" "v_Caps (procMountV cfg config v) = v_Caps v"
  "v_SelinuxLabel (procMountV cfg config v) = v_SelinuxLabel v" "v_MountLabel (procMountV cfg config v) = v_MountLabel v"
  "v_Namespaces (procMountV cfg config v) = v_Namespaces v" "v_Annotations (procMountV cfg config v) = v_Annotations v"
  "v_Seccomp (procMountV cfg config v) = v_Seccomp v" "v_Root (procMountV cfg config v) = v_Root v"
  "v_Masked (procMountV cfg config v) = (if cf_DisableProcMount cfg then v_Masked v else orNew (v_Masked v) (cc_MaskedPaths config))"
  "v_ReadonlyPaths (procMountV cfg config v) =
     (if cf_DisableProcMount cfg then v_ReadonlyPaths v else orNew (v_ReadonlyPaths v) (cc_ReadonlyPaths config))"
  by (simp_all add: procMountV_def)

lemma privilegeV_simps [simp]:
  "v_NoNewPrivileges (privilegeV os config rt v) = v_NoNewPrivileges v" "v_Rlimits (privilegeV os config rt v) = v_Rlimits v"
  "v_MountLabel (privilegeV os config rt v) = v_MountLabel v" "v_Namespaces (privilegeV os config rt v) = v_Namespaces v"
  "v_Annotations (privilegeV os config rt v) = v_Annotations v" "v_Root (privilegeV os config rt v) = v_Root v"
  "v_Caps (privilegeV os config rt v) =
     (let c = (if cc_Privileged config then setCaps (\<lambda>_. os_allCapabilities os) (v_Caps v) else v_Caps v)
      in if cc_Privileged config \<and> \<not> rt_PrivilegedWithoutHostDevices rt then c else setCaps (capFun os config) c)"
  "v_Masked (privilegeV os config rt v) = (if cc_Privileged config then [] else v_Masked v)"
  "v_ReadonlyPaths (privilegeV os config rt v) = (if cc_Privileged config then [] else v_ReadonlyPaths v)"
  "v_SelinuxLabel (privilegeV os config rt v) = (if cc_Privileged config then [] else v_SelinuxLabel v)"
  "v_Apparmor (privilegeV os config rt v) = (if cc_Privileged config then [] else v_Apparmor v)"
  "v_Seccomp (privilegeV os config rt v) = (if cc_Privileged config then None else v_Seccomp v)"
  by (simp_all add: privilegeV_def)

lemma acts_procMount [act_rules]: "actsL os (procMountOpts cfg config) (procMountV cfg config)"
proof -
  have m: "actsL os (case cc_MaskedPaths config of None \<Rightarrow> [] | Some ps \<Rightarrow> [WithMaskedPaths ps])
      (\<lambda>v. v\<lparr>v_Masked := orNew (v_Masked v) (cc_MaskedPaths config)\<rparr>)"
    by (cases "cc_MaskedPaths config") (auto intro: acts_cong [OF actsL_Nil] actsL_one acts_security simp del: applySpecOpts.simps)
  have r: "actsL os (case cc_ReadonlyPaths config of None \<Rightarrow> [] | Some ps \<Rightarrow> [WithReadonlyPaths ps])
      (\<lambda>v. v\<lparr>v_ReadonlyPaths := orNew (v_ReadonlyPaths v) (cc_ReadonlyPaths config)\<rparr>)"
    by (cases "cc_ReadonlyPaths config") (auto intro: acts_cong [OF actsL_Nil] actsL_one acts_security simp del: applySpecOpts.simps)
  show ?thesis
    unfolding procMountOpts_def
    by (rule acts_by, rule exI, rule conjI, (rule actsL_if actsL_append actsL_Nil m r)+) (simp add: procMountV_def)
qed

lemma acts_privilege [act_rules]: "actsL os (privilegeOpts config rt) (privilegeV os config rt)"
  unfolding privilegeOpts_def
  by (rule acts_by, rule exI, rule conjI, (rule actsL_if actsL_Cons actsL_Nil act_rules)+) (simp add: privilegeV_def)

subsection \<open>All options of a container\<close>

definition containerView ::
    "osEnv \<Rightarrow> criConfig \<Rightarrow> string \<Rightarrow> 32 word \<Rightarrow> string \<Rightarrow> containerConfig \<Rightarrow> podSandboxConfig \<Rightarrow> runtimeConfig \<Rightarrow> string \<times> string \<Rightarrow> secView \<Rightarrow> secView" where
  "containerView os cfg sandboxID pid containerName config sandboxConfig rt ls v = \<lparr>
     v_NoNewPrivileges = cc_NoNewPrivs config, v_Apparmor = [], v_Rlimits = [],
     v_Caps = (let c = (if cc_Privileged config then setCaps (\<lambda>_. os_allCapabilities os) (v_Caps v) else v_Caps v)
               in (if cc_Privileged config \<and> \<not> rt_PrivilegedWithoutHostDevices rt then c else setCaps (capFun os config) c)\<lparr>cap_Ambient := []\<rparr>),
     v_SelinuxLabel = fst ls, v_MountLabel = snd ls,
     v_Namespaces = (let ns = podNamespaces config pid (v_Namespaces v)
                     in if os_unified os \<and> \<not> cc_Privileged config then setNamespace \<lparr>ns_Type = CgroupNamespace, ns_Path = []\<rparr> ns else ns),
     v_Annotations = (v_Annotations v ++ getPassthroughAnnotations (pc_Annotations sandboxConfig) (rt_PodAnnotations rt)
                        ++ getPassthroughAnnotations (cc_Annotations config) (rt_ContainerAnnotations rt))
                      (ContainerType \<mapsto> ''container'', SandboxID \<mapsto> sandboxID, ContainerName \<mapsto> containerName),
     v_Seccomp = None, v_Root = (v_Root v)\<lparr>ro_Path := ''rootfs'', ro_Readonly := cc_ReadonlyRootfs config \<or> ro_Readonly (v_Root v)\<rparr>,
     v_Masked = (if cc_Privileged config then [] else if cf_DisableProcMount cfg then v_Masked v else orNew (v_Masked v) (cc_MaskedPaths config)),
     v_ReadonlyPaths = (if cc_Privileged config then [] else if cf_DisableProcMount cfg then v_ReadonlyPaths v else orNew (v_ReadonlyPaths v) (cc_ReadonlyPaths config))\<rparr>"

text \<open>The optional options as unconditional updates, so that the composition stays a chain of updates.\<close>

lemma acts_optional [act_rules]:
  "actsL os (optIf b WithTTY) (\<lambda>v. v)"
  "actsL os (optIf b WithNoNewPrivileges) (\<lambda>v. v\<lparr>v_NoNewPrivileges := b \<or> v_NoNewPrivileges v\<rparr>)"
  "actsL os (optIf b WithRootFSReadonly) (\<lambda>v. v\<lparr>v_Root := (v_Root v)\<lparr>ro_Readonly := b \<or> ro_Readonly (v_Root v)\<rparr>\<rparr>)"
  "actsL os (optIf b (WithLinuxNamespace ns)) (\<lambda>v. v\<lparr>v_Namespaces := (if b then setNamespace ns (v_Namespaces v) else v_Namespaces v)\<rparr>)"
  by (rule acts_cong [OF actsL_optIf [OF keeps_pure(4)]], simp)
    (rule acts_cong [OF actsL_optIf [OF acts_security(5)]] acts_cong [OF actsL_optIf [OF acts_security(3)]]
       acts_cong [OF actsL_optIf [OF acts_security(12)]], simp)+

lemma acts_containerOpts:
  "actsL os (containerOpts srt cfg i sandboxID pid containerName config sandboxConfig img extraMounts rt hostname ls (os_unified os))
     (containerView os cfg sandboxID pid containerName config sandboxConfig rt ls)"
proof -
  let ?A = "[WithoutRunMount, WithoutDefaultSecuritySettings, WithRelativeRoot ''rootfs'', WithProcessArgs config img,
      WithDefaultPathEnv, WithNewPrivileges]"
  let ?B = "[Oci_WithEnv [''HOSTNAME='' @ hostname], Oci_WithEnv (ic_Env img @ map (\<lambda>(k, v). k @ ''='' @ v) (cc_Envs config)),
      WithMounts srt config extraMounts (snd ls)]"
  let ?E = "[withAnnotations (getPassthroughAnnotations (pc_Annotations sandboxConfig) (rt_PodAnnotations rt)),
      withAnnotations (getPassthroughAnnotations (cc_Annotations config) (rt_ContainerAnnotations rt)),
      WithOOMScoreAdj config (cf_RestrictOOMScoreAdj cfg), WithPodNamespaces config pid,
      WithSupplementalGroups (cc_SupplementalGroups config),
      WithAnnotation ContainerType ''container'', WithAnnotation SandboxID sandboxID, WithAnnotation ContainerName containerName]"
  have A: "actsL os ?A (\<lambda>v. v\<lparr>v_NoNewPrivileges := False, v_Apparmor := [], v_Rlimits := [], v_Seccomp := None, v_Root := (v_Root v)\<lparr>ro_Path := ''rootfs''\<rparr>\<rparr>)"
    by (rule acts_by, rule exI, rule conjI, (rule actsL_Cons actsL_Nil act_rules)+) simp
  have B: "actsL os ?B (\<lambda>v. v)"
    by (rule acts_by, rule exI, rule conjI, (rule actsL_Cons actsL_Nil act_rules)+) simp
  have C: "actsL os [WithoutAmbientCaps, WithSelinuxLabels (fst ls) (snd ls)]
      (\<lambda>v. v\<lparr>v_Caps := (v_Caps v)\<lparr>cap_Ambient := []\<rparr>, v_SelinuxLabel := fst ls, v_MountLabel := snd ls\<rparr>)"
    by (rule acts_by, rule exI, rule conjI, (rule actsL_Cons actsL_Nil act_rules)+) simp
  have E: "actsL os ?E (\<lambda>v. v\<lparr>v_Namespaces := podNamespaces config pid (v_Namespaces v),
      v_Annotations := (v_Annotations v ++ getPassthroughAnnotations (pc_Annotations sandboxConfig) (rt_PodAnnotations rt)
                        ++ getPassthroughAnnotations (cc_Annotations config) (rt_ContainerAnnotations rt))
                      (ContainerType \<mapsto> ''container'', SandboxID \<mapsto> sandboxID, ContainerName \<mapsto> containerName)\<rparr>)"
    by (rule acts_by, rule exI, rule conjI, (rule actsL_Cons actsL_Nil act_rules)+) simp
  show ?thesis
    unfolding containerOpts_def
    by (rule acts_by, rule exI, rule conjI, (rule actsL_append A B C E act_rules)+, rule allI, rule secView.equality)
      (simp_all add: containerView_def Let_def cong: if_cong split del: if_split)
qed

lemma runtimeSpec_secOf:
  assumes "runtimeSpec baseOCISpecs i file opts os tr = (Inr spec, tr')" "actsL os opts h"
  shows "\<exists>base. (if file = [] then base = defaultSpec i else baseOCISpecs file = Some base) \<and> secOf spec = h (secOf base)"
proof (cases "file = []")
  case True
  then show ?thesis using assms by (auto simp: runtimeSpec_def act_simps dest: actsD)
next
  case False
  with assms(1) obtain base where b: "baseOCISpecs file = Some base"
    "applySpecOpts (WithNamespacedCgroup i # opts) os base tr = (Inr spec, tr')"
    by (auto simp: runtimeSpec_def wrapA_Inr simp del: applySpecOpts.simps split: option.splits)
  have "actsL os (WithNamespacedCgroup i # opts) h"
    using actsL_Cons [OF keeps_pure(14) assms(2)] .
  from actsD [OF this b(2)] b(1) False show ?thesis by auto
qed

lemma find_setNamespace:
  "find (\<lambda>n. ns_Type n = t) (setNamespace ns l) = (if ns_Type ns = t then Some ns else find (\<lambda>n. ns_Type n = t) l)"
  by (induction l) auto

lemma set_addCaps: "set (fold addCap cs cl) = set cl \<union> set cs"
  by (induction cs arbitrary: cl) (auto simp: addCap_def)

lemma set_removeCaps: "set (fold removeCap cs cl) = set cl - set cs"
  by (induction cs arbitrary: cl) (auto simp: removeCap_def)


text \<open>A privileged container in a pod that is not.\<close>

definition sec_runtime :: runtimeConfig where
  "sec_runtime = \<lparr>rt_Type = [], rt_PodAnnotations = [], rt_ContainerAnnotations = [''*''], rt_PrivilegedWithoutHostDevices = False, rt_BaseRuntimeSpec = []\<rparr>"

abbreviation sec_run :: "criConfig \<Rightarrow> image_config \<Rightarrow> ociSpec result \<times> oscall list" where
  "sec_run cfg img \<equiv> containerSpec (sort_key parts) cfg Map.empty Sandbox_NewStore ''c1'' ''sb1'' 42 ''web'' (two_mounts\<lparr>cc_Privileged := True\<rparr>)
     net_config img [] sec_runtime example_os []"


end
