(* ===== verification/UpdateResources.thy ===== *)
theory UpdateResources
  imports ContainerHandlers SpecGen
begin

section \<open>Updating the resources of a container\<close>

text \<open>
  \<^verbatim>\<open>container_update_resources_unix.go\<close>. The whole update runs in a status transaction of the container, which stores
  the status unchanged; so it excludes a concurrent start or removal, and a failure leaves the status as
  it was. \<open>specOf\<close> is the spec that containerd holds after the calls of the trace: the one of the last
  successful \<^verbatim>\<open>container.Update\<close>, or else the one containerd reports.
\<close>

definition updateContainerSpec :: "world \<Rightarrow> string \<Rightarrow> ociSpec \<Rightarrow> unit handler" where
  "updateContainerSpec w i spec = wrapA (ext w (UpdateSpec i spec)) ''failed to update container spec'' []"

text \<open>\<^verbatim>\<open>util.DeepCopy\<close> of a spec is the spec; no call to the system is made by \<^verbatim>\<open>WithResources\<close>.\<close>

definition updateOCILinuxResource :: "osEnv \<Rightarrow> ociSpec \<Rightarrow> linuxContainerResources option \<Rightarrow> bool \<Rightarrow> bool \<Rightarrow> ociSpec result" where
  "updateOCILinuxResource os spec new tolerate disable =
     (case fst (WithResources new tolerate disable os (updLinux id spec) []) of
        Inl err \<Rightarrow> Inl (Wrapf err ''unable to set linux container resources'' [])
      | Inr cloned \<Rightarrow> Inr cloned)"

definition updateTask :: "world \<Rightarrow> string \<Rightarrow> ociSpec \<Rightarrow> unit handler" where
  "updateTask w i newSpec s =
     (case ext w (CtrTask i) s of
        (Inl err, s1) \<Rightarrow> (if IsNotFound err then (Inr (), s1) else (Inl (Wrapf err ''failed to get task'' []), s1))
      | (Inr _, s1) \<Rightarrow>
          (case ext w (UpdateTask i (li_Resources (linuxOf newSpec))) s1 of
             (Inl err, s2) \<Rightarrow> (if IsNotFound err then (Inr (), s2) else (Inl (Wrapf err ''failed to update resources'' []), s2))
           | (Inr _, s2) \<Rightarrow> (Inr (), s2)))"

definition updateContainerResources :: "world \<Rightarrow> ctr \<Rightarrow> linuxContainerResources option \<Rightarrow> status \<Rightarrow> unit handler" where
  "updateContainerResources w cntr resources status =
     (let i = c_ID cntr in
      if st_Removing status then failA (Errorf ''container %q is in removing state'' [i])
      else
        thenA (wrapA (ext w (CtrSpec i)) ''failed to get container spec'' [])
       (bindA (getA (\<lambda>s. (w_spec w (trace s) i, sv_config s))) (\<lambda>(oldSpec, cfg).
        bindA (wrapA (liftA (updateOCILinuxResource (w_os w) oldSpec resources
                 (cf_TolerateMissingHugetlbController cfg) (cf_DisableHugetlbController cfg))) ''failed to update resource in spec'' []) (\<lambda>newSpec.
        thenA (updateContainerSpec w i newSpec)
              (onError (if State status \<noteq> RUNNING then returnA () else updateTask w i newSpec)
                 (\<lambda>_. ignoreA (updateContainerSpec w i oldSpec)))))))"

definition UpdateContainerResources :: "world \<Rightarrow> string \<Rightarrow> linuxContainerResources option \<Rightarrow> unit handler" where
  "UpdateContainerResources w r resources =
     bindA (wrapA (containerGet r) ''failed to find container'' []) (\<lambda>cntr.
     bindA (getA (statusOf cntr)) (\<lambda>status.
     thenA (wrapA (updateContainerResources w cntr resources status) ''failed to update resources'' [])
           (statusUpdate Inr cntr)))"

subsection \<open>The spec follows the request or stays\<close>

fun specOf :: "world \<Rightarrow> string \<Rightarrow> extcall list \<Rightarrow> ociSpec \<Rightarrow> ociSpec" where
  "specOf w i [] spec = spec"
| "specOf w i (c # tr) spec =
     (case c of
        UpdateSpec j x \<Rightarrow> (if j = i \<and> w_err w tr c = None then x else specOf w i tr spec)
      | _ \<Rightarrow> specOf w i tr spec)"

text \<open>The environment reports the spec it was given.\<close>

definition holdsSpecs :: "world \<Rightarrow> string \<Rightarrow> ociSpec \<Rightarrow> bool" where
  "holdsSpecs w i spec \<longleftrightarrow> (\<forall>tr. w_spec w tr i = specOf w i tr spec)"

definition limits :: "ociSpec \<Rightarrow> linuxResources" where
  "limits spec = orNew zeroResources (li_Resources (linuxOf spec))"

lemma updateOCI_Inr:
  assumes "updateOCILinuxResource os spec (Some r) tol dis = Inr new"
  shows "re_CPU (limits new) = Some (setCPU r (orNew zeroCPU (re_CPU (limits spec)))) \<and>
    re_Memory (limits new) = Some (setMemory r (orNew \<lparr>mem_Limit = None\<rparr> (re_Memory (limits spec)))) \<and>
    re_Devices (limits new) = re_Devices (limits spec) \<and> sp_Process new = sp_Process spec \<and> sp_Mounts new = sp_Mounts spec"
  using assms
  by (auto simp: updateOCILinuxResource_def WithResources_def limits_def updResources_def Let_def split: sum.splits if_splits)

text \<open>Nothing but the trace changes: the transaction stores the status it read.\<close>

lemma statusUpdate_same [simp]: "statusUpdate Inr c s = (Inr (), s)"
  by (simp add: statusUpdate_def Update_def Let_def)

lemma updateContainerResources_cases:
  assumes "updateContainerResources w c resources st s = (r, t)" "i = c_ID c"
  shows "(st_Removing st \<and> (\<exists>e. r = Inl e) \<and> t = s) \<or>
    (\<exists>e. \<not> st_Removing st \<and> r = Inl e \<and> t = logCall (CtrSpec i) s) \<or>
    (\<exists>new. \<not> st_Removing st \<and> updateOCILinuxResource (w_os w) (w_spec w (CtrSpec i # trace s) i) resources
         (cf_TolerateMissingHugetlbController (sv_config s)) (cf_DisableHugetlbController (sv_config s)) = Inr new \<and>
       (let u = logCall (UpdateSpec i new) (logCall (CtrSpec i) s); failed = w_err w (CtrSpec i # trace s) (UpdateSpec i new) \<noteq> None in
        if failed then (\<exists>e. r = Inl e) \<and> t = u
        else if State st \<noteq> RUNNING then r = Inr () \<and> t = u
        else (r = Inr () \<and> updateTask w i new u = (r, t)) \<or>
             (\<exists>e v. r = Inl e \<and> updateTask w i new u = (r, v) \<and> t = logCall (UpdateSpec i (w_spec w (CtrSpec i # trace s) i)) v)))"
proof -
  let ?old = "w_spec w (CtrSpec i # trace s) i" and ?cfg = "sv_config s"
  show ?thesis
  proof (cases "st_Removing st \<or> w_err w (trace s) (CtrSpec i) \<noteq> None")
    case True
    show ?thesis
    proof (cases "st_Removing st")
      case True
      then show ?thesis using assms(1) by (auto simp: updateContainerResources_def Let_def)
    next
      case False
      with True obtain e where "w_err w (trace s) (CtrSpec i) = Some e" by auto
      then have "wrapA (ext w (CtrSpec i)) f [] s = (Inl (Wrapf e f []), logCall (CtrSpec i) s)" for f
        by (simp add: wrapA_def ext_def)
      then show ?thesis
        using assms(1) False by (auto simp: updateContainerResources_def Let_def assms(2) [symmetric] thenA_def bindA_def)
    qed
  next
    case False
    then have run: "bindA (wrapA (liftA (updateOCILinuxResource (w_os w) ?old resources
                 (cf_TolerateMissingHugetlbController ?cfg) (cf_DisableHugetlbController ?cfg))) ''failed to update resource in spec'' []) (\<lambda>newSpec.
        thenA (updateContainerSpec w i newSpec)
              (onError (if State st \<noteq> RUNNING then returnA () else updateTask w i newSpec)
                 (\<lambda>_. ignoreA (updateContainerSpec w i ?old)))) (logCall (CtrSpec i) s) = (r, t)"
      using assms(1)
      by (simp add: updateContainerResources_def Let_def assms(2) [symmetric] thenA_Inr
          bindA_def [of "wrapA (ext w (CtrSpec i)) f []" for f] thenA_def [of "wrapA (ext w (CtrSpec i)) f []" for f]
          bindA_def [of "getA g" for g] wrapA_def [of "ext w (CtrSpec i)"] ext_def [of w "CtrSpec i"])
    show ?thesis
    proof (cases "updateOCILinuxResource (w_os w) ?old resources (cf_TolerateMissingHugetlbController ?cfg) (cf_DisableHugetlbController ?cfg)")
      case (Inl e)
      then show ?thesis using run False by (auto simp: bindA_def wrapA_def)
    next
      case (Inr new)
      let ?u = "logCall (UpdateSpec i new) (logCall (CtrSpec i) s)"
      obtain r0 v where t: "updateTask w i new ?u = (r0, v)" by fastforce
      show ?thesis
        using run False Inr t
        by (auto simp: bindA_def wrapA_def thenA_def updateContainerSpec_def ext_def onError_def ignoreA_def Let_def split: option.splits sum.splits if_splits)
    qed
  qed
qed

text \<open>Telling the task leaves the spec alone.\<close>

lemma updateTask_spec:
  assumes "updateTask w i new s = (r, t)"
  shows "t = s\<lparr>trace := trace t\<rparr>" "specOf w i (trace t) spec = specOf w i (trace s) spec"
    and "r = Inr () \<Longrightarrow> UpdateTask i (li_Resources (linuxOf new)) \<in> set (trace t) \<or>
      (\<exists>tr e. w_err w tr (CtrTask i) = Some e \<and> IsNotFound e \<and> trace t = CtrTask i # tr)"
  using assms by (auto simp: updateTask_def ext_def logCall_def split: option.splits if_splits)

text \<open>
  C36: updating the resources is a transaction. The status of the container and all other state is left alone. If the
  request succeeds, the spec that containerd holds is the old one with the requested CPU and memory limits put in
  (a limit of zero leaves the old one), and nothing else but the huge page limits changed; and if the container runs, its task
  was told as well, or it was gone. If the request fails, containerd holds the old spec, unless
  the call that restores it failed. A container that is being removed is refused without any call.
\<close>

theorem UpdateContainerResources_transactional:
  assumes "Store_Get (containerStore s) q = Inr c" "i = c_ID c" "holdsSpecs w i spec0" "old = specOf w i (trace s) spec0"
    and "UpdateContainerResources w q (Some rs) s = (r, t)"
  shows "t = s\<lparr>trace := trace t\<rparr> \<and> (st_Removing (statusOf c s) \<longrightarrow> (\<exists>e. r = Inl e) \<and> t = s) \<and>
    (case r of
       Inr _ \<Rightarrow>
         (let new = specOf w i (trace t) spec0 in
          re_CPU (limits new) = Some (setCPU rs (orNew zeroCPU (re_CPU (limits old)))) \<and>
          re_Memory (limits new) = Some (setMemory rs (orNew \<lparr>mem_Limit = None\<rparr> (re_Memory (limits old)))) \<and>
          re_Devices (limits new) = re_Devices (limits old) \<and> sp_Process new = sp_Process old \<and> sp_Mounts new = sp_Mounts old \<and>
          (State (statusOf c s) = RUNNING \<longrightarrow>
             UpdateTask i (li_Resources (linuxOf new)) \<in> set (trace t) \<or>
             (\<exists>tr e. w_err w tr (CtrTask i) = Some e \<and> IsNotFound e \<and> trace t = CtrTask i # tr)))
     | Inl e \<Rightarrow>
         specOf w i (trace t) spec0 = old \<or>
         (\<exists>tr. trace t = UpdateSpec i old # tr \<and> w_err w tr (UpdateSpec i old) \<noteq> None))"
proof -
  let ?st = "statusOf c s"
  from assms(5,1) obtain r' where u: "updateContainerResources w c (Some rs) ?st s = (r', t)"
    and r: "case r' of Inr _ \<Rightarrow> r = Inr () | Inl e \<Rightarrow> \<exists>e. r = Inl e"
    by (cases r) (auto simp: UpdateContainerResources_def containerGet_def act_simps bindA_def thenA_def wrapA_def split: prod.splits sum.splits)
  have old: "w_spec w (CtrSpec i # trace s) i = old" using assms(3,4) by (simp add: holdsSpecs_def)
  have step: "specOf w i (UpdateSpec i x # CtrSpec i # trace s) spec0 = (if w_err w (CtrSpec i # trace s) (UpdateSpec i x) = None then x else old)" for x
    using assms(4) by simp
  from updateContainerResources_cases [OF u assms(2)] show ?thesis
    unfolding old
  proof (elim disjE exE conjE, goal_cases)
    case 1
    then show ?case using r assms(4) by (auto split: sum.splits)
  next
    case (2 e)
    then show ?case using r assms(4) by (auto simp: logCall_def split: sum.splits)
  next
    case (3 new)
    note n = updateOCI_Inr [OF 3(2)]
    let ?u = "logCall (UpdateSpec i new) (logCall (CtrSpec i) s)"
    have tu: "?u = s\<lparr>trace := UpdateSpec i new # CtrSpec i # trace s\<rparr>" by (simp add: logCall_def)
    consider (failed) "w_err w (CtrSpec i # trace s) (UpdateSpec i new) \<noteq> None" "\<exists>e. r' = Inl e" "t = ?u"
      | (idle) "w_err w (CtrSpec i # trace s) (UpdateSpec i new) = None" "State ?st \<noteq> RUNNING" "r' = Inr ()" "t = ?u"
      | (updated) "w_err w (CtrSpec i # trace s) (UpdateSpec i new) = None" "State ?st = RUNNING" "r' = Inr ()" "updateTask w i new ?u = (Inr (), t)"
      | (reset) v e where "w_err w (CtrSpec i # trace s) (UpdateSpec i new) = None" "r' = Inl e" "updateTask w i new ?u = (r', v)" "t = logCall (UpdateSpec i old) v"
      using 3(3) by (auto simp: Let_def split: if_splits)
    then show ?case
    proof cases
      case failed
      then show ?thesis using r 3(1) step [of new] by (auto simp: tu split: sum.splits)
    next
      case idle
      then show ?thesis using r n 3(1) step [of new] by (auto simp: tu)
    next
      case updated
      note k = updateTask_spec [OF updated(4)]
      have t: "t = s\<lparr>trace := trace t\<rparr>" "specOf w i (trace t) spec0 = new"
        using k(1) k(2) [of spec0] step [of new] updated(1) by (simp_all add: tu)
      then show ?thesis using r updated(3) n k(3) 3(1) by (auto simp: Let_def)
    next
      case (reset v e)
      have "v = s\<lparr>trace := trace v\<rparr>" using updateTask_spec(1) [OF reset(3)] by (simp add: tu)
      then have t: "t = s\<lparr>trace := trace t\<rparr>" "trace t = UpdateSpec i old # trace v"
        using reset(4) by (metis (no_types) logCall_def svc.surjective svc.update_convs(13) trace_logCall) (simp add: reset(4))
      then show ?thesis using r reset(2) 3(1) by (cases "w_err w (trace v) (UpdateSpec i old)") auto
    qed
  qed
qed

text \<open>An environment that holds specs, and a request for a memory limit.\<close>

definition upd_world :: world where
  "upd_world = example_world\<lparr>w_spec := (\<lambda>tr i. specOf example_world i tr (defaultSpec ''c1''))\<rparr>"

definition mem_request :: linuxContainerResources where
  "mem_request = \<lparr>lr_CpuPeriod = 0, lr_CpuQuota = 0, lr_CpuShares = 0, lr_MemoryLimitInBytes = 4096, lr_OomScoreAdj = 0,
     lr_CpusetCpus = [], lr_CpusetMems = [], lr_HugepageLimits = []\<rparr>"

lemma upd_world_holds: "holdsSpecs upd_world i (defaultSpec ''c1'')"
proof -
  have e: "w_err upd_world = w_err example_world" by (simp add: upd_world_def)
  have "specOf upd_world i tr spec = specOf example_world i tr spec" for tr spec
    by (induction tr) (simp_all add: e cong: extcall.case_cong if_cong)
  then show ?thesis by (simp add: holdsSpecs_def upd_world_def)
qed

theorem UpdateContainerResources_transactional_witness:
  "fst (UpdateContainerResources upd_world ''c1'' (Some mem_request) (example_svc created_status)) = Inr () \<and>
   re_Memory (limits (specOf upd_world ''c1'' (trace (snd (UpdateContainerResources upd_world ''c1'' (Some mem_request) (example_svc created_status))))
     (defaultSpec ''c1''))) = Some \<lparr>mem_Limit = Some 4096\<rparr>"
proof -
  let ?s = "example_svc created_status" and ?r = "UpdateContainerResources upd_world ''c1'' (Some mem_request) (example_svc created_status)"
  have [simp]: "w_err upd_world tr c = None" "w_os upd_world = example_os" "sv_config ?s = example_config" for tr c
    by (simp_all add: upd_world_def example_world_def example_svc_def)
  have [simp]: "isHugetlbControllerPresent example_os" by (simp add: isHugetlbControllerPresent_def cgroupv1HasHugetlb_def example_os_def)
  have ok: "fst ?r = Inr ()"
    by (simp add: UpdateContainerResources_def updateContainerResources_def updateContainerSpec_def updateOCILinuxResource_def WithResources_def
        containerGet_def bindA_def thenA_def wrapA_def onError_def ext_def Let_def example_config_def)
  then have "?r = (Inr (), snd ?r)" by (simp add: prod_eq_iff)
  moreover have "c_ID example_ctr = ''c1''" by (simp add: example_ctr_def c_ID_def)
  moreover have "trace ?s = []" by (simp add: example_svc_def)
  moreover have "re_Memory (limits (defaultSpec ''c1'')) = None" by (simp add: limits_def defaultSpec_def zeroResources_def)
  ultimately show ?thesis
    using UpdateContainerResources_transactional [OF example_get _ upd_world_holds refl, where rs = mem_request and r = "Inr ()" and t = "snd ?r" and i = "''c1''"] ok
    by (simp add: Let_def setMemory_def mem_request_def)
qed

end
