(* ===== verification/ContainerCreate.thy ===== *)
theory ContainerCreate
  imports PodLifecycle SpecSecurity
begin

section \<open>Creating containers\<close>

text \<open>
  \<^verbatim>\<open>container_create.go\<close> and the mounts of \<^verbatim>\<open>container_create_unix.go\<close>. As for pods, \<^verbatim>\<open>CreateContainer\<close> is
  a chain of definitions, one per deferred clean-up, each of which calls the next. The spec is that of
  \<open>containerSpec\<close>, computed on the operating system of the node. The snapshot, the copy of the image
  volumes and the user of the root filesystem are options of \<^verbatim>\<open>client.NewContainer\<close> and belong to that call.
\<close>

subsection \<open>Mounts of a container\<close>

definition isInCRIMounts :: "string \<Rightarrow> criMount list \<Rightarrow> bool" where
  "isInCRIMounts dst mounts \<longleftrightarrow> list_ex (\<lambda>m. Clean (mt_ContainerPath m) = Clean dst) mounts"

definition generateID :: "world \<Rightarrow> string handler" where
  "generateID w s = (Inr (w_genID w (trace s)), logCall GenerateID s)"

fun volumeLoop :: "world \<Rightarrow> string \<Rightarrow> criMount list \<Rightarrow> string list \<Rightarrow> criMount list handler" where
  "volumeLoop w dir criMounts [] = returnA []"
| "volumeLoop w dir criMounts (dst # dsts) =
     (if isInCRIMounts dst criMounts then volumeLoop w dir criMounts dsts
      else bindA (generateID w) (\<lambda>volumeID.
           bindA (volumeLoop w dir criMounts dsts) (\<lambda>mounts.
           returnA (\<lparr>mt_ContainerPath = dst, mt_HostPath = Join [dir, ''volumes'', volumeID] ''/'', mt_Readonly = False,
                     mt_SelinuxRelabel = True, mt_Propagation = PROPAGATION_PRIVATE\<rparr> # mounts))))"

definition volumeMounts :: "world \<Rightarrow> string \<Rightarrow> criMount list \<Rightarrow> image_config \<Rightarrow> criMount list handler" where
  "volumeMounts w dir criMounts img =
     (if ic_Volumes img = [] then returnA [] else volumeLoop w dir criMounts (w_iter w (ic_Volumes img)))"

definition plainMount :: "string \<Rightarrow> string \<Rightarrow> bool \<Rightarrow> bool \<Rightarrow> criMount" where
  "plainMount dst src readonly rl = \<lparr>mt_ContainerPath = dst, mt_HostPath = src, mt_Readonly = readonly, mt_SelinuxRelabel = rl,
     mt_Propagation = PROPAGATION_PRIVATE\<rparr>"

definition containerMounts :: "world \<Rightarrow> criConfig \<Rightarrow> string \<Rightarrow> containerConfig \<Rightarrow> criMount list handler" where
  "containerMounts w cfg sandboxID config =
     (let ro = cc_ReadonlyRootfs config; taken = (\<lambda>dst. isInCRIMounts dst (cc_Mounts config));
          hostname = getSandboxHostname cfg sandboxID;
          shm = (if cc_NsIpc config = NS_NODE then ''/dev/shm'' else getSandboxDevShm cfg sandboxID) in
      bindA (if taken ''/etc/hostname'' then returnA []
             else (\<lambda>s. case ext w (StatFile hostname) s of
                     (Inl _, t) \<Rightarrow> (Inr [], t)
                   | (Inr _, t) \<Rightarrow> (Inr [plainMount ''/etc/hostname'' hostname ro False], t))) (\<lambda>m1.
      returnA (m1 @
        (if taken ''/etc/hosts'' then [] else [plainMount ''/etc/hosts'' (getSandboxHosts cfg sandboxID) ro False]) @
        (if taken ''/etc/resolv.conf'' then [] else [plainMount ''/etc/resolv.conf'' (getResolvPath cfg sandboxID) ro False]) @
        (if taken ''/dev/shm'' then [] else [plainMount ''/dev/shm'' shm False (shm \<noteq> ''/dev/shm'')]))))"

subsection \<open>The handler\<close>

text \<open>
  What the generation of the spec takes from the node beside \<open>osEnv\<close>: the sort of the mounts, the base specs that the config
  loads, the AppArmor profiles and whether AppArmor and seccomp are enabled.
\<close>

record specEnv =
  se_sort :: "criMount list \<Rightarrow> criMount list"
  se_base :: "string \<rightharpoonup> ociSpec"
  se_profiles :: profilesFile
  se_apparmor :: bool
  se_seccomp :: bool

text \<open>What a request is, and what the handler finds for it before it acquires anything.\<close>

record createCtx =
  cx_id :: string
  cx_config :: containerConfig
  cx_sandboxConfig :: podSandboxConfig
  cx_sandbox :: sbx
  cx_pid :: "32 word"
  cx_containerName :: string
  cx_name :: string
  cx_image :: "image"

definition storeAdd :: "ctr \<Rightarrow> unit handler" where
  "storeAdd c s = (let (r, st, L) = Store_Add c (containerStore s) (labelStore s)
     in (r, s\<lparr>containerStore := st, labelStore := L\<rparr>))"

definition createObject :: "world \<Rightarrow> containerConfig metadata \<Rightarrow> string \<Rightarrow> ctr handler" where
  "createObject w meta dir s =
     (let i = m_ID meta; call = WriteFile (status_path dir); status = zero_status\<lparr>st_CreatedAt := w_now w (trace s)\<rparr> in
      case NewContainer (w_err w (trace s) call) (nextRef s) meta
             [WithStatus status dir, WithContainer i, WithContainerIO i] (svDisk s) of
        (Inl e, d) \<Rightarrow> (Inl e, (logCall call s)\<lparr>svDisk := d\<rparr>)
      | (Inr (c, cl), d) \<Rightarrow>
          (Inr c, (logCall call s)\<lparr>svDisk := d, nextRef := Suc (nextRef s), cells := (cells s)(nextRef s := cl)\<rparr>))"

definition createStored :: "world \<Rightarrow> containerConfig metadata \<Rightarrow> string \<Rightarrow> unit handler" where
  "createStored w meta dir =
     bindA (wrapA (createObject w meta dir) ''failed to create internal container object for %q'' [m_ID meta]) (\<lambda>c.
     onError (wrapA (storeAdd c) ''failed to add container %q into store'' [m_ID meta])
       (\<lambda>_. ignoreA (deleteCheckpoint w c)))"

definition createCtr :: "world \<Rightarrow> labels \<Rightarrow> containerConfig metadata \<Rightarrow> string \<Rightarrow> unit handler" where
  "createCtr w configLabels meta dir =
     (let i = m_ID meta in
      thenA (wrapA (ext w (CtrNew i (buildLabels configLabels containerKindContainer) (ContainerMetadata meta)))
               ''failed to create containerd container'' [])
            (onError (createStored w meta dir) (\<lambda>_. ignoreA (ext w (CtrDelete i)))))"

definition createIO :: "world \<Rightarrow> criConfig \<Rightarrow> specEnv \<Rightarrow> createCtx \<Rightarrow> containerConfig metadata \<Rightarrow> string \<Rightarrow> unit handler" where
  "createIO w cfg se cx meta dir =
     (let i = m_ID meta in
      thenA (wrapA (ext w (NewIO i)) ''failed to create container io'' [])
        (onError
           (bindA (wrapA (liftA (containerSpecOpts cfg (se_profiles se) (se_apparmor se) (se_seccomp se) (cx_config cx) (im_Spec (cx_image cx)))) [] []) (\<lambda>_.
            thenA (wrapA (ext w (GenRuntimeOptions (sb_ID (cx_sandbox cx)))) ''failed to get runtime options'' [])
                  (createCtr w (cc_Labels (cx_config cx)) meta dir)))
           (\<lambda>_. ignoreA (ext w (IOClose i)))))"

text \<open>\<open>WithSelinuxLabels\<close> allocates the process of the spec, so there always is one.\<close>

definition specLabel :: "ociSpec \<Rightarrow> string" where
  "specLabel spec = (case sp_Process spec of None \<Rightarrow> [] | Some p \<Rightarrow> pr_SelinuxLabel p)"

definition generateSpec :: "world \<Rightarrow> criConfig \<Rightarrow> specEnv \<Rightarrow> (podSandboxConfig, cniResult) sstore \<Rightarrow> createCtx \<Rightarrow>
    criMount list \<Rightarrow> runtimeConfig \<Rightarrow> ociSpec result" where
  "generateSpec w cfg se store cx mounts rt =
     fst (containerSpec (se_sort se) cfg (se_base se) store (cx_id cx) (sb_ID (cx_sandbox cx)) (cx_pid cx) (cx_containerName cx)
            (cx_config cx) (cx_sandboxConfig cx) (im_Spec (cx_image cx)) mounts rt (w_os w) [])"

definition createMeta :: "createCtx \<Rightarrow> string \<Rightarrow> containerConfig metadata" where
  "createMeta cx label =
     \<lparr>m_ID = cx_id cx, m_Name = cx_name cx, m_SandboxID = sb_ID (cx_sandbox cx), m_Config = Some (cx_config cx),
      m_ImageRef = im_ID (cx_image cx),
      m_LogPath = (if pc_LogDirectory (cx_sandboxConfig cx) \<noteq> [] \<and> cc_LogPath (cx_config cx) \<noteq> []
                   then PathJoin (pc_LogDirectory (cx_sandboxConfig cx)) (cc_LogPath (cx_config cx)) else []),
      m_StopSignal = ic_StopSignal (im_Spec (cx_image cx)), m_ProcessLabel = label\<rparr>"

text \<open>A privileged container runs without the label, but its metadata keep it.\<close>

definition runLabel :: "createCtx \<Rightarrow> ociSpec \<Rightarrow> string" where
  "runLabel cx spec = (if cc_Privileged (cx_config cx) then [] else specLabel spec)"

definition createSpec :: "world \<Rightarrow> criConfig \<Rightarrow> specEnv \<Rightarrow> createCtx \<Rightarrow> string \<Rightarrow> unit handler" where
  "createSpec w cfg se cx dir =
     (let sandboxID = sb_ID (cx_sandbox cx); config = cx_config cx in
      bindA (if \<not> cf_IgnoreImageDefinedVolumes cfg then volumeMounts w dir (cc_Mounts config) (im_Spec (cx_image cx)) else returnA []) (\<lambda>volumes.
      bindA (containerMounts w cfg sandboxID config) (\<lambda>mounts.
      bindA (wrapA (liftA (getSandboxRuntime cfg (cx_sandboxConfig cx) (sm_RuntimeHandler (sb_meta (cx_sandbox cx)))))
               ''failed to get sandbox runtime'' []) (\<lambda>rt.
      bindA (wrapA (\<lambda>s. (generateSpec w cfg se (sandboxStore s) cx (mounts @ volumes) rt,
                         logCall (GenContainerSpec (cx_id cx) sandboxID (mounts @ volumes) rt) s))
               ''failed to generate container %q spec'' [cx_id cx]) (\<lambda>spec.
      onError (createIO w cfg se cx (createMeta cx (specLabel spec)) dir) (\<lambda>_. logCall (ReleaseLabel (runLabel cx spec))))))))"

definition createVolatileDir :: "world \<Rightarrow> criConfig \<Rightarrow> specEnv \<Rightarrow> createCtx \<Rightarrow> string \<Rightarrow> unit handler" where
  "createVolatileDir w cfg se cx rootDir =
     (let dir = getVolatileContainerRootDir cfg (cx_id cx) in
      thenA (wrapA (ext w (MkdirAll dir)) ''failed to create volatile container root directory %q'' [dir])
            (onError (createSpec w cfg se cx rootDir) (\<lambda>_. ignoreA (osRemoveAll w dir))))"

definition createRootDir :: "world \<Rightarrow> criConfig \<Rightarrow> specEnv \<Rightarrow> createCtx \<Rightarrow> unit handler" where
  "createRootDir w cfg se cx =
     (let dir = getContainerRootDir cfg (cx_id cx) in
      thenA (wrapA (ext w (MkdirAll dir)) ''failed to create container root directory %q'' [dir])
            (onError (createVolatileDir w cfg se cx dir) (\<lambda>_. ignoreA (osRemoveAll w dir))))"

text \<open>The context before the image is known carries any image; \<open>createBody\<close> fills it in.\<close>

definition createBody :: "world \<Rightarrow> criConfig \<Rightarrow> specEnv \<Rightarrow> (image \<Rightarrow> createCtx) \<Rightarrow> string \<Rightarrow> string \<Rightarrow> unit handler" where
  "createBody w cfg se mk imageName sandboxID =
     bindA (wrapA (localResolve w imageName) ''failed to resolve image %q'' [imageName]) (\<lambda>img.
     bindA (wrapA (toContainerdImage w img) ''failed to get image from containerd %q'' [im_ID img]) (\<lambda>_.
     thenA (wrapA (ext w (CtrInfo sandboxID)) ''failed to get sandbox %q info'' [sandboxID])
           (createRootDir w cfg se (mk img))))"

definition reserveContainerName :: "string \<Rightarrow> string \<Rightarrow> unit handler" where
  "reserveContainerName name i s =
     (let (r, idx) = Reserve (containerNameIndex s) name i in (r, s\<lparr>containerNameIndex := idx\<rparr>))"

definition requestCtx :: "containerConfig \<Rightarrow> podSandboxConfig \<Rightarrow> sbx \<Rightarrow> 32 word \<Rightarrow> string \<Rightarrow> containerMetadata \<Rightarrow> string \<Rightarrow> image \<Rightarrow> createCtx" where
  "requestCtx config sandboxConfig sandbox pid i metadata name img =
     \<lparr>cx_id = i, cx_config = config, cx_sandboxConfig = sandboxConfig, cx_sandbox = sandbox, cx_pid = pid,
      cx_containerName = cmd_Name metadata, cx_name = name, cx_image = img\<rparr>"

definition createNamed :: "world \<Rightarrow> specEnv \<Rightarrow> containerConfig \<Rightarrow> podSandboxConfig \<Rightarrow> sbx \<Rightarrow> 32 word \<Rightarrow> string \<Rightarrow> string handler" where
  "createNamed w se config sandboxConfig sandbox pid i =
     (case cc_Metadata config of
        None \<Rightarrow> failA (Errorf ''container config must include metadata'' [])
      | Some metadata \<Rightarrow>
          (case pc_Metadata sandboxConfig of
             None \<Rightarrow> failA (Errorf ''invalid memory address or nil pointer dereference'' [])
           | Some sandboxMetadata \<Rightarrow>
               (let name = makeContainerName metadata sandboxMetadata;
                    mk = requestCtx config sandboxConfig sandbox pid i metadata name in
                thenA (wrapA (reserveContainerName name i) ''failed to reserve container name %q'' [name])
               (thenA (onError (bindA (getA sv_config) (\<lambda>cfg. createBody w cfg se mk (cc_Image config) (sb_ID sandbox)))
                         (\<lambda>_ s. s\<lparr>containerNameIndex := ReleaseByName (containerNameIndex s) name\<rparr>))
                      (returnA i)))))"

definition CreateContainer :: "world \<Rightarrow> specEnv \<Rightarrow> string \<Rightarrow> containerConfig \<Rightarrow> podSandboxConfig \<Rightarrow> string handler" where
  "CreateContainer w se podSandboxId config sandboxConfig =
     bindA (wrapA (sandboxGet podSandboxId) ''failed to find sandbox id %q'' [podSandboxId]) (\<lambda>sandbox.
     thenA (wrapA (ext w (CtrTask (sb_ID sandbox))) ''failed to get sandbox container task'' [])
    (bindA (getA (\<lambda>s. w_pid w (trace s) (sb_ID sandbox))) (\<lambda>sandboxPid.
     bindA (generateID w) (createNamed w se config sandboxConfig sandbox sandboxPid))))"

subsection \<open>Calls made while a container is created\<close>

definition mountCalls :: "extcall set" where
  "mountCalls = insert GenerateID (range StatFile)"

definition checkpointCalls :: "extcall set" where
  "checkpointCalls = range RenameFile \<union> range RemoveFile"

lemma generateID_extends: "GenerateID \<in> A \<Longrightarrow> always (extends A) (generateID w)"
  by (auto simp: always_def generateID_def)

lemma volumeMounts_extends: "always (extends mountCalls) (volumeMounts w dir ms img)"
proof -
  have "always (extends mountCalls) (volumeLoop w dir ms dsts)" for dsts
  proof (induction dsts)
    case Nil
    show ?case unfolding volumeLoop.simps by (intro rel_intros)
  next
    case (Cons dst dsts)
    then show ?case unfolding volumeLoop.simps by (intro rel_intros generateID_extends) (simp_all add: mountCalls_def)
  qed
  then show ?thesis unfolding volumeMounts_def by (intro rel_intros)
qed

lemma containerMounts_extends: "always (extends mountCalls) (containerMounts w cfg i config)"
proof -
  have "always (extends mountCalls) (\<lambda>s. case ext w (StatFile p) s of (Inl _, t) \<Rightarrow> (Inr ms, t) | (Inr _, t) \<Rightarrow> (Inr ms', t))"
    for p and ms ms' :: "criMount list"
    by (intro tr.always_case tr.always_ret extends_ext) (simp add: mountCalls_def)
  then show ?thesis unfolding containerMounts_def Let_def by (intro rel_intros)
qed

lemma createObject_extends: "WriteFile (status_path dir) \<in> A \<Longrightarrow> always (extends A) (createObject w meta dir)"
  by (auto simp: always_def createObject_def Let_def split: prod.splits sum.splits intro!: extendsI [of _ "[WriteFile (status_path dir)]"])

lemma storeAdd_extends: "always (extends A) (storeAdd c)"
  by (auto simp: always_def storeAdd_def Let_def split: prod.splits intro!: extends_same)

lemma deleteCheckpoint_extends: "always (extends checkpointCalls) (deleteCheckpoint w c)"
  unfolding always_def deleteCheckpoint_def Let_def
  by (fastforce simp: checkpointCalls_def split: prod.splits if_splits
      intro: extendsI [of _ "[RenameFile p]" for p] extendsI [of _ "[RemoveFile q, RenameFile p]" for p q])

lemma localResolve_extends: "always (extends A) (localResolve w r)"
  by (auto simp: always_def localResolve_def Let_def intro!: extends_same)

lemma localResolve_cong:
  assumes "imageStore t = imageStore s"
  shows "fst (localResolve w r t) = fst (localResolve w r s)"
  unfolding localResolve_def Let_def assms by simp

lemmas create_extends = generateID_extends storeAdd_extends createObject_extends localResolve_extends
  extends_weaken [OF volumeMounts_extends] extends_weaken [OF containerMounts_extends]
  extends_weaken [OF toContainerdImage_extends]

lemmas create_ignore = always_ignore [OF extends_weaken [OF deleteCheckpoint_extends]] run_ignore

lemma generateSpec_extends:
  "GenContainerSpec i j ms rt \<in> A \<Longrightarrow> always (extends A) (\<lambda>s. (f s, logCall (GenContainerSpec i j ms rt) s))"
  by (auto simp: always_def)

lemma createStored_any: "always (extends UNIV) (createStored w meta dir)"
  unfolding createStored_def by (intro rel_intros create_extends create_ignore) simp_all

lemma createCtr_any: "always (extends UNIV) (createCtr w ls meta dir)"
  unfolding createCtr_def Let_def by (intro rel_intros createStored_any create_ignore) simp_all

lemma createIO_any: "always (extends UNIV) (createIO w cfg se cx meta dir)"
  unfolding createIO_def Let_def by (intro rel_intros createCtr_any create_ignore) simp_all

lemma createSpec_any: "always (extends UNIV) (createSpec w cfg se cx dir)"
  unfolding createSpec_def Let_def
  by (intro rel_intros create_extends createIO_any create_ignore generateSpec_extends extends_logCall) simp_all

lemma createVolatileDir_any: "always (extends UNIV) (createVolatileDir w cfg se cx dir)"
  unfolding createVolatileDir_def Let_def by (intro rel_intros createSpec_any create_ignore) simp_all

subsection \<open>Every resource is released on failure\<close>

lemma createCtr_clean:
  assumes "\<And>i l x. CtrNew i l x \<notin> A" "\<And>i. CtrDelete i \<notin> A" "clean w A R (createStored w meta dir)"
  shows "clean w A R (createCtr w ls meta dir)"
  unfolding createCtr_def Let_def by (intro clean_intros rel_intros create_ignore) (simp_all add: assms)

lemma createIO_clean:
  assumes "\<And>i. NewIO i \<notin> A" "\<And>i. IOClose i \<notin> A" "\<And>i. GenRuntimeOptions i \<notin> A" "\<And>ls. clean w A R (createCtr w ls meta dir)"
  shows "clean w A R (createIO w cfg se cx meta dir)"
  unfolding createIO_def Let_def by (intro clean_intros rel_intros create_ignore) (simp_all add: assms)

lemma createSpec_clean:
  assumes "mountCalls \<subseteq> - A" "\<And>i j m r. GenContainerSpec i j m r \<notin> A" "\<And>l. ReleaseLabel l \<notin> A"
    "\<And>meta. m_ID meta = cx_id cx \<Longrightarrow> clean w A R (createIO w cfg se cx meta dir)"
  shows "clean w A R (createSpec w cfg se cx dir)"
  unfolding createSpec_def Let_def
  by (intro clean_intros rel_intros create_extends generateSpec_extends extends_logCall) (simp_all add: assms createMeta_def)

lemma createVolatileDir_clean:
  assumes "MkdirAll (getVolatileContainerRootDir cfg (cx_id cx)) \<notin> A" "\<And>d. RemoveAll d \<notin> A" "clean w A R (createSpec w cfg se cx dir)"
  shows "clean w A R (createVolatileDir w cfg se cx dir)"
  unfolding createVolatileDir_def Let_def by (intro clean_intros rel_intros create_ignore) (simp_all add: assms)

lemma createRootDir_clean:
  assumes "MkdirAll (getContainerRootDir cfg (cx_id cx)) \<notin> A" "\<And>d. RemoveAll d \<notin> A"
    "clean w A R (createVolatileDir w cfg se cx (getContainerRootDir cfg (cx_id cx)))"
  shows "clean w A R (createRootDir w cfg se cx)"
  unfolding createRootDir_def Let_def by (intro clean_intros rel_intros create_ignore) (simp_all add: assms)

lemma createBody_clean:
  assumes "imageCalls \<subseteq> - A" "CtrInfo j \<notin> A" "\<And>img. clean w A R (createRootDir w cfg se (mk img))"
  shows "clean w A R (createBody w cfg se mk n j)"
  unfolding createBody_def by (intro clean_intros rel_intros create_extends) (simp_all add: assms)

text \<open>The layers that acquire.\<close>

lemma createObject_Inr:
  assumes "createObject w meta dir s = (Inr c, t)"
  shows "w_err w (trace s) (WriteFile (status_path dir)) = None"
    "c = \<lparr>c_meta = meta, c_ref = nextRef s, c_Container = Some (m_ID meta), c_IO = Some (m_ID meta)\<rparr>"
    "t = (logCall (WriteFile (status_path dir)) s)\<lparr>
       svDisk := (svDisk s)(status_path dir \<mapsto> encode (zero_status\<lparr>st_CreatedAt := w_now w (trace s)\<rparr>)), nextRef := Suc (nextRef s),
       cells := (cells s)(nextRef s := \<lparr>cl_status = \<lparr>ss_path = status_path dir,
          ss_status = zero_status\<lparr>st_CreatedAt := w_now w (trace s)\<rparr>\<rparr>, cl_stopped = False\<rparr>)\<rparr>"
proof -
  have "State (zero_status\<lparr>st_CreatedAt := x\<rparr>) \<noteq> EXITED" for x by (simp add: State_def zero_status_def)
  with assms show "w_err w (trace s) (WriteFile (status_path dir)) = None"
    "c = \<lparr>c_meta = meta, c_ref = nextRef s, c_Container = Some (m_ID meta), c_IO = Some (m_ID meta)\<rparr>"
    "t = (logCall (WriteFile (status_path dir)) s)\<lparr>
       svDisk := (svDisk s)(status_path dir \<mapsto> encode (zero_status\<lparr>st_CreatedAt := w_now w (trace s)\<rparr>)), nextRef := Suc (nextRef s),
       cells := (cells s)(nextRef s := \<lparr>cl_status = \<lparr>ss_path = status_path dir,
          ss_status = zero_status\<lparr>st_CreatedAt := w_now w (trace s)\<rparr>\<rparr>, cl_stopped = False\<rparr>)\<rparr>"
    by (auto simp: createObject_def NewContainer_def StoreStatus_def StorageGet_def NewStopCh_def Let_def
        split: option.splits prod.splits sum.splits)
qed

lemma createObject_Inl:
  "createObject w meta dir s = (Inl e, t) \<Longrightarrow>
     w_err w (trace s) (WriteFile (status_path dir)) \<noteq> None \<and> t = logCall (WriteFile (status_path dir)) s"
  by (auto simp: createObject_def NewContainer_def StoreStatus_def logCall_def Let_def split: option.splits prod.splits sum.splits)

lemma createStored_acquire: "clean w {WriteFile (status_path dir)} {RenameFile (status_path dir)} (createStored w meta dir)"
  unfolding clean_def
proof (intro allI impI)
  let ?p = "status_path dir"
  fix s e t assume "createStored w meta dir s = (Inl e, t)"
  then consider (obj) e' where "createObject w meta dir s = (Inl e', t)"
    | (add) c u u' e' where "createObject w meta dir s = (Inr c, u)" "storeAdd c u = (Inl e', u')" "t = ignoreA (deleteCheckpoint w c) u'"
    by (auto simp: createStored_def act_simps)
  then show "\<exists>new. trace t = new @ trace s \<and> \<not> leaks w {WriteFile ?p} {RenameFile ?p} new (trace s)"
  proof cases
    case obj
    then show ?thesis using createObject_Inl [OF obj]
      by (intro exI [of _ "[WriteFile ?p]"]) (auto simp: leaks_def Cons_eq_append_conv)
  next
    case (add c u u' e')
    note o = createObject_Inr [OF add(1)]
    have u': "trace u' = WriteFile ?p # trace s" "cells u' = cells u"
      using add(2) o(3) by (auto simp: storeAdd_def Let_def split: prod.splits)
    then have "ss_path (cl_status (cells u' (c_ref c))) = ?p" using o by simp
    then obtain rest where "trace t = rest @ RenameFile ?p # WriteFile ?p # trace s" "WriteFile ?p \<notin> set rest"
      using add(3) u'(1)
      by (auto simp: deleteCheckpoint_def ignoreA_def Let_def split: prod.splits if_splits)
    then show ?thesis by (intro exI [of _ "rest @ RenameFile ?p # [WriteFile ?p]"])
        (auto simp: leaks_def append_eq_append_conv2 Cons_eq_append_conv append_eq_Cons_conv)
  qed
qed

lemma createCtr_acquire: "clean w {c. \<exists>l x. c = CtrNew (m_ID meta) l x} {CtrDelete (m_ID meta)} (createCtr w ls meta dir)"
  unfolding createCtr_def Let_def by (intro clean_acquire_ext releasing_onError release_ext createStored_any) auto

lemma createIO_acquire: "clean w {NewIO (m_ID meta)} {IOClose (m_ID meta)} (createIO w cfg se cx meta dir)"
  unfolding createIO_def Let_def
  by (intro clean_acquire_ext releasing_onError release_ext rel_intros createCtr_any) auto

lemma createVolatileDir_acquire:
  assumes "getVolatileContainerRootDir cfg (cx_id cx) = d"
  shows "clean w {MkdirAll d} {RemoveAll d} (createVolatileDir w cfg se cx dir)"
  unfolding createVolatileDir_def Let_def assms by (intro clean_acquire_ext releasing_onError createSpec_any release_osRemoveAll)

lemma createRootDir_acquire:
  assumes "d \<in> {getContainerRootDir cfg (cx_id cx), getVolatileContainerRootDir cfg (cx_id cx)}"
  shows "clean w {MkdirAll d} {RemoveAll d} (createRootDir w cfg se cx)"
proof (cases "d = getContainerRootDir cfg (cx_id cx)")
  case True
  show ?thesis unfolding createRootDir_def Let_def True
    by (intro clean_acquire_ext releasing_onError createVolatileDir_any release_osRemoveAll)
next
  case False
  with assms show ?thesis by (intro createRootDir_clean createVolatileDir_acquire) auto
qed

text \<open>The resources of a container, as pairs of acquiring and releasing calls.\<close>

definition containerResources :: "criConfig \<Rightarrow> string \<Rightarrow> (extcall set \<times> extcall set) set" where
  "containerResources cfg i =
     (let root = getContainerRootDir cfg i; volatile = getVolatileContainerRootDir cfg i in
      {({MkdirAll root}, {RemoveAll root}), ({MkdirAll volatile}, {RemoveAll volatile}), ({NewIO i}, {IOClose i}),
       ({c. \<exists>l x. c = CtrNew i l x}, {CtrDelete i}),
       ({WriteFile (status_path root)}, {RenameFile (status_path root)})})"

lemma createBody_clean_all:
  assumes "(A, R) \<in> containerResources cfg i" "\<And>img. cx_id (mk img) = i"
  shows "clean w A R (createBody w cfg se mk n j)"
proof -
  let ?root = "getContainerRootDir cfg i" and ?vol = "getVolatileContainerRootDir cfg i"
  note id = assms(2)
  have dis: "imageCalls \<subseteq> - {NewIO i}" "imageCalls \<subseteq> - {WriteFile p}" "mountCalls \<subseteq> - {NewIO i}" "mountCalls \<subseteq> - {WriteFile p}"
    "mountCalls \<subseteq> - {c. \<exists>l x. c = CtrNew i l x}" for p
    by (auto simp: imageCalls_def mountCalls_def)
  note chain = createBody_clean createRootDir_clean createVolatileDir_clean createSpec_clean
  have 1: "clean w {MkdirAll d} {RemoveAll d} (createBody w cfg se mk n j)" if "d \<in> {?root, ?vol}" for d
    using that by (intro createBody_clean imageCalls_disjoint createRootDir_acquire) (auto simp: id)
  have 2: "clean w {NewIO i} {IOClose i} (createBody w cfg se mk n j)"
    by (intro chain dis) (use createIO_acquire in \<open>auto simp: id\<close>)
  have 3: "clean w {c. \<exists>l x. c = CtrNew i l x} {CtrDelete i} (createBody w cfg se mk n j)"
    by (intro chain createIO_clean dis imageCalls_disjoint) (use createCtr_acquire in \<open>auto simp: id\<close>)
  have 4: "clean w {WriteFile (status_path ?root)} {RenameFile (status_path ?root)} (createBody w cfg se mk n j)"
    by (intro chain createIO_clean createCtr_clean dis) (simp_all add: id createStored_acquire)
  note r = 1 [of ?root, simplified] 1 [of ?vol, simplified] 2 3 4
  show ?thesis using assms(1) unfolding containerResources_def Let_def by (elim insertE emptyE) (simp_all only: prod.inject r)
qed

subsection \<open>The label is released on failure\<close>

text \<open>
  \<open>labelRel\<close>: if the generation of a spec with some mounts and runtime was called and gave a spec, then its
  label, as the spec finally has it, was released.
\<close>

definition labelRel :: "world \<Rightarrow> criConfig \<Rightarrow> specEnv \<Rightarrow> (podSandboxConfig, cniResult) sstore \<Rightarrow> createCtx \<Rightarrow> svc \<Rightarrow> svc \<Rightarrow> bool" where
  "labelRel w cfg se store cx s t \<longleftrightarrow> (sandboxStore s = store \<longrightarrow> sandboxStore t = store \<and> (\<exists>new. trace t = new @ trace s \<and>
     (\<forall>ms rt spec. GenContainerSpec (cx_id cx) (sb_ID (cx_sandbox cx)) ms rt \<in> set new \<and> generateSpec w cfg se store cx ms rt = Inr spec \<longrightarrow>
        ReleaseLabel (runLabel cx spec) \<in> set new)))"

interpretation lrel: state_rel "labelRel w cfg se store cx"
proof
  show "labelRel w cfg se store cx s s" for s by (simp add: labelRel_def)
  show "labelRel w cfg se store cx s u" if "labelRel w cfg se store cx s t" "labelRel w cfg se store cx t u" for s t u
    unfolding labelRel_def
  proof (intro impI)
    assume st: "sandboxStore s = store"
    with that(1) obtain xs where xs: "sandboxStore t = store" "trace t = xs @ trace s" "\<forall>ms rt spec.
        GenContainerSpec (cx_id cx) (sb_ID (cx_sandbox cx)) ms rt \<in> set xs \<and> generateSpec w cfg se store cx ms rt = Inr spec \<longrightarrow>
        ReleaseLabel (runLabel cx spec) \<in> set xs" unfolding labelRel_def by blast
    with that(2) obtain ys where ys: "sandboxStore u = store" "trace u = ys @ trace t" "\<forall>ms rt spec.
        GenContainerSpec (cx_id cx) (sb_ID (cx_sandbox cx)) ms rt \<in> set ys \<and> generateSpec w cfg se store cx ms rt = Inr spec \<longrightarrow>
        ReleaseLabel (runLabel cx spec) \<in> set ys" unfolding labelRel_def by blast
    show "sandboxStore u = store \<and> (\<exists>new. trace u = new @ trace s \<and> (\<forall>ms rt spec.
        GenContainerSpec (cx_id cx) (sb_ID (cx_sandbox cx)) ms rt \<in> set new \<and> generateSpec w cfg se store cx ms rt = Inr spec \<longrightarrow>
        ReleaseLabel (runLabel cx spec) \<in> set new))"
      using xs ys by (intro conjI exI [of _ "ys @ xs"]) auto
  qed
qed

text \<open>What creates a container besides the spec keeps the sandboxes and generates no spec.\<close>

definition quietRel :: "svc \<Rightarrow> svc \<Rightarrow> bool" where
  "quietRel s t \<longleftrightarrow> sandboxStore t = sandboxStore s \<and> extends (- {c. \<exists>i j ms rt. c = GenContainerSpec i j ms rt}) s t"

interpretation quiet: state_rel quietRel
  by unfold_locales (auto simp: quietRel_def tr.rel_refl intro: tr.rel_trans)

lemma quietRel_label: "quietRel s t \<Longrightarrow> labelRel w cfg se store cx s t"
  unfolding quietRel_def labelRel_def extends_def by blast

lemma quietRel_logCall: "\<forall>i j ms rt. c \<noteq> GenContainerSpec i j ms rt \<Longrightarrow> quietRel s (logCall c s)"
  by (auto simp: quietRel_def)

lemma quietRel_ext [rel_intros]: "\<forall>i j ms rt. c \<noteq> GenContainerSpec i j ms rt \<Longrightarrow> always quietRel (ext w c)"
  by (auto simp: always_def ext_def intro: quietRel_logCall)

lemma quietRel_intros:
  "always quietRel (volumeMounts w dir ms icf)" "always quietRel (containerMounts w cfg i config)"
  "always quietRel (createObject w meta dir)" "always quietRel (storeAdd c)" "always quietRel (deleteCheckpoint w c)"
  "always quietRel (osRemoveAll w d)" "always quietRel (localResolve w r)" "always quietRel (toContainerdImage w img)"
proof -
  let ?G = "- {c. \<exists>i j ms rt. c = GenContainerSpec i j ms rt}"
  have q: "always quietRel m" if "always (extends A) m" "A \<subseteq> ?G" "\<And>s r t. m s = (r, t) \<Longrightarrow> sandboxStore t = sandboxStore s"
    for m :: "'z handler" and A
    using that by (fastforce simp: always_def quietRel_def intro: extends_mono)
  have v: "sandboxStore t = sandboxStore s" if "volumeLoop w dir ms dsts s = (r, t)" for dsts s r t
    using that by (induction dsts arbitrary: s r t)
       (fastforce simp: bindA_def generateID_def split: if_splits prod.splits sum.splits)+
  show "always quietRel (volumeMounts w dir ms icf)"
    by (rule q [OF volumeMounts_extends]) (auto simp: mountCalls_def volumeMounts_def dest: v split: if_splits)
  show "always quietRel (containerMounts w cfg i config)"
    by (rule q [OF containerMounts_extends])
       (auto simp: mountCalls_def containerMounts_def Let_def bindA_def ext_def split: if_splits prod.splits sum.splits option.splits)
  show "always quietRel (createObject w meta dir)"
    by (rule q [OF createObject_extends [of dir "{WriteFile (status_path dir)}"]])
       (auto simp: createObject_def Let_def split: prod.splits sum.splits)
  show "always quietRel (storeAdd c)"
    by (rule q [OF storeAdd_extends [of "{}"]]) (auto simp: storeAdd_def Let_def split: prod.splits)
  show "always quietRel (deleteCheckpoint w c)"
    by (rule q [OF deleteCheckpoint_extends]) (auto simp: checkpointCalls_def deleteCheckpoint_def Let_def split: prod.splits)
  show "always quietRel (osRemoveAll w d)"
    by (rule q [OF osRemoveAll_extends [of d "{RemoveAll d}"]]) (auto simp: osRemoveAll_def thenA_def bindA_def ext_def split: option.splits)
  show "always quietRel (localResolve w r)"
    by (rule q [OF localResolve_extends [of "{}"]]) (auto simp: localResolve_def Let_def)
  show "always quietRel (toContainerdImage w img)"
    by (rule q [OF toContainerdImage_extends]) (auto simp: imageCalls_def toContainerdImage_def split: list.splits)
qed

lemmas quiet_ignore = quietRel_intros [THEN always_ignore] quietRel_ext [THEN always_ignore]

lemma createIO_quiet: "always quietRel (createIO w cfg se cx meta dir)"
  unfolding createIO_def createCtr_def createStored_def Let_def
  by (intro rel_intros quietRel_intros quiet_ignore) simp_all

lemmas quiet_label = quietRel_intros [THEN always_mono, OF quietRel_label] quietRel_ext [THEN always_mono, OF _ quietRel_label]

lemma failing_label:
  "always quietRel m \<Longrightarrow> (\<And>x. failing (labelRel w cfg se store cx) (f x)) \<Longrightarrow> failing (labelRel w cfg se store cx) (bindA m f)"
  by (rule lrel.failing_bind [OF always_mono [OF _ quietRel_label]])

lemma createSpec_label: "failing (labelRel w cfg se store cx) (createSpec w cfg se cx dir)"
proof -
  let ?i = "cx_id cx" and ?j = "sb_ID (cx_sandbox cx)"
  let ?gen = "\<lambda>ms rt s. (generateSpec w cfg se (sandboxStore s) cx ms rt, logCall (GenContainerSpec ?i ?j ms rt) s)"
  let ?k = "\<lambda>spec. onError (createIO w cfg se cx (createMeta cx (specLabel spec)) dir) (\<lambda>_. logCall (ReleaseLabel (runLabel cx spec)))"
  have g: "failing (labelRel w cfg se store cx) (bindA (wrapA (?gen ms rt) f args) ?k)" for ms rt f args
    unfolding failing_def labelRel_def
  proof (intro allI impI)
    fix s e t assume run: "bindA (wrapA (?gen ms rt) f args) ?k s = (Inl e, t)" and st: "sandboxStore s = store"
    let ?G = "GenContainerSpec ?i ?j ms rt" let ?R = "\<lambda>spec. ReleaseLabel (runLabel cx spec)"
    from run consider (gen) e' where "generateSpec w cfg se store cx ms rt = Inl e'" "t = logCall ?G s"
      | (rest) spec u where "generateSpec w cfg se store cx ms rt = Inr spec"
          "createIO w cfg se cx (createMeta cx (specLabel spec)) dir (logCall ?G s) = (Inl e, u)" "t = logCall (?R spec) u"
      by (auto simp: act_simps st)
    then show "sandboxStore t = store \<and> (\<exists>new. trace t = new @ trace s \<and> (\<forall>ms rt spec.
        GenContainerSpec ?i ?j ms rt \<in> set new \<and> generateSpec w cfg se store cx ms rt = Inr spec \<longrightarrow> ?R spec \<in> set new))"
    proof cases
      case gen
      then show ?thesis using st by (intro conjI exI [of _ "[?G]"]) auto
    next
      case (rest spec u)
      from alwaysD [OF createIO_quiet rest(2)] obtain new where
        n: "sandboxStore u = store" "trace u = new @ ?G # trace s" "set new \<subseteq> - {c. \<exists>i j ms rt. c = GenContainerSpec i j ms rt}"
        using st by (auto simp: quietRel_def extends_def)
      show ?thesis using n rest by (intro conjI exI [of _ "?R spec # new @ [?G]"]) auto
    qed
  qed
  show ?thesis unfolding createSpec_def Let_def
    by (rule failing_label, (intro rel_intros quietRel_intros) [1], rule failing_label, rule quietRel_intros,
        rule failing_label, (intro rel_intros) [1], rule g)
qed

lemma createBody_label:
  assumes "createBody w cfg se mk n j s = (Inl e, t)" "fst (localResolve w n s) = Inr img"
  shows "labelRel w cfg se (sandboxStore s) (mk img) s t"
proof -
  let ?rest = "bindA (wrapA (toContainerdImage w img) ''failed to get image from containerd %q'' [im_ID img]) (\<lambda>_.
     thenA (wrapA (ext w (CtrInfo j)) ''failed to get sandbox %q info'' [j]) (createRootDir w cfg se (mk img)))"
  have "failing (labelRel w cfg se (sandboxStore s) (mk img)) (createRootDir w cfg se (mk img))"
    unfolding createRootDir_def createVolatileDir_def Let_def
    by (intro rel_intros quiet_label quietRel_label quiet_ignore createSpec_label) simp_all
  then have "failing (labelRel w cfg se (sandboxStore s) (mk img)) ?rest"
    by (intro rel_intros quiet_label) simp_all
  moreover have "localResolve w n s = (Inr img, s)" using assms(2) by (simp add: localResolve_def Let_def)
  then have "?rest s = (Inl e, t)" using assms(1) by (simp add: createBody_def bindA_def wrapA_def)
  ultimately show ?thesis by (rule failingD)
qed

subsection \<open>The stores are left alone on failure\<close>

text \<open>
  \<open>ctrSame cfg i s t\<close>: the stores, the name indexes, the labels, every cell that was allocated, and every checkpoint outside
  the directories of \<open>i\<close> are the same in both states.
\<close>

definition outside :: "criConfig \<Rightarrow> string \<Rightarrow> string \<Rightarrow> bool" where
  "outside cfg i p \<longleftrightarrow> \<not> prefix (getContainerRootDir cfg i) p \<and> \<not> prefix (getVolatileContainerRootDir cfg i) p"

definition ctrSame :: "criConfig \<Rightarrow> string \<Rightarrow> svc \<Rightarrow> svc \<Rightarrow> bool" where
  "ctrSame cfg i s t \<longleftrightarrow> sandboxStore t = sandboxStore s \<and> containerStore t = containerStore s \<and> labelStore t = labelStore s \<and>
     containerNameIndex t = containerNameIndex s \<and> sandboxNameIndex t = sandboxNameIndex s \<and> sbCells t = sbCells s \<and>
     imageStore t = imageStore s \<and> sv_config t = sv_config s \<and> netPlugin t = netPlugin s \<and> nextRef s \<le> nextRef t \<and>
     (\<forall>r < nextRef s. cells t r = cells s r) \<and> (\<forall>p. outside cfg i p \<longrightarrow> svDisk t p = svDisk s p)"

definition ctrPre :: "string \<Rightarrow> svc \<Rightarrow> bool" where
  "ctrPre i s \<longleftrightarrow> cs_inv (containerStore s) \<and> cs_containers (containerStore s) i = None \<and> i \<noteq> [] \<and> CHR '' '' \<notin> set i"

definition ctrRel :: "criConfig \<Rightarrow> string \<Rightarrow> svc \<Rightarrow> svc \<Rightarrow> bool" where
  "ctrRel cfg i s t \<longleftrightarrow> (ctrPre i s \<longrightarrow> ctrSame cfg i s t)"

interpretation crel: state_rel "ctrRel cfg i"
proof
  show "ctrRel cfg i s s" for s by (simp add: ctrRel_def ctrSame_def)
  show "ctrRel cfg i s u" if "ctrRel cfg i s t" "ctrRel cfg i t u" for s t u
    using that by (auto simp: ctrRel_def ctrSame_def ctrPre_def)
qed

lemma ctrRel_logCall: "ctrRel cfg i s (logCall c s)" by (simp add: ctrRel_def ctrSame_def)

lemma ctrRel_ext [rel_intros]: "always (ctrRel cfg i) (ext w c)"
  by (auto simp: always_def ext_def ctrRel_logCall)

lemma ctrRel_mounts:
  "always (ctrRel cfg i) (volumeMounts w dir ms icf)" "always (ctrRel cfg i) (containerMounts w cfg' j config)"
proof -
  have "always (ctrRel cfg i) (volumeLoop w dir ms dsts)" for dsts
  proof (induction dsts)
    case Nil
    show ?case unfolding volumeLoop.simps by (intro rel_intros)
  next
    case (Cons dst dsts)
    have "always (ctrRel cfg i) (generateID w)" by (simp add: always_def generateID_def ctrRel_logCall)
    with Cons show ?case unfolding volumeLoop.simps by (intro rel_intros)
  qed
  then show "always (ctrRel cfg i) (volumeMounts w dir ms icf)" unfolding volumeMounts_def by (intro rel_intros)
  have "always (ctrRel cfg i) (\<lambda>s. case ext w (StatFile p) s of (Inl _, t) \<Rightarrow> (Inr ms, t) | (Inr _, t) \<Rightarrow> (Inr ms', t))"
    for p and ms ms' :: "criMount list"
    by (intro crel.always_case crel.always_ret ctrRel_ext)
  then show "always (ctrRel cfg i) (containerMounts w cfg' j config)" unfolding containerMounts_def Let_def by (intro rel_intros)
qed

lemma ctrRel_removeAll:
  assumes "d \<in> {getContainerRootDir cfg i, getVolatileContainerRootDir cfg i}"
  shows "always (ctrRel cfg i) (osRemoveAll w d)"
proof -
  have "\<not> prefix (d @ ''/'') p" if "outside cfg i p" for p
    using that assms append_prefixD [of d "''/''" p] by (auto simp: outside_def)
  then show ?thesis unfolding osRemoveAll_def
    by (intro rel_intros) (auto simp: ctrRel_def ctrSame_def)
qed

lemma ctrRel_image: "always (ctrRel cfg i) (localResolve w r)" "always (ctrRel cfg i) (toContainerdImage w img)"
  by (auto simp: always_def localResolve_def toContainerdImage_def Let_def crel.rel_refl ctrRel_logCall split: list.splits)

lemma storeAdd_Inl:
  assumes "storeAdd c s = (Inl e, t)" "ctrPre (c_ID c) s"
  shows "t = s"
proof -
  from assms(1) obtain st L where add: "Store_Add c (containerStore s) (labelStore s) = (Inl e, st, L)"
    and t: "t = s\<lparr>containerStore := st, labelStore := L\<rparr>" by (auto simp: storeAdd_def Let_def split: prod.splits)
  note pre = assms(2) [unfolded ctrPre_def]
  have st: "st = containerStore s" using cstore.add_Inl [OF _ add] pre by blast
  have "fst (Label_Reserve (labelStore s) (c_ProcessLabel c)) \<noteq> Inr ()"
    using cstore.add_ok_iff [of "containerStore s" c "labelStore s"] add pre by auto
  then have "L = labelStore s"
    using add pre by (auto simp: Store_Add_def Label_Reserve_def Let_def split: sum.splits prod.splits if_splits)
  with st t show ?thesis by simp
qed

lemma del_path_status: "del_path (status_path dir) = dir @ ''.del-status''"
  by (simp add: del_path_def status_path_def)

lemma deleteCheckpoint_frame:
  assumes "ss_path (cl_status (cells s (c_ref c))) = status_path dir"
  shows "\<exists>d tr. ignoreA (deleteCheckpoint w c) s = s\<lparr>svDisk := d, trace := tr\<rparr> \<and> (\<forall>p. \<not> prefix dir p \<longrightarrow> d p = svDisk s p)"
proof -
  have p: "prefix dir (status_path dir)" "prefix dir (dir @ ''.del-status'')" by (simp_all add: status_path_def)
  obtain r d where d: "Container_Delete (w_err w (trace s) (RenameFile (status_path dir)))
      (w_err w (RenameFile (status_path dir) # trace s) (RemoveFile (dir @ ''.del-status''))) (cells s (c_ref c)) (svDisk s) = (r, d)"
    by fastforce
  have "\<forall>p. \<not> prefix dir p \<longrightarrow> d p = svDisk s p"
    using d p assms by (auto simp: Container_Delete_def StorageDelete_def del_path_status Let_def split: option.splits if_splits)
  then show ?thesis using d assms
    by (intro exI [of _ d] exI conjI) (auto simp: ignoreA_def deleteCheckpoint_def del_path_status Let_def)
qed

lemma createStored_frame:
  assumes "m_ID meta = i" "dir = getContainerRootDir cfg i"
  shows "failing (ctrRel cfg i) (createStored w meta dir)"
  unfolding failing_def ctrRel_def
proof (intro allI impI)
  fix s e t assume run: "createStored w meta dir s = (Inl e, t)" and pre: "ctrPre i s"
  from run consider (obj) e' where "createObject w meta dir s = (Inl e', t)"
    | (add) c u u' e' where "createObject w meta dir s = (Inr c, u)" "storeAdd c u = (Inl e', u')" "t = ignoreA (deleteCheckpoint w c) u'"
    by (auto simp: createStored_def act_simps)
  then show "ctrSame cfg i s t"
  proof cases
    case obj
    then show ?thesis by (auto dest!: createObject_Inl simp: ctrSame_def)
  next
    case (add c u u' e')
    note o = createObject_Inr [OF add(1)]
    have "ctrPre (c_ID c) u" using pre assms(1) o by (simp add: ctrPre_def c_ID_def)
    then have "u' = u" using storeAdd_Inl [OF add(2)] by simp
    moreover have "ss_path (cl_status (cells u (c_ref c))) = status_path dir" using o by simp
    ultimately obtain d tr where t: "t = u\<lparr>svDisk := d, trace := tr\<rparr>" and d: "\<forall>p. \<not> prefix dir p \<longrightarrow> d p = svDisk u p"
      using deleteCheckpoint_frame add(3) by blast
    have "svDisk u p = svDisk s p" if "\<not> prefix dir p" for p using o(3) that by (auto simp: status_path_def)
    with t d o(3) assms(2) show ?thesis by (simp add: ctrSame_def outside_def)
  qed
qed

lemma createBody_frame:
  assumes "\<And>img. cx_id (mk img) = i"
  shows "failing (ctrRel cfg i) (createBody w cfg se mk n j)"
proof -
  have st: "failing (ctrRel cfg i) (createStored w (createMeta (mk img) l) (getContainerRootDir cfg i))" for img l
    by (rule createStored_frame) (simp_all add: createMeta_def assms)
  have g: "always (ctrRel cfg i) (\<lambda>s. (f s, logCall c s))" for f :: "svc \<Rightarrow> ociSpec result" and c
    by (simp add: always_def ctrRel_logCall)
  show ?thesis
    unfolding createBody_def createRootDir_def createVolatileDir_def createSpec_def createIO_def createCtr_def Let_def assms
    by (intro rel_intros ctrRel_image ctrRel_mounts g st ctrRel_logCall always_ignore [OF ctrRel_removeAll] always_ignore [OF ctrRel_ext])
       simp_all
qed

lemma requestCtx_simps [simp]:
  "cx_id (requestCtx config sbc sb pid i md name img) = i" "cx_sandbox (requestCtx config sbc sb pid i md name img) = sb"
  "cx_config (requestCtx config sbc sb pid i md name img) = config"
  by (simp_all add: requestCtx_def)

text \<open>The label that a request gets, if its spec is generated, and that it is released.\<close>

definition labelsReleased :: "world \<Rightarrow> specEnv \<Rightarrow> containerConfig \<Rightarrow> podSandboxConfig \<Rightarrow> sbx \<Rightarrow> 32 word \<Rightarrow> string \<Rightarrow> svc \<Rightarrow> extcall list \<Rightarrow> bool" where
  "labelsReleased w se config sbc sb pid i s new \<longleftrightarrow> (\<forall>md smd img ms rt spec.
     cc_Metadata config = Some md \<and> pc_Metadata sbc = Some smd \<and> fst (localResolve w (cc_Image config) s) = Inr img \<and>
     GenContainerSpec i (sb_ID sb) ms rt \<in> set new \<and>
     generateSpec w (sv_config s) se (sandboxStore s) (requestCtx config sbc sb pid i md (makeContainerName md smd) img) ms rt = Inr spec \<longrightarrow>
     ReleaseLabel (if cc_Privileged config then [] else specLabel spec) \<in> set new)"

lemma createNamed_fails:
  assumes "createNamed w se config sbc sb pid i s = (Inl e, t)"
  obtains (early) "t = s"
    | (body) md smd idx u where "cc_Metadata config = Some md" "pc_Metadata sbc = Some smd"
        "Reserve (containerNameIndex s) (makeContainerName md smd) i = (Inr (), idx)"
        "createBody w (sv_config s) se (requestCtx config sbc sb pid i md (makeContainerName md smd)) (cc_Image config) (sb_ID sb)
           (s\<lparr>containerNameIndex := idx\<rparr>) = (Inl e, u)"
        "t = u\<lparr>containerNameIndex := ReleaseByName (containerNameIndex u) (makeContainerName md smd)\<rparr>"
  using assms
  by (auto simp: createNamed_def Let_def thenA_Inl wrapA_Inl wrapA_Inr onError_Inl bindA_Inl reserveContainerName_def
      split: option.splits prod.splits dest!: Reserve_Inl)

lemma createNamed_rollback:
  assumes run: "createNamed w se config sbc sb pid i s = (Inl e, t)" and reg: "reg_inv (containerNameIndex s)"
    and pre: "ctrPre i s" and key: "keyToName (containerNameIndex s) i = None"
  shows "ctrSame (sv_config s) i s t \<and> (\<exists>new. trace t = new @ trace s \<and>
    (\<forall>(A, R) \<in> containerResources (sv_config s) i. \<not> leaks w A R new (trace s)) \<and> labelsReleased w se config sbc sb pid i s new)"
  using run
proof (cases rule: createNamed_fails)
  case early
  then show ?thesis by (auto simp: ctrSame_def leaks_def labelsReleased_def intro!: exI [of _ "[]"])
next
  case (body md smd idx u)
  let ?n = "makeContainerName md smd" and ?s = "s\<lparr>containerNameIndex := idx\<rparr>" and ?cfg = "sv_config s"
  let ?mk = "requestCtx config sbc sb pid i md ?n"
  have "ctrPre i ?s" using pre by (simp add: ctrPre_def)
  with failingD [OF createBody_frame body(4)] have f: "ctrSame ?cfg i ?s u" by (simp add: ctrRel_def)
  have "fst (Reserve (containerNameIndex s) ?n i) = Inr ()" using body(3) by simp
  with Reserve_ok_iff [OF reg] reg_name_key [OF reg] key have "nameToKey (containerNameIndex s) ?n = None" by auto
  then have "ReleaseByName idx ?n = containerNameIndex s" by (rule Release_undoes [OF reg body(3)])
  with f body(5) have same: "ctrSame ?cfg i s t" by (simp add: ctrSame_def)
  have c: "\<exists>new. trace t = new @ trace s \<and> \<not> leaks w A R new (trace s)" if "(A, R) \<in> containerResources ?cfg i" for A R
    using cleanD [OF createBody_clean_all [OF that] body(4)] body(5) by simp
  have "({NewIO i}, {IOClose i}) \<in> containerResources ?cfg i" by (simp add: containerResources_def Let_def)
  from c [OF this] obtain new where new: "trace t = new @ trace s" by blast
  then have "\<not> leaks w A R new (trace s)" if "(A, R) \<in> containerResources ?cfg i" for A R using c [OF that] by auto
  moreover have "labelsReleased w se config sbc sb pid i s new"
    unfolding labelsReleased_def
  proof (intro allI impI)
    fix md' smd' img ms rt spec
    assume h: "cc_Metadata config = Some md' \<and> pc_Metadata sbc = Some smd' \<and> fst (localResolve w (cc_Image config) s) = Inr img \<and>
      GenContainerSpec i (sb_ID sb) ms rt \<in> set new \<and>
      generateSpec w ?cfg se (sandboxStore s) (requestCtx config sbc sb pid i md' (makeContainerName md' smd') img) ms rt = Inr spec"
    then have "fst (localResolve w (cc_Image config) ?s) = Inr img" using localResolve_cong [of ?s s w "cc_Image config"] by simp
    from createBody_label [OF body(4) this] h body(1,2,5) new
    show "ReleaseLabel (if cc_Privileged config then [] else specLabel spec) \<in> set new"
      by (auto simp: labelRel_def runLabel_def)
  qed
  ultimately show ?thesis using same new by blast
qed

text \<open>
  A failed \<^verbatim>\<open>CreateContainer\<close> leaves nothing behind. The stores, name indexes, labels, the cells of all
  existing objects and the checkpoints of all other containers are as before, so that the name can be used again;
  whatever it had acquired -- the two root directories, the streams, the containerd container with its
  snapshot, the checkpoint -- was followed by the call that gives it back; and if a spec was generated, its SELinux label
  was released, except that for a privileged container the empty label is released in its place. This needs only that the generated id is not in use.
\<close>

lemma CreateContainer_rollback:
  assumes "CreateContainer w se r config sbc s = (Inl e, t)" "reg_inv (containerNameIndex s)"
    and "Sandbox_Get (sandboxStore s) r = Inr sb" "i = w_genID w (CtrTask (sb_ID sb) # trace s)"
    and "ctrPre i s" "keyToName (containerNameIndex s) i = None" "pid = w_pid w (CtrTask (sb_ID sb) # trace s) (sb_ID sb)"
  shows "ctrSame (sv_config s) i s t \<and> (\<exists>new. trace t = new @ trace s \<and>
    (\<forall>(A, R) \<in> containerResources (sv_config s) i. \<not> leaks w A R new (trace s)) \<and> labelsReleased w se config sbc sb pid i s new)"
proof -
  let ?T = "CtrTask (sb_ID sb)" and ?s = "logCall GenerateID (logCall (CtrTask (sb_ID sb)) s)"
  from assms(1,3) consider (task) "t = logCall ?T s" "w_err w (trace s) ?T \<noteq> None"
    | (named) "createNamed w se config sbc sb pid i ?s = (Inl e, t)"
    by (auto simp: CreateContainer_def act_simps generateID_def assms(4,7))
  then show ?thesis
  proof cases
    case task
    then show ?thesis
      by (intro conjI exI [of _ "[?T]"])
         (auto simp: ctrSame_def leaks_def labelsReleased_def containerResources_def Let_def Cons_eq_append_conv)
  next
    case named
    have "ctrPre i ?s" using assms(5) by (simp add: ctrPre_def)
    from createNamed_rollback [OF named _ this] assms(2,6) obtain new where
      r: "ctrSame (sv_config s) i ?s t" "trace t = new @ trace ?s" "labelsReleased w se config sbc sb pid i ?s new"
        "\<And>A R. (A, R) \<in> containerResources (sv_config s) i \<Longrightarrow> \<not> leaks w A R new (trace ?s)" by fastforce
    have "\<not> leaks w A R (new @ [GenerateID, ?T]) (trace s)" if "(A, R) \<in> containerResources (sv_config s) i" for A R
    proof
      assume "leaks w A R (new @ [GenerateID, ?T]) (trace s)"
      then show False
      proof (cases rule: leaksE)
        case right
        then show False using that by (auto simp: leaks_def containerResources_def Let_def Cons_eq_append_conv)
      qed (use r(4) [OF that] in simp)
    qed
    moreover have "labelsReleased w se config sbc sb pid i s (new @ [GenerateID, ?T])"
      using r(3) localResolve_cong [of ?s s w "cc_Image config"] unfolding labelsReleased_def by auto
    moreover have "ctrSame (sv_config s) i s t" using r(1) by (simp add: ctrSame_def)
    ultimately show ?thesis using r(2) by (intro conjI exI [of _ "new @ [GenerateID, ?T]"]) auto
  qed
qed

text \<open>A label of a privileged container is never given back by the handler.\<close>

lemma privileged_label_kept:
  assumes "CreateContainer w se r config sbc s = (x, t)" "cc_Privileged config"
  shows "\<exists>new. trace t = new @ trace s \<and> (\<forall>l. ReleaseLabel l \<in> set new \<longrightarrow> l = [])"
proof -
  let ?A = "{c. \<forall>l. c = ReleaseLabel l \<longrightarrow> l = []}"
  have s: "imageCalls \<subseteq> ?A" "mountCalls \<subseteq> ?A" "checkpointCalls \<subseteq> ?A"
    by (auto simp: imageCalls_def mountCalls_def checkpointCalls_def)
  have n: "always (extends ?A) (reserveContainerName name i)" for name i
    by (auto simp: always_def reserveContainerName_def Let_def intro!: extends_same split: prod.splits)
  have b: "always (extends ?A) (createBody w cfg se (requestCtx config sbc sb pid i md name) im j)" for cfg sb pid i md name im j
    unfolding createBody_def createRootDir_def createVolatileDir_def createSpec_def createIO_def createCtr_def createStored_def
      Let_def runLabel_def requestCtx_simps assms(2) if_True
    by (intro rel_intros create_extends create_ignore generateSpec_extends extends_logCall s) (simp_all add: assms(2))
  have "always (extends ?A) (createNamed w se config sbc sb pid i)" for sb pid i
    unfolding createNamed_def Let_def by (intro rel_intros option_handler n b extends_same) simp
  then have "always (extends ?A) (CreateContainer w se r config sbc)"
    unfolding CreateContainer_def by (intro rel_intros generateID_extends) simp_all
  from alwaysD [OF this assms(1)] show ?thesis by (auto simp: extends_def)
qed

subsection \<open>What a created container is\<close>

lemma mounts_quiet: "calls_only UNIV (volumeMounts w dir ms icf)" "calls_only UNIV (containerMounts w cfg j config)"
proof -
  have "calls_only UNIV (volumeLoop w dir ms dsts)" for dsts
  proof (induction dsts)
    case Nil
    show ?case unfolding volumeLoop.simps by (intro call_intros)
  next
    case (Cons dst dsts)
    have "calls_only UNIV (generateID w)" by (auto simp: calls_only_def generateID_def)
    with Cons show ?case unfolding volumeLoop.simps by (intro call_intros)
  qed
  then show "calls_only UNIV (volumeMounts w dir ms icf)" unfolding volumeMounts_def by (intro call_intros)
  have "calls_only UNIV (\<lambda>s. case ext w (StatFile p) s of (Inl _, t) \<Rightarrow> (Inr ms, t) | (Inr _, t) \<Rightarrow> (Inr ms', t))"
    for p and ms ms' :: "criMount list"
    by (auto simp: calls_only_def ext_def split: option.splits)
  then show "calls_only UNIV (containerMounts w cfg j config)" unfolding containerMounts_def Let_def by (intro call_intros)
qed

lemma createIO_Inr:
  assumes "createIO w cfg se cx meta dir s = (Inr (), t)"
  shows "\<exists>s1. onlyCalls UNIV s s1 \<and> createStored w meta dir s1 = (Inr (), t) \<and>
    CtrNew (m_ID meta) (buildLabels (cc_Labels (cx_config cx)) containerKindContainer) (ContainerMetadata meta) \<in> set (trace s1)"
  using assms
  by (intro exI [of _ "logCall (CtrNew (m_ID meta) (buildLabels (cc_Labels (cx_config cx)) containerKindContainer) (ContainerMetadata meta))
        (logCall (GenRuntimeOptions (sb_ID (cx_sandbox cx))) (logCall (NewIO (m_ID meta)) s))"])
     (auto simp: createIO_def createCtr_def Let_def act_simps)

lemma createRootDir_Inr:
  assumes "createRootDir w cfg se cx s = (Inr (), t)"
  shows "\<exists>s1 ms rt spec. onlyCalls UNIV s s1 \<and> generateSpec w cfg se (sandboxStore s) cx ms rt = Inr spec \<and>
    GenContainerSpec (cx_id cx) (sb_ID (cx_sandbox cx)) ms rt \<in> set (trace s1) \<and>
    createIO w cfg se cx (createMeta cx (specLabel spec)) (getContainerRootDir cfg (cx_id cx)) s1 = (Inr (), t)"
proof -
  let ?dir = "getContainerRootDir cfg (cx_id cx)" and ?j = "sb_ID (cx_sandbox cx)"
  let ?vol = "if \<not> cf_IgnoreImageDefinedVolumes cfg then volumeMounts w ?dir (cc_Mounts (cx_config cx)) (im_Spec (cx_image cx)) else returnA []"
  from assms obtain s0 where s0: "onlyCalls UNIV s s0" "createSpec w cfg se cx ?dir s0 = (Inr (), t)"
    by (auto simp: createRootDir_def createVolatileDir_def Let_def act_simps)
  from s0(2) obtain volumes u1 mounts u2 rt spec where
    u: "?vol s0 = (Inr volumes, u1)" "containerMounts w cfg ?j (cx_config cx) u1 = (Inr mounts, u2)"
      "generateSpec w cfg se (sandboxStore u2) cx (mounts @ volumes) rt = Inr spec"
      "createIO w cfg se cx (createMeta cx (specLabel spec)) ?dir (logCall (GenContainerSpec (cx_id cx) ?j (mounts @ volumes) rt) u2) = (Inr (), t)"
    by (auto simp: createSpec_def Let_def bindA_Inr wrapA_Inr onError_Inr liftA_def)
  have "calls_only UNIV ?vol" by (intro call_intros mounts_quiet)
  from calls_onlyD [OF this u(1)] calls_onlyD [OF mounts_quiet(2) u(2)] s0(1) have "onlyCalls UNIV s u2"
    by (blast intro: onlyCalls_trans)
  with u onlyCalls_frame(4) [OF this] show ?thesis
    by (intro exI [of _ "logCall (GenContainerSpec (cx_id cx) ?j (mounts @ volumes) rt) u2"] exI [of _ "mounts @ volumes"] exI [of _ rt] exI [of _ spec])
       auto
qed

lemma createStored_Inr:
  assumes "createStored w meta dir s = (Inr (), t)"
  shows "\<exists>status st L. let c = \<lparr>c_meta = meta, c_ref = nextRef s, c_Container = Some (m_ID meta), c_IO = Some (m_ID meta)\<rparr> in
    Store_Add c (containerStore s) (labelStore s) = (Inr (), st, L) \<and> status = zero_status\<lparr>st_CreatedAt := w_now w (trace s)\<rparr> \<and>
    t = (logCall (WriteFile (status_path dir)) s)\<lparr>svDisk := (svDisk s)(status_path dir \<mapsto> encode status), nextRef := Suc (nextRef s),
       cells := (cells s)(nextRef s := \<lparr>cl_status = \<lparr>ss_path = status_path dir, ss_status = status\<rparr>, cl_stopped = False\<rparr>),
       containerStore := st, labelStore := L\<rparr>"
proof -
  from assms obtain c u where c: "createObject w meta dir s = (Inr c, u)" "storeAdd c u = (Inr (), t)"
    by (auto simp: createStored_def act_simps)
  note o = createObject_Inr [OF c(1)]
  from c(2) obtain st L where "Store_Add c (containerStore u) (labelStore u) = (Inr (), st, L)" "t = u\<lparr>containerStore := st, labelStore := L\<rparr>"
    by (auto simp: storeAdd_def Let_def split: prod.splits)
  with o show ?thesis by (auto simp: Let_def)
qed

lemma createBody_Inr:
  assumes "createBody w cfg se mk n j s = (Inr (), t)" "\<And>img. cx_id (mk img) = i"
  shows "\<exists>img s1 ms rt spec. fst (localResolve w n s) = Inr img \<and> onlyCalls UNIV s s1 \<and>
    generateSpec w cfg se (sandboxStore s) (mk img) ms rt = Inr spec \<and>
    CtrNew i (buildLabels (cc_Labels (cx_config (mk img))) containerKindContainer)
      (ContainerMetadata (createMeta (mk img) (specLabel spec))) \<in> set (trace s1) \<and>
    createStored w (createMeta (mk img) (specLabel spec)) (getContainerRootDir cfg i) s1 = (Inr (), t)"
proof -
  from assms(1) obtain img s0 where img: "fst (localResolve w n s) = Inr img" "onlyCalls UNIV s s0" "createRootDir w cfg se (mk img) s0 = (Inr (), t)"
  proof -
    from assms(1) obtain img u x v where r: "localResolve w n s = (Inr img, u)" "toContainerdImage w img u = (Inr x, v)"
      "createRootDir w cfg se (mk img) (logCall (CtrInfo j) v) = (Inr (), t)" by (auto simp: createBody_def act_simps)
    from r(1) have "u = s" by (simp add: localResolve_def Let_def)
    moreover from r(2) have "onlyCalls UNIV u v" by (auto simp: toContainerdImage_def split: list.splits)
    ultimately show thesis using r by (intro that [of img "logCall (CtrInfo j) v"]) auto
  qed
  from createRootDir_Inr [OF img(3)] obtain s1 ms rt spec where s1: "onlyCalls UNIV s0 s1"
    "generateSpec w cfg se (sandboxStore s0) (mk img) ms rt = Inr spec"
    "createIO w cfg se (mk img) (createMeta (mk img) (specLabel spec)) (getContainerRootDir cfg i) s1 = (Inr (), t)"
    by (auto simp: assms(2))
  from createIO_Inr [OF s1(3)] obtain s2 where s2: "onlyCalls UNIV s1 s2"
    "createStored w (createMeta (mk img) (specLabel spec)) (getContainerRootDir cfg i) s2 = (Inr (), t)"
    "CtrNew i (buildLabels (cc_Labels (cx_config (mk img))) containerKindContainer) (ContainerMetadata (createMeta (mk img) (specLabel spec))) \<in> set (trace s2)"
    by (auto simp: createMeta_def assms(2))
  show ?thesis using img(1,2) s1(1,2) s2 onlyCalls_frame(4) [OF img(2)] by (metis onlyCalls_trans)
qed

text \<open>
  A successful \<^verbatim>\<open>CreateContainer\<close> leaves exactly one more container. The store maps the new id to a container
  whose metadata are those of the request, the resolved image and the generated spec; its status is
  created at a time of the clock, and the checkpoint on disk holds that status; the name is
  reserved for it; the label of the spec is reserved, even if a privileged container runs without it; and the metadata kept in
  containerd, from which a restart recovers, are those of the stored container. Sandboxes and images are as before.
\<close>

definition containerCreated ::
    "world \<Rightarrow> specEnv \<Rightarrow> containerConfig \<Rightarrow> podSandboxConfig \<Rightarrow> sbx \<Rightarrow> svc \<Rightarrow> string \<Rightarrow> svc \<Rightarrow> bool" where
  "containerCreated w se config sbc sb s i t \<longleftrightarrow> (\<exists>md smd img ms rt spec c tr. let now = w_now w tr;
      pid = w_pid w (CtrTask (sb_ID sb) # trace s) (sb_ID sb); name = makeContainerName md smd;
      cx = requestCtx config sbc sb pid i md name img; status = zero_status\<lparr>st_CreatedAt := now\<rparr> in
    cc_Metadata config = Some md \<and> pc_Metadata sbc = Some smd \<and> fst (localResolve w (cc_Image config) s) = Inr img \<and>
    generateSpec w (sv_config s) se (sandboxStore s) cx ms rt = Inr spec \<and> c_meta c = createMeta cx (specLabel spec) \<and>
    cs_inv (containerStore t) \<and> cs_containers (containerStore s) i = None \<and>
    cs_containers (containerStore t) = (cs_containers (containerStore s))(i \<mapsto> c) \<and>
    Label_Reserve (labelStore s) (specLabel spec) = (Inr (), labelStore t) \<and>
    statusOf c t = status \<and> (now \<noteq> 0 \<longrightarrow> State status = CREATED) \<and> \<not> Stopped (cells t (c_ref c)) \<and>
    LoadStatus None (getContainerRootDir (sv_config s) i) (svDisk t) = Inr status \<and>
    Reserve (containerNameIndex s) name i = (Inr (), containerNameIndex t) \<and> nameToKey (containerNameIndex t) name = Some i \<and>
    CtrNew i (buildLabels (cc_Labels config) containerKindContainer) (ContainerMetadata (c_meta c)) \<in> set (trace t) \<and>
    sandboxStore t = sandboxStore s \<and> sandboxNameIndex t = sandboxNameIndex s \<and> imageStore t = imageStore s \<and> sbCells t = sbCells s \<and>
    (\<forall>q < nextRef s. cells t q = cells s q))"

lemma CreateContainer_created:
  assumes "CreateContainer w se r config sbc s = (Inr i, t)" "reg_inv (containerNameIndex s)" "cs_inv (containerStore s)"
    and "Sandbox_Get (sandboxStore s) r = Inr sb"
  shows "i = w_genID w (CtrTask (sb_ID sb) # trace s) \<and> containerCreated w se config sbc sb s i t"
proof -
  let ?T = "CtrTask (sb_ID sb)" let ?s = "logCall GenerateID (logCall ?T s)" and ?cfg = "sv_config s"
  let ?i = "w_genID w (?T # trace s)" and ?pid = "w_pid w (?T # trace s) (sb_ID sb)"
  from assms(1,4) have run: "createNamed w se config sbc sb ?pid ?i ?s = (Inr i, t)"
    by (auto simp: CreateContainer_def act_simps generateID_def)
  then obtain md smd idx where md: "cc_Metadata config = Some md" "pc_Metadata sbc = Some smd" "i = ?i"
    and res: "Reserve (containerNameIndex s) (makeContainerName md smd) ?i = (Inr (), idx)"
    and body: "createBody w ?cfg se (requestCtx config sbc sb ?pid ?i md (makeContainerName md smd)) (cc_Image config) (sb_ID sb)
        (?s\<lparr>containerNameIndex := idx\<rparr>) = (Inr (), t)"
    by (auto simp: createNamed_def Let_def act_simps reserveContainerName_def split: option.splits prod.splits)
  let ?mk = "requestCtx config sbc sb ?pid ?i md (makeContainerName md smd)" and ?s' = "?s\<lparr>containerNameIndex := idx\<rparr>"
  have lr: "fst (localResolve w (cc_Image config) ?s') = fst (localResolve w (cc_Image config) s)" by (rule localResolve_cong) simp
  from createBody_Inr [OF body] obtain img s1 ms rt spec where
    b: "fst (localResolve w (cc_Image config) s) = Inr img" "onlyCalls UNIV ?s' s1" "generateSpec w ?cfg se (sandboxStore s) (?mk img) ms rt = Inr spec"
      "CtrNew ?i (buildLabels (cc_Labels config) containerKindContainer) (ContainerMetadata (createMeta (?mk img) (specLabel spec))) \<in> set (trace s1)"
      "createStored w (createMeta (?mk img) (specLabel spec)) (getContainerRootDir ?cfg ?i) s1 = (Inr (), t)"
    unfolding lr by auto
  let ?meta = "createMeta (?mk img) (specLabel spec)"
  let ?c = "\<lparr>c_meta = ?meta, c_ref = nextRef s, c_Container = Some ?i, c_IO = Some ?i\<rparr>"
  have id: "m_ID ?meta = ?i" "c_ID ?c = ?i" "c_ProcessLabel ?c = specLabel spec" by (simp_all add: createMeta_def c_ID_def c_ProcessLabel_def)
  note f = onlyCalls_frame [OF b(2), simplified]
  from createStored_Inr [OF b(5)] obtain tr st L where add: "Store_Add ?c (containerStore s) (labelStore s) = (Inr (), st, L)"
    and t: "t = (logCall (WriteFile (status_path (getContainerRootDir ?cfg ?i))) s1)\<lparr>
       svDisk := (svDisk s)(status_path (getContainerRootDir ?cfg ?i) \<mapsto> encode (zero_status\<lparr>st_CreatedAt := w_now w tr\<rparr>)), nextRef := Suc (nextRef s),
       cells := (cells s)(nextRef s := \<lparr>cl_status = \<lparr>ss_path = status_path (getContainerRootDir ?cfg ?i), ss_status = zero_status\<lparr>st_CreatedAt := w_now w tr\<rparr>\<rparr>,
                                       cl_stopped = False\<rparr>), containerStore := st, labelStore := L\<rparr>"
    unfolding Let_def id(1) f by blast
  note a = cstore.add_Inr [OF assms(3) add, unfolded id]
  have d: "decode (encode (zero_status\<lparr>st_CreatedAt := now\<rparr>)) = Inr (zero_status\<lparr>st_CreatedAt := now\<rparr>)" for now
    by (simp add: decode_encode durable_def zero_status_def)
  have n: "nameToKey idx (makeContainerName md smd) = Some ?i" using Reserve_Inr [OF assms(2) res] by simp
  show ?thesis
    unfolding Let_def containerCreated_def
    by (intro conjI exI [of _ md] exI [of _ smd] exI [of _ img] exI [of _ ms] exI [of _ rt] exI [of _ spec] exI [of _ ?c] exI [of _ tr])
       (use md res b a d n f in \<open>simp_all add: t statusOf_def StorageGet_def State_def zero_status_def Stopped_def LoadStatus_def\<close>)
qed


subsection \<open>Requests to the example service\<close>

definition web_config :: containerConfig where
  "web_config = zeroConfig\<lparr>cc_Metadata := Some \<lparr>cmd_Name = ''web'', cmd_Attempt = 0\<rparr>, cc_Image := ''repo:v1'', cc_Args := [''sh'']\<rparr>"

definition node_env :: specEnv where
  "node_env = \<lparr>se_sort = sort_key parts, se_base = Map.empty, se_profiles = Inr ([], None), se_apparmor = False, se_seccomp = True\<rparr>"

definition full_disk :: world where
  "full_disk = pod_world\<lparr>w_err := (\<lambda>_ c. case c of WriteFile p \<Rightarrow> Some ErrDeadlineExceeded | _ \<Rightarrow> None)\<rparr>"

lemma pod_svc_containers:
  "cs_inv (containerStore pod_svc)" "reg_inv (containerNameIndex pod_svc)" "cs_containers (containerStore pod_svc) ''new1'' = None"
  "keyToName (containerNameIndex pod_svc) ''new1'' = None" "Sandbox_Get (sandboxStore pod_svc) ''sb1'' = Inr example_sbx"
  "w_genID pod_world tr = ''new1''" "w_genID full_disk tr = ''new1''" "trace pod_svc = []" "sb_ID example_sbx = ''sb1''"
  by (auto simp: pod_svc_def image_svc_def example_svc_def cs_inv_def indexed_def ti_inv_def example_ctr_def c_ID_def zero_metadata_def
      reg_inv_def Sandbox_Get_def TruncIndex_Get_def pod_world_def full_disk_def example_world_def example_sbx_def sb_ID_def zero_sb_metadata_def
      split: if_splits)

lemma create_writes:
  assumes "CreateContainer w se r config sbc s = (Inr i, t)"
  shows "\<exists>tr p. w_err w tr (WriteFile p) = None"
proof -
  from assms obtain sb pid j s0 where "createNamed w se config sbc sb pid j s0 = (Inr i, t)"
    by (auto simp: CreateContainer_def act_simps generateID_def)
  then obtain md smd cfg s1 where "createBody w cfg se (requestCtx config sbc sb pid j md (makeContainerName md smd)) (cc_Image config) (sb_ID sb) s1 = (Inr (), t)"
    by (auto simp: createNamed_def Let_def act_simps split: option.splits)
  from createBody_Inr [OF this requestCtx_simps(1)] obtain meta dir s2 where "createStored w meta dir s2 = (Inr (), t)" by blast
  then obtain c u where "createObject w meta dir s2 = (Inr c, u)" by (auto simp: createStored_def act_simps)
  from createObject_Inr(1) [OF this] show ?thesis by blast
qed

lemma web_created: "fst (CreateContainer pod_world node_env ''sb1'' web_config pod_config pod_svc) = Inr ''new1''"
  by code_simp


end
