(* ===== verification/Recovery.thy ===== *)
theory Recovery
  imports ContainerCreate
begin

section \<open>Recovery after a restart\<close>

text \<open>
  \<^verbatim>\<open>restart.go\<close>: when the plugin starts, it rebuilds its stores and name indexes from the containers that
  containerd knows, their metadata, their tasks, and the status checkpoints on disk. Loading a status is a function that
  may fail half way: what it has set by then stays, so it returns its result beside the status and
  whether the container has streams.
\<close>

subsection \<open>The status of a container\<close>

type_synonym loaded = "unit result \<times> status \<times> bool \<times> svc"

text \<open>\<^verbatim>\<open>Container.Task\<close> attaches the streams unless the task is in an unknown state; then there are no fifos.\<close>

definition attachIO :: "world \<Rightarrow> string \<Rightarrow> containerConfig metadata \<Rightarrow> unit handler" where
  "attachIO w i meta =
     bindA (createContainerLoggers w (m_LogPath meta) (case m_Config meta of None \<Rightarrow> False | Some cfg \<Rightarrow> cc_Tty cfg)) (\<lambda>(stdoutWC, stderrWC).
     thenA (ext w (NewIO i))
    (thenA (modifyA (logCall (AddOutput i stdoutWC stderrWC)))
           (modifyA (logCall (Pipe i)))))"

definition attachTask :: "world \<Rightarrow> string \<Rightarrow> containerConfig metadata \<Rightarrow> bool handler" where
  "attachTask w i meta =
     thenA (ext w (CtrTask i))
    (bindA (getA (\<lambda>s. ts_Status (w_taskStatus w (trace s) i))) (\<lambda>st.
     if st = Task_Other ''unknown'' then returnA False else thenA (attachIO w i meta) (returnA True)))"

definition unknownExit :: "64 word \<Rightarrow> status \<Rightarrow> status" where
  "unknownExit now status = status\<lparr>st_FinishedAt := now, st_ExitCode := unknownExitCode, st_Reason := unknownExitReason\<rparr>"

definition missingTask :: "world \<Rightarrow> string \<Rightarrow> status \<Rightarrow> bool \<Rightarrow> svc \<Rightarrow> loaded" where
  "missingTask w i status io s =
     (case State status of
        CREATED \<Rightarrow>
          (case ext w (NewIO i) s of
             (Inl err, t) \<Rightarrow> (Inl (Wrapf err ''failed to create container io'' []), status, False, t)
           | (Inr _, t) \<Rightarrow> (Inr (), status, True, t))
      | RUNNING \<Rightarrow> (Inr (), unknownExit (w_now w (trace s)) status, io, s)
      | _ \<Rightarrow> (Inr (), status, io, s))"

definition deleteTask :: "world \<Rightarrow> string \<Rightarrow> unit handler" where
  "deleteTask w i = wrapA (tolerateA (ext w (TaskDelete i)) IsNotFound) ''failed to delete task'' []"

definition runningTask :: "world \<Rightarrow> string \<Rightarrow> status \<Rightarrow> bool \<Rightarrow> svc \<Rightarrow> loaded" where
  "runningTask w i status io s =
     (if State status = EXITED
      then (Inl (Errorf ''unexpected container state for running task: %q'' [criContainerStateToString (State status)]), status, io, s)
      else
        (let status' = (if State status = RUNNING then status
                        else status\<lparr>st_StartedAt := w_now w (trace s), st_Pid := w_pid w (trace s) i\<rparr>)
         in case ext w (TaskWait i) s of
              (Inl err, t) \<Rightarrow>
                (if \<not> IsNotFound err then (Inl (Wrapf err ''failed to wait for task'' []), status', io, t)
                 else (Inr (), unknownExit (w_now w (trace t)) status', io, t))
            | (Inr _, t) \<Rightarrow> (Inr (), status', io, logCall (StartExitMonitor i (st_Pid status')) t)))"

definition presentTask :: "world \<Rightarrow> string \<Rightarrow> taskStatus \<Rightarrow> status \<Rightarrow> bool \<Rightarrow> svc \<Rightarrow> loaded" where
  "presentTask w i task status io s =
     (case ts_Status task of
        Task_Created \<Rightarrow>
          (case deleteTask w i s of
             (Inl err, t) \<Rightarrow> (Inl err, status, io, t)
           | (Inr _, t) \<Rightarrow>
               (if State status \<noteq> CREATED
                then (Inl (Errorf ''unexpected container state for created task: %q'' [criContainerStateToString (State status)]), status, io, t)
                else (Inr (), status, io, t)))
      | Task_Running \<Rightarrow> runningTask w i status io s
      | Task_Stopped \<Rightarrow>
          (case deleteTask w i s of
             (Inl err, t) \<Rightarrow> (Inl err, status, io, t)
           | (Inr _, t) \<Rightarrow> (Inr (), status\<lparr>st_FinishedAt := ts_ExitTime task, st_ExitCode := ts_ExitStatus task\<rparr>, io, t))
      | Task_Other st \<Rightarrow> (Inl (Errorf ''unexpected task status %q'' [st]), status, io, s))"

definition loadTaskStatus :: "world \<Rightarrow> string \<Rightarrow> containerConfig metadata \<Rightarrow> status \<Rightarrow> svc \<Rightarrow> loaded" where
  "loadTaskStatus w i meta status s =
     (case attachTask w i meta s of
        (Inl err, s1) \<Rightarrow>
          (if \<not> IsNotFound err then (Inl (Wrapf err ''failed to load task'' []), status, False, s1)
           else missingTask w i status False s1)
      | (Inr io, s1) \<Rightarrow>
          (case ext w (TaskStatus i) s1 of
             (Inl err, s2) \<Rightarrow>
               (if \<not> IsNotFound err then (Inl (Wrapf err ''failed to get task status'' []), status, io, s2)
                else missingTask w i status io s2)
           | (Inr _, s2) \<Rightarrow> presentTask w i (w_taskStatus w (trace s2) i) status io s2))"

subsection \<open>Loading one container\<close>

definition loadCheckpoint :: "world \<Rightarrow> string \<Rightarrow> status handler" where
  "loadCheckpoint w dir s =
     (let call = ReadFile (status_path dir) in
      (Inr (case LoadStatus (w_err w (trace s) call) dir (svDisk s) of Inl _ \<Rightarrow> unknownContainerStatus | Inr status \<Rightarrow> status),
       logCall call s))"

text \<open>\<^verbatim>\<open>typeurl\<close> yields the metadata, or an error, or there is no such extension.\<close>

definition loadMetadata :: "world \<Rightarrow> string \<Rightarrow> containerConfig metadata handler" where
  "loadMetadata w i =
     thenA (wrapA (ext w (Extensions i)) ''failed to get container extensions'' [])
    (bindA (getA (\<lambda>s. w_ctrMeta w (trace s) i)) (\<lambda>found.
     case found of
       None \<Rightarrow> failA (Errorf ''metadata extension %q not found'' [''io.cri-containerd.container.metadata''])
     | Some (Inl err) \<Rightarrow> failA (Wrapf err ''failed to unmarshal metadata extension %q'' [])
     | Some (Inr meta) \<Rightarrow> returnA meta))"

definition recoverObject :: "world \<Rightarrow> string \<Rightarrow> containerConfig metadata \<Rightarrow> status \<Rightarrow> bool \<Rightarrow> ctr handler" where
  "recoverObject w i meta status io s =
     (let dir = getContainerRootDir (sv_config s) i; call = WriteFile (status_path dir) in
      case NewContainer (w_err w (trace s) call) (nextRef s) meta
             ([WithStatus status dir, WithContainer i] @ (if io then [WithContainerIO i] else [])) (svDisk s) of
        (Inl e, d) \<Rightarrow> (Inl e, (logCall call s)\<lparr>svDisk := d\<rparr>)
      | (Inr (c, cl), d) \<Rightarrow>
          (Inr c, (logCall call s)\<lparr>svDisk := d, nextRef := Suc (nextRef s), cells := (cells s)(nextRef s := cl)\<rparr>))"

definition loadContainer :: "world \<Rightarrow> string \<Rightarrow> ctr handler" where
  "loadContainer w i =
     bindA (loadMetadata w i) (\<lambda>meta.
     bindA (getA sv_config) (\<lambda>cfg.
     bindA (loadCheckpoint w (getContainerRootDir cfg i)) (\<lambda>status s.
     (case loadTaskStatus w i meta status s of
        (Inl _, status', io, t) \<Rightarrow> recoverObject w i meta (status'\<lparr>st_Unknown := True\<rparr>) io t
      | (Inr _, status', io, t) \<Rightarrow> recoverObject w i meta status' io t))))"

subsection \<open>Loading one sandbox\<close>

definition loadSandboxTask :: "world \<Rightarrow> string \<Rightarrow> string \<Rightarrow> sb_status \<Rightarrow> svc \<Rightarrow> unit result \<times> sb_status \<times> svc" where
  "loadSandboxTask w i mid status s =
     (let notReady = status\<lparr>sb_State := StateNotReady\<rparr> in
      case ext w (CtrTask i) s of
        (Inl err, s1) \<Rightarrow>
          (if \<not> IsNotFound err then (Inl (Wrapf err ''failed to load task'' []), status, s1) else (Inr (), notReady, s1))
      | (Inr _, s1) \<Rightarrow>
          (case ext w (TaskStatus i) s1 of
             (Inl err, s2) \<Rightarrow>
               (if \<not> IsNotFound err then (Inl (Wrapf err ''failed to get task status'' []), status, s2) else (Inr (), notReady, s2))
           | (Inr _, s2) \<Rightarrow>
               (if ts_Status (w_taskStatus w (trace s2) i) = Task_Running then
                  (case ext w (TaskWait i) s2 of
                     (Inl err, s3) \<Rightarrow>
                       (if \<not> IsNotFound err then (Inl (Wrapf err ''failed to wait for task'' []), status, s3) else (Inr (), notReady, s3))
                   | (Inr _, s3) \<Rightarrow>
                       (let pid = w_pid w (trace s3) i in
                        (Inr (), status\<lparr>sb_State := StateReady, sb_Pid := pid\<rparr>, logCall (StartExitMonitor mid pid) s3)))
                else
                  (case deleteTask w i s2 of
                     (Inl err, s3) \<Rightarrow> (Inl err, status, s3)
                   | (Inr _, s3) \<Rightarrow> (Inr (), notReady, s3)))))"

definition loadSandboxStatus :: "world \<Rightarrow> string \<Rightarrow> string \<Rightarrow> svc \<Rightarrow> unit result \<times> sb_status \<times> svc" where
  "loadSandboxStatus w i mid s =
     (case ext w (CtrInfo i) s of
        (Inl err, s1) \<Rightarrow> (Inl (Wrapf err ''failed to get sandbox container info'' []), unknownSandboxStatus, s1)
      | (Inr _, s1) \<Rightarrow> loadSandboxTask w i mid (unknownSandboxStatus\<lparr>sb_CreatedAt := w_createdAt w (trace s1) i\<rparr>) s1)"

definition loadSandboxMetadata :: "world \<Rightarrow> string \<Rightarrow> (podSandboxConfig, cniResult) sb_metadata handler" where
  "loadSandboxMetadata w i =
     thenA (wrapA (ext w (Extensions i)) ''failed to get sandbox container extensions'' [])
    (bindA (getA (\<lambda>s. w_sbMeta w (trace s) i)) (\<lambda>found.
     case found of
       None \<Rightarrow> failA (Errorf ''metadata extension %q not found'' [''io.cri-containerd.sandbox.metadata''])
     | Some (Inl err) \<Rightarrow> failA (Wrapf err ''failed to unmarshal metadata extension %q'' [])
     | Some (Inr meta) \<Rightarrow> returnA meta))"

text \<open>An error of the status is only logged.\<close>

definition loadSandbox :: "world \<Rightarrow> string \<Rightarrow> sbx handler" where
  "loadSandbox w i =
     bindA (loadSandboxMetadata w i) (\<lambda>meta s.
     (let (_, status, t) = loadSandboxStatus w i (sm_ID meta) s;
          (sb, cl) = NewSandbox (nextRef t) meta status;
          sb' = sb\<lparr>sb_Container := Some i\<rparr>
      in (Inr (if pc_NsNetwork (configOf sb') = NS_NODE then sb' else sb'\<lparr>sb_NetNS := Some (sm_NetNSPath meta)\<rparr>),
          t\<lparr>nextRef := Suc (nextRef t), sbCells := (sbCells t)(nextRef t := cl)\<rparr>)))"

subsection \<open>The whole recovery\<close>

text \<open>A sandbox or container that cannot be loaded is skipped; one that cannot be added ends the recovery.\<close>

fun recoverSandboxes :: "world \<Rightarrow> string list \<Rightarrow> unit handler" where
  "recoverSandboxes w [] = returnA ()"
| "recoverSandboxes w (i # is) = (\<lambda>s.
     case loadSandbox w i s of
       (Inl _, t) \<Rightarrow> recoverSandboxes w is t
     | (Inr sb, t) \<Rightarrow>
         thenA (wrapA (sandboxAdd sb) ''failed to add sandbox %q to store'' [i])
        (thenA (wrapA (reserveSandboxName (sm_Name (sb_meta sb)) (sb_ID sb)) ''failed to reserve sandbox name %q'' [sm_Name (sb_meta sb)])
               (recoverSandboxes w is)) t)"

fun recoverContainers :: "world \<Rightarrow> string list \<Rightarrow> unit handler" where
  "recoverContainers w [] = returnA ()"
| "recoverContainers w (i # is) = (\<lambda>s.
     case loadContainer w i s of
       (Inl _, t) \<Rightarrow> recoverContainers w is t
     | (Inr c, t) \<Rightarrow>
         thenA (wrapA (storeAdd c) ''failed to add container %q to store'' [i])
        (thenA (wrapA (reserveContainerName (m_Name (c_meta c)) (c_ID c)) ''failed to reserve container name %q'' [m_Name (c_meta c)])
               (recoverContainers w is)) t)"

fun loadImages :: "world \<Rightarrow> string list \<Rightarrow> svc \<Rightarrow> svc" where
  "loadImages w [] s = s"
| "loadImages w (n # ns) s =
     (case ext w (CheckImage n) s of
        (Inl _, t) \<Rightarrow> loadImages w ns t
      | (Inr _, t) \<Rightarrow>
          (if \<not> w_imageOk w (trace t) n then loadImages w ns t
           else case ext w (IsUnpacked n) t of
             (Inl _, u) \<Rightarrow> loadImages w ns u
           | (Inr _, u) \<Rightarrow> loadImages w ns (ignoreA (updateImage w n) u)))"

fun removeOrphans :: "world \<Rightarrow> string list \<Rightarrow> string \<Rightarrow> (string \<times> bool) list \<Rightarrow> svc \<Rightarrow> svc" where
  "removeOrphans w ids base [] s = s"
| "removeOrphans w ids base ((name, isDir) # ds) s =
     (if \<not> isDir \<or> name \<in> set ids then removeOrphans w ids base ds s
      else removeOrphans w ids base ds (ignoreA (removeDir w (Join [base, name] ''/'')) s))"

definition cleanupOrphanedIDDirs :: "world \<Rightarrow> string list \<Rightarrow> string \<Rightarrow> unit handler" where
  "cleanupOrphanedIDDirs w ids base s =
     (case ext w (ReadDir base) s of
        (Inl err, t) \<Rightarrow> (if \<not> IsOSNotExist err then (Inl (Wrapf err ''failed to read base directory'' []), t) else (Inr (), t))
      | (Inr _, t) \<Rightarrow> (Inr (), removeOrphans w ids base (w_dirs w (trace t) base) t))"

definition cleanupDirs :: "world \<Rightarrow> string list \<Rightarrow> string list \<Rightarrow> criConfig \<Rightarrow> unit handler" where
  "cleanupDirs w sandboxes containers cfg =
     thenA (wrapA (cleanupOrphanedIDDirs w sandboxes (Join [cf_RootDir cfg, ''sandboxes''] ''/''))
              ''failed to cleanup orphaned sandbox directories'' [])
    (thenA (wrapA (cleanupOrphanedIDDirs w sandboxes (Join [cf_StateDir cfg, ''sandboxes''] ''/''))
              ''failed to cleanup orphaned volatile sandbox directories'' [])
    (thenA (wrapA (cleanupOrphanedIDDirs w containers (Join [cf_RootDir cfg, ''containers''] ''/''))
              ''failed to cleanup orphaned container directories'' [])
           (wrapA (cleanupOrphanedIDDirs w containers (Join [cf_StateDir cfg, ''containers''] ''/''))
              ''failed to cleanup orphaned volatile container directories'' [])))"

definition recover :: "world \<Rightarrow> unit handler" where
  "recover w =
     thenA (wrapA (ext w (ListContainers containerKindSandbox)) ''failed to list sandbox containers'' [])
    (bindA (getA (\<lambda>s. w_containers w (trace s) containerKindSandbox)) (\<lambda>sandboxes.
     thenA (recoverSandboxes w sandboxes)
    (thenA (wrapA (ext w (ListContainers containerKindContainer)) ''failed to list containers'' [])
    (bindA (getA (\<lambda>s. w_containers w (trace s) containerKindContainer)) (\<lambda>containers.
     thenA (recoverContainers w containers)
    (thenA (wrapA (ext w extcall.ListImages) ''failed to list images'' [])
    (thenA (modifyA (\<lambda>s. loadImages w (w_images w (trace s)) s))
    (bindA (getA sv_config) (cleanupDirs w sandboxes containers)))))))))"

subsection \<open>What loading leaves alone\<close>

text \<open>
  \<open>keepAll\<close>: stores and name indexes are the same, and so are all cells that were allocated; calls are only added.
\<close>

definition keepAll :: "extcall set \<Rightarrow> svc \<Rightarrow> svc \<Rightarrow> bool" where
  "keepAll A s t \<longleftrightarrow> containerStore t = containerStore s \<and> sandboxStore t = sandboxStore s \<and> containerNameIndex t = containerNameIndex s \<and>
     sandboxNameIndex t = sandboxNameIndex s \<and> sv_config t = sv_config s \<and> nextRef s \<le> nextRef t \<and>
     (\<forall>r < nextRef s. cells t r = cells s r \<and> sbCells t r = sbCells s r) \<and> extends A s t"

text \<open>Loading removes no directory.\<close>

abbreviation (input) noRemoval :: "extcall set" where
  "noRemoval \<equiv> {c. \<forall>d. c \<noteq> EnsureRemoveAll d}"

interpretation keep: state_rel "keepAll A"
  by unfold_locales (auto simp: keepAll_def tr.rel_refl intro: tr.rel_trans)

lemma keepAll_onlyCalls: "onlyCalls A s t \<Longrightarrow> keepAll A s t"
  by (auto simp: keepAll_def onlyCalls_def calls_def extends_def)

lemma keepAll_calls_only: "calls_only A m \<Longrightarrow> always (keepAll A) m"
  by (auto simp: calls_only_def always_def dest: keepAll_onlyCalls)

lemma attachTask_quiet: "calls_only noRemoval (attachTask w i meta)"
proof -
  have "preTask i \<subseteq> noRemoval" by (auto simp: preTask_def)
  then have "calls_only noRemoval (createContainerLoggers w p tty)" for p tty
    using createContainerLoggers_calls [of i w p tty] unfolding calls_only_def onlyCalls_def by blast
  then have "calls_only noRemoval (attachIO w i meta)"
    unfolding attachIO_def case_prod_beta by (intro call_intros) simp_all
  then show ?thesis unfolding attachTask_def by (intro call_intros) simp_all
qed

lemma deleteTask_quiet: "calls_only noRemoval (deleteTask w i)"
  unfolding deleteTask_def by (intro call_intros) simp

lemma loadTaskStatus_quiet:
  assumes "loadTaskStatus w i meta status s = (r, status', io, t)"
  shows "onlyCalls noRemoval s t"
proof -
  have x: "onlyCalls noRemoval u v" if "ext w c u = (x, v)" "\<forall>d. c \<noteq> EnsureRemoveAll d" for c u x v
    using calls_onlyD [OF calls_only_ext [of c noRemoval] that(1)] that(2) by simp
  have m: "onlyCalls noRemoval u v" if "missingTask w i st io u = (x, st', io', v)" for st io u x st' io' v
    using that by (auto simp: missingTask_def split: container_state.splits prod.splits sum.splits dest: x)
  have r: "onlyCalls noRemoval u v" if "runningTask w i st io u = (x, st', io', v)" for st io u x st' io' v
    using that by (auto simp: runningTask_def Let_def split: if_splits prod.splits sum.splits dest: x)
  have p: "onlyCalls noRemoval u v" if "presentTask w i ts st io u = (x, st', io', v)" for ts st io u x st' io' v
    using that by (auto simp: presentTask_def split: processStatus.splits prod.splits sum.splits if_splits
        dest: r calls_onlyD [OF deleteTask_quiet])
  obtain r1 s1 where a: "attachTask w i meta s = (r1, s1)" by fastforce
  have 1: "onlyCalls noRemoval s s1" by (rule calls_onlyD [OF attachTask_quiet a])
  obtain r2 s2 where b: "ext w (TaskStatus i) s1 = (r2, s2)" by fastforce
  have 2: "onlyCalls noRemoval s s2" using onlyCalls_trans [OF 1 x [OF b]] by simp
  show ?thesis
    using assms a b 1 2
    by (auto simp: loadTaskStatus_def split: sum.splits if_splits dest!: m p intro: onlyCalls_trans)
qed

text \<open>A container that is recovered as running has an exit monitor.\<close>

definition clockRuns :: "world \<Rightarrow> bool" where
  "clockRuns w \<longleftrightarrow> (\<forall>tr. w_now w tr \<noteq> 0) \<and> (\<forall>tr i. ts_ExitTime (w_taskStatus w tr i) \<noteq> 0)"

lemma loadTaskStatus_running:
  assumes "loadTaskStatus w i meta status s = (Inr u, status', io, t)" "clockRuns w" "State status' = RUNNING"
  shows "StartExitMonitor i (st_Pid status') \<in> set (trace t)"
proof -
  have now: "w_now w tr \<noteq> 0" "ts_ExitTime (w_taskStatus w tr j) \<noteq> 0" for tr j using assms(2) by (auto simp: clockRuns_def)
  have ne: "State (unknownExit (w_now w tr) st) \<noteq> RUNNING" for tr st using now by (simp add: State_def unknownExit_def)
  have m: False if "missingTask w i st io u = (Inr x, status', io', t)" for st io u x io'
    using that assms(3) ne by (auto simp: missingTask_def split: container_state.splits prod.splits sum.splits)
  have r: "StartExitMonitor i (st_Pid status') \<in> set (trace t)" if "runningTask w i st io u = (Inr x, status', io', t)" for st io u x io'
    using that assms(3) ne by (auto simp: runningTask_def Let_def split: if_splits prod.splits sum.splits)
  have p: "StartExitMonitor i (st_Pid status') \<in> set (trace t)"
    if "presentTask w i (w_taskStatus w tr j) st io u = (Inr x, status', io', t)" for tr j st io u x io'
    using that assms(3) now
    by (auto simp: presentTask_def State_def split: processStatus.splits prod.splits sum.splits if_splits dest: r)
  show ?thesis
    using assms(1) by (auto simp: loadTaskStatus_def split: prod.splits sum.splits if_splits dest: m p)
qed

lemma recoverObject_cases:
  obtains (ok) "recoverObject w i meta status io s =
      (Inr \<lparr>c_meta = meta, c_ref = nextRef s, c_Container = Some i, c_IO = (if io then Some i else None)\<rparr>,
       (logCall (WriteFile (status_path (getContainerRootDir (sv_config s) i))) s)\<lparr>
         svDisk := (svDisk s)(status_path (getContainerRootDir (sv_config s) i) \<mapsto> encode status), nextRef := Suc (nextRef s),
         cells := (cells s)(nextRef s := \<lparr>cl_status = \<lparr>ss_path = status_path (getContainerRootDir (sv_config s) i), ss_status = status\<rparr>,
                                         cl_stopped = (State status = EXITED)\<rparr>)\<rparr>)"
      "w_err w (trace s) (WriteFile (status_path (getContainerRootDir (sv_config s) i))) = None"
    | (fail) e where "recoverObject w i meta status io s = (Inl e, logCall (WriteFile (status_path (getContainerRootDir (sv_config s) i))) s)"
      "w_err w (trace s) (WriteFile (status_path (getContainerRootDir (sv_config s) i))) \<noteq> None"
proof (cases "w_err w (trace s) (WriteFile (status_path (getContainerRootDir (sv_config s) i)))")
  case None
  then show thesis
    by (intro ok) (simp_all add: recoverObject_def NewContainer_def StoreStatus_def StorageGet_def NewStopCh_def Stop_def Let_def)
next
  case (Some e)
  then show thesis
    by (intro fail) (simp_all add: recoverObject_def NewContainer_def StoreStatus_def logCall_def Let_def)
qed

lemma calls_only_found:
  "calls_only noRemoval (case v of None \<Rightarrow> failA e | Some (Inl err) \<Rightarrow> failA (f err) | Some (Inr m) \<Rightarrow> returnA m)"
  by (auto simp: calls_only_def split: option.splits sum.splits)

lemma loadMetadata_quiet: "calls_only noRemoval (loadMetadata w i)" "calls_only noRemoval (loadSandboxMetadata w i)"
  by (unfold loadMetadata_def loadSandboxMetadata_def, (intro call_intros calls_only_found; simp)+)

definition hasMetadata :: "world \<Rightarrow> string \<Rightarrow> bool" where
  "hasMetadata w i \<longleftrightarrow> (\<forall>tr. w_err w tr (Extensions i) = None \<and> (\<exists>m. w_ctrMeta w tr i = Some (Inr m)))"

text \<open>containerd keeps the metadata of a container with that container.\<close>

definition metadataByID :: "world \<Rightarrow> bool" where
  "metadataByID w \<longleftrightarrow> (\<forall>tr i m. w_ctrMeta w tr i = Some (Inr m) \<longrightarrow> m_ID m = i)"

lemma loadContainer_steps:
  assumes "loadContainer w i s = (r, t)"
  obtains (meta) e where "r = Inl e" "onlyCalls noRemoval s t" "\<not> hasMetadata w i"
    | (object) m tr status io u where "w_ctrMeta w tr i = Some (Inr m)" "onlyCalls noRemoval s u" "recoverObject w i m status io u = (r, t)"
        "clockRuns w \<Longrightarrow> State status = RUNNING \<Longrightarrow> StartExitMonitor i (st_Pid status) \<in> set (trace u)"
proof -
  obtain r1 s1 where m: "loadMetadata w i s = (r1, s1)" by fastforce
  have 1: "onlyCalls noRemoval s s1" by (rule calls_onlyD [OF loadMetadata_quiet(1) m])
  show thesis
  proof (cases r1)
    case (Inl e)
    have "\<not> hasMetadata w i"
    proof
      assume h: "hasMetadata w i"
      then have "w_err w (trace s) (Extensions i) = None" by (simp add: hasMetadata_def)
      moreover from h obtain md where "w_ctrMeta w (Extensions i # trace s) i = Some (Inr md)" unfolding hasMetadata_def by blast
      ultimately show False using m Inl by (simp add: loadMetadata_def thenA_def bindA_def wrapA_def ext_def)
    qed
    then show thesis using assms m Inl 1 by (intro meta [of e]) (auto simp: loadContainer_def bindA_def)
  next
    case (Inr md)
    let ?dir = "getContainerRootDir (sv_config s1) i"
    obtain st0 s2 where c: "loadCheckpoint w ?dir s1 = (Inr st0, s2)" "s2 = logCall (ReadFile (status_path ?dir)) s1"
      by (simp add: loadCheckpoint_def Let_def)
    obtain r3 st io s3 where l: "loadTaskStatus w i md st0 s2 = (r3, st, io, s3)" by (metis prod_cases4)
    have 3: "onlyCalls noRemoval s s3" using 1 c(2) loadTaskStatus_quiet [OF l] by (auto intro: onlyCalls_trans)
    let ?st = "case r3 of Inl _ \<Rightarrow> st\<lparr>st_Unknown := True\<rparr> | Inr _ \<Rightarrow> st"
    obtain tr where "w_ctrMeta w tr i = Some (Inr md)"
      using m Inr by (auto simp: loadMetadata_def act_simps split: option.splits sum.splits)
    moreover have "recoverObject w i md ?st io s3 = (r, t)"
      using assms m Inr c(1) l by (simp add: loadContainer_def bindA_def split: sum.splits)
    moreover have "StartExitMonitor i (st_Pid ?st) \<in> set (trace s3)" if "clockRuns w" "State ?st = RUNNING"
    proof (cases r3)
      case (Inl e)
      then show ?thesis using that(2) by (simp add: State_def)
    next
      case (Inr x)
      then show ?thesis using loadTaskStatus_running [of w i md st0 s2 x st io s3] l that by simp
    qed
    ultimately show thesis using 3 by (intro object)
  qed
qed

lemma loadContainer_keep: "always (keepAll noRemoval) (loadContainer w i)"
  unfolding always_def
proof (intro allI impI)
  fix s r t assume "loadContainer w i s = (r, t)"
  then show "keepAll noRemoval s t"
  proof (cases rule: loadContainer_steps)
    case (object m tr status io u)
    have "keepAll noRemoval u t"
      using object(3) by (cases rule: recoverObject_cases [of w i m status io u])
        (auto simp: keepAll_def intro: extends_logCall extendsI [of _ "[WriteFile p]" for p])
    then show ?thesis using keepAll_onlyCalls [OF object(2)] keep.rel_trans by blast
  qed (rule keepAll_onlyCalls)
qed

lemma loadContainer_Inr:
  assumes "loadContainer w i s = (Inr c, t)"
  shows "nextRef s \<le> c_ref c \<and> c_ref c < nextRef t \<and> (\<exists>tr. w_ctrMeta w tr i = Some (Inr (c_meta c))) \<and>
    (clockRuns w \<longrightarrow> State (statusOf c t) = RUNNING \<longrightarrow> StartExitMonitor i (st_Pid (statusOf c t)) \<in> set (trace t))"
  using assms
proof (cases rule: loadContainer_steps)
  case (object m tr status io u)
  have "nextRef u = nextRef s" using onlyCalls_frame(11) [OF object(2)] by simp
  then show ?thesis
    using object(1,3,4) by (cases rule: recoverObject_cases [of w i m status io u]) (auto simp: statusOf_def StorageGet_def)
qed simp

lemma loadSandboxStatus_steps:
  assumes "loadSandboxStatus w i mid s = (r, status, t)"
  shows "onlyCalls noRemoval s t \<and> (sb_State status = StateReady \<longrightarrow> StartExitMonitor mid (sb_Pid status) \<in> set (trace t))"
proof -
  have x: "onlyCalls noRemoval u v" if "ext w c u = (x, v)" "\<forall>d. c \<noteq> EnsureRemoveAll d" for c u x v
    using calls_onlyD [OF calls_only_ext [of c noRemoval] that(1)] that(2) by simp
  have t: "onlyCalls noRemoval u v \<and> (sb_State st' = StateReady \<longrightarrow> StartExitMonitor mid (sb_Pid st') \<in> set (trace v))"
    if run: "loadSandboxTask w i mid st u = (r', st', v)" and st: "sb_State st \<noteq> StateReady" for st u r' st' v
  proof -
    obtain r1 u1 where 1: "ext w (CtrTask i) u = (r1, u1)" by fastforce
    obtain r2 u2 where 2: "ext w (TaskStatus i) u1 = (r2, u2)" by fastforce
    obtain r3 u3 where 3: "ext w (TaskWait i) u2 = (r3, u3)" by fastforce
    obtain r4 u4 where 4: "deleteTask w i u2 = (r4, u4)" by fastforce
    have o: "onlyCalls noRemoval u u1" "onlyCalls noRemoval u u2" "onlyCalls noRemoval u u3" "onlyCalls noRemoval u u4"
      using x [OF 1, simplified] x [OF 2, simplified] x [OF 3, simplified] calls_onlyD [OF deleteTask_quiet 4] by (blast intro: onlyCalls_trans)+
    show ?thesis
      using run st o by (auto simp: loadSandboxTask_def Let_def 1 2 3 4 split: sum.splits if_splits)
  qed
  obtain r1 s1 where 1: "ext w (CtrInfo i) s = (r1, s1)" by fastforce
  have o: "onlyCalls noRemoval s s1" using x [OF 1] by simp
  show ?thesis
  proof (cases r1)
    case (Inl e)
    then show ?thesis using assms o by (auto simp: loadSandboxStatus_def 1 unknownSandboxStatus_def)
  next
    case (Inr y)
    have "sb_State (unknownSandboxStatus\<lparr>sb_CreatedAt := c\<rparr>) \<noteq> StateReady" for c by (simp add: unknownSandboxStatus_def)
    with Inr assms t have "onlyCalls noRemoval s1 t \<and> (sb_State status = StateReady \<longrightarrow> StartExitMonitor mid (sb_Pid status) \<in> set (trace t))"
      by (simp add: loadSandboxStatus_def 1)
    then show ?thesis using onlyCalls_trans [OF o] by blast
  qed
qed

lemma loadSandbox_steps:
  assumes "loadSandbox w i s = (r, t)"
  shows "keepAll noRemoval s t \<and> (\<forall>sb. r = Inr sb \<longrightarrow> nextRef s \<le> sb_ref sb \<and> sb_ref sb < nextRef t \<and>
    (sb_State (sbStatusOf sb t) = StateReady \<longrightarrow> StartExitMonitor (sb_ID sb) (sb_Pid (sbStatusOf sb t)) \<in> set (trace t)))"
proof -
  obtain r1 s1 where m: "loadSandboxMetadata w i s = (r1, s1)" by fastforce
  have 1: "onlyCalls noRemoval s s1" by (rule calls_onlyD [OF loadMetadata_quiet(2) m])
  show ?thesis
  proof (cases r1)
    case (Inl e)
    then show ?thesis using assms m keepAll_onlyCalls [OF 1] by (auto simp: loadSandbox_def bindA_def)
  next
    case (Inr md)
    obtain r2 st u where l: "loadSandboxStatus w i (sm_ID md) s1 = (r2, st, u)" by (metis prod_cases3)
    from loadSandboxStatus_steps [OF l] have 2: "onlyCalls noRemoval s u"
      and mon: "sb_State st = StateReady \<Longrightarrow> StartExitMonitor (sm_ID md) (sb_Pid st) \<in> set (trace u)"
      using 1 by (auto intro: onlyCalls_trans)
    have ref: "nextRef u = nextRef s" by (rule onlyCalls_frame(11) [OF 2])
    obtain x where x: "r = Inr (\<lparr>sb_meta = md, sb_ref = nextRef u, sb_Container = Some i, sb_NetNS = x\<rparr>)"
      and t: "t = u\<lparr>nextRef := Suc (nextRef u), sbCells := (sbCells u)(nextRef u := snd (NewSandbox (nextRef u) md st))\<rparr>"
      using assms m Inr l
      by (cases "pc_NsNetwork (configOf \<lparr>sb_meta = md, sb_ref = nextRef u, sb_Container = Some i, sb_NetNS = None\<rparr>) = NS_NODE")
         (auto simp: loadSandbox_def bindA_def NewSandbox_def Let_def)
    have "keepAll noRemoval s t" using keepAll_onlyCalls [OF 2] ref by (auto simp: t keepAll_def extends_def)
    moreover have "sbStatusOf sb t = st" if "r = Inr sb" for sb
      using that x by (auto simp: t sbStatusOf_def NewSandbox_def Sandbox_StatusGet_def Sandbox_StoreStatus_def Sandbox_Stop_def Let_def)
    ultimately show ?thesis using x mon ref by (auto simp: t sb_ID_def)
  qed
qed

subsection \<open>The invariant of the recovery\<close>

text \<open>
  The name index holds exactly the names of the stored objects, the objects have cells, and whatever is running or ready
  has an exit monitor.
\<close>

definition recContainers :: "svc \<Rightarrow> bool" where
  "recContainers s \<longleftrightarrow> cs_inv (containerStore s) \<and> reg_inv (containerNameIndex s) \<and>
     (\<forall>i c. cs_containers (containerStore s) i = Some c \<longrightarrow> c_ref c < nextRef s \<and>
        (State (statusOf c s) = RUNNING \<longrightarrow> StartExitMonitor i (st_Pid (statusOf c s)) \<in> set (trace s))) \<and>
     (\<forall>n i. nameToKey (containerNameIndex s) n = Some i \<longleftrightarrow> (\<exists>c. cs_containers (containerStore s) i = Some c \<and> m_Name (c_meta c) = n))"

definition recSandboxes :: "svc \<Rightarrow> bool" where
  "recSandboxes s \<longleftrightarrow> sbs_inv (sandboxStore s) \<and> reg_inv (sandboxNameIndex s) \<and>
     (\<forall>i sb. ss_sandboxes (sandboxStore s) i = Some sb \<longrightarrow> sb_ref sb < nextRef s \<and>
        (sb_State (sbStatusOf sb s) = StateReady \<longrightarrow> StartExitMonitor i (sb_Pid (sbStatusOf sb s)) \<in> set (trace s))) \<and>
     (\<forall>n i. nameToKey (sandboxNameIndex s) n = Some i \<longleftrightarrow> (\<exists>sb. ss_sandboxes (sandboxStore s) i = Some sb \<and> sm_Name (sb_meta sb) = n))"

lemma keepAll_inv:
  assumes "keepAll A s t"
  shows "recContainers s \<Longrightarrow> recContainers t" "recSandboxes s \<Longrightarrow> recSandboxes t"
proof -
  obtain new where tr: "trace t = new @ trace s" using assms by (auto simp: keepAll_def extends_def)
  have c: "statusOf c t = statusOf c s" if "c_ref c < nextRef s" for c using assms that by (simp add: keepAll_def statusOf_def)
  have b: "sbStatusOf sb t = sbStatusOf sb s" if "sb_ref sb < nextRef s" for sb using assms that by (simp add: keepAll_def sbStatusOf_def)
  show "recContainers s \<Longrightarrow> recContainers t" using assms c tr by (fastforce simp: recContainers_def keepAll_def)
  show "recSandboxes s \<Longrightarrow> recSandboxes t" using assms b tr by (fastforce simp: recSandboxes_def keepAll_def)
qed

lemma reserve_exact:
  assumes "reg_inv idx" "Reserve idx n i = (Inr (), idx')" "objs i = None"
    and "\<And>m j. nameToKey idx m = Some j \<longleftrightarrow> (\<exists>x. objs j = Some x \<and> nameOf x = m)" "nameOf obj = n"
  shows "reg_inv idx' \<and> (\<forall>m j. nameToKey idx' m = Some j \<longleftrightarrow> (\<exists>x. (objs(i \<mapsto> obj)) j = Some x \<and> nameOf x = m))"
proof -
  have r: "nameToKey idx' = (nameToKey idx)(n \<mapsto> i)" using Reserve_Inr [OF assms(1,2)] by simp
  have "nameToKey idx n \<noteq> Some i" using assms(3,4) by simp
  moreover have "fst (Reserve idx n i) = Inr ()" using assms(2) by simp
  ultimately have "nameToKey idx n = None" unfolding Reserve_ok_iff [OF assms(1)] by auto
  then have "\<not> (objs j = Some x \<and> nameOf x = n)" for j x using assms(4) [of n j] by auto
  then show ?thesis
    using nidx.reserve_ok [OF assms(1,2)] assms(3-5) by (auto simp: r split: if_splits)
qed

text \<open>One more object in the store and its name in the index.\<close>

lemma recoverContainers_inv:
  assumes "recoverContainers w is s = (Inr (), t)" "recContainers s" "recSandboxes s" "clockRuns w"
    and "metadataByID w"
  shows "recContainers t \<and> recSandboxes t \<and> sv_config t = sv_config s \<and> extends noRemoval s t \<and>
    dom (cs_containers (containerStore s)) \<subseteq> dom (cs_containers (containerStore t)) \<and>
    dom (cs_containers (containerStore t)) \<subseteq> dom (cs_containers (containerStore s)) \<union> set is \<and>
    (\<forall>i \<in> set is. hasMetadata w i \<and> (\<forall>tr. w_err w tr (WriteFile (status_path (getContainerRootDir (sv_config s) i))) = None) \<longrightarrow>
       i \<in> dom (cs_containers (containerStore t)))"
  using assms(1-3)
proof (induction "is" arbitrary: s)
  case (Cons i js)
  obtain r u where l: "loadContainer w i s = (r, u)" by fastforce
  have k: "keepAll noRemoval s u" by (rule alwaysD [OF loadContainer_keep l])
  then have u: "recContainers u" "recSandboxes u" "containerStore u = containerStore s" "sv_config u = sv_config s" and ex: "extends noRemoval s u"
    using keepAll_inv [OF k] Cons.prems by (auto simp: keepAll_def)
  show ?case
  proof (cases r)
    case (Inl e)
    have "\<not> (hasMetadata w i \<and> (\<forall>tr. w_err w tr (WriteFile (status_path (getContainerRootDir (sv_config s) i))) = None))"
      using l
    proof (cases rule: loadContainer_steps)
      case (object m tr status io v)
      then show ?thesis using Inl onlyCalls_frame(9) [OF object(2)] by (cases rule: recoverObject_cases [of w i m status io v]) auto
    qed simp
    then show ?thesis using Cons.IH [of u] Cons.prems(1) l Inl u tr.rel_trans [OF ex] by auto
  next
    case (Inr c)
    from loadContainer_Inr [OF l [unfolded Inr]] assms(4,5) have c: "nextRef s \<le> c_ref c" "c_ref c < nextRef u" "c_ID c = i"
      and mon: "State (statusOf c u) = RUNNING \<Longrightarrow> StartExitMonitor i (st_Pid (statusOf c u)) \<in> set (trace u)"
      by (auto simp: c_ID_def metadataByID_def)
    from Cons.prems(1) l Inr c(3) obtain st L idx where
      add: "Store_Add c (containerStore u) (labelStore u) = (Inr (), st, L)" and
      res: "Reserve (containerNameIndex u) (m_Name (c_meta c)) i = (Inr (), idx)" and
      rest: "recoverContainers w js (u\<lparr>containerStore := st, labelStore := L, containerNameIndex := idx\<rparr>) = (Inr (), t)"
      by (auto simp: act_simps storeAdd_def reserveContainerName_def Let_def split: prod.splits)
    let ?v = "u\<lparr>containerStore := st, labelStore := L, containerNameIndex := idx\<rparr>"
    from cstore.add_Inr [OF _ add] u(1) c(3) have a: "cs_inv st" "cs_containers (containerStore u) i = None"
      "cs_containers st = (cs_containers (containerStore u))(i \<mapsto> c)" by (auto simp: recContainers_def)
    have "reg_inv idx \<and> (\<forall>m j. nameToKey idx m = Some j \<longleftrightarrow>
        (\<exists>x. ((cs_containers (containerStore u))(i \<mapsto> c)) j = Some x \<and> m_Name (c_meta x) = m))"
      by (rule reserve_exact [where objs = "cs_containers (containerStore u)" and nameOf = "\<lambda>x. m_Name (c_meta x)", OF _ res a(2)]) (use u(1) in \<open>simp_all add: recContainers_def\<close>)
    with u(1) a c mon have v: "recContainers ?v" by (auto simp: recContainers_def statusOf_def)
    have "recSandboxes ?v" using u(2) by (simp add: recSandboxes_def sbStatusOf_def)
    note ih = Cons.IH [OF rest v this, simplified, unfolded a(3) dom_fun_upd, simplified, unfolded u]
    have "extends noRemoval s ?v" using ex by (simp add: extends_def)
    then have "extends noRemoval s t" using ih tr.rel_trans by blast
    then show ?thesis using ih by auto
  qed
qed (auto simp: tr.rel_refl)

lemma recoverSandboxes_inv:
  assumes "recoverSandboxes w is s = (Inr (), t)" "recContainers s" "recSandboxes s"
  shows "recContainers t \<and> recSandboxes t \<and> containerStore t = containerStore s \<and> sv_config t = sv_config s \<and> extends noRemoval s t"
  using assms
proof (induction "is" arbitrary: s)
  case (Cons i js)
  obtain r u where l: "loadSandbox w i s = (r, u)" by fastforce
  note ls = loadSandbox_steps [OF l]
  then have u: "recContainers u" "recSandboxes u" "containerStore u = containerStore s" "sv_config u = sv_config s" and ex: "extends noRemoval s u"
    using keepAll_inv Cons.prems by (auto simp: keepAll_def)
  show ?case
  proof (cases r)
    case (Inl e)
    then show ?thesis using Cons.IH [of u] Cons.prems(1) l u tr.rel_trans [OF ex] by auto
  next
    case (Inr sb)
    with Cons.prems(1) l obtain st L idx where
      add: "Sandbox_Add sb (sandboxStore u) (labelStore u) = (Inr (), st, L)" and
      res: "Reserve (sandboxNameIndex u) (sm_Name (sb_meta sb)) (sb_ID sb) = (Inr (), idx)" and
      rest: "recoverSandboxes w js (u\<lparr>sandboxStore := st, labelStore := L, sandboxNameIndex := idx\<rparr>) = (Inr (), t)"
      by (auto simp: act_simps sandboxAdd_def reserveSandboxName_def Let_def split: prod.splits)
    let ?v = "u\<lparr>sandboxStore := st, labelStore := L, sandboxNameIndex := idx\<rparr>"
    from sbstore.add_Inr [OF _ add] u(2) have a: "sbs_inv st" "ss_sandboxes (sandboxStore u) (sb_ID sb) = None"
      "ss_sandboxes st = (ss_sandboxes (sandboxStore u))(sb_ID sb \<mapsto> sb)" by (auto simp: recSandboxes_def)
    have "reg_inv idx \<and> (\<forall>m j. nameToKey idx m = Some j \<longleftrightarrow>
        (\<exists>x. ((ss_sandboxes (sandboxStore u))(sb_ID sb \<mapsto> sb)) j = Some x \<and> sm_Name (sb_meta x) = m))"
      by (rule reserve_exact [where objs = "ss_sandboxes (sandboxStore u)" and nameOf = "\<lambda>x. sm_Name (sb_meta x)", OF _ res a(2)]) (use u(2) in \<open>simp_all add: recSandboxes_def\<close>)
    with u(2) a ls Inr have v: "recSandboxes ?v" by (auto simp: recSandboxes_def sbStatusOf_def)
    have "recContainers ?v" using u(1) by (simp add: recContainers_def statusOf_def)
    note ih = Cons.IH [OF rest this v]
    have "extends noRemoval s ?v" using ex by (simp add: extends_def)
    then have "extends noRemoval s t" using ih tr.rel_trans by blast
    then show ?thesis using ih u by auto
  qed
qed (auto simp: tr.rel_refl)

subsection \<open>Images and orphaned directories\<close>

lemma keepAll_ext: "c \<in> A \<Longrightarrow> always (keepAll A) (ext w c)"
  by (rule keepAll_calls_only [OF calls_only_ext])

context state_rel begin

lemma always_updateImage:
  assumes log: "\<And>c s. c \<in> imageCalls \<Longrightarrow> R s (logCall c s)" and up: "\<And>r. always R (storeUpdate w r)"
  shows "always R (updateImage w n)"
proof -
  have l: "R s (logCall (GetImage m) s)" "R s (logCall (ImageConfig m) s)" "R s (logCall (CreateImage m target) s)"
    "R s (logCall (UpdateImageRef m target) s)" for m target s
    by (rule log; simp add: imageCalls_def)+
  have c: "always R (createImageReference w m target)" for m target
    unfolding always_def createImageReference_def ext_def
    by (auto split: option.splits if_splits prod.splits intro: l rel_trans)
  have refresh: "always R (wrapA (storeUpdate w n) f args)" for f args by (intro always_wrap up)
  have manage: "always R (bindA (wrapA (thenA (modifyA (logCall (ImageConfig n))) (liftA (ci_Config img))) f1 a1) (\<lambda>i.
      thenA (wrapA (createImageReference w i (ci_Target img)) f2 [i])
     (thenA (wrapA (storeUpdate w i) f3 [i])
     (thenA (wrapA (createImageReference w n (ci_Target img)) f4 a4) (wrapA (storeUpdate w n) f5 a5)))))" for img f1 a1 f2 f3 f4 a4 f5 a5
    by (intro always_bind always_then always_wrap always_modify always_basic c up l)
  show ?thesis
    unfolding always_def
  proof (intro allI impI)
    fix s r t assume "updateImage w n s = (r, t)"
    then have "R (logCall (GetImage n) s) t"
      by (auto simp: updateImage_def Let_def rel_refl split: sum.splits if_splits dest: alwaysD [OF refresh] alwaysD [OF manage])
    then show "R s t" using l(1) rel_trans by blast
  qed
qed

end

lemma keepAll_logCall: "c \<in> A \<Longrightarrow> keepAll A s (logCall c s)" by (rule keepAll_onlyCalls) auto

lemma storeUpdate_keep: "always (keepAll imageCalls) (storeUpdate w r)"
  by (auto simp: always_def storeUpdate_def keepAll_def imageCalls_def Let_def intro!: extendsI [of _ "[GetImage r]"] split: prod.splits)

lemmas updateImage_keep = keep.always_updateImage [OF keepAll_logCall storeUpdate_keep]

lemma keepAll_mono: "keepAll A s t \<Longrightarrow> A \<subseteq> B \<Longrightarrow> keepAll B s t"
  by (auto simp: keepAll_def intro: extends_mono)

definition imageChecks :: "extcall set" where
  "imageChecks = imageCalls \<union> range CheckImage \<union> range IsUnpacked"

lemma loadImages_steps: "keepAll imageChecks s (loadImages w ns s)"
proof (induction ns arbitrary: s)
  case (Cons n ns)
  have i: "keepAll imageChecks u (ignoreA (updateImage w n) u)" for u
    by (rule keepAll_mono [OF always_ignore [OF updateImage_keep]]) (auto simp: imageChecks_def)
  obtain r1 t where 1: "ext w (CheckImage n) s = (r1, t)" by fastforce
  obtain r2 u where 2: "ext w (IsUnpacked n) t = (r2, u)" by fastforce
  have "keepAll imageChecks s t" "keepAll imageChecks t u"
    using alwaysD [OF keepAll_ext 1] alwaysD [OF keepAll_ext 2] by (simp_all add: imageChecks_def)
  then have "keepAll imageChecks s t" "keepAll imageChecks s u" "keepAll imageChecks s (ignoreA (updateImage w n) u)"
    using i keep.rel_trans by blast+
  then show ?case using Cons.IH keep.rel_trans by (auto simp: 1 2 split: sum.splits)
qed (simp add: keep.rel_refl)

text \<open>Which directories are removed.\<close>

definition orphanCalls :: "string list \<Rightarrow> string \<Rightarrow> extcall set" where
  "orphanCalls ids base = insert (ReadDir base) {c. \<exists>name. c = EnsureRemoveAll (Join [base, name] ''/'') \<and> name \<notin> set ids}"

lemma removeOrphans_steps: "keepAll (orphanCalls ids base) s (removeOrphans w ids base ds s)"
proof (induction ds arbitrary: s)
  case (Cons d ds)
  obtain name isDir where d: "d = (name, isDir)" by fastforce
  show ?case
  proof (cases "\<not> isDir \<or> name \<in> set ids")
    case False
    then have c: "EnsureRemoveAll (Join [base, name] ''/'') \<in> orphanCalls ids base" by (auto simp: orphanCalls_def)
    then have "keepAll (orphanCalls ids base) s (ignoreA (removeDir w (Join [base, name] ''/'')) s)"
      by (auto simp: removeDir_def ignoreA_def thenA_def bindA_def ext_def keepAll_def simp del: Join.simps split: option.splits
          intro!: extendsI [of _ "[EnsureRemoveAll (Join [base, name] ''/'')]"])
    then show ?thesis using False Cons.IH keep.rel_trans unfolding d removeOrphans.simps by (auto simp del: Join.simps)
  qed (use Cons.IH d in simp)
qed (simp add: keep.rel_refl)

lemma cleanupOrphanedIDDirs_steps: "always (keepAll (orphanCalls ids base)) (cleanupOrphanedIDDirs w ids base)"
  unfolding always_def
proof (intro allI impI)
  fix s r t assume run: "cleanupOrphanedIDDirs w ids base s = (r, t)"
  obtain x u where u: "ext w (ReadDir base) s = (x, u)" by fastforce
  have "keepAll (orphanCalls ids base) s u" using alwaysD [OF keepAll_ext u] by (simp add: orphanCalls_def)
  then show "keepAll (orphanCalls ids base) s t"
    using run removeOrphans_steps [of ids base u w] keep.rel_trans
    by (fastforce simp: cleanupOrphanedIDDirs_def u split: sum.splits if_splits)
qed

definition orphanRemovals :: "criConfig \<Rightarrow> string list \<Rightarrow> string list \<Rightarrow> extcall set" where
  "orphanRemovals cfg sandboxes containers = {c. \<forall>d. c = EnsureRemoveAll d \<longrightarrow>
     (\<exists>i. d \<in> {getSandboxRootDir cfg i, getVolatileSandboxRootDir cfg i} \<and> i \<notin> set sandboxes) \<or>
     (\<exists>i. d \<in> {getContainerRootDir cfg i, getVolatileContainerRootDir cfg i} \<and> i \<notin> set containers)}"

lemma cleanupDirs_steps: "always (keepAll (orphanRemovals cfg sandboxes containers)) (cleanupDirs w sandboxes containers cfg)"
proof -
  have "orphanCalls sandboxes (Join [cf_RootDir cfg, ''sandboxes''] ''/'') \<subseteq> orphanRemovals cfg sandboxes containers"
    "orphanCalls sandboxes (Join [cf_StateDir cfg, ''sandboxes''] ''/'') \<subseteq> orphanRemovals cfg sandboxes containers"
    "orphanCalls containers (Join [cf_RootDir cfg, ''containers''] ''/'') \<subseteq> orphanRemovals cfg sandboxes containers"
    "orphanCalls containers (Join [cf_StateDir cfg, ''containers''] ''/'') \<subseteq> orphanRemovals cfg sandboxes containers"
    by (auto simp: orphanCalls_def orphanRemovals_def getSandboxRootDir_def getVolatileSandboxRootDir_def getContainerRootDir_def
        getVolatileContainerRootDir_def)
  then show ?thesis
    unfolding cleanupDirs_def by (intro rel_intros always_mono [OF cleanupOrphanedIDDirs_steps keepAll_mono])
qed

subsection \<open>Correctness of the recovery\<close>


text \<open>A node on which containerd knows one container, with its task running.\<close>

definition restart_svc :: svc where
  "restart_svc = (example_svc (zero_status\<lparr>st_CreatedAt := 1, st_StartedAt := 2\<rparr>))\<lparr>
     containerStore := NewStore, sandboxStore := Sandbox_NewStore, containerNameIndex := NewRegistrar, sandboxNameIndex := NewRegistrar\<rparr>"

definition restart_world :: world where
  "restart_world = example_world\<lparr>
     w_now := (\<lambda>_. 9),
     w_containers := (\<lambda>_ kind. if kind = containerKindContainer then [''c1''] else []),
     w_ctrMeta := (\<lambda>_ i. Some (Inr (zero_metadata\<lparr>m_ID := i, m_Name := ''n1''\<rparr>))),
     w_taskStatus := (\<lambda>_ _. \<lparr>ts_Status = Task_Running, ts_ExitStatus = 0, ts_ExitTime = 3\<rparr>)\<rparr>"

lemma restart_simps:
  "noFailures restart_world" "hasMetadata restart_world i" "metadataByID restart_world" "clockRuns restart_world"
  "w_containers restart_world tr kind = (if kind = containerKindContainer then [''c1''] else [])" "w_images restart_world tr = []"
  "w_dirs restart_world tr d = []" "w_err restart_world tr x = None"
  by (simp_all add: noFailures_def hasMetadata_def metadataByID_def clockRuns_def restart_world_def example_world_def)

lemma restart_container:
  assumes "containerStore s = NewStore" "containerNameIndex s = NewRegistrar"
  shows "\<exists>t. recoverContainers restart_world [''c1''] s = (Inr (), t)"
proof -
  obtain r u where l: "loadContainer restart_world ''c1'' s = (r, u)" by fastforce
  have k: "containerStore u = NewStore" "containerNameIndex u = NewRegistrar"
    using alwaysD [OF loadContainer_keep l] assms by (simp_all add: keepAll_def)
  obtain c where r: "r = Inr c" using l
  proof (cases rule: loadContainer_steps)
    case (object m tr status io v)
    then show ?thesis using that restart_simps(8) by (cases rule: recoverObject_cases [of restart_world "''c1''" m status io v]) auto
  qed (simp add: restart_simps)
  obtain tr where "w_ctrMeta restart_world tr ''c1'' = Some (Inr (c_meta c))" using loadContainer_Inr [OF l [unfolded r]] by blast
  then have m: "c_meta c = zero_metadata\<lparr>m_ID := ''c1'', m_Name := ''n1''\<rparr>" by (simp add: restart_world_def)
  have "fst (Store_Add c (containerStore u) (labelStore u)) = Inr ()"
    unfolding k cstore.add_ok_iff [OF NewStore_inv]
    by (simp add: NewStore_def c_ID_def c_ProcessLabel_def m zero_metadata_def Label_Reserve_def NewContext_def ctx_level_def)
  then obtain v where v: "storeAdd c u = (Inr (), v)" "containerNameIndex v = NewRegistrar"
    using k by (cases "Store_Add c (containerStore u) (labelStore u)") (auto simp: storeAdd_def)
  have "fst (Reserve NewRegistrar ''n1'' ''c1'') = Inr ()" by (simp add: Reserve_ok_iff NewRegistrar_def [symmetric]) (simp add: NewRegistrar_def)
  then show ?thesis
    using l r v m by (cases "Reserve NewRegistrar ''n1'' ''c1''")
      (auto simp: run_simps reserveContainerName_def zero_metadata_def c_ID_def)
qed

lemma restart_runs: "\<exists>t. recover restart_world restart_svc = (Inr (), t)"
proof -
  let ?w = restart_world let ?s = "logCall (ListContainers containerKindContainer) (logCall (ListContainers containerKindSandbox) restart_svc)"
  note x = ext_ok [OF restart_simps(1)]
  have "containerStore ?s = NewStore" "containerNameIndex ?s = NewRegistrar" by (simp_all add: restart_svc_def)
  then obtain t where t: "recoverContainers ?w [''c1''] ?s = (Inr (), t)" using restart_container by blast
  have "\<exists>u. cleanupDirs ?w a b cfg v = (Inr (), u)" for a b cfg v
    by (simp add: cleanupDirs_def cleanupOrphanedIDDirs_def run_simps x restart_simps)
  then obtain u where "cleanupDirs ?w [] [''c1''] (sv_config t) (logCall extcall.ListImages t) = (Inr (), u)" by blast
  then show ?thesis using t
    by (simp add: recover_def run_simps x restart_simps containerKindSandbox_def containerKindContainer_def del: recoverContainers.simps)
qed


end
