(* ===== verification/RecoveryState.thy ===== *)
theory RecoveryState
  imports Recovery
begin

section \<open>The state of a recovered container\<close>

text \<open>
  What \<^verbatim>\<open>loadContainer\<close> of \<^verbatim>\<open>pkg/server/restart.go\<close> makes of the two sources it has, the checkpoint of the
  container and the task in containerd, as a table. \<open>taskView\<close> is what containerd answers during the recovery of the
  container, \<open>steady w i v\<close> that it keeps answering so; writing and reading files may fail all the same.
\<close>

datatype taskView = NoTask | Unreachable | TaskIs processStatus

definition steady :: "world \<Rightarrow> string \<Rightarrow> taskView \<Rightarrow> bool" where
  "steady w i v \<longleftrightarrow>
     (case v of
        NoTask \<Rightarrow> \<forall>tr. (\<exists>e. w_err w tr (CtrTask i) = Some e \<and> IsNotFound e) \<and> w_err w tr (NewIO i) = None
      | Unreachable \<Rightarrow> \<forall>tr. \<exists>e. w_err w tr (CtrTask i) = Some e \<and> \<not> IsNotFound e
      | TaskIs p \<Rightarrow> (\<forall>tr c. (\<forall>f. c \<noteq> ReadFile f \<and> c \<noteq> WriteFile f) \<longrightarrow> w_err w tr c = None) \<and>
                    (\<forall>tr. ts_Status (w_taskStatus w tr i) = p))"

text \<open>The state by the state of the checkpoint; a container whose checkpoint is lost stays unknown.\<close>

fun recoveredState :: "container_state \<Rightarrow> taskView \<Rightarrow> container_state" where
  "recoveredState k NoTask = (if k = RUNNING then EXITED else k)"
| "recoveredState k Unreachable = CONTAINER_UNKNOWN"
| "recoveredState k (TaskIs Task_Created) = (if k = CREATED then CREATED else CONTAINER_UNKNOWN)"
| "recoveredState k (TaskIs Task_Running) = (if k = EXITED then CONTAINER_UNKNOWN else RUNNING)"
| "recoveredState k (TaskIs Task_Stopped) = EXITED"
| "recoveredState k (TaskIs (Task_Other _)) = CONTAINER_UNKNOWN"

abbreviation finalStatus :: "unit result \<Rightarrow> status \<Rightarrow> status" where
  "finalStatus r st \<equiv> (case r of Inl _ \<Rightarrow> st\<lparr>st_Unknown := True\<rparr> | Inr _ \<Rightarrow> st)"

text \<open>What the checkpoint says, or the unknown status when it cannot be read.\<close>

definition checkpoint :: "goerror option \<Rightarrow> string \<Rightarrow> disk \<Rightarrow> status" where
  "checkpoint rerr dir d = (case LoadStatus rerr dir d of Inl _ \<Rightarrow> unknownContainerStatus | Inr st \<Rightarrow> st)"

definition recovers :: "world \<Rightarrow> string \<Rightarrow> taskView \<Rightarrow> status \<Rightarrow> status \<Rightarrow> extcall list \<Rightarrow> bool" where
  "recovers w i v ck st tr \<longleftrightarrow>
     State st = (if st_Unknown ck then CONTAINER_UNKNOWN else recoveredState (State ck) v) \<and>
     st_CreatedAt st = st_CreatedAt ck \<and>
     (v = NoTask \<longrightarrow> State ck = RUNNING \<longrightarrow> st_ExitCode st = unknownExitCode \<and> st_Reason st = unknownExitReason) \<and>
     (v = TaskIs Task_Stopped \<longrightarrow> (\<exists>tr'. st_FinishedAt st = ts_ExitTime (w_taskStatus w tr' i) \<and> st_ExitCode st = ts_ExitStatus (w_taskStatus w tr' i))) \<and>
     (v = TaskIs Task_Running \<longrightarrow> State ck \<noteq> EXITED \<longrightarrow> StartExitMonitor i (st_Pid st) \<in> set tr) \<and>
     (v = TaskIs Task_Running \<longrightarrow> State ck = RUNNING \<longrightarrow> st = ck)"

lemma State_flags:
  "State (st\<lparr>st_Unknown := True\<rparr>) = CONTAINER_UNKNOWN"
  "st_Unknown st \<Longrightarrow> State st = CONTAINER_UNKNOWN"
  by (simp_all add: State_def)

lemma attachTask_ok:
  assumes "steady w i (TaskIs p)"
  shows "\<exists>io t. attachTask w i meta s = (Inr io, t)"
  using assms
  by (auto simp: steady_def attachTask_def attachIO_def createContainerLoggers_def run_simps ext_def getA_def modifyA_def returnA_def)

lemma missingTask_recovers:
  assumes "steady w i NoTask" "clockRuns w" "missingTask w i ck io s = (r, st, io', t)"
  shows "recovers w i NoTask ck (finalStatus r st) (trace t)"
proof -
  have ok: "ext w (NewIO i) s = (Inr (), logCall (NewIO i) s)" using assms(1) by (simp add: steady_def ext_def)
  have now: "w_now w tr \<noteq> 0" for tr using assms(2) by (simp add: clockRuns_def)
  show ?thesis
    using assms(3) now [of "trace s"]
    by (cases "State ck") (auto simp: missingTask_def ok recovers_def unknownExit_def State_def split: if_splits)
qed

lemma presentTask_recovers:
  assumes "steady w i (TaskIs p)" "clockRuns w" "presentTask w i (w_taskStatus w tr i) ck io s = (r, st, io', t)"
  shows "recovers w i (TaskIs p) ck (finalStatus r st) (trace t)"
proof -
  have ok: "ext w c u = (Inr (), logCall c u)" if "\<forall>f. c \<noteq> ReadFile f \<and> c \<noteq> WriteFile f" for c u
    using assms(1) that by (simp add: steady_def ext_def)
  have del: "deleteTask w i u = (Inr (), logCall (TaskDelete i) u)" for u
    by (simp add: deleteTask_def tolerateA_def wrapA_def ok)
  have now: "w_now w tr \<noteq> 0" "ts_ExitTime (w_taskStatus w tr i) \<noteq> 0" for tr using assms(2) by (simp_all add: clockRuns_def)
  have p: "ts_Status (w_taskStatus w tr i) = p" using assms(1) by (simp add: steady_def)
  show ?thesis
  proof (cases p)
    case Task_Running
    then have run: "runningTask w i ck io s = (r, st, io', t)" using assms(3) p by (simp add: presentTask_def)
    have started: "State (ck\<lparr>st_StartedAt := w_now w (trace s), st_Pid := q\<rparr>) = (if st_Unknown ck then CONTAINER_UNKNOWN else RUNNING)"
      if "State ck \<noteq> EXITED" for q
      using that now(1) [of "trace s"] by (auto simp: State_def split: if_splits)
    show ?thesis
    proof (cases "State ck")
      case EXITED
      then have "\<not> st_Unknown ck" using State_flags(2) by fastforce
      then show ?thesis using run EXITED Task_Running by (auto simp: runningTask_def recovers_def State_flags)
    next
      case RUNNING
      then have "\<not> st_Unknown ck" using State_flags(2) by fastforce
      then show ?thesis using run RUNNING Task_Running by (auto simp: runningTask_def Let_def ok recovers_def)
    qed (use run Task_Running started in \<open>auto simp: runningTask_def Let_def ok recovers_def\<close>)
  next
    case Task_Stopped
    then show ?thesis using assms(3) p now
      by (auto simp: presentTask_def del recovers_def State_def)
  qed (use assms(3) p in \<open>auto simp: presentTask_def del recovers_def State_flags split: if_splits\<close>)
qed

lemma loadTaskStatus_recovers:
  assumes "steady w i v" "clockRuns w" "loadTaskStatus w i meta ck s = (r, st, io, t)"
  shows "recovers w i v ck (finalStatus r st) (trace t)"
proof (cases v)
  case NoTask
  then obtain e s1 where "attachTask w i meta s = (Inl e, s1)" "IsNotFound e"
    using assms(1) by (auto simp: steady_def attachTask_def run_simps ext_def split: option.splits dest: spec [of _ "trace s"])
  then show ?thesis using assms NoTask missingTask_recovers by (auto simp: loadTaskStatus_def)
next
  case Unreachable
  then obtain e s1 where "attachTask w i meta s = (Inl e, s1)" "\<not> IsNotFound e"
    using assms(1) by (auto simp: steady_def attachTask_def run_simps ext_def split: option.splits dest: spec [of _ "trace s"])
  then show ?thesis using assms(3) Unreachable by (auto simp: loadTaskStatus_def recovers_def State_flags)
next
  case (TaskIs p)
  obtain io1 s1 where a: "attachTask w i meta s = (Inr io1, s1)" using attachTask_ok assms(1) TaskIs by blast
  have "ext w (TaskStatus i) s1 = (Inr (), logCall (TaskStatus i) s1)" using assms(1) TaskIs by (simp add: steady_def ext_def)
  then have "presentTask w i (w_taskStatus w (trace (logCall (TaskStatus i) s1)) i) ck io1 (logCall (TaskStatus i) s1) = (r, st, io, t)"
    using assms(3) a by (simp add: loadTaskStatus_def)
  then show ?thesis using presentTask_recovers assms(1,2) TaskIs by blast
qed

lemma loadContainer_recovers:
  assumes "loadContainer w i s = (Inr c, t)" "steady w i v" "clockRuns w"
    and "dir = getContainerRootDir (sv_config s) i" "\<forall>tr. w_err w tr (ReadFile (status_path dir)) = rerr"
  shows "recovers w i v (checkpoint rerr dir (svDisk s)) (statusOf c t) (trace t) \<and>
         svDisk t (status_path dir) = Some (encode (statusOf c t))"
proof -
  obtain r1 s1 where m: "loadMetadata w i s = (r1, s1)" by fastforce
  then obtain meta where meta: "r1 = Inr meta" using assms(1) by (cases r1) (auto simp: loadContainer_def bindA_def)
  have keep: "sv_config s1 = sv_config s" "svDisk s1 = svDisk s"
    using onlyCalls_frame [OF calls_onlyD [OF loadMetadata_quiet(1) m]] by auto
  let ?s2 = "logCall (ReadFile (status_path dir)) s1" and ?ck = "checkpoint rerr dir (svDisk s)"
  have ck: "loadCheckpoint w dir s1 = (Inr ?ck, ?s2)"
    using assms(5) keep by (simp add: loadCheckpoint_def checkpoint_def Let_def)
  obtain r st io s3 where l: "loadTaskStatus w i meta ?ck ?s2 = (r, st, io, s3)" by (metis prod_cases4)
  have rec: "recovers w i v ?ck (finalStatus r st) (trace s3)" by (rule loadTaskStatus_recovers [OF assms(2,3) l])
  have cfg: "sv_config s3 = sv_config s" using onlyCalls_frame [OF loadTaskStatus_quiet [OF l]] keep by auto
  have obj: "recoverObject w i meta (finalStatus r st) io s3 = (Inr c, t)"
    using assms(1,4) m meta ck l keep by (simp add: loadContainer_def bindA_def getA_def split: sum.splits)
  show ?thesis
  proof (cases rule: recoverObject_cases [of w i meta "finalStatus r st" io s3])
    case ok
    then have t: "statusOf c t = finalStatus r st" "trace t = WriteFile (status_path dir) # trace s3"
        "svDisk t (status_path dir) = Some (encode (finalStatus r st))"
      using obj cfg assms(4) by (auto simp: statusOf_def StorageGet_def)
    have "recovers w i v ?ck (finalStatus r st) (trace t)" using rec by (auto simp: recovers_def t(2))
    then show ?thesis using t by simp
  qed (use obj in simp)
qed

text \<open>
  C12: the state of a recovered container is the function \<open>recoveredState\<close> of the state in its checkpoint and of
  what containerd says of its task: a container without a task is exited if it was running, with exit code 255 and reason
  unknown, and otherwise what it was; a running task makes it running, with an exit monitor for the recorded pid, unless the checkpoint says it
  has exited; a stopped task makes it exited with the exit code and time of the task; a container
  in any contradictory case, or whose task cannot be reached, or whose checkpoint is lost, is unknown. The new checkpoint
  is that of the recovered status.
\<close>

theorem loadContainer_state:
  assumes "loadContainer w i s = (Inr c, t)" "steady w i v" "clockRuns w"
    and "dir = getContainerRootDir (sv_config s) i" "\<forall>tr. w_err w tr (ReadFile (status_path dir)) = rerr"
    and "ck = checkpoint rerr dir (svDisk s)"
  shows "State (statusOf c t) = (if st_Unknown ck then CONTAINER_UNKNOWN else recoveredState (State ck) v) \<and>
    st_CreatedAt (statusOf c t) = st_CreatedAt ck \<and>
    (v = NoTask \<longrightarrow> State ck = RUNNING \<longrightarrow> st_ExitCode (statusOf c t) = unknownExitCode \<and> st_Reason (statusOf c t) = unknownExitReason) \<and>
    (v = TaskIs Task_Stopped \<longrightarrow> (\<exists>tr. st_FinishedAt (statusOf c t) = ts_ExitTime (w_taskStatus w tr i) \<and>
       st_ExitCode (statusOf c t) = ts_ExitStatus (w_taskStatus w tr i))) \<and>
    (v = TaskIs Task_Running \<longrightarrow> State ck \<noteq> EXITED \<longrightarrow> StartExitMonitor i (st_Pid (statusOf c t)) \<in> set (trace t)) \<and>
    svDisk t (status_path dir) = Some (encode (statusOf c t))"
  using loadContainer_recovers [OF assms(1-5)] by (simp add: recovers_def assms(6))

lemma restart_steady: "steady restart_world ''c1'' (TaskIs Task_Running)"
  using restart_simps(8) by (simp add: steady_def restart_world_def)

lemma restart_loads: "\<exists>c t. loadContainer restart_world ''c1'' restart_svc = (Inr c, t)"
proof -
  obtain r u where l: "loadContainer restart_world ''c1'' restart_svc = (r, u)" by fastforce
  then show ?thesis
  proof (cases rule: loadContainer_steps)
    case (object m tr status io v)
    then show ?thesis using l restart_simps(8) by (cases rule: recoverObject_cases [of restart_world "''c1''" m status io v]) auto
  qed (simp add: restart_simps)
qed

theorem loadContainer_state_witness:
  "\<exists>c t. loadContainer restart_world ''c1'' restart_svc = (Inr c, t) \<and>
     State (statusOf c t) = RUNNING \<and> StartExitMonitor ''c1'' (st_Pid (statusOf c t)) \<in> set (trace t) \<and>
     svDisk t (status_path (getContainerRootDir (sv_config restart_svc) ''c1'')) = Some (encode (statusOf c t))"
proof -
  obtain c t where run: "loadContainer restart_world ''c1'' restart_svc = (Inr c, t)" using restart_loads by blast
  have ck: "checkpoint None (getContainerRootDir (sv_config restart_svc) ''c1'') (svDisk restart_svc) =
      zero_status\<lparr>st_CreatedAt := 1, st_StartedAt := 2\<rparr>" by code_simp
  show ?thesis
    using run loadContainer_state [OF run restart_steady restart_simps(4) refl _ refl, of None] restart_simps(8)
    by (auto simp: ck State_def zero_status_def)
qed

end
