(* ===== verification/Logger.thy ===== *)
theory Logger
  imports GoStrings
begin

section \<open>Container logs\<close>

text \<open>
  \<^verbatim>\<open>pkg/server/io/logger.go\<close>: the goroutine that copies what a container writes into its log file, in the
  format of the CRI, and cuts lines that are longer than the configured limit.

  The stream is the byte string that the container writes and the error that ends it. \<open>ReadSlice\<close> is
  \<^verbatim>\<open>bufio.Reader.ReadSlice\<close>: however the bytes arrive, it returns up to the first newline, or a full
  buffer, or what is left with the error. A panic is a value of the result.
\<close>

abbreviation LF :: char where "LF \<equiv> CHR 0x0A"
abbreviation CR :: char where "CR \<equiv> CHR 0x0D"

datatype readErr = ErrBufferFull | StreamErr string

datatype logPanic = FullReadError | ExceedLength

definition ReadSlice :: "nat \<Rightarrow> string \<Rightarrow> string \<Rightarrow> string \<times> readErr option \<times> string" where
  "ReadSlice bs fin rest =
     (if LF \<in> set (take bs rest) then
        (takeWhile (\<lambda>c. c \<noteq> LF) rest @ [LF], None, tl (dropWhile (\<lambda>c. c \<noteq> LF) rest))
      else if bs \<le> length rest then (take bs rest, Some ErrBufferFull, drop bs rest)
      else (rest, Some (StreamErr fin), []))"

text \<open>
  After a full buffer \<^verbatim>\<open>UnreadByte\<close> cannot fail: the last byte read is the last one of the buffer, and a
  byte has been read.
\<close>

definition readLine :: "nat \<Rightarrow> string \<Rightarrow> string \<Rightarrow> logPanic + (string \<times> bool \<times> string option \<times> string)" where
  "readLine bs fin rest0 =
     (case ReadSlice bs fin rest0 of
        (line, Some ErrBufferFull, rest) \<Rightarrow>
          (if line \<noteq> [] \<and> last line = CR then Inr (butlast line, True, None, CR # rest)
           else Inr (line, True, None, rest))
      | (line, err, rest) \<Rightarrow>
          (let e = (case err of Some (StreamErr s) \<Rightarrow> Some s | _ \<Rightarrow> None) in
           if line = [] then Inr ([], False, e, rest)
           else if last line = LF then
             (if e \<noteq> None then Inl FullReadError
              else (let drp = (if 1 < length line \<and> line ! (length line - 2) = CR then 2 else 1)
                    in Inr (take (length line - drp) line, False, e, rest)))
           else Inr (line, False, e, rest)))"

definition defaultBufSize :: int where "defaultBufSize = 4096"

text \<open>\<^verbatim>\<open>bufio.NewReaderSize\<close> raises the bs to 16 bytes.\<close>

definition readerSize :: "int \<Rightarrow> nat" where
  "readerSize maxLen = nat (max 16 (if 0 < maxLen \<and> maxLen < defaultBufSize then maxLen else defaultBufSize))"

definition LogTagPartial :: string where "LogTagPartial = ''P''"
definition LogTagFull :: string where "LogTagFull = ''F''"

type_synonym logEntry = "string \<times> string"

text \<open>The body of the loop up to the test of \<^verbatim>\<open>isPrefix\<close>: the buffered pieces and what has to be written.\<close>

definition cutLine :: "int \<Rightarrow> string list \<Rightarrow> int \<Rightarrow> logPanic + (string list \<times> int \<times> logEntry list)" where
  "cutLine maxLen buf len =
     (if 0 < maxLen \<and> maxLen < len then
        (let exceedLen = len - maxLen; lst = last buf in
         if int (length lst) < exceedLen then Inl ExceedLength
         else (let k = length lst - nat exceedLen in
               Inr ([drop k lst], exceedLen, [(LogTagPartial, concat (butlast buf @ [take k lst]))])))
      else Inr (buf, len, []))"

text \<open>One iteration: \<open>Inl\<close> the panic, otherwise what is written and, unless the loop ends, the next state.\<close>

definition logStep :: "int \<Rightarrow> string \<Rightarrow> string list \<Rightarrow> int \<Rightarrow> string \<Rightarrow>
    logPanic + (logEntry list \<times> (string list \<times> int \<times> string) option)" where
  "logStep maxLen fin buf0 len0 rest0 =
     (case readLine (readerSize maxLen) fin rest0 of
        Inl p \<Rightarrow> Inl p
      | Inr (newLine, isPrefix, err, rest) \<Rightarrow>
          (let buf1 = (if newLine \<noteq> [] then buf0 @ [newLine] else buf0);
               len1 = (if newLine \<noteq> [] then len0 + int (length newLine) else len0)
           in if err \<noteq> None \<and> len1 = 0 then Inr ([], None)
              else case cutLine maxLen buf1 len1 of
                     Inl p \<Rightarrow> Inl p
                   | Inr (buf, len, out) \<Rightarrow>
                       (if isPrefix then Inr (out, Some (buf, len, rest))
                        else if err \<noteq> None then Inr (out @ [(LogTagPartial, concat buf)], None)
                        else Inr (out @ [(LogTagFull, concat buf)], Some ([], 0, rest)))))"

lemma readerSize_ge: "16 \<le> readerSize maxLen"
  by (simp add: readerSize_def)

lemma readerSize_le: "16 \<le> maxLen \<Longrightarrow> int (readerSize maxLen) \<le> maxLen"
  by (simp add: readerSize_def defaultBufSize_def)

subsection \<open>What a read returns\<close>

text \<open>A read returns a piece of a line, a whole line with its end of line, or the end of the stream.\<close>

definition chopCR :: "string \<Rightarrow> string" where
  "chopCR s = (if s \<noteq> [] \<and> last s = CR then butlast s else s)"

lemma split_at_LF:
  "LF \<in> set s \<Longrightarrow> s = takeWhile (\<lambda>c. c \<noteq> LF) s @ LF # tl (dropWhile (\<lambda>c. c \<noteq> LF) s)"
  by (induction s) auto

lemma takeWhile_short: "x \<in> set (take n s) \<Longrightarrow> length (takeWhile (\<lambda>c. c \<noteq> x) s) < n"
proof (induction s arbitrary: n)
  case (Cons c s)
  then show ?case by (cases n) auto
qed simp

lemma chop_take:
  "take (Suc (length s) - (if 1 < Suc (length s) \<and> (s @ [LF]) ! (Suc (length s) - 2) = CR then 2 else 1)) (s @ [LF]) = chopCR s"
  by (cases s rule: rev_cases) (auto simp: chopCR_def nth_append)

lemma readLine_cases:
  assumes bs: "2 \<le> bs"
  obtains (piece) line rest' where "readLine bs fin rest = Inr (line, True, None, rest')" "rest = line @ rest'"
      "LF \<notin> set line" "line \<noteq> []" "last line \<noteq> CR \<or> (\<exists>t. rest' = CR # t)" "length line \<le> bs"
  | (whole) line rest' where "readLine bs fin rest = Inr (chopCR line, False, None, rest')" "rest = line @ LF # rest'"
      "LF \<notin> set line" "length line < bs"
  | (ending) "readLine bs fin rest = Inr (rest, False, Some fin, [])" "LF \<notin> set rest" "length rest < bs"
proof -
  consider (nl) "LF \<in> set (take bs rest)"
    | (full) "LF \<notin> set (take bs rest)" "bs \<le> length rest"
    | (rest) "LF \<notin> set (take bs rest)" "length rest < bs" by linarith
  then show thesis
  proof cases
    case nl
    let ?l = "takeWhile (\<lambda>c. c \<noteq> LF) rest" and ?r = "tl (dropWhile (\<lambda>c. c \<noteq> LF) rest)"
    have "readLine bs fin rest = Inr (chopCR ?l, False, None, ?r)"
      using nl chop_take [of ?l] by (simp add: readLine_def ReadSlice_def Let_def)
    moreover have "LF \<in> set rest" using nl in_set_takeD by fastforce
    then have "rest = ?l @ LF # ?r" by (rule split_at_LF)
    moreover have "LF \<notin> set ?l" using set_takeWhileD by fastforce
    ultimately show thesis using whole takeWhile_short [OF nl] by blast
  next
    case full
    let ?c = "take bs rest"
    have c: "?c \<noteq> []" "length ?c = bs" using full(2) bs by auto
    show thesis
    proof (cases "last ?c = CR")
      case True
      have rest: "rest = butlast ?c @ CR # drop bs rest"
        using append_butlast_last_id [OF c(1)] True append_take_drop_id [of bs rest]
        by (metis append.assoc append_Cons append_Nil)
      show thesis
      proof (rule piece)
        show "readLine bs fin rest = Inr (butlast ?c, True, None, CR # drop bs rest)"
          using full c True by (simp add: readLine_def ReadSlice_def)
        show "LF \<notin> set (butlast ?c)" using full(1) in_set_butlastD by fastforce
        have "length (butlast ?c) = bs - 1" using c by simp
        then have "0 < length (butlast ?c)" "length (butlast ?c) \<le> bs" using bs by linarith+
        then show "butlast ?c \<noteq> []" "length (butlast ?c) \<le> bs" by blast+
      qed (use rest in auto)
    next
      case False
      show thesis
      proof (rule piece)
        show "readLine bs fin rest = Inr (?c, True, None, drop bs rest)"
          using full False by (simp add: readLine_def ReadSlice_def)
      qed (use full c False in auto)
    qed
  next
    case rest
    have "rest = [] \<or> last rest \<noteq> LF" using rest by (metis last_in_set nat_less_le take_all)
    then have "readLine bs fin rest = Inr (rest, False, Some fin, [])"
      using rest by (auto simp: readLine_def ReadSlice_def Let_def)
    then show thesis using ending rest by simp
  qed
qed

subsection \<open>The loop\<close>

lemma logStep_consumes:
  "logStep maxLen fin buf len rest = Inr (out, Some (buf', len', rest')) \<Longrightarrow> length rest' < length rest"
proof -
  assume step: "logStep maxLen fin buf len rest = Inr (out, Some (buf', len', rest'))"
  have "2 \<le> readerSize maxLen" using readerSize_ge [of maxLen] by simp
  then show ?thesis
    by (cases rule: readLine_cases [of _ fin rest])
      (use step in \<open>auto simp: logStep_def Let_def split: sum.splits prod.splits if_splits\<close>)
qed

function redirectLoop :: "int \<Rightarrow> string \<Rightarrow> string list \<Rightarrow> int \<Rightarrow> string \<Rightarrow> logEntry list \<times> logPanic option" where
  "redirectLoop maxLen fin buf len rest =
     (case logStep maxLen fin buf len rest of
        Inl p \<Rightarrow> ([], Some p)
      | Inr (out, None) \<Rightarrow> (out, None)
      | Inr (out, Some (buf', len', rest')) \<Rightarrow>
          (let (more, p) = redirectLoop maxLen fin buf' len' rest' in (out @ more, p)))"
  by pat_completeness auto
termination
  by (relation "measure (\<lambda>(maxLen, fin, buf, len, rest). length rest)") (auto dest: logStep_consumes)

declare redirectLoop.simps [simp del]

text \<open>A line of the log file; \<open>now k\<close> is the time of the \<open>k\<close>-th write, formatted.\<close>

definition writeLine :: "string \<Rightarrow> string \<Rightarrow> logEntry \<Rightarrow> string" where
  "writeLine timestamp stream entry = Join [timestamp, stream, fst entry, snd entry] '' '' @ [LF]"

definition redirectLogs :: "(nat \<Rightarrow> string) \<Rightarrow> string \<Rightarrow> int \<Rightarrow> string \<Rightarrow> string \<Rightarrow> string list \<times> logPanic option" where
  "redirectLogs now stream maxLen fin content =
     (let (entries, p) = redirectLoop maxLen fin [] 0 content
      in (map (\<lambda>(k, e). writeLine (now k) stream e) (enumerate 0 entries), p))"

subsection \<open>What the log says\<close>

text \<open>
  The text of a list of entries: a full entry ends a line, a partial one does not. \<open>crlf\<close> is the stream with
  every CR LF replaced by LF, which is all that the logger changes.
\<close>

definition entryText :: "logEntry \<Rightarrow> string" where
  "entryText e = snd e @ (if fst e = LogTagFull then [LF] else [])"

abbreviation logText :: "logEntry list \<Rightarrow> string" where
  "logText es \<equiv> concat (map entryText es)"

fun crlf :: "string \<Rightarrow> string" where
  "crlf [] = []"
| "crlf (c # s) = (if c = CR \<and> s \<noteq> [] \<and> hd s = LF then crlf s else c # crlf s)"

definition entryOK :: "int \<Rightarrow> logEntry \<Rightarrow> bool" where
  "entryOK maxLen e \<longleftrightarrow> fst e \<in> {LogTagFull, LogTagPartial} \<and> LF \<notin> set (snd e) \<and>
     (0 < maxLen \<longrightarrow> int (length (snd e)) \<le> maxLen)"

lemma crlf_piece:
  "LF \<notin> set p \<Longrightarrow> last p \<noteq> CR \<or> (\<exists>t. r = CR # t) \<Longrightarrow> p \<noteq> [] \<Longrightarrow> crlf (p @ r) = p @ crlf r"
proof (induction p)
  case (Cons c p)
  then show ?case by (cases p) auto
qed simp

lemma crlf_line: "LF \<notin> set p \<Longrightarrow> crlf (p @ LF # r) = chopCR p @ LF # crlf r"
proof (induction p)
  case (Cons c p)
  then show ?case by (cases p) (auto simp: chopCR_def)
qed (simp add: chopCR_def)

lemma crlf_id: "LF \<notin> set s \<Longrightarrow> crlf s = s"
proof (induction s)
  case (Cons c s)
  then show ?case by (cases s) auto
qed simp

text \<open>What the loop keeps between two reads.\<close>

definition logInv :: "int \<Rightarrow> string list \<Rightarrow> int \<Rightarrow> bool" where
  "logInv maxLen buf len \<longleftrightarrow> len = int (length (concat buf)) \<and> LF \<notin> set (concat buf) \<and> (0 < maxLen \<longrightarrow> len \<le> maxLen)"

lemma LogTags [simp]: "LogTagPartial \<noteq> LogTagFull" "LogTagFull \<noteq> LogTagPartial"
  by (simp_all add: LogTagPartial_def LogTagFull_def)

lemma cutLine_correct:
  assumes inv: "logInv maxLen buf len" and new: "LF \<notin> set new" "maxLen \<le> 0 \<or> int (length new) \<le> maxLen"
  obtains buf' len' out where
    "cutLine maxLen (if new \<noteq> [] then buf @ [new] else buf) (if new \<noteq> [] then len + int (length new) else len) = Inr (buf', len', out)"
    "logInv maxLen buf' len'" "logText out @ concat buf' = concat buf @ new" "\<forall>e \<in> set out. entryOK maxLen e"
proof (cases "0 < maxLen \<and> maxLen < len + int (length new)")
  case True
  let ?x = "len + int (length new) - maxLen"
  let ?k = "length new - nat ?x"
  have ne: "new \<noteq> []" using True inv by (auto simp: logInv_def)
  have x: "0 < ?x" "?x \<le> int (length new)" using True inv by (auto simp: logInv_def)
  have k: "int ?k = maxLen - len" using x by linarith
  have pre: "LF \<notin> set (take ?k new)" "LF \<notin> set (drop ?k new)" using new(1) in_set_takeD in_set_dropD by fastforce+
  show thesis
  proof (rule that)
    show "cutLine maxLen (if new \<noteq> [] then buf @ [new] else buf) (if new \<noteq> [] then len + int (length new) else len) =
        Inr ([drop ?k new], ?x, [(LogTagPartial, concat buf @ take ?k new)])"
      using True ne x by (simp add: cutLine_def Let_def)
    show "logInv maxLen [drop ?k new] ?x" using pre x True new(2) inv by (auto simp: logInv_def)
    show "logText [(LogTagPartial, concat buf @ take ?k new)] @ concat [drop ?k new] = concat buf @ new"
      by (simp add: entryText_def)
    show "\<forall>e \<in> set [(LogTagPartial, concat buf @ take ?k new)]. entryOK maxLen e"
      using inv pre k True by (auto simp: entryOK_def logInv_def)
  qed
next
  case False
  show thesis
  proof (rule that)
    show "cutLine maxLen (if new \<noteq> [] then buf @ [new] else buf) (if new \<noteq> [] then len + int (length new) else len) =
        Inr (if new \<noteq> [] then buf @ [new] else buf, len + int (length new), [])"
      using False by (auto simp: cutLine_def)
    show "logInv maxLen (if new \<noteq> [] then buf @ [new] else buf) (len + int (length new))"
      using False inv new(1) by (auto simp: logInv_def)
  qed auto
qed

lemma entryOK_flush: "logInv maxLen buf len \<Longrightarrow> t \<in> {LogTagFull, LogTagPartial} \<Longrightarrow> entryOK maxLen (t, concat buf)"
  by (auto simp: entryOK_def logInv_def)

lemma logInv_empty [simp]: "logInv maxLen [] 0"
  by (simp add: logInv_def)

lemma buffered_pos:
  "len = int n \<Longrightarrow> 0 < n \<or> 0 < length rest \<Longrightarrow> (if rest \<noteq> [] then len + int (length rest) else len) \<noteq> 0"
  by (cases rest) auto

lemma logStep_correct:
  assumes inv: "logInv maxLen buf len" and lim: "maxLen \<le> 0 \<or> 16 \<le> maxLen"
  obtains out where "logStep maxLen fin buf len rest = Inr (out, None)" "\<forall>e \<in> set out. entryOK maxLen e"
      "logText out = concat buf @ crlf rest"
  | out buf' len' rest' where "logStep maxLen fin buf len rest = Inr (out, Some (buf', len', rest'))"
      "\<forall>e \<in> set out. entryOK maxLen e" "logInv maxLen buf' len'"
      "logText out @ concat buf' @ crlf rest' = concat buf @ crlf rest"
proof -
  have short: "maxLen \<le> 0 \<or> int (length line) \<le> maxLen" if "length line \<le> readerSize maxLen" for line :: string
    using that lim readerSize_le [of maxLen] by linarith
  have "2 \<le> readerSize maxLen" using readerSize_ge [of maxLen] by simp
  then show thesis
  proof (cases rule: readLine_cases [of _ fin rest])
    case (piece line rest')
    obtain b l out where cut:
      "cutLine maxLen (if line \<noteq> [] then buf @ [line] else buf) (if line \<noteq> [] then len + int (length line) else len) = Inr (b, l, out)"
      "logInv maxLen b l" "logText out @ concat b = concat buf @ line" "\<forall>e \<in> set out. entryOK maxLen e"
      using cutLine_correct [OF inv piece(3) short [OF piece(6)]] by metis
    show thesis
    proof (rule that(2))
      show "logStep maxLen fin buf len rest = Inr (out, Some (b, l, rest'))"
        using piece(1) cut(1) by (simp add: logStep_def Let_def)
      show "logText out @ concat b @ crlf rest' = concat buf @ crlf rest"
        using cut(3) crlf_piece [OF piece(3,5,4)] piece(2) by (metis append.assoc)
    qed (use cut in auto)
  next
    case (whole line rest')
    have c: "LF \<notin> set (chopCR line)" "length (chopCR line) \<le> readerSize maxLen"
      using whole(3,4) by (auto simp: chopCR_def dest: in_set_butlastD)
    obtain b l out where cut:
      "cutLine maxLen (if chopCR line \<noteq> [] then buf @ [chopCR line] else buf)
         (if chopCR line \<noteq> [] then len + int (length (chopCR line)) else len) = Inr (b, l, out)"
      "logInv maxLen b l" "logText out @ concat b = concat buf @ chopCR line" "\<forall>e \<in> set out. entryOK maxLen e"
      using cutLine_correct [OF inv c(1) short [OF c(2)]] by metis
    show thesis
    proof (rule that(2))
      show "logStep maxLen fin buf len rest = Inr (out @ [(LogTagFull, concat b)], Some ([], 0, rest'))"
        using whole(1) cut(1) by (simp add: logStep_def Let_def)
      show "logText (out @ [(LogTagFull, concat b)]) @ concat [] @ crlf rest' = concat buf @ crlf rest"
        using cut(3) crlf_line [OF whole(3)] whole(2) by (simp add: entryText_def)
    qed (use cut entryOK_flush in auto)
  next
    case ending
    show thesis
    proof (cases "buf \<noteq> [] \<and> concat buf \<noteq> [] \<or> rest \<noteq> []")
      case True
      obtain b l out where cut:
        "cutLine maxLen (if rest \<noteq> [] then buf @ [rest] else buf) (if rest \<noteq> [] then len + int (length rest) else len) = Inr (b, l, out)"
        "logInv maxLen b l" "logText out @ concat b = concat buf @ rest" "\<forall>e \<in> set out. entryOK maxLen e"
        using cutLine_correct [OF inv ending(2) short] ending(3) by (metis less_imp_le)
      have "len = int (length (concat buf))" using inv by (simp only: logInv_def)
      moreover have "0 < length (concat buf) \<or> 0 < length rest" using True by blast
      ultimately have "(if rest \<noteq> [] then len + int (length rest) else len) \<noteq> 0"
        by (rule buffered_pos)
      then have "logStep maxLen fin buf len rest = Inr (out @ [(LogTagPartial, concat b)], None)"
        using ending(1) cut(1) by (simp add: logStep_def Let_def split del: if_split)
      then show thesis
        by (rule that(1)) (use cut crlf_id [OF ending(2)] entryOK_flush in \<open>auto simp: entryText_def\<close>)
    next
      case False
      then have "logStep maxLen fin buf len rest = Inr ([], None)"
        using ending(1) inv by (auto simp: logStep_def logInv_def)
      then show thesis by (rule that(1)) (use False in auto)
    qed
  qed
qed

lemma redirectLoop_correct:
  "logInv maxLen buf len \<Longrightarrow> maxLen \<le> 0 \<or> 16 \<le> maxLen \<Longrightarrow>
   \<exists>es. redirectLoop maxLen fin buf len rest = (es, None) \<and> (\<forall>e \<in> set es. entryOK maxLen e) \<and>
        logText es = concat buf @ crlf rest"
proof (induction maxLen fin buf len rest rule: redirectLoop.induct)
  case (1 maxLen fin buf len rest)
  from "1.prems" show ?case
  proof (cases rule: logStep_correct [of maxLen buf len fin rest])
    case (1 out)
    then show ?thesis by (simp add: redirectLoop.simps [of maxLen fin buf])
  next
    case (2 out buf' len' rest')
    then obtain es where es: "redirectLoop maxLen fin buf' len' rest' = (es, None)" "\<forall>e \<in> set es. entryOK maxLen e"
        "logText es = concat buf' @ crlf rest'"
      using "1.IH" "1.prems" by metis
    have "redirectLoop maxLen fin buf len rest = (out @ es, None)"
      using 2(1) es(1) by (simp add: redirectLoop.simps [of maxLen fin buf])
    then show ?thesis using 2 es by (auto simp: ball_Un)
  qed
qed

subsection \<open>A reference for the log\<close>

text \<open>
  What the format prescribes, without buffers: split the stream at its newlines, drop the CR before each, and
  cut every line into partial entries of exactly \<open>maxLen\<close> bytes and a last one.
\<close>

function cutRef :: "int \<Rightarrow> string \<Rightarrow> string \<Rightarrow> logEntry list" where
  "cutRef maxLen tag line =
     (if 0 < maxLen \<and> maxLen < int (length line)
      then (LogTagPartial, take (nat maxLen) line) # cutRef maxLen tag (drop (nat maxLen) line)
      else [(tag, line)])"
  by pat_completeness auto
termination
  by (relation "measure (\<lambda>(maxLen, tag, line). length line)") auto

declare cutRef.simps [simp del]

function referenceLog :: "int \<Rightarrow> string \<Rightarrow> logEntry list" where
  "referenceLog maxLen s =
     (if LF \<in> set s then
        cutRef maxLen LogTagFull (chopCR (takeWhile (\<lambda>c. c \<noteq> LF) s)) @
        referenceLog maxLen (tl (dropWhile (\<lambda>c. c \<noteq> LF) s))
      else if s = [] then [] else cutRef maxLen LogTagPartial s)"
  by pat_completeness auto
termination
proof (relation "measure (\<lambda>(maxLen, s). length s)")
  fix s :: string and maxLen :: int
  assume "LF \<in> set s"
  then have "length s = length (takeWhile (\<lambda>c. c \<noteq> LF) s) + Suc (length (tl (dropWhile (\<lambda>c. c \<noteq> LF) s)))"
    using split_at_LF [of s] by (metis length_append length_Cons)
  then show "((maxLen, tl (dropWhile (\<lambda>c. c \<noteq> LF) s)), maxLen, s) \<in> measure (\<lambda>(maxLen, s). length s)" by simp
qed simp

declare referenceLog.simps [simp del]

text \<open>The same with a part of the first line already read.\<close>

definition referenceFrom :: "int \<Rightarrow> string \<Rightarrow> string \<Rightarrow> logEntry list" where
  "referenceFrom maxLen b s =
     (if LF \<in> set s then
        cutRef maxLen LogTagFull (b @ chopCR (takeWhile (\<lambda>c. c \<noteq> LF) s)) @
        referenceLog maxLen (tl (dropWhile (\<lambda>c. c \<noteq> LF) s))
      else if b @ s = [] then [] else cutRef maxLen LogTagPartial (b @ s))"

lemma referenceFrom_Nil: "referenceFrom maxLen [] s = referenceLog maxLen s"
  by (simp add: referenceFrom_def referenceLog.simps)

lemma cutRef_exceed:
  assumes "0 < maxLen" "maxLen < int (length b)"
  shows "cutRef maxLen tag (b @ x) = (LogTagPartial, take (nat maxLen) b) # cutRef maxLen tag (drop (nat maxLen) b @ x)"
  using assms by (subst cutRef.simps) simp

lemma chopCR_append:
  assumes "p \<noteq> []" "last p \<noteq> CR \<or> (\<exists>t. r = CR # t)"
  shows "chopCR (p @ takeWhile (\<lambda>c. c \<noteq> LF) r) = p @ chopCR (takeWhile (\<lambda>c. c \<noteq> LF) r)"
  using assms by (auto simp: chopCR_def butlast_append)

lemma referenceFrom_piece:
  assumes "LF \<notin> set p" "p \<noteq> []" "last p \<noteq> CR \<or> (\<exists>t. r = CR # t)"
  shows "referenceFrom maxLen b (p @ r) = referenceFrom maxLen (b @ p) r"
proof -
  have "takeWhile (\<lambda>c. c \<noteq> LF) (p @ r) = p @ takeWhile (\<lambda>c. c \<noteq> LF) r"
       "dropWhile (\<lambda>c. c \<noteq> LF) (p @ r) = dropWhile (\<lambda>c. c \<noteq> LF) r"
    using assms(1) by (simp_all add: takeWhile_append dropWhile_append)
  then show ?thesis using assms chopCR_append [OF assms(2,3)] by (simp add: referenceFrom_def)
qed

lemma referenceFrom_cut:
  assumes "0 < maxLen" "maxLen < int (length b)"
  shows "referenceFrom maxLen b r = (LogTagPartial, take (nat maxLen) b) # referenceFrom maxLen (drop (nat maxLen) b) r"
  using assms cutRef_exceed [OF assms] by (auto simp: referenceFrom_def)

lemma cut_index: "int n \<le> m \<Longrightarrow> m < int n + int k \<Longrightarrow> k - nat (int n + int k - m) = nat m - n"
  by arith

lemma cutLine_exact:
  assumes inv: "logInv maxLen buf len" and new: "LF \<notin> set new" "maxLen \<le> 0 \<or> int (length new) \<le> maxLen"
    and cut: "cutLine maxLen (if new \<noteq> [] then buf @ [new] else buf) (if new \<noteq> [] then len + int (length new) else len) = Inr (buf', len', out)"
  shows "if 0 < maxLen \<and> maxLen < int (length (concat buf @ new))
         then out = [(LogTagPartial, take (nat maxLen) (concat buf @ new))] \<and> concat buf' = drop (nat maxLen) (concat buf @ new)
         else out = [] \<and> concat buf' = concat buf @ new"
proof -
  have len: "len = int (length (concat buf))" using inv by (simp only: logInv_def)
  show ?thesis
  proof (cases "0 < maxLen \<and> maxLen < int (length (concat buf @ new))")
    case True
    have fits: "len \<le> maxLen" using inv True by (simp add: logInv_def)
    then have ne: "new \<noteq> []" using True len by (auto simp del: length_concat)
    have k: "length new - nat (len + int (length new) - maxLen) = nat maxLen - length (concat buf)"
      using fits True cut_index [of "length (concat buf)" maxLen "length new"] by (simp add: len del: length_concat)
    have "take (nat maxLen) (concat buf) = concat buf" "drop (nat maxLen) (concat buf) = []"
      using fits len by (simp_all del: length_concat)
    then show ?thesis using cut True ne k fits len
      by (auto simp: cutLine_def Let_def simp del: length_concat split: if_splits)
  next
    case False
    then show ?thesis using cut len by (auto simp: cutLine_def simp del: length_concat split: if_splits)
  qed
qed

lemma referenceFrom_cutLine:
  assumes "logInv maxLen buf len" "LF \<notin> set new" "maxLen \<le> 0 \<or> int (length new) \<le> maxLen"
    and "cutLine maxLen (if new \<noteq> [] then buf @ [new] else buf) (if new \<noteq> [] then len + int (length new) else len) = Inr (buf', len', out)"
  shows "referenceFrom maxLen (concat buf @ new) r = out @ referenceFrom maxLen (concat buf') r"
    and "cutRef maxLen tag (concat buf @ new) = out @ cutRef maxLen tag (concat buf')"
  using cutLine_exact [OF assms] referenceFrom_cut [of maxLen "concat buf @ new" r] cutRef_exceed [of maxLen "concat buf @ new" tag "[]"]
  by (auto split: if_splits)

lemma cutRef_short: "logInv maxLen buf len \<Longrightarrow> cutRef maxLen tag (concat buf) = [(tag, concat buf)]"
  by (subst cutRef.simps) (auto simp: logInv_def)

lemma logStep_reference:
  assumes inv: "logInv maxLen buf len" and lim: "maxLen \<le> 0 \<or> 16 \<le> maxLen"
  shows "(\<exists>out. logStep maxLen fin buf len rest = Inr (out, None) \<and> out = referenceFrom maxLen (concat buf) rest) \<or>
         (\<exists>out b l r. logStep maxLen fin buf len rest = Inr (out, Some (b, l, r)) \<and> logInv maxLen b l \<and>
            referenceFrom maxLen (concat buf) rest = out @ referenceFrom maxLen (concat b) r)"
proof -
  have short: "maxLen \<le> 0 \<or> int (length line) \<le> maxLen" if "length line \<le> readerSize maxLen" for line :: string
    using that lim readerSize_le [of maxLen] by linarith
  have "2 \<le> readerSize maxLen" using readerSize_ge [of maxLen] by simp
  then show ?thesis
  proof (cases rule: readLine_cases [of _ fin rest])
    case (piece line r)
    obtain b l out where cut:
      "cutLine maxLen (if line \<noteq> [] then buf @ [line] else buf) (if line \<noteq> [] then len + int (length line) else len) = Inr (b, l, out)"
      "logInv maxLen b l"
      using cutLine_correct [OF inv piece(3) short [OF piece(6)]] by metis
    have "logStep maxLen fin buf len rest = Inr (out, Some (b, l, r))"
      using piece(1) cut(1) by (simp add: logStep_def Let_def)
    then show ?thesis
      using cut(2) referenceFrom_cutLine(1) [OF inv piece(3) short [OF piece(6)] cut(1)]
        referenceFrom_piece [OF piece(3,4,5)] piece(2) by metis
  next
    case (whole line r)
    let ?n = "chopCR line"
    have c: "LF \<notin> set ?n" "length ?n \<le> readerSize maxLen"
      using whole(3,4) by (auto simp: chopCR_def dest: in_set_butlastD)
    obtain b l out where cut:
      "cutLine maxLen (if ?n \<noteq> [] then buf @ [?n] else buf) (if ?n \<noteq> [] then len + int (length ?n) else len) = Inr (b, l, out)"
      "logInv maxLen b l"
      using cutLine_correct [OF inv c(1) short [OF c(2)]] by metis
    have "takeWhile (\<lambda>c. c \<noteq> LF) rest = line" "tl (dropWhile (\<lambda>c. c \<noteq> LF) rest) = r" "LF \<in> set rest"
      using whole(2,3) by (auto simp: takeWhile_append dropWhile_append)
    then have "referenceFrom maxLen (concat buf) rest = cutRef maxLen LogTagFull (concat buf @ ?n) @ referenceLog maxLen r"
      by (simp add: referenceFrom_def)
    moreover have "logStep maxLen fin buf len rest = Inr (out @ [(LogTagFull, concat b)], Some ([], 0, r))"
      using whole(1) cut(1) by (simp add: logStep_def Let_def)
    ultimately show ?thesis
      using referenceFrom_cutLine(2) [OF inv c(1) short [OF c(2)] cut(1), of LogTagFull] cutRef_short [OF cut(2)]
      by (simp add: referenceFrom_Nil)
  next
    case ending
    show ?thesis
    proof (cases "concat buf @ rest = []")
      case True
      then have "rest = []" "concat buf = []" by simp_all
      moreover have "len = int (length (concat buf))" using inv by (simp only: logInv_def)
      then have "len = 0" using \<open>concat buf = []\<close> by (simp only: list.size(3) of_nat_0)
      ultimately show ?thesis using ending(1) by (simp add: logStep_def referenceFrom_def)
    next
      case False
      have small: "length rest \<le> readerSize maxLen" using ending(3) by simp
      obtain b l out where cut:
        "cutLine maxLen (if rest \<noteq> [] then buf @ [rest] else buf) (if rest \<noteq> [] then len + int (length rest) else len) = Inr (b, l, out)"
        "logInv maxLen b l"
        using cutLine_correct [OF inv ending(2) short [OF small]] by metis
      have "len = int (length (concat buf))" using inv by (simp only: logInv_def)
      moreover have "0 < length (concat buf) \<or> 0 < length rest" using False by blast
      ultimately have "(if rest \<noteq> [] then len + int (length rest) else len) \<noteq> 0" by (rule buffered_pos)
      then have "logStep maxLen fin buf len rest = Inr (out @ [(LogTagPartial, concat b)], None)"
        using ending(1) cut(1) by (simp add: logStep_def Let_def split del: if_split)
      moreover have "referenceFrom maxLen (concat buf) rest = cutRef maxLen LogTagPartial (concat buf @ rest)"
        using False ending(2) by (simp only: referenceFrom_def if_False)
      ultimately show ?thesis
        using referenceFrom_cutLine(2) [OF inv ending(2) short [OF small] cut(1), of LogTagPartial] cutRef_short [OF cut(2)] by simp
    qed
  qed
qed

lemma redirectLoop_reference:
  "logInv maxLen buf len \<Longrightarrow> maxLen \<le> 0 \<or> 16 \<le> maxLen \<Longrightarrow>
   redirectLoop maxLen fin buf len rest = (referenceFrom maxLen (concat buf) rest, None)"
proof (induction maxLen fin buf len rest rule: redirectLoop.induct)
  case (1 maxLen fin buf len rest)
  show ?case
  proof (cases "\<exists>out. logStep maxLen fin buf len rest = Inr (out, None)")
    case True
    then show ?thesis using logStep_reference [OF "1.prems", of fin rest]
      by (auto simp: redirectLoop.simps [of maxLen fin buf])
  next
    case False
    then obtain out b l r where step: "logStep maxLen fin buf len rest = Inr (out, Some (b, l, r))" "logInv maxLen b l"
        "referenceFrom maxLen (concat buf) rest = out @ referenceFrom maxLen (concat b) r"
      using logStep_reference [OF "1.prems", of fin rest] by blast
    then have "redirectLoop maxLen fin b l r = (referenceFrom maxLen (concat b) r, None)"
      using "1.IH" "1.prems"(2) by metis
    then show ?thesis using step by (simp add: redirectLoop.simps [of maxLen fin buf])
  qed
qed

text \<open>
  C4: with no limit, or one of at least the 16 bytes of the smallest read buffer, the logger ends at the end of the stream
  without a panic, and the loop over the buffered reader writes exactly the entries of the reference, whatever the size of the
  buffer: lines are cut at multiples of the limit and nowhere else. Every entry is a full or a partial
  line without a newline, no longer than the limit; and joining the entries, ending a line after each full one,
  gives what the container wrote with every CR LF replaced by LF.
\<close>

theorem redirectLogs_correct:
  assumes "maxLen \<le> 0 \<or> 16 \<le> maxLen"
  shows "redirectLogs now stream maxLen fin content =
           (map (\<lambda>(k, e). writeLine (now k) stream e) (enumerate 0 (referenceLog maxLen content)), None) \<and>
         logText (referenceLog maxLen content) = crlf content \<and>
         (\<forall>(tag, line) \<in> set (referenceLog maxLen content). tag \<in> {LogTagFull, LogTagPartial} \<and> LF \<notin> set line \<and>
            (0 < maxLen \<longrightarrow> int (length line) \<le> maxLen))"
proof -
  have ref: "redirectLoop maxLen fin [] 0 content = (referenceLog maxLen content, None)"
    using redirectLoop_reference [of maxLen "[]" 0 fin content] assms by (simp add: referenceFrom_Nil)
  then have "\<forall>e \<in> set (referenceLog maxLen content). entryOK maxLen e" "logText (referenceLog maxLen content) = crlf content"
    using redirectLoop_correct [of maxLen "[]" 0 fin content] assms by auto
  then show ?thesis using ref by (auto simp: redirectLogs_def entryOK_def)
qed

theorem redirectLogs_correct_witness:
  "redirectLogs (\<lambda>k. ''t'') ''stdout'' 16 ''EOF'' (replicate 20 CHR ''a'' @ [CR, LF, CHR ''b'']) =
     ([''t stdout P aaaaaaaaaaaaaaaa'' @ [LF], ''t stdout F aaaa'' @ [LF], ''t stdout P b'' @ [LF]], None)"
proof -
  have "referenceLog 16 (replicate 20 CHR ''a'' @ [CR, LF, CHR ''b'']) =
      [(''P'', ''aaaaaaaaaaaaaaaa''), (''F'', ''aaaa''), (''P'', ''b'')]" by code_simp
  then show ?thesis
    using redirectLogs_correct [of 16 "\<lambda>k. ''t''" "''stdout''" "''EOF''" "replicate 20 CHR ''a'' @ [CR, LF, CHR ''b'']"]
    by (simp add: writeLine_def)
qed

text \<open>Below 16 bytes the read buffer is longer than the limit, and a long line stops the logger with a panic.\<close>

lemma short_limit_panics:
  "redirectLogs (\<lambda>k. ''t'') ''stdout'' 1 ''EOF'' (replicate 32 CHR ''a'') = ([''t stdout P a'' @ [LF]], Some ExceedLength)"
  by code_simp

end
