(* ===== verification/RemoveAll.thy ===== *)
theory RemoveAll
  imports Paths "HOL-Library.Multiset"
begin

section \<open>Removing directories\<close>

text \<open>
  \<^verbatim>\<open>unmountRecursive\<close> and \<^verbatim>\<open>ensureRemoveAll\<close> of \<^verbatim>\<open>pkg/server/helpers_unix.go\<close>: remove the directory of a
  container or sandbox, unmounting what is in the way and retrying.

  The kernel is the argument \<open>removeEnv\<close>: its answers depend on all calls so far (\<open>rmCall list\<close>, the latest
  first), so other processes may change the mounts and files between two calls. The loop of
  \<^verbatim>\<open>ensureRemoveAll\<close> has no bound of its own, so it is a \<open>partial_function (option)\<close>: \<open>None\<close> is a loop that
  never returns.
\<close>

datatype rmCall = RmMounts | RmUnmountAll string | RmRemoveAll string | RmUnmount string | RmSleep

datatype errno = ENOENT | EBUSY | OtherErrno nat

datatype removeErr = PathError string errno | OtherRemoveErr goerror

record removeEnv =
  rm_selfMounts :: "rmCall list \<Rightarrow> string list result"
  rm_unmountAll :: "rmCall list \<Rightarrow> goerror option"
  rm_removeAll :: "rmCall list \<Rightarrow> removeErr option"
  rm_unmount :: "rmCall list \<Rightarrow> goerror option"

subsection \<open>Relative paths\<close>

text \<open>\<^verbatim>\<open>filepath.Rel\<close> on Unix, on the elements of the cleaned paths.\<close>

definition pathElems :: "string \<Rightarrow> string list" where
  "pathElems p = filter (\<lambda>x. x \<noteq> []) (Split (CHR ''/'') p)"

fun dropCommon :: "'a list \<Rightarrow> 'a list \<Rightarrow> 'a list \<times> 'a list" where
  "dropCommon (x # xs) (y # ys) = (if x = y then dropCommon xs ys else (x # xs, y # ys))"
| "dropCommon xs ys = (xs, ys)"

definition slashed :: "string \<Rightarrow> bool" where
  "slashed p \<longleftrightarrow> p \<noteq> [] \<and> hd p = CHR ''/''"

definition Rel :: "string \<Rightarrow> string \<Rightarrow> string result" where
  "Rel basepath targpath =
     (let base0 = Clean basepath; targ = Clean targpath; base = (if base0 = ''.'' then [] else base0);
          relErr = Inl (Errorf (''Rel: can'' @ [CHR 0x27] @ ''t make %s relative to %s'') [targpath, basepath])
      in if targ = base0 then Inr ''.''
         else if slashed base \<noteq> slashed targ then relErr
         else case dropCommon (pathElems base) (pathElems targ) of
                (b, t) \<Rightarrow> (if b \<noteq> [] \<and> hd b = ''..'' \<and> t \<noteq> [] then relErr
                           else Inr (Join (replicate (length b) ''..'' @ t) ''/'')))"

subsection \<open>Unmounting\<close>

fun selectMounts :: "string \<Rightarrow> string list \<Rightarrow> string list result" where
  "selectMounts target [] = Inr []"
| "selectMounts target (m # ms) =
     (case Rel target m of
        Inl err \<Rightarrow> Inl err
      | Inr p \<Rightarrow>
          (case selectMounts target ms of
             Inl err \<Rightarrow> Inl err
           | Inr toUnmount \<Rightarrow> Inr (if \<not> HasPrefix p ''..'' then m # toUnmount else toUnmount)))"

fun unmountEach :: "removeEnv \<Rightarrow> string list \<Rightarrow> rmCall list \<Rightarrow> goerror option \<times> rmCall list" where
  "unmountEach env [] tr = (None, tr)"
| "unmountEach env (m # ms) tr =
     (let tr' = RmUnmountAll m # tr in
      case rm_unmountAll env tr' of
        None \<Rightarrow> unmountEach env ms tr'
      | Some err \<Rightarrow> (if ms = [] then (Some err, tr') else unmountEach env ms tr'))"

text \<open>\<open>srt\<close> is \<^verbatim>\<open>sort.Slice\<close> with the comparison of the source; it need not be stable.\<close>

definition sortsByLength :: "(string list \<Rightarrow> string list) \<Rightarrow> bool" where
  "sortsByLength srt \<longleftrightarrow> (\<forall>xs. mset (srt xs) = mset xs \<and> sorted_wrt (\<lambda>a b. length b \<le> length a) (srt xs))"

definition unmountRecursive :: "removeEnv \<Rightarrow> (string list \<Rightarrow> string list) \<Rightarrow> string \<Rightarrow> rmCall list \<Rightarrow> goerror option \<times> rmCall list" where
  "unmountRecursive env srt target tr0 =
     (let tr = RmMounts # tr0 in
      case rm_selfMounts env tr of
        Inl err \<Rightarrow> (Some err, tr)
      | Inr mounts \<Rightarrow>
          (case selectMounts target mounts of
             Inl err \<Rightarrow> (Some err, tr)
           | Inr toUnmount \<Rightarrow> unmountEach env (srt toUnmount) tr))"

subsection \<open>Removing\<close>

definition maxRetry :: nat where "maxRetry = 50"

partial_function (option) removeLoop ::
    "removeEnv \<Rightarrow> string \<Rightarrow> (string \<Rightarrow> bool) \<Rightarrow> (string \<Rightarrow> nat) \<Rightarrow> rmCall list \<Rightarrow> (removeErr option \<times> rmCall list) option" where
  "removeLoop env dir notExistErr exitOnErr tr0 =
     (let tr = RmRemoveAll dir # tr0 in
      case rm_removeAll env tr of
        None \<Rightarrow> Some (None, tr)
      | Some err \<Rightarrow>
          (case err of
             OtherRemoveErr _ \<Rightarrow> Some (Some err, tr)
           | PathError p e \<Rightarrow>
               (if e = ENOENT then
                  (if notExistErr p then Some (Some err, tr)
                   else if p = dir then Some (None, tr)
                   else removeLoop env dir (notExistErr(p := True)) exitOnErr tr)
                else if e \<noteq> EBUSY then Some (Some err, tr)
                else
                  (let tr' = RmUnmount p # tr in
                   case rm_unmount env tr' of
                     Some e' \<Rightarrow> Some (Some (OtherRemoveErr (Wrapf e' ''error while removing %s'' [dir])), tr')
                   | None \<Rightarrow>
                       (if exitOnErr p = maxRetry then Some (Some err, tr')
                        else removeLoop env dir notExistErr (exitOnErr(p := exitOnErr p + 1)) (RmSleep # tr'))))))"

definition ensureRemoveAll :: "removeEnv \<Rightarrow> (string list \<Rightarrow> string list) \<Rightarrow> string \<Rightarrow> rmCall list \<Rightarrow> (removeErr option \<times> rmCall list) option" where
  "ensureRemoveAll env srt dir tr =
     removeLoop env dir (\<lambda>_. False) (\<lambda>_. 0) (snd (unmountRecursive env srt dir tr))"

subsection \<open>Deepest mounts first\<close>

text \<open>Every selected mount is unmounted exactly once, whatever fails, and a mount before the one it is in.\<close>

lemma unmountEach_calls: "snd (unmountEach env ms tr) = map RmUnmountAll (rev ms) @ tr"
  by (induction env ms tr rule: unmountEach.induct) (auto simp: Let_def split: option.splits)

lemma selectMounts_set:
  "selectMounts target ms = Inr toUnmount \<Longrightarrow>
   toUnmount = filter (\<lambda>m. \<exists>p. Rel target m = Inr p \<and> \<not> HasPrefix p ''..'') ms"
  by (induction target ms arbitrary: toUnmount rule: selectMounts.induct) (auto split: sum.splits if_splits)

lemma sorted_before:
  assumes "sorted_wrt (\<lambda>a b. length b \<le> length a) xs" "a \<in> set xs" "b \<in> set xs" "length a < length b"
  shows "\<exists>us vs ws. xs = us @ b # vs @ a # ws"
proof -
  obtain us vs where b: "xs = us @ b # vs" using assms(3) split_list by metis
  have "a \<in> set vs" using assms(1,2,4) b by (auto simp: sorted_wrt_append)
  then show ?thesis using b split_list by metis
qed

lemma unmountRecursive_order:
  assumes "sortsByLength srt" "rm_selfMounts env (RmMounts # tr) = Inr mounts" "selectMounts target mounts = Inr toUnmount"
    and "a \<in> set toUnmount" "b \<in> set toUnmount" "prefix (a @ ''/'') b"
  shows "\<exists>us vs ws. snd (unmountRecursive env srt target tr) =
           map RmUnmountAll (rev ws) @ RmUnmountAll a # map RmUnmountAll (rev vs) @ RmUnmountAll b # map RmUnmountAll (rev us) @ RmMounts # tr"
proof -
  have sorted: "sorted_wrt (\<lambda>a b. length b \<le> length a) (srt toUnmount)" and "set (srt toUnmount) = set toUnmount"
    using assms(1) by (auto simp: sortsByLength_def dest: mset_eq_setD)
  moreover have "length a < length b" using prefix_length_le [OF assms(6)] by simp
  ultimately obtain us vs ws where "srt toUnmount = us @ b # vs @ a # ws"
    using sorted_before [OF sorted] assms(4,5) by metis
  then show ?thesis using assms(2,3)
    by (intro exI [of _ us] exI [of _ vs] exI [of _ ws]) (simp add: unmountRecursive_def Let_def unmountEach_calls)
qed

subsection \<open>The loop returns\<close>

text \<open>
  \<open>paths\<close> are the paths that the file system can report. Every round that does not return marks a path as
  missing or counts a retry for it, so the budget goes down.
\<close>

definition reports :: "removeEnv \<Rightarrow> string set \<Rightarrow> bool" where
  "reports env paths \<longleftrightarrow> finite paths \<and> (\<forall>tr p e. rm_removeAll env tr = Some (PathError p e) \<longrightarrow> p \<in> paths)"

definition budget :: "string set \<Rightarrow> (string \<Rightarrow> bool) \<Rightarrow> (string \<Rightarrow> nat) \<Rightarrow> nat" where
  "budget paths notExistErr exitOnErr = (\<Sum>p \<in> paths. (if notExistErr p then 0 else 1) + (maxRetry - exitOnErr p))"

lemma budget_less:
  assumes "finite paths" "p \<in> paths"
    and "\<And>q. (if m' q then 0 else 1) + (maxRetry - r' q) \<le> (if m q then 0 else 1) + (maxRetry - r q)"
    and "(if m' p then 0 else 1) + (maxRetry - r' p) < (if m p then 0 else 1) + (maxRetry - r p)"
  shows "budget paths m' r' < budget paths m r"
  unfolding budget_def by (rule sum_strict_mono_ex1) (use assms in blast)+

lemma budget_missing: "finite paths \<Longrightarrow> p \<in> paths \<Longrightarrow> \<not> m p \<Longrightarrow> budget paths (m(p := True)) r < budget paths m r"
  by (rule budget_less) auto

lemma budget_retry: "finite paths \<Longrightarrow> p \<in> paths \<Longrightarrow> r p < maxRetry \<Longrightarrow> budget paths m (r(p := r p + 1)) < budget paths m r"
  by (rule budget_less) auto

abbreviation removals :: "string \<Rightarrow> rmCall list \<Rightarrow> nat" where
  "removals dir calls \<equiv> count_list calls (RmRemoveAll dir)"

abbreviation unmounts :: "string \<Rightarrow> rmCall list \<Rightarrow> nat" where
  "unmounts p calls \<equiv> count_list calls (RmUnmount p)"

text \<open>What the answer means: the last attempt to remove succeeded or found nothing, or it is the error returned.\<close>

definition removeAnswer :: "removeEnv \<Rightarrow> string \<Rightarrow> removeErr option \<Rightarrow> rmCall list \<Rightarrow> rmCall list \<Rightarrow> bool" where
  "removeAnswer env dir r calls tr \<longleftrightarrow>
     (case r of
        None \<Rightarrow> (\<exists>rest. calls = RmRemoveAll dir # rest \<and> rm_removeAll env (calls @ tr) \<in> {None, Some (PathError dir ENOENT)})
      | Some err \<Rightarrow> err \<noteq> PathError dir ENOENT)"

lemma removeLoop_now:
  "rm_removeAll env (RmRemoveAll dir # tr) = None \<Longrightarrow> removeLoop env dir m r tr = Some (None, RmRemoveAll dir # tr)"
  "rm_removeAll env (RmRemoveAll dir # tr) = Some (OtherRemoveErr e) \<Longrightarrow>
   removeLoop env dir m r tr = Some (Some (OtherRemoveErr e), RmRemoveAll dir # tr)"
  by (subst removeLoop.simps; simp)+

lemma removeLoop_path:
  "rm_removeAll env (RmRemoveAll dir # tr) = Some (PathError p e) \<Longrightarrow>
   removeLoop env dir m r tr =
     (if e = ENOENT then
        (if m p then Some (Some (PathError p e), RmRemoveAll dir # tr)
         else if p = dir then Some (None, RmRemoveAll dir # tr)
         else removeLoop env dir (m(p := True)) r (RmRemoveAll dir # tr))
      else if e \<noteq> EBUSY then Some (Some (PathError p e), RmRemoveAll dir # tr)
      else case rm_unmount env (RmUnmount p # RmRemoveAll dir # tr) of
             Some e' \<Rightarrow> Some (Some (OtherRemoveErr (Wrapf e' ''error while removing %s'' [dir])), RmUnmount p # RmRemoveAll dir # tr)
           | None \<Rightarrow>
               (if r p = maxRetry then Some (Some (PathError p e), RmUnmount p # RmRemoveAll dir # tr)
                else removeLoop env dir m (r(p := r p + 1)) (RmSleep # RmUnmount p # RmRemoveAll dir # tr)))"
  by (subst removeLoop.simps) (simp add: Let_def)

definition loopResult :: "removeEnv \<Rightarrow> string \<Rightarrow> (string \<Rightarrow> nat) \<Rightarrow> nat \<Rightarrow> rmCall list \<Rightarrow> (removeErr option \<times> rmCall list) option \<Rightarrow> bool" where
  "loopResult env dir r n tr out \<longleftrightarrow>
     (\<exists>res calls. out = Some (res, calls @ tr) \<and> removals dir calls \<le> n + 1 \<and>
        (\<forall>p. unmounts p calls + r p \<le> maxRetry + 1) \<and> removeAnswer env dir res calls tr)"

lemma loopResult_last:
  "removeAnswer env dir res [RmRemoveAll dir] tr \<Longrightarrow> \<forall>p. r p \<le> maxRetry \<Longrightarrow>
   loopResult env dir r n tr (Some (res, RmRemoveAll dir # tr))"
  unfolding loopResult_def by (rule exI [of _ res], rule exI [of _ "[RmRemoveAll dir]"]) (auto simp: le_SucI)

lemma loopResult_unmount:
  "res \<noteq> None \<Longrightarrow> res \<noteq> Some (PathError dir ENOENT) \<Longrightarrow> \<forall>p. r p \<le> maxRetry \<Longrightarrow>
   loopResult env dir r n tr (Some (res, RmUnmount p # RmRemoveAll dir # tr))"
  unfolding loopResult_def
  by (rule exI [of _ res], rule exI [of _ "[RmUnmount p, RmRemoveAll dir]"])
    (auto simp: removeAnswer_def le_SucI split: option.splits)

lemma loopResult_again:
  assumes "loopResult env dir r' k (pre @ RmRemoveAll dir # tr) out" "k < n"
    and "RmRemoveAll dir \<notin> set pre" "\<forall>p. unmounts p pre + r p \<le> r' p"
  shows "loopResult env dir r n tr out"
proof -
  obtain res calls where c: "out = Some (res, calls @ pre @ RmRemoveAll dir # tr)" "removals dir calls \<le> k + 1"
      "\<forall>p. unmounts p calls + r' p \<le> maxRetry + 1" "removeAnswer env dir res calls (pre @ RmRemoveAll dir # tr)"
    using assms(1) unfolding loopResult_def by blast
  have "removals dir pre = 0" using assms(3) by (simp add: count_list_0_iff)
  moreover have "unmounts p calls + (unmounts p pre + r p) \<le> maxRetry + 1" for p
    using c(3) assms(4) by (meson add_left_mono le_trans)
  ultimately show ?thesis
    unfolding loopResult_def using c assms(2)
    by (intro exI [of _ res] exI [of _ "calls @ pre @ [RmRemoveAll dir]"]) (auto simp: add.assoc removeAnswer_def split: option.splits)
qed

lemma removeLoop_returns:
  assumes "reports env paths" "\<not> m dir" "\<forall>p. r p \<le> maxRetry" "budget paths m r \<le> n"
  shows "loopResult env dir r n tr (removeLoop env dir m r tr)"
  using assms(2-)
proof (induction n arbitrary: m r tr rule: less_induct)
  case (less n)
  have fin: "finite paths" using assms(1) by (simp add: reports_def)
  show ?case
  proof (cases "rm_removeAll env (RmRemoveAll dir # tr)")
    case None
    then show ?thesis using removeLoop_now(1) [OF None] loopResult_last less.prems(2) by (simp add: removeAnswer_def)
  next
    case (Some err)
    show ?thesis
    proof (cases err)
      case (OtherRemoveErr e)
      then show ?thesis using removeLoop_now(2) Some loopResult_last less.prems(2) by (simp add: removeAnswer_def)
    next
      case (PathError p e)
      have p: "p \<in> paths" using assms(1) Some PathError by (auto simp: reports_def)
      note step = removeLoop_path [OF Some [unfolded PathError], of m r]
      consider (stop) "e \<noteq> ENOENT" "e \<noteq> EBUSY" | (missing) "e = ENOENT" | (busy) "e = EBUSY" by blast
      then show ?thesis
      proof cases
        case stop
        then show ?thesis using step loopResult_last less.prems(2) by (simp add: removeAnswer_def)
      next
        case missing
        show ?thesis
        proof (cases "m p \<or> p = dir")
          case True
          then show ?thesis using step missing Some PathError loopResult_last less.prems(1,2) by (auto simp: removeAnswer_def)
        next
          case False
          have small: "budget paths (m(p := True)) r < n" using budget_missing [OF fin p, of m r] False less.prems(3) by simp
          have "loopResult env dir r (budget paths (m(p := True)) r) ([] @ RmRemoveAll dir # tr)
              (removeLoop env dir (m(p := True)) r (RmRemoveAll dir # tr))"
            unfolding append_Nil by (rule less.IH [OF small _ _ order_refl]) (use False less.prems(1,2) in auto)
          from loopResult_again [OF this small] show ?thesis using step missing False by simp
        qed
      next
        case busy
        let ?tr = "RmUnmount p # RmRemoveAll dir # tr"
        show ?thesis
        proof (cases "rm_unmount env ?tr = None \<and> r p \<noteq> maxRetry")
          case False
          then show ?thesis using step busy loopResult_unmount less.prems(2) by (auto split: option.splits)
        next
          case True
          then have rp: "r p < maxRetry" using less.prems(2) by (simp add: order_less_le)
          have small: "budget paths m (r(p := r p + 1)) < n" using budget_retry [OF fin p, of r m] rp less.prems(3) by simp
          have "loopResult env dir (r(p := r p + 1)) (budget paths m (r(p := r p + 1))) ([RmSleep, RmUnmount p] @ RmRemoveAll dir # tr)
              (removeLoop env dir m (r(p := r p + 1)) (RmSleep # ?tr))"
            unfolding append_Cons append_Nil by (rule less.IH [OF small _ _ order_refl]) (use rp less.prems(1,2) in auto)
          from loopResult_again [OF this small, of r] show ?thesis using step busy True by simp
        qed
      qed
    qed
  qed
qed

text \<open>
  C10: if the paths that the file system reports are finitely many, \<^verbatim>\<open>ensureRemoveAll\<close> returns, however the mounts
  and files change between its calls. It tries at most 51 times per path and once more, unmounts each path at
  most 51 times, and begins by unmounting what is mounted below the directory. It answers success only if the
  last attempt removed the directory or found it gone, and never says that the directory itself does not exist.
\<close>

theorem ensureRemoveAll_returns:
  assumes "reports env paths"
  shows "\<exists>res calls. ensureRemoveAll env srt dir tr = Some (res, calls @ snd (unmountRecursive env srt dir tr)) \<and>
           removals dir calls \<le> 51 * card paths + 1 \<and> (\<forall>p. unmounts p calls \<le> 51) \<and>
           (res = None \<longrightarrow> (\<exists>rest. calls = RmRemoveAll dir # rest \<and>
              rm_removeAll env (calls @ snd (unmountRecursive env srt dir tr)) \<in> {None, Some (PathError dir ENOENT)})) \<and>
           res \<noteq> Some (PathError dir ENOENT)"
proof -
  let ?tr = "snd (unmountRecursive env srt dir tr)"
  have "budget paths (\<lambda>_. False) (\<lambda>_. 0) \<le> 51 * card paths" by (simp add: budget_def maxRetry_def)
  then have "loopResult env dir (\<lambda>_. 0) (51 * card paths) ?tr (ensureRemoveAll env srt dir tr)"
    unfolding ensureRemoveAll_def using removeLoop_returns [OF assms] by simp
  then obtain res calls where r: "ensureRemoveAll env srt dir tr = Some (res, calls @ ?tr)"
      "removals dir calls \<le> 51 * card paths + 1" "\<forall>p. unmounts p calls \<le> 51" "removeAnswer env dir res calls ?tr"
    unfolding loopResult_def maxRetry_def by auto
  then show ?thesis
    by (intro exI [of _ res] exI [of _ calls]) (auto simp: removeAnswer_def)
qed

text \<open>A kernel with one busy mount inside the directory, which can be unmounted only once the retry asks for it.\<close>

definition busy_env :: removeEnv where
  "busy_env = \<lparr>rm_selfMounts = (\<lambda>_. Inr [''/run/c/shm'', ''/'', ''/run/c'']), rm_unmountAll = (\<lambda>_. Some ErrDeadlineExceeded),
     rm_removeAll = (\<lambda>tr. if RmUnmount ''/run/c/shm'' \<in> set tr then None else Some (PathError ''/run/c/shm'' EBUSY)),
     rm_unmount = (\<lambda>_. None)\<rparr>"

lemma busy_reports: "reports busy_env {''/run/c/shm''}"
  by (auto simp: reports_def busy_env_def split: if_splits)

theorem ensureRemoveAll_returns_witness:
  "(\<exists>res calls. ensureRemoveAll busy_env (\<lambda>xs. rev (sort_key length xs)) ''/run/c'' [] =
       Some (res, calls @ snd (unmountRecursive busy_env (\<lambda>xs. rev (sort_key length xs)) ''/run/c'' [])) \<and>
     removals ''/run/c'' calls \<le> 52) \<and>
   snd (unmountRecursive busy_env (\<lambda>xs. rev (sort_key length xs)) ''/run/c'' []) =
     [RmUnmountAll ''/run/c'', RmUnmountAll ''/run/c/shm'', RmMounts]"
proof
  show "\<exists>res calls. ensureRemoveAll busy_env (\<lambda>xs. rev (sort_key length xs)) ''/run/c'' [] =
       Some (res, calls @ snd (unmountRecursive busy_env (\<lambda>xs. rev (sort_key length xs)) ''/run/c'' [])) \<and>
     removals ''/run/c'' calls \<le> 52"
    using ensureRemoveAll_returns [OF busy_reports, of "\<lambda>xs. rev (sort_key length xs)" "''/run/c''" "[]"] by auto
  show "snd (unmountRecursive busy_env (\<lambda>xs. rev (sort_key length xs)) ''/run/c'' []) =
      [RmUnmountAll ''/run/c'', RmUnmountAll ''/run/c/shm'', RmMounts]" by code_simp
qed

text \<open>An error about a path that is gone can be returned all the same, for a path other than the directory.\<close>

lemma returns_not_exist:
  "removeLoop (busy_env\<lparr>rm_removeAll := (\<lambda>_. Some (PathError ''/run/c/x'' ENOENT))\<rparr>) ''/run/c'' (\<lambda>_. False) (\<lambda>_. 0) [] =
     Some (Some (PathError ''/run/c/x'' ENOENT), [RmRemoveAll ''/run/c'', RmRemoveAll ''/run/c''])"
  by (simp add: removeLoop_path)

end
