(* ===== verification/RequestCache.thy ===== *)
theory RequestCache
  imports Prelude
begin

section \<open>Streaming requests\<close>

text \<open>
  \<^verbatim>\<open>pkg/streaming/request_cache.go\<close>: \<^verbatim>\<open>Exec\<close>, \<^verbatim>\<open>Attach\<close> and \<^verbatim>\<open>PortForward\<close> answer with an URL that holds a
  token; the cache keeps the request until the token is used, once, within a minute.

  The list of \<^verbatim>\<open>container/list\<close> is a list of elements, the front first; an element has an identity, by which the
  map of tokens refers to it. Times are nanoseconds of the clock, \<open>rnd k\<close> is the \<open>k\<close>-th call of
  \<^verbatim>\<open>crypto/rand.Read\<close> during an insertion.
\<close>

record 'r cacheEntry =
  ce_token :: string
  ce_req :: 'r
  ce_expire :: int

record 'r requestCache =
  rc_tokens :: "string \<rightharpoonup> nat"
  rc_ll :: "(nat \<times> 'r cacheEntry) list"
  rc_next :: nat

definition cacheTTL :: int where "cacheTTL = 60 * 1000000000"
definition maxInFlight :: nat where "maxInFlight = 1000"
definition tokenLen :: nat where "tokenLen = 8"
definition maxTries :: nat where "maxTries = 10"

definition newRequestCache :: "'r requestCache" where
  "newRequestCache = \<lparr>rc_tokens = Map.empty, rc_ll = [], rc_next = 0\<rparr>"

subsection \<open>Tokens\<close>

text \<open>\<^verbatim>\<open>base64.RawURLEncoding\<close>\<close>

definition b64Char :: "nat \<Rightarrow> char" where
  "b64Char n = ''ABCDEFGHIJKLMNOPQRSTUVWXYZabcdefghijklmnopqrstuvwxyz0123456789-_'' ! (n mod 64)"

fun b64Encode :: "8 word list \<Rightarrow> string" where
  "b64Encode [] = []"
| "b64Encode [a] = (let v = unat a * 2 ^ 16 in [b64Char (v div 2 ^ 18), b64Char (v div 2 ^ 12)])"
| "b64Encode [a, b] =
     (let v = unat a * 2 ^ 16 + unat b * 2 ^ 8 in [b64Char (v div 2 ^ 18), b64Char (v div 2 ^ 12), b64Char (v div 2 ^ 6)])"
| "b64Encode (a # b # c # rest) =
     (let v = unat a * 2 ^ 16 + unat b * 2 ^ 8 + unat c in
      [b64Char (v div 2 ^ 18), b64Char (v div 2 ^ 12), b64Char (v div 2 ^ 6), b64Char v] @ b64Encode rest)"

text \<open>The number of random bytes, \<^verbatim>\<open>math.Ceil(float64(tokenLen) * 6 / 8)\<close>.\<close>

definition tokenSize :: nat where "tokenSize = (tokenLen * 6 + 7) div 8"

fun uniqueLoop :: "(nat \<Rightarrow> 8 word list result) \<Rightarrow> (string \<rightharpoonup> nat) \<Rightarrow> nat \<Rightarrow> nat \<Rightarrow> string result" where
  "uniqueLoop rnd tokens 0 k = Inl (Errorf ''failed to generate unique token'' [])"
| "uniqueLoop rnd tokens (Suc n) k =
     (case rnd k of
        Inl err \<Rightarrow> Inl err
      | Inr raw \<Rightarrow>
          (let encoded = b64Encode raw; token = take tokenLen encoded in
           if tokens encoded = None then Inr token else uniqueLoop rnd tokens n (Suc k)))"

definition uniqueToken :: "(nat \<Rightarrow> 8 word list result) \<Rightarrow> 'r requestCache \<Rightarrow> string result" where
  "uniqueToken rnd c = uniqueLoop rnd (rc_tokens c) maxTries 0"

subsection \<open>Operations\<close>

text \<open>The loop of \<^verbatim>\<open>gc\<close> takes the oldest element at the back of the list.\<close>

fun gcLoop :: "int \<Rightarrow> (nat \<times> 'r cacheEntry) list \<Rightarrow> (string \<rightharpoonup> nat) \<Rightarrow> (nat \<times> 'r cacheEntry) list \<times> (string \<rightharpoonup> nat)" where
  "gcLoop now [] tokens = ([], tokens)"
| "gcLoop now ((h, e) # older) tokens =
     (if \<not> ce_expire e < now then ((h, e) # older, tokens) else gcLoop now older (tokens(ce_token e := None)))"

definition gc :: "int \<Rightarrow> 'r requestCache \<Rightarrow> 'r requestCache" where
  "gc now c = (let (ll, tokens) = gcLoop now (rev (rc_ll c)) (rc_tokens c) in c\<lparr>rc_ll := rev ll, rc_tokens := tokens\<rparr>)"

definition ErrTooManyInFlight :: goerror where
  "ErrTooManyInFlight = Errorf ''maximum number of in-flight requests exceeded'' []"

definition Cache_Insert :: "(nat \<Rightarrow> 8 word list result) \<Rightarrow> int \<Rightarrow> int \<Rightarrow> 'r \<Rightarrow> 'r requestCache \<Rightarrow> string result \<times> 'r requestCache" where
  "Cache_Insert rnd now1 now2 req c0 =
     (let c = gc now1 c0 in
      if length (rc_ll c) = maxInFlight then (Inl ErrTooManyInFlight, c)
      else case uniqueToken rnd c of
             Inl err \<Rightarrow> (Inl err, c)
           | Inr token \<Rightarrow>
               (Inr token,
                c\<lparr>rc_ll := (rc_next c, \<lparr>ce_token = token, ce_req = req, ce_expire = now2 + cacheTTL\<rparr>) # rc_ll c,
                  rc_tokens := (rc_tokens c)(token \<mapsto> rc_next c), rc_next := Suc (rc_next c)\<rparr>))"

definition Cache_Consume :: "int \<Rightarrow> string \<Rightarrow> 'r requestCache \<Rightarrow> 'r option \<times> 'r requestCache" where
  "Cache_Consume now token c =
     (case rc_tokens c token of
        None \<Rightarrow> (None, c)
      | Some h \<Rightarrow>
          (let c' = c\<lparr>rc_ll := filter (\<lambda>x. fst x \<noteq> h) (rc_ll c), rc_tokens := (rc_tokens c)(token := None)\<rparr> in
           case map_of (rc_ll c) h of
             None \<Rightarrow> (None, c')
           | Some e \<Rightarrow> (if ce_expire e < now then None else Some (ce_req e), c')))"

subsection \<open>Invariant\<close>

text \<open>
  The map refers to exactly the elements of the list, by token; the list is ordered by age; and no entry
  expires later than a minute after \<open>now\<close>, the last time read.
\<close>

definition tok :: "nat \<times> 'r cacheEntry \<Rightarrow> string \<times> nat" where
  "tok x = (ce_token (snd x), fst x)"

definition rc_inv :: "'r requestCache \<Rightarrow> int \<Rightarrow> bool" where
  "rc_inv c now \<longleftrightarrow> rc_tokens c = map_of (map tok (rc_ll c)) \<and> distinct (map fst (rc_ll c)) \<and>
     distinct (map (\<lambda>x. ce_token (snd x)) (rc_ll c)) \<and> (\<forall>x \<in> set (rc_ll c). fst x < rc_next c) \<and>
     length (rc_ll c) \<le> maxInFlight \<and>
     sorted_wrt (\<lambda>x y. ce_expire (snd y) \<le> ce_expire (snd x)) (rc_ll c) \<and>
     (\<forall>x \<in> set (rc_ll c). ce_expire (snd x) \<le> now + cacheTTL)"

text \<open>The requests that can still be fetched at a time.\<close>

definition live :: "int \<Rightarrow> 'r requestCache \<Rightarrow> string \<rightharpoonup> 'r \<times> int" where
  "live now c t =
     (case rc_tokens c t of
        None \<Rightarrow> None
      | Some h \<Rightarrow> (case map_of (rc_ll c) h of
                     None \<Rightarrow> None
                   | Some e \<Rightarrow> (if now \<le> ce_expire e then Some (ce_req e, ce_expire e) else None)))"

definition fresh :: "int \<Rightarrow> nat \<times> 'r cacheEntry \<Rightarrow> bool" where
  "fresh now x \<longleftrightarrow> now \<le> ce_expire (snd x)"

lemma rc_inv_New: "rc_inv newRequestCache now"
  by (simp add: rc_inv_def newRequestCache_def)

lemma map_of_tok:
  assumes "distinct (map (\<lambda>x. ce_token (snd x)) xs)"
  shows "map_of (map tok xs) t = Some h \<longleftrightarrow> (\<exists>e. (h, e) \<in> set xs \<and> ce_token e = t)"
proof -
  have "distinct (map fst (map tok xs))" using assms by (simp add: tok_def comp_def)
  then have "map_of (map tok xs) t = Some h \<longleftrightarrow> (t, h) \<in> set (map tok xs)" by simp
  also have "\<dots> \<longleftrightarrow> (\<exists>e. (h, e) \<in> set xs \<and> ce_token e = t)" by (force simp: tok_def)
  finally show ?thesis .
qed

lemma tokens_iff:
  "rc_inv c now \<Longrightarrow> rc_tokens c t = Some h \<longleftrightarrow> (\<exists>e. (h, e) \<in> set (rc_ll c) \<and> ce_token e = t)"
  using map_of_tok [of "rc_ll c" t h] by (simp add: rc_inv_def)

lemma live_iff:
  assumes "rc_inv c t0"
  shows "live now c t = Some (req, exp) \<longleftrightarrow> (\<exists>h e. (h, e) \<in> set (rc_ll c) \<and> ce_token e = t \<and> ce_req e = req \<and> ce_expire e = exp \<and> now \<le> exp)"
proof -
  have d: "map_of (rc_ll c) h = Some e \<longleftrightarrow> (h, e) \<in> set (rc_ll c)" for h e using assms by (simp add: rc_inv_def)
  have u: "e = e'" if "(h, e) \<in> set (rc_ll c)" "(h, e') \<in> set (rc_ll c)" for h e e' using that d [of h e] d [of h e'] by simp
  have tok_inj: "x = y" if "x \<in> set (rc_ll c)" "y \<in> set (rc_ll c)" "ce_token (snd x) = ce_token (snd y)" for x y
    using assms that by (auto simp: rc_inv_def distinct_map inj_on_def)
  show ?thesis
  proof (cases "rc_tokens c t")
    case None
    then have "\<nexists>h e. (h, e) \<in> set (rc_ll c) \<and> ce_token e = t" using tokens_iff [OF assms, of t] by simp
    then show ?thesis using None by (auto simp: live_def)
  next
    case (Some h)
    then obtain e where e: "(h, e) \<in> set (rc_ll c)" "ce_token e = t" using tokens_iff [OF assms] by blast
    then have "map_of (rc_ll c) h = Some e" using d by blast
    then have "live now c t = (if now \<le> ce_expire e then Some (ce_req e, ce_expire e) else None)" using Some by (simp add: live_def)
    moreover have "e' = e" if "(h', e') \<in> set (rc_ll c)" "ce_token e' = t" for h' e' using tok_inj [OF that(1) e(1)] that(2) e(2) by simp
    ultimately show ?thesis using e by (metis (no_types, lifting) option.distinct(1) option.inject prod.inject)
  qed
qed

lemma pair_map_eqI: "(\<And>x q d. f x = Some (q, d) \<longleftrightarrow> g x = Some (q, d)) \<Longrightarrow> f = g"
  by (rule ext) (metis option.exhaust surj_pair)

lemma same_entries:
  assumes "rc_inv c t0" "rc_inv c' t1"
    and "\<And>h z. (h, z) \<in> set (rc_ll c) \<and> ce_token z = x \<longleftrightarrow> (h, z) \<in> set (rc_ll c') \<and> ce_token z = x"
  shows "live u c x = Some (q, d) \<longleftrightarrow> live u c' x = Some (q, d)"
  unfolding live_iff [OF assms(1)] live_iff [OF assms(2)] using assms(3) by blast

subsection \<open>Collecting expired requests\<close>

lemma gcLoop_split:
  "gcLoop now old tokens = (dropWhile (\<lambda>x. \<not> fresh now x) old,
     (\<lambda>t. if t \<in> (\<lambda>x. ce_token (snd x)) ` set (takeWhile (\<lambda>x. \<not> fresh now x) old) then None else tokens t))"
proof (induction now old tokens rule: gcLoop.induct)
  case (2 now h e older tokens)
  show ?case
  proof (cases "fresh now (h, e)")
    case False
    then have now: "ce_expire e < now" by (simp add: fresh_def)
    then have "gcLoop now ((h, e) # older) tokens = gcLoop now older (tokens(ce_token e := None))" by simp
    also have "\<dots> = (dropWhile (\<lambda>x. \<not> fresh now x) older,
       (\<lambda>t. if t \<in> (\<lambda>x. ce_token (snd x)) ` set (takeWhile (\<lambda>x. \<not> fresh now x) older) then None else (tokens(ce_token e := None)) t))"
      using 2 now by blast
    finally show ?thesis using False by (auto simp: fun_eq_iff)
  qed (simp add: fresh_def)
qed simp

lemma dropWhile_sorted:
  "sorted_wrt (\<lambda>x y. f x \<le> f y) xs \<Longrightarrow> dropWhile (\<lambda>x. \<not> (now::int) \<le> f x) xs = filter (\<lambda>x. now \<le> f x) xs"
  "sorted_wrt (\<lambda>x y. f x \<le> f y) xs \<Longrightarrow> set (takeWhile (\<lambda>x. \<not> (now::int) \<le> f x) xs) = {x \<in> set xs. \<not> now \<le> f x}"
proof (induction xs)
  case (Cons x xs)
  have all: "filter (\<lambda>x. now \<le> f x) xs = xs" "\<forall>y \<in> set xs. now \<le> f y" if "now \<le> f x" "sorted_wrt (\<lambda>x y. f x \<le> f y) (x # xs)"
    using that by (fastforce simp: filter_id_conv)+
  {
    case 1
    then show ?case using Cons.IH(1) all(1) by simp
  next
    case 2
    then show ?case using Cons.IH(2) all(2) by auto
  }
qed simp_all

text \<open>Because the list is ordered by age, exactly the expired entries go.\<close>

lemma gc_correct:
  assumes inv: "rc_inv c t0"
  shows "rc_ll (gc now c) = filter (fresh now) (rc_ll c)" and "rc_next (gc now c) = rc_next c"
    and "rc_tokens (gc now c) = (\<lambda>t. if \<exists>x \<in> set (rc_ll c). \<not> fresh now x \<and> ce_token (snd x) = t then None else rc_tokens c t)"
proof -
  have s: "sorted_wrt (\<lambda>x y. ce_expire (snd x) \<le> ce_expire (snd y)) (rev (rc_ll c))"
    using inv by (simp add: rc_inv_def sorted_wrt_rev)
  note d = dropWhile_sorted [OF s, of now]
  show "rc_ll (gc now c) = filter (fresh now) (rc_ll c)" "rc_next (gc now c) = rc_next c"
    "rc_tokens (gc now c) = (\<lambda>t. if \<exists>x \<in> set (rc_ll c). \<not> fresh now x \<and> ce_token (snd x) = t then None else rc_tokens c t)"
    by (auto simp: gc_def gcLoop_split fresh_def [abs_def] d rev_filter fun_eq_iff)
qed

lemma rc_inv_sub:
  assumes inv: "rc_inv c t0" and "t0 \<le> t1" and ll: "rc_ll c' = filter P (rc_ll c)" "rc_next c' = rc_next c"
    and tokens: "\<And>t. rc_tokens c' t = (if \<exists>x \<in> set (rc_ll c). \<not> P x \<and> ce_token (snd x) = t then None else rc_tokens c t)"
  shows "rc_inv c' t1"
proof -
  have d: "distinct (map (\<lambda>x. ce_token (snd x)) (rc_ll c))" using inv by (simp add: rc_inv_def)
  have d': "distinct (map (\<lambda>x. ce_token (snd x)) (filter P (rc_ll c)))" using d by (simp add: distinct_map_filter)
  have inj: "x = y" if "x \<in> set (rc_ll c)" "y \<in> set (rc_ll c)" "ce_token (snd x) = ce_token (snd y)" for x y
    using d that by (auto simp: distinct_map inj_on_def)
  have "rc_tokens c' t = Some h \<longleftrightarrow> map_of (map tok (rc_ll c')) t = Some h" for t h
  proof (cases "\<exists>x \<in> set (rc_ll c). \<not> P x \<and> ce_token (snd x) = t")
    case True
    then obtain x where x: "x \<in> set (rc_ll c)" "\<not> P x" "ce_token (snd x) = t" by blast
    have "\<not> (\<exists>e. (h, e) \<in> set (filter P (rc_ll c)) \<and> ce_token e = t)"
    proof
      assume "\<exists>e. (h, e) \<in> set (filter P (rc_ll c)) \<and> ce_token e = t"
      then obtain e where "(h, e) \<in> set (rc_ll c)" "P (h, e)" "ce_token e = t" by auto
      then show False using inj [OF x(1), of "(h, e)"] x(2,3) by simp
    qed
    then show ?thesis using True by (simp add: ll map_of_tok [OF d'] tokens)
  next
    case False
    then have "(\<exists>e. (h, e) \<in> set (filter P (rc_ll c)) \<and> ce_token e = t) \<longleftrightarrow> (\<exists>e. (h, e) \<in> set (rc_ll c) \<and> ce_token e = t)"
      by fastforce
    moreover have "rc_tokens c' t = rc_tokens c t" using tokens False by metis
    ultimately show ?thesis unfolding ll map_of_tok [OF d'] using tokens_iff [OF inv, of t h] by simp
  qed
  then have "rc_tokens c' = map_of (map tok (rc_ll c'))" by (metis (no_types) ext option.exhaust)
  moreover have "length (rc_ll c') \<le> maxInFlight" using inv ll(1) order.trans [OF length_filter_le [of P "rc_ll c"]] unfolding rc_inv_def by simp
  moreover have "ce_expire (snd x) \<le> t1 + cacheTTL" if "x \<in> set (rc_ll c')" for x
    using inv that assms(2) ll(1) by (fastforce simp: rc_inv_def)
  ultimately show ?thesis
    using inv by (simp add: rc_inv_def ll distinct_map_filter sorted_wrt_filter)
qed

lemma rc_inv_gc: "rc_inv c t0 \<Longrightarrow> t0 \<le> t1 \<Longrightarrow> rc_inv (gc now c) t1"
  by (rule rc_inv_sub [of c t0 t1 "gc now c" "fresh now"]) (simp_all add: gc_correct)

lemma live_gc:
  assumes "rc_inv c t0" "now \<le> t"
  shows "live t (gc now c) = live t c"
proof
  fix x
  have "live t (gc now c) x = Some (req, exp) \<longleftrightarrow> live t c x = Some (req, exp)" for req exp
    using assms(2) unfolding live_iff [OF rc_inv_gc [OF assms(1) order_refl]] live_iff [OF assms(1)] gc_correct(1) [OF assms(1)]
    by (force simp: fresh_def)
  then show "live t (gc now c) x = live t c x" by (metis option.exhaust surj_pair)
qed

lemma card_live:
  assumes "rc_inv c t0"
  shows "card (dom (live now c)) = length (filter (fresh now) (rc_ll c))"
proof -
  have "dom (live now c) = (\<lambda>x. ce_token (snd x)) ` set (filter (fresh now) (rc_ll c))"
    using live_iff [OF assms] by (force simp: dom_def fresh_def)
  moreover have "distinct (map (\<lambda>x. ce_token (snd x)) (filter (fresh now) (rc_ll c)))"
    using assms by (simp add: rc_inv_def distinct_map_filter)
  ultimately show ?thesis by (metis distinct_card length_map list.set_map)
qed

subsection \<open>Fresh tokens\<close>

text \<open>Six random bytes are eight characters, so the token that is stored is the one that was tested.\<close>

definition fillsTokens :: "(nat \<Rightarrow> 8 word list result) \<Rightarrow> bool" where
  "fillsTokens rnd \<longleftrightarrow> (\<forall>k raw. rnd k = Inr raw \<longrightarrow> length raw = tokenSize)"

lemma b64Encode_length: "length raw = 6 \<Longrightarrow> length (b64Encode raw) = 8"
proof -
  assume "length raw = 6"
  then obtain a b c d e f where "raw = [a, b, c, d, e, f]" by (auto simp: numeral_eq_Suc length_Suc_conv)
  then show ?thesis by (simp add: Let_def)
qed

lemma uniqueLoop_fresh:
  assumes rnd: "fillsTokens rnd"
  shows "uniqueLoop rnd tokens n k = Inr token \<Longrightarrow> tokens token = None"
proof (induction n arbitrary: k)
  case (Suc n)
  then obtain raw where raw: "rnd k = Inr raw" by (cases "rnd k") auto
  then have "length raw = 6" using rnd by (simp add: fillsTokens_def tokenSize_def tokenLen_def)
  then have "length (b64Encode raw) = 8" using b64Encode_length [of raw] by simp
  then have "take tokenLen (b64Encode raw) = b64Encode raw" by (simp add: tokenLen_def)
  then show ?case using Suc raw by (auto simp: Let_def split: if_splits)
qed simp

subsection \<open>The operations on the requests that can be fetched\<close>

lemma live_consume:
  assumes inv: "rc_inv c t0" and "t0 \<le> now" and run: "Cache_Consume now token c = (r, c')"
  shows "rc_inv c' now \<and> r = map_option fst (live now c token) \<and> (\<forall>u. live u c' = (live u c)(token := None))"
proof (cases "rc_tokens c token")
  case None
  then have "r = None" "c' = c" "live u c token = None" for u using run by (auto simp: Cache_Consume_def live_def)
  moreover have "rc_inv c now" using inv assms(2) by (fastforce simp: rc_inv_def)
  ultimately show ?thesis by (auto simp: fun_upd_idem)
next
  case (Some h)
  then obtain e where e: "(h, e) \<in> set (rc_ll c)" "ce_token e = token" using tokens_iff [OF inv] by blast
  then have m: "map_of (rc_ll c) h = Some e" using inv by (simp add: rc_inv_def)
  then have r: "r = map_option fst (live now c token)" using run Some by (auto simp: Cache_Consume_def live_def Let_def)
  have ll: "rc_ll c' = filter (\<lambda>x. fst x \<noteq> h) (rc_ll c)" "rc_next c' = rc_next c" "rc_tokens c' = (rc_tokens c)(token := None)"
    using run Some m by (auto simp: Cache_Consume_def Let_def)
  have fst_inj: "x = (h, e)" if "x \<in> set (rc_ll c)" "fst x = h" for x
    using inv that e(1) by (auto simp: rc_inv_def distinct_map inj_on_def)
  have inv': "rc_inv c' now"
  proof (rule rc_inv_sub [OF inv assms(2) ll(1,2)])
    fix t
    have "(\<exists>x \<in> set (rc_ll c). \<not> fst x \<noteq> h \<and> ce_token (snd x) = t) \<longleftrightarrow> t = token"
      using fst_inj e by (metis fst_conv snd_conv)
    then show "rc_tokens c' t = (if \<exists>x \<in> set (rc_ll c). \<not> fst x \<noteq> h \<and> ce_token (snd x) = t then None else rc_tokens c t)"
      using ll(3) by simp
  qed
  have gone: "rc_tokens c' token = None" using ll(3) by simp
  have "live u c' x = Some (q, d) \<longleftrightarrow> ((live u c)(token := None)) x = Some (q, d)" for u x q d
  proof (cases "x = token")
    case True
    then show ?thesis using gone by (simp add: live_def)
  next
    case False
    have "(k, z) \<in> set (rc_ll c') \<and> ce_token z = x \<longleftrightarrow> (k, z) \<in> set (rc_ll c) \<and> ce_token z = x" for k z
      unfolding ll(1) using False fst_inj [of "(k, z)"] e(2) by auto
    then show ?thesis using False same_entries [OF inv' inv, of x u q d] by simp
  qed
  then have "live u c' = (live u c)(token := None)" for u by (rule pair_map_eqI)
  then show ?thesis using inv' r by blast
qed

lemma live_insert:
  assumes inv: "rc_inv c t0" and "t0 \<le> now1" "now1 \<le> now2" "fillsTokens rnd"
    and run: "Cache_Insert rnd now1 now2 req c = (r, c')"
  shows "rc_inv c' now2 \<and>
    (case r of
       Inr token \<Rightarrow> live now1 c token = None \<and> card (dom (live now1 c)) < maxInFlight \<and>
         (\<forall>u. now1 \<le> u \<longrightarrow> u \<le> now2 + cacheTTL \<longrightarrow> live u c' = (live u c)(token \<mapsto> (req, now2 + cacheTTL)))
     | Inl err \<Rightarrow> (\<forall>u \<ge> now1. live u c' = live u c))"
proof -
  let ?g = "gc now1 c"
  have g: "rc_inv ?g now2" by (rule rc_inv_gc [OF inv]) (use assms(2,3) in simp)
  have live_g: "live u ?g = live u c" if "now1 \<le> u" for u by (rule live_gc [OF inv that])
  have len: "card (dom (live now1 c)) = length (rc_ll ?g)" using card_live [OF inv] gc_correct(1) [OF inv] by simp
  show ?thesis
  proof (cases r)
    case (Inl err)
    then have "c' = ?g" using run by (auto simp: Cache_Insert_def Let_def split: if_splits sum.splits)
    then show ?thesis using Inl g live_g by simp
  next
    case (Inr token)
    let ?e = "\<lparr>ce_token = token, ce_req = req, ce_expire = now2 + cacheTTL\<rparr>"
    have u: "uniqueToken rnd ?g = Inr token" "length (rc_ll ?g) \<noteq> maxInFlight"
      and c': "c' = ?g\<lparr>rc_ll := (rc_next ?g, ?e) # rc_ll ?g, rc_tokens := (rc_tokens ?g)(token \<mapsto> rc_next ?g), rc_next := Suc (rc_next ?g)\<rparr>"
      using run Inr by (auto simp: Cache_Insert_def Let_def split: if_splits sum.splits)
    have free: "rc_tokens ?g token = None" using uniqueLoop_fresh [OF assms(4)] u(1) by (simp add: uniqueToken_def)
    then have none: "ce_token (snd x) \<noteq> token" if "x \<in> set (rc_ll ?g)" for x
      using tokens_iff [OF g, of token] that by (metis option.distinct(1) prod.collapse)
    have inv': "rc_inv c' now2"
      using g u(2) none by (auto simp: rc_inv_def c' tok_def less_Suc_eq)
    have fit: "length (rc_ll ?g) < maxInFlight" using g u(2) by (simp add: rc_inv_def)
    have set': "(h, z) \<in> set (rc_ll c') \<longleftrightarrow> h = rc_next ?g \<and> z = ?e \<or> (h, z) \<in> set (rc_ll ?g)" for h z by (simp add: c')
    have "live d c' x = Some (q, e) \<longleftrightarrow> ((live d ?g)(token \<mapsto> (req, now2 + cacheTTL))) x = Some (q, e)" if d: "d \<le> now2 + cacheTTL" for d x q e
    proof (cases "x = token")
      case True
      have "live d c' token = Some (req, now2 + cacheTTL)"
        unfolding live_iff [OF inv'] set' using d by (intro exI [of _ "rc_next ?g"] exI [of _ ?e]) simp
      then show ?thesis using True by auto
    next
      case False
      then have "(h, z) \<in> set (rc_ll c') \<and> ce_token z = x \<longleftrightarrow> (h, z) \<in> set (rc_ll ?g) \<and> ce_token z = x" for h z
        unfolding set' by auto
      then show ?thesis using False same_entries [OF inv' g, of x d q e] by simp
    qed
    then have "live d c' = (live d ?g)(token \<mapsto> (req, now2 + cacheTTL))" if "d \<le> now2 + cacheTTL" for d
      using that by (intro pair_map_eqI)
    moreover have "live now1 ?g token = None" using free by (simp add: live_def)
    then have "live now1 c token = None" using live_g [of now1] by simp
    ultimately show ?thesis using Inr inv' len fit live_g by simp
  qed
qed

subsection \<open>Any sequence of calls\<close>

text \<open>A cache and the last time its clock showed; the clock does not go back.\<close>

inductive rc_step :: "'r requestCache \<times> int \<Rightarrow> 'r requestCache \<times> int \<Rightarrow> bool" where
  insert: "fillsTokens rnd \<Longrightarrow> now \<le> now1 \<Longrightarrow> now1 \<le> now2 \<Longrightarrow> Cache_Insert rnd now1 now2 req c = (r, c') \<Longrightarrow> rc_step (c, now) (c', now2)"
| consume: "now \<le> now1 \<Longrightarrow> Cache_Consume now1 token c = (r, c') \<Longrightarrow> rc_step (c, now) (c', now1)"

interpretation rcache: inv_system "\<lambda>s. fst s = newRequestCache" rc_step "\<lambda>s. rc_inv (fst s) (snd s)"
proof
  fix s t :: "'a requestCache \<times> int"
  assume inv: "rc_inv (fst s) (snd s)" and step: "rc_step s t"
  from step show "rc_inv (fst t) (snd t)"
  proof (cases rule: rc_step.cases)
    case (insert rnd now now1 now2 req c r c')
    then show ?thesis using live_insert [of c now now1 now2 rnd req r c'] inv by simp
  next
    case (consume now now1 token c r c')
    then show ?thesis using live_consume [of c now now1 token r c'] inv by simp
  qed
qed (simp add: rc_inv_New)

text \<open>
  C3: the cache of streaming requests is a map from tokens to requests that loses exactly what is consumed or a minute
  old. After any sequence of calls at most a thousand requests are held. An insertion returns a token that no live
  request has and makes the request available under it for a minute, or fails and changes nothing, and it
  succeeds only while fewer than a thousand requests are live; no other request is lost. A token is good for
  one use: consuming it returns the live request with that token, if there is one, and removes it.
\<close>

theorem request_cache_correct:
  assumes "rc_step\<^sup>*\<^sup>* (newRequestCache, t0) (c, now)" "now \<le> now1" "now1 \<le> now2"
  shows "length (rc_ll c) \<le> maxInFlight \<and>
    (\<forall>rnd req. fillsTokens rnd \<longrightarrow>
       (case Cache_Insert rnd now1 now2 req c of
          (Inr token, c') \<Rightarrow> live now1 c token = None \<and> card (dom (live now1 c)) < maxInFlight \<and>
            (\<forall>u. now1 \<le> u \<longrightarrow> u \<le> now2 + cacheTTL \<longrightarrow> live u c' = (live u c)(token \<mapsto> (req, now2 + cacheTTL)))
        | (Inl err, c') \<Rightarrow> (\<forall>u \<ge> now1. live u c' = live u c))) \<and>
    (\<forall>token. case Cache_Consume now1 token c of
       (r, c') \<Rightarrow> r = map_option fst (live now1 c token) \<and> (\<forall>u. live u c' = (live u c)(token := None)))"
proof -
  have inv: "rc_inv c now" using rcache.inv_reachable [OF _ assms(1)] by simp
  have "case Cache_Insert rnd now1 now2 req c of
          (Inr token, c') \<Rightarrow> live now1 c token = None \<and> card (dom (live now1 c)) < maxInFlight \<and>
            (\<forall>u. now1 \<le> u \<longrightarrow> u \<le> now2 + cacheTTL \<longrightarrow> live u c' = (live u c)(token \<mapsto> (req, now2 + cacheTTL)))
        | (Inl err, c') \<Rightarrow> (\<forall>u \<ge> now1. live u c' = live u c)" if "fillsTokens rnd" for rnd req
    using live_insert [OF inv assms(2,3) that, of req] by (cases "Cache_Insert rnd now1 now2 req c") (auto split: sum.splits)
  moreover have "case Cache_Consume now1 token c of
       (r, c') \<Rightarrow> r = map_option fst (live now1 c token) \<and> (\<forall>u. live u c' = (live u c)(token := None))" for token
    using live_consume [OF inv assms(2), of token] by (cases "Cache_Consume now1 token c") auto
  ultimately show ?thesis using inv by (simp add: rc_inv_def)
qed

text \<open>A request for an exec session, consumed half a minute later, and then once more.\<close>

definition one_request :: "string requestCache" where
  "one_request = snd (Cache_Insert (\<lambda>_. Inr [0, 1, 2, 3, 4, 255]) 0 0 ''exec'' newRequestCache)"

lemma one_insert:
  fixes req :: 'r
  shows "Cache_Insert (\<lambda>_. Inr [0, 1, 2, 3, 4, 255]) 0 0 req newRequestCache =
     (Inr ''AAECAwT_'', \<lparr>rc_tokens = [''AAECAwT_'' \<mapsto> 0],
        rc_ll = [(0, \<lparr>ce_token = ''AAECAwT_'', ce_req = req, ce_expire = 60000000000\<rparr>)], rc_next = 1\<rparr>)"
proof -
  have "b64Encode [0, 1, 2, 3, 4, 255] = ''AAECAwT_''" by (simp add: Let_def b64Char_def)
  then have "uniqueLoop (\<lambda>_. Inr [0, 1, 2, 3, 4, 255]) Map.empty (Suc n) 0 = Inr ''AAECAwT_''" for n
    by (simp add: Let_def tokenLen_def del: b64Encode.simps)
  from this [of 9] have "uniqueToken (\<lambda>_. Inr [0, 1, 2, 3, 4, 255]) (newRequestCache :: 'r requestCache) = Inr ''AAECAwT_''"
    by (simp add: uniqueToken_def newRequestCache_def maxTries_def del: uniqueLoop.simps)
  moreover have "gc 0 newRequestCache = (newRequestCache :: 'r requestCache)" by (simp add: gc_def newRequestCache_def)
  ultimately show ?thesis
    by (simp add: Cache_Insert_def) (simp add: newRequestCache_def maxInFlight_def cacheTTL_def)
qed

theorem request_cache_correct_witness:
  "fst (Cache_Consume 30000000000 ''AAECAwT_'' one_request) = map_option fst (live 30000000000 one_request ''AAECAwT_'') \<and>
   fst (Cache_Consume 30000000000 ''AAECAwT_'' one_request) = Some ''exec'' \<and>
   fst (Cache_Consume 30000000000 ''AAECAwT_'' (snd (Cache_Consume 30000000000 ''AAECAwT_'' one_request))) = None"
proof -
  have "fillsTokens (\<lambda>_. Inr [0, 1, 2, 3, 4, 255])" by (simp add: fillsTokens_def tokenSize_def tokenLen_def)
  then have "rc_step (newRequestCache, 0) (one_request, 0)"
    unfolding one_request_def by (rule rc_step.insert) (simp_all add: prod_eq_iff)
  then have "rc_step\<^sup>*\<^sup>* (newRequestCache, 0) (one_request, 0)" by (rule r_into_rtranclp)
  from request_cache_correct [OF this, of 30000000000 30000000000]
  have "\<forall>token. fst (Cache_Consume 30000000000 token one_request) = map_option fst (live 30000000000 one_request token)"
    by (simp add: case_prod_beta)
  moreover have "fst (Cache_Consume 30000000000 ''AAECAwT_'' one_request) = Some ''exec''"
    "fst (Cache_Consume 30000000000 ''AAECAwT_'' (snd (Cache_Consume 30000000000 ''AAECAwT_'' one_request))) = None"
    by (simp_all add: one_request_def one_insert Cache_Consume_def)
  ultimately show ?thesis by blast
qed

end
