(* ===== verification/Queries.thy ===== *)
theory Queries
  imports ImageHandlers SandboxHandlers
begin

section \<open>Status and list requests\<close>

text \<open>
  \<^verbatim>\<open>container_status.go\<close>, \<^verbatim>\<open>container_list.go\<close>, \<^verbatim>\<open>sandbox_status.go\<close> and \<^verbatim>\<open>sandbox_list.go\<close>: what the kubelet is told about the
  objects in the stores. The requests change nothing of the service. The verbose information is the record that the
  code marshals to JSON, without the fields that are copied from containerd's answer. A label selector is the list of
  its pairs. Go's getters on an absent config return zero values.
\<close>

subsection \<open>Containers\<close>

record criContainerStatus =
  ks_Id :: string
  ks_Metadata :: "containerMetadata option"
  ks_State :: container_state
  ks_CreatedAt :: "64 word"
  ks_StartedAt :: "64 word"
  ks_FinishedAt :: "64 word"
  ks_ExitCode :: "32 word"
  ks_Image :: string
  ks_ImageRef :: string
  ks_Reason :: string
  ks_Message :: string
  ks_Labels :: labels
  ks_Annotations :: labels
  ks_Mounts :: "criMount list"
  ks_LogPath :: string

abbreviation ofConfig :: "'b \<Rightarrow> ('a \<Rightarrow> 'b) \<Rightarrow> 'a option \<Rightarrow> 'b" where
  "ofConfig zero field cfg \<equiv> (case cfg of None \<Rightarrow> zero | Some c \<Rightarrow> field c)"

definition toCRIContainerStatus :: "ctr \<Rightarrow> status \<Rightarrow> string \<Rightarrow> string \<Rightarrow> criContainerStatus" where
  "toCRIContainerStatus cntr status spec imageRef =
     (let meta = c_meta cntr; cfg = m_Config meta;
          reason = (if State status = EXITED \<and> st_Reason status = []
                    then (if st_ExitCode status = 0 then completeExitReason else errorExitReason) else st_Reason status)
      in \<lparr>ks_Id = m_ID meta, ks_Metadata = ofConfig None cc_Metadata cfg, ks_State = State status, ks_CreatedAt = st_CreatedAt status,
          ks_StartedAt = st_StartedAt status, ks_FinishedAt = st_FinishedAt status, ks_ExitCode = st_ExitCode status,
          ks_Image = spec, ks_ImageRef = imageRef, ks_Reason = reason, ks_Message = st_Message status,
          ks_Labels = ofConfig Map.empty cc_Labels cfg, ks_Annotations = ofConfig Map.empty cc_Annotations cfg,
          ks_Mounts = ofConfig [] cc_Mounts cfg, ks_LogPath = m_LogPath meta\<rparr>)"

record containerInfo =
  ci_SandboxID :: string
  ci_Pid :: "32 word"
  ci_Removing :: bool
  ci_Config :: "containerConfig option"
  ci_RuntimeSpec :: ociSpec

definition toCRIContainerInfo :: "world \<Rightarrow> ctr \<Rightarrow> bool \<Rightarrow> containerInfo option handler" where
  "toCRIContainerInfo w cntr verbose =
     (if \<not> verbose then returnA None
      else
        (let i = c_ID cntr; meta = c_meta cntr in
         bindA (getA (statusOf cntr)) (\<lambda>status.
         thenA (wrapA (ext w (CtrSpec i)) ''failed to get container runtime spec'' [])
        (bindA (getA (\<lambda>s. w_spec w (trace s) i)) (\<lambda>spec.
         thenA (wrapA (ext w (CtrInfo i)) ''failed to get container info'' [])
        (thenA (wrapA (ext w (GenRuntimeOptions i)) ''failed to get runtime options'' [])
               (returnA (Some \<lparr>ci_SandboxID = m_SandboxID meta, ci_Pid = st_Pid status, ci_Removing = st_Removing status,
                               ci_Config = m_Config meta, ci_RuntimeSpec = spec\<rparr>))))))))"

definition statusImage :: "(string \<Rightarrow> anyRef result) \<Rightarrow> ctr \<Rightarrow> image_store \<Rightarrow> (string \<times> string) result" where
  "statusImage parse cntr store =
     (let spec = ofConfig [] cc_Image (m_Config (c_meta cntr)); imageRef = m_ImageRef (c_meta cntr) in
      case Image_Get store imageRef of
        Inl err \<Rightarrow> (if err \<noteq> ErrNotExist then Inl (Wrapf err ''failed to get image %q'' [imageRef]) else Inr (spec, imageRef))
      | Inr img \<Rightarrow>
          (let (repoTags, repoDigests) = parseImageReferences parse (im_References img)
           in Inr (if repoTags \<noteq> [] then hd repoTags else spec, if repoDigests \<noteq> [] then hd repoDigests else imageRef)))"

text \<open>The CRI does not allow a creation time of 0.\<close>

definition withCreatedAt :: "world \<Rightarrow> string \<Rightarrow> criContainerStatus \<Rightarrow> criContainerStatus handler" where
  "withCreatedAt w i status =
     (if ks_CreatedAt status = 0
      then thenA (wrapA (ext w (CtrInfo i)) ''failed to get CreatedAt in %q state'' [criContainerStateToString (ks_State status)])
                 (getA (\<lambda>s. status\<lparr>ks_CreatedAt := word_of_int (w_createdAt w (trace s) i)\<rparr>))
      else returnA status)"

definition ContainerStatus :: "world \<Rightarrow> (string \<Rightarrow> anyRef result) \<Rightarrow> string \<Rightarrow> bool \<Rightarrow> (criContainerStatus \<times> containerInfo option) handler" where
  "ContainerStatus w parse r verbose =
     bindA (wrapA (containerGet r) ''an error occurred when try to find container %q'' [r]) (\<lambda>cntr.
     bindA (\<lambda>s. (statusImage parse cntr (imageStore s), s)) (\<lambda>(spec, imageRef).
     bindA (getA (\<lambda>s. toCRIContainerStatus cntr (statusOf cntr s) spec imageRef)) (\<lambda>status.
     bindA (withCreatedAt w (c_ID cntr) status) (\<lambda>status'.
     bindA (wrapA (toCRIContainerInfo w cntr verbose) ''failed to get verbose container info'' []) (\<lambda>info.
     returnA (status', info))))))"

record criContainer =
  kc_Id :: string
  kc_PodSandboxId :: string
  kc_Metadata :: "containerMetadata option"
  kc_Image :: string
  kc_ImageRef :: string
  kc_State :: container_state
  kc_CreatedAt :: "64 word"
  kc_Labels :: labels
  kc_Annotations :: labels

definition toCRIContainer :: "svc \<Rightarrow> ctr \<Rightarrow> criContainer" where
  "toCRIContainer s cntr =
     (let status = statusOf cntr s; meta = c_meta cntr; cfg = m_Config meta in
      \<lparr>kc_Id = m_ID meta, kc_PodSandboxId = m_SandboxID meta, kc_Metadata = ofConfig None cc_Metadata cfg,
       kc_Image = ofConfig [] cc_Image cfg, kc_ImageRef = m_ImageRef meta, kc_State = State status,
       kc_CreatedAt = st_CreatedAt status, kc_Labels = ofConfig Map.empty cc_Labels cfg,
       kc_Annotations = ofConfig Map.empty cc_Annotations cfg\<rparr>)"

record containerFilter =
  fi_Id :: string
  fi_State :: "container_state option"
  fi_PodSandboxId :: string
  fi_LabelSelector :: "(string \<times> string) list"

fun labelsMatch :: "(string \<times> string) list \<Rightarrow> labels \<Rightarrow> bool" where
  "labelsMatch [] got = True"
| "labelsMatch ((k, v) # sel) got = (if got k \<noteq> Some v then False else labelsMatch sel got)"

definition normalizeContainerFilter :: "svc \<Rightarrow> containerFilter \<Rightarrow> containerFilter" where
  "normalizeContainerFilter s filt =
     (let f1 = (case Store_Get (containerStore s) (fi_Id filt) of Inl _ \<Rightarrow> filt | Inr cntr \<Rightarrow> filt\<lparr>fi_Id := c_ID cntr\<rparr>)
      in case Sandbox_Get (sandboxStore s) (fi_PodSandboxId f1) of Inl _ \<Rightarrow> f1 | Inr sb \<Rightarrow> f1\<lparr>fi_PodSandboxId := sb_ID sb\<rparr>)"

definition containerPasses :: "containerFilter \<Rightarrow> string \<Rightarrow> criContainer \<Rightarrow> bool" where
  "containerPasses filt sb cntr =
     (if fi_Id filt \<noteq> [] \<and> fi_Id filt \<noteq> kc_Id cntr then False
      else if sb \<noteq> [] \<and> sb \<noteq> kc_PodSandboxId cntr then False
      else if fi_State filt \<noteq> None \<and> fi_State filt \<noteq> Some (kc_State cntr) then False
      else labelsMatch (fi_LabelSelector filt) (kc_Labels cntr))"

definition filterCRIContainers :: "svc \<Rightarrow> criContainer list \<Rightarrow> containerFilter option \<Rightarrow> criContainer list" where
  "filterCRIContainers s containers filt =
     (case filt of
        None \<Rightarrow> containers
      | Some f \<Rightarrow>
          (let sb = (if fi_PodSandboxId f \<noteq> []
                     then (case Sandbox_Get (sandboxStore s) (fi_PodSandboxId f) of Inl _ \<Rightarrow> fi_PodSandboxId f | Inr sandbox \<Rightarrow> sb_ID sandbox)
                     else fi_PodSandboxId f)
           in filter (containerPasses (normalizeContainerFilter s f) sb) containers))"

text \<open>\<^verbatim>\<open>order\<close> is the order in which the map of the store is visited.\<close>

definition ListContainers_handler :: "string list \<Rightarrow> containerFilter option \<Rightarrow> svc \<Rightarrow> criContainer list" where
  "ListContainers_handler order filt s = filterCRIContainers s (map (toCRIContainer s) (Store_List order (containerStore s))) filt"

subsection \<open>Sandboxes\<close>

definition criSandboxState :: "sb_status \<Rightarrow> pod_state" where
  "criSandboxState status = (if sb_State status = StateReady then SANDBOX_READY else SANDBOX_NOTREADY)"

text \<open>\<^verbatim>\<open>Time.UnixNano\<close> is 64 bits wide.\<close>

definition UnixNano :: "int \<Rightarrow> 64 word" where
  "UnixNano t = word_of_int t"

record criSandbox =
  kp_Id :: string
  kp_Metadata :: "podSandboxMetadata option"
  kp_State :: pod_state
  kp_CreatedAt :: "64 word"
  kp_Labels :: labels
  kp_Annotations :: labels
  kp_RuntimeHandler :: string

record criSandboxStatus = criSandbox +
  kp_Ip :: string
  kp_AdditionalIps :: "string list"
  kp_NsNetwork :: namespaceMode
  kp_NsPid :: namespaceMode
  kp_NsIpc :: namespaceMode

definition toCRISandbox :: "(podSandboxConfig, cniResult) sb_metadata \<Rightarrow> sb_status \<Rightarrow> criSandbox" where
  "toCRISandbox meta status =
     \<lparr>kp_Id = sm_ID meta, kp_Metadata = ofConfig None pc_Metadata (sm_Config meta), kp_State = criSandboxState status,
      kp_CreatedAt = UnixNano (sb_CreatedAt status), kp_Labels = ofConfig Map.empty pc_Labels (sm_Config meta),
      kp_Annotations = ofConfig Map.empty pc_Annotations (sm_Config meta), kp_RuntimeHandler = sm_RuntimeHandler meta\<rparr>"

definition toCRISandboxStatus :: "(podSandboxConfig, cniResult) sb_metadata \<Rightarrow> sb_status \<Rightarrow> string \<Rightarrow> string list \<Rightarrow> criSandboxStatus" where
  "toCRISandboxStatus meta status ip additionalIPs =
     \<lparr>kp_Id = sm_ID meta, kp_Metadata = ofConfig None pc_Metadata (sm_Config meta), kp_State = criSandboxState status,
      kp_CreatedAt = UnixNano (sb_CreatedAt status), kp_Labels = ofConfig Map.empty pc_Labels (sm_Config meta),
      kp_Annotations = ofConfig Map.empty pc_Annotations (sm_Config meta), kp_RuntimeHandler = sm_RuntimeHandler meta,
      kp_Ip = ip, kp_AdditionalIps = additionalIPs, kp_NsNetwork = ofConfig NS_POD pc_NsNetwork (sm_Config meta),
      kp_NsPid = ofConfig NS_POD pc_NsPid (sm_Config meta), kp_NsIpc = ofConfig NS_POD pc_NsIpc (sm_Config meta)\<rparr>"

text \<open>A missing network namespace of a pod that has one would be a nil dereference.\<close>

definition getIPs :: "world \<Rightarrow> sbx \<Rightarrow> (string \<times> string list) handler" where
  "getIPs w sb =
     (if ofConfig NS_POD pc_NsNetwork (sm_Config (sb_meta sb)) = NS_NODE then returnA ([], [])
      else case sb_NetNS sb of
        None \<Rightarrow> failA (Errorf ''invalid memory address or nil pointer dereference'' [])
      | Some path \<Rightarrow>
          bindA (wrapA (netNSClosed w path) ''check network namespace closed'' []) (\<lambda>closed.
          returnA (if closed then ([], []) else (sm_IP (sb_meta sb), sm_AdditionalIPs (sb_meta sb)))))"

record sandboxInfo =
  si_Pid :: "32 word"
  si_Status :: string
  si_NetNSClosed :: bool
  si_RuntimeHandler :: string
  si_Config :: "podSandboxConfig option"
  si_RuntimeSpec :: ociSpec
  si_CNIResult :: "cniResult option"

fun processStatusString :: "processStatus \<Rightarrow> string" where
  "processStatusString Task_Created = ''created''"
| "processStatusString Task_Running = ''running''"
| "processStatusString Task_Stopped = ''stopped''"
| "processStatusString (Task_Other st) = st"

definition sandboxProcessStatus :: "world \<Rightarrow> string \<Rightarrow> string handler" where
  "sandboxProcessStatus w i s =
     (case ext w (CtrTask i) s of
        (Inl err, s1) \<Rightarrow> (if \<not> IsNotFound err then (Inl (Wrapf err ''failed to get sandbox container task'' []), s1) else (Inr [], s1))
      | (Inr _, s1) \<Rightarrow>
          (case ext w (TaskStatus i) s1 of
             (Inl err, s2) \<Rightarrow> (Inl (Wrapf err ''failed to get task status'' []), s2)
           | (Inr _, s2) \<Rightarrow> (Inr (processStatusString (ts_Status (w_taskStatus w (trace s2) i))), s2)))"

definition toCRISandboxInfo :: "world \<Rightarrow> sbx \<Rightarrow> sandboxInfo handler" where
  "toCRISandboxInfo w sb =
     (let i = sb_ID sb; meta = sb_meta sb in
      bindA (sandboxProcessStatus w i) (\<lambda>st.
      bindA (getA (sbStatusOf sb)) (\<lambda>status.
      bindA (case sb_NetNS sb of
               None \<Rightarrow> returnA False
             | Some path \<Rightarrow> wrapA (netNSClosed w path) ''failed to check network namespace closed'' []) (\<lambda>closed.
      thenA (wrapA (ext w (CtrSpec i)) ''failed to get sandbox container runtime spec'' [])
     (bindA (getA (\<lambda>s. w_spec w (trace s) i)) (\<lambda>spec.
      thenA (wrapA (ext w (CtrInfo i)) ''failed to get sandbox container info'' [])
     (thenA (wrapA (ext w (GenRuntimeOptions i)) ''failed to get runtime options'' [])
            (returnA \<lparr>si_Pid = sb_Pid status, si_Status = (if st = [] then ''deleted'' else st), si_NetNSClosed = closed,
                      si_RuntimeHandler = sm_RuntimeHandler meta, si_Config = sm_Config meta, si_RuntimeSpec = spec,
                      si_CNIResult = sm_CNIResult meta\<rparr>))))))))"

definition withPodCreatedAt :: "world \<Rightarrow> string \<Rightarrow> criSandboxStatus \<Rightarrow> criSandboxStatus handler" where
  "withPodCreatedAt w i status =
     (if kp_CreatedAt status = 0
      then thenA (wrapA (ext w (CtrInfo i)) ''failed to get CreatedAt for sandbox container in %q state'' [pod_state_String (kp_State status)])
                 (getA (\<lambda>s. status\<lparr>kp_CreatedAt := UnixNano (w_createdAt w (trace s) i)\<rparr>))
      else returnA status)"

definition PodSandboxStatus :: "world \<Rightarrow> string \<Rightarrow> bool \<Rightarrow> (criSandboxStatus \<times> sandboxInfo option) handler" where
  "PodSandboxStatus w r verbose =
     bindA (wrapA (sandboxGet r) ''an error occurred when try to find sandbox'' []) (\<lambda>sb.
     bindA (wrapA (getIPs w sb) ''failed to get sandbox ip'' []) (\<lambda>(ip, additionalIPs).
     bindA (getA (\<lambda>s. toCRISandboxStatus (sb_meta sb) (sbStatusOf sb s) ip additionalIPs)) (\<lambda>status.
     bindA (withPodCreatedAt w (sb_ID sb) status) (\<lambda>status'.
     if \<not> verbose then returnA (status', None)
     else bindA (wrapA (toCRISandboxInfo w sb) ''failed to get verbose sandbox container info'' []) (\<lambda>info. returnA (status', Some info))))))"

record sandboxFilter =
  sf_Id :: string
  sf_State :: "pod_state option"
  sf_LabelSelector :: "(string \<times> string) list"

definition normalizePodSandboxFilter :: "svc \<Rightarrow> sandboxFilter \<Rightarrow> sandboxFilter" where
  "normalizePodSandboxFilter s filt =
     (case Sandbox_Get (sandboxStore s) (sf_Id filt) of Inl _ \<Rightarrow> filt | Inr sb \<Rightarrow> filt\<lparr>sf_Id := sb_ID sb\<rparr>)"

definition sandboxPasses :: "sandboxFilter \<Rightarrow> criSandbox \<Rightarrow> bool" where
  "sandboxPasses filt s =
     (if sf_Id filt \<noteq> [] \<and> sf_Id filt \<noteq> kp_Id s then False
      else if sf_State filt \<noteq> None \<and> sf_State filt \<noteq> Some (kp_State s) then False
      else labelsMatch (sf_LabelSelector filt) (kp_Labels s))"

definition filterCRISandboxes :: "svc \<Rightarrow> criSandbox list \<Rightarrow> sandboxFilter option \<Rightarrow> criSandbox list" where
  "filterCRISandboxes s sandboxes filt =
     (case filt of None \<Rightarrow> sandboxes | Some f \<Rightarrow> filter (sandboxPasses (normalizePodSandboxFilter s f)) sandboxes)"

definition ListPodSandbox :: "string list \<Rightarrow> sandboxFilter option \<Rightarrow> svc \<Rightarrow> criSandbox list" where
  "ListPodSandbox order filt s =
     filterCRISandboxes s (map (\<lambda>sb. toCRISandbox (sb_meta sb) (sbStatusOf sb s)) (Sandbox_List order (sandboxStore s))) filt"

subsection \<open>Lists answer the filter\<close>

text \<open>An id in a filter may be shortened: it stands for the only stored id it is a prefix of, and else for itself.\<close>

definition picks :: "string set \<Rightarrow> string \<Rightarrow> string \<Rightarrow> bool" where
  "picks I p i \<longleftrightarrow> p = [] \<or> (if \<exists>k. matches I p = {k} then matches I p = {i} else p = i)"

lemma labelsMatch_iff: "labelsMatch sel got \<longleftrightarrow> (\<forall>(k, v) \<in> set sel. got k = Some v)"
  by (induction sel got rule: labelsMatch.induct) auto

context object_store
begin

lemma get_picks:
  assumes "ok s" "i = (case get s p of Inl _ \<Rightarrow> p | Inr obj \<Rightarrow> ident obj)"
  shows "(i \<noteq> [] \<and> i \<noteq> j) = (\<not> picks (dom (objs s)) p j)"
proof (cases "get s p")
  case (Inl e)
  have "\<not> (\<exists>k. matches (dom (objs s)) p = {k})" if "p \<noteq> []"
  proof
    assume "\<exists>k. matches (dom (objs s)) p = {k}"
    then obtain k where k: "matches (dom (objs s)) p = {k}" by blast
    then obtain obj where "objs s k = Some obj" by (auto simp: matches_def)
    then have "get s p = Inr obj" using get_Inr [OF assms(1), of p obj] ok_ident [OF assms(1)] k that by auto
    then show False using Inl by simp
  qed
  then show ?thesis using Inl assms(2) by (auto simp: picks_def)
next
  case (Inr obj)
  then have m: "p \<noteq> []" "matches (dom (objs s)) p = {ident obj}" using get_Inr [OF assms(1), of p obj] by auto
  then have "prefix p (ident obj)" unfolding matches_def by blast
  then have "ident obj \<noteq> []" using m(1) by auto
  then show ?thesis using Inr assms(2) m by (auto simp: picks_def)
qed

end

text \<open>What a filter asks of a container and of a pod.\<close>

definition containerWanted :: "svc \<Rightarrow> containerFilter option \<Rightarrow> ctr \<Rightarrow> bool" where
  "containerWanted s filt c \<longleftrightarrow>
     (case filt of None \<Rightarrow> True | Some f \<Rightarrow>
        picks (dom (cs_containers (containerStore s))) (fi_Id f) (c_ID c) \<and>
        picks (dom (ss_sandboxes (sandboxStore s))) (fi_PodSandboxId f) (m_SandboxID (c_meta c)) \<and>
        (\<forall>st. fi_State f = Some st \<longrightarrow> State (statusOf c s) = st) \<and>
        (\<forall>(k, v) \<in> set (fi_LabelSelector f). kc_Labels (toCRIContainer s c) k = Some v))"

definition sandboxWanted :: "svc \<Rightarrow> sandboxFilter option \<Rightarrow> sbx \<Rightarrow> bool" where
  "sandboxWanted s filt sb \<longleftrightarrow>
     (case filt of None \<Rightarrow> True | Some f \<Rightarrow>
        picks (dom (ss_sandboxes (sandboxStore s))) (sf_Id f) (sb_ID sb) \<and>
        (\<forall>st. sf_State f = Some st \<longrightarrow> criSandboxState (sbStatusOf sb s) = st) \<and>
        (\<forall>(k, v) \<in> set (sf_LabelSelector f). kp_Labels (toCRISandbox (sb_meta sb) (sbStatusOf sb s)) k = Some v))"

lemma toCRIContainer_simps [simp]:
  "kc_Id (toCRIContainer s c) = c_ID c" "kc_PodSandboxId (toCRIContainer s c) = m_SandboxID (c_meta c)"
  "kc_State (toCRIContainer s c) = State (statusOf c s)"
  by (simp_all add: toCRIContainer_def Let_def c_ID_def)

lemma toCRISandbox_simps [simp]: "kp_Id (toCRISandbox (sb_meta sb) st) = sb_ID sb" "kp_State (toCRISandbox m st) = criSandboxState st"
  by (simp_all add: toCRISandbox_def sb_ID_def)

lemma list_containers:
  assumes "cs_inv (containerStore s)" "sbs_inv (sandboxStore s)"
  shows "ListContainers_handler order filt s = map (toCRIContainer s) (filter (containerWanted s filt) (Store_List order (containerStore s)))"
proof (cases filt)
  case (Some f)
  let ?n = "normalizeContainerFilter s f"
  let ?sb = "if fi_PodSandboxId f \<noteq> [] then (case Sandbox_Get (sandboxStore s) (fi_PodSandboxId f) of Inl _ \<Rightarrow> fi_PodSandboxId f | Inr sandbox \<Rightarrow> sb_ID sandbox)
             else fi_PodSandboxId f"
  have n: "fi_Id ?n = (case Store_Get (containerStore s) (fi_Id f) of Inl _ \<Rightarrow> fi_Id f | Inr c \<Rightarrow> c_ID c)"
      "fi_State ?n = fi_State f" "fi_LabelSelector ?n = fi_LabelSelector f"
    by (simp_all add: normalizeContainerFilter_def Let_def split: sum.splits)
  have "Sandbox_Get (sandboxStore s) [] = Inl e \<or> Sandbox_Get (sandboxStore s) [] \<noteq> Inr sb" for e sb
    using sbstore.get_Inr [OF assms(2), of "[]"] by blast
  then have sb: "?sb = (case Sandbox_Get (sandboxStore s) (fi_PodSandboxId f) of Inl _ \<Rightarrow> fi_PodSandboxId f | Inr sandbox \<Rightarrow> sb_ID sandbox)"
    using sbstore.get_Inr [OF assms(2), of "[]"] by (auto split: sum.splits)
  have "containerPasses ?n ?sb (toCRIContainer s c) \<longleftrightarrow> containerWanted s filt c" for c
    using cstore.get_picks [OF assms(1) n(1), of "c_ID c"] sbstore.get_picks [OF assms(2) sb, of "m_SandboxID (c_meta c)"]
    unfolding containerPasses_def containerWanted_def labelsMatch_iff n(2,3) Some by auto
  then show ?thesis by (simp add: ListContainers_handler_def filterCRIContainers_def Some Let_def filter_map comp_def)
qed (simp add: ListContainers_handler_def filterCRIContainers_def containerWanted_def)

lemma list_sandboxes:
  assumes "sbs_inv (sandboxStore s)"
  shows "ListPodSandbox order filt s = map (\<lambda>sb. toCRISandbox (sb_meta sb) (sbStatusOf sb s)) (filter (sandboxWanted s filt) (Sandbox_List order (sandboxStore s)))"
proof (cases filt)
  case (Some f)
  let ?n = "normalizePodSandboxFilter s f"
  have n: "sf_Id ?n = (case Sandbox_Get (sandboxStore s) (sf_Id f) of Inl _ \<Rightarrow> sf_Id f | Inr sb \<Rightarrow> sb_ID sb)"
      "sf_State ?n = sf_State f" "sf_LabelSelector ?n = sf_LabelSelector f"
    by (simp_all add: normalizePodSandboxFilter_def split: sum.splits)
  have "sandboxPasses ?n (toCRISandbox (sb_meta sb) (sbStatusOf sb s)) \<longleftrightarrow> sandboxWanted s filt sb" for sb
    using sbstore.get_picks [OF assms n(1), of "sb_ID sb"]
    unfolding sandboxPasses_def sandboxWanted_def labelsMatch_iff n(2,3) Some by auto
  then show ?thesis by (simp add: ListPodSandbox_def filterCRISandboxes_def Some filter_map comp_def)
qed (simp add: ListPodSandbox_def filterCRISandboxes_def sandboxWanted_def)

lemma values_in_ids:
  assumes "\<And>i obj. m i = Some obj \<Longrightarrow> ident obj = i"
  shows "set xs \<subseteq> dom m \<Longrightarrow> map ident (values_in m xs) = xs"
  by (induction xs) (auto simp: values_in_def List.map_filter_def assms)

lemma distinct_listed:
  assumes "enumerates m order" "\<And>i obj. m i = Some obj \<Longrightarrow> ident obj = i"
  shows "distinct (map ident (filter P (values_in m order)))"
  using distinct_map_filter [of ident "values_in m order" P] values_in_ids [of m ident order] assms by (simp add: enumerates_def)

text \<open>
  C40: the list requests answer exactly the filter. In whatever order the store is visited, every stored container
  that the filter wants is listed once, with its state, and nothing else is; a shortened id in the filter stands for the only
  id it abbreviates, for containers as for pods, and all pairs of the label selector must be present. The same holds for the list of pods.
\<close>

theorem list_requests_correct:
  assumes "cs_inv (containerStore s)" "sbs_inv (sandboxStore s)"
    and "enumerates (cs_containers (containerStore s)) order" "enumerates (ss_sandboxes (sandboxStore s)) order'"
  shows "distinct (map kc_Id (ListContainers_handler order filt s)) \<and>
    set (ListContainers_handler order filt s) = toCRIContainer s ` {c \<in> ran (cs_containers (containerStore s)). containerWanted s filt c} \<and>
    distinct (map kp_Id (ListPodSandbox order' filt' s)) \<and>
    set (ListPodSandbox order' filt' s) =
      (\<lambda>sb. toCRISandbox (sb_meta sb) (sbStatusOf sb s)) ` {sb \<in> ran (ss_sandboxes (sandboxStore s)). sandboxWanted s filt' sb}"
proof -
  have c: "Store_List order (containerStore s) = values_in (cs_containers (containerStore s)) order"
    and p: "Sandbox_List order' (sandboxStore s) = values_in (ss_sandboxes (sandboxStore s)) order'"
    by (simp_all add: Store_List_def Sandbox_List_def)
  have "distinct (map c_ID (filter (containerWanted s filt) (Store_List order (containerStore s))))"
    unfolding c by (rule distinct_listed [OF assms(3) cstore.ok_ident [OF assms(1)]])
  moreover have "distinct (map sb_ID (filter (sandboxWanted s filt') (Sandbox_List order' (sandboxStore s))))"
    unfolding p by (rule distinct_listed [OF assms(4) sbstore.ok_ident [OF assms(2)]])
  ultimately show ?thesis
    unfolding list_containers [OF assms(1,2)] list_sandboxes [OF assms(2)]
    using values_in_enumerates [OF assms(3)] values_in_enumerates [OF assms(4)]
    by (simp add: comp_def c p)
qed

text \<open>A node with one running container; the filter gives a prefix of its id and the state.\<close>

theorem list_requests_correct_witness:
  "kc_Id (hd (ListContainers_handler [''c1''] (Some \<lparr>fi_Id = ''c'', fi_State = Some RUNNING, fi_PodSandboxId = [], fi_LabelSelector = []\<rparr>)
      (example_svc (zero_status\<lparr>st_CreatedAt := 1, st_StartedAt := 2\<rparr>)))) = ''c1'' \<and>
   distinct (map kc_Id (ListContainers_handler [''c1''] None (example_svc zero_status)))"
proof
  show "kc_Id (hd (ListContainers_handler [''c1''] (Some \<lparr>fi_Id = ''c'', fi_State = Some RUNNING, fi_PodSandboxId = [], fi_LabelSelector = []\<rparr>)
      (example_svc (zero_status\<lparr>st_CreatedAt := 1, st_StartedAt := 2\<rparr>)))) = ''c1''" by code_simp
  let ?s = "example_svc zero_status"
  have "cs_inv (containerStore ?s)" "sbs_inv (sandboxStore ?s)"
    by (auto simp: example_svc_def cs_inv_def sbs_inv_def indexed_def ti_inv_def example_ctr_def example_sbx_def c_ID_def sb_ID_def
        zero_metadata_def zero_sb_metadata_def split: if_splits)
  then show "distinct (map kc_Id (ListContainers_handler [''c1''] None ?s))"
    using list_requests_correct [of ?s "[''c1'']" "[''sb1'']" None None] by (simp add: enumerates_def example_svc_def)
qed

subsection \<open>Status requests\<close>

text \<open>
  The status of a container is that of the store: its state, its exit code, and always a reason once it has exited. The
  creation time is never zero if containerd has one. The request changes nothing of the service.
\<close>

lemma calls_pure [call_intros]: "calls_only A (\<lambda>s. (f s, s))" "calls_only A (containerGet i)" "calls_only A (sandboxGet i)"
  by (simp_all add: calls_only_def containerGet_def sandboxGet_def)

lemma toCRIContainerInfo_Some:
  "toCRIContainerInfo w c verbose s = (Inr info, t) \<Longrightarrow> info = None \<longleftrightarrow> \<not> verbose"
  by (auto simp: toCRIContainerInfo_def Let_def act_simps split: if_splits)

lemma status_requests_read_only:
  "calls_only UNIV (ContainerStatus w parse r verbose)" "calls_only UNIV (PodSandboxStatus w r verbose)"
proof -
  have i: "calls_only UNIV (toCRIContainerInfo w c verbose)" for c
    unfolding toCRIContainerInfo_def Let_def by (intro call_intros) simp_all
  show "calls_only UNIV (ContainerStatus w parse r verbose)"
    unfolding ContainerStatus_def withCreatedAt_def case_prod_beta by (intro call_intros i) simp_all
  have n: "calls_only UNIV (netNSClosed w path)" for path unfolding netNSClosed_def by (intro call_intros) simp_all
  have g: "calls_only UNIV (getIPs w sb)" for sb
    unfolding getIPs_def by (cases "sb_NetNS sb") (simp_all only: option.simps, intro call_intros n, intro call_intros n)
  have p: "calls_only UNIV (sandboxProcessStatus w i)" for i
    by (auto simp: calls_only_def sandboxProcessStatus_def ext_def split: option.splits if_splits)
  have f: "calls_only UNIV (case sb_NetNS sb of None \<Rightarrow> returnA False | Some path \<Rightarrow> wrapA (netNSClosed w path) x y)" for sb x y
    by (cases "sb_NetNS sb") (simp_all only: option.simps, intro call_intros n, intro call_intros n)
  have j: "calls_only UNIV (toCRISandboxInfo w sb)" for sb
    unfolding toCRISandboxInfo_def Let_def by (intro call_intros p f) simp_all
  show "calls_only UNIV (PodSandboxStatus w r verbose)"
    unfolding PodSandboxStatus_def withPodCreatedAt_def case_prod_beta by (intro call_intros g j) simp_all
qed

lemma ContainerStatus_correct:
  assumes "ContainerStatus w parse r verbose s = (Inr (st, info), t)" "\<forall>tr i. (word_of_int (w_createdAt w tr i) :: 64 word) \<noteq> 0"
  shows "\<exists>c. Store_Get (containerStore s) r = Inr c \<and> ks_Id st = c_ID c \<and> ks_State st = State (statusOf c s) \<and>
    ks_ExitCode st = st_ExitCode (statusOf c s) \<and> (ks_State st = EXITED \<longrightarrow> ks_Reason st \<noteq> []) \<and> ks_CreatedAt st \<noteq> 0 \<and>
    (info = None \<longleftrightarrow> \<not> verbose) \<and> onlyCalls UNIV s t"
proof -
  have created: "\<exists>a. st' = st0\<lparr>ks_CreatedAt := a\<rparr> \<and> a \<noteq> 0" if "withCreatedAt w i st0 u = (Inr st', v)" for i st0 u st' v
  proof (cases "ks_CreatedAt st0 = 0")
    case True
    then show ?thesis using that assms(2) by (auto simp: withCreatedAt_def act_simps)
  next
    case False
    then have "st' = st0\<lparr>ks_CreatedAt := ks_CreatedAt st0\<rparr>" using that by (simp add: withCreatedAt_def)
    then show ?thesis using False by blast
  qed
  obtain c spec ref u v where c: "Store_Get (containerStore s) r = Inr c"
    and st: "withCreatedAt w (c_ID c) (toCRIContainerStatus c (statusOf c s) spec ref) u = (Inr st, v)"
    and "toCRIContainerInfo w c verbose v = (Inr info, t)"
    using assms(1) by (auto simp: ContainerStatus_def act_simps containerGet_def)
  then have info: "info = None \<longleftrightarrow> \<not> verbose" using toCRIContainerInfo_Some by blast
  obtain a where "st = (toCRIContainerStatus c (statusOf c s) spec ref)\<lparr>ks_CreatedAt := a\<rparr>" "a \<noteq> 0" using created [OF st] by blast
  then show ?thesis
    using c info calls_onlyD [OF status_requests_read_only(1) assms(1)]
    by (auto simp: toCRIContainerStatus_def Let_def c_ID_def completeExitReason_def errorExitReason_def split: if_splits)
qed

text \<open>
  The status of a pod: its state is that of the store, and its addresses are reported only while its network namespace is
  open, and never for a pod on the network of the host.
\<close>

lemma getIPs_open:
  assumes "getIPs w sb s = (Inr (ip, ips), t)" "ip \<noteq> []"
  shows "ip = sm_IP (sb_meta sb) \<and> ofConfig NS_POD pc_NsNetwork (sm_Config (sb_meta sb)) \<noteq> NS_NODE \<and>
    (\<exists>path tr. sb_NetNS sb = Some path \<and> \<not> w_netnsClosed w tr path)"
  using assms by (auto simp: getIPs_def netNSClosed_def act_simps split: if_splits option.splits)

lemma PodSandboxStatus_correct:
  assumes "PodSandboxStatus w r verbose s = (Inr (st, info), t)"
  shows "\<exists>sb. Sandbox_Get (sandboxStore s) r = Inr sb \<and> kp_Id st = sb_ID sb \<and> kp_State st = criSandboxState (sbStatusOf sb s) \<and>
    (kp_Ip st \<noteq> [] \<longrightarrow> kp_Ip st = sm_IP (sb_meta sb) \<and> ofConfig NS_POD pc_NsNetwork (sm_Config (sb_meta sb)) \<noteq> NS_NODE \<and>
       (\<exists>path tr. sb_NetNS sb = Some path \<and> \<not> w_netnsClosed w tr path)) \<and>
    (info = None \<longleftrightarrow> \<not> verbose) \<and> onlyCalls UNIV s t"
proof -
  have created: "\<exists>a. st' = st0\<lparr>kp_CreatedAt := a\<rparr>" if "withPodCreatedAt w i st0 u = (Inr st', v)" for i st0 u st' v
  proof (cases "kp_CreatedAt st0 = 0")
    case False
    then have "st' = st0\<lparr>kp_CreatedAt := kp_CreatedAt st0\<rparr>" using that by (simp add: withPodCreatedAt_def)
    then show ?thesis by blast
  qed (use that in \<open>auto simp: withPodCreatedAt_def act_simps\<close>)
  obtain sb ip ips u v where sb: "Sandbox_Get (sandboxStore s) r = Inr sb" and ip: "getIPs w sb s = (Inr (ip, ips), u)"
    and st: "withPodCreatedAt w (sb_ID sb) (toCRISandboxStatus (sb_meta sb) (sbStatusOf sb u) ip ips) u = (Inr st, v)"
    and info: "info = None \<longleftrightarrow> \<not> verbose"
    using assms by (auto simp: PodSandboxStatus_def act_simps sandboxGet_def split: if_splits)
  have "calls_only UNIV (netNSClosed w path)" for path unfolding netNSClosed_def by (intro call_intros) simp_all
  then have "calls_only UNIV (getIPs w sb)"
    unfolding getIPs_def by (cases "sb_NetNS sb") (simp_all only: option.simps, intro call_intros, intro call_intros)
  then have "onlyCalls UNIV s u" using ip by (rule calls_onlyD)
  then have "sbStatusOf sb u = sbStatusOf sb s" using onlyCalls_frame by (simp add: sbStatusOf_def)
  moreover obtain a where "st = (toCRISandboxStatus (sb_meta sb) (sbStatusOf sb u) ip ips)\<lparr>kp_CreatedAt := a\<rparr>" using created [OF st] by blast
  ultimately show ?thesis
    using sb info getIPs_open [OF ip] calls_onlyD [OF status_requests_read_only(2) assms]
    by (auto simp: toCRISandboxStatus_def sb_ID_def)
qed

text \<open>
  The guard against a creation time of 0 does not see the zero value of \<^verbatim>\<open>time.Time\<close>, whose nanoseconds since the epoch wrap
  around to another number: a sandbox of unknown status is reported as created in 1754.
\<close>

lemma zero_time_unnoticed: "sint (UnixNano zeroTime) = - 6795364578871345152"
  by (simp add: UnixNano_def zeroTime_def)

end
