(* ===== verification/ExecSync.thy ===== *)
theory ExecSync
  imports ContainerHandlers
begin

section \<open>Running a command in a container\<close>

text \<open>
  \<^verbatim>\<open>container_execsync.go\<close>: \<^verbatim>\<open>ExecSync\<close> and the function behind the streaming \<^verbatim>\<open>Exec\<close>. The service is only read.
  The calls to containerd and to the streams of the process are a trace of their own, the latest first, and
  \<open>execEnv\<close> answers them. \<open>xe_event\<close> is the case that the \<^verbatim>\<open>select\<close> takes: the context is done,
  with its error, or the process has exited, with its result; it is asked with the timeout that the context has, if any.
  Resizing the terminal is not modelled.
\<close>

datatype execCall =
    XSpec string | XTask string | XGenerateID | XExec string string ociProcess bool bool | XWait string | XStart string
  | XAttach string | XAttachContainer string bool bool | XKill string int | XAwaitExit string | XAwaitStreams string | XDelete string

datatype execEvent = CtxDone goerror | ProcessExit "32 word result"

record execEnv =
  xe_err :: "execCall list \<Rightarrow> execCall \<Rightarrow> goerror option"
  xe_spec :: "execCall list \<Rightarrow> string \<Rightarrow> ociSpec"
  xe_id :: "execCall list \<Rightarrow> string"
  xe_event :: "execCall list \<Rightarrow> int option \<Rightarrow> execEvent"

record execOptions =
  xo_cmd :: "string list"
  xo_stdin :: bool
  xo_tty :: bool
  xo_timeout :: int

type_synonym 'a xact = "(execCall list, 'a) act"

definition xcall :: "execEnv \<Rightarrow> execCall \<Rightarrow> unit xact" where
  "xcall env c tr = ((case xe_err env tr c of None \<Rightarrow> Inr () | Some e \<Rightarrow> Inl e), c # tr)"

text \<open>The process to run: that of the container with other arguments and terminal.\<close>

definition execProcess :: "execOptions \<Rightarrow> ociProcess \<Rightarrow> ociProcess" where
  "execProcess opts p =
     p\<lparr>pr_Terminal := xo_tty opts,
       pr_Env := (if xo_tty opts then replaceOrAppendEnvValues (pr_Env p) [''TERM=xterm''] else pr_Env p),
       pr_Args := xo_cmd opts\<rparr>"

definition execWait :: "execEnv \<Rightarrow> string \<Rightarrow> int \<Rightarrow> 32 word xact" where
  "execWait env execID timeout tr =
     (case xe_event env tr (if 0 < timeout then Some timeout else None) of
        CtxDone cerr \<Rightarrow>
          (case tolerateA (xcall env (XKill execID 9)) IsNotFound tr of
             (Inl err, tr1) \<Rightarrow> (Inl (Wrapf err ''failed to kill exec %q'' [execID]), tr1)
           | (Inr _, tr1) \<Rightarrow> (Inl (Wrapf cerr ''timeout %v exceeded'' []), XAwaitStreams execID # XAwaitExit execID # tr1))
      | ProcessExit (Inl err) \<Rightarrow> (Inl (Wrapf err ''failed while waiting for exec %q'' [execID]), XAwaitExit execID # tr)
      | ProcessExit (Inr code) \<Rightarrow> (Inr code, XAwaitStreams execID # XAwaitExit execID # tr))"

definition execStarted :: "execEnv \<Rightarrow> string \<Rightarrow> int \<Rightarrow> 32 word xact" where
  "execStarted env execID timeout =
     thenA (wrapA (xcall env (XWait execID)) ''failed to wait for process %q'' [execID])
    (thenA (wrapA (xcall env (XStart execID)) ''failed to start exec %q'' [execID])
    (thenA (modifyA ((#) (XAttach execID)))
           (execWait env execID timeout)))"

definition execInternal :: "execEnv \<Rightarrow> string \<Rightarrow> execOptions \<Rightarrow> 32 word xact" where
  "execInternal env i opts =
     thenA (wrapA (xcall env (XSpec i)) ''failed to get container spec'' [])
    (bindA (getA (\<lambda>tr. xe_spec env tr i)) (\<lambda>spec.
     thenA (wrapA (xcall env (XTask i)) ''failed to load task'' [])
    (case sp_Process spec of
       None \<Rightarrow> failA (Errorf ''invalid memory address or nil pointer dereference'' [])
     | Some p \<Rightarrow>
         thenA (modifyA ((#) XGenerateID))
        (bindA (getA (xe_id env)) (\<lambda>execID.
         thenA (wrapA (xcall env (XExec i execID (execProcess opts p) (xo_tty opts) (xo_stdin opts))) ''failed to create exec %q'' [execID])
               (alwaysA (execStarted env execID (xo_timeout opts)) (ignoreA (xcall env (XDelete execID)))))))))"

definition execInContainer :: "execEnv \<Rightarrow> svc \<Rightarrow> string \<Rightarrow> execOptions \<Rightarrow> 32 word xact" where
  "execInContainer env s i opts =
     (case Store_Get (containerStore s) i of
        Inl err \<Rightarrow> failA (Wrapf err ''failed to find container %q in store'' [i])
      | Inr cntr \<Rightarrow>
          (let state = State (statusOf cntr s) in
           if state \<noteq> RUNNING then failA (Errorf ''container is in %s state'' [criContainerStateToString state])
           else execInternal env (c_ID cntr) opts))"

text \<open>\<^verbatim>\<open>time.Duration(r.GetTimeout()) * time.Second\<close> wraps around at 64 bits. The exit code is an \<^verbatim>\<open>int32\<close>.\<close>

definition ExecSync :: "execEnv \<Rightarrow> svc \<Rightarrow> string \<Rightarrow> string list \<Rightarrow> int \<Rightarrow> int xact" where
  "ExecSync env s i cmd timeout =
     bindA (wrapA (execInContainer env s i \<lparr>xo_cmd = cmd, xo_stdin = False, xo_tty = False, xo_timeout = mul64 timeout 1000000000\<rparr>)
              ''failed to exec in container'' []) (\<lambda>code. returnA (sint code))"

text \<open>The streaming \<^verbatim>\<open>Exec\<close> has no timeout and turns an exit code other than 0 into an error.\<close>

definition StreamExec :: "execEnv \<Rightarrow> svc \<Rightarrow> string \<Rightarrow> string list \<Rightarrow> bool \<Rightarrow> bool \<Rightarrow> unit xact" where
  "StreamExec env s i cmd stdin tty =
     bindA (wrapA (execInContainer env s i \<lparr>xo_cmd = cmd, xo_stdin = stdin, xo_tty = tty, xo_timeout = 0\<rparr>)
              ''failed to exec in container'' []) (\<lambda>code.
     if code = 0 then returnA () else failA (Errorf ''error executing command %v, exit code %d'' (cmd @ [Itoa (unat code)])))"

subsection \<open>The trace of an exec\<close>

text \<open>The calls before the process exists, and those that follow it.\<close>

definition setupCalls :: "string \<Rightarrow> execCall list set" where
  "setupCalls i = {[], [XSpec i], [XTask i, XSpec i], [XGenerateID, XTask i, XSpec i]}"

definition followCalls :: "execEnv \<Rightarrow> string \<Rightarrow> int \<Rightarrow> execCall list \<Rightarrow> 32 word result \<Rightarrow> execCall list \<Rightarrow> bool" where
  "followCalls env e timeout tr res cs \<longleftrightarrow>
     (let started = XAttach e # XStart e # XWait e # tr; ev = xe_event env started (if 0 < timeout then Some timeout else None) in
      (\<exists>err. res = Inl err \<and> cs \<in> {[XWait e], [XStart e, XWait e]}) \<or>
      (\<exists>cerr err. res = Inl err \<and> ev = CtxDone cerr \<and>
         (cs = [XAwaitStreams e, XAwaitExit e, XKill e 9, XAttach e, XStart e, XWait e] \<or>
          cs = [XKill e 9, XAttach e, XStart e, XWait e] \<and> (\<exists>x. xe_err env started (XKill e 9) = Some x \<and> \<not> IsNotFound x))) \<or>
      (\<exists>err err'. res = Inl err \<and> ev = ProcessExit (Inl err') \<and> cs = [XAwaitExit e, XAttach e, XStart e, XWait e]) \<or>
      (\<exists>code. res = Inr code \<and> ev = ProcessExit (Inr code) \<and> cs = [XAwaitStreams e, XAwaitExit e, XAttach e, XStart e, XWait e]))"

lemma execStarted_follow:
  assumes "execStarted env e timeout tr = (res, tr')"
  shows "\<exists>cs. tr' = cs @ tr \<and> followCalls env e timeout tr res cs"
proof -
  consider (wait) x where "xe_err env tr (XWait e) = Some x"
    | (start) x where "xe_err env tr (XWait e) = None" "xe_err env (XWait e # tr) (XStart e) = Some x"
    | (started) "xe_err env tr (XWait e) = None" "xe_err env (XWait e # tr) (XStart e) = None" by fastforce
  then show ?thesis
  proof cases
    case started
    let ?tr = "XAttach e # XStart e # XWait e # tr"
    have "execWait env e timeout ?tr = (res, tr')"
      using assms started by (simp add: execStarted_def thenA_def bindA_def wrapA_def xcall_def)
    then show ?thesis
      by (auto simp: execWait_def followCalls_def Let_def tolerateA_def xcall_def split: execEvent.splits sum.splits option.splits if_splits)
  qed (use assms in \<open>auto simp: execStarted_def thenA_def bindA_def wrapA_def xcall_def followCalls_def\<close>)
qed

lemma execInternal_follow:
  assumes "execInternal env i opts [] = (res, tr)"
  obtains (failed) err where "res = Inl err" "tr \<in> setupCalls i"
    | (refused) err p e x where "res = Inl err" "tr = x # [XGenerateID, XTask i, XSpec i]" "sp_Process (xe_spec env [XSpec i] i) = Some p"
        "x = XExec i e (execProcess opts p) (xo_tty opts) (xo_stdin opts)" "xe_err env [XGenerateID, XTask i, XSpec i] x \<noteq> None"
    | (ran) p e x cs where "e = xe_id env [XGenerateID, XTask i, XSpec i]" "sp_Process (xe_spec env [XSpec i] i) = Some p"
        "x = XExec i e (execProcess opts p) (xo_tty opts) (xo_stdin opts)" "xe_err env [XGenerateID, XTask i, XSpec i] x = None"
        "tr = XDelete e # cs @ x # [XGenerateID, XTask i, XSpec i]"
        "followCalls env e (xo_timeout opts) (x # [XGenerateID, XTask i, XSpec i]) res cs"
proof -
  let ?pre = "[XGenerateID, XTask i, XSpec i]" and ?e = "xe_id env [XGenerateID, XTask i, XSpec i]"
  consider (early) "xe_err env [] (XSpec i) \<noteq> None \<or> xe_err env [XSpec i] (XTask i) \<noteq> None \<or> sp_Process (xe_spec env [XSpec i] i) = None"
    | (late) p where "xe_err env [] (XSpec i) = None" "xe_err env [XSpec i] (XTask i) = None" "sp_Process (xe_spec env [XSpec i] i) = Some p"
    by fastforce
  then show thesis
  proof cases
    case early
    then show ?thesis using assms failed
      by (auto simp: execInternal_def thenA_def bindA_def wrapA_def xcall_def getA_def failA_def setupCalls_def split: option.splits)
  next
    case late
    let ?x = "XExec i ?e (execProcess opts p) (xo_tty opts) (xo_stdin opts)"
    show ?thesis
    proof (cases "xe_err env ?pre ?x")
      case (Some err)
      then show ?thesis using assms late refused
        by (auto simp: execInternal_def thenA_def bindA_def wrapA_def xcall_def getA_def modifyA_def)
    next
      case None
      obtain r tr1 where r: "execStarted env ?e (xo_timeout opts) (?x # ?pre) = (r, tr1)" by fastforce
      obtain cs where "tr1 = cs @ ?x # ?pre" "followCalls env ?e (xo_timeout opts) (?x # ?pre) r cs"
        using execStarted_follow [OF r] by blast
      moreover have "res = r" "tr = XDelete ?e # tr1"
        using assms late None r
        by (auto simp: execInternal_def thenA_def bindA_def wrapA_def xcall_def getA_def modifyA_def alwaysA_def ignoreA_def split: option.splits)
      ultimately show ?thesis using late None ran by blast
    qed
  qed
qed

lemma followCalls_noExec: "followCalls env e timeout tr res cs \<Longrightarrow> XExec c e' p tty stdin \<notin> set cs"
  by (auto simp: followCalls_def Let_def)

lemma followCalls_exit:
  assumes "followCalls env e timeout tr (Inr code) cs"
  shows "\<exists>before. cs @ tr = [XAwaitStreams e, XAwaitExit e] @ before \<and>
           xe_event env before (if 0 < timeout then Some timeout else None) = ProcessExit (Inr code)"
  using assms by (auto simp: followCalls_def Let_def)

lemma followCalls_kill:
  assumes "followCalls env e timeout tr res cs" "XKill e' sig \<in> set cs"
  shows "e' = e \<and> sig = 9 \<and> (\<exists>err. res = Inl err) \<and>
     (\<exists>before cerr. xe_event env before (if 0 < timeout then Some timeout else None) = CtxDone cerr \<and>
        (cs @ tr = [XAwaitStreams e, XAwaitExit e, XKill e sig] @ before \<or>
         cs @ tr = XKill e sig # before \<and> (\<exists>x. xe_err env before (XKill e sig) = Some x \<and> \<not> IsNotFound x)))"
  using assms by (auto simp: followCalls_def Let_def)

lemma ExecSync_cases:
  assumes "ExecSync env s i cmd timeout [] = (res, tr)"
  obtains (notRunning) err where "res = Inl err" "tr = []"
    | (entered) cntr r where "Store_Get (containerStore s) i = Inr cntr" "State (statusOf cntr s) = RUNNING"
        "execInternal env (c_ID cntr) \<lparr>xo_cmd = cmd, xo_stdin = False, xo_tty = False, xo_timeout = mul64 timeout 1000000000\<rparr> [] = (r, tr)"
        "\<And>n. res = Inr n \<longleftrightarrow> (\<exists>code. r = Inr code \<and> n = sint code)"
proof (cases "Store_Get (containerStore s) i")
  case (Inl err)
  with assms notRunning show thesis
    by (auto simp: ExecSync_def execInContainer_def bindA_def wrapA_def failA_def)
next
  case (Inr cntr)
  let ?opts = "\<lparr>xo_cmd = cmd, xo_stdin = False, xo_tty = False, xo_timeout = mul64 timeout 1000000000\<rparr>"
  obtain r tr' where r: "execInternal env (c_ID cntr) ?opts [] = (r, tr')" by fastforce
  show thesis
  proof (cases "State (statusOf cntr s) = RUNNING")
    case True
    have "tr' = tr" "\<And>n. res = Inr n \<longleftrightarrow> (\<exists>code. r = Inr code \<and> n = sint code)"
      using assms Inr True r
      by (auto simp: ExecSync_def execInContainer_def bindA_def wrapA_def returnA_def split: sum.splits)
    with Inr True r entered show thesis by blast
  next
    case False
    with assms Inr notRunning show thesis
      by (auto simp: ExecSync_def execInContainer_def bindA_def wrapA_def failA_def Let_def)
  qed
qed

subsection \<open>The property\<close>

definition execDeadline :: "int \<Rightarrow> int option" where
  "execDeadline timeout = (let d = mul64 timeout 1000000000 in if 0 < d then Some d else None)"

lemma execDeadline_fold: "(if 0 < mul64 timeout 1000000000 then Some (mul64 timeout 1000000000) else None) = execDeadline timeout"
  by (simp add: execDeadline_def Let_def)

text \<open>
  C6: \<^verbatim>\<open>ExecSync\<close>, from the store to the deferred clean-up. A process is only ever asked for in the container that
  the request names, that container is running by its status, and the process is that of its spec with the arguments of the request and no
  terminal; once containerd has made it, its deletion is the last call, whatever happens in between. An exit code is returned only when
  the process has exited with it before the context was done, and both its exit and the end of its streams are awaited first. It
  is killed only after the context is done, with signal 9, no exit code is returned then, and the exit and the streams are still awaited unless
  the kill fails with another error than not-found.
\<close>

theorem ExecSync_correct:
  assumes "ExecSync env s i cmd timeout [] = (res, tr)"
  shows "(\<forall>c e p tty stdin. XExec c e p tty stdin \<in> set tr \<longrightarrow>
            (\<exists>cntr q. Store_Get (containerStore s) i = Inr cntr \<and> c = c_ID cntr \<and> State (statusOf cntr s) = RUNNING \<and>
               sp_Process (xe_spec env [XSpec c] c) = Some q \<and> p = q\<lparr>pr_Terminal := False, pr_Args := cmd\<rparr> \<and> \<not> tty \<and> \<not> stdin)) \<and>
         (\<forall>c e p tty stdin later earlier. tr = later @ XExec c e p tty stdin # earlier \<longrightarrow>
            xe_err env earlier (XExec c e p tty stdin) = None \<longrightarrow> (\<exists>rest. later = XDelete e # rest)) \<and>
         (\<forall>n. res = Inr n \<longrightarrow>
            (\<exists>e code before. tr = [XDelete e, XAwaitStreams e, XAwaitExit e] @ before \<and> n = sint code \<and>
               xe_event env before (execDeadline timeout) = ProcessExit (Inr code))) \<and>
         (\<forall>e sig. XKill e sig \<in> set tr \<longrightarrow>
            sig = 9 \<and> (\<exists>err. res = Inl err) \<and>
            (\<exists>before cerr. xe_event env before (execDeadline timeout) = CtxDone cerr \<and>
               (tr = [XDelete e, XAwaitStreams e, XAwaitExit e, XKill e sig] @ before \<or>
                tr = [XDelete e, XKill e sig] @ before \<and> (\<exists>x. xe_err env before (XKill e sig) = Some x \<and> \<not> IsNotFound x))))"
  using assms
proof (cases rule: ExecSync_cases)
  case notRunning
  then show ?thesis by simp
next
  case (entered cntr r)
  let ?i = "c_ID cntr"
  note res = entered(4)
  from entered(3) show ?thesis
  proof (cases rule: execInternal_follow)
    case (failed err)
    then show ?thesis using res by (auto simp: setupCalls_def Cons_eq_append_conv)
  next
    case (refused err p e x)
    then show ?thesis using entered(1,2) res by (auto simp: execProcess_def Cons_eq_append_conv)
  next
    case (ran p e x cs)
    have exec: "XExec c e' q tty stdin = x" if "XExec c e' q tty stdin \<in> set tr" for c e' q tty stdin
      using that ran(5) followCalls_noExec [OF ran(6)] by auto
    have later: "\<exists>rest. later = XDelete e' # rest" if "tr = later @ XExec c e' q tty stdin # earlier" for later earlier c e' q tty stdin
      using that exec [of c e' q tty stdin] ran(3,5) by (cases later) auto
    have request: "execProcess \<lparr>xo_cmd = cmd, xo_stdin = False, xo_tty = False, xo_timeout = mul64 timeout 1000000000\<rparr> p
        = p\<lparr>pr_Terminal := False, pr_Args := cmd\<rparr>" by (simp add: execProcess_def)
    have exit: "\<exists>e code before. tr = [XDelete e, XAwaitStreams e, XAwaitExit e] @ before \<and> n = sint code \<and>
               xe_event env before (execDeadline timeout) = ProcessExit (Inr code)" if ok: "res = Inr n" for n
    proof -
      obtain code where "r = Inr code" "n = sint code" using iffD1 [OF res ok] by blast
      moreover obtain before where "cs @ x # [XGenerateID, XTask ?i, XSpec ?i] = [XAwaitStreams e, XAwaitExit e] @ before"
          "xe_event env before (execDeadline timeout) = ProcessExit (Inr code)"
        using followCalls_exit [OF ran(6) [unfolded calculation(1)], unfolded execOptions.select_convs execDeadline_fold] by blast
      ultimately show ?thesis using ran(5) by (metis append_Cons append_Nil)
    qed
    have kill: "sig = 9 \<and> (\<exists>err. res = Inl err) \<and>
            (\<exists>before cerr. xe_event env before (execDeadline timeout) = CtxDone cerr \<and>
               (tr = [XDelete e', XAwaitStreams e', XAwaitExit e', XKill e' sig] @ before \<or>
                tr = [XDelete e', XKill e' sig] @ before \<and> (\<exists>x. xe_err env before (XKill e' sig) = Some x \<and> \<not> IsNotFound x)))"
      if "XKill e' sig \<in> set tr" for e' sig
    proof -
      have "XKill e' sig \<in> set cs" using that ran(3,5) by auto
      note k = followCalls_kill [OF ran(6) this, unfolded execOptions.select_convs execDeadline_fold]
      then have "\<exists>err. res = Inl err" using res by (cases res) auto
      with k ran(5) show ?thesis by auto
    qed
    have asked: "\<exists>cntr q. Store_Get (containerStore s) i = Inr cntr \<and> c = c_ID cntr \<and> State (statusOf cntr s) = RUNNING \<and>
               sp_Process (xe_spec env [XSpec c] c) = Some q \<and> q' = q\<lparr>pr_Terminal := False, pr_Args := cmd\<rparr> \<and> \<not> tty \<and> \<not> stdin"
      if "XExec c e' q' tty stdin \<in> set tr" for c e' q' tty stdin
      using exec [OF that] entered(1,2) ran(2,3) request by simp
    from asked later exit kill show ?thesis by blast
  qed
qed

subsection \<open>A run\<close>

definition exec_env :: "execEvent \<Rightarrow> execEnv" where
  "exec_env ev = \<lparr>xe_err = \<lambda>_ _. None, xe_spec = \<lambda>_. defaultSpec, xe_id = \<lambda>_. ''e1'', xe_event = \<lambda>_ _. ev\<rparr>"

text \<open>A command that exits with code 3: the code is returned without an error. The other run is killed after its five seconds.\<close>

theorem ExecSync_correct_witness:
  "(\<exists>before. ExecSync (exec_env (ProcessExit (Inr 3))) (example_svc (zero_status\<lparr>st_CreatedAt := 1, st_StartedAt := 2\<rparr>)) ''c'' [''ls''] 5 []
      = (Inr 3, [XDelete ''e1'', XAwaitStreams ''e1'', XAwaitExit ''e1''] @ before)) \<and>
   (\<exists>err. fst (ExecSync (exec_env (CtxDone ErrDeadlineExceeded)) (example_svc (zero_status\<lparr>st_CreatedAt := 1, st_StartedAt := 2\<rparr>)) ''c'' [''ls''] 5 []) = Inl err)"
proof -
  let ?run = "\<lambda>ev. ExecSync (exec_env ev) (example_svc (zero_status\<lparr>st_CreatedAt := 1, st_StartedAt := 2\<rparr>)) ''c'' [''ls''] 5 []"
  have ok: "fst (?run (ProcessExit (Inr 3))) = Inr 3" by code_simp
  have kill: "XKill ''e1'' 9 \<in> set (snd (?run (CtxDone ErrDeadlineExceeded)))" by code_simp
  have e: "hd (snd (?run (ProcessExit (Inr 3)))) = XDelete ''e1''" by code_simp
  note correct = ExecSync_correct [OF prod.collapse [symmetric]]
  obtain e before where "snd (?run (ProcessExit (Inr 3))) = [XDelete e, XAwaitStreams e, XAwaitExit e] @ before"
    using correct [THEN conjunct2, THEN conjunct2, THEN conjunct1, rule_format, OF ok] by blast
  with e ok have "?run (ProcessExit (Inr 3)) = (Inr 3, [XDelete ''e1'', XAwaitStreams ''e1'', XAwaitExit ''e1''] @ before)"
    by (simp add: prod_eq_iff)
  moreover have "\<exists>err. fst (?run (CtxDone ErrDeadlineExceeded)) = Inl err"
    using correct [THEN conjunct2, THEN conjunct2, THEN conjunct2, rule_format, OF kill] by blast
  ultimately show ?thesis by blast
qed

end
