(* ===== verification/Registry.thy ===== *)
theory Registry
  imports ImageHandlers
begin

section \<open>Registries\<close>

text \<open>
  The part of \<^verbatim>\<open>image_pull.go\<close> that decides which registries an image is pulled from, with which credentials and which TLS
  settings, and the annotations that the layers of an image carry to the snapshotter. The registry section of the configuration is
  explicit state, because \<^verbatim>\<open>registryEndpoints\<close> writes the endpoints with their scheme back into the slice of the
  configuration. \<open>urlParse\<close> is \<^verbatim>\<open>url.Parse\<close>; reading keys and certificates is the environment's
  \<open>tlsFiles\<close>. The HTTP transport and the decryption options are not modelled.
\<close>

subsection \<open>Configuration\<close>

record registryAuth =
  ra_Username :: string
  ra_Password :: string
  ra_Auth :: string
  ra_IdentityToken :: string

record tlsConfig =
  tls_InsecureSkipVerify :: bool
  tls_CAFile :: string
  tls_CertFile :: string
  tls_KeyFile :: string

record registryConfig =
  rc_Auth :: "registryAuth option"
  rc_TLS :: "tlsConfig option"

record registry =
  rg_Mirrors :: "string \<rightharpoonup> string list"
  rg_Configs :: "string \<rightharpoonup> registryConfig"
  rg_Auths :: "string \<rightharpoonup> registryAuth"

record url =
  u_Scheme :: string
  u_Host :: string
  u_Path :: string

text \<open>The zero value that a lookup of a missing key gives.\<close>

definition zeroRegistryConfig :: registryConfig where
  "zeroRegistryConfig = \<lparr>rc_Auth = None, rc_TLS = None\<rparr>"

subsection \<open>Endpoints\<close>

text \<open>The host of \<^verbatim>\<open>net.SplitHostPort\<close>.\<close>

definition addrErr :: "string \<Rightarrow> string \<Rightarrow> goerror" where
  "addrErr hostport why = Errorf ''address %s: %s'' [hostport, why]"

definition SplitHostPort :: "string \<Rightarrow> string result" where
  "SplitHostPort hostport =
     (let colons = filter (\<lambda>k. hostport ! k = CHR '':'') [0..<length hostport];
          closes = filter (\<lambda>k. hostport ! k = CHR 0x5D) [0..<length hostport];
          opens = filter (\<lambda>k. hostport ! k = CHR 0x5B) [0..<length hostport] in
      if colons = [] then Inl (addrErr hostport ''missing port in address'')
      else let i = last colons in
        if hostport ! 0 = CHR 0x5B then
          (case closes of
             [] \<Rightarrow> Inl (addrErr hostport ''missing bracket in address'')
           | e # more_closes \<Rightarrow>
               if e + 1 = length hostport then Inl (addrErr hostport ''missing port in address'')
               else if e + 1 \<noteq> i then
                 Inl (addrErr hostport (if hostport ! (e + 1) = CHR '':'' then ''too many colons in address'' else ''missing port in address''))
               else if \<exists>k \<in> set opens. 1 \<le> k then Inl (addrErr hostport ''unexpected bracket in address'')
               else if more_closes \<noteq> [] then Inl (addrErr hostport ''unexpected bracket in address'')
               else Inr (take (e - 1) (drop 1 hostport)))
        else if length colons \<noteq> 1 then Inl (addrErr hostport ''too many colons in address'')
        else if opens \<noteq> [] \<or> closes \<noteq> [] then Inl (addrErr hostport ''unexpected bracket in address'')
        else Inr (take i hostport))"

definition urlHost :: "(string \<Rightarrow> url result) \<Rightarrow> string \<Rightarrow> string result" where
  "urlHost urlParse s = (case urlParse s of Inl e \<Rightarrow> Inl e | Inr u \<Rightarrow> Inr (u_Host u))"

definition DefaultHost :: "string \<Rightarrow> string" where
  "DefaultHost ns = (if ns = ''docker.io'' then ''registry-1.docker.io'' else ns)"

text \<open>The loop that writes the endpoints with their scheme back, up to the first that does not parse.\<close>

fun addSchemes :: "(string \<Rightarrow> url result) \<Rightarrow> string list \<Rightarrow> unit result \<times> string list" where
  "addSchemes urlParse [] = (Inr (), [])"
| "addSchemes urlParse (e # es) =
     (case addDefaultScheme SplitHostPort (urlHost urlParse) e of
        Inl err \<Rightarrow> (Inl (Wrapf err ''parse endpoint url'' []), e # es)
      | Inr en \<Rightarrow> (let (r, ens) = addSchemes urlParse es in (r, en # ens)))"

fun hasHost :: "(string \<Rightarrow> url result) \<Rightarrow> string \<Rightarrow> string list \<Rightarrow> bool result" where
  "hasHost urlParse host [] = Inr False"
| "hasHost urlParse host (e # es) =
     (case urlParse e of
        Inl err \<Rightarrow> Inl (Wrapf err ''parse endpoint url'' [])
      | Inr u \<Rightarrow> if u_Host u = host then Inr True else hasHost urlParse host es)"

definition mirrorKey :: "registry \<Rightarrow> string \<Rightarrow> string" where
  "mirrorKey rg host = (if host \<in> dom (rg_Mirrors rg) then host else ''*'')"

definition mirrorEndpoints :: "registry \<Rightarrow> string \<Rightarrow> string list" where
  "mirrorEndpoints rg host = (case rg_Mirrors rg (mirrorKey rg host) of None \<Rightarrow> [] | Some es \<Rightarrow> es)"

definition registryEndpoints :: "(string \<Rightarrow> url result) \<Rightarrow> string \<Rightarrow> (registry, string list) act" where
  "registryEndpoints urlParse host rg =
     (let defaultHost = DefaultHost host;
          (r, endpoints) = addSchemes urlParse (mirrorEndpoints rg host);
          rg' = (if mirrorKey rg host \<in> dom (rg_Mirrors rg)
                 then rg\<lparr>rg_Mirrors := (rg_Mirrors rg)(mirrorKey rg host \<mapsto> endpoints)\<rparr> else rg)
      in (case r of
            Inl e \<Rightarrow> Inl e
          | Inr _ \<Rightarrow>
              (case hasHost urlParse host endpoints of
                 Inl e \<Rightarrow> Inl e
               | Inr found \<Rightarrow> Inr (if found then endpoints else endpoints @ [defaultScheme SplitHostPort defaultHost @ ''://'' @ defaultHost])),
          rg'))"

subsection \<open>Hosts\<close>

text \<open>Keys and certificates are opaque texts.\<close>

record tlsFiles =
  tf_LoadX509KeyPair :: "string \<Rightarrow> string \<Rightarrow> string list result"
  tf_SystemCertPool :: "string list result"
  tf_ReadFile :: "string \<Rightarrow> string result"
  tf_CertsFromPEM :: "string \<Rightarrow> string list"

record tlsClientConfig =
  tc_Certificates :: "string list"
  tc_RootCAs :: "string list option"
  tc_InsecureSkipVerify :: bool

definition getTLSCerts :: "tlsFiles \<Rightarrow> tlsConfig \<Rightarrow> string list result" where
  "getTLSCerts tf c =
     (if tls_CertFile c \<noteq> [] \<and> tls_KeyFile c = [] then
        Inl (Errorf ''cert file %q was specified, but no corresponding key file was specified'' [tls_CertFile c])
      else if tls_CertFile c = [] \<and> tls_KeyFile c \<noteq> [] then
        Inl (Errorf ''key file %q was specified, but no corresponding cert file was specified'' [tls_KeyFile c])
      else if tls_CertFile c \<noteq> [] \<and> tls_KeyFile c \<noteq> [] then
        (case tf_LoadX509KeyPair tf (tls_CertFile c) (tls_KeyFile c) of
           Inl e \<Rightarrow> Inl (Wrapf e ''failed to load cert file'' []) | Inr cert \<Rightarrow> Inr cert)
      else Inr [])"

definition getRootCAs :: "tlsFiles \<Rightarrow> tlsConfig \<Rightarrow> string list option result" where
  "getRootCAs tf c =
     (if tls_CAFile c = [] then Inr None
      else case tf_SystemCertPool tf of
        Inl e \<Rightarrow> Inl (Wrapf e ''failed to get system cert pool'' [])
      | Inr pool \<Rightarrow>
          (case tf_ReadFile tf (tls_CAFile c) of
             Inl e \<Rightarrow> Inl (Wrapf e ''failed to load CA file'' [])
           | Inr caCert \<Rightarrow> Inr (Some (pool @ tf_CertsFromPEM tf caCert))))"

definition getTLSConfig :: "tlsFiles \<Rightarrow> tlsConfig \<Rightarrow> tlsClientConfig result" where
  "getTLSConfig tf c =
     (case getTLSCerts tf c of
        Inl e \<Rightarrow> Inl e
      | Inr certs \<Rightarrow>
          (case getRootCAs tf c of
             Inl e \<Rightarrow> Inl e
           | Inr cas \<Rightarrow> Inr \<lparr>tc_Certificates = certs, tc_RootCAs = cas, tc_InsecureSkipVerify = tls_InsecureSkipVerify c\<rparr>))"

definition toRuntimeAuthConfig :: "registryAuth \<Rightarrow> authConfig" where
  "toRuntimeAuthConfig a =
     \<lparr>au_Username = ra_Username a, au_Password = ra_Password a, au_Auth = ra_Auth a, au_ServerAddress = [],
      au_IdentityToken = ra_IdentityToken a\<rparr>"

text \<open>A host of the resolver; its authorizer asks \<^verbatim>\<open>ParseAuth\<close> with the authentication of the host.\<close>

record registryHost =
  rh_TLS :: "tlsClientConfig option"
  rh_Auth :: "authConfig option"
  rh_Host :: string
  rh_Scheme :: string
  rh_Path :: string

definition endpointHost :: "tlsFiles \<Rightarrow> (string \<Rightarrow> url result) \<Rightarrow> registry \<Rightarrow> authConfig option \<Rightarrow> string \<Rightarrow> registryHost result" where
  "endpointHost tf urlParse rg auth e =
     (case urlParse e of
        Inl err \<Rightarrow> Inl (Wrapf err ''parse registry endpoint %q from mirrors'' [e])
      | Inr u \<Rightarrow>
          (let config = (case rg_Configs rg (u_Host u) of None \<Rightarrow> zeroRegistryConfig | Some c \<Rightarrow> c);
               auth' = (case auth of Some a \<Rightarrow> Some a | None \<Rightarrow> map_option toRuntimeAuthConfig (rc_Auth config));
               path = (if u_Path u = [] then ''/v2'' else u_Path u) in
           case rc_TLS config of
             None \<Rightarrow> Inr \<lparr>rh_TLS = None, rh_Auth = auth', rh_Host = u_Host u, rh_Scheme = u_Scheme u, rh_Path = path\<rparr>
           | Some c \<Rightarrow>
               (case getTLSConfig tf c of
                  Inl err \<Rightarrow> Inl (Wrapf err ''get TLSConfig for registry %q'' [e])
                | Inr t \<Rightarrow> Inr \<lparr>rh_TLS = Some t, rh_Auth = auth', rh_Host = u_Host u, rh_Scheme = u_Scheme u, rh_Path = path\<rparr>)))"

fun endpointHosts :: "tlsFiles \<Rightarrow> (string \<Rightarrow> url result) \<Rightarrow> registry \<Rightarrow> authConfig option \<Rightarrow> string list \<Rightarrow> registryHost list result" where
  "endpointHosts tf urlParse rg auth [] = Inr []"
| "endpointHosts tf urlParse rg auth (e # es) =
     (case endpointHost tf urlParse rg auth e of
        Inl err \<Rightarrow> Inl err
      | Inr h \<Rightarrow> (case endpointHosts tf urlParse rg auth es of Inl err \<Rightarrow> Inl err | Inr hs \<Rightarrow> Inr (h # hs)))"

definition registryHosts :: "tlsFiles \<Rightarrow> (string \<Rightarrow> url result) \<Rightarrow> authConfig option \<Rightarrow> string \<Rightarrow> (registry, registryHost list) act" where
  "registryHosts tf urlParse auth host =
     bindA (wrapA (registryEndpoints urlParse host) ''get registry endpoints'' []) (\<lambda>endpoints rg.
       (endpointHosts tf urlParse rg auth endpoints, rg))"

text \<open>What the authorizer of a host answers when it is asked for the credentials of \<open>host\<close>.\<close>

definition hostCreds :: "(string \<Rightarrow> url result) \<Rightarrow> (string \<Rightarrow> string result) \<Rightarrow> registryHost \<Rightarrow> string \<Rightarrow> (string \<times> string) result" where
  "hostCreds urlParse decode64 rh = ParseAuth (urlHost urlParse) decode64 (rh_Auth rh)"

subsection \<open>Writing the scheme back is harmless\<close>

lemma addDefaultScheme_idem:
  assumes "addDefaultScheme split parse e = Inr en"
  shows "addDefaultScheme split parse en = Inr en"
proof -
  have "sublist ''://'' en"
  proof (cases "sublist ''://'' e")
    case True
    then show ?thesis using assms by (simp add: addDefaultScheme_def)
  next
    case False
    then obtain h where "en = defaultScheme split h @ ''://'' @ e"
      using assms by (auto simp: addDefaultScheme_def split: sum.splits)
    then show ?thesis unfolding sublist_def by blast
  qed
  then show ?thesis by (simp add: addDefaultScheme_def)
qed

lemma addSchemes_idem: "addSchemes urlParse es = (r, ens) \<Longrightarrow> addSchemes urlParse ens = (r, ens)"
proof (induction es arbitrary: r ens)
  case (Cons e es)
  obtain r' ens' where i: "addSchemes urlParse es = (r', ens')" by fastforce
  show ?case
  proof (cases "addDefaultScheme SplitHostPort (urlHost urlParse) e")
    case (Inr en)
    with Cons.prems i have "r = r'" "ens = en # ens'" by auto
    with Cons.IH [OF i] addDefaultScheme_idem [OF Inr] show ?thesis by simp
  qed (use Cons.prems in auto)
qed simp

lemma addSchemes_Inr:
  "addSchemes urlParse es = (Inr u, ens) \<Longrightarrow> list_all2 (\<lambda>e en. addDefaultScheme SplitHostPort (urlHost urlParse) e = Inr en) es ens"
  by (induction es arbitrary: ens) (auto split: sum.splits prod.splits)

lemma hasHost_Inr:
  "hasHost urlParse host es = Inr found \<Longrightarrow> found \<longleftrightarrow> (\<exists>e \<in> set es. \<exists>u. urlParse e = Inr u \<and> u_Host u = host)"
  by (induction es) (auto split: sum.splits if_splits)

text \<open>A request for the endpoints of one host changes the answer for no host.\<close>

lemma registryEndpoints_stable:
  "fst (registryEndpoints urlParse h' (snd (registryEndpoints urlParse h rg))) = fst (registryEndpoints urlParse h' rg)"
proof -
  obtain r ens where a: "addSchemes urlParse (mirrorEndpoints rg h) = (r, ens)" by fastforce
  show ?thesis
  proof (cases "mirrorKey rg h \<in> dom (rg_Mirrors rg)")
    case True
    let ?rg = "rg\<lparr>rg_Mirrors := (rg_Mirrors rg)(mirrorKey rg h \<mapsto> ens)\<rparr>"
    have k: "mirrorKey ?rg h' = mirrorKey rg h'" using True by (auto simp: mirrorKey_def dom_def)
    have "addSchemes urlParse (mirrorEndpoints ?rg h') = addSchemes urlParse (mirrorEndpoints rg h')"
    proof (cases "mirrorKey rg h' = mirrorKey rg h")
      case same: True
      then have "mirrorEndpoints rg h' = mirrorEndpoints rg h" by (simp add: mirrorEndpoints_def)
      moreover have "mirrorEndpoints ?rg h' = ens" using k same by (simp add: mirrorEndpoints_def)
      ultimately show ?thesis using a addSchemes_idem [OF a] by simp
    next
      case False
      then show ?thesis using k by (simp add: mirrorEndpoints_def)
    qed
    then show ?thesis using True a by (simp add: registryEndpoints_def Let_def case_prod_beta)
  qed (simp add: registryEndpoints_def Let_def case_prod_beta)
qed

lemma registryEndpoints_Inr:
  assumes "registryEndpoints urlParse host rg = (Inr es, rg')"
  obtains ens where "list_all2 (\<lambda>e en. addDefaultScheme SplitHostPort (urlHost urlParse) e = Inr en) (mirrorEndpoints rg host) ens"
    "es = (if \<exists>e \<in> set ens. \<exists>u. urlParse e = Inr u \<and> u_Host u = host then ens
           else ens @ [defaultScheme SplitHostPort (DefaultHost host) @ ''://'' @ DefaultHost host])"
    "rg_Configs rg' = rg_Configs rg"
proof -
  obtain r ens where a: "addSchemes urlParse (mirrorEndpoints rg host) = (r, ens)" by fastforce
  with assms obtain u found where r: "r = Inr u" and f: "hasHost urlParse host ens = Inr found"
      and es: "es = (if found then ens else ens @ [defaultScheme SplitHostPort (DefaultHost host) @ ''://'' @ DefaultHost host])"
    by (auto simp: registryEndpoints_def Let_def split: sum.splits)
  have "rg_Configs rg' = rg_Configs rg" using assms a by (auto simp: registryEndpoints_def Let_def split: if_splits)
  with that addSchemes_Inr a r es hasHost_Inr [OF f] show thesis by blast
qed

subsection \<open>Credentials and trust\<close>

lemma endpointHosts_Inr:
  "endpointHosts tf urlParse rg auth es = Inr hs \<Longrightarrow> list_all2 (\<lambda>e h. endpointHost tf urlParse rg auth e = Inr h) es hs"
  by (induction es arbitrary: hs) (auto split: sum.splits)

lemma getTLSConfig_Inr:
  "getTLSConfig tf c = Inr t \<Longrightarrow> tc_InsecureSkipVerify t = tls_InsecureSkipVerify c"
  by (auto simp: getTLSConfig_def split: sum.splits)

lemma endpointHost_Inr:
  assumes "endpointHost tf urlParse rg auth e = Inr rh"
  shows "\<exists>u. urlParse e = Inr u \<and> rh_Host rh = u_Host u \<and> rh_Scheme rh = u_Scheme u \<and>
           rh_Path rh = (if u_Path u = [] then ''/v2'' else u_Path u)"
    and "rh_Auth rh = (case auth of Some a \<Rightarrow> Some a
           | None \<Rightarrow> map_option toRuntimeAuthConfig (Option.bind (rg_Configs rg (rh_Host rh)) rc_Auth))"
    and "rh_TLS rh = Some t \<Longrightarrow> \<exists>c tls. rg_Configs rg (rh_Host rh) = Some c \<and> rc_TLS c = Some tls \<and> getTLSConfig tf tls = Inr t"
    and "rh_TLS rh = None \<Longrightarrow> Option.bind (rg_Configs rg (rh_Host rh)) rc_TLS = None"
  using assms
  by (auto simp: endpointHost_def zeroRegistryConfig_def Let_def split: sum.splits option.splits)

lemma hostCreds_bound:
  assumes "hostCreds urlParse decode64 rh h = Inr (user, secret)" "user \<noteq> [] \<or> secret \<noteq> []"
  shows "\<exists>a. rh_Auth rh = Some a \<and> (au_ServerAddress a = [] \<or> urlHost urlParse (au_ServerAddress a) = Inr h)"
proof (cases "rh_Auth rh")
  case (Some a)
  with assms show ?thesis using ParseAuth_no_leak [of "urlHost urlParse" decode64 a h] by (simp add: hostCreds_def)
qed (use assms in \<open>simp add: hostCreds_def ParseAuth_def\<close>)

text \<open>
  C22: the registries for a host. They are the configured mirrors of the host, or else those of the wildcard, in their order and with a scheme,
  and after them the host's own registry unless a mirror is the host itself. A secret is handed out only as the request's, and then only to the
  server the request names, if it names one, or, for a request without authentication, as the one configured for that very registry; and a
  registry is contacted without checking its certificate only if the configuration says so for it. The schemes that are written back
  into the configuration change the answer to no later request.
\<close>

theorem registryHosts_correct:
  assumes "registryHosts tf urlParse auth host rg = (Inr hs, rg')"
  shows "(\<exists>ens es. list_all2 (\<lambda>e en. addDefaultScheme SplitHostPort (urlHost urlParse) e = Inr en) (mirrorEndpoints rg host) ens \<and>
            es = (if \<exists>e \<in> set ens. \<exists>u. urlParse e = Inr u \<and> u_Host u = host then ens
                  else ens @ [defaultScheme SplitHostPort (DefaultHost host) @ ''://'' @ DefaultHost host]) \<and>
            list_all2 (\<lambda>e rh. \<exists>u. urlParse e = Inr u \<and> rh_Host rh = u_Host u \<and> rh_Scheme rh = u_Scheme u) es hs) \<and>
         (\<forall>rh \<in> set hs. \<forall>h user secret. hostCreds urlParse decode64 rh h = Inr (user, secret) \<and> (user \<noteq> [] \<or> secret \<noteq> []) \<longrightarrow>
            (case auth of
               Some a \<Rightarrow> rh_Auth rh = Some a \<and> (au_ServerAddress a = [] \<or> urlHost urlParse (au_ServerAddress a) = Inr h)
             | None \<Rightarrow> \<exists>c a. rg_Configs rg (rh_Host rh) = Some c \<and> rc_Auth c = Some a \<and> rh_Auth rh = Some (toRuntimeAuthConfig a))) \<and>
         (\<forall>rh \<in> set hs. \<forall>t. rh_TLS rh = Some t \<and> tc_InsecureSkipVerify t \<longrightarrow>
            (\<exists>c tls. rg_Configs rg (rh_Host rh) = Some c \<and> rc_TLS c = Some tls \<and> tls_InsecureSkipVerify tls)) \<and>
         (\<forall>h. fst (registryEndpoints urlParse h rg') = fst (registryEndpoints urlParse h rg))"
proof -
  obtain es where e: "registryEndpoints urlParse host rg = (Inr es, rg')" and hs: "endpointHosts tf urlParse rg' auth es = Inr hs"
    using assms by (auto simp: registryHosts_def bindA_def wrapA_def split: prod.splits sum.splits)
  obtain ens where ens: "list_all2 (\<lambda>e en. addDefaultScheme SplitHostPort (urlHost urlParse) e = Inr en) (mirrorEndpoints rg host) ens"
    and es: "es = (if \<exists>e \<in> set ens. \<exists>u. urlParse e = Inr u \<and> u_Host u = host then ens
           else ens @ [defaultScheme SplitHostPort (DefaultHost host) @ ''://'' @ DefaultHost host])"
    and configs: "rg_Configs rg' = rg_Configs rg" using registryEndpoints_Inr [OF e] .
  note each = endpointHosts_Inr [OF hs]
  have made: "\<exists>e. endpointHost tf urlParse rg' auth e = Inr rh" if "rh \<in> set hs" for rh
    using each that by (auto simp: list_all2_conv_all_nth in_set_conv_nth)
  have hosts: "list_all2 (\<lambda>e rh. \<exists>u. urlParse e = Inr u \<and> rh_Host rh = u_Host u \<and> rh_Scheme rh = u_Scheme u) es hs"
    by (rule list_all2_mono [OF each]) (use endpointHost_Inr(1) in blast)
  have creds: "case auth of
               Some a \<Rightarrow> rh_Auth rh = Some a \<and> (au_ServerAddress a = [] \<or> urlHost urlParse (au_ServerAddress a) = Inr h)
             | None \<Rightarrow> \<exists>c a. rg_Configs rg (rh_Host rh) = Some c \<and> rc_Auth c = Some a \<and> rh_Auth rh = Some (toRuntimeAuthConfig a)"
    if "rh \<in> set hs" "hostCreds urlParse decode64 rh h = Inr (user, secret)" "user \<noteq> [] \<or> secret \<noteq> []" for rh h user secret
  proof -
    from made [OF that(1)] obtain e where "endpointHost tf urlParse rg' auth e = Inr rh" by blast
    from endpointHost_Inr(2) [OF this] hostCreds_bound [OF that(2,3)] configs show ?thesis
      by (auto split: option.splits bind_splits)
  qed
  have tls: "\<exists>c tls. rg_Configs rg (rh_Host rh) = Some c \<and> rc_TLS c = Some tls \<and> tls_InsecureSkipVerify tls"
    if "rh \<in> set hs" "rh_TLS rh = Some t" "tc_InsecureSkipVerify t" for rh t
  proof -
    from made [OF that(1)] obtain e where "endpointHost tf urlParse rg' auth e = Inr rh" by blast
    from endpointHost_Inr(3) [OF this that(2)] getTLSConfig_Inr that(3) configs show ?thesis by auto
  qed
  have stable: "fst (registryEndpoints urlParse h rg') = fst (registryEndpoints urlParse h rg)" for h
    using registryEndpoints_stable [of urlParse h host rg] e by simp
  show ?thesis
  proof (intro conjI)
    show "\<exists>ens es. list_all2 (\<lambda>e en. addDefaultScheme SplitHostPort (urlHost urlParse) e = Inr en) (mirrorEndpoints rg host) ens \<and>
            es = (if \<exists>e \<in> set ens. \<exists>u. urlParse e = Inr u \<and> u_Host u = host then ens
                  else ens @ [defaultScheme SplitHostPort (DefaultHost host) @ ''://'' @ DefaultHost host]) \<and>
            list_all2 (\<lambda>e rh. \<exists>u. urlParse e = Inr u \<and> rh_Host rh = u_Host u \<and> rh_Scheme rh = u_Scheme u) es hs"
      using ens es hosts by (intro exI conjI)
  qed (use creds tls stable in blast)+
qed

subsection \<open>The default configuration\<close>

text \<open>
  The mirrors of the default configuration. The endpoint of \<^verbatim>\<open>docker.io\<close> is its own registry, but it is compared with the name
  \<^verbatim>\<open>docker.io\<close> and not with the host of the registry, so the registry is tried twice.
\<close>

definition defaultRegistry :: registry where
  "defaultRegistry = \<lparr>rg_Mirrors = [''docker.io'' \<mapsto> [''https://registry-1.docker.io'']], rg_Configs = Map.empty, rg_Auths = Map.empty\<rparr>"

lemma default_endpoint_twice:
  assumes "urlParse ''https://registry-1.docker.io'' = Inr u" "u_Host u = ''registry-1.docker.io''"
  shows "fst (registryEndpoints urlParse ''docker.io'' defaultRegistry) = Inr [''https://registry-1.docker.io'', ''https://registry-1.docker.io'']"
proof -
  have "sublist ''://'' ''https://registry-1.docker.io''" by code_simp
  then have a: "addSchemes urlParse [''https://registry-1.docker.io''] = (Inr (), [''https://registry-1.docker.io''])"
    by (simp add: addDefaultScheme_def)
  have m: "mirrorEndpoints defaultRegistry ''docker.io'' = [''https://registry-1.docker.io'']"
    by (simp add: mirrorEndpoints_def mirrorKey_def defaultRegistry_def)
  have d: "DefaultHost ''docker.io'' = ''registry-1.docker.io''" by (simp add: DefaultHost_def)
  have "defaultScheme SplitHostPort ''registry-1.docker.io'' = ''https''" by code_simp
  with assms a m d show ?thesis by (simp add: registryEndpoints_def Let_def)
qed

text \<open>URLs of the form \<^verbatim>\<open>scheme://host/path\<close>.\<close>

definition plainURL :: "string \<Rightarrow> url result" where
  "plainURL s =
     (let scheme = takeWhile (\<lambda>c. c \<noteq> CHR '':'') s; rest = drop (length scheme + 3) s
      in Inr \<lparr>u_Scheme = scheme, u_Host = takeWhile (\<lambda>c. c \<noteq> CHR ''/'') rest, u_Path = dropWhile (\<lambda>c. c \<noteq> CHR ''/'') rest\<rparr>)"

definition example_registry :: registry where
  "example_registry = \<lparr>rg_Mirrors = [''*'' \<mapsto> [''localhost:5000'', ''https://mirror/v2'']],
     rg_Configs = [''mirror'' \<mapsto> \<lparr>rc_Auth = Some \<lparr>ra_Username = ''u'', ra_Password = ''p'', ra_Auth = [], ra_IdentityToken = []\<rparr>, rc_TLS = None\<rparr>],
     rg_Auths = Map.empty\<rparr>"

definition no_tls :: tlsFiles where
  "no_tls = \<lparr>tf_LoadX509KeyPair = \<lambda>_ _. Inr [], tf_SystemCertPool = Inr [], tf_ReadFile = \<lambda>_. Inr [], tf_CertsFromPEM = \<lambda>_. []\<rparr>"

lemma example_hosts:
  "map_sum id (map (\<lambda>rh. (rh_Scheme rh, rh_Host rh, rh_Path rh, rh_TLS rh, rh_Auth rh))) (fst (registryHosts no_tls plainURL None ''gcr.io'' example_registry))
   = Inr [(''http'', ''localhost:5000'', ''/v2'', None, None),
          (''https'', ''mirror'', ''/v2'', None, Some \<lparr>au_Username = ''u'', au_Password = ''p'', au_Auth = [], au_ServerAddress = [], au_IdentityToken = []\<rparr>),
          (''https'', ''gcr.io'', ''/v2'', None, None)]"
  by code_simp

theorem registryHosts_correct_witness:
  "\<exists>hs rg'. registryHosts no_tls plainURL None ''gcr.io'' example_registry = (Inr hs, rg') \<and>
     map rh_Host hs = [''localhost:5000'', ''mirror'', ''gcr.io''] \<and> hostCreds plainURL (\<lambda>x. Inr x) (hs ! 1) ''mirror'' = Inr (''u'', ''p'') \<and>
     fst (registryEndpoints plainURL ''quay.io'' rg') = fst (registryEndpoints plainURL ''quay.io'' example_registry)"
proof -
  obtain r rg' where run: "registryHosts no_tls plainURL None ''gcr.io'' example_registry = (r, rg')" by fastforce
  with example_hosts obtain hs where r: "r = Inr hs" by (cases r) auto
  have hs: "map (\<lambda>rh. (rh_Scheme rh, rh_Host rh, rh_Path rh, rh_TLS rh, rh_Auth rh)) hs =
         [(''http'', ''localhost:5000'', ''/v2'', None, None),
          (''https'', ''mirror'', ''/v2'', None, Some \<lparr>au_Username = ''u'', au_Password = ''p'', au_Auth = [], au_ServerAddress = [], au_IdentityToken = []\<rparr>),
          (''https'', ''gcr.io'', ''/v2'', None, None)]"
    using example_hosts run r by simp
  then have "map rh_Host hs = [''localhost:5000'', ''mirror'', ''gcr.io'']" by auto
  moreover have "hostCreds plainURL (\<lambda>x. Inr x) (hs ! 1) ''mirror'' = Inr (''u'', ''p'')"
    using hs by (auto simp: hostCreds_def ParseAuth_def)
  moreover have "fst (registryEndpoints plainURL ''quay.io'' rg') = fst (registryEndpoints plainURL ''quay.io'' example_registry)"
    using registryHosts_correct [OF run [unfolded r]] by blast
  ultimately show ?thesis using run [unfolded r] by (intro exI conjI)
qed

subsection \<open>Annotations of the layers\<close>

text \<open>
  \<^verbatim>\<open>appendInfoHandlerWrapper\<close>: the children that the wrapped handler gives for a manifest. A descriptor carries its annotations;
  a missing map is the empty one.
\<close>

record annotatedDescriptor = descriptor +
  ds_Annotations :: labels

definition targetRefLabel :: string where "targetRefLabel = ''containerd.io/snapshot/cri.image-ref''"
definition targetManifestDigestLabel :: string where "targetManifestDigestLabel = ''containerd.io/snapshot/cri.manifest-digest''"
definition targetLayerDigestLabel :: string where "targetLayerDigestLabel = ''containerd.io/snapshot/cri.layer-digest''"
definition targetImageLayersLabel :: string where "targetImageLayersLabel = ''containerd.io/snapshot/cri.image-layers''"

text \<open>The vendored \<^verbatim>\<open>images.IsLayerType\<close> and \<^verbatim>\<open>labels.Validate\<close>.\<close>

definition IsLayerType :: "string \<Rightarrow> bool" where
  "IsLayerType mt \<longleftrightarrow>
     HasPrefix mt ''application/vnd.oci.image.layer.'' \<or>
     takeWhile (\<lambda>c. c \<noteq> CHR ''+'') mt \<in> set [''application/vnd.docker.image.rootfs.diff.tar'', ''application/vnd.docker.image.rootfs.diff.tar.gzip'',
       ''application/vnd.docker.image.rootfs.foreign.diff.tar'', ''application/vnd.docker.image.rootfs.foreign.diff.tar.gzip'']"

definition labelFits :: "string \<Rightarrow> string \<Rightarrow> bool" where
  "labelFits k v \<longleftrightarrow> length k + length v \<le> 4096"

definition isManifest :: "string \<Rightarrow> bool" where
  "isManifest mt \<longleftrightarrow> mt \<in> set [''application/vnd.oci.image.manifest.v1+json'', ''application/vnd.docker.distribution.manifest.v2+json'']"

fun annotateChildren :: "string \<Rightarrow> string \<Rightarrow> annotatedDescriptor list \<Rightarrow> annotatedDescriptor list" where
  "annotateChildren ref manifest [] = []"
| "annotateChildren ref manifest (c # cs) =
     (if IsLayerType (ds_MediaType c)
      then c\<lparr>ds_Annotations := (ds_Annotations c)(targetRefLabel \<mapsto> ref, targetLayerDigestLabel \<mapsto> ds_Digest c,
               targetImageLayersLabel \<mapsto> getLayers IsLayerType (labelFits targetImageLayersLabel) (map descriptor.truncate (c # cs)),
               targetManifestDigestLabel \<mapsto> manifest)\<rparr>
      else c) # annotateChildren ref manifest cs"

definition appendInfoHandlerWrapper ::
    "string \<Rightarrow> (descriptor \<Rightarrow> annotatedDescriptor list result) \<Rightarrow> descriptor \<Rightarrow> annotatedDescriptor list result" where
  "appendInfoHandlerWrapper ref f desc =
     (case f desc of
        Inl err \<Rightarrow> Inl err
      | Inr children \<Rightarrow> Inr (if isManifest (ds_MediaType desc) then annotateChildren ref (ds_Digest desc) children else children))"

lemma annotateChildren_nth:
  "i < length cs \<Longrightarrow> annotateChildren ref manifest cs ! i =
     (if IsLayerType (ds_MediaType (cs ! i))
      then (cs ! i)\<lparr>ds_Annotations := (ds_Annotations (cs ! i))(targetRefLabel \<mapsto> ref, targetLayerDigestLabel \<mapsto> ds_Digest (cs ! i),
               targetImageLayersLabel \<mapsto> getLayers IsLayerType (labelFits targetImageLayersLabel) (map descriptor.truncate (drop i cs)),
               targetManifestDigestLabel \<mapsto> manifest)\<rparr>
      else cs ! i)"
proof (induction cs arbitrary: i)
  case (Cons c cs)
  then show ?case by (cases i) (simp_all del: descriptor.truncate_def)
qed simp

lemma length_annotateChildren [simp]: "length (annotateChildren ref manifest cs) = length cs"
  by (induction cs) simp_all

text \<open>The digests of the layers from the \<open>i\<close>-th child on.\<close>

definition layersFrom :: "nat \<Rightarrow> annotatedDescriptor list \<Rightarrow> string list" where
  "layersFrom i cs = map ds_Digest (filter (\<lambda>c. IsLayerType (ds_MediaType c)) (drop i cs))"

lemma truncate_layers:
  "map ds_Digest (filter (\<lambda>l. IsLayerType (ds_MediaType l)) (map descriptor.truncate ds)) =
   map ds_Digest (filter (\<lambda>c. IsLayerType (ds_MediaType c)) (ds :: annotatedDescriptor list))"
  by (induction ds) (simp_all add: descriptor.truncate_def)

lemma getLayers_from:
  assumes "\<forall>c \<in> set cs. ds_Digest c \<noteq> []"
  obtains k where "getLayers IsLayerType (labelFits key) (map descriptor.truncate (drop i (cs :: annotatedDescriptor list))) = Join (take k (layersFrom i cs)) '',''"
    "k = 0 \<or> labelFits key (Join (take k (layersFrom i cs)) '','')"
    "k < length (layersFrom i cs) \<longrightarrow> \<not> labelFits key (Join (take (Suc k) (layersFrom i cs)) '','')"
proof -
  have "\<forall>l \<in> set (map descriptor.truncate (drop i cs)). ds_Digest l \<noteq> []"
    using assms by (auto simp: descriptor.truncate_def dest: in_set_dropD)
  from getLayers_correct [OF this, of IsLayerType "labelFits key"] that show thesis
    unfolding Let_def truncate_layers layersFrom_def [symmetric] by (metis le_refl gr0I)
qed

text \<open>
  What the snapshotter is told about an image. Of the children of a manifest, in their order, exactly the layers are annotated,
  and only their annotations change: with the reference, the digest of the manifest, the digest of the layer itself, and the digests of the layers from it
  on, as many as a label of 4096 bytes can hold. The children of other descriptors and the errors of the wrapped handler are passed on.
\<close>

lemma appendInfo_correct:
  assumes "f desc = Inr cs" "\<forall>c \<in> set cs. ds_Digest c \<noteq> []" "appendInfoHandlerWrapper ref f desc = Inr cs'"
  shows "length cs' = length cs \<and>
    (\<forall>i < length cs.
       if isManifest (ds_MediaType desc) \<and> IsLayerType (ds_MediaType (cs ! i)) then
         \<exists>k. let layers = Join (take k (layersFrom i cs)) '','' in
           cs' ! i = (cs ! i)\<lparr>ds_Annotations := (ds_Annotations (cs ! i))(targetRefLabel \<mapsto> ref, targetLayerDigestLabel \<mapsto> ds_Digest (cs ! i),
               targetImageLayersLabel \<mapsto> layers, targetManifestDigestLabel \<mapsto> ds_Digest desc)\<rparr> \<and>
           length targetImageLayersLabel + length layers \<le> 4096 \<and>
           (k < length (layersFrom i cs) \<longrightarrow> 4096 < length targetImageLayersLabel + length (Join (take (Suc k) (layersFrom i cs)) '',''))
       else cs' ! i = cs ! i)"
proof -
  have cs': "cs' = (if isManifest (ds_MediaType desc) then annotateChildren ref (ds_Digest desc) cs else cs)"
    using assms(1,3) by (simp add: appendInfoHandlerWrapper_def)
  have short: "length targetImageLayersLabel \<le> 4096" by (simp add: targetImageLayersLabel_def)
  have layer: "\<exists>k. let layers = Join (take k (layersFrom i cs)) '','' in
           cs' ! i = (cs ! i)\<lparr>ds_Annotations := (ds_Annotations (cs ! i))(targetRefLabel \<mapsto> ref, targetLayerDigestLabel \<mapsto> ds_Digest (cs ! i),
               targetImageLayersLabel \<mapsto> layers, targetManifestDigestLabel \<mapsto> ds_Digest desc)\<rparr> \<and>
           length targetImageLayersLabel + length layers \<le> 4096 \<and>
           (k < length (layersFrom i cs) \<longrightarrow> 4096 < length targetImageLayersLabel + length (Join (take (Suc k) (layersFrom i cs)) '',''))"
    if "i < length cs" "isManifest (ds_MediaType desc)" "IsLayerType (ds_MediaType (cs ! i))" for i
  proof -
    obtain k where k: "getLayers IsLayerType (labelFits targetImageLayersLabel) (map descriptor.truncate (drop i cs)) = Join (take k (layersFrom i cs)) '',''"
      "k = 0 \<or> labelFits targetImageLayersLabel (Join (take k (layersFrom i cs)) '','')"
      "k < length (layersFrom i cs) \<longrightarrow> \<not> labelFits targetImageLayersLabel (Join (take (Suc k) (layersFrom i cs)) '','')"
      using getLayers_from [OF assms(2), where i = i and key = targetImageLayersLabel] .
    moreover have "cs' ! i = (cs ! i)\<lparr>ds_Annotations := (ds_Annotations (cs ! i))(targetRefLabel \<mapsto> ref, targetLayerDigestLabel \<mapsto> ds_Digest (cs ! i),
               targetImageLayersLabel \<mapsto> Join (take k (layersFrom i cs)) '','', targetManifestDigestLabel \<mapsto> ds_Digest desc)\<rparr>"
      using that k(1) by (simp add: cs' annotateChildren_nth)
    ultimately show ?thesis using short unfolding Let_def by (intro exI [of _ k]) (auto simp: labelFits_def not_le)
  qed
  have other: "cs' ! i = cs ! i" if "i < length cs" "\<not> (isManifest (ds_MediaType desc) \<and> IsLayerType (ds_MediaType (cs ! i)))" for i
    using that by (auto simp: cs' annotateChildren_nth)
  have "length cs' = length cs" by (simp add: cs')
  then show ?thesis
  proof (intro conjI allI impI)
    fix i assume "i < length cs"
    with layer [of i] other [of i] show "if isManifest (ds_MediaType desc) \<and> IsLayerType (ds_MediaType (cs ! i)) then
         \<exists>k. let layers = Join (take k (layersFrom i cs)) '','' in
           cs' ! i = (cs ! i)\<lparr>ds_Annotations := (ds_Annotations (cs ! i))(targetRefLabel \<mapsto> ref, targetLayerDigestLabel \<mapsto> ds_Digest (cs ! i),
               targetImageLayersLabel \<mapsto> layers, targetManifestDigestLabel \<mapsto> ds_Digest desc)\<rparr> \<and>
           length targetImageLayersLabel + length layers \<le> 4096 \<and>
           (k < length (layersFrom i cs) \<longrightarrow> 4096 < length targetImageLayersLabel + length (Join (take (Suc k) (layersFrom i cs)) '',''))
       else cs' ! i = cs ! i"
      by meson
  qed
qed

end
