(* ===== verification/Config.thy ===== *)
theory Config
  imports Registry PodNetwork
begin

section \<open>Plugin configuration\<close>

text \<open>
  \<^verbatim>\<open>pkg/config\<close>: what the plugin checks of its configuration and how the deprecated sections are moved to their new places. The
  configuration is explicit state, since \<^verbatim>\<open>ValidatePluginConfig\<close> changes it, also before it returns an error. The record has the fields that the
  validation reads. A nil map is an empty one; the orders in which the maps are visited are arguments, as are \<^verbatim>\<open>url.Parse\<close> and
  \<^verbatim>\<open>time.ParseDuration\<close>. The runtime options of \<^verbatim>\<open>helpers.go\<close> are those of the runtimes of this configuration; the decoder of
  the TOML text is an argument.
\<close>

definition RuntimeLinuxV1 :: string where "RuntimeLinuxV1 = ''io.containerd.runtime.v1.linux''"
definition RuntimeRuncV1 :: string where "RuntimeRuncV1 = ''io.containerd.runc.v1''"
definition RuntimeRuncV2 :: string where "RuntimeRuncV2 = ''io.containerd.runc.v2''"
definition runtimeRunhcsV1 :: string where "runtimeRunhcsV1 = ''io.containerd.runhcs.v1''"
definition RuntimeDefault :: string where "RuntimeDefault = ''default''"

record pluginRuntime = runtimeConfig +
  rt_Engine :: string
  rt_Root :: string
  rt_Options :: "string option"

record pluginConfig =
  pg_DefaultRuntimeName :: string
  pg_DefaultRuntime :: pluginRuntime
  pg_UntrustedWorkloadRuntime :: pluginRuntime
  pg_Runtimes :: "string \<rightharpoonup> pluginRuntime"
  pg_NoPivot :: bool
  pg_SystemdCgroup :: bool
  pg_Registry :: registry
  pg_StreamIdleTimeout :: string

type_synonym configCheck = "(pluginConfig, unit) act"

subsection \<open>Validation\<close>

definition checkUntrusted :: configCheck where
  "checkUntrusted c =
     (if rt_Type (pg_UntrustedWorkloadRuntime c) = [] then (Inr (), c)
      else if RuntimeUntrusted \<in> dom (pg_Runtimes c) then
        (Inl (Errorf ''conflicting definitions: configuration includes both `untrusted_workload_runtime` and `runtimes[%q]`'' [RuntimeUntrusted]), c)
      else (Inr (), c\<lparr>pg_Runtimes := (pg_Runtimes c)(RuntimeUntrusted \<mapsto> pg_UntrustedWorkloadRuntime c)\<rparr>))"

definition moveDefaultRuntime :: "pluginConfig \<Rightarrow> pluginConfig" where
  "moveDefaultRuntime c =
     (if rt_Type (pg_DefaultRuntime c) = [] then c
      else c\<lparr>pg_DefaultRuntimeName := RuntimeDefault, pg_Runtimes := (pg_Runtimes c)(RuntimeDefault \<mapsto> pg_DefaultRuntime c)\<rparr>)"

definition checkDefaultRuntime :: configCheck where
  "checkDefaultRuntime c =
     (if pg_DefaultRuntimeName c = [] then (Inl (Errorf ''`default_runtime_name` is empty'' []), c)
      else case pg_Runtimes c (pg_DefaultRuntimeName c) of
        None \<Rightarrow> (Inl (Errorf ''no corresponding runtime configured in `runtimes` for `default_runtime_name`'' []), c)
      | Some r \<Rightarrow>
          (if pg_SystemdCgroup c \<and> rt_Type r \<noteq> RuntimeLinuxV1 then (Inl (Errorf ''`systemd_cgroup` only works for runtime %s'' [RuntimeLinuxV1]), c)
           else if pg_NoPivot c \<and> rt_Type r \<noteq> RuntimeLinuxV1 then (Inl (Errorf ''`no_pivot` only works for runtime %s'' [RuntimeLinuxV1]), c)
           else (Inr (), c)))"

fun checkRuntimes :: "(string \<rightharpoonup> pluginRuntime) \<Rightarrow> string list \<Rightarrow> unit result" where
  "checkRuntimes m [] = Inr ()"
| "checkRuntimes m (k # ks) =
     (case m k of
        None \<Rightarrow> checkRuntimes m ks
      | Some r \<Rightarrow>
          if rt_Engine r \<noteq> [] \<and> rt_Type r \<noteq> RuntimeLinuxV1 then Inl (Errorf ''`runtime_engine` only works for runtime %s'' [RuntimeLinuxV1])
          else if rt_Root r \<noteq> [] \<and> rt_Type r \<noteq> RuntimeLinuxV1 then Inl (Errorf ''`runtime_root` only works for runtime %s'' [RuntimeLinuxV1])
          else checkRuntimes m ks)"

definition registryConfigOf :: "(string \<rightharpoonup> registryConfig) \<Rightarrow> string \<Rightarrow> registryConfig" where
  "registryConfigOf m k = (case m k of None \<Rightarrow> zeroRegistryConfig | Some c \<Rightarrow> c)"

fun moveAuths :: "(string \<Rightarrow> url result) \<Rightarrow> (string \<rightharpoonup> registryAuth) \<Rightarrow> string list \<Rightarrow> (string \<rightharpoonup> registryConfig) \<Rightarrow> unit result \<times> (string \<rightharpoonup> registryConfig)" where
  "moveAuths urlParse auths [] configs = (Inr (), configs)"
| "moveAuths urlParse auths (endpoint # es) configs =
     (case auths endpoint of
        None \<Rightarrow> moveAuths urlParse auths es configs
      | Some auth \<Rightarrow>
          (case urlParse endpoint of
             Inl err \<Rightarrow> (Inl (Wrapf err ''failed to parse registry url %q from `registry.auths`'' [endpoint]), configs)
           | Inr u \<Rightarrow>
               (let key = (if u_Scheme u \<noteq> [] then u_Host u else endpoint) in
                moveAuths urlParse auths es (configs(key \<mapsto> (registryConfigOf configs key)\<lparr>rc_Auth := Some auth\<rparr>)))))"

definition checkAuths :: "(string \<Rightarrow> url result) \<Rightarrow> string list \<Rightarrow> configCheck" where
  "checkAuths urlParse order c =
     (let (r, configs) = moveAuths urlParse (rg_Auths (pg_Registry c)) order (rg_Configs (pg_Registry c))
      in (r, c\<lparr>pg_Registry := (pg_Registry c)\<lparr>rg_Configs := configs\<rparr>\<rparr>))"

definition checkStreamIdleTimeout :: "(string \<Rightarrow> int result) \<Rightarrow> configCheck" where
  "checkStreamIdleTimeout parseDuration c =
     (if pg_StreamIdleTimeout c = [] then (Inr (), c)
      else case parseDuration (pg_StreamIdleTimeout c) of
        Inl err \<Rightarrow> (Inl (Wrapf err ''invalid stream idle timeout'' []), c)
      | Inr _ \<Rightarrow> (Inr (), c))"

definition ValidatePluginConfig ::
    "(string \<Rightarrow> url result) \<Rightarrow> (string \<Rightarrow> int result) \<Rightarrow> string list \<Rightarrow> string list \<Rightarrow> configCheck" where
  "ValidatePluginConfig urlParse parseDuration runtimes auths =
     thenA checkUntrusted
    (thenA (modifyA moveDefaultRuntime)
    (thenA checkDefaultRuntime
    (thenA (\<lambda>c. (checkRuntimes (pg_Runtimes c) runtimes, c))
    (thenA (checkAuths urlParse auths)
           (checkStreamIdleTimeout parseDuration)))))"

subsection \<open>Runtime options\<close>

datatype optionsType = RuncOptionsType | LinuxOptionsType | RunhcsOptionsType | GenericOptionsType

datatype 'o runtimeOptions = LegacyOptions string string bool | DecodedOptions optionsType 'o

definition getRuntimeOptionsType :: "string \<Rightarrow> optionsType" where
  "getRuntimeOptionsType t =
     (if t = RuntimeRuncV1 \<or> t = RuntimeRuncV2 then RuncOptionsType
      else if t = RuntimeLinuxV1 then LinuxOptionsType
      else if t = runtimeRunhcsV1 then RunhcsOptionsType
      else GenericOptionsType)"

definition generateRuntimeOptions :: "(string \<Rightarrow> optionsType \<Rightarrow> 'o result) \<Rightarrow> pluginRuntime \<Rightarrow> pluginConfig \<Rightarrow> 'o runtimeOptions option result" where
  "generateRuntimeOptions tomlDecode r c =
     (case rt_Options r of
        None \<Rightarrow> Inr (if rt_Type r \<noteq> RuntimeLinuxV1 then None else Some (LegacyOptions (rt_Engine r) (rt_Root r) (pg_SystemdCgroup c)))
      | Some prim \<Rightarrow>
          (let t = getRuntimeOptionsType (rt_Type r) in
           case tomlDecode prim t of Inl e \<Rightarrow> Inl e | Inr opts \<Rightarrow> Inr (Some (DecodedOptions t opts))))"

text \<open>The options that containerd has stored for a container; \<open>unmarshal\<close> is \<^verbatim>\<open>typeurl.UnmarshalAny\<close>.\<close>

definition getRuntimeOptions :: "('m \<Rightarrow> 'o result) \<Rightarrow> 'm option \<Rightarrow> 'o option result" where
  "getRuntimeOptions unmarshal stored =
     (case stored of None \<Rightarrow> Inr None | Some m \<Rightarrow> (case unmarshal m of Inl e \<Rightarrow> Inl e | Inr o' \<Rightarrow> Inr (Some o')))"

subsection \<open>What a valid configuration guarantees\<close>

definition authKey :: "(string \<Rightarrow> url result) \<Rightarrow> string \<Rightarrow> string" where
  "authKey urlParse endpoint = (case urlParse endpoint of Inr u \<Rightarrow> if u_Scheme u \<noteq> [] then u_Host u else endpoint | Inl _ \<Rightarrow> endpoint)"

lemma moveAuths_spec:
  assumes "moveAuths urlParse auths es configs = (Inr u, configs')"
  shows "if \<exists>e \<in> set es. e \<in> dom auths \<and> authKey urlParse e = k
         then \<exists>e \<in> set es. \<exists>a. auths e = Some a \<and> authKey urlParse e = k \<and>
                configs' k = Some ((registryConfigOf configs k)\<lparr>rc_Auth := Some a\<rparr>)
         else configs' k = configs k"
  using assms
proof (induction es arbitrary: configs)
  case (Cons endpoint es)
  show ?case
  proof (cases "auths endpoint")
    case None
    then show ?thesis using Cons by (auto simp: dom_def)
  next
    case (Some a)
    then obtain v where v: "urlParse endpoint = Inr v" using Cons.prems by (auto split: sum.splits)
    let ?key = "authKey urlParse endpoint"
    let ?configs = "configs(?key \<mapsto> (registryConfigOf configs ?key)\<lparr>rc_Auth := Some a\<rparr>)"
    have m: "moveAuths urlParse auths es ?configs = (Inr u, configs')"
      using Cons.prems Some v by (simp add: authKey_def Let_def split: if_splits)
    have keep: "(registryConfigOf ?configs k)\<lparr>rc_Auth := x\<rparr> = (registryConfigOf configs k)\<lparr>rc_Auth := x\<rparr>" for x
      by (simp add: registryConfigOf_def)
    note IH = Cons.IH [OF m]
    show ?thesis
    proof (cases "\<exists>e \<in> set es. e \<in> dom auths \<and> authKey urlParse e = k")
      case True
      then show ?thesis using IH keep by (auto simp del: fun_upd_apply)
    next
      case False
      then have "configs' k = ?configs k" using IH by simp
      then show ?thesis using False Some by (auto simp: dom_def)
    qed
  qed
qed simp

lemma checkRuntimes_spec:
  assumes "checkRuntimes m ks = Inr u" "set ks = dom m" "m k = Some r"
  shows "rt_Engine r \<noteq> [] \<or> rt_Root r \<noteq> [] \<Longrightarrow> rt_Type r = RuntimeLinuxV1"
proof -
  have "checkRuntimes m ks = Inr u \<Longrightarrow> k \<in> set ks \<Longrightarrow> m k = Some r \<Longrightarrow> (rt_Engine r = [] \<and> rt_Root r = []) \<or> rt_Type r = RuntimeLinuxV1" for ks
    by (induction ks) (auto split: option.splits if_splits)
  with assms show "rt_Engine r \<noteq> [] \<or> rt_Root r \<noteq> [] \<Longrightarrow> rt_Type r = RuntimeLinuxV1" by blast
qed

lemma ValidatePluginConfig_Inr:
  assumes "ValidatePluginConfig urlParse parseDuration ro ao c = (Inr u, c')"
  obtains c1 c2 r configs where
    "c1 = (if rt_Type (pg_UntrustedWorkloadRuntime c) = [] then c
           else c\<lparr>pg_Runtimes := (pg_Runtimes c)(RuntimeUntrusted \<mapsto> pg_UntrustedWorkloadRuntime c)\<rparr>)"
    "rt_Type (pg_UntrustedWorkloadRuntime c) = [] \<or> RuntimeUntrusted \<notin> dom (pg_Runtimes c)"
    "c2 = moveDefaultRuntime c1" "pg_DefaultRuntimeName c2 \<noteq> []" "pg_Runtimes c2 (pg_DefaultRuntimeName c2) = Some r"
    "pg_SystemdCgroup c2 \<or> pg_NoPivot c2 \<longrightarrow> rt_Type r = RuntimeLinuxV1" "checkRuntimes (pg_Runtimes c2) ro = Inr ()"
    "moveAuths urlParse (rg_Auths (pg_Registry c)) ao (rg_Configs (pg_Registry c)) = (Inr (), configs)"
    "c' = c2\<lparr>pg_Registry := (pg_Registry c)\<lparr>rg_Configs := configs\<rparr>\<rparr>"
    "pg_StreamIdleTimeout c = [] \<or> (\<exists>d. parseDuration (pg_StreamIdleTimeout c) = Inr d)"
proof -
  have idle: "checkStreamIdleTimeout parseDuration x = (Inr u', y) \<Longrightarrow>
      y = x \<and> (pg_StreamIdleTimeout x = [] \<or> (\<exists>d. parseDuration (pg_StreamIdleTimeout x) = Inr d))" for x y u'
    by (auto simp: checkStreamIdleTimeout_def split: if_splits sum.splits)
  have auths: "checkAuths urlParse ao x = (Inr u', y) \<Longrightarrow>
      \<exists>configs. moveAuths urlParse (rg_Auths (pg_Registry x)) ao (rg_Configs (pg_Registry x)) = (Inr (), configs) \<and>
        y = x\<lparr>pg_Registry := (pg_Registry x)\<lparr>rg_Configs := configs\<rparr>\<rparr>" for x y u'
    by (auto simp: checkAuths_def split: prod.splits)
  have default: "checkDefaultRuntime x = (Inr u', y) \<Longrightarrow> y = x \<and> pg_DefaultRuntimeName x \<noteq> [] \<and>
      (\<exists>r. pg_Runtimes x (pg_DefaultRuntimeName x) = Some r \<and> (pg_SystemdCgroup x \<or> pg_NoPivot x \<longrightarrow> rt_Type r = RuntimeLinuxV1))" for x y u'
    by (auto simp: checkDefaultRuntime_def split: if_splits option.splits)
  have untrusted: "checkUntrusted c = (Inr u', y) \<Longrightarrow>
      y = (if rt_Type (pg_UntrustedWorkloadRuntime c) = [] then c
           else c\<lparr>pg_Runtimes := (pg_Runtimes c)(RuntimeUntrusted \<mapsto> pg_UntrustedWorkloadRuntime c)\<rparr>) \<and>
      (rt_Type (pg_UntrustedWorkloadRuntime c) = [] \<or> RuntimeUntrusted \<notin> dom (pg_Runtimes c))" for y u'
    by (auto simp: checkUntrusted_def split: if_splits)
  have move: "pg_Registry (moveDefaultRuntime x) = pg_Registry x" "pg_StreamIdleTimeout (moveDefaultRuntime x) = pg_StreamIdleTimeout x" for x
    by (simp_all add: moveDefaultRuntime_def)
  from assms obtain c1 c2 c3 where s: "checkUntrusted c = (Inr (), c1)" "c2 = moveDefaultRuntime c1" "checkDefaultRuntime c2 = (Inr (), c2)"
      "checkRuntimes (pg_Runtimes c2) ro = Inr ()" "checkAuths urlParse ao c2 = (Inr (), c3)" "checkStreamIdleTimeout parseDuration c3 = (Inr (), c')"
    by (auto simp: ValidatePluginConfig_def thenA_def bindA_def modifyA_def dest: default split: prod.splits sum.splits)
  from untrusted [OF s(1)] default [OF s(3)] auths [OF s(5)] idle [OF s(6)] s(2,4) move [of c1] show thesis
    by (auto intro!: that split: if_splits)
qed

text \<open>The service's view of a configuration: its runtimes without the options of the shim.\<close>

definition serves :: "criConfig \<Rightarrow> pluginConfig \<Rightarrow> bool" where
  "serves s c \<longleftrightarrow> cf_DefaultRuntimeName s = pg_DefaultRuntimeName c \<and>
     (\<forall>k. cf_Runtimes s k = map_option runtimeConfig.truncate (pg_Runtimes c k))"

lemma moveDefaultRuntime_Runtimes:
  "pg_Runtimes (moveDefaultRuntime c) k =
     (if k = RuntimeDefault \<and> rt_Type (pg_DefaultRuntime c) \<noteq> [] then Some (pg_DefaultRuntime c) else pg_Runtimes c k)"
  by (simp add: moveDefaultRuntime_def)

lemma pod_default_runtime:
  assumes "serves s c" "pg_Runtimes c (pg_DefaultRuntimeName c) = Some r" "\<not> untrustedWorkload pod"
  shows "getSandboxRuntime s pod [] = Inr (runtimeConfig.truncate r)"
  using assms by (simp add: serves_def getSandboxRuntime_def lookupRuntime_def)

lemma options_not_ignored:
  assumes "rt_Options r = None" "rt_Engine r \<noteq> [] \<or> rt_Root r \<noteq> [] \<Longrightarrow> rt_Type r = RuntimeLinuxV1" "rt_Engine r \<noteq> [] \<or> rt_Root r \<noteq> []"
  shows "generateRuntimeOptions tomlDecode r c = Inr (Some (LegacyOptions (rt_Engine r) (rt_Root r) (pg_SystemdCgroup c)))"
  using assms by (simp add: generateRuntimeOptions_def)


subsection \<open>The default configuration\<close>

definition zeroRuntime :: pluginRuntime where
  "zeroRuntime = \<lparr>rt_Type = [], rt_PodAnnotations = [], rt_ContainerAnnotations = [], rt_PrivilegedWithoutHostDevices = False,
     rt_BaseRuntimeSpec = [], rt_Engine = [], rt_Root = [], rt_Options = None\<rparr>"

definition DefaultConfig :: pluginConfig where
  "DefaultConfig = \<lparr>pg_DefaultRuntimeName = ''runc'', pg_DefaultRuntime = zeroRuntime, pg_UntrustedWorkloadRuntime = zeroRuntime,
     pg_Runtimes = [''runc'' \<mapsto> zeroRuntime\<lparr>rt_Type := RuntimeRuncV2, rt_Options := Some []\<rparr>], pg_NoPivot = False, pg_SystemdCgroup = False,
     pg_Registry = defaultRegistry, pg_StreamIdleTimeout = ''4h0m0s''\<rparr>"

lemma DefaultConfig_valid:
  assumes "parseDuration ''4h0m0s'' = Inr d"
  shows "ValidatePluginConfig urlParse parseDuration [''runc''] [] DefaultConfig = (Inr (), DefaultConfig)"
  using assms
  by (simp add: ValidatePluginConfig_def thenA_def bindA_def modifyA_def checkUntrusted_def moveDefaultRuntime_def checkDefaultRuntime_def
      checkAuths_def checkStreamIdleTimeout_def DefaultConfig_def zeroRuntime_def)

text \<open>An old configuration: a runtime for untrusted workloads, an engine, and the authentication of a registry by its URL.\<close>

definition old_config :: pluginConfig where
  "old_config = DefaultConfig\<lparr>pg_DefaultRuntime := zeroRuntime\<lparr>rt_Type := RuntimeLinuxV1, rt_Engine := ''runc''\<rparr>,
     pg_UntrustedWorkloadRuntime := zeroRuntime\<lparr>rt_Type := ''kata''\<rparr>,
     pg_Registry := example_registry\<lparr>rg_Auths := [''https://gcr.io'' \<mapsto> \<lparr>ra_Username = ''a'', ra_Password = ''b'', ra_Auth = [], ra_IdentityToken = []\<rparr>]\<rparr>\<rparr>"

lemma old_config_simps [simp]:
  "pg_DefaultRuntime old_config = zeroRuntime\<lparr>rt_Type := RuntimeLinuxV1, rt_Engine := ''runc''\<rparr>"
  "pg_UntrustedWorkloadRuntime old_config = zeroRuntime\<lparr>rt_Type := ''kata''\<rparr>"
  "dom (pg_Runtimes old_config) = {''runc''}"
  "rg_Auths (pg_Registry old_config) = [''https://gcr.io'' \<mapsto> \<lparr>ra_Username = ''a'', ra_Password = ''b'', ra_Auth = [], ra_IdentityToken = []\<rparr>]"
  by (simp_all add: old_config_def DefaultConfig_def)

lemma old_config_valid:
  obtains c' where "ValidatePluginConfig plainURL (\<lambda>_. Inr 0) [''runc'', ''untrusted'', ''default''] [''https://gcr.io''] old_config = (Inr (), c')"
    "dom (pg_Runtimes c') = {''runc'', ''untrusted'', ''default''}"
proof -
  let ?run = "ValidatePluginConfig plainURL (\<lambda>_. Inr 0) [''runc'', ''untrusted'', ''default''] [''https://gcr.io''] old_config"
  have ok: "fst ?run = Inr ()" by code_simp
  then obtain c' where run: "?run = (Inr (), c')" by (metis prod.collapse)
  then have "dom (pg_Runtimes c') = {''runc'', ''untrusted'', ''default''}"
  proof (cases rule: ValidatePluginConfig_Inr)
    case (1 c1 c2 r configs)
    then show ?thesis
      by (auto simp: moveDefaultRuntime_def zeroRuntime_def RuntimeLinuxV1_def RuntimeUntrusted_def RuntimeDefault_def old_config_def DefaultConfig_def)
  qed
  with run that show thesis by blast
qed


end
