(* ===== verification/StreamServer.thy ===== *)
theory StreamServer
  imports RequestCache ExecSync SandboxHandlers
begin

section \<open>Streaming sessions\<close>

text \<open>
  The two halves of a streaming session: the CRI requests \<^verbatim>\<open>Exec\<close>, \<^verbatim>\<open>Attach\<close> and \<^verbatim>\<open>PortForward\<close> (\<^verbatim>\<open>container_exec.go\<close>,
  \<^verbatim>\<open>container_attach.go\<close>, \<^verbatim>\<open>sandbox_portforward.go\<close>) put a request into the cache of the stream server and answer with its URL; an
  HTTP request for that URL (\<^verbatim>\<open>pkg/streaming/server.go\<close>) takes it out again and serves it through the runtime of
  \<^verbatim>\<open>streaming.go\<close>. The negotiation of the streams (SPDY, WebSocket) and the router are not modelled: \<open>httpAnswer\<close> is
  what the handler hands to them. The server is always made without a base URL of its own, so an URL is scheme, address and path.
\<close>

record streamOptions =
  so_Stdin :: bool
  so_Stdout :: bool
  so_Stderr :: bool
  so_Tty :: bool

datatype streamRequest =
    ExecReq string "string list" streamOptions
  | AttachReq string streamOptions
  | PortForwardReq string "32 word list"

record streamServer =
  sr_scheme :: string
  sr_host :: string
  sr_cache :: "streamRequest requestCache"

definition NewServer :: "bool \<Rightarrow> string \<Rightarrow> streamServer" where
  "NewServer tls addr = \<lparr>sr_scheme = (if tls then ''https'' else ''http''), sr_host = addr, sr_cache = newRequestCache\<rparr>"

datatype streamListenerMode = X509KeyPairTLS | SelfSignTLS | WithoutTLS

definition getStreamListenerMode :: "bool \<Rightarrow> string \<Rightarrow> string \<Rightarrow> streamListenerMode result" where
  "getStreamListenerMode enableTLSStreaming certFile keyFile =
     (if enableTLSStreaming then
        (if certFile \<noteq> [] \<and> keyFile \<noteq> [] then Inr X509KeyPairTLS
         else if certFile \<noteq> [] \<and> keyFile = [] then Inl (Errorf ''must set X509KeyPairStreaming.TLSKeyFile'' [])
         else if certFile = [] \<and> keyFile \<noteq> [] then Inl (Errorf ''must set X509KeyPairStreaming.TLSCertFile'' [])
         else Inr SelfSignTLS)
      else if certFile \<noteq> [] then Inl (Errorf ''X509KeyPairStreaming.TLSCertFile is set but EnableTLSStreaming is not set'' [])
      else if keyFile \<noteq> [] then Inl (Errorf ''X509KeyPairStreaming.TLSKeyFile is set but EnableTLSStreaming is not set'' [])
      else Inr WithoutTLS)"

subsection \<open>Asking for a session\<close>

definition buildURL :: "streamServer \<Rightarrow> string \<Rightarrow> string \<Rightarrow> string" where
  "buildURL srv method token = sr_scheme srv @ ''://'' @ sr_host srv @ ''/'' @ method @ ''/'' @ token"

definition validateStreams :: "string \<Rightarrow> string \<Rightarrow> streamOptions \<Rightarrow> unit result" where
  "validateStreams none i so =
     (if i = [] then Inl (Errorf ''missing required container_id'' [])
      else if so_Tty so \<and> so_Stderr so then Inl (Errorf ''tty and stderr cannot both be true'' [])
      else if \<not> so_Stdin so \<and> \<not> so_Stdout so \<and> \<not> so_Stderr so then Inl (Errorf none [])
      else Inr ())"

definition validateExecRequest :: "string \<Rightarrow> streamOptions \<Rightarrow> unit result" where
  "validateExecRequest = validateStreams ''one of stdin, stdout, or stderr must be set''"

definition validateAttachRequest :: "string \<Rightarrow> streamOptions \<Rightarrow> unit result" where
  "validateAttachRequest = validateStreams ''one of stdin, stdout, and stderr must be set''"

definition getURL :: "(nat \<Rightarrow> 8 word list result) \<Rightarrow> int \<Rightarrow> int \<Rightarrow> string \<Rightarrow> streamRequest \<Rightarrow> (streamServer, string) act" where
  "getURL rnd now1 now2 method req srv =
     (case Cache_Insert rnd now1 now2 req (sr_cache srv) of
        (Inl err, c) \<Rightarrow> (Inl err, srv\<lparr>sr_cache := c\<rparr>)
      | (Inr token, c) \<Rightarrow> (Inr (buildURL srv method token), srv\<lparr>sr_cache := c\<rparr>))"

definition GetExec :: "(nat \<Rightarrow> 8 word list result) \<Rightarrow> int \<Rightarrow> int \<Rightarrow> string \<Rightarrow> string list \<Rightarrow> streamOptions \<Rightarrow> (streamServer, string) act" where
  "GetExec rnd now1 now2 i cmd so =
     bindA (liftA (validateExecRequest i so)) (\<lambda>_. getURL rnd now1 now2 ''exec'' (ExecReq i cmd so))"

definition GetAttach :: "(nat \<Rightarrow> 8 word list result) \<Rightarrow> int \<Rightarrow> int \<Rightarrow> string \<Rightarrow> streamOptions \<Rightarrow> (streamServer, string) act" where
  "GetAttach rnd now1 now2 i so =
     bindA (liftA (validateAttachRequest i so)) (\<lambda>_. getURL rnd now1 now2 ''attach'' (AttachReq i so))"

definition GetPortForward :: "(nat \<Rightarrow> 8 word list result) \<Rightarrow> int \<Rightarrow> int \<Rightarrow> string \<Rightarrow> 32 word list \<Rightarrow> (streamServer, string) act" where
  "GetPortForward rnd now1 now2 i ports =
     (if i = [] then failA (Errorf ''missing required pod_sandbox_id'' [])
      else getURL rnd now1 now2 ''portforward'' (PortForwardReq i ports))"

definition checkRunning :: "svc \<Rightarrow> string \<Rightarrow> string \<Rightarrow> string list \<Rightarrow> unit result" where
  "checkRunning s i msg args =
     (case Store_Get (containerStore s) i of
        Inl err \<Rightarrow> Inl (Wrapf err msg args)
      | Inr cntr \<Rightarrow>
          (let state = State (statusOf cntr s) in
           if state \<noteq> RUNNING then Inl (Errorf ''container is in %s state'' [criContainerStateToString state]) else Inr ()))"

definition Exec :: "svc \<Rightarrow> (nat \<Rightarrow> 8 word list result) \<Rightarrow> int \<Rightarrow> int \<Rightarrow> string \<Rightarrow> string list \<Rightarrow> streamOptions \<Rightarrow> (streamServer, string) act" where
  "Exec s rnd now1 now2 i cmd so =
     bindA (liftA (checkRunning s i ''failed to find container %q in store'' [i])) (\<lambda>_. GetExec rnd now1 now2 i cmd so)"

definition Attach :: "svc \<Rightarrow> (nat \<Rightarrow> 8 word list result) \<Rightarrow> int \<Rightarrow> int \<Rightarrow> string \<Rightarrow> streamOptions \<Rightarrow> (streamServer, string) act" where
  "Attach s rnd now1 now2 i so =
     bindA (liftA (checkRunning s i ''failed to find container in store'' [])) (\<lambda>_. GetAttach rnd now1 now2 i so)"

definition checkReady :: "svc \<Rightarrow> string \<Rightarrow> unit result" where
  "checkReady s i =
     (case Sandbox_Get (sandboxStore s) i of
        Inl err \<Rightarrow> Inl (Wrapf err ''failed to find sandbox %q'' [i])
      | Inr sb \<Rightarrow> if sb_State (sbStatusOf sb s) \<noteq> StateReady then Inl (Errorf ''sandbox container is not running'' []) else Inr ())"

definition PortForward :: "svc \<Rightarrow> (nat \<Rightarrow> 8 word list result) \<Rightarrow> int \<Rightarrow> int \<Rightarrow> string \<Rightarrow> 32 word list \<Rightarrow> (streamServer, string) act" where
  "PortForward s rnd now1 now2 i ports =
     bindA (liftA (checkReady s i)) (\<lambda>_. GetPortForward rnd now1 now2 i ports)"

subsection \<open>Serving a session\<close>

datatype httpAnswer =
    HttpNotFound
  | ServeExec string "string list" streamOptions
  | ServeAttach string streamOptions
  | ServePortForward string "32 word list"

definition serveExec :: "int \<Rightarrow> string \<Rightarrow> streamServer \<Rightarrow> httpAnswer \<times> streamServer" where
  "serveExec now token srv =
     (case Cache_Consume now token (sr_cache srv) of
        (Some (ExecReq i cmd so), c) \<Rightarrow> (ServeExec i cmd so, srv\<lparr>sr_cache := c\<rparr>)
      | (_, c) \<Rightarrow> (HttpNotFound, srv\<lparr>sr_cache := c\<rparr>))"

definition serveAttach :: "int \<Rightarrow> string \<Rightarrow> streamServer \<Rightarrow> httpAnswer \<times> streamServer" where
  "serveAttach now token srv =
     (case Cache_Consume now token (sr_cache srv) of
        (Some (AttachReq i so), c) \<Rightarrow> (ServeAttach i so, srv\<lparr>sr_cache := c\<rparr>)
      | (_, c) \<Rightarrow> (HttpNotFound, srv\<lparr>sr_cache := c\<rparr>))"

definition servePortForward :: "int \<Rightarrow> string \<Rightarrow> streamServer \<Rightarrow> httpAnswer \<times> streamServer" where
  "servePortForward now token srv =
     (case Cache_Consume now token (sr_cache srv) of
        (Some (PortForwardReq i ports), c) \<Rightarrow> (ServePortForward i ports, srv\<lparr>sr_cache := c\<rparr>)
      | (_, c) \<Rightarrow> (HttpNotFound, srv\<lparr>sr_cache := c\<rparr>))"

text \<open>The routes of \<^verbatim>\<open>NewServer\<close>.\<close>

definition serveRoute :: "string \<Rightarrow> int \<Rightarrow> string \<Rightarrow> streamServer \<Rightarrow> httpAnswer \<times> streamServer" where
  "serveRoute method now token srv =
     (if method = ''exec'' then serveExec now token srv
      else if method = ''attach'' then serveAttach now token srv
      else if method = ''portforward'' then servePortForward now token srv
      else (HttpNotFound, srv))"

subsection \<open>The runtime behind the sessions\<close>

definition attachContainer :: "execEnv \<Rightarrow> svc \<Rightarrow> string \<Rightarrow> bool \<Rightarrow> unit xact" where
  "attachContainer env s i tty =
     (case Store_Get (containerStore s) i of
        Inl err \<Rightarrow> failA (Wrapf err ''failed to find container %q in store'' [i])
      | Inr cntr \<Rightarrow>
          (let state = State (statusOf cntr s) in
           if state \<noteq> RUNNING then failA (Errorf ''container is in %s state'' [criContainerStateToString state])
           else
             thenA (wrapA (xcall env (XTask (c_ID cntr))) ''failed to load task'' [])
                   (case m_Config (c_meta cntr) of
                      None \<Rightarrow> failA (Errorf ''invalid memory address or nil pointer dereference'' [])
                    | Some config \<Rightarrow> modifyA ((#) (XAttachContainer (c_ID cntr) tty (cc_StdinOnce config))))))"

text \<open>
  Forwarding a port: the first \<^verbatim>\<open>select\<close> ends with the first direction that stops or with the context, the second
  with the other direction, after a second, or with the context.
\<close>

datatype forwardCall = FClosed string | FEnter "string option" | FDial int | FCloseConn | FCloseStream
datatype firstStop = FirstCopy "goerror option" | FirstCancel goerror
datatype secondStop = SecondCopy "goerror option" | SecondTimeout | SecondCancel goerror

record forwardEnv =
  fe_closed :: "string \<Rightarrow> bool result"
  fe_enter :: "string \<Rightarrow> goerror option"
  fe_dial :: "string option \<Rightarrow> int \<Rightarrow> goerror option"
  fe_first :: firstStop
  fe_second :: secondStop

definition asResult :: "goerror option \<Rightarrow> unit result" where
  "asResult e = (case e of None \<Rightarrow> Inr () | Some err \<Rightarrow> Inl err)"

definition forwardStreams :: "forwardEnv \<Rightarrow> unit result" where
  "forwardStreams env =
     (case fe_first env of
        FirstCancel err \<Rightarrow> Inl err
      | FirstCopy errFwd \<Rightarrow>
          asResult (case fe_second env of
             SecondCopy e \<Rightarrow> if errFwd = None then e else errFwd
           | SecondTimeout \<Rightarrow> errFwd
           | SecondCancel err \<Rightarrow> Some err))"

definition forwardIn :: "forwardEnv \<Rightarrow> string option \<Rightarrow> int \<Rightarrow> (forwardCall list, unit) act" where
  "forwardIn env ns port =
     alwaysA
       (thenA (modifyA ((#) (FDial port)))
         (case fe_dial env ns port of
            Some err \<Rightarrow> failA (Wrapf err ''failed to dial %d'' [FormatInt port])
          | None \<Rightarrow> alwaysA (liftA (forwardStreams env)) ((#) FCloseConn)))
       ((#) FCloseStream)"

definition portForward :: "forwardEnv \<Rightarrow> svc \<Rightarrow> string \<Rightarrow> int \<Rightarrow> (forwardCall list, unit) act" where
  "portForward env s i port =
     (case Sandbox_Get (sandboxStore s) i of
        Inl err \<Rightarrow> failA (Wrapf err ''failed to find sandbox %q in store'' [i])
      | Inr sb \<Rightarrow>
          if pc_NsNetwork (configOf sb) = NS_NODE then
            wrapA (thenA (modifyA ((#) (FEnter None))) (forwardIn env None port)) ''failed to execute portforward in network namespace %q'' [''host'']
          else case sb_NetNS sb of
            None \<Rightarrow> failA (Errorf ''invalid memory address or nil pointer dereference'' [])
          | Some path \<Rightarrow>
              thenA (modifyA ((#) (FClosed path)))
                (case fe_closed env path of
                   Inl err \<Rightarrow> failA (Wrapf err ''failed to check netwok namespace closed for sandbox %q'' [i])
                 | Inr closed \<Rightarrow>
                     if closed then failA (Errorf ''network namespace for sandbox %q is closed'' [i])
                     else
                       wrapA (thenA (modifyA ((#) (FEnter (Some path))))
                         (case fe_enter env path of Some err \<Rightarrow> failA err | None \<Rightarrow> forwardIn env (Some path) port))
                         ''failed to execute portforward in network namespace %q'' [path]))"

definition StreamPortForward :: "forwardEnv \<Rightarrow> svc \<Rightarrow> string \<Rightarrow> int \<Rightarrow> (forwardCall list, unit) act" where
  "StreamPortForward env s i port =
     (if port \<le> 0 \<or> 65535 < port then failA (Errorf ''invalid port %d'' [FormatInt port]) else portForward env s i port)"

subsection \<open>A request waits for its client\<close>

text \<open>The calls on the cache other than the one that takes the given token out.\<close>

inductive others :: "string \<Rightarrow> 'r requestCache \<times> int \<Rightarrow> 'r requestCache \<times> int \<Rightarrow> bool" for token where
  insert: "fillsTokens rnd \<Longrightarrow> now \<le> now1 \<Longrightarrow> now1 \<le> now2 \<Longrightarrow> Cache_Insert rnd now1 now2 req c = (r, c') \<Longrightarrow> others token (c, now) (c', now2)"
| consume: "now \<le> now1 \<Longrightarrow> token' \<noteq> token \<Longrightarrow> Cache_Consume now1 token' c = (r, c') \<Longrightarrow> others token (c, now) (c', now1)"

lemma live_earlier: "live u c t = Some (q, e) \<Longrightarrow> v \<le> u \<Longrightarrow> live v c t = Some (q, e)"
  by (auto simp: live_def split: option.splits if_splits)

lemma others_step:
  assumes "others token s t" "rc_inv (fst s) (snd s)" "snd t \<le> u" "live u (fst s) token = Some (q, e)"
  shows "rc_inv (fst t) (snd t) \<and> snd s \<le> snd t \<and> live u (fst t) token = Some (q, e)"
  using assms(1)
proof (cases rule: others.cases)
  case (insert rnd now now1 now2 req c r c')
  note run = live_insert [of c now now1 now2 rnd req r c', OF _ insert(4,5,3,6)]
  have inv: "rc_inv c now" using assms(2) insert(1) by simp
  have u: "now1 \<le> u" "now2 \<le> u" using assms(3) insert(2,5) by simp_all
  have l: "live u c token = Some (q, e)" using assms(4) insert(1) by simp
  have "live u c' token = Some (q, e)"
  proof (cases r)
    case (Inl err)
    then show ?thesis using run [OF inv] u l by simp
  next
    case (Inr t')
    then have "live now1 c t' = None" using run [OF inv] by simp
    with live_earlier [OF l u(1)] have "t' \<noteq> token" by auto
    moreover have "u \<le> now2 + cacheTTL"
      using l inv insert(4,5) unfolding live_iff [OF inv] by (fastforce simp: rc_inv_def)
    ultimately show ?thesis using run [OF inv] Inr u l by simp
  qed
  then show ?thesis using run [OF inv] insert by simp
next
  case (consume now now1 token' c r c')
  then show ?thesis using live_consume [of c now now1 token' r c'] assms by auto
qed

lemma others_mono: "(others token)\<^sup>*\<^sup>* s t \<Longrightarrow> snd s \<le> snd t"
  by (induction rule: rtranclp_induct) (auto elim!: others.cases)

lemma others_steps:
  assumes "(others token)\<^sup>*\<^sup>* s t" "rc_inv (fst s) (snd s)" "snd t \<le> u" "live u (fst s) token = Some (q, e)"
  shows "rc_inv (fst t) (snd t) \<and> live u (fst t) token = Some (q, e)"
  using assms
proof (induction rule: converse_rtranclp_induct)
  case (step s s')
  have "snd s' \<le> u" using others_mono [OF step(2)] step.prems(2) by simp
  from others_step [OF step(1) step.prems(1) this step.prems(3)] step.IH step.prems show ?case by simp
qed simp

subsection \<open>Sessions\<close>

definition methodOf :: "streamRequest \<Rightarrow> string" where
  "methodOf req = (case req of ExecReq _ _ _ \<Rightarrow> ''exec'' | AttachReq _ _ \<Rightarrow> ''attach'' | PortForwardReq _ _ \<Rightarrow> ''portforward'')"

definition answerTo :: "streamRequest \<Rightarrow> httpAnswer" where
  "answerTo req = (case req of ExecReq i cmd so \<Rightarrow> ServeExec i cmd so | AttachReq i so \<Rightarrow> ServeAttach i so
     | PortForwardReq i ports \<Rightarrow> ServePortForward i ports)"

definition askSession :: "svc \<Rightarrow> (nat \<Rightarrow> 8 word list result) \<Rightarrow> int \<Rightarrow> int \<Rightarrow> streamRequest \<Rightarrow> (streamServer, string) act" where
  "askSession s rnd now1 now2 req =
     (case req of
        ExecReq i cmd so \<Rightarrow> Exec s rnd now1 now2 i cmd so
      | AttachReq i so \<Rightarrow> Attach s rnd now1 now2 i so
      | PortForwardReq i ports \<Rightarrow> PortForward s rnd now1 now2 i ports)"

text \<open>What the service requires of a session: a running container and streams that can be multiplexed, or a ready pod.\<close>

definition streamsOK :: "svc \<Rightarrow> string \<Rightarrow> streamOptions \<Rightarrow> bool" where
  "streamsOK s i so \<longleftrightarrow> i \<noteq> [] \<and> (\<exists>cntr. Store_Get (containerStore s) i = Inr cntr \<and> State (statusOf cntr s) = RUNNING) \<and>
     \<not> (so_Tty so \<and> so_Stderr so) \<and> (so_Stdin so \<or> so_Stdout so \<or> so_Stderr so)"

definition admissible :: "svc \<Rightarrow> streamRequest \<Rightarrow> bool" where
  "admissible s req \<longleftrightarrow>
     (case req of
        ExecReq i cmd so \<Rightarrow> streamsOK s i so
      | AttachReq i so \<Rightarrow> streamsOK s i so
      | PortForwardReq i ports \<Rightarrow> i \<noteq> [] \<and> (\<exists>sb. Sandbox_Get (sandboxStore s) i = Inr sb \<and> sb_State (sbStatusOf sb s) = StateReady))"

lemma getURL_Inr:
  "getURL rnd now1 now2 method req srv = (Inr url, srv') \<longleftrightarrow>
     (\<exists>token c. Cache_Insert rnd now1 now2 req (sr_cache srv) = (Inr token, c) \<and> url = buildURL srv method token \<and> srv' = srv\<lparr>sr_cache := c\<rparr>)"
  by (auto simp: getURL_def split: prod.splits sum.splits)

lemma askSession_Inr:
  assumes "askSession s rnd now1 now2 req srv = (Inr url, srv')"
  shows "admissible s req" "getURL rnd now1 now2 (methodOf req) req srv = (Inr url, srv')"
  using assms
  by (cases req; auto simp: askSession_def Exec_def GetExec_def Attach_def GetAttach_def PortForward_def GetPortForward_def admissible_def
      streamsOK_def methodOf_def validateExecRequest_def validateAttachRequest_def validateStreams_def checkRunning_def checkReady_def bindA_def liftA_def failA_def Let_def
      split: sum.splits if_splits)+

lemma serveRoute_used:
  assumes "rc_inv (sr_cache srv) t0" "t0 \<le> u" "m \<in> {''exec'', ''attach'', ''portforward''}"
  shows "rc_inv (sr_cache (snd (serveRoute m u token srv))) u \<and> live v (sr_cache (snd (serveRoute m u token srv))) token = None"
proof -
  obtain r c where c: "Cache_Consume u token (sr_cache srv) = (r, c)" by fastforce
  have "sr_cache (snd (serveRoute m u token srv)) = c"
    using c assms(3) by (auto simp: serveRoute_def serveExec_def serveAttach_def servePortForward_def split: option.splits streamRequest.splits)
  then show ?thesis using live_consume [OF assms(1,2) c] by simp
qed

lemma serveRoute_gone:
  assumes "rc_inv (sr_cache srv) t0" "t0 \<le> u" "live u (sr_cache srv) token = None"
  shows "fst (serveRoute m u token srv) = HttpNotFound"
proof -
  obtain c where "Cache_Consume u token (sr_cache srv) = (None, c)"
    using live_consume [OF assms(1,2), of token] assms(3) by (cases "Cache_Consume u token (sr_cache srv)") auto
  then show ?thesis by (auto simp: serveRoute_def serveExec_def serveAttach_def servePortForward_def)
qed

lemma serveRoute_live:
  assumes "rc_inv (sr_cache srv) t0" "t0 \<le> u" "live u (sr_cache srv) token = Some (req, e)"
  shows "fst (serveRoute m u token srv) = (if m = methodOf req then answerTo req else HttpNotFound)"
proof -
  obtain c where "Cache_Consume u token (sr_cache srv) = (Some req, c)"
    using live_consume [OF assms(1,2), of token] assms(3) by (cases "Cache_Consume u token (sr_cache srv)") auto
  then show ?thesis
    by (cases req) (auto simp: serveRoute_def serveExec_def serveAttach_def servePortForward_def methodOf_def answerTo_def)
qed

text \<open>
  C25: a streaming session. An URL is given out only for a running container, or a ready pod, and for streams that can be multiplexed. For a minute,
  whatever other sessions are asked for and served in between, the first HTTP request for that URL is answered with exactly the session
  that was asked for, and every further request for it with not-found; the token does not open a session of another kind, and
  trying that uses it up.
\<close>

theorem stream_session_correct:
  assumes "rc_step\<^sup>*\<^sup>* (newRequestCache, t0) (sr_cache srv, now)" "now \<le> now1" "now1 \<le> now2" "fillsTokens rnd"
    "askSession s rnd now1 now2 req srv = (Inr url, srv1)"
  shows "admissible s req \<and>
    (\<exists>token. url = buildURL srv (methodOf req) token \<and>
       (\<forall>c now3 u m. (others token)\<^sup>*\<^sup>* (sr_cache srv1, now2) (c, now3) \<and> now3 \<le> u \<and> u \<le> now2 + cacheTTL \<and>
            m \<in> {''exec'', ''attach'', ''portforward''} \<longrightarrow>
          (case serveRoute m u token (srv1\<lparr>sr_cache := c\<rparr>) of (answer, srv2) \<Rightarrow>
             answer = (if m = methodOf req then answerTo req else HttpNotFound) \<and>
             (\<forall>m' u'. u \<le> u' \<longrightarrow> fst (serveRoute m' u' token srv2) = HttpNotFound))))"
proof -
  have inv: "rc_inv (sr_cache srv) now" using rcache.inv_reachable [OF _ assms(1)] by simp
  from askSession_Inr(2) [OF assms(5)] obtain token c1 where ins: "Cache_Insert rnd now1 now2 req (sr_cache srv) = (Inr token, c1)"
    and url: "url = buildURL srv (methodOf req) token" and srv1: "srv1 = srv\<lparr>sr_cache := c1\<rparr>" unfolding getURL_Inr by blast
  note i = live_insert [OF inv assms(2,3,4) ins]
  have served: "fst (serveRoute m u token (srv1\<lparr>sr_cache := c\<rparr>)) = (if m = methodOf req then answerTo req else HttpNotFound) \<and>
      (\<forall>m' u'. u \<le> u' \<longrightarrow> fst (serveRoute m' u' token (snd (serveRoute m u token (srv1\<lparr>sr_cache := c\<rparr>)))) = HttpNotFound)"
    if o: "(others token)\<^sup>*\<^sup>* (sr_cache srv1, now2) (c, now3)" and u: "now3 \<le> u" "u \<le> now2 + cacheTTL"
      and m: "m \<in> {''exec'', ''attach'', ''portforward''}" for c now3 u m
  proof -
    have "now2 \<le> now3" using others_mono [OF o] by simp
    then have "live u c1 token = Some (req, now2 + cacheTTL)" using i u assms(3) by simp
    with others_steps [OF o, of u] i u srv1 have d: "rc_inv c now3" "live u c token = Some (req, now2 + cacheTTL)" by simp_all
    let ?srv = "srv1\<lparr>sr_cache := c\<rparr>"
    have "fst (serveRoute m u token ?srv) = (if m = methodOf req then answerTo req else HttpNotFound)"
      using serveRoute_live [of ?srv now3 u] d u by simp
    moreover have "fst (serveRoute m' u' token (snd (serveRoute m u token ?srv))) = HttpNotFound" if "u \<le> u'" for m' u'
      using serveRoute_used [of ?srv now3 u m] serveRoute_gone [OF _ that] d u m by simp
    ultimately show ?thesis by blast
  qed
  show ?thesis
    using askSession_Inr(1) [OF assms(5)] url served by (auto simp: case_prod_beta)
qed

definition exec_request :: streamRequest where
  "exec_request = ExecReq ''c1'' [''ls''] \<lparr>so_Stdin = False, so_Stdout = True, so_Stderr = True, so_Tty = False\<rparr>"

lemma exec_session:
  "askSession (example_svc (zero_status\<lparr>st_CreatedAt := 1, st_StartedAt := 2\<rparr>)) (\<lambda>_. Inr [0, 1, 2, 3, 4, 255]) 0 0 exec_request (NewServer False ''node:1'') =
     (Inr ''http://node:1/exec/AAECAwT_'', (NewServer False ''node:1'')\<lparr>sr_cache := snd (Cache_Insert (\<lambda>_. Inr [0, 1, 2, 3, 4, 255]) 0 0 exec_request newRequestCache)\<rparr>)"
proof -
  let ?s = "example_svc (zero_status\<lparr>st_CreatedAt := 1, st_StartedAt := 2\<rparr>)"
  have "checkRunning ?s ''c1'' f args = Inr ()" for f args by code_simp
  then show ?thesis
    by (simp add: askSession_def exec_request_def Exec_def GetExec_def validateExecRequest_def validateStreams_def bindA_def liftA_def getURL_def NewServer_def one_insert buildURL_def)
qed

theorem stream_session_correct_witness:
  "\<exists>token srv1. askSession (example_svc (zero_status\<lparr>st_CreatedAt := 1, st_StartedAt := 2\<rparr>)) (\<lambda>_. Inr [0, 1, 2, 3, 4, 255]) 0 0 exec_request
       (NewServer False ''node:1'') = (Inr (''http://node:1/exec/'' @ token), srv1) \<and>
     fst (serveRoute ''exec'' 30000000000 token srv1) = ServeExec ''c1'' [''ls''] \<lparr>so_Stdin = False, so_Stdout = True, so_Stderr = True, so_Tty = False\<rparr> \<and>
     fst (serveRoute ''exec'' 30000000000 token (snd (serveRoute ''exec'' 30000000000 token srv1))) = HttpNotFound"
proof -
  let ?srv = "NewServer False ''node:1''"
  have start: "rc_step\<^sup>*\<^sup>* (newRequestCache, 0) (sr_cache ?srv, 0)" by (simp add: NewServer_def)
  have fills: "fillsTokens (\<lambda>_. Inr [0, 1, 2, 3, 4, 255])" by (simp add: fillsTokens_def tokenSize_def tokenLen_def)
  obtain srv1 where run: "askSession (example_svc (zero_status\<lparr>st_CreatedAt := 1, st_StartedAt := 2\<rparr>)) (\<lambda>_. Inr [0, 1, 2, 3, 4, 255]) 0 0
      exec_request ?srv = (Inr ''http://node:1/exec/AAECAwT_'', srv1)" using exec_session by blast
  from stream_session_correct [OF start order_refl order_refl fills run, THEN conjunct2] obtain token
    where url: "''http://node:1/exec/AAECAwT_'' = buildURL ?srv (methodOf exec_request) token"
    and served: "\<forall>c now3 u m. (others token)\<^sup>*\<^sup>* (sr_cache srv1, 0) (c, now3) \<and> now3 \<le> u \<and> u \<le> 0 + cacheTTL \<and>
            m \<in> {''exec'', ''attach'', ''portforward''} \<longrightarrow>
          (case serveRoute m u token (srv1\<lparr>sr_cache := c\<rparr>) of (answer, srv2) \<Rightarrow>
             answer = (if m = methodOf exec_request then answerTo exec_request else HttpNotFound) \<and>
             (\<forall>m' u'. u \<le> u' \<longrightarrow> fst (serveRoute m' u' token srv2) = HttpNotFound))"
    by (elim exE conjE)
  have "fst (serveRoute ''exec'' 30000000000 token srv1) = answerTo exec_request \<and>
      fst (serveRoute ''exec'' 30000000000 token (snd (serveRoute ''exec'' 30000000000 token srv1))) = HttpNotFound"
    using served [THEN spec, THEN spec, THEN spec, THEN spec, of "sr_cache srv1" 0 30000000000 "''exec''"] by (auto simp: cacheTTL_def exec_request_def methodOf_def split: prod.splits)
  moreover have "''http://node:1/exec/AAECAwT_'' = ''http://node:1/exec/'' @ token"
    using url by (simp add: buildURL_def NewServer_def exec_request_def methodOf_def)
  ultimately show ?thesis using run by (intro exI [of _ token] exI [of _ srv1]) (simp add: answerTo_def exec_request_def)
qed

text \<open>
  Forwarding a port: the stream of the client is closed exactly when the namespace was entered, only a valid port is dialled, and only in the
  network namespace of the pod, which is not closed, or in that of the node for a pod that shares it.
\<close>

lemma StreamPortForward_safe:
  assumes "StreamPortForward env s i port [] = (res, tr)"
  shows "(FDial p \<in> set tr \<longrightarrow> p = port \<and> 0 < p \<and> p \<le> 65535 \<and>
            (\<exists>sb. Sandbox_Get (sandboxStore s) i = Inr sb \<and>
               (if pc_NsNetwork (configOf sb) = NS_NODE then FEnter None \<in> set tr
                else \<exists>path. sb_NetNS sb = Some path \<and> fe_closed env path = Inr False \<and> FEnter (Some path) \<in> set tr)) \<and>
            FCloseStream \<in> set tr) \<and>
         (res = Inr () \<longrightarrow> FDial port \<in> set tr \<and> FCloseConn \<in> set tr)"
  using assms
  by (auto simp: StreamPortForward_def portForward_def forwardIn_def thenA_def bindA_def wrapA_def modifyA_def alwaysA_def failA_def liftA_def
      split: if_splits sum.splits option.splits prod.splits)

end
