(* ===== verification/WriterGroup.thy ===== *)
theory WriterGroup
  imports ContainerHandlers
begin

section \<open>Container output\<close>

text \<open>
  \<^verbatim>\<open>pkg/ioutil/writer_group.go\<close> and the output side of \<^verbatim>\<open>pkg/server/io/container_io.go\<close>: what a container writes is copied to every writer of a
  group, its log and the clients attached to it. Writers are opaque values \<open>'w\<close>, with identity; the calls on them are a trace, the latest
  first, and \<open>wr tr w p\<close> is what \<^verbatim>\<open>w.Write(p)\<close> returns: the number of bytes and whether there was an error. The order in which a
  loop visits the map of writers is an argument. After \<^verbatim>\<open>Close\<close> the map is nil, which reads as empty.
\<close>

datatype 'w wcall = WWrite 'w string | WClose 'w

type_synonym 'w writeResult = "'w wcall list \<Rightarrow> 'w \<Rightarrow> string \<Rightarrow> nat \<times> bool"

record 'w writerGroup =
  wg_writers :: "string \<rightharpoonup> 'w"
  wg_closed :: bool

definition NewWriterGroup :: "'w writerGroup" where
  "NewWriterGroup = \<lparr>wg_writers = Map.empty, wg_closed = False\<rparr>"

subsection \<open>Operations\<close>

definition Group_Add :: "string \<Rightarrow> 'w \<Rightarrow> 'w writerGroup \<times> 'w wcall list \<Rightarrow> 'w writerGroup \<times> 'w wcall list" where
  "Group_Add key w = (\<lambda>(g, tr). if wg_closed g then (g, WClose w # tr) else (g\<lparr>wg_writers := (wg_writers g)(key \<mapsto> w)\<rparr>, tr))"

definition Group_Get :: "string \<Rightarrow> 'w writerGroup \<Rightarrow> 'w option" where
  "Group_Get key g = wg_writers g key"

definition Group_Remove :: "string \<Rightarrow> 'w writerGroup \<times> 'w wcall list \<Rightarrow> 'w writerGroup \<times> 'w wcall list" where
  "Group_Remove key = (\<lambda>(g, tr).
     case wg_writers g key of
       None \<Rightarrow> (g, tr)
     | Some w \<Rightarrow> (g\<lparr>wg_writers := (wg_writers g)(key := None)\<rparr>, WClose w # tr))"

fun writeLoop :: "'w writeResult \<Rightarrow> string \<Rightarrow> string list \<Rightarrow> 'w writerGroup \<times> 'w wcall list \<Rightarrow> 'w writerGroup \<times> 'w wcall list" where
  "writeLoop wr p [] s = s"
| "writeLoop wr p (k # ks) (g, tr) =
     (case wg_writers g k of
        None \<Rightarrow> writeLoop wr p ks (g, tr)
      | Some w \<Rightarrow>
          (let (n, failed) = wr tr w p in
           if \<not> failed \<and> length p = n then writeLoop wr p ks (g, WWrite w p # tr)
           else writeLoop wr p ks (g\<lparr>wg_writers := (wg_writers g)(k := None)\<rparr>, WClose w # WWrite w p # tr)))"

definition Group_Write ::
    "'w writeResult \<Rightarrow> string list \<Rightarrow> string \<Rightarrow> 'w writerGroup \<times> 'w wcall list \<Rightarrow> nat result \<times> 'w writerGroup \<times> 'w wcall list" where
  "Group_Write wr order p s =
     (let (g, tr) = writeLoop wr p order s in
      (if list_all (\<lambda>k. wg_writers g k = None) order then Inl (Errorf ''writer group is empty'' []) else Inr (length p), g, tr))"

definition Group_Close :: "string list \<Rightarrow> 'w writerGroup \<times> 'w wcall list \<Rightarrow> 'w writerGroup \<times> 'w wcall list" where
  "Group_Close order = (\<lambda>(g, tr). (\<lparr>wg_writers = Map.empty, wg_closed = True\<rparr>, rev (map WClose (values_in (wg_writers g) order)) @ tr))"

subsection \<open>Container streams\<close>

definition streamKey :: "string \<Rightarrow> string \<Rightarrow> string \<Rightarrow> string" where
  "streamKey i name stream = Join [i, name, stream] ''-''"

record 'w containerIO =
  io_id :: string
  io_stdout :: "'w writerGroup"
  io_stderr :: "'w writerGroup"

definition NewContainerIO :: "string \<Rightarrow> 'w containerIO" where
  "NewContainerIO i = \<lparr>io_id = i, io_stdout = NewWriterGroup, io_stderr = NewWriterGroup\<rparr>"

definition addStdout :: "string \<Rightarrow> 'w option \<Rightarrow> 'w containerIO \<times> 'w wcall list \<Rightarrow> 'w option \<times> 'w containerIO \<times> 'w wcall list" where
  "addStdout name out = (\<lambda>(c, tr). case out of
      None \<Rightarrow> (None, c, tr)
    | Some w \<Rightarrow> (let key = streamKey (io_id c) name ''stdout''; (g, tr') = Group_Add key w (io_stdout c, tr)
                 in (Group_Get key (io_stdout c), c\<lparr>io_stdout := g\<rparr>, tr')))"

definition addStderr :: "string \<Rightarrow> 'w option \<Rightarrow> 'w containerIO \<times> 'w wcall list \<Rightarrow> 'w option \<times> 'w containerIO \<times> 'w wcall list" where
  "addStderr name out = (\<lambda>(c, tr). case out of
      None \<Rightarrow> (None, c, tr)
    | Some w \<Rightarrow> (let key = streamKey (io_id c) name ''stderr''; (g, tr') = Group_Add key w (io_stderr c, tr)
                 in (Group_Get key (io_stderr c), c\<lparr>io_stderr := g\<rparr>, tr')))"

definition AddOutput_io ::
    "string \<Rightarrow> 'w option \<Rightarrow> 'w option \<Rightarrow> 'w containerIO \<times> 'w wcall list \<Rightarrow> ('w option \<times> 'w option) \<times> 'w containerIO \<times> 'w wcall list" where
  "AddOutput_io name stdout stderr s =
     (let (oldStdout, s1) = addStdout name stdout s; (oldStderr, s2) = addStderr name stderr s1 in ((oldStdout, oldStderr), s2))"

text \<open>\<^verbatim>\<open>ReopenContainerLog\<close>; \<open>loggers\<close> is the result of \<^verbatim>\<open>createContainerLoggers\<close>.\<close>

definition closeOld :: "'w option \<Rightarrow> 'w wcall list \<Rightarrow> 'w wcall list" where
  "closeOld w tr = (case w of None \<Rightarrow> tr | Some x \<Rightarrow> WClose x # tr)"

definition ReopenContainerLog ::
    "svc \<Rightarrow> (ctr \<Rightarrow> ('w option \<times> 'w option) result) \<Rightarrow> string \<Rightarrow> ('w containerIO \<times> 'w wcall list, unit) act" where
  "ReopenContainerLog s loggers i st =
     (case Store_Get (containerStore s) i of
        Inl err \<Rightarrow> (Inl (Wrapf err ''an error occurred when try to find container %q'' [i]), st)
      | Inr container \<Rightarrow>
          if State (statusOf container s) \<noteq> RUNNING then (Inl (Errorf ''container is not running'' []), st)
          else case loggers container of
            Inl err \<Rightarrow> (Inl err, st)
          | Inr (stdoutWC, stderrWC) \<Rightarrow>
              (let ((oldStdout, oldStderr), c, tr) = AddOutput_io ''log'' stdoutWC stderrWC st
               in (Inr (), c, closeOld oldStderr (closeOld oldStdout tr))))"

text \<open>
  One direction of \<^verbatim>\<open>Pipe\<close>: \<^verbatim>\<open>io.Copy\<close> writes each chunk that it reads to the group and stops at the first error; then
  the group is closed.
\<close>

fun pipeLoop :: "'w writeResult \<Rightarrow> (('w writerGroup \<times> 'w wcall list) \<Rightarrow> string list) \<Rightarrow> string list \<Rightarrow>
    'w writerGroup \<times> 'w wcall list \<Rightarrow> unit result \<times> 'w writerGroup \<times> 'w wcall list" where
  "pipeLoop wr ord [] s = (Inr (), s)"
| "pipeLoop wr ord (p # ps) s =
     (case Group_Write wr (ord s) p s of
        (Inl err, s') \<Rightarrow> (Inl err, s')
      | (Inr _, s') \<Rightarrow> pipeLoop wr ord ps s')"

definition pipeStream :: "'w writeResult \<Rightarrow> (('w writerGroup \<times> 'w wcall list) \<Rightarrow> string list) \<Rightarrow> string list \<Rightarrow>
    'w writerGroup \<times> 'w wcall list \<Rightarrow> 'w writerGroup \<times> 'w wcall list" where
  "pipeStream wr ord ps s = (let s' = snd (pipeLoop wr ord ps s) in Group_Close (ord s') s')"

subsection \<open>What the writers see\<close>

definition writesTo :: "'w \<Rightarrow> 'w wcall list \<Rightarrow> string list" where
  "writesTo w tr = rev (List.map_filter (\<lambda>c. case c of WWrite x p \<Rightarrow> if x = w then Some p else None | WClose _ \<Rightarrow> None) tr)"

lemma writesTo_simps [simp]:
  "writesTo w [] = []"
  "writesTo w (WWrite x p # tr) = (if x = w then writesTo w tr @ [p] else writesTo w tr)"
  "writesTo w (WClose x # tr) = writesTo w tr"
  by (simp_all add: writesTo_def List.map_filter_simps)

text \<open>A closed writer is used no more: not written to and not closed again.\<close>

fun orderly :: "'w wcall list \<Rightarrow> bool" where
  "orderly [] \<longleftrightarrow> True"
| "orderly (WWrite w p # tr) \<longleftrightarrow> WClose w \<notin> set tr \<and> orderly tr"
| "orderly (WClose w # tr) \<longleftrightarrow> WClose w \<notin> set tr \<and> orderly tr"

text \<open>
  The history of a group: the chunks written to it, for each writer how many of them were written before it was added, the
  writers added, and those replaced by another under their key, which their owner has to close.
\<close>

record 'w history =
  hi_sent :: "string list"
  hi_since :: "'w \<Rightarrow> nat"
  hi_added :: "'w set"
  hi_replaced :: "'w set"

definition wg_ok :: "(string \<Rightarrow> string list) \<Rightarrow> string list \<Rightarrow> 'w history \<Rightarrow> 'w writerGroup \<times> 'w wcall list \<Rightarrow> bool" where
  "wg_ok due sent h = (\<lambda>(g, tr).
     orderly tr \<and> (wg_closed g \<longrightarrow> wg_writers g = Map.empty) \<and>
     (\<forall>k k' w. wg_writers g k = Some w \<and> wg_writers g k' = Some w \<longrightarrow> k = k') \<and>
     (\<forall>k w. wg_writers g k = Some w \<longrightarrow> w \<in> hi_added h \<and> w \<notin> hi_replaced h \<and> WClose w \<notin> set tr \<and> writesTo w tr = drop (hi_since h w) (due k)) \<and>
     (\<forall>w \<in> hi_added h. hi_since h w \<le> length (hi_sent h) \<and> prefix (writesTo w tr) (drop (hi_since h w) sent) \<and>
        ((\<exists>k. wg_writers g k = Some w) \<or> w \<in> hi_replaced h \<or> WClose w \<in> set tr)) \<and>
     (\<forall>w \<in> hi_replaced h. w \<in> hi_added h \<and> WClose w \<notin> set tr) \<and>
     (\<forall>w. w \<notin> hi_added h \<longrightarrow> WClose w \<notin> set tr \<and> writesTo w tr = []))"

abbreviation wg_inv :: "'w history \<Rightarrow> 'w writerGroup \<times> 'w wcall list \<Rightarrow> bool" where
  "wg_inv h \<equiv> wg_ok (\<lambda>_. hi_sent h) (hi_sent h) h"

inductive wg_step :: "('w writerGroup \<times> 'w wcall list) \<times> 'w history \<Rightarrow> ('w writerGroup \<times> 'w wcall list) \<times> 'w history \<Rightarrow> bool" where
  add: "w \<notin> hi_added h \<Longrightarrow> wg_step (s, h) (Group_Add key w s, h\<lparr>hi_since := (hi_since h)(w := length (hi_sent h)), hi_added := insert w (hi_added h),
    hi_replaced := hi_replaced h \<union> (if wg_closed (fst s) then {} else set_option (Group_Get key (fst s)))\<rparr>)"
| remove: "wg_step (s, h) (Group_Remove key s, h)"
| written: "enumerates (wg_writers (fst s)) order \<Longrightarrow> wg_step (s, h) (snd (Group_Write wr order p s), h\<lparr>hi_sent := hi_sent h @ [p]\<rparr>)"
| closed: "enumerates (wg_writers (fst s)) order \<Longrightarrow> wg_step (s, h) (Group_Close order s, h)"
| closeReplaced: "w \<in> hi_replaced h \<Longrightarrow> wg_step ((g, tr), h) ((g, WClose w # tr), h\<lparr>hi_replaced := hi_replaced h - {w}\<rparr>)"

definition newHistory :: "'w history" where
  "newHistory = \<lparr>hi_sent = [], hi_since = \<lambda>_. 0, hi_added = {}, hi_replaced = {}\<rparr>"

lemma wg_okD:
  assumes "wg_ok due sent h (g, tr)"
  shows "orderly tr" "wg_closed g \<Longrightarrow> wg_writers g = Map.empty"
    "wg_writers g k = Some w \<Longrightarrow> wg_writers g k' = Some w \<Longrightarrow> k' = k"
    "wg_writers g k = Some w \<Longrightarrow> w \<in> hi_added h \<and> w \<notin> hi_replaced h \<and> WClose w \<notin> set tr \<and> writesTo w tr = drop (hi_since h w) (due k)"
    "w \<in> hi_added h \<Longrightarrow> hi_since h w \<le> length (hi_sent h) \<and> prefix (writesTo w tr) (drop (hi_since h w) sent)"
    "w \<in> hi_added h \<Longrightarrow> (\<exists>k. wg_writers g k = Some w) \<or> w \<in> hi_replaced h \<or> WClose w \<in> set tr"
    "w \<in> hi_replaced h \<Longrightarrow> w \<in> hi_added h \<and> WClose w \<notin> set tr"
    "w \<notin> hi_added h \<Longrightarrow> WClose w \<notin> set tr \<and> writesTo w tr = []"
proof -
  show "wg_writers g k = Some w \<Longrightarrow> wg_writers g k' = Some w \<Longrightarrow> k' = k" using assms unfolding wg_ok_def prod.case by metis
qed (use assms in \<open>simp_all add: wg_ok_def\<close>)

lemma wg_okI:
  assumes "orderly tr" "wg_closed g \<Longrightarrow> wg_writers g = Map.empty"
    "\<And>k k' w. wg_writers g k = Some w \<Longrightarrow> wg_writers g k' = Some w \<Longrightarrow> k = k'"
    "\<And>k w. wg_writers g k = Some w \<Longrightarrow> w \<in> hi_added h \<and> w \<notin> hi_replaced h \<and> WClose w \<notin> set tr \<and> writesTo w tr = drop (hi_since h w) (due k)"
    "\<And>w. w \<in> hi_added h \<Longrightarrow> hi_since h w \<le> length (hi_sent h) \<and> prefix (writesTo w tr) (drop (hi_since h w) sent)"
    "\<And>w. w \<in> hi_added h \<Longrightarrow> (\<exists>k. wg_writers g k = Some w) \<or> w \<in> hi_replaced h \<or> WClose w \<in> set tr"
    "\<And>w. w \<in> hi_replaced h \<Longrightarrow> w \<in> hi_added h \<and> WClose w \<notin> set tr"
    "\<And>w. w \<notin> hi_added h \<Longrightarrow> WClose w \<notin> set tr \<and> writesTo w tr = []"
  shows "wg_ok due sent h (g, tr)"
  unfolding wg_ok_def prod.case using assms by (intro conjI allI impI ballI; meson)

lemma wg_ok_drop:
  assumes ok: "wg_ok due sent h (g, tr)" and w: "wg_writers g k = Some w"
  shows "wg_ok due sent h (g\<lparr>wg_writers := (wg_writers g)(k := None)\<rparr>, WClose w # tr)"
proof (rule wg_okI)
  note D = wg_okD [OF ok]
  have m: "w \<in> hi_added h" "w \<notin> hi_replaced h" "WClose w \<notin> set tr" using D(4) [OF w] by blast+
  show "orderly (WClose w # tr)" using D(1) m by simp
  show "wg_closed (g\<lparr>wg_writers := (wg_writers g)(k := None)\<rparr>) \<Longrightarrow> wg_writers (g\<lparr>wg_writers := (wg_writers g)(k := None)\<rparr>) = Map.empty"
    using D(2) by auto
  fix x
  show "x \<in> hi_added h \<Longrightarrow> hi_since h x \<le> length (hi_sent h) \<and> prefix (writesTo x (WClose w # tr)) (drop (hi_since h x) sent)"
    using D(5) by simp
  show "x \<in> hi_replaced h \<Longrightarrow> x \<in> hi_added h \<and> WClose x \<notin> set (WClose w # tr)" using D(7) [of x] m by auto
  show "x \<notin> hi_added h \<Longrightarrow> WClose x \<notin> set (WClose w # tr) \<and> writesTo x (WClose w # tr) = []" using D(8) [of x] m by auto
  show "(\<exists>k'. wg_writers (g\<lparr>wg_writers := (wg_writers g)(k := None)\<rparr>) k' = Some x) \<or> x \<in> hi_replaced h \<or> WClose x \<in> set (WClose w # tr)"
    if "x \<in> hi_added h"
  proof (cases "x = w")
    case False
    with D(6) [OF that] w show ?thesis by (metis (no_types, lifting) fun_upd_other list.set_intros(2) option.inject writerGroup.select_convs(1) writerGroup.surjective
      writerGroup.update_convs(1))
  qed simp
  fix k1 k2
  show "wg_writers (g\<lparr>wg_writers := (wg_writers g)(k := None)\<rparr>) k1 = Some x \<Longrightarrow> wg_writers (g\<lparr>wg_writers := (wg_writers g)(k := None)\<rparr>) k2 = Some x \<Longrightarrow> k1 = k2"
    using D(3) [of k2 x k1] by (simp split: if_splits)
  show "wg_writers (g\<lparr>wg_writers := (wg_writers g)(k := None)\<rparr>) k1 = Some x \<Longrightarrow>
      x \<in> hi_added h \<and> x \<notin> hi_replaced h \<and> WClose x \<notin> set (WClose w # tr) \<and> writesTo x (WClose w # tr) = drop (hi_since h x) (due k1)"
    using D(4) [of k1 x] D(3) [OF w, of k1] by (auto split: if_splits)
qed

lemma writeLoop_ok:
  assumes "wg_ok (\<lambda>k. if k \<in> set ks then hi_sent h else hi_sent h @ [p]) (hi_sent h @ [p]) h s" "distinct ks"
  shows "wg_ok (\<lambda>k. hi_sent h @ [p]) (hi_sent h @ [p]) h (writeLoop wr p ks s)"
  using assms
proof (induction wr p ks s rule: writeLoop.induct)
  case (2 wr p k ks g tr)
  let ?due = "\<lambda>ks k. if k \<in> set ks then hi_sent h else hi_sent h @ [p]"
  have k: "k \<notin> set ks" using 2(5) by simp
  show ?case
  proof (cases "wg_writers g k")
    case None
    then have "wg_ok (?due ks) (hi_sent h @ [p]) h (g, tr)" using 2(4) k by (auto simp: wg_ok_def)
    with 2(1) [OF None] 2(5) None show ?thesis by simp
  next
    case (Some w)
    obtain n failed where wr: "wr tr w p = (n, failed)" by fastforce
    have w: "w \<in> hi_added h" "w \<notin> hi_replaced h" "WClose w \<notin> set tr" "writesTo w tr = drop (hi_since h w) (hi_sent h)"
      "hi_since h w \<le> length (hi_sent h)" using 2(4) Some by (auto simp: wg_ok_def)
    then have now: "writesTo w tr @ [p] = drop (hi_since h w) (hi_sent h @ [p])" by simp
    have inj: "k' = k" if "wg_writers g k' = Some w" for k' using 2(4) Some that by (auto simp: wg_ok_def)
    have ok: "wg_ok (?due ks) (hi_sent h @ [p]) h (g, WWrite w p # tr)"
      using 2(4) w now inj k by (auto simp: wg_ok_def)
    show ?thesis
    proof (cases "\<not> failed \<and> length p = n")
      case True
      with 2(2) [OF Some refl, of n failed] ok 2(5) Some wr show ?thesis by simp
    next
      case False
      with 2(3) [OF Some refl, of n failed] wg_ok_drop [OF ok Some] 2(5) Some wr show ?thesis by auto
    qed
  qed
qed simp

lemma wg_ok_remove: "wg_ok due sent h s \<Longrightarrow> wg_ok due sent h (Group_Remove k s)"
  by (cases s) (auto simp: Group_Remove_def intro: wg_ok_drop split: option.splits)

text \<open>Closing a group is removing its writers one by one.\<close>

lemma close_removes:
  "distinct ks \<Longrightarrow> fold Group_Remove ks (g, tr) =
     (g\<lparr>wg_writers := (wg_writers g) |` (- set ks)\<rparr>, rev (map WClose (values_in (wg_writers g) ks)) @ tr)"
proof (induction ks arbitrary: g tr)
  case Nil
  show ?case by (simp add: values_in_def List.map_filter_simps)
next
  case (Cons k ks)
  have same: "values_in ((wg_writers g)(k := None)) ks = values_in (wg_writers g) ks"
    using Cons.prems by (auto simp: values_in_def List.map_filter_def intro!: map_cong filter_cong)
  have restr: "(wg_writers g)(k := None) |` (- set ks) = wg_writers g |` (- set (k # ks))"
    by (auto simp: restrict_map_def)
  show ?case
  proof (cases "wg_writers g k")
    case None
    then have "(wg_writers g) |` (- set ks) = wg_writers g |` (- set (k # ks))" by (auto simp: restrict_map_def)
    with Cons None show ?thesis by (simp add: Group_Remove_def values_in_def List.map_filter_simps)
  next
    case (Some w)
    with Cons same restr show ?thesis by (simp add: Group_Remove_def values_in_def List.map_filter_simps)
  qed
qed

lemma wg_ok_close:
  assumes ok: "wg_ok due sent h (g, tr)" and e: "enumerates (wg_writers g) order"
  shows "wg_ok due sent h (Group_Close order (g, tr))"
proof -
  have "wg_ok due sent h (fold Group_Remove ks s)" if "wg_ok due sent h s" for ks s
    using that by (induction ks arbitrary: s) (simp_all add: wg_ok_remove)
  from this [OF ok, of order] e have "wg_ok due sent h (g\<lparr>wg_writers := (wg_writers g) |` (- set order)\<rparr>, rev (map WClose (values_in (wg_writers g) order)) @ tr)"
    by (simp add: close_removes enumerates_def)
  moreover have "(wg_writers g) |` (- set order) = Map.empty" using e by (auto simp: enumerates_def restrict_map_def)
  ultimately show ?thesis by (simp add: Group_Close_def wg_ok_def)
qed

lemma wg_inv_add:
  assumes ok: "wg_inv h (g, tr)" and new: "w \<notin> hi_added h"
  shows "wg_inv (h\<lparr>hi_since := (hi_since h)(w := length (hi_sent h)), hi_added := insert w (hi_added h),
      hi_replaced := hi_replaced h \<union> (if wg_closed g then {} else set_option (Group_Get key g))\<rparr>) (Group_Add key w (g, tr))" (is "wg_inv ?h _")
proof -
  note D = wg_okD [OF ok]
  have fresh: "WClose w \<notin> set tr" "writesTo w tr = []" "w \<notin> hi_replaced h" "\<And>k. wg_writers g k \<noteq> Some w"
    using D(8) [OF new] D(7) D(4) new by blast+
  show ?thesis
  proof (cases "wg_closed g")
    case True
    have "wg_inv ?h (g, WClose w # tr)"
    proof (rule wg_okI)
      fix x
      show "x \<in> hi_added ?h \<Longrightarrow> (\<exists>k. wg_writers g k = Some x) \<or> x \<in> hi_replaced ?h \<or> WClose x \<in> set (WClose w # tr)"
        using D(6) [of x] True by auto
    qed (use D(1) D(2) [OF True] D(5,7,8) fresh True new in \<open>auto split: if_splits\<close>)
    with True show ?thesis by (simp add: Group_Add_def)
  next
    case False
    have "wg_inv ?h (g\<lparr>wg_writers := (wg_writers g)(key \<mapsto> w)\<rparr>, tr)"
    proof (rule wg_okI)
      fix x
      show "x \<in> hi_added ?h \<Longrightarrow> (\<exists>k. wg_writers (g\<lparr>wg_writers := (wg_writers g)(key \<mapsto> w)\<rparr>) k = Some x) \<or> x \<in> hi_replaced ?h \<or> WClose x \<in> set tr"
        using D(6) [of x] False by (auto simp: Group_Get_def)
      show "x \<in> hi_replaced ?h \<Longrightarrow> x \<in> hi_added ?h \<and> WClose x \<notin> set tr"
        using D(7) [of x] D(4) [of key x] False by (auto simp: Group_Get_def )
      fix k k'
      show "wg_writers (g\<lparr>wg_writers := (wg_writers g)(key \<mapsto> w)\<rparr>) k = Some x \<Longrightarrow> wg_writers (g\<lparr>wg_writers := (wg_writers g)(key \<mapsto> w)\<rparr>) k' = Some x \<Longrightarrow> k = k'"
        using D(3) [of k' x k] fresh(4) by (auto split: if_splits)
      show "wg_writers (g\<lparr>wg_writers := (wg_writers g)(key \<mapsto> w)\<rparr>) k = Some x \<Longrightarrow>
          x \<in> hi_added ?h \<and> x \<notin> hi_replaced ?h \<and> WClose x \<notin> set tr \<and> writesTo x tr = drop (hi_since ?h x) (hi_sent ?h)"
        using D(4) [of k x] D(3) [of key x k] fresh False by (auto simp: Group_Get_def  split: if_splits)
    qed (use D(1,5,8) fresh False in \<open>auto split: if_splits\<close>)
    with False show ?thesis by (simp add: Group_Add_def)
  qed
qed

lemma wg_inv_write:
  assumes ok: "wg_inv h s" and e: "enumerates (wg_writers (fst s)) order"
  shows "wg_inv (h\<lparr>hi_sent := hi_sent h @ [p]\<rparr>) (writeLoop wr p order s)"
proof -
  obtain g tr where s: "s = (g, tr)" by fastforce
  note D = wg_okD [OF ok [unfolded s]]
  have "wg_ok (\<lambda>k. if k \<in> set order then hi_sent h else hi_sent h @ [p]) (hi_sent h @ [p]) h (g, tr)"
  proof (rule wg_okI)
    fix x k
    show "wg_writers g k = Some x \<Longrightarrow> x \<in> hi_added h \<and> x \<notin> hi_replaced h \<and> WClose x \<notin> set tr \<and>
        writesTo x tr = drop (hi_since h x) (if k \<in> set order then hi_sent h else hi_sent h @ [p])"
      using D(4) [of k x] e s by (auto simp: enumerates_def)
    show "x \<in> hi_added h \<Longrightarrow> hi_since h x \<le> length (hi_sent h) \<and> prefix (writesTo x tr) (drop (hi_since h x) (hi_sent h @ [p]))"
      using D(5) [of x] by simp
  qed (use D(1,2,3,6,7,8) in blast)+
  from writeLoop_ok [OF this] e have "wg_ok (\<lambda>k. hi_sent h @ [p]) (hi_sent h @ [p]) h (writeLoop wr p order s)" by (simp add: enumerates_def s)
  then show ?thesis by (auto simp: wg_ok_def le_Suc_eq split: prod.splits)
qed

lemma wg_inv_step: "wg_step s t \<Longrightarrow> wg_inv (snd s) (fst s) \<Longrightarrow> wg_inv (snd t) (fst t)"
proof (induction rule: wg_step.induct)
  case (add w h s key)
  then show ?case using wg_inv_add [of h "fst s" "snd s" w key] by simp
next
  case (remove s h key)
  then show ?case by (simp add: wg_ok_remove)
next
  case (written s order h wr p)
  then show ?case using wg_inv_write [of h s order p wr] by (simp add: Group_Write_def case_prod_beta)
next
  case (closed s order h)
  then show ?case using wg_ok_close [of _ _ h "fst s" "snd s" order] by simp
next
  case (closeReplaced w h g tr)
  then have ok: "wg_inv h (g, tr)" by simp
  note D = wg_okD [OF ok]
  have "wg_inv (h\<lparr>hi_replaced := hi_replaced h - {w}\<rparr>) (g, WClose w # tr)"
  proof (rule wg_okI)
    fix k x
    show "wg_writers g k = Some x \<Longrightarrow> x \<in> hi_added (h\<lparr>hi_replaced := hi_replaced h - {w}\<rparr>) \<and> x \<notin> hi_replaced (h\<lparr>hi_replaced := hi_replaced h - {w}\<rparr>) \<and>
        WClose x \<notin> set (WClose w # tr) \<and> writesTo x (WClose w # tr) = drop (hi_since (h\<lparr>hi_replaced := hi_replaced h - {w}\<rparr>) x) (hi_sent (h\<lparr>hi_replaced := hi_replaced h - {w}\<rparr>))"
      using D(4) [of k x] closeReplaced(1) by auto
    show "x \<in> hi_added (h\<lparr>hi_replaced := hi_replaced h - {w}\<rparr>) \<Longrightarrow> (\<exists>k. wg_writers g k = Some x) \<or>
        x \<in> hi_replaced (h\<lparr>hi_replaced := hi_replaced h - {w}\<rparr>) \<or> WClose x \<in> set (WClose w # tr)"
      using D(6) [of x] by auto
  qed (use D(1,2,3,5,7,8) closeReplaced(1) in auto)
  then show ?case by simp
qed

interpretation wgroup: inv_system "\<lambda>s. s = ((NewWriterGroup, []), newHistory)" wg_step "\<lambda>s. wg_inv (snd s) (fst s)"
proof
  show "wg_inv (snd s) (fst s)" if "s = ((NewWriterGroup, []), newHistory)" for s :: "('w writerGroup \<times> 'w wcall list) \<times> 'w history"
    using that by (simp add: wg_ok_def NewWriterGroup_def newHistory_def)
  show "wg_inv (snd t) (fst t)" if "wg_inv (snd s) (fst s)" "wg_step s t" for s t :: "('w writerGroup \<times> 'w wcall list) \<times> 'w history"
    using wg_inv_step that by blast
qed

lemma writeLoop_outside: "k \<notin> set ks \<Longrightarrow> wg_writers (fst (writeLoop wr p ks s)) k = wg_writers (fst s) k"
  by (induction wr p ks s rule: writeLoop.induct) (auto simp: Let_def split: option.splits prod.splits)

lemma Group_Write_result:
  assumes "enumerates (wg_writers (fst s)) order"
  shows "fst (Group_Write wr order p s) =
    (if wg_writers (fst (snd (Group_Write wr order p s))) = Map.empty then Inl (Errorf ''writer group is empty'' []) else Inr (length p))"
proof -
  have "wg_writers (fst (writeLoop wr p order s)) = Map.empty \<longleftrightarrow> (\<forall>k \<in> set order. wg_writers (fst (writeLoop wr p order s)) k = None)"
    using writeLoop_outside [of _ order wr p s] assms by (auto simp: enumerates_def dom_def fun_eq_iff)
  then show ?thesis by (simp add: Group_Write_def case_prod_beta list_all_iff)
qed

text \<open>
  C38: the output of a container reaches every writer. After any sequence of operations on a group of writers, each writer in the group has been given
  exactly the chunks written to the group since it was added, in order, whatever happened to the other writers; every writer that
  was ever added has been given an initial part of them; a closed writer is never used again, neither written to nor closed a second time; and
  a writer that is in the group no more has been closed, unless another replaced it and its owner has still to close it. A write
  fails only when no writer is left.
\<close>

theorem writer_group_correct:
  assumes "wg_step\<^sup>*\<^sup>* ((NewWriterGroup, []), newHistory) ((g, tr), h)"
  shows "(\<forall>k w. wg_writers g k = Some w \<longrightarrow> WClose w \<notin> set tr \<and> writesTo w tr = drop (hi_since h w) (hi_sent h)) \<and>
    (\<forall>w \<in> hi_added h. prefix (writesTo w tr) (drop (hi_since h w) (hi_sent h)) \<and>
       ((\<exists>k. wg_writers g k = Some w) \<or> w \<in> hi_replaced h \<or> WClose w \<in> set tr)) \<and>
    (\<forall>w later earlier. tr = later @ WClose w # earlier \<longrightarrow> WClose w \<notin> set later \<and> (\<forall>p. WWrite w p \<notin> set later)) \<and>
    (\<forall>wr order p. enumerates (wg_writers g) order \<longrightarrow>
       fst (Group_Write wr order p (g, tr)) =
         (if wg_writers (fst (snd (Group_Write wr order p (g, tr)))) = Map.empty then Inl (Errorf ''writer group is empty'' []) else Inr (length p)))"
proof -
  have inv: "wg_inv h (g, tr)" using wgroup.inv_reachable [OF refl assms] by simp
  note D = wg_okD [OF inv]
  have once: "WClose w \<notin> set later \<and> (\<forall>p. WWrite w p \<notin> set later)" if "orderly (later @ WClose w # earlier)" for w later and earlier :: "'a wcall list"
    using that by (induction later) (auto elim: orderly.elims)
  show ?thesis using D once Group_Write_result [of "(g, tr)"] by (intro conjI allI impI ballI; simp; blast?)
qed

text \<open>A log and, from the second chunk on, a client whose connection breaks at once.\<close>

definition broken_client :: "nat writeResult" where
  "broken_client tr w p = (length p, w = 1)"

definition two_writers :: "(nat writerGroup \<times> nat wcall list) \<times> nat history" where
  "two_writers = ((\<lparr>wg_writers = [''log'' \<mapsto> 0], wg_closed = False\<rparr>, [WClose 1, WWrite 1 ''b'', WWrite 0 ''b'', WWrite 0 ''a'']),
     \<lparr>hi_sent = [''a'', ''b''], hi_since = (\<lambda>_. 0)(0 := 0, 1 := 1), hi_added = {1, 0}, hi_replaced = {}\<rparr>)"

lemma two_writers_reachable: "wg_step\<^sup>*\<^sup>* ((NewWriterGroup, []), newHistory) two_writers"
proof -
  let ?s1 = "((\<lparr>wg_writers = [''log'' \<mapsto> 0], wg_closed = False\<rparr>, []), \<lparr>hi_sent = [], hi_since = (\<lambda>_. 0)(0 := 0), hi_added = {0}, hi_replaced = {}\<rparr>)
    :: (nat writerGroup \<times> nat wcall list) \<times> nat history"
  let ?s2 = "((\<lparr>wg_writers = [''log'' \<mapsto> 0], wg_closed = False\<rparr>, [WWrite 0 ''a'']), \<lparr>hi_sent = [''a''], hi_since = (\<lambda>_. 0)(0 := 0), hi_added = {0}, hi_replaced = {}\<rparr>)
    :: (nat writerGroup \<times> nat wcall list) \<times> nat history"
  let ?s3 = "((\<lparr>wg_writers = [''log'' \<mapsto> 0, ''client'' \<mapsto> 1], wg_closed = False\<rparr>, [WWrite 0 ''a'']),
    \<lparr>hi_sent = [''a''], hi_since = (\<lambda>_. 0)(0 := 0, 1 := 1), hi_added = {1, 0}, hi_replaced = {}\<rparr>) :: (nat writerGroup \<times> nat wcall list) \<times> nat history"
  have "wg_step ((NewWriterGroup, []), newHistory) ?s1"
    using wg_step.add [of "0::nat" newHistory "(NewWriterGroup, [])" "''log''"]
    by (simp add: newHistory_def NewWriterGroup_def Group_Add_def Group_Get_def)
  moreover have "wg_step ?s1 ?s2"
    using wg_step.written [of "fst ?s1" "[''log'']" "snd ?s1" broken_client "''a''"]
    by (simp add: enumerates_def Group_Write_def broken_client_def)
  moreover have "wg_step ?s2 ?s3"
    using wg_step.add [of "1::nat" "snd ?s2" "fst ?s2" "''client''"] by (simp add: Group_Add_def Group_Get_def)
  moreover have "wg_step ?s3 two_writers"
    using wg_step.written [of "fst ?s3" "[''log'', ''client'']" "snd ?s3" broken_client "''b''"]
    by (simp add: enumerates_def Group_Write_def broken_client_def two_writers_def fun_upd_idem insert_commute)
  ultimately show ?thesis by (meson converse_rtranclp_into_rtranclp r_into_rtranclp)
qed

theorem writer_group_correct_witness:
  "writesTo 0 (snd (fst two_writers)) = [''a'', ''b''] \<and> prefix (writesTo 1 (snd (fst two_writers))) [''b'']"
  using writer_group_correct [OF two_writers_reachable [unfolded two_writers_def]] by (simp add: two_writers_def)

text \<open>Reopening the log of a running container: the new writers take the place of the old ones, which are closed; no other writer is affected.\<close>

definition replaceWriter :: "string \<Rightarrow> 'w option \<Rightarrow> (string \<rightharpoonup> 'w) \<Rightarrow> string \<rightharpoonup> 'w" where
  "replaceWriter k w m = (if w = None then m else m(k := w))"

lemma addStdout_open:
  assumes "\<not> wg_closed (io_stdout c)" "k = streamKey (io_id c) name ''stdout''"
  shows "addStdout name out (c, tr) = (if out = None then None else wg_writers (io_stdout c) k,
     c\<lparr>io_stdout := (io_stdout c)\<lparr>wg_writers := replaceWriter k out (wg_writers (io_stdout c))\<rparr>\<rparr>, tr)"
  using assms by (cases out) (simp_all add: addStdout_def Group_Add_def Group_Get_def replaceWriter_def Let_def)

lemma addStderr_open:
  assumes "\<not> wg_closed (io_stderr c)" "k = streamKey (io_id c) name ''stderr''"
  shows "addStderr name out (c, tr) = (if out = None then None else wg_writers (io_stderr c) k,
     c\<lparr>io_stderr := (io_stderr c)\<lparr>wg_writers := replaceWriter k out (wg_writers (io_stderr c))\<rparr>\<rparr>, tr)"
  using assms by (cases out) (simp_all add: addStderr_def Group_Add_def Group_Get_def replaceWriter_def Let_def)

lemma ReopenContainerLog_replaces:
  assumes "ReopenContainerLog s loggers i (c, tr) = (Inr (), c', tr')" "\<not> wg_closed (io_stdout c)" "\<not> wg_closed (io_stderr c)"
    and k: "ko = streamKey (io_id c) ''log'' ''stdout''" "ke = streamKey (io_id c) ''log'' ''stderr''"
  shows "\<exists>cntr out err. Store_Get (containerStore s) i = Inr cntr \<and> State (statusOf cntr s) = RUNNING \<and> loggers cntr = Inr (out, err) \<and>
     wg_writers (io_stdout c') = replaceWriter ko out (wg_writers (io_stdout c)) \<and>
     wg_writers (io_stderr c') = replaceWriter ke err (wg_writers (io_stderr c)) \<and>
     tr' = closeOld (if err = None then None else wg_writers (io_stderr c) ke)
             (closeOld (if out = None then None else wg_writers (io_stdout c) ko) tr)"
proof -
  obtain cntr out err where c: "Store_Get (containerStore s) i = Inr cntr" "State (statusOf cntr s) = RUNNING" "loggers cntr = Inr (out, err)"
    using assms(1) by (auto simp: ReopenContainerLog_def split: sum.splits if_splits)
  then have "(c', tr') = (let ((oldStdout, oldStderr), c, tr) = AddOutput_io ''log'' out err (c, tr) in (c, closeOld oldStderr (closeOld oldStdout tr)))"
    using assms(1) by (simp add: ReopenContainerLog_def Let_def case_prod_beta)
  moreover have "AddOutput_io ''log'' out err (c, tr) =
      ((if out = None then None else wg_writers (io_stdout c) ko, if err = None then None else wg_writers (io_stderr c) ke),
       c\<lparr>io_stdout := (io_stdout c)\<lparr>wg_writers := replaceWriter ko out (wg_writers (io_stdout c))\<rparr>,
         io_stderr := (io_stderr c)\<lparr>wg_writers := replaceWriter ke err (wg_writers (io_stderr c))\<rparr>\<rparr>, tr)"
    unfolding AddOutput_io_def addStdout_open [OF assms(2) k(1)] Let_def prod.case
    by (subst addStderr_open [where k = ke]) (simp_all add: assms(3) k(2))
  ultimately show ?thesis using c by (intro exI [of _ cntr] exI [of _ out] exI [of _ err]) simp
qed

end
