(* ===== verification/Stats.thy ===== *)
theory Stats
  imports Queries
begin

section \<open>Disk usage and statistics\<close>

text \<open>
  \<^verbatim>\<open>pkg/store/snapshot\<close>, \<^verbatim>\<open>snapshots.go\<close>, \<^verbatim>\<open>imagefs_info.go\<close> and \<^verbatim>\<open>container_stats*.go\<close>: a syncer copies the usage of containerd's snapshots into a
  cache every few seconds, and the requests for the usage of the image file system and of containers read the cache. In one
  round \<open>walk\<close> is what \<^verbatim>\<open>Walk\<close> reports, \<open>usage\<close> what \<^verbatim>\<open>Usage\<close> returns, and \<open>clock k\<close> the \<open>k\<close>-th reading of
  the clock, the first at the start. The metrics of a task are those of the v1 or v2 hierarchy of cgroups, or something else.
\<close>

datatype snapshotKind = KindUnknown | KindView | KindActive | KindCommitted

record snapshot =
  sn_Key :: string
  sn_Kind :: snapshotKind
  sn_Size :: "64 word"
  sn_Inodes :: "64 word"
  sn_Timestamp :: int

type_synonym snapshotStore = "string \<rightharpoonup> snapshot"

subsection \<open>The cache\<close>

definition Snapshot_Add :: "snapshot \<Rightarrow> snapshotStore \<Rightarrow> snapshotStore" where
  "Snapshot_Add sn m = m(sn_Key sn \<mapsto> sn)"

definition Snapshot_Get :: "string \<Rightarrow> snapshotStore \<Rightarrow> snapshot result" where
  "Snapshot_Get key m = (case m key of Some sn \<Rightarrow> Inr sn | None \<Rightarrow> Inl ErrNotExist)"

definition Snapshot_List :: "string list \<Rightarrow> snapshotStore \<Rightarrow> snapshot list" where
  "Snapshot_List order m = values_in m order"

definition Snapshot_Delete :: "string \<Rightarrow> snapshotStore \<Rightarrow> snapshotStore" where
  "Snapshot_Delete key m = m(key := None)"

subsection \<open>One round of the syncer\<close>

definition syncOne :: "int \<Rightarrow> (string \<Rightarrow> (int \<times> int) result) \<Rightarrow> string \<Rightarrow> snapshotKind \<Rightarrow> snapshotStore \<Rightarrow> snapshotStore" where
  "syncOne now usage name kind m =
     (let fetch =
        (case usage name of
           Inl err \<Rightarrow> m
         | Inr (size', inodes) \<Rightarrow>
             Snapshot_Add \<lparr>sn_Key = name, sn_Kind = kind, sn_Size = word_of_int size', sn_Inodes = word_of_int inodes, sn_Timestamp = now\<rparr> m)
      in case Snapshot_Get name m of
           Inr sn \<Rightarrow> (if sn_Kind sn = kind \<and> sn_Kind sn \<noteq> KindActive then Snapshot_Add (sn\<lparr>sn_Timestamp := now\<rparr>) m else fetch)
         | Inl _ \<Rightarrow> fetch)"

fun syncLoop :: "(nat \<Rightarrow> int) \<Rightarrow> (string \<Rightarrow> (int \<times> int) result) \<Rightarrow> nat \<Rightarrow> (string \<times> snapshotKind) list \<Rightarrow> snapshotStore \<Rightarrow> snapshotStore" where
  "syncLoop clock usage k [] m = m"
| "syncLoop clock usage k ((name, kind) # infos) m = syncLoop clock usage (Suc k) infos (syncOne (clock k) usage name kind m)"

fun dropStale :: "int \<Rightarrow> snapshot list \<Rightarrow> snapshotStore \<Rightarrow> snapshotStore" where
  "dropStale start [] m = m"
| "dropStale start (sn # sns) m = dropStale start sns (if start \<le> sn_Timestamp sn then m else Snapshot_Delete (sn_Key sn) m)"

definition sync :: "(nat \<Rightarrow> int) \<Rightarrow> (string \<times> snapshotKind) list result \<Rightarrow> (string \<Rightarrow> (int \<times> int) result) \<Rightarrow> string list \<Rightarrow>
    (snapshotStore, unit) act" where
  "sync clock walk usage order m =
     (case walk of
        Inl err \<Rightarrow> (Inl (Wrapf err ''walk all snapshots failed'' []), m)
      | Inr infos \<Rightarrow>
          (let m1 = syncLoop clock usage 1 infos m in (Inr (), dropStale (clock 0) (Snapshot_List order m1) m1)))"

subsection \<open>The image file system\<close>

record filesystemUsage =
  fs_Timestamp :: int
  fs_UsedBytes :: "64 word"
  fs_InodesUsed :: "64 word"

fun sumUsage :: "snapshot list \<Rightarrow> filesystemUsage \<Rightarrow> filesystemUsage" where
  "sumUsage [] u = u"
| "sumUsage (sn # sns) u =
     sumUsage sns \<lparr>fs_Timestamp = (if sn_Timestamp sn < fs_Timestamp u then sn_Timestamp sn else fs_Timestamp u),
       fs_UsedBytes = fs_UsedBytes u + sn_Size sn, fs_InodesUsed = fs_InodesUsed u + sn_Inodes sn\<rparr>"

definition ImageFsInfo :: "int \<Rightarrow> string list \<Rightarrow> snapshotStore \<Rightarrow> filesystemUsage" where
  "ImageFsInfo now order m = sumUsage (Snapshot_List order m) \<lparr>fs_Timestamp = now, fs_UsedBytes = 0, fs_InodesUsed = 0\<rparr>"

subsection \<open>Container statistics\<close>

record memoryV1 =
  m1_Usage :: "64 word option"
  m1_TotalInactiveFile :: "64 word"

record memoryV2 =
  m2_Usage :: "64 word"
  m2_InactiveFile :: "64 word"

text \<open>For v1 the CPU part is the total usage, if both the CPU section and its usage are there.\<close>

datatype taskMetrics = MetricsV1 "64 word option" "memoryV1 option" | MetricsV2 "64 word option" "memoryV2 option" | MetricsOther

record metric =
  mt_ID :: string
  mt_Timestamp :: int
  mt_Data :: "taskMetrics result"

record containerStats =
  cs_Id :: string
  cs_WritableLayer :: filesystemUsage
  cs_Cpu :: "(int \<times> 64 word) option"
  cs_Memory :: "(int \<times> 64 word) option"

definition getWorkingSet :: "memoryV1 \<Rightarrow> 64 word" where
  "getWorkingSet m =
     (case m1_Usage m of None \<Rightarrow> 0 | Some u \<Rightarrow> if m1_TotalInactiveFile m < u then u - m1_TotalInactiveFile m else 0)"

definition getWorkingSetV2 :: "memoryV2 \<Rightarrow> 64 word" where
  "getWorkingSetV2 m = (if m2_InactiveFile m < m2_Usage m then m2_Usage m - m2_InactiveFile m else 0)"

definition containerMetrics :: "snapshotStore \<Rightarrow> string \<Rightarrow> metric option \<Rightarrow> containerStats result" where
  "containerMetrics m i stats =
     (let layer = (case Snapshot_Get i m of
                     Inr sn \<Rightarrow> \<lparr>fs_Timestamp = sn_Timestamp sn, fs_UsedBytes = sn_Size sn, fs_InodesUsed = sn_Inodes sn\<rparr>
                   | Inl _ \<Rightarrow> \<lparr>fs_Timestamp = 0, fs_UsedBytes = 0, fs_InodesUsed = 0\<rparr>);
          cs = \<lparr>cs_Id = i, cs_WritableLayer = layer, cs_Cpu = None, cs_Memory = None\<rparr>
      in case stats of
           None \<Rightarrow> Inr cs
         | Some st \<Rightarrow>
             (case mt_Data st of
                Inl err \<Rightarrow> Inl (Wrapf err ''failed to extract container metrics'' [])
              | Inr (MetricsV1 cpu mem) \<Rightarrow>
                  Inr (cs\<lparr>cs_Cpu := map_option (\<lambda>v. (mt_Timestamp st, v)) cpu,
                         cs_Memory := (case mem of
                            Some mv \<Rightarrow> if m1_Usage mv = None then None else Some (mt_Timestamp st, getWorkingSet mv) | None \<Rightarrow> None)\<rparr>)
              | Inr (MetricsV2 usec mem) \<Rightarrow>
                  Inr (cs\<lparr>cs_Cpu := map_option (\<lambda>v. (mt_Timestamp st, v * 1000)) usec,
                         cs_Memory := map_option (\<lambda>mv. (mt_Timestamp st, getWorkingSetV2 mv)) mem\<rparr>)
              | Inr MetricsOther \<Rightarrow> Inl (Errorf ''unxpected metrics type: %v'' [])))"

text \<open>\<open>tasks\<close> answers a request for metrics, given its filters.\<close>

definition ContainerStats :: "svc \<Rightarrow> snapshotStore \<Rightarrow> (string list \<Rightarrow> metric list result) \<Rightarrow> string \<Rightarrow> containerStats result" where
  "ContainerStats s m tasks i =
     (case Store_Get (containerStore s) i of
        Inl err \<Rightarrow> Inl (Wrapf err ''failed to find container'' [])
      | Inr cntr \<Rightarrow>
          (case tasks [''id=='' @ c_ID cntr] of
             Inl err \<Rightarrow> Inl (Wrapf err ''failed to fetch metrics for task'' [])
           | Inr [st] \<Rightarrow>
               (case containerMetrics m (c_ID cntr) (Some st) of
                  Inl err \<Rightarrow> Inl (Wrapf err ''failed to decode container metrics'' [])
                | Inr cs \<Rightarrow> Inr cs)
           | Inr _ \<Rightarrow> Inl (Errorf ''unexpected metrics response: %+v'' [])))"

record statsFilter =
  tf_Id :: string
  tf_PodSandboxId :: string
  tf_LabelSelector :: "(string \<times> string) list"

definition normalizeContainerStatsFilter :: "svc \<Rightarrow> statsFilter \<Rightarrow> statsFilter" where
  "normalizeContainerStatsFilter s filt =
     (let f1 = (case Store_Get (containerStore s) (tf_Id filt) of Inl _ \<Rightarrow> filt | Inr cntr \<Rightarrow> filt\<lparr>tf_Id := c_ID cntr\<rparr>)
      in case Sandbox_Get (sandboxStore s) (tf_PodSandboxId f1) of Inl _ \<Rightarrow> f1 | Inr sb \<Rightarrow> f1\<lparr>tf_PodSandboxId := sb_ID sb\<rparr>)"

fun matchLabelSelector :: "(string \<times> string) list \<Rightarrow> labels \<Rightarrow> bool" where
  "matchLabelSelector [] got = True"
| "matchLabelSelector ((k, v) # sel) got = (case got k of None \<Rightarrow> False | Some val \<Rightarrow> if v \<noteq> val then False else matchLabelSelector sel got)"

definition configLabels :: "ctr \<Rightarrow> labels" where
  "configLabels c = (case m_Config (c_meta c) of None \<Rightarrow> Map.empty | Some cfg \<Rightarrow> cc_Labels cfg)"

definition statsPasses :: "statsFilter \<Rightarrow> ctr \<Rightarrow> bool" where
  "statsPasses f cntr \<longleftrightarrow>
     \<not> (tf_Id f \<noteq> [] \<and> c_ID cntr \<noteq> tf_Id f) \<and> \<not> (tf_PodSandboxId f \<noteq> [] \<and> m_SandboxID (c_meta cntr) \<noteq> tf_PodSandboxId f) \<and>
     matchLabelSelector (tf_LabelSelector f) (configLabels cntr)"

definition buildTaskMetricsRequest :: "svc \<Rightarrow> string list \<Rightarrow> statsFilter option \<Rightarrow> string list \<times> ctr list" where
  "buildTaskMetricsRequest s order filt =
     (case filt of
        None \<Rightarrow> ([], [])
      | Some f0 \<Rightarrow>
          (let containers = filter (statsPasses (normalizeContainerStatsFilter s f0)) (Store_List order (containerStore s))
           in (map (\<lambda>c. ''id=='' @ c_ID c) containers, containers)))"

definition metricOf :: "metric list \<Rightarrow> string \<Rightarrow> metric option" where
  "metricOf stats i = map_of (rev (map (\<lambda>st. (mt_ID st, st)) stats)) i"

fun toCRIContainerStats :: "snapshotStore \<Rightarrow> metric list \<Rightarrow> ctr list \<Rightarrow> containerStats list result" where
  "toCRIContainerStats m stats [] = Inr []"
| "toCRIContainerStats m stats (cntr # cs) =
     (case containerMetrics m (c_ID cntr) (metricOf stats (c_ID cntr)) of
        Inl err \<Rightarrow> Inl (Wrapf err ''failed to decode container metrics for %q'' [c_ID cntr])
      | Inr st \<Rightarrow> (case toCRIContainerStats m stats cs of Inl err \<Rightarrow> Inl err | Inr sts \<Rightarrow> Inr (st # sts)))"

definition ListContainerStats ::
    "svc \<Rightarrow> snapshotStore \<Rightarrow> (string list \<Rightarrow> metric list result) \<Rightarrow> string list \<Rightarrow> statsFilter option \<Rightarrow> containerStats list result" where
  "ListContainerStats s m tasks order filt =
     (let (filters, containers) = buildTaskMetricsRequest s order filt in
      case tasks filters of
        Inl err \<Rightarrow> Inl (Wrapf err ''failed to fetch metrics for tasks'' [])
      | Inr stats \<Rightarrow>
          (case toCRIContainerStats m stats containers of
             Inl err \<Rightarrow> Inl (Wrapf err ''failed to convert to cri containerd stats format'' [])
           | Inr sts \<Rightarrow> Inr sts))"

subsection \<open>The cache follows containerd\<close>

definition keyed :: "snapshotStore \<Rightarrow> bool" where
  "keyed m \<longleftrightarrow> (\<forall>k sn. m k = Some sn \<longrightarrow> sn_Key sn = k)"

definition entryAfter :: "int \<Rightarrow> (string \<Rightarrow> (int \<times> int) result) \<Rightarrow> string \<Rightarrow> snapshotKind \<Rightarrow> snapshot option \<Rightarrow> snapshot option" where
  "entryAfter now usage name kind old =
     (case old of
        Some sn \<Rightarrow> if sn_Kind sn = kind \<and> kind \<noteq> KindActive then Some (sn\<lparr>sn_Timestamp := now\<rparr>)
          else (case usage name of Inl _ \<Rightarrow> old
            | Inr (a, b) \<Rightarrow> Some \<lparr>sn_Key = name, sn_Kind = kind, sn_Size = word_of_int a, sn_Inodes = word_of_int b, sn_Timestamp = now\<rparr>)
      | None \<Rightarrow> (case usage name of Inl _ \<Rightarrow> old
            | Inr (a, b) \<Rightarrow> Some \<lparr>sn_Key = name, sn_Kind = kind, sn_Size = word_of_int a, sn_Inodes = word_of_int b, sn_Timestamp = now\<rparr>))"

lemma syncOne_entry:
  assumes "keyed m"
  shows "syncOne now usage name kind m = m(name := entryAfter now usage name kind (m name))"
  using assms
  by (auto simp: syncOne_def Snapshot_Get_def Snapshot_Add_def entryAfter_def keyed_def Let_def fun_upd_idem_iff split: option.splits sum.splits)

lemma keyed_entry: "keyed m \<Longrightarrow> keyed (m(name := entryAfter now usage name kind (m name)))"
  by (auto simp: keyed_def entryAfter_def split: option.splits sum.splits if_splits)

lemma syncLoop_spec:
  assumes "keyed m" "distinct (map fst infos)"
  shows "keyed (syncLoop clock usage k infos m) \<and>
    (x \<notin> fst ` set infos \<longrightarrow> syncLoop clock usage k infos m x = m x) \<and>
    ((x, kind) \<in> set infos \<longrightarrow> (\<exists>j. syncLoop clock usage k infos m x = entryAfter (clock j) usage x kind (m x)))"
  using assms
proof (induction clock usage k infos m rule: syncLoop.induct)
  case (2 clock usage k name kind' infos m)
  let ?m = "m(name := entryAfter (clock k) usage name kind' (m name))"
  have m: "syncOne (clock k) usage name kind' m = ?m" by (rule syncOne_entry [OF 2(2)])
  have IH: "keyed (syncLoop clock usage (Suc k) infos ?m)"
      "x \<notin> fst ` set infos \<longrightarrow> syncLoop clock usage (Suc k) infos ?m x = ?m x"
      "(x, kind) \<in> set infos \<longrightarrow> (\<exists>j. syncLoop clock usage (Suc k) infos ?m x = entryAfter (clock j) usage x kind (?m x))"
    using 2(1) [unfolded m, OF keyed_entry [OF 2(2)]] 2(3) unfolding list.map distinct.simps by blast+
  have name: "name \<notin> fst ` set infos" using 2(3) by simp
  show ?case
  proof (cases "x = name")
    case True
    then have "(x, kind) \<notin> set infos" using name by force
    then show ?thesis using True IH(1,2) name m by auto
  next
    case False
    then show ?thesis using IH m by auto
  qed
qed simp

lemma dropStale_spec:
  "dropStale start sns m x = (if \<exists>sn \<in> set sns. sn_Key sn = x \<and> sn_Timestamp sn < start then None else m x)"
  by (induction start sns m rule: dropStale.induct) (auto simp: Snapshot_Delete_def)

lemma dropStale_list:
  assumes "keyed m" "enumerates m order"
  shows "dropStale start (Snapshot_List order m) m x = Option.bind (m x) (\<lambda>sn. if start \<le> sn_Timestamp sn then Some sn else None)"
proof -
  have "set (Snapshot_List order m) = ran m" unfolding Snapshot_List_def by (rule values_in_enumerates [OF assms(2)])
  then have "(\<exists>sn \<in> set (Snapshot_List order m). sn_Key sn = x \<and> sn_Timestamp sn < start) \<longleftrightarrow> (\<exists>sn. m x = Some sn \<and> sn_Timestamp sn < start)"
    using assms(1) by (fastforce simp: ran_def keyed_def)
  then show ?thesis by (auto simp: dropStale_spec split: option.splits bind_splits)
qed

text \<open>What the cache should say about a snapshot, without the time: its kind and its usage, read anew if it is active or was not known.\<close>

definition content :: "snapshot \<Rightarrow> snapshotKind \<times> 64 word \<times> 64 word" where
  "content sn = (sn_Kind sn, sn_Size sn, sn_Inodes sn)"

definition synced :: "(string \<Rightarrow> (int \<times> int) result) \<Rightarrow> (string \<times> snapshotKind) list \<Rightarrow> snapshotStore \<Rightarrow> string \<Rightarrow> (snapshotKind \<times> 64 word \<times> 64 word) option" where
  "synced usage infos m x =
     (case map_of infos x of
        None \<Rightarrow> None
      | Some kind \<Rightarrow>
          if kind \<noteq> KindActive \<and> map_option sn_Kind (m x) = Some kind then map_option content (m x)
          else (case usage x of Inl _ \<Rightarrow> None | Inr (a, b) \<Rightarrow> Some (kind, word_of_int a, word_of_int b)))"

lemma sync_spec:
  assumes m: "keyed m" "\<forall>k sn. m k = Some sn \<longrightarrow> sn_Timestamp sn < clock 0" and infos: "distinct (map fst infos)"
    and clock: "\<forall>j. clock 0 \<le> clock j" and order: "enumerates (syncLoop clock usage 1 infos m) order"
    and run: "sync clock (Inr infos) usage order m = (r, m')"
  shows "r = Inr ()" "keyed m'" "map_option content (m' x) = synced usage infos m x" "m' x = Some sn \<Longrightarrow> clock 0 \<le> sn_Timestamp sn"
proof -
  let ?m1 = "syncLoop clock usage 1 infos m"
  have k1: "keyed ?m1" using syncLoop_spec [OF m(1) infos] by blast
  have m': "m' x = Option.bind (?m1 x) (\<lambda>sn. if clock 0 \<le> sn_Timestamp sn then Some sn else None)" for x
    using run dropStale_list [OF k1 order] by (auto simp: sync_def Let_def)
  show "r = Inr ()" using run by (simp add: sync_def Let_def)
  show "keyed m'" using k1 unfolding keyed_def m' by (auto split: bind_splits if_splits)
  show "m' x = Some sn \<Longrightarrow> clock 0 \<le> sn_Timestamp sn" unfolding m' by (auto split: bind_splits if_splits)
  show "map_option content (m' x) = synced usage infos m x"
  proof (cases "map_of infos x")
    case None
    then have "x \<notin> fst ` set infos" by (simp add: map_of_eq_None_iff)
    then have "?m1 x = m x" using syncLoop_spec [OF m(1) infos] by blast
    then have "m' x = None" using m(2) unfolding m' by (cases "m x") fastforce+
    then show ?thesis using None by (simp add: synced_def)
  next
    case (Some kind)
    then have "(x, kind) \<in> set infos" by (rule map_of_SomeD)
    then obtain j where j: "?m1 x = entryAfter (clock j) usage x kind (m x)" using syncLoop_spec [OF m(1) infos] by blast
    have late: "clock 0 \<le> clock j" "\<And>sn. m x = Some sn \<Longrightarrow> \<not> clock 0 \<le> sn_Timestamp sn" using clock m(2) by (auto simp: not_le)
    show ?thesis
      using late unfolding m' j synced_def Some entryAfter_def content_def by (auto split: option.splits sum.splits bind_splits)
  qed
qed

subsection \<open>Sums\<close>

lemma sumUsage_sums:
  "fs_UsedBytes (sumUsage sns u) = fs_UsedBytes u + sum_list (map sn_Size sns)"
  "fs_InodesUsed (sumUsage sns u) = fs_InodesUsed u + sum_list (map sn_Inodes sns)"
  by (induction sns u rule: sumUsage.induct) (simp_all add: add.assoc)

lemma sumUsage_time:
  "fs_Timestamp (sumUsage sns u) \<le> fs_Timestamp u"
  "sn \<in> set sns \<Longrightarrow> fs_Timestamp (sumUsage sns u) \<le> sn_Timestamp sn"
  "t \<le> fs_Timestamp u \<Longrightarrow> \<forall>sn \<in> set sns. t \<le> sn_Timestamp sn \<Longrightarrow> t \<le> fs_Timestamp (sumUsage sns u)"
proof (induction sns u rule: sumUsage.induct)
  case (2 x sns u)
  note IH = 2
  { case 1 show ?case using IH(1) by (simp split: if_splits)
  next case 2 then show ?case using IH(2) IH(1) by (auto split: if_splits)
  next case 3 then show ?case using IH(3) by simp }
qed simp_all

lemma unat_sum_list: "unat (sum_list ws :: 64 word) = sum_list (map unat ws) mod 2 ^ 64"
  by (induction ws) (simp_all add: unat_word_ariths mod_simps)

lemma sum_values:
  assumes "enumerates m order"
  shows "sum_list (map f (values_in m order)) = (\<Sum>x \<in> dom m. f (the (m x)))"
proof -
  have "filter (\<lambda>x. m x \<noteq> None) order = order" using assms by (auto simp: enumerates_def filter_id_conv)
  then have "map f (values_in m order) = map (\<lambda>x. f (the (m x))) order" by (simp add: values_in_def List.map_filter_def)
  then show ?thesis using assms by (simp add: enumerates_def sum_list_distinct_conv_sum_set)
qed

lemma working_set: "unat (getWorkingSetV2 m) = unat (m2_Usage m) - unat (m2_InactiveFile m)"
  "m1_Usage m1 = Some u \<Longrightarrow> unat (getWorkingSet m1) = unat u - unat (m1_TotalInactiveFile m1)"
  by (auto simp: getWorkingSetV2_def getWorkingSet_def unat_sub word_less_nat_alt word_le_nat_alt not_less)


text \<open>A request without a filter is answered with no statistics at all.\<close>

lemma stats_unfiltered: "tasks [] = Inr stats \<Longrightarrow> ListContainerStats s m tasks order None = Inr []"
  by (simp add: ListContainerStats_def buildTaskMetricsRequest_def)

definition two_snapshots :: "(string \<times> snapshotKind) list" where
  "two_snapshots = [(''layer'', KindCommitted), (''c1'', KindActive)]"

definition old_cache :: snapshotStore where
  "old_cache = [''layer'' \<mapsto> \<lparr>sn_Key = ''layer'', sn_Kind = KindCommitted, sn_Size = 100, sn_Inodes = 3, sn_Timestamp = 5\<rparr>,
     ''gone'' \<mapsto> \<lparr>sn_Key = ''gone'', sn_Kind = KindActive, sn_Size = 7, sn_Inodes = 1, sn_Timestamp = 5\<rparr>]"

definition new_cache :: snapshotStore where
  "new_cache = snd (sync (\<lambda>k. 10 + int k) (Inr two_snapshots) (\<lambda>_. Inr (20, 2)) [''layer'', ''gone'', ''c1''] old_cache)"


end
