(* ===== verification/HttpStream.thy ===== *)
theory HttpStream
  imports Paths
begin

section \<open>Streams of an upgraded connection\<close>

text \<open>
  What the negotiation of streams shares between remote commands and port forwarding: a stream of an upgraded HTTP
  connection with its identifier and its headers, the header names of the Kubernetes API, the parsing of unsigned and
  signed numbers, and the choice of a subprotocol (\<^verbatim>\<open>k8s.io/apimachinery/pkg/util/httpstream\<close>).
\<close>

record httpStream =
  hs_Identifier :: "32 word"
  hs_Headers :: "(string \<times> string) list"

text \<open>\<^verbatim>\<open>stream.Headers().Get(key)\<close>: the empty string for a header that is not there.\<close>

definition Headers_Get :: "httpStream \<Rightarrow> string \<Rightarrow> string" where
  "Headers_Get s key = (case map_of (hs_Headers s) key of None \<Rightarrow> [] | Some v \<Rightarrow> v)"

abbreviation StreamType :: string where "StreamType \<equiv> ''streamType''"
abbreviation StreamTypeStdin :: string where "StreamTypeStdin \<equiv> ''stdin''"
abbreviation StreamTypeStdout :: string where "StreamTypeStdout \<equiv> ''stdout''"
abbreviation StreamTypeStderr :: string where "StreamTypeStderr \<equiv> ''stderr''"
abbreviation StreamTypeData :: string where "StreamTypeData \<equiv> ''data''"
abbreviation StreamTypeError :: string where "StreamTypeError \<equiv> ''error''"
abbreviation StreamTypeResize :: string where "StreamTypeResize \<equiv> ''resize''"
abbreviation PortHeader :: string where "PortHeader \<equiv> ''port''"
abbreviation PortForwardRequestIDHeader :: string where "PortForwardRequestIDHeader \<equiv> ''requestID''"

text \<open>
  \<^verbatim>\<open>strconv.ParseUint(s, 10, bits)\<close>, and \<^verbatim>\<open>strconv.ParseInt(s, 10, bits)\<close> whose value is there beside the error: zero after
  a syntax error and the nearest number of the range after a range error.
\<close>

definition ParseUint :: "nat \<Rightarrow> string \<Rightarrow> int result" where
  "ParseUint bits s =
     (if s = [] \<or> \<not> list_all isDigit s then Inl (Errorf ''strconv.ParseUint: parsing %q: invalid syntax'' [s])
      else if 2 ^ bits \<le> digitsValue s then Inl (Errorf ''strconv.ParseUint: parsing %q: value out of range'' [s])
      else Inr (digitsValue s))"

definition ParseInt :: "nat \<Rightarrow> string \<Rightarrow> int \<times> goerror option" where
  "ParseInt bits s =
     (let neg = (s \<noteq> [] \<and> hd s = CHR ''-'');
          ds = (if s \<noteq> [] \<and> hd s \<in> {CHR ''-'', CHR ''+''} then tl s else s);
          v = (if neg then - digitsValue ds else digitsValue ds)
      in if ds = [] \<or> \<not> list_all isDigit ds then (0, Some (Errorf ''strconv.ParseInt: parsing %q: invalid syntax'' [s]))
         else if v < - (2 ^ (bits - 1)) then (- (2 ^ (bits - 1)), Some (Errorf ''strconv.ParseInt: parsing %q: value out of range'' [s]))
         else if 2 ^ (bits - 1) \<le> v then (2 ^ (bits - 1) - 1, Some (Errorf ''strconv.ParseInt: parsing %q: value out of range'' [s]))
         else (v, None))"

text \<open>A number that the narrower unsigned parser accepts is the same number to the wider signed one.\<close>

lemma isDigit_value: "isDigit c \<Longrightarrow> 0 \<le> (of_char c - 48 :: int)"
proof -
  assume "isDigit c"
  then have "48 \<le> (of_char c :: nat)" by (simp add: isDigit_def)
  moreover have "(of_char c :: int) = int (of_char c)" by (simp only: of_nat_of_char)
  ultimately show ?thesis by linarith
qed

lemma digitsValue_nonneg: "list_all isDigit s \<Longrightarrow> 0 \<le> digitsValue s"
proof -
  have "0 \<le> a \<Longrightarrow> list_all isDigit s \<Longrightarrow> 0 \<le> foldl (\<lambda>a c. 10 * a + (of_char c - 48)) a s" for a :: int
  proof (induction s arbitrary: a)
    case (Cons c s)
    have c: "isDigit c" "list_all isDigit s" using Cons.prems(2) by simp_all
    have "0 \<le> 10 * a + (of_char c - 48)" using isDigit_value [OF c(1)] Cons.prems(1) by linarith
    from Cons.IH [OF this c(2)] show ?case by (simp only: foldl_Cons)
  qed simp
  then show "list_all isDigit s \<Longrightarrow> 0 \<le> digitsValue s" by (simp only: digitsValue_def)
qed

lemma ParseInt_of_ParseUint:
  assumes "ParseUint m s = Inr v" "m < n"
  shows "ParseInt n s = (v, None)" "0 \<le> v" "v < 2 ^ m"
proof -
  have s: "s \<noteq> []" "list_all isDigit s" "v = digitsValue s" "v < 2 ^ m" using assms(1) by (auto simp: ParseUint_def split: if_splits)
  then have "isDigit (hd s)" by (cases s) auto
  then have sign: "hd s \<noteq> CHR ''-''" "hd s \<noteq> CHR ''+''" by (auto simp: isDigit_def)
  show nn: "0 \<le> v" using s digitsValue_nonneg by simp
  have "(2::int) ^ m \<le> 2 ^ (n - 1)" using assms(2) by (intro power_increasing) auto
  then have "\<not> 2 ^ (n - 1) \<le> v" using s(4) by linarith
  moreover have "\<not> v < - (2 ^ (n - 1))" using nn by (simp add: not_less) (meson nn neg_le_0_iff_le order_trans zero_le_power zero_le_numeral)
  ultimately show "ParseInt n s = (v, None)" using s sign by (simp add: ParseInt_def Let_def)
  show "v < 2 ^ m" by (rule s(4))
qed

subsection \<open>Choosing a subprotocol\<close>

text \<open>\<open>offered\<close> are the non-empty values of the \<^verbatim>\<open>X-Stream-Protocol-Version\<close> header.\<close>

fun negotiateProtocol :: "string list \<Rightarrow> string list \<Rightarrow> string" where
  "negotiateProtocol [] serverProtocols = []"
| "negotiateProtocol (c # cs) serverProtocols = (if c \<in> set serverProtocols then c else negotiateProtocol cs serverProtocols)"

definition Handshake :: "string list \<Rightarrow> string list \<Rightarrow> string result" where
  "Handshake offered serverProtocols =
     (if offered = [] then Inl (Errorf ''unable to upgrade: %s is required'' [''X-Stream-Protocol-Version''])
      else let negotiatedProtocol = negotiateProtocol offered serverProtocols in
        if negotiatedProtocol = [] then
          Inl (Errorf ''unable to upgrade: unable to negotiate protocol: client supports %v, server accepts %v'' [Join offered '' '', Join serverProtocols '' ''])
        else Inr negotiatedProtocol)"

lemma negotiateProtocol_first:
  "negotiateProtocol cs ss = (case filter (\<lambda>c. c \<in> set ss) cs of [] \<Rightarrow> [] | c # _ \<Rightarrow> c)"
  by (induction cs) auto

lemma negotiateProtocol_mem: "negotiateProtocol cs ss = [] \<or> negotiateProtocol cs ss \<in> set cs \<inter> set ss"
  by (induction cs) auto

lemma Handshake_Inr: "Handshake cs ss = Inr p \<Longrightarrow> p \<in> set cs \<and> p \<in> set ss \<and> p \<noteq> []"
  using negotiateProtocol_mem [of cs ss] by (auto simp: Handshake_def Let_def split: if_splits)

end
