(* ===== verification/PortForwardStreams.thy ===== *)
theory PortForwardStreams
  imports HttpStream StreamServer
begin

section \<open>Port forwarding streams\<close>

text \<open>
  \<^verbatim>\<open>pkg/streaming/portforward/httpstream.go\<close>: over one connection a client forwards any number of connections, each with a data and an
  error stream that carry the same request id. Four kinds of goroutines run at once: the connection, which checks the headers
  of a new stream and puts it into a channel (\<^verbatim>\<open>httpStreamReceived\<close>); the loop \<^verbatim>\<open>run\<close>, which puts streams into pairs; a monitor per
  pair, which removes the pair when it is complete or too late; and a forwarder per complete pair. Pairs are shared, so
  they live in a heap. A move of \<open>pf_move\<close> is what one goroutine does without another in between: what it does under a lock, or one
  receive from a channel. Writing to the channel of streams, of capacity one, blocks when it is full.
\<close>

definition httpStreamReceived :: "httpStream \<Rightarrow> unit result" where
  "httpStreamReceived stream =
     (let portString = Headers_Get stream PortHeader in
      if portString = [] then Inl (Errorf ''%q header is required'' [PortHeader])
      else case ParseUint 16 portString of
        Inl err \<Rightarrow> Inl (Errorf ''unable to parse %q as a port: %v'' [portString, Error err])
      | Inr port \<Rightarrow>
          if port < 1 then Inl (Errorf ''port %q must be > 0'' [portString])
          else let streamType = Headers_Get stream StreamType in
            if streamType = [] then Inl (Errorf ''%q header is required'' [StreamType])
            else if streamType \<noteq> StreamTypeError \<and> streamType \<noteq> StreamTypeData then Inl (Errorf ''invalid stream type %q'' [streamType])
            else Inr ())"

subsection \<open>Pairs\<close>

record httpStreamPair =
  hp_requestID :: string
  hp_dataStream :: "httpStream option"
  hp_errorStream :: "httpStream option"
  hp_complete :: bool  \<comment> \<open>the channel is closed\<close>

definition newPortForwardPair :: "string \<Rightarrow> httpStreamPair" where
  "newPortForwardPair r = \<lparr>hp_requestID = r, hp_dataStream = None, hp_errorStream = None, hp_complete = False\<rparr>"

text \<open>The end of \<^verbatim>\<open>add\<close>: closing a channel that is closed panics.\<close>

datatype addOutcome = AddPanic | AddError goerror | AddOk bool

definition addComplete :: "httpStreamPair \<Rightarrow> addOutcome \<times> httpStreamPair" where
  "addComplete p =
     (let complete = hp_errorStream p \<noteq> None \<and> hp_dataStream p \<noteq> None in
      if complete then (if hp_complete p then (AddPanic, p) else (AddOk True, p\<lparr>hp_complete := True\<rparr>)) else (AddOk False, p))"

definition Pair_add :: "httpStream \<Rightarrow> httpStreamPair \<Rightarrow> addOutcome \<times> httpStreamPair" where
  "Pair_add stream p =
     (let t = Headers_Get stream StreamType in
      if t = StreamTypeError then
        (if hp_errorStream p \<noteq> None then (AddError (Errorf ''error stream already assigned'' []), p)
         else addComplete (p\<lparr>hp_errorStream := Some stream\<rparr>))
      else if t = StreamTypeData then
        (if hp_dataStream p \<noteq> None then (AddError (Errorf ''data stream already assigned'' []), p)
         else addComplete (p\<lparr>hp_dataStream := Some stream\<rparr>))
      else addComplete p)"

subsection \<open>The handler\<close>

datatype pfEvent = PFPrint httpStream string | PFForward nat int | PFClose httpStream
datatype monitorPhase = MWaiting | MTimedOut | MRemoving
datatype loopPhase = LIdle | LAdding httpStream string nat | LReporting nat string | LStopped

record httpStreamHandler =
  hh_conn :: string
  hh_pod :: string
  hh_uid :: string
  hh_streamChan :: "httpStream list"
  hh_streamPairs :: "string \<rightharpoonup> nat"
  hh_heap :: "nat \<rightharpoonup> httpStreamPair"
  hh_next :: nat
  hh_loop :: loopPhase
  hh_monitors :: "nat \<rightharpoonup> monitorPhase"
  hh_forwards :: "nat list"  \<comment> \<open>pairs whose \<^verbatim>\<open>go h.portForward(p)\<close> has not run yet\<close>
  hh_trace :: "pfEvent list"  \<comment> \<open>the latest first\<close>
  hh_panic :: bool

definition newHandler :: "string \<Rightarrow> string \<Rightarrow> string \<Rightarrow> httpStreamHandler" where
  "newHandler conn pod uid = \<lparr>hh_conn = conn, hh_pod = pod, hh_uid = uid, hh_streamChan = [], hh_streamPairs = Map.empty, hh_heap = Map.empty,
     hh_next = 0, hh_loop = LIdle, hh_monitors = Map.empty, hh_forwards = [], hh_trace = [], hh_panic = False\<rparr>"

definition getStreamPair :: "string \<Rightarrow> httpStreamHandler \<Rightarrow> (nat \<times> bool) \<times> httpStreamHandler" where
  "getStreamPair r h =
     (case hh_streamPairs h r of
        Some p \<Rightarrow> ((p, False), h)
      | None \<Rightarrow>
          (let p = hh_next h in
           ((p, True), h\<lparr>hh_heap := (hh_heap h)(p \<mapsto> newPortForwardPair r), hh_next := Suc p, hh_streamPairs := (hh_streamPairs h)(r \<mapsto> p)\<rparr>)))"

definition removeStreamPair :: "string \<Rightarrow> httpStreamHandler \<Rightarrow> httpStreamHandler" where
  "removeStreamPair r h = h\<lparr>hh_streamPairs := (hh_streamPairs h)(r := None)\<rparr>"

definition Pair_printError :: "nat \<Rightarrow> string \<Rightarrow> httpStreamHandler \<Rightarrow> httpStreamHandler" where
  "Pair_printError p msg h =
     (case Option.bind (hh_heap h p) hp_errorStream of None \<Rightarrow> h | Some e \<Rightarrow> h\<lparr>hh_trace := PFPrint e msg # hh_trace h\<rparr>)"

text \<open>\<^verbatim>\<open>requestID\<close>: older clients give no request id; the identifier of the error stream stands for it, and the data stream comes next.\<close>

definition Handler_requestID :: "httpStream \<Rightarrow> string" where
  "Handler_requestID stream =
     (let r = Headers_Get stream PortForwardRequestIDHeader in
      if r \<noteq> [] then r
      else let streamType = Headers_Get stream StreamType in
        if streamType = StreamTypeError then FormatInt (uint (hs_Identifier stream))
        else if streamType = StreamTypeData then FormatInt (uint (hs_Identifier stream) - 2)
        else r)"

text \<open>One round of \<^verbatim>\<open>run\<close>: receive a stream and find its pair, add it, report an error.\<close>

definition runReceive :: "httpStreamHandler \<Rightarrow> httpStreamHandler option" where
  "runReceive h =
     (case (hh_loop h, hh_streamChan h) of
        (LIdle, stream # rest) \<Rightarrow>
          (let r = Handler_requestID stream; ((p, created), h1) = getStreamPair r (h\<lparr>hh_streamChan := rest\<rparr>) in
           Some (h1\<lparr>hh_monitors := (if created then (hh_monitors h1)(p \<mapsto> MWaiting) else hh_monitors h1), hh_loop := LAdding stream r p\<rparr>))
      | _ \<Rightarrow> None)"

definition runAdd :: "httpStreamHandler \<Rightarrow> httpStreamHandler option" where
  "runAdd h =
     (case hh_loop h of
        LAdding stream r p \<Rightarrow>
          (case hh_heap h p of
             None \<Rightarrow> Some (h\<lparr>hh_panic := True\<rparr>)
           | Some pair \<Rightarrow>
               Some (case Pair_add stream pair of
                  (AddPanic, pair') \<Rightarrow> h\<lparr>hh_panic := True\<rparr>
                | (AddError err, pair') \<Rightarrow>
                    h\<lparr>hh_heap := (hh_heap h)(p \<mapsto> pair'), hh_loop := LReporting p (formatMsg ''error processing stream for request %s: %v'' [r, Error err])\<rparr>
                | (AddOk complete, pair') \<Rightarrow>
                    h\<lparr>hh_heap := (hh_heap h)(p \<mapsto> pair'), hh_loop := LIdle, hh_forwards := (if complete then p # hh_forwards h else hh_forwards h)\<rparr>))
      | _ \<Rightarrow> None)"

definition runReport :: "httpStreamHandler \<Rightarrow> httpStreamHandler option" where
  "runReport h = (case hh_loop h of LReporting p msg \<Rightarrow> Some ((Pair_printError p msg h)\<lparr>hh_loop := LIdle\<rparr>) | _ \<Rightarrow> None)"

definition runClosed :: "httpStreamHandler \<Rightarrow> httpStreamHandler option" where
  "runClosed h = (if hh_loop h = LIdle then Some (h\<lparr>hh_loop := LStopped\<rparr>) else None)"

text \<open>\<^verbatim>\<open>monitorStreamPair\<close>: the two cases of its select, the message after a timeout, and the removal.\<close>

definition monitorTimeout :: "nat \<Rightarrow> httpStreamHandler \<Rightarrow> httpStreamHandler option" where
  "monitorTimeout p h = (if hh_monitors h p = Some MWaiting then Some (h\<lparr>hh_monitors := (hh_monitors h)(p \<mapsto> MTimedOut)\<rparr>) else None)"

definition monitorPrint :: "nat \<Rightarrow> httpStreamHandler \<Rightarrow> httpStreamHandler option" where
  "monitorPrint p h =
     (case (hh_monitors h p, hh_heap h p) of
        (Some MTimedOut, Some pair) \<Rightarrow>
          Some ((Pair_printError p (formatMsg ''(conn=%v, request=%s) timed out waiting for streams'' [hh_conn h, hp_requestID pair]) h)
            \<lparr>hh_monitors := (hh_monitors h)(p \<mapsto> MRemoving)\<rparr>)
      | _ \<Rightarrow> None)"

definition monitorComplete :: "nat \<Rightarrow> httpStreamHandler \<Rightarrow> httpStreamHandler option" where
  "monitorComplete p h =
     (case (hh_monitors h p, hh_heap h p) of
        (Some MWaiting, Some pair) \<Rightarrow> if hp_complete pair then Some (h\<lparr>hh_monitors := (hh_monitors h)(p \<mapsto> MRemoving)\<rparr>) else None
      | _ \<Rightarrow> None)"

definition monitorRemove :: "nat \<Rightarrow> httpStreamHandler \<Rightarrow> httpStreamHandler option" where
  "monitorRemove p h =
     (case (hh_monitors h p, hh_heap h p) of
        (Some MRemoving, Some pair) \<Rightarrow> Some ((removeStreamPair (hp_requestID pair) h)\<lparr>hh_monitors := (hh_monitors h)(p := None)\<rparr>)
      | _ \<Rightarrow> None)"

text \<open>\<^verbatim>\<open>portForward\<close>; \<open>res\<close> is what the forwarder returns. The deferred calls close the error stream first.\<close>

definition Handler_portForward :: "unit result \<Rightarrow> nat \<Rightarrow> httpStreamHandler \<Rightarrow> httpStreamHandler option" where
  "Handler_portForward res p h =
     (if p \<notin> set (hh_forwards h) then None
      else case hh_heap h p of
        None \<Rightarrow> Some (h\<lparr>hh_panic := True\<rparr>)
      | Some pair \<Rightarrow>
          (case (hp_dataStream pair, hp_errorStream pair) of
             (Some d, Some e) \<Rightarrow>
               (let portString = Headers_Get d PortHeader; port = fst (ParseInt 32 portString);
                    printed = (case res of
                       Inl err \<Rightarrow> [PFPrint e (formatMsg ''error forwarding port %d to pod %s, uid %v: %v'' [FormatInt port, hh_pod h, hh_uid h, Error err])]
                     | Inr _ \<Rightarrow> [])
                in Some (h\<lparr>hh_trace := PFClose d # PFClose e # printed @ PFForward p port # hh_trace h, hh_forwards := remove1 p (hh_forwards h)\<rparr>))
           | _ \<Rightarrow> Some (h\<lparr>hh_panic := True\<rparr>)))"

text \<open>The moves, with the streams that the connection has accepted. A connection never uses a stream identifier twice.\<close>

datatype pfMove =
    Arrive httpStream | Receive | AddStream | Report | ConnClosed
  | Timeout nat | PrintTimeout nat | SeeComplete nat | RemovePair nat | RunForward nat "unit result"

definition arrive :: "httpStream \<Rightarrow> httpStreamHandler \<times> httpStream list \<Rightarrow> (httpStreamHandler \<times> httpStream list) option" where
  "arrive stream = (\<lambda>(h, seen).
     if hh_streamChan h = [] \<and> hs_Identifier stream \<notin> hs_Identifier ` set seen \<and> httpStreamReceived stream = Inr ()
     then Some (h\<lparr>hh_streamChan := [stream]\<rparr>, stream # seen) else None)"

fun pf_move :: "pfMove \<Rightarrow> httpStreamHandler \<times> httpStream list \<Rightarrow> (httpStreamHandler \<times> httpStream list) option" where
  "pf_move (Arrive s) (h, seen) = arrive s (h, seen)"
| "pf_move Receive (h, seen) = map_option (\<lambda>h'. (h', seen)) (runReceive h)"
| "pf_move AddStream (h, seen) = map_option (\<lambda>h'. (h', seen)) (runAdd h)"
| "pf_move Report (h, seen) = map_option (\<lambda>h'. (h', seen)) (runReport h)"
| "pf_move ConnClosed (h, seen) = map_option (\<lambda>h'. (h', seen)) (runClosed h)"
| "pf_move (Timeout p) (h, seen) = map_option (\<lambda>h'. (h', seen)) (monitorTimeout p h)"
| "pf_move (PrintTimeout p) (h, seen) = map_option (\<lambda>h'. (h', seen)) (monitorPrint p h)"
| "pf_move (SeeComplete p) (h, seen) = map_option (\<lambda>h'. (h', seen)) (monitorComplete p h)"
| "pf_move (RemovePair p) (h, seen) = map_option (\<lambda>h'. (h', seen)) (monitorRemove p h)"
| "pf_move (RunForward p res) (h, seen) = map_option (\<lambda>h'. (h', seen)) (Handler_portForward res p h)"

fun pf_moves :: "pfMove list \<Rightarrow> httpStreamHandler \<times> httpStream list \<Rightarrow> (httpStreamHandler \<times> httpStream list) option" where
  "pf_moves [] s = Some s"
| "pf_moves (m # ms) s = Option.bind (pf_move m s) (pf_moves ms)"

subsection \<open>Adding a stream\<close>

definition slot :: "httpStream \<Rightarrow> httpStreamPair \<Rightarrow> httpStream option" where
  "slot s p = (if Headers_Get s StreamType = StreamTypeError then hp_errorStream p else hp_dataStream p)"

definition both :: "httpStreamPair \<Rightarrow> bool" where
  "both p \<longleftrightarrow> hp_errorStream p \<noteq> None \<and> hp_dataStream p \<noteq> None"

definition inPair :: "httpStream \<Rightarrow> httpStreamPair \<Rightarrow> bool" where
  "inPair s p \<longleftrightarrow> hp_dataStream p = Some s \<or> hp_errorStream p = Some s"

lemma received_type:
  "httpStreamReceived s = Inr () \<Longrightarrow> Headers_Get s StreamType = StreamTypeError \<or> Headers_Get s StreamType = StreamTypeData"
  by (auto simp: httpStreamReceived_def Let_def split: if_splits sum.splits)

lemma received_port:
  assumes "httpStreamReceived s = Inr ()"
  obtains port where "ParseUint 16 (Headers_Get s PortHeader) = Inr port" "ParseInt 32 (Headers_Get s PortHeader) = (port, None)" "0 < port" "port \<le> 65535"
proof -
  obtain port where u: "ParseUint 16 (Headers_Get s PortHeader) = Inr port" "\<not> port < 1"
    using assms by (auto simp: httpStreamReceived_def Let_def split: if_splits sum.splits)
  from ParseInt_of_ParseUint [OF u(1), of 32] u that show thesis by simp
qed

text \<open>Adding a stream that \<^verbatim>\<open>httpStreamReceived\<close> let through never closes the channel twice.\<close>

lemma Pair_add_cases:
  assumes t: "httpStreamReceived s = Inr ()" and c: "hp_complete p \<longleftrightarrow> both p" and r: "Pair_add s p = (out, p')"
  shows "(\<exists>err. out = AddError err \<and> p' = p \<and> slot s p \<noteq> None) \<or>
    (out = AddOk (both p') \<and> slot s p = None \<and> \<not> both p \<and> hp_complete p' = both p' \<and> hp_requestID p' = hp_requestID p \<and> slot s p' = Some s \<and>
     ((Headers_Get s StreamType = StreamTypeError \<and> hp_errorStream p' = Some s \<and> hp_dataStream p' = hp_dataStream p) \<or>
      (Headers_Get s StreamType = StreamTypeData \<and> hp_dataStream p' = Some s \<and> hp_errorStream p' = hp_errorStream p)))"
  using received_type [OF t]
proof
  assume "Headers_Get s StreamType = StreamTypeError"
  then show ?thesis using c r by (auto simp: Pair_add_def addComplete_def both_def slot_def Let_def split: if_splits)
next
  assume "Headers_Get s StreamType = StreamTypeData"
  then show ?thesis using c r by (auto simp: Pair_add_def addComplete_def both_def slot_def Let_def split: if_splits)
qed

subsection \<open>Invariants\<close>

text \<open>The map, the monitors and the heap: a pair is in the map under its own request id exactly as long as its monitor runs.\<close>

definition pf_pairs :: "httpStreamHandler \<Rightarrow> bool" where
  "pf_pairs h \<longleftrightarrow>
     (\<forall>r p. hh_streamPairs h r = Some p \<longrightarrow> hh_monitors h p \<noteq> None \<and> (\<exists>pair. hh_heap h p = Some pair \<and> hp_requestID pair = r)) \<and>
     (\<forall>p m. hh_monitors h p = Some m \<longrightarrow> (\<exists>pair. hh_heap h p = Some pair)) \<and>
     (\<forall>p m pair. hh_monitors h p = Some m \<longrightarrow> hh_heap h p = Some pair \<longrightarrow> hh_streamPairs h (hp_requestID pair) = Some p) \<and>
     (\<forall>p pair. hh_heap h p = Some pair \<longrightarrow> p < hh_next h)"

text \<open>The streams: each is in one place.\<close>

definition slots_ok :: "httpStreamPair \<Rightarrow> httpStream list \<Rightarrow> bool" where
  "slots_ok pair seen \<longleftrightarrow>
     (\<forall>s. hp_dataStream pair = Some s \<longrightarrow> s \<in> set seen \<and> Headers_Get s StreamType = StreamTypeData \<and> Handler_requestID s = hp_requestID pair) \<and>
     (\<forall>s. hp_errorStream pair = Some s \<longrightarrow> s \<in> set seen \<and> Headers_Get s StreamType = StreamTypeError \<and> Handler_requestID s = hp_requestID pair) \<and>
     (hp_complete pair \<longleftrightarrow> both pair)"

definition unheld :: "httpStream \<Rightarrow> httpStreamHandler \<Rightarrow> bool" where
  "unheld s h \<longleftrightarrow> (\<forall>p pair. hh_heap h p = Some pair \<longrightarrow> \<not> inPair s pair)"

definition pf_streams :: "httpStreamHandler \<Rightarrow> httpStream list \<Rightarrow> bool" where
  "pf_streams h seen \<longleftrightarrow>
     (\<forall>s \<in> set seen. httpStreamReceived s = Inr ()) \<and>
     (\<forall>p pair. hh_heap h p = Some pair \<longrightarrow> slots_ok pair seen) \<and>
     (\<forall>p q pair pair' s. hh_heap h p = Some pair \<longrightarrow> inPair s pair \<longrightarrow> hh_heap h q = Some pair' \<longrightarrow> inPair s pair' \<longrightarrow> p = q) \<and>
     (hh_streamChan h = [] \<or> (\<exists>s \<in> set seen. hh_streamChan h = [s] \<and> unheld s h)) \<and>
     (\<forall>s r p. hh_loop h = LAdding s r p \<longrightarrow> s \<in> set seen \<and> s \<notin> set (hh_streamChan h) \<and> unheld s h \<and> Handler_requestID s = r \<and>
        (\<exists>pair. hh_heap h p = Some pair \<and> hp_requestID pair = r))"

definition placed :: "httpStream \<Rightarrow> httpStreamHandler \<Rightarrow> bool" where
  "placed s h \<longleftrightarrow> s \<in> set (hh_streamChan h) \<or> (\<exists>r p. hh_loop h = LAdding s r p) \<or>
     (\<exists>p pair. hh_heap h p = Some pair \<and> hp_requestID pair = Handler_requestID s \<and> slot s pair \<noteq> None)"

text \<open>The forwarders: one for each complete pair.\<close>

definition isForward :: "nat \<Rightarrow> pfEvent \<Rightarrow> bool" where
  "isForward p ev = (case ev of PFForward q port \<Rightarrow> q = p | _ \<Rightarrow> False)"

definition isComplete :: "httpStreamHandler \<Rightarrow> nat \<Rightarrow> bool" where
  "isComplete h p = (case hh_heap h p of None \<Rightarrow> False | Some pair \<Rightarrow> hp_complete pair)"

definition forwarded :: "httpStreamHandler \<Rightarrow> nat \<Rightarrow> int \<Rightarrow> bool" where
  "forwarded h p port \<longleftrightarrow> (\<exists>pair d e. hh_heap h p = Some pair \<and> hp_dataStream pair = Some d \<and> hp_errorStream pair = Some e \<and>
     port = fst (ParseInt 32 (Headers_Get d PortHeader)) \<and> PFClose d \<in> set (hh_trace h) \<and> PFClose e \<in> set (hh_trace h))"

definition pf_forwards :: "httpStreamHandler \<Rightarrow> bool" where
  "pf_forwards h \<longleftrightarrow> \<not> hh_panic h \<and>
     (\<forall>p. count_list (hh_forwards h) p + length (filter (isForward p) (hh_trace h)) = (if isComplete h p then 1 else 0)) \<and>
     (\<forall>p port. PFForward p port \<in> set (hh_trace h) \<longrightarrow> forwarded h p port) \<and>
     (\<forall>s. PFClose s \<in> set (hh_trace h) \<longrightarrow> (\<exists>p port pair. PFForward p port \<in> set (hh_trace h) \<and> hh_heap h p = Some pair \<and> inPair s pair))"

definition pf_inv :: "httpStreamHandler \<times> httpStream list \<Rightarrow> bool" where
  "pf_inv = (\<lambda>(h, seen). pf_pairs h \<and> pf_streams h seen \<and> (\<forall>s \<in> set seen. placed s h) \<and> pf_forwards h)"

text \<open>What each part of the invariant does not depend on.\<close>

lemma pf_pairs_frame [simp]:
  "pf_pairs (h\<lparr>hh_streamChan := c\<rparr>) = pf_pairs h" "pf_pairs (h\<lparr>hh_loop := l\<rparr>) = pf_pairs h"
  "pf_pairs (h\<lparr>hh_forwards := f\<rparr>) = pf_pairs h" "pf_pairs (h\<lparr>hh_trace := t\<rparr>) = pf_pairs h"
  by (simp_all add: pf_pairs_def)

lemma unheld_frame [simp]:
  "unheld s (h\<lparr>hh_streamChan := c\<rparr>) = unheld s h" "unheld s (h\<lparr>hh_loop := l\<rparr>) = unheld s h" "unheld s (h\<lparr>hh_forwards := f\<rparr>) = unheld s h"
  "unheld s (h\<lparr>hh_trace := t\<rparr>) = unheld s h" "unheld s (h\<lparr>hh_monitors := m\<rparr>) = unheld s h" "unheld s (h\<lparr>hh_streamPairs := sp\<rparr>) = unheld s h"
  by (simp_all add: unheld_def)

lemma pf_streams_frame [simp]:
  "pf_streams (h\<lparr>hh_forwards := f\<rparr>) seen = pf_streams h seen" "pf_streams (h\<lparr>hh_trace := t\<rparr>) seen = pf_streams h seen"
  "pf_streams (h\<lparr>hh_monitors := m\<rparr>) seen = pf_streams h seen" "pf_streams (h\<lparr>hh_streamPairs := sp\<rparr>) seen = pf_streams h seen"
  by (simp_all add: pf_streams_def)

lemma placed_frame [simp]:
  "placed s (h\<lparr>hh_forwards := f\<rparr>) = placed s h" "placed s (h\<lparr>hh_trace := t\<rparr>) = placed s h"
  "placed s (h\<lparr>hh_monitors := m\<rparr>) = placed s h" "placed s (h\<lparr>hh_streamPairs := sp\<rparr>) = placed s h"
  by (simp_all add: placed_def)

lemma placed_mono:
  assumes "placed s h" "s \<in> set (hh_streamChan h) \<Longrightarrow> placed s h'" "\<And>r p. hh_loop h = LAdding s r p \<Longrightarrow> placed s h'"
    and "\<And>p pair. hh_heap h p = Some pair \<Longrightarrow> slot s pair \<noteq> None \<Longrightarrow> \<exists>pair'. hh_heap h' p = Some pair' \<and> hp_requestID pair' = hp_requestID pair \<and> slot s pair' \<noteq> None"
  shows "placed s h'"
  using assms(1) unfolding placed_def [of s h]
proof (elim disjE exE conjE)
  fix p pair
  assume "hh_heap h p = Some pair" "hp_requestID pair = Handler_requestID s" "slot s pair \<noteq> None"
  with assms(4) show ?thesis unfolding placed_def by metis
qed (use assms(2,3) in simp_all)

lemma pf_forwards_frame [simp]:
  "pf_forwards (h\<lparr>hh_streamChan := c\<rparr>) = pf_forwards h" "pf_forwards (h\<lparr>hh_loop := l\<rparr>) = pf_forwards h"
  "pf_forwards (h\<lparr>hh_monitors := m\<rparr>) = pf_forwards h" "pf_forwards (h\<lparr>hh_streamPairs := sp\<rparr>) = pf_forwards h"
  "pf_forwards (h\<lparr>hh_trace := PFPrint e msg # hh_trace h\<rparr>) = pf_forwards h"
  by (simp_all add: pf_forwards_def isComplete_def forwarded_def isForward_def)

lemma pf_forwards_count:
  "pf_forwards h \<Longrightarrow> count_list (hh_forwards h) p + length (filter (isForward p) (hh_trace h)) = (if isComplete h p then 1 else 0)"
  by (simp add: pf_forwards_def)

lemma pf_forwards_mono:
  assumes "pf_forwards h" "hh_panic h' = hh_panic h" "hh_trace h' = hh_trace h"
    and "\<And>p. count_list (hh_forwards h') p + length (filter (isForward p) (hh_trace h')) = (if isComplete h' p then 1 else 0)"
    and "\<And>p port. forwarded h p port \<Longrightarrow> forwarded h' p port"
    and "\<And>p pair s. hh_heap h p = Some pair \<Longrightarrow> inPair s pair \<Longrightarrow> \<exists>pair'. hh_heap h' p = Some pair' \<and> inPair s pair'"
  shows "pf_forwards h'"
  using assms(1) unfolding pf_forwards_def assms(2,3)
proof (elim conjE, intro conjI allI impI)
  fix s
  assume "\<forall>s. PFClose s \<in> set (hh_trace h) \<longrightarrow> (\<exists>p port pair. PFForward p port \<in> set (hh_trace h) \<and> hh_heap h p = Some pair \<and> inPair s pair)"
    "PFClose s \<in> set (hh_trace h)"
  then show "\<exists>p port pair. PFForward p port \<in> set (hh_trace h) \<and> hh_heap h' p = Some pair \<and> inPair s pair" using assms(6) by meson
qed (use assms(4,5) in \<open>simp_all add: assms(3)\<close>)

lemma pf_inv_new: "pf_inv (newHandler conn pod uid, [])"
  by (simp add: pf_inv_def newHandler_def pf_pairs_def pf_streams_def pf_forwards_def isComplete_def)

lemma pf_streams_received: "pf_streams h seen \<Longrightarrow> s \<in> set seen \<Longrightarrow> httpStreamReceived s = Inr ()"
  by (simp add: pf_streams_def)

lemma pf_streams_slots: "pf_streams h seen \<Longrightarrow> hh_heap h p = Some pair \<Longrightarrow> slots_ok pair seen"
  by (simp add: pf_streams_def)

lemma pf_streams_unique:
  "pf_streams h seen \<Longrightarrow> hh_heap h p = Some pair \<Longrightarrow> inPair s pair \<Longrightarrow> hh_heap h q = Some pair' \<Longrightarrow> inPair s pair' \<Longrightarrow> p = q"
  by (simp add: pf_streams_def)

lemma pf_streamsI:
  assumes "\<And>s. s \<in> set seen \<Longrightarrow> httpStreamReceived s = Inr ()"
    and "\<And>p pair. hh_heap h p = Some pair \<Longrightarrow> slots_ok pair seen"
    and "\<And>p q pair pair' s. hh_heap h p = Some pair \<Longrightarrow> inPair s pair \<Longrightarrow> hh_heap h q = Some pair' \<Longrightarrow> inPair s pair' \<Longrightarrow> p = q"
    and "hh_streamChan h = [] \<or> (\<exists>s \<in> set seen. hh_streamChan h = [s] \<and> unheld s h)"
    and "\<And>s r p. hh_loop h = LAdding s r p \<Longrightarrow> s \<in> set seen \<and> s \<notin> set (hh_streamChan h) \<and> unheld s h \<and> Handler_requestID s = r \<and>
        (\<exists>pair. hh_heap h p = Some pair \<and> hp_requestID pair = r)"
  shows "pf_streams h seen"
  unfolding pf_streams_def by (intro conjI ballI allI impI assms(1)) (use assms(2-5) in meson)+

lemma slots_ok_seen: "slots_ok pair seen \<Longrightarrow> inPair s pair \<Longrightarrow> s \<in> set seen"
  by (auto simp: slots_ok_def inPair_def)

lemma slots_ok_more: "slots_ok pair seen \<Longrightarrow> slots_ok pair (s # seen)"
  by (simp add: slots_ok_def)

lemma pf_inv_arrive: "pf_inv (h, seen) \<Longrightarrow> arrive s (h, seen) = Some (h', seen') \<Longrightarrow> pf_inv (h', seen')"
proof -
  assume inv: "pf_inv (h, seen)" and a: "arrive s (h, seen) = Some (h', seen')"
  then have h': "h' = h\<lparr>hh_streamChan := [s]\<rparr>" "seen' = s # seen" and c: "hh_streamChan h = []" and fresh: "s \<notin> set seen"
    and r: "httpStreamReceived s = Inr ()" by (auto simp: arrive_def split: if_splits)
  have st: "pf_streams h seen" and pl: "\<forall>s \<in> set seen. placed s h" using inv by (simp_all add: pf_inv_def)
  have "unheld s h" unfolding unheld_def using fresh slots_ok_seen pf_streams_slots [OF st] by blast
  then have "pf_streams (h\<lparr>hh_streamChan := [s]\<rparr>) (s # seen)"
    using st r fresh slots_ok_more unfolding pf_streams_def unheld_frame by auto
  moreover have "\<forall>x \<in> set (s # seen). placed x (h\<lparr>hh_streamChan := [s]\<rparr>)" using pl c by (auto simp: placed_def)
  ultimately show ?thesis using inv h' by (simp add: pf_inv_def)
qed

lemma pf_inv_print:
  assumes "pf_inv (h, seen)"
  shows "pf_inv (Pair_printError p msg h, seen)"
  using assms by (simp add: pf_inv_def Pair_printError_def split: option.split)

lemma pf_inv_loop:
  assumes "pf_inv (h, seen)" "\<And>s r p. hh_loop h \<noteq> LAdding s r p" "\<And>s r p. l \<noteq> LAdding s r p"
  shows "pf_inv (h\<lparr>hh_loop := l\<rparr>, seen)"
  using assms by (simp add: pf_inv_def pf_streams_def placed_def)

lemma pf_inv_monitor:
  assumes "pf_inv (h, seen)" "hh_monitors h p = Some m"
  shows "pf_inv (h\<lparr>hh_monitors := (hh_monitors h)(p \<mapsto> m')\<rparr>, seen)"
  using assms by (simp add: pf_inv_def pf_pairs_def)

text \<open>A monitor removes its own pair: no other pair has taken its place in the map.\<close>

lemma pf_inv_remove: "pf_inv (h, seen) \<Longrightarrow> monitorRemove p h = Some h' \<Longrightarrow> pf_inv (h', seen)"
proof -
  assume inv: "pf_inv (h, seen)" and m: "monitorRemove p h = Some h'"
  then obtain pair where p: "hh_monitors h p = Some MRemoving" "hh_heap h p = Some pair"
    and h': "h' = h\<lparr>hh_streamPairs := (hh_streamPairs h)(hp_requestID pair := None), hh_monitors := (hh_monitors h)(p := None)\<rparr>"
    by (auto simp: monitorRemove_def removeStreamPair_def split: option.splits monitorPhase.splits)
  have ps: "pf_pairs h" using inv by (simp add: pf_inv_def)
  have "pf_pairs h'" unfolding h' pf_pairs_def
  proof (intro conjI allI impI)
    fix r q
    assume "hh_streamPairs (h\<lparr>hh_streamPairs := (hh_streamPairs h)(hp_requestID pair := None), hh_monitors := (hh_monitors h)(p := None)\<rparr>) r = Some q"
    then have "r \<noteq> hp_requestID pair" "hh_streamPairs h r = Some q" by (auto split: if_splits)
    moreover from this have "q \<noteq> p" using ps p by (auto simp: pf_pairs_def) (metis option.inject)
    ultimately show "hh_monitors (h\<lparr>hh_streamPairs := (hh_streamPairs h)(hp_requestID pair := None), hh_monitors := (hh_monitors h)(p := None)\<rparr>) q \<noteq> None"
      "\<exists>pair'. hh_heap (h\<lparr>hh_streamPairs := (hh_streamPairs h)(hp_requestID pair := None), hh_monitors := (hh_monitors h)(p := None)\<rparr>) q = Some pair' \<and> hp_requestID pair' = r"
      using ps by (auto simp: pf_pairs_def)
  next
    fix q m pair'
    assume "hh_monitors (h\<lparr>hh_streamPairs := (hh_streamPairs h)(hp_requestID pair := None), hh_monitors := (hh_monitors h)(p := None)\<rparr>) q = Some m"
      "hh_heap (h\<lparr>hh_streamPairs := (hh_streamPairs h)(hp_requestID pair := None), hh_monitors := (hh_monitors h)(p := None)\<rparr>) q = Some pair'"
    then have "q \<noteq> p" "hh_streamPairs h (hp_requestID pair') = Some q" using ps by (auto simp: pf_pairs_def split: if_splits)
    moreover from this have "hp_requestID pair' \<noteq> hp_requestID pair" using ps p by (auto simp: pf_pairs_def)
    ultimately show "hh_streamPairs (h\<lparr>hh_streamPairs := (hh_streamPairs h)(hp_requestID pair := None), hh_monitors := (hh_monitors h)(p := None)\<rparr>) (hp_requestID pair') = Some q"
      by simp
  qed (use ps in \<open>auto simp: pf_pairs_def split: if_splits\<close>)
  then show ?thesis using inv h' by (simp add: pf_inv_def)
qed

lemma pf_inv_receive: "pf_inv (h, seen) \<Longrightarrow> runReceive h = Some h' \<Longrightarrow> pf_inv (h', seen)"
proof -
  assume inv: "pf_inv (h, seen)" and m: "runReceive h = Some h'"
  obtain s rest where l: "hh_loop h = LIdle" and c: "hh_streamChan h = s # rest"
    using m by (auto simp: runReceive_def split: loopPhase.splits list.splits)
  let ?r = "Handler_requestID s"
  have st: "pf_streams h seen" and ps: "pf_pairs h" and pl: "\<forall>s \<in> set seen. placed s h" and fw: "pf_forwards h" using inv by (simp_all add: pf_inv_def)
  have s: "s \<in> set seen" "rest = []" "unheld s h" using st c by (auto simp: pf_streams_def)
  show ?thesis
  proof (cases "hh_streamPairs h ?r")
    case (Some p)
    then have h': "h' = h\<lparr>hh_streamChan := [], hh_loop := LAdding s ?r p\<rparr>" using m l c s by (simp add: runReceive_def getStreamPair_def Let_def)
    have "pf_streams h' seen" using st ps Some s unfolding h' by (auto simp: pf_streams_def pf_pairs_def)
    moreover have "\<forall>s \<in> set seen. placed s h'" using pl c s l unfolding h' by (auto simp: placed_def)
    ultimately show ?thesis using ps fw h' by (simp add: pf_inv_def)
  next
    case None
    let ?p = "hh_next h"
    have h': "h' = h\<lparr>hh_streamChan := [], hh_heap := (hh_heap h)(?p \<mapsto> newPortForwardPair ?r), hh_next := Suc ?p,
        hh_streamPairs := (hh_streamPairs h)(?r \<mapsto> ?p), hh_monitors := (hh_monitors h)(?p \<mapsto> MWaiting), hh_loop := LAdding s ?r ?p\<rparr>"
      using m l c s None by (simp add: runReceive_def getStreamPair_def Let_def)
    have new: "hh_heap h ?p = None" using ps by (auto simp: pf_pairs_def)
    have empty: "\<not> inPair x (newPortForwardPair ?r)" "slots_ok (newPortForwardPair ?r) seen" "\<not> hp_complete (newPortForwardPair ?r)"
      "hp_requestID (newPortForwardPair ?r) = ?r" for x
      by (simp_all add: inPair_def newPortForwardPair_def slots_ok_def both_def)
    have old: "hh_heap h q = Some pair" if "hh_heap h' q = Some pair" "inPair x pair" for q x pair using that empty(1) unfolding h' by (auto split: if_splits)
    have "unheld x h'" if "unheld x h" for x using that old unfolding unheld_def by blast
    then have un: "unheld s h'" using s(3) .
    have "pf_streams h' seen"
    proof (rule pf_streamsI)
      show "slots_ok pair seen" if "hh_heap h' q = Some pair" for q pair
        using that pf_streams_slots [OF st] empty(2) by (auto simp: h' split: if_splits)
      show "q = q'" if "hh_heap h' q = Some pair" "inPair x pair" "hh_heap h' q' = Some pair'" "inPair x pair'" for q q' x pair pair'
        by (rule pf_streams_unique [OF st old that(2) old that(4)]) (use that in simp_all)
    qed (use pf_streams_received [OF st] s un in \<open>simp_all add: h' empty\<close>)
    moreover have "\<forall>x \<in> set seen. placed x h'"
    proof
      fix x assume "x \<in> set seen"
      with pl have "placed x h" by simp
      then show "placed x h'" by (rule placed_mono) (use c s l new in \<open>auto simp: h' placed_def\<close>)
    qed
    moreover have "pf_pairs h'"
    proof -
      have "hh_monitors h ?p = None" using ps new by (auto simp: pf_pairs_def)
      moreover have "hh_streamPairs h r \<noteq> Some ?p" for r using ps new unfolding pf_pairs_def by (metis option.distinct(1))
      ultimately show ?thesis using ps None new empty(4) unfolding h' by (auto simp: pf_pairs_def less_Suc_eq)
    qed
    moreover from fw have "pf_forwards h'"
      by (rule pf_forwards_mono) (use fw new empty(3) in \<open>auto simp: h' pf_forwards_def isComplete_def forwarded_def\<close>)
    ultimately show ?thesis by (simp add: pf_inv_def)
  qed
qed

lemma pf_inv_added:
  assumes inv: "pf_inv (h, seen)" and l: "hh_loop h = LAdding s r p" and pair: "hh_heap h p = Some pair" "hp_requestID pair = r"
    and add: "Pair_add s pair = (AddOk (both pair'), pair')" and m: "runAdd h = Some h'"
    and new: "slot s pair = None" "\<not> both pair" "hp_complete pair' = both pair'" "hp_requestID pair' = hp_requestID pair" "slot s pair' = Some s"
    and kept: "(Headers_Get s StreamType = StreamTypeError \<and> hp_errorStream pair' = Some s \<and> hp_dataStream pair' = hp_dataStream pair) \<or>
      (Headers_Get s StreamType = StreamTypeData \<and> hp_dataStream pair' = Some s \<and> hp_errorStream pair' = hp_errorStream pair)"
  shows "pf_inv (h', seen)"
proof -
  have st: "pf_streams h seen" and ps: "pf_pairs h" and pl: "\<forall>s \<in> set seen. placed s h" and fw: "pf_forwards h" using inv by (simp_all add: pf_inv_def)
  have s: "s \<in> set seen" "s \<notin> set (hh_streamChan h)" "unheld s h" "Handler_requestID s = r" using st l by (simp_all add: pf_streams_def)
  have h': "h' = h\<lparr>hh_heap := (hh_heap h)(p \<mapsto> pair'), hh_loop := LIdle, hh_forwards := (if both pair' then p # hh_forwards h else hh_forwards h)\<rparr>"
    using m l pair add by (simp add: runAdd_def)
  have inP: "inPair x pair' \<longleftrightarrow> x = s \<or> inPair x pair" for x
    using kept new(1) by (auto simp: inPair_def slot_def)
  have un: "unheld x h'" if "unheld x h" "x \<noteq> s" for x using that inP pair unfolding h' unheld_def by simp
  have "pf_streams h' seen"
  proof (rule pf_streamsI)
    have "slots_ok pair' seen"
      using pf_streams_slots [OF st pair(1)] new(3,4) s(1,4) pair(2) kept unfolding slots_ok_def by (elim conjE disjE; simp)
    then show "slots_ok pr seen" if "hh_heap h' q = Some pr" for q pr
      using that pf_streams_slots [OF st] by (auto simp: h' split: if_splits)
    show "q = q'" if "hh_heap h' q = Some pr" "inPair x pr" "hh_heap h' q' = Some pr'" "inPair x pr'" for q q' x pr pr'
    proof (cases "x = s")
      case True
      with that s(3) show ?thesis unfolding unheld_def h' by (simp split: if_splits)
    next
      case False
      then have old: "\<exists>pr. hh_heap h q = Some pr \<and> inPair x pr" if "hh_heap h' q = Some pr" "inPair x pr" for q pr
        using that inP pair by (auto simp: h' split: if_splits)
      from old [OF that(1,2)] old [OF that(3,4)] pf_streams_unique [OF st] show ?thesis by blast
    qed
    show "hh_streamChan h' = [] \<or> (\<exists>x \<in> set seen. hh_streamChan h' = [x] \<and> unheld x h')"
      using st s(2) un unfolding pf_streams_def h' by auto
  qed (use pf_streams_received [OF st] in \<open>simp_all add: h'\<close>)
  moreover have "hh_streamPairs h ra = Some p \<Longrightarrow> ra = r" for ra using ps pair unfolding pf_pairs_def by (metis option.inject)
  then have "pf_pairs h'" using ps pair new(4) unfolding h' by (auto simp: pf_pairs_def)
  moreover have "\<forall>x \<in> set seen. placed x h'"
  proof
    fix x assume "x \<in> set seen"
    with pl have "placed x h" by simp
    then show "placed x h'"
      by (rule placed_mono) (use l pair new kept s in \<open>auto simp: h' placed_def slot_def split: if_splits\<close>)
  qed
  moreover have "pf_forwards h'"
  proof -
    have c: "\<not> hp_complete pair" using pf_streams_slots [OF st pair(1)] new(2) by (simp add: slots_ok_def)
    have "hh_heap h q = Some pr \<Longrightarrow> hp_dataStream pr \<noteq> None \<Longrightarrow> hp_errorStream pr \<noteq> None \<Longrightarrow> q \<noteq> p" for q pr
      using new(2) pair by (auto simp: both_def)
    then have "forwarded h q port \<Longrightarrow> forwarded h' q port" for q port unfolding forwarded_def by (elim exE conjE) (simp add: h')
    moreover have "\<exists>pair. hh_heap h' q = Some pair \<and> inPair x pair" if "hh_heap h q = Some pr" "inPair x pr" for q pr x
      using that inP [of x] pair(1) by (cases "q = p") (simp_all add: h')
    moreover have "count_list (hh_forwards h') q + length (filter (isForward q) (hh_trace h')) = (if isComplete h' q then 1 else 0)" for q
      using pf_forwards_count [OF fw, of q] c pair new(3) by (auto simp: h' isComplete_def split: if_splits)
    ultimately show ?thesis by (intro pf_forwards_mono [OF fw]) (simp_all add: h')
  qed
  ultimately show ?thesis by (simp add: pf_inv_def)
qed

lemma pf_inv_add: "pf_inv (h, seen) \<Longrightarrow> runAdd h = Some h' \<Longrightarrow> pf_inv (h', seen)"
proof -
  assume inv: "pf_inv (h, seen)" and m: "runAdd h = Some h'"
  then obtain s r p where l: "hh_loop h = LAdding s r p" by (auto simp: runAdd_def split: loopPhase.splits)
  have st: "pf_streams h seen" and ps: "pf_pairs h" and pl: "\<forall>s \<in> set seen. placed s h" and fw: "pf_forwards h" using inv by (simp_all add: pf_inv_def)
  have s: "s \<in> set seen" "s \<notin> set (hh_streamChan h)" "unheld s h" "Handler_requestID s = r" using st l by (simp_all add: pf_streams_def)
  from st l obtain pair where pair: "hh_heap h p = Some pair" "hp_requestID pair = r" by (auto simp: pf_streams_def)
  have ok: "slots_ok pair seen" by (rule pf_streams_slots [OF st pair(1)])
  obtain out pair' where out: "Pair_add s pair = (out, pair')" by fastforce
  have "hp_complete pair = both pair" using ok by (simp add: slots_ok_def)
  from Pair_add_cases [OF pf_streams_received [OF st s(1)] this out] show ?thesis
  proof (elim disjE exE conjE, goal_cases)
    case (1 err)
    have same: "(hh_heap h)(p \<mapsto> pair) = hh_heap h" "h\<lparr>hh_heap := hh_heap h\<rparr> = h" using pair by (auto simp: fun_eq_iff)
    define msg where "msg = formatMsg ''error processing stream for request %s: %v'' [r, Error err]"
    have "h' = h\<lparr>hh_loop := LReporting p msg\<rparr>" using m l pair(1) out 1 by (simp only: runAdd_def loopPhase.case option.case prod.case addOutcome.case same msg_def option.inject)
    moreover have "placed x (h\<lparr>hh_loop := LReporting p msg\<rparr>)" if "x \<in> set seen" for x
      using that pl 1 pair s l by (cases "x = s") (auto simp: placed_def)
    moreover have "pf_streams (h\<lparr>hh_loop := LReporting p msg\<rparr>) seen" using st by (simp add: pf_streams_def)
    ultimately show ?case using inv by (simp add: pf_inv_def)
  next
    case 2
    show ?case by (rule pf_inv_added [OF inv l pair _ m]) (use out 2 in auto)
  next
    case 3
    show ?case by (rule pf_inv_added [OF inv l pair _ m]) (use out 3 in auto)
  qed
qed

lemma pf_inv_forward: "pf_inv (h, seen) \<Longrightarrow> Handler_portForward res p h = Some h' \<Longrightarrow> pf_inv (h', seen)"
proof -
  assume inv: "pf_inv (h, seen)" and m: "Handler_portForward res p h = Some h'"
  have st: "pf_streams h seen" and fw: "pf_forwards h" using inv by (simp_all add: pf_inv_def)
  have p: "p \<in> set (hh_forwards h)" using m by (auto simp: Handler_portForward_def split: if_splits)
  then have one: "0 < count_list (hh_forwards h) p" by (metis count_list_0_iff gr0I)
  then have "isComplete h p" using fw unfolding pf_forwards_def by (metis add_is_0 less_numeral_extra(3))
  then obtain pair where pair: "hh_heap h p = Some pair" "hp_complete pair" by (auto simp: isComplete_def split: option.splits)
  then have "both pair" using pf_streams_slots [OF st] by (auto simp: slots_ok_def)
  then obtain d e where de: "hp_dataStream pair = Some d" "hp_errorStream pair = Some e" by (auto simp: both_def)
  define port where "port = fst (ParseInt 32 (Headers_Get d PortHeader))"
  define printed where "printed = (case res of
     Inl err \<Rightarrow> [PFPrint e (formatMsg ''error forwarding port %d to pod %s, uid %v: %v'' [FormatInt port, hh_pod h, hh_uid h, Error err])] | Inr _ \<Rightarrow> [])"
  define tr where "tr = PFClose d # PFClose e # printed @ PFForward p port # hh_trace h"
  have h': "h' = h\<lparr>hh_trace := tr, hh_forwards := remove1 p (hh_forwards h)\<rparr>"
    using m p pair(1) de unfolding Handler_portForward_def by (simp only: if_not_P not_not option.case prod.case Let_def tr_def printed_def port_def option.inject)
  have printed: "PFClose x \<notin> set printed" "PFForward q n \<notin> set printed" "filter (isForward q) printed = []" for x q n
    by (auto simp: printed_def isForward_def split: sum.splits)
  have "pf_forwards h'" unfolding pf_forwards_def
  proof (intro conjI allI impI)
    show "\<not> hh_panic h'" using fw by (simp add: h' pf_forwards_def)
    fix q
    have "count_list (remove1 p (hh_forwards h)) q = count_list (hh_forwards h) q - (if q = p then 1 else 0)"
      by (induction "hh_forwards h") auto
    then show "count_list (hh_forwards h') q + length (filter (isForward q) (hh_trace h')) = (if isComplete h' q then 1 else 0)"
      using fw one printed unfolding pf_forwards_def by (auto simp: h' tr_def isComplete_def isForward_def)
    fix n
    show "forwarded h' q n" if "PFForward q n \<in> set (hh_trace h')"
    proof (cases "PFForward q n \<in> set (hh_trace h)")
      case True
      then have "forwarded h q n" using fw by (simp add: pf_forwards_def)
      then show ?thesis by (auto simp: forwarded_def h' tr_def)
    next
      case False
      then have "q = p" "n = port" using that printed by (auto simp: h' tr_def)
      then show ?thesis using pair de by (simp add: forwarded_def h' tr_def port_def)
    qed
    fix x
    show "\<exists>q n pr. PFForward q n \<in> set (hh_trace h') \<and> hh_heap h' q = Some pr \<and> inPair x pr" if "PFClose x \<in> set (hh_trace h')"
    proof (cases "PFClose x \<in> set (hh_trace h)")
      case True
      then obtain q n pr where "PFForward q n \<in> set (hh_trace h)" "hh_heap h q = Some pr" "inPair x pr" using fw unfolding pf_forwards_def by meson
      then show ?thesis by (intro exI [of _ q] exI [of _ n] exI [of _ pr]) (simp add: h' tr_def)
    next
      case False
      then have "x = d \<or> x = e" using that printed by (auto simp: h' tr_def)
      then show ?thesis using pair de by (intro exI [of _ p] exI [of _ port] exI [of _ pair]) (auto simp: h' tr_def inPair_def)
    qed
  qed
  then show ?thesis using inv h' by (simp add: pf_inv_def)
qed

lemma pf_inv_move: "pf_inv s \<Longrightarrow> pf_move m s = Some s' \<Longrightarrow> pf_inv s'"
proof -
  assume inv: "pf_inv s" and m: "pf_move m s = Some s'"
  obtain h seen where s: "s = (h, seen)" by fastforce
  note inv = inv [unfolded s] and m = m [unfolded s]
  show ?thesis
  proof (cases m)
    case (Timeout p)
    with m inv pf_inv_monitor show ?thesis by (auto simp: monitorTimeout_def split: if_splits)
  next
    case (PrintTimeout p)
    have "hh_monitors (Pair_printError p msg h) = hh_monitors h" for msg by (simp add: Pair_printError_def split: option.split)
    then have "hh_monitors h p = Some MTimedOut \<Longrightarrow> pf_inv ((Pair_printError p msg h)\<lparr>hh_monitors := (hh_monitors h)(p \<mapsto> MRemoving)\<rparr>, seen)" for msg
      using pf_inv_monitor [OF pf_inv_print [OF inv, of p msg], of p MTimedOut MRemoving] by simp
    with m PrintTimeout show ?thesis by (auto simp: monitorPrint_def simp del: formatMsg.simps split: option.splits monitorPhase.splits)
  next
    case (SeeComplete p)
    with m inv pf_inv_monitor show ?thesis by (auto simp: monitorComplete_def split: if_splits option.splits monitorPhase.splits)
  next
    case Report
    have "hh_loop (Pair_printError p msg h) = hh_loop h" for p msg by (simp add: Pair_printError_def split: option.split)
    with m Report inv show ?thesis by (auto simp: runReport_def split: loopPhase.splits intro!: pf_inv_loop [OF pf_inv_print])
  next
    case ConnClosed
    with m inv show ?thesis by (auto simp: runClosed_def split: if_splits intro!: pf_inv_loop)
  next
    case (Arrive x)
    with m inv show ?thesis by (cases s') (auto intro: pf_inv_arrive)
  qed (use m inv in \<open>auto intro: pf_inv_arrive pf_inv_receive pf_inv_add pf_inv_remove pf_inv_forward\<close>)
qed

interpretation pf: inv_system "\<lambda>s. \<exists>conn pod uid. s = (newHandler conn pod uid, [])" "\<lambda>s s'. \<exists>m. pf_move m s = Some s'" pf_inv
  by unfold_locales (auto intro: pf_inv_new pf_inv_move)

lemma pf_moves_reach: "pf_moves ms s = Some s' \<Longrightarrow> (\<lambda>s s'. \<exists>m. pf_move m s = Some s')\<^sup>*\<^sup>* s s'"
proof (induction ms arbitrary: s)
  case (Cons m ms)
  then obtain t where "pf_move m s = Some t" "pf_moves ms t = Some s'" by (auto split: bind_splits)
  from this(1) have "\<exists>m. pf_move m s = Some t" by blast
  from converse_rtranclp_into_rtranclp [where r = "\<lambda>s s'. \<exists>m. pf_move m s = Some s'", OF this] Cons.IH [OF \<open>pf_moves ms t = Some s'\<close>] show ?case by blast
qed simp

subsection \<open>The property\<close>

text \<open>Older clients: an error stream and a data stream without request id meet when the data stream is opened next after the error stream.\<close>

lemma legacy_requestID:
  assumes "Headers_Get e PortForwardRequestIDHeader = []" "Headers_Get d PortForwardRequestIDHeader = []"
    and "Headers_Get e StreamType = StreamTypeError" "Headers_Get d StreamType = StreamTypeData"
  shows "Handler_requestID e = Handler_requestID d \<longleftrightarrow> uint (hs_Identifier d) = uint (hs_Identifier e) + 2"
  using assms by (auto simp: Handler_requestID_def)

text \<open>
  C28: whatever the goroutines of a port forwarding connection do and in which order, nothing panics (no channel is closed twice, no missing
  stream is used). What is forwarded is a complete pair: a data stream and an error stream with the same request id and the headers
  that were checked when they arrived, and both are closed afterwards; the port is the number in the header of the data stream, between 1 and 65535, so
  the forwarder never refuses it as invalid. No pair is forwarded twice, no stream is in two pairs, and when no forwarder is
  pending every complete pair has been forwarded. No stream is lost: each accepted one waits in the channel, is being added, or belongs to
  a pair of its request id, whose place for that type is taken, by it or by one that came before it. A pair is in the map under its own id and only
  while its monitor runs, so the map is empty once the monitors are done.
\<close>

theorem port_forward_streams_correct:
  assumes "pf_moves ms (newHandler conn pod uid, []) = Some (h, seen)"
  shows "\<not> hh_panic h \<and>
    (\<forall>p port. PFForward p port \<in> set (hh_trace h) \<longrightarrow>
       (\<exists>pair d e. hh_heap h p = Some pair \<and> hp_dataStream pair = Some d \<and> hp_errorStream pair = Some e \<and> d \<in> set seen \<and> e \<in> set seen \<and>
          Headers_Get d StreamType = StreamTypeData \<and> Headers_Get e StreamType = StreamTypeError \<and>
          Handler_requestID d = hp_requestID pair \<and> Handler_requestID e = hp_requestID pair \<and>
          ParseUint 16 (Headers_Get d PortHeader) = Inr port \<and> 0 < port \<and> port \<le> 65535 \<and>
          PFClose d \<in> set (hh_trace h) \<and> PFClose e \<in> set (hh_trace h) \<and>
          (\<forall>env s. StreamPortForward env s pod port = portForward env s pod port))) \<and>
    (\<forall>p. length (filter (isForward p) (hh_trace h)) \<le> 1) \<and>
    (\<forall>p q pair pair' s. hh_heap h p = Some pair \<longrightarrow> inPair s pair \<longrightarrow> hh_heap h q = Some pair' \<longrightarrow> inPair s pair' \<longrightarrow> p = q) \<and>
    (\<forall>p pair. hh_forwards h = [] \<longrightarrow> hh_heap h p = Some pair \<longrightarrow> both pair \<longrightarrow> (\<exists>port. PFForward p port \<in> set (hh_trace h))) \<and>
    (\<forall>s \<in> set seen. s \<in> set (hh_streamChan h) \<or> (\<exists>r p. hh_loop h = LAdding s r p) \<or>
       (\<exists>p pair. hh_heap h p = Some pair \<and> hp_requestID pair = Handler_requestID s \<and> slot s pair \<noteq> None)) \<and>
    (\<forall>r p. hh_streamPairs h r = Some p \<longrightarrow> hh_monitors h p \<noteq> None \<and> (\<exists>pair. hh_heap h p = Some pair \<and> hp_requestID pair = r))"
proof -
  have inv: "pf_inv (h, seen)" by (rule pf.inv_reachable [OF _ pf_moves_reach [OF assms]]) blast
  then have st: "pf_streams h seen" and ps: "pf_pairs h" and pl: "\<forall>s \<in> set seen. placed s h" and fw: "pf_forwards h" by (simp_all add: pf_inv_def)
  note count = pf_forwards_count [OF fw]
  show ?thesis
  proof (intro conjI allI impI)
    fix p port
    assume "PFForward p port \<in> set (hh_trace h)"
    then have "forwarded h p port" using fw by (simp add: pf_forwards_def)
    then obtain pair d e where p: "hh_heap h p = Some pair" "hp_dataStream pair = Some d" "hp_errorStream pair = Some e"
      "port = fst (ParseInt 32 (Headers_Get d PortHeader))" "PFClose d \<in> set (hh_trace h)" "PFClose e \<in> set (hh_trace h)" by (auto simp: forwarded_def)
    have ok: "slots_ok pair seen" by (rule pf_streams_slots [OF st p(1)])
    then have d: "d \<in> set seen" using p by (simp add: slots_ok_def)
    from received_port [OF pf_streams_received [OF st d]] obtain n where n: "ParseUint 16 (Headers_Get d PortHeader) = Inr n" "port = n" "0 < n" "n \<le> 65535"
      using p(4) by fastforce
    then have "StreamPortForward env s pod port = portForward env s pod port" for env s by (simp add: StreamPortForward_def)
    with p n ok show "\<exists>pair d e. hh_heap h p = Some pair \<and> hp_dataStream pair = Some d \<and> hp_errorStream pair = Some e \<and> d \<in> set seen \<and> e \<in> set seen \<and>
          Headers_Get d StreamType = StreamTypeData \<and> Headers_Get e StreamType = StreamTypeError \<and>
          Handler_requestID d = hp_requestID pair \<and> Handler_requestID e = hp_requestID pair \<and>
          ParseUint 16 (Headers_Get d PortHeader) = Inr port \<and> 0 < port \<and> port \<le> 65535 \<and>
          PFClose d \<in> set (hh_trace h) \<and> PFClose e \<in> set (hh_trace h) \<and>
          (\<forall>env s. StreamPortForward env s pod port = portForward env s pod port)"
      by (intro exI [of _ pair] exI [of _ d] exI [of _ e]) (simp add: slots_ok_def)
  next
    fix p
    show "length (filter (isForward p) (hh_trace h)) \<le> 1" using count [of p] by (simp split: if_splits)
  next
    fix p pair
    assume "hh_forwards h = []" and p: "hh_heap h p = Some pair" "both pair"
    moreover have "isComplete h p" using p pf_streams_slots [OF st p(1)] by (simp add: isComplete_def slots_ok_def)
    ultimately have "filter (isForward p) (hh_trace h) \<noteq> []" using count [of p] by auto
    then obtain ev where "ev \<in> set (hh_trace h)" "isForward p ev" by (auto simp: filter_empty_conv)
    then show "\<exists>port. PFForward p port \<in> set (hh_trace h)" by (cases ev rule: pfEvent.exhaust) (auto simp: isForward_def)
  qed (use fw ps pl pf_streams_unique [OF st] in \<open>auto simp: pf_forwards_def pf_pairs_def placed_def\<close>)
qed

text \<open>An older client forwards one connection to port 80: the error stream first, then the data stream.\<close>

definition demo_error :: httpStream where
  "demo_error = \<lparr>hs_Identifier = 1, hs_Headers = [(StreamType, StreamTypeError), (PortHeader, ''80'')]\<rparr>"

definition demo_data :: httpStream where
  "demo_data = \<lparr>hs_Identifier = 3, hs_Headers = [(StreamType, StreamTypeData), (PortHeader, ''80'')]\<rparr>"

definition demo_moves :: "pfMove list" where
  "demo_moves = [Arrive demo_error, Receive, AddStream, Arrive demo_data, Receive, AddStream, SeeComplete 0, RunForward 0 (Inr ()), RemovePair 0]"

definition demo_end :: "httpStreamHandler \<times> httpStream list" where
  "demo_end = the (pf_moves demo_moves (newHandler ''conn'' ''pod'' [], []))"

lemma demo_run:
  "pf_moves demo_moves (newHandler ''conn'' ''pod'' [], []) = Some (fst demo_end, snd demo_end)" (is "?m = _")
  "hh_forwards (fst demo_end) = []" "hh_streamPairs (fst demo_end) ''1'' = None"
  "\<exists>pair. hh_heap (fst demo_end) 0 = Some pair \<and> both pair" (is ?pair)
proof -
  have "?m \<noteq> None" by code_simp
  then show "?m = Some (fst demo_end, snd demo_end)" by (simp add: demo_end_def)
  show "hh_forwards (fst demo_end) = []" by code_simp
  show "hh_streamPairs (fst demo_end) ''1'' = None" by code_simp
  have "(case hh_heap (fst demo_end) 0 of None \<Rightarrow> False | Some pair \<Rightarrow> both pair)" by code_simp
  then show ?pair by (simp split: option.splits)
qed

theorem port_forward_streams_correct_witness:
  "(\<exists>port. PFForward 0 port \<in> set (hh_trace (fst demo_end))) \<and> \<not> hh_panic (fst demo_end)"
  using port_forward_streams_correct [OF demo_run(1)] demo_run(2,4) by blast

end
