(* ===== verification/RemoteCommand.thy ===== *)
theory RemoteCommand
  imports HttpStream StreamServer
begin

section \<open>Streams of a remote command\<close>

text \<open>
  \<^verbatim>\<open>pkg/streaming/remotecommand\<close>: a client that executes a command or attaches to a container opens a stream for standard input,
  output and error as it asked for, one for the final status and, on a terminal, one for its size; over SPDY one by one
  (\<^verbatim>\<open>httpstream.go\<close>, four versions of the protocol), over a WebSocket as numbered channels (\<^verbatim>\<open>websocket.go\<close>). Then the command runs and its
  outcome is written to the status stream (\<^verbatim>\<open>exec.go\<close>, \<^verbatim>\<open>attach.go\<close>). What happens while the server waits for streams is a list
  of events, the cases that its \<^verbatim>\<open>select\<close> takes. \<^verbatim>\<open>json.Marshal\<close> of a status is an argument.
\<close>

definition NewOptions :: "(string \<Rightarrow> string) \<Rightarrow> streamOptions result" where
  "NewOptions FormValue =
     (let tty = (FormValue ''tty'' = ''1'');
          stdin = (FormValue ''input'' = ''1'');
          stdout = (FormValue ''output'' = ''1'');
          stderr = (FormValue ''error'' = ''1'' \<and> \<not> tty)
      in if \<not> stdin \<and> \<not> stdout \<and> \<not> stderr then Inl (Errorf ''you must specify at least 1 of stdin, stdout, stderr'' [])
         else Inr \<lparr>so_Stdin = stdin, so_Stdout = stdout, so_Stderr = stderr, so_Tty = tty\<rparr>)"

subsection \<open>Protocols\<close>

datatype protocolHandler = V1 | V2 | V3 | V4

abbreviation StreamProtocolV1Name :: string where "StreamProtocolV1Name \<equiv> ''channel.k8s.io''"
abbreviation StreamProtocolV2Name :: string where "StreamProtocolV2Name \<equiv> ''v2.channel.k8s.io''"
abbreviation StreamProtocolV3Name :: string where "StreamProtocolV3Name \<equiv> ''v3.channel.k8s.io''"
abbreviation StreamProtocolV4Name :: string where "StreamProtocolV4Name \<equiv> ''v4.channel.k8s.io''"

definition SupportedStreamingProtocols :: "string list" where
  "SupportedStreamingProtocols = [StreamProtocolV4Name, StreamProtocolV3Name, StreamProtocolV2Name, StreamProtocolV1Name]"

definition handlerOf :: "string \<Rightarrow> protocolHandler option" where
  "handlerOf protocol =
     (if protocol = StreamProtocolV4Name then Some V4
      else if protocol = StreamProtocolV3Name then Some V3
      else if protocol = StreamProtocolV2Name then Some V2
      else if protocol = [] \<or> protocol = StreamProtocolV1Name then Some V1
      else None)"

fun supportsTerminalResizing :: "protocolHandler \<Rightarrow> bool" where
  "supportsTerminalResizing V4 = True"
| "supportsTerminalResizing V3 = True"
| "supportsTerminalResizing V2 = False"
| "supportsTerminalResizing V1 = False"

text \<open>The number of streams the client asked for, starting with the one for the status.\<close>

definition expectedStreams :: "streamOptions \<Rightarrow> protocolHandler \<Rightarrow> nat" where
  "expectedStreams opts v =
     1 + (if so_Stdin opts then 1 else 0) + (if so_Stdout opts then 1 else 0) + (if so_Stderr opts then 1 else 0) +
     (if so_Tty opts \<and> supportsTerminalResizing v then 1 else 0)"

datatype 's statusWriter = V1WriteStatus 's | V4WriteStatus 's

record 's rcContext =
  rc_stdinStream :: "'s option"
  rc_stdoutStream :: "'s option"
  rc_stderrStream :: "'s option"
  rc_writeStatus :: "'s statusWriter option"
  rc_resizeStream :: "'s option"
  rc_tty :: bool

definition newContext :: "'s rcContext" where
  "newContext = \<lparr>rc_stdinStream = None, rc_stdoutStream = None, rc_stderrStream = None, rc_writeStatus = None, rc_resizeStream = None, rc_tty = False\<rparr>"

subsection \<open>Waiting for the streams\<close>

text \<open>The switch on the type of a new stream; \<open>None\<close> is an unexpected type, which is logged.\<close>

definition takeStream :: "protocolHandler \<Rightarrow> httpStream \<Rightarrow> httpStream rcContext \<Rightarrow> httpStream rcContext option" where
  "takeStream v stream ctx =
     (let streamType = Headers_Get stream StreamType in
      if streamType = StreamTypeError then Some (ctx\<lparr>rc_writeStatus := Some (if v = V4 then V4WriteStatus stream else V1WriteStatus stream)\<rparr>)
      else if streamType = StreamTypeStdin then Some (ctx\<lparr>rc_stdinStream := Some stream\<rparr>)
      else if streamType = StreamTypeStdout then Some (ctx\<lparr>rc_stdoutStream := Some stream\<rparr>)
      else if streamType = StreamTypeStderr then Some (ctx\<lparr>rc_stderrStream := Some stream\<rparr>)
      else if streamType = StreamTypeResize \<and> supportsTerminalResizing v then Some (ctx\<lparr>rc_resizeStream := Some stream\<rparr>)
      else None)"

text \<open>
  A stream that is taken starts a goroutine (\<^verbatim>\<open>waitStreamReply\<close>) that sends to \<^verbatim>\<open>replyChan\<close> once the reply to the client is
  enqueued; \<open>ws_waiting\<close> counts those that have not yet. \<open>ws_resets\<close> are the deferred resets of the first protocol.
\<close>

datatype rcEvent = GotStream httpStream | GotReply | Expired
datatype 's rcEffect = RcReset 's | RcClose 's | RcRun "'s rcContext" | RcWrite 's string | RcCloseConn

record waitState =
  ws_ctx :: "httpStream rcContext"
  ws_received :: nat
  ws_waiting :: nat
  ws_resets :: "httpStream list"

datatype waitResult =
    WaitPending waitState
  | WaitReady "httpStream rcContext" "httpStream rcEffect list"
  | WaitTimeout goerror "httpStream rcEffect list"

definition waitReady :: "protocolHandler \<Rightarrow> waitState \<Rightarrow> waitResult" where
  "waitReady v st =
     WaitReady (ws_ctx st)
       ((if v = V1 then (case rc_stdinStream (ws_ctx st) of None \<Rightarrow> [] | Some s \<Rightarrow> [RcClose s]) else []) @ map RcReset (ws_resets st))"

fun waitForStreams :: "protocolHandler \<Rightarrow> nat \<Rightarrow> rcEvent list \<Rightarrow> waitState \<Rightarrow> waitResult" where
  "waitForStreams v expected [] st = WaitPending st"
| "waitForStreams v expected (GotStream stream # evs) st =
     (case takeStream v stream (ws_ctx st) of
        None \<Rightarrow> waitForStreams v expected evs st
      | Some ctx \<Rightarrow>
          waitForStreams v expected evs (st\<lparr>ws_ctx := ctx, ws_waiting := Suc (ws_waiting st),
            ws_resets := (if v = V1 \<and> Headers_Get stream StreamType = StreamTypeError then stream # ws_resets st else ws_resets st)\<rparr>))"
| "waitForStreams v expected (GotReply # evs) st =
     (if ws_waiting st = 0 then WaitPending st
      else let st' = st\<lparr>ws_received := Suc (ws_received st), ws_waiting := ws_waiting st - 1\<rparr> in
        if ws_received st' = expected then waitReady v st' else waitForStreams v expected evs st')"
| "waitForStreams v expected (Expired # evs) st =
     WaitTimeout (Errorf ''timed out waiting for client to create streams'' []) (map RcReset (ws_resets st))"

definition waitStart :: waitState where
  "waitStart = \<lparr>ws_ctx = newContext, ws_received = 0, ws_waiting = 0, ws_resets = []\<rparr>"

subsection \<open>Creating the streams\<close>

datatype 's createResult =
    CreateOk "'s rcContext" "'s rcEffect list"
  | CreateFailed "'s rcEffect list"
  | CreateWaiting
  | CreatePanic

definition createHTTPStreamStreams :: "string list \<Rightarrow> string list \<Rightarrow> bool \<Rightarrow> streamOptions \<Rightarrow> rcEvent list \<Rightarrow> httpStream createResult" where
  "createHTTPStreamStreams offered supportedStreamProtocols upgraded opts evs =
     (case Handshake offered supportedStreamProtocols of
        Inl err \<Rightarrow> CreateFailed []
      | Inr protocol \<Rightarrow>
          if \<not> upgraded then CreateFailed []
          else case handlerOf protocol of
            None \<Rightarrow> CreatePanic
          | Some handler \<Rightarrow>
              (case waitForStreams handler (expectedStreams opts handler) evs waitStart of
                 WaitPending st \<Rightarrow> CreateWaiting
               | WaitTimeout err effs \<Rightarrow> CreateFailed effs
               | WaitReady ctx effs \<Rightarrow> CreateOk (ctx\<lparr>rc_tty := so_Tty opts\<rparr>) effs))"

datatype channelType = IgnoreChannel | ReadChannel | WriteChannel | ReadWriteChannel

definition readChannel :: "bool \<Rightarrow> channelType" where
  "readChannel real = (if real then ReadChannel else IgnoreChannel)"

definition writeChannel :: "bool \<Rightarrow> channelType" where
  "writeChannel real = (if real then WriteChannel else IgnoreChannel)"

definition createChannels :: "streamOptions \<Rightarrow> channelType list" where
  "createChannels opts = [readChannel (so_Stdin opts), writeChannel (so_Stdout opts), writeChannel (so_Stderr opts), WriteChannel, ReadChannel]"

abbreviation v4BinaryWebsocketProtocol :: string where "v4BinaryWebsocketProtocol \<equiv> ''v4.channel.k8s.io''"
abbreviation v4Base64WebsocketProtocol :: string where "v4Base64WebsocketProtocol \<equiv> ''v4.base64.channel.k8s.io''"

text \<open>\<open>opened\<close> is the result of \<^verbatim>\<open>conn.Open\<close> for the channels that it gets: the protocol and a stream for each channel.\<close>

definition createWebSocketStreams :: "(channelType list \<Rightarrow> (string \<times> 's list) result) \<Rightarrow> streamOptions \<Rightarrow> 's createResult" where
  "createWebSocketStreams opened opts =
     (case opened (createChannels opts) of
        Inl err \<Rightarrow> CreateFailed []
      | Inr (negotiatedProtocol, streams) \<Rightarrow>
          (let hello = (if so_Stdout opts then RcWrite (streams ! 1) [] else if so_Stderr opts then RcWrite (streams ! 2) [] else RcWrite (streams ! 3) [])
           in CreateOk
             \<lparr>rc_stdinStream = Some (streams ! 0), rc_stdoutStream = Some (streams ! 1), rc_stderrStream = Some (streams ! 2),
              rc_writeStatus = Some (if negotiatedProtocol \<in> {v4BinaryWebsocketProtocol, v4Base64WebsocketProtocol}
                                     then V4WriteStatus (streams ! 3) else V1WriteStatus (streams ! 3)),
              rc_resizeStream = Some (streams ! 4), rc_tty = so_Tty opts\<rparr> [hello]))"

text \<open>\<^verbatim>\<open>handleResizeEvents\<close>: the sizes sent to the channel, from what the decoder returns; it stops at the first error.\<close>

fun handleResizeEvents :: "(16 word \<times> 16 word) result list \<Rightarrow> (16 word \<times> 16 word) list" where
  "handleResizeEvents (Inr sz # ds) = sz # handleResizeEvents ds"
| "handleResizeEvents _ = []"

text \<open>\<^verbatim>\<open>createStreams\<close>, for the kind of connection that the request asks for, and the sizes that the command's terminal gets.\<close>

definition createStreams :: "bool \<Rightarrow> 's createResult \<Rightarrow> 's createResult \<Rightarrow> (16 word \<times> 16 word) result list \<Rightarrow>
    's createResult \<times> (16 word \<times> 16 word) list option" where
  "createStreams isWebSocket socket http decoded =
     (let created = (if isWebSocket then socket else http) in
      (created, case created of
         CreateOk ctx _ \<Rightarrow> (if rc_resizeStream ctx \<noteq> None then Some (handleResizeEvents decoded) else None)
       | _ \<Rightarrow> None))"

subsection \<open>Reporting the outcome\<close>

record k8sStatus =
  ks_Status :: string
  ks_Code :: int
  ks_Reason :: string
  ks_Causes :: "(string \<times> string) list"
  ks_Message :: string

abbreviation StatusSuccess :: string where "StatusSuccess \<equiv> ''Success''"
abbreviation StatusFailure :: string where "StatusFailure \<equiv> ''Failure''"

definition successStatus :: k8sStatus where
  "successStatus = \<lparr>ks_Status = StatusSuccess, ks_Code = 0, ks_Reason = [], ks_Causes = [], ks_Message = []\<rparr>"

definition NewInternalError :: "goerror \<Rightarrow> k8sStatus" where
  "NewInternalError err = \<lparr>ks_Status = StatusFailure, ks_Code = 500, ks_Reason = ''InternalError'', ks_Causes = [([], Error err)],
     ks_Message = formatMsg ''Internal error occurred: %v'' [Error err]\<rparr>"

definition exitStatus :: "nat \<Rightarrow> goerror \<Rightarrow> k8sStatus" where
  "exitStatus rc err = \<lparr>ks_Status = StatusFailure, ks_Code = 0, ks_Reason = ''NonZeroExitCode'', ks_Causes = [(''ExitCode'', Itoa rc)],
     ks_Message = formatMsg ''command terminated with non-zero exit code: %v'' [Error err]\<rparr>"

text \<open>\<^verbatim>\<open>v1WriteStatusFunc\<close> writes the message of a failure, \<^verbatim>\<open>v4WriteStatusFunc\<close> the status itself.\<close>

fun rcWriteStatus :: "(k8sStatus \<Rightarrow> string result) \<Rightarrow> 's statusWriter \<Rightarrow> k8sStatus \<Rightarrow> 's rcEffect list" where
  "rcWriteStatus marshal (V1WriteStatus stream) status = (if ks_Status status = StatusSuccess then [] else [RcWrite stream (ks_Message status)])"
| "rcWriteStatus marshal (V4WriteStatus stream) status = (case marshal status of Inl err \<Rightarrow> [] | Inr bs \<Rightarrow> [RcWrite stream bs])"

text \<open>What the server did for a request; a call of the \<^verbatim>\<open>nil\<close> function panics, after which the connection is closed all the same.\<close>

datatype 's served = Served "'s rcEffect list" | ServePanic "'s rcEffect list"

definition serveWith :: "(k8sStatus \<Rightarrow> string result) \<Rightarrow> k8sStatus \<Rightarrow> 's createResult \<Rightarrow> 's served" where
  "serveWith marshal status created =
     (case created of
        CreateOk ctx effs \<Rightarrow>
          (case rc_writeStatus ctx of
             None \<Rightarrow> ServePanic (effs @ [RcRun ctx, RcCloseConn])
           | Some w \<Rightarrow> Served (effs @ [RcRun ctx] @ rcWriteStatus marshal w status @ [RcCloseConn]))
      | CreateFailed effs \<Rightarrow> Served effs
      | CreateWaiting \<Rightarrow> Served []
      | CreatePanic \<Rightarrow> ServePanic [])"

datatype execAnswer = ExecDone | ExecExit nat goerror | ExecFail goerror

text \<open>The executor: \<^verbatim>\<open>criAdapter.ExecInContainer\<close> and \<^verbatim>\<open>streamRuntime.Exec\<close>, with the \<^verbatim>\<open>CodeExitError\<close> that carries the exit code.\<close>

definition ExecInContainer :: "execEnv \<Rightarrow> svc \<Rightarrow> string \<Rightarrow> string list \<Rightarrow> bool \<Rightarrow> bool \<Rightarrow> execAnswer" where
  "ExecInContainer env s i cmd stdin tty =
     (case fst (execInContainer env s i \<lparr>xo_cmd = cmd, xo_stdin = stdin, xo_tty = tty, xo_timeout = 0\<rparr> []) of
        Inl err \<Rightarrow> ExecFail (Wrapf err ''failed to exec in container'' [])
      | Inr code \<Rightarrow> if code = 0 then ExecDone else ExecExit (unat code) (Errorf ''error executing command %v, exit code %d'' (cmd @ [Itoa (unat code)])))"

definition statusOfExec :: "execAnswer \<Rightarrow> k8sStatus" where
  "statusOfExec ans =
     (case ans of
        ExecDone \<Rightarrow> successStatus
      | ExecExit rc err \<Rightarrow> exitStatus rc err
      | ExecFail err \<Rightarrow> NewInternalError (Errorf ''error executing command in container: %v'' [Error err]))"

definition remoteExec :: "(k8sStatus \<Rightarrow> string result) \<Rightarrow> execEnv \<Rightarrow> svc \<Rightarrow> string \<Rightarrow> string list \<Rightarrow> 's createResult \<Rightarrow> 's served" where
  "remoteExec marshal env s i cmd created =
     serveWith marshal
       (case created of CreateOk ctx _ \<Rightarrow> statusOfExec (ExecInContainer env s i cmd (rc_stdinStream ctx \<noteq> None) (rc_tty ctx)) | _ \<Rightarrow> successStatus) created"

definition remoteAttach :: "(k8sStatus \<Rightarrow> string result) \<Rightarrow> execEnv \<Rightarrow> svc \<Rightarrow> string \<Rightarrow> 's createResult \<Rightarrow> 's served" where
  "remoteAttach marshal env s i created =
     serveWith marshal
       (case created of
          CreateOk ctx _ \<Rightarrow>
            (case fst (attachContainer env s i (rc_tty ctx) []) of
               Inl err \<Rightarrow> NewInternalError (Errorf ''error attaching to container: %v'' [Error err])
             | Inr _ \<Rightarrow> successStatus)
        | _ \<Rightarrow> successStatus) created"

text \<open>The answer of the executor says what \<open>StreamExec\<close> returns.\<close>

lemma ExecInContainer_StreamExec:
  "fst (StreamExec env s i cmd stdin tty []) =
     (case ExecInContainer env s i cmd stdin tty of ExecDone \<Rightarrow> Inr () | ExecExit rc err \<Rightarrow> Inl err | ExecFail err \<Rightarrow> Inl err)"
  by (auto simp: StreamExec_def ExecInContainer_def bindA_def wrapA_def returnA_def failA_def split: prod.splits sum.splits)

subsection \<open>What a context holds\<close>

definition rcSlot :: "string \<Rightarrow> 's rcContext \<Rightarrow> 's option" where
  "rcSlot t ctx =
     (if t = StreamTypeError then map_option (\<lambda>w. case w of V1WriteStatus s \<Rightarrow> s | V4WriteStatus s \<Rightarrow> s) (rc_writeStatus ctx)
      else if t = StreamTypeStdin then rc_stdinStream ctx
      else if t = StreamTypeStdout then rc_stdoutStream ctx
      else if t = StreamTypeStderr then rc_stderrStream ctx
      else if t = StreamTypeResize then rc_resizeStream ctx
      else None)"

definition acceptedTypes :: "protocolHandler \<Rightarrow> string list" where
  "acceptedTypes v = [StreamTypeError, StreamTypeStdin, StreamTypeStdout, StreamTypeStderr] @ (if supportsTerminalResizing v then [StreamTypeResize] else [])"

definition wantedTypes :: "streamOptions \<Rightarrow> protocolHandler \<Rightarrow> string list" where
  "wantedTypes opts v = [StreamTypeError] @ (if so_Stdin opts then [StreamTypeStdin] else []) @ (if so_Stdout opts then [StreamTypeStdout] else []) @
     (if so_Stderr opts then [StreamTypeStderr] else []) @ (if so_Tty opts \<and> supportsTerminalResizing v then [StreamTypeResize] else [])"

lemma wantedTypes_expected: "length (wantedTypes opts v) = expectedStreams opts v" "distinct (wantedTypes opts v)" "set (wantedTypes opts v) \<subseteq> set (acceptedTypes v)"
  by (auto simp: wantedTypes_def expectedStreams_def acceptedTypes_def)

lemma takeStream_Some:
  assumes "takeStream v s ctx = Some ctx'"
  shows "Headers_Get s StreamType \<in> set (acceptedTypes v)"
    "rcSlot t ctx' = (if t = Headers_Get s StreamType then Some s else rcSlot t ctx)"
proof -
  from assms consider
      (error) "Headers_Get s StreamType = StreamTypeError" "ctx' = ctx\<lparr>rc_writeStatus := Some (if v = V4 then V4WriteStatus s else V1WriteStatus s)\<rparr>"
    | (stdin) "Headers_Get s StreamType = StreamTypeStdin" "ctx' = ctx\<lparr>rc_stdinStream := Some s\<rparr>"
    | (stdout) "Headers_Get s StreamType = StreamTypeStdout" "ctx' = ctx\<lparr>rc_stdoutStream := Some s\<rparr>"
    | (stderr) "Headers_Get s StreamType = StreamTypeStderr" "ctx' = ctx\<lparr>rc_stderrStream := Some s\<rparr>"
    | (resize) "Headers_Get s StreamType = StreamTypeResize" "ctx' = ctx\<lparr>rc_resizeStream := Some s\<rparr>" "supportsTerminalResizing v"
    unfolding takeStream_def Let_def by (simp split: if_split_asm)
  note cases = this
  from cases show "Headers_Get s StreamType \<in> set (acceptedTypes v)" by cases (simp_all add: acceptedTypes_def)
  from cases show "rcSlot t ctx' = (if t = Headers_Get s StreamType then Some s else rcSlot t ctx)" by cases (simp_all add: rcSlot_def)
qed

lemma takeStream_None: "takeStream v s ctx = None \<longleftrightarrow> Headers_Get s StreamType \<notin> set (acceptedTypes v)"
  by (auto simp: takeStream_def acceptedTypes_def Let_def)

definition filled :: "'s rcContext \<Rightarrow> string set" where
  "filled ctx = {t. rcSlot t ctx \<noteq> None}"

lemma finite_filled [simp]: "finite (filled ctx)"
  by (rule finite_subset [of _ "{StreamTypeError, StreamTypeStdin, StreamTypeStdout, StreamTypeStderr, StreamTypeResize}"])
     (auto simp: filled_def rcSlot_def split: if_splits)

lemma filled_new [simp]: "filled newContext = {}"
  by (auto simp: filled_def newContext_def rcSlot_def)

lemma filled_take: "takeStream v s ctx = Some ctx' \<Longrightarrow> filled ctx' = insert (Headers_Get s StreamType) (filled ctx)"
  using takeStream_Some(2) by (auto simp: filled_def)

fun openedTypes :: "rcEvent list \<Rightarrow> string list" where
  "openedTypes [] = []"
| "openedTypes (GotStream s # evs) = Headers_Get s StreamType # openedTypes evs"
| "openedTypes (_ # evs) = openedTypes evs"

text \<open>A reply needs a stream that has been taken before.\<close>

fun repliesOk :: "protocolHandler \<Rightarrow> rcEvent list \<Rightarrow> nat \<Rightarrow> bool" where
  "repliesOk v [] w = True"
| "repliesOk v (GotStream s # evs) w = repliesOk v evs (if Headers_Get s StreamType \<in> set (acceptedTypes v) then Suc w else w)"
| "repliesOk v (GotReply # evs) w = (0 < w \<and> repliesOk v evs (w - 1))"
| "repliesOk v (Expired # evs) w = False"

definition writerOk :: "protocolHandler \<Rightarrow> 's rcContext \<Rightarrow> bool" where
  "writerOk v ctx \<longleftrightarrow> (\<forall>w. rc_writeStatus ctx = Some w \<longrightarrow> (\<exists>s. w = (if v = V4 then V4WriteStatus s else V1WriteStatus s)))"

lemma writerOk_take: "writerOk v ctx \<Longrightarrow> takeStream v s ctx = Some ctx' \<Longrightarrow> writerOk v ctx'"
  by (auto simp: writerOk_def takeStream_def Let_def split: if_splits)

subsection \<open>Waiting\<close>

text \<open>What is in the context at the end came from the client, and there are as many streams as expected if no type was opened twice.\<close>

lemma wait_ready:
  assumes "waitForStreams v n evs st = WaitReady ctx effs" "writerOk v (ws_ctx st)"
  shows "writerOk v ctx \<and> (\<forall>t s. rcSlot t ctx = Some s \<longrightarrow> rcSlot t (ws_ctx st) = Some s \<or> GotStream s \<in> set evs \<and> Headers_Get s StreamType = t)"
  using assms
proof (induction v n evs st rule: waitForStreams.induct)
  case (2 v n s evs st)
  show ?case
  proof (cases "takeStream v s (ws_ctx st)")
    case None
    with 2 show ?thesis by auto
  next
    case (Some c)
    have IH: "writerOk v ctx \<and> (\<forall>t x. rcSlot t ctx = Some x \<longrightarrow> rcSlot t c = Some x \<or> GotStream x \<in> set evs \<and> Headers_Get x StreamType = t)"
      using 2(2) [OF Some] 2(3) writerOk_take [OF 2(4) Some] Some by simp
    then show ?thesis using takeStream_Some(2) [OF Some] by (auto split: if_splits)
  qed
qed (auto simp: waitReady_def Let_def split: if_splits)

lemma wait_ready_count:
  assumes "waitForStreams v n evs st = WaitReady ctx effs" "distinct (openedTypes evs)" "set (openedTypes evs) \<inter> filled (ws_ctx st) = {}"
    and "ws_received st + ws_waiting st \<le> card (filled (ws_ctx st))"
  shows "n \<le> card (filled ctx)"
  using assms
proof (induction v n evs st rule: waitForStreams.induct)
  case (2 v n s evs st)
  show ?case
  proof (cases "takeStream v s (ws_ctx st)")
    case None
    with 2 show ?thesis by auto
  next
    case (Some c)
    have new: "Headers_Get s StreamType \<notin> filled (ws_ctx st)" using 2(5) by simp
    show ?thesis by (rule 2(2) [OF Some]) (use 2(3-6) Some new filled_take [OF Some] in auto)
  qed
next
  case (3 v n evs st)
  show ?case
  proof (cases "Suc (ws_received st) = n")
    case True
    with 3 show ?thesis by (auto simp: waitReady_def Let_def split: if_splits)
  next
    case False
    have w: "ws_waiting st \<noteq> 0" using 3(2) by (auto split: if_splits)
    show ?thesis by (rule 3(1) [OF w refl]) (use 3(2-5) False w in simp_all)
  qed
qed auto

text \<open>Streams and replies in any order: enough replies end the wait.\<close>

lemma wait_progress:
  assumes "repliesOk v evs (ws_waiting st)" "ws_received st < n" "n \<le> ws_received st + count_list evs GotReply"
  shows "\<exists>ctx effs. waitForStreams v n evs st = WaitReady ctx effs"
  using assms
proof (induction v n evs st rule: waitForStreams.induct)
  case (2 v n s evs st)
  then show ?case using takeStream_None [of v s] takeStream_Some(1) [of v s] by (auto split: option.splits)
next
  case (3 v n evs st)
  then show ?case by (auto simp: waitReady_def Let_def)
qed auto

lemma wait_effects:
  "waitForStreams v n evs st = WaitTimeout err effs \<Longrightarrow> RcRun ctx \<notin> set effs"
  by (induction v n evs st rule: waitForStreams.induct) (auto simp: waitReady_def Let_def split: if_splits option.splits)

subsection \<open>The properties\<close>

lemma handlerOf_supported: "p \<in> set SupportedStreamingProtocols \<Longrightarrow> \<exists>v. handlerOf p = Some v"
  by (auto simp: SupportedStreamingProtocols_def handlerOf_def)

lemma createHTTP_handler:
  assumes "Handshake offered protocols = Inr p" "handlerOf p = Some v"
  shows "createHTTPStreamStreams offered protocols True opts evs =
    (case waitForStreams v (expectedStreams opts v) evs waitStart of
       WaitPending st \<Rightarrow> CreateWaiting | WaitTimeout err effs \<Rightarrow> CreateFailed effs | WaitReady ctx effs \<Rightarrow> CreateOk (ctx\<lparr>rc_tty := so_Tty opts\<rparr>) effs)"
  using assms by (simp add: createHTTPStreamStreams_def)

lemma waitStart_simps [simp]:
  "ws_ctx waitStart = newContext" "ws_received waitStart = 0" "ws_waiting waitStart = 0" "ws_resets waitStart = []" "writerOk v newContext"
  by (simp_all add: waitStart_def writerOk_def newContext_def)

lemma rcSlot_tty [simp]: "rcSlot t (ctx\<lparr>rc_tty := b\<rparr>) = rcSlot t ctx"
  by (simp add: rcSlot_def)

lemma writerOk_tty [simp]: "writerOk v (ctx\<lparr>rc_tty := b\<rparr>) = writerOk v ctx"
  by (simp add: writerOk_def)

lemma rcSlot_new [simp]: "rcSlot t newContext = None"
  by (simp add: rcSlot_def newContext_def)

lemma openedTypes_mem: "GotStream s \<in> set evs \<Longrightarrow> Headers_Get s StreamType \<in> set (openedTypes evs)"
  by (induction evs rule: openedTypes.induct) auto

lemma no_status_stream:
  assumes w: "waitForStreams v n evs waitStart = WaitReady ctx effs" and t: "StreamTypeError \<notin> set (openedTypes evs)"
  shows "rc_writeStatus ctx = None"
proof (rule ccontr)
  assume "rc_writeStatus ctx \<noteq> None"
  then obtain y where "rcSlot StreamTypeError ctx = Some y" by (auto simp: rcSlot_def)
  with wait_ready [OF w] have "GotStream y \<in> set evs" "Headers_Get y StreamType = StreamTypeError" by auto
  with t openedTypes_mem show False by metis
qed

lemma honest_context:
  assumes w: "waitForStreams v (expectedStreams opts v) evs waitStart = WaitReady ctx effs"
    and honest: "distinct (openedTypes evs)" "set (openedTypes evs) \<subseteq> set (wantedTypes opts v)"
  shows "filled ctx = set (wantedTypes opts v)"
proof -
  have sub: "filled ctx \<subseteq> set (wantedTypes opts v)"
    using wait_ready [OF w] honest(2) openedTypes_mem by (fastforce simp: filled_def)
  have "card (set (wantedTypes opts v)) \<le> card (filled ctx)"
    using wait_ready_count [OF w honest(1)] wantedTypes_expected(1,2) [of opts v] by (simp add: distinct_card)
  with sub show ?thesis by (simp add: card_seteq)
qed

text \<open>What is known of the context when the streams have been created.\<close>

lemma created_ok:
  assumes hs: "Handshake offered SupportedStreamingProtocols = Inr p" "handlerOf p = Some v"
    and c: "createHTTPStreamStreams offered SupportedStreamingProtocols True opts evs = CreateOk ctx effs"
  shows "rc_tty ctx = so_Tty opts" "writerOk v ctx"
    and "rcSlot t ctx = Some x \<Longrightarrow> GotStream x \<in> set evs \<and> Headers_Get x StreamType = t"
    and "distinct (openedTypes evs) \<Longrightarrow> set (openedTypes evs) \<subseteq> set (wantedTypes opts v) \<Longrightarrow> rcSlot t ctx \<noteq> None \<longleftrightarrow> t \<in> set (wantedTypes opts v)"
    and "StreamTypeError \<notin> set (openedTypes evs) \<Longrightarrow> rc_writeStatus ctx = None"
proof -
  obtain ctx0 where w: "waitForStreams v (expectedStreams opts v) evs waitStart = WaitReady ctx0 effs" "ctx = ctx0\<lparr>rc_tty := so_Tty opts\<rparr>"
    using c unfolding createHTTP_handler [OF hs] by (auto split: waitResult.splits)
  show "rc_tty ctx = so_Tty opts" "writerOk v ctx" using conjunct1 [OF wait_ready [OF w(1)]] w(2) by simp_all
  show "rcSlot t ctx = Some x \<Longrightarrow> GotStream x \<in> set evs \<and> Headers_Get x StreamType = t" using wait_ready [OF w(1)] w(2) by auto
  show "distinct (openedTypes evs) \<Longrightarrow> set (openedTypes evs) \<subseteq> set (wantedTypes opts v) \<Longrightarrow> rcSlot t ctx \<noteq> None \<longleftrightarrow> t \<in> set (wantedTypes opts v)"
    using honest_context [OF w(1)] w(2) unfolding filled_def by auto
  show "StreamTypeError \<notin> set (openedTypes evs) \<Longrightarrow> rc_writeStatus ctx = None" using no_status_stream [OF w(1)] w(2) by simp
qed

lemma served_status:
  assumes "rc_tty ctx = so_Tty opts" "writerOk v ctx" "\<And>t. rcSlot t ctx \<noteq> None \<longleftrightarrow> t \<in> set (wantedTypes opts v)"
  shows "\<exists>e. rcSlot StreamTypeError ctx = Some e \<and>
    remoteExec marshal env s i cmd (CreateOk ctx effs) =
      Served (effs @ [RcRun ctx] @
        rcWriteStatus marshal (if v = V4 then V4WriteStatus e else V1WriteStatus e) (statusOfExec (ExecInContainer env s i cmd (so_Stdin opts) (so_Tty opts))) @
        [RcCloseConn])"
proof -
  have "rcSlot StreamTypeError ctx \<noteq> None" using assms(3) by (simp add: wantedTypes_def)
  then obtain wr where wr: "rc_writeStatus ctx = Some wr" by (auto simp: rcSlot_def)
  then obtain e where e: "wr = (if v = V4 then V4WriteStatus e else V1WriteStatus e)" using assms(2) by (auto simp: writerOk_def)
  have "rcSlot StreamTypeStdin ctx \<noteq> None \<longleftrightarrow> so_Stdin opts" using assms(3) [of StreamTypeStdin] by (auto simp: wantedTypes_def)
  then have "(rc_stdinStream ctx \<noteq> None) = so_Stdin opts" by (simp add: rcSlot_def)
  then show ?thesis using wr e assms(1) by (intro exI [of _ e]) (simp add: remoteExec_def serveWith_def rcSlot_def)
qed

text \<open>
  C30: a client that speaks a supported protocol. If it opens no stream twice and none that it did not ask for, and the command is run, then the command has
  exactly the streams that the client asked for, each the one that the client opened for it, and the terminal as asked for; the
  outcome of the command in the container is written to the status stream, in the form of the protocol version, before the connection is
  closed, and there is no panic. The command is run if the streams and their replies come before the timer, in any order. If the streams are not there in time, nothing runs.
  But the streams are only counted: when a client opens one twice and none for the status, the command is run and then the server calls
  the function that writes the status, which is \<^verbatim>\<open>nil\<close>, and panics.
\<close>

theorem remote_exec_correct:
  assumes hs: "Handshake offered SupportedStreamingProtocols = Inr p" "handlerOf p = Some v"
    and c: "createHTTPStreamStreams offered SupportedStreamingProtocols True opts evs = created"
  shows "(\<forall>ctx effs. created = CreateOk ctx effs \<longrightarrow> distinct (openedTypes evs) \<longrightarrow> set (openedTypes evs) \<subseteq> set (wantedTypes opts v) \<longrightarrow>
      rc_tty ctx = so_Tty opts \<and> (\<forall>t. rcSlot t ctx \<noteq> None \<longleftrightarrow> t \<in> set (wantedTypes opts v)) \<and>
      (\<forall>t x. rcSlot t ctx = Some x \<longrightarrow> GotStream x \<in> set evs \<and> Headers_Get x StreamType = t) \<and>
      (\<exists>e. rcSlot StreamTypeError ctx = Some e \<and>
         remoteExec marshal env s i cmd created =
           Served (effs @ [RcRun ctx] @
             rcWriteStatus marshal (if v = V4 then V4WriteStatus e else V1WriteStatus e) (statusOfExec (ExecInContainer env s i cmd (so_Stdin opts) (so_Tty opts))) @
             [RcCloseConn]))) \<and>
    (repliesOk v evs 0 \<and> expectedStreams opts v \<le> count_list evs GotReply \<longrightarrow> (\<exists>ctx effs. created = CreateOk ctx effs)) \<and>
    (\<forall>effs ctx. created = CreateFailed effs \<longrightarrow> remoteExec marshal env s i cmd created = Served effs \<and> RcRun ctx \<notin> set effs) \<and>
    (\<forall>ctx effs. created = CreateOk ctx effs \<longrightarrow> StreamTypeError \<notin> set (openedTypes evs) \<longrightarrow>
       remoteExec marshal env s i cmd created = ServePanic (effs @ [RcRun ctx, RcCloseConn]))"
proof -
  note created = c [unfolded createHTTP_handler [OF hs], symmetric]
  note ok = created_ok [OF hs]
  show ?thesis
  proof (intro conjI allI impI, goal_cases)
    case (5 ctx effs)
    with c have o: "createHTTPStreamStreams offered SupportedStreamingProtocols True opts evs = CreateOk ctx effs" by simp
    from served_status [OF ok(1) [OF o] ok(2) [OF o] ok(4) [OF o 5(2,3)]] 5(1) show ?case by simp
  next
    case 6
    then have "\<exists>ctx effs. waitForStreams v (expectedStreams opts v) evs waitStart = WaitReady ctx effs"
      by (intro wait_progress) (simp_all add: expectedStreams_def)
    then show ?case using created by auto
  next
    case (8 effs ctx)
    then show ?case using created wait_effects by (auto split: waitResult.splits)
  next
    case (9 ctx effs)
    then show ?case using ok(5) c by (simp add: remoteExec_def serveWith_def)
  qed (use c ok in \<open>simp_all add: remoteExec_def serveWith_def\<close>)
qed

definition demo_stream :: "32 word \<Rightarrow> string \<Rightarrow> httpStream" where
  "demo_stream n t = \<lparr>hs_Identifier = n, hs_Headers = [(StreamType, t)]\<rparr>"

definition demo_options :: streamOptions where
  "demo_options = \<lparr>so_Stdin = True, so_Stdout = True, so_Stderr = False, so_Tty = False\<rparr>"

definition demo_events :: "rcEvent list" where
  "demo_events = [GotStream (demo_stream 1 StreamTypeError), GotStream (demo_stream 3 StreamTypeStdin), GotReply, GotStream (demo_stream 5 StreamTypeStdout), GotReply, GotReply]"

theorem remote_exec_correct_witness:
  "\<exists>ctx effs. (\<forall>t. rcSlot t ctx \<noteq> None \<longleftrightarrow> t \<in> {StreamTypeError, StreamTypeStdin, StreamTypeStdout}) \<and>
     remoteExec (\<lambda>st. Inr (concat (map snd (ks_Causes st)))) (exec_env (ProcessExit (Inr 3))) (example_svc (zero_status\<lparr>st_CreatedAt := 1, st_StartedAt := 2\<rparr>)) ''c'' [''ls'']
       (createHTTPStreamStreams [StreamProtocolV4Name] SupportedStreamingProtocols True demo_options demo_events) =
     Served (effs @ [RcRun ctx, RcWrite (demo_stream 1 StreamTypeError) ''3'', RcCloseConn])"
proof -
  have hs: "Handshake [StreamProtocolV4Name] SupportedStreamingProtocols = Inr StreamProtocolV4Name" "handlerOf StreamProtocolV4Name = Some V4"
    by (simp_all add: Handshake_def SupportedStreamingProtocols_def handlerOf_def)
  have w: "wantedTypes demo_options V4 = [StreamTypeError, StreamTypeStdin, StreamTypeStdout]" by (simp add: wantedTypes_def demo_options_def)
  have o: "openedTypes demo_events = [StreamTypeError, StreamTypeStdin, StreamTypeStdout]" by (simp add: demo_events_def demo_stream_def Headers_Get_def)
  have honest: "distinct (openedTypes demo_events)" "set (openedTypes demo_events) \<subseteq> set (wantedTypes demo_options V4)" by (simp_all add: o w)
  note P = remote_exec_correct [where marshal = "\<lambda>st. Inr (concat (map snd (ks_Causes st)))" and env = "exec_env (ProcessExit (Inr 3))"
          and s = "example_svc (zero_status\<lparr>st_CreatedAt := 1, st_StartedAt := 2\<rparr>)" and i = "''c''" and cmd = "[''ls'']", OF hs refl]
  have "repliesOk V4 demo_events 0 \<and> expectedStreams demo_options V4 \<le> count_list demo_events GotReply"
    by (simp add: demo_events_def demo_stream_def Headers_Get_def acceptedTypes_def expectedStreams_def demo_options_def)
  with P [THEN conjunct2, THEN conjunct1] obtain ctx effs
    where c: "createHTTPStreamStreams [StreamProtocolV4Name] SupportedStreamingProtocols True demo_options demo_events = CreateOk ctx effs" by blast
  have x: "concat (map snd (ks_Causes (statusOfExec
      (ExecInContainer (exec_env (ProcessExit (Inr 3))) (example_svc (zero_status\<lparr>st_CreatedAt := 1, st_StartedAt := 2\<rparr>)) ''c'' [''ls''] True False)))) = ''3''"
    by code_simp
  note Q = P [THEN conjunct1, rule_format, OF c honest]
  obtain e where e: "rcSlot StreamTypeError ctx = Some e"
    "remoteExec (\<lambda>st. Inr (concat (map snd (ks_Causes st)))) (exec_env (ProcessExit (Inr 3))) (example_svc (zero_status\<lparr>st_CreatedAt := 1, st_StartedAt := 2\<rparr>)) ''c'' [''ls'']
       (createHTTPStreamStreams [StreamProtocolV4Name] SupportedStreamingProtocols True demo_options demo_events) = Served (effs @ [RcRun ctx, RcWrite e ''3'', RcCloseConn])"
    using Q [THEN conjunct2, THEN conjunct2, THEN conjunct2] x by (auto simp: demo_options_def)
  have "GotStream e \<in> set demo_events \<and> Headers_Get e StreamType = StreamTypeError" using Q [THEN conjunct2, THEN conjunct2, THEN conjunct1, rule_format, OF e(1)] .
  then have "e = demo_stream 1 StreamTypeError" by (auto simp: demo_events_def demo_stream_def Headers_Get_def)
  with e(2) Q [THEN conjunct2, THEN conjunct1] w show ?thesis by (intro exI [of _ ctx] exI [of _ effs]) simp
qed

lemma count_list_repeated: "count_list (replicate n a) b = (if a = b then n else 0)"
  by (induction n) auto

lemma openedTypes_repeated: "set (openedTypes (replicate n (GotStream x) @ replicate m GotReply)) \<subseteq> {Headers_Get x StreamType}"
proof (induction n)
  case 0
  have "openedTypes (replicate m GotReply) = []" by (induction m) auto
  then show ?case by simp
qed simp

lemma repliesOk_repeated:
  "Headers_Get x StreamType \<in> set (acceptedTypes v) \<Longrightarrow> m \<le> w + n \<Longrightarrow> repliesOk v (replicate n (GotStream x) @ replicate m GotReply) w"
proof (induction n arbitrary: w)
  case 0
  then show ?case by (induction m arbitrary: w) auto
qed simp

text \<open>Such a client exists for every choice of options: it opens the stream for its input (or output, or error) as often as streams are expected.\<close>

lemma repeated_stream_panics:
  assumes hs: "Handshake offered SupportedStreamingProtocols = Inr p" "handlerOf p = Some v"
    and t: "Headers_Get x StreamType \<in> {StreamTypeStdin, StreamTypeStdout, StreamTypeStderr}"
    and evs: "evs = replicate (expectedStreams opts v) (GotStream x) @ replicate (expectedStreams opts v) GotReply"
  shows "\<exists>effs ctx. remoteExec marshal env s i cmd (createHTTPStreamStreams offered SupportedStreamingProtocols True opts evs) = ServePanic effs \<and>
    RcRun ctx \<in> set effs"
proof -
  let ?n = "expectedStreams opts v"
  have x: "Headers_Get x StreamType \<noteq> StreamTypeError" "Headers_Get x StreamType \<in> set (acceptedTypes v)" using t by (auto simp: acceptedTypes_def)
  have "repliesOk v evs (ws_waiting waitStart)" "ws_received waitStart < ?n" "?n \<le> ws_received waitStart + count_list evs GotReply"
    using x(2) by (simp_all add: evs repliesOk_repeated expectedStreams_def count_list_repeated)
  from wait_progress [OF this] obtain ctx effs where w: "waitForStreams v ?n evs waitStart = WaitReady ctx effs" by blast
  have "set (openedTypes evs) \<subseteq> {Headers_Get x StreamType}" unfolding evs by (rule openedTypes_repeated)
  then have "rc_writeStatus ctx = None" using x(1) by (intro no_status_stream [OF w]) auto
  with w show ?thesis by (simp add: createHTTP_handler [OF hs] remoteExec_def serveWith_def) blast
qed

end
