(* ===== verification/PortForwardSockets.thy ===== *)
theory PortForwardSockets
  imports PortForwardStreams RemoteCommand
begin

section \<open>Port forwarding over a WebSocket\<close>

text \<open>
  \<^verbatim>\<open>pkg/streaming/portforward/websocket.go\<close>: a WebSocket connection has two channels for each port of the request, one for the data and one for
  errors. The server first writes the port on both and then forwards every port in a goroutine of its own. What the goroutines do is one
  list of events each; a schedule, the list of the goroutines that take the next steps, merges them. Ports are \<^verbatim>\<open>int32\<close>.
\<close>

fun parsePorts :: "string \<Rightarrow> string list \<Rightarrow> 32 word list result" where
  "parsePorts portString [] = Inr []"
| "parsePorts portString (p # ps) =
     (case ParseUint 16 p of
        Inl err \<Rightarrow> Inl (Errorf ''unable to parse %q as a port: %v'' [portString, Error err])
      | Inr port \<Rightarrow>
          if port < 1 then Inl (Errorf ''port %q must be > 0'' [portString])
          else case parsePorts portString ps of Inl err \<Rightarrow> Inl err | Inr ports \<Rightarrow> Inr (word_of_int port # ports))"

fun portStringsLoop :: "string list \<Rightarrow> 32 word list result" where
  "portStringsLoop [] = Inr []"
| "portStringsLoop (portString # rest) =
     (if portString = [] then Inl (Errorf ''query parameter %q cannot be empty'' [PortHeader])
      else case parsePorts portString (Split (CHR '','') portString) of
        Inl err \<Rightarrow> Inl err
      | Inr ports \<Rightarrow> (case portStringsLoop rest of Inl err \<Rightarrow> Inl err | Inr more' \<Rightarrow> Inr (ports @ more')))"

text \<open>\<open>query\<close> are the values of the parameter \<^verbatim>\<open>port\<close> in the URL.\<close>

definition NewV4Options :: "bool \<Rightarrow> string list \<Rightarrow> 32 word list result" where
  "NewV4Options isWebSocket query =
     (if \<not> isWebSocket then Inr []
      else if query = [] then Inl (Errorf ''query parameter %q is required'' [PortHeader])
      else portStringsLoop query)"

definition BuildV4Options :: "32 word list \<Rightarrow> 32 word list result" where
  "BuildV4Options ports = Inr ports"

record 's websocketStreamPair =
  wp_port :: "32 word"
  wp_dataStream :: 's
  wp_errorStream :: 's

datatype 's wsEvent = WsWrite 's "8 word list" | WsPrint 's string | WsForward int 's | WsClose 's

text \<open>\<^verbatim>\<open>binary.LittleEndian.PutUint16\<close>.\<close>

definition PutUint16 :: "16 word \<Rightarrow> 8 word list" where
  "PutUint16 v = [ucast v, ucast (drop_bit 8 v)]"

definition Uint16 :: "8 word list \<Rightarrow> 16 word" where
  "Uint16 bs = ucast (bs ! 0) + push_bit 8 (ucast (bs ! 1))"

definition portChannels :: "32 word list \<Rightarrow> channelType list" where
  "portChannels ports = concat (map (\<lambda>_. [ReadWriteChannel, WriteChannel]) ports)"

fun streamPairsLoop :: "nat \<Rightarrow> 32 word list \<Rightarrow> 's list \<Rightarrow> 's websocketStreamPair list \<times> 's wsEvent list" where
  "streamPairsLoop i [] streams = ([], [])"
| "streamPairsLoop i (port # ports) streams =
     (let p = \<lparr>wp_port = port, wp_dataStream = streams ! (i * 2), wp_errorStream = streams ! (i * 2 + 1)\<rparr>;
          portBytes = PutUint16 (ucast port); (ps, evs) = streamPairsLoop (Suc i) ports streams
      in (p # ps, WsWrite (wp_dataStream p) portBytes # WsWrite (wp_errorStream p) portBytes # evs))"

text \<open>\<^verbatim>\<open>portForward\<close>: what the forwarder returns for the port is an argument.\<close>

definition socketPortForward :: "string \<Rightarrow> string \<Rightarrow> (int \<Rightarrow> unit result) \<Rightarrow> 's websocketStreamPair \<Rightarrow> 's wsEvent list" where
  "socketPortForward pod uid forward p =
     WsForward (sint (wp_port p)) (wp_dataStream p) #
     (case forward (sint (wp_port p)) of
        Inl err \<Rightarrow> [WsPrint (wp_errorStream p) (formatMsg ''error forwarding port %d to pod %s, uid %v: %v'' [FormatInt (sint (wp_port p)), pod, uid, Error err])]
      | Inr _ \<Rightarrow> []) @ [WsClose (wp_errorStream p), WsClose (wp_dataStream p)]"

text \<open>The goroutines of \<^verbatim>\<open>run\<close>: \<open>sched\<close> says which takes the next step; \<open>None\<close> when one that has ended is scheduled.\<close>

fun runGoroutines :: "nat list \<Rightarrow> 'e list list \<Rightarrow> ('e list \<times> 'e list list) option" where
  "runGoroutines [] gs = Some ([], gs)"
| "runGoroutines (i # sched) gs =
     (if i < length gs then
        (case gs ! i of
           [] \<Rightarrow> None
         | e # es \<Rightarrow> (case runGoroutines sched (gs[i := es]) of None \<Rightarrow> None | Some (tr, gs') \<Rightarrow> Some (e # tr, gs')))
      else None)"

datatype 's socketResult = SocketError goerror | SocketRunning "'s wsEvent list" | SocketDone "'s wsEvent list"

text \<open>\<^verbatim>\<open>wg.Wait\<close> ends when every goroutine has.\<close>

definition handleWebSocketStreams ::
    "string \<Rightarrow> string \<Rightarrow> (int \<Rightarrow> unit result) \<Rightarrow> nat list \<Rightarrow> (channelType list \<Rightarrow> 's list result) \<Rightarrow> 32 word list \<Rightarrow> 's socketResult option" where
  "handleWebSocketStreams pod uid forward sched opened ports =
     (case opened (portChannels ports) of
        Inl err \<Rightarrow> Some (SocketError (Errorf ''unable to upgrade websocket connection: %v'' [Error err]))
      | Inr streams \<Rightarrow>
          (let (pairs, hello) = streamPairsLoop 0 ports streams in
           case runGoroutines sched (map (socketPortForward pod uid forward) pairs) of
             None \<Rightarrow> None
           | Some (tr, gs) \<Rightarrow> Some (if list_all (\<lambda>g. g = []) gs then SocketDone (hello @ tr) else SocketRunning (hello @ tr))))"

text \<open>
  \<^verbatim>\<open>handleHTTPStreams\<close> for a SPDY connection, whose handler takes the moves \<open>ms\<close>, and \<^verbatim>\<open>ServePortForward\<close>, which logs the error.
\<close>

definition handleHTTPStreams ::
    "string list \<Rightarrow> string list \<Rightarrow> bool \<Rightarrow> string \<Rightarrow> string \<Rightarrow> string \<Rightarrow> pfMove list \<Rightarrow> (httpStreamHandler \<times> httpStream list) option result" where
  "handleHTTPStreams offered supported upgraded conn pod uid ms =
     (case Handshake offered supported of
        Inl err \<Rightarrow> Inl err
      | Inr _ \<Rightarrow> if \<not> upgraded then Inl (Errorf ''unable to upgrade httpstream connection'' [])
                 else Inr (pf_moves ms (newHandler conn pod uid, [])))"

datatype ('a, 's) portForwardServed = LoggedError goerror | ServedHTTP 'a | ServedSocket "'s socketResult option"

definition servePortForwardStreams ::
    "bool \<Rightarrow> 's socketResult option \<Rightarrow> 'a result \<Rightarrow> ('a, 's) portForwardServed" where
  "servePortForwardStreams isWebSocket socket http =
     (if isWebSocket then case socket of Some (SocketError err) \<Rightarrow> LoggedError err | _ \<Rightarrow> ServedSocket socket
      else case http of Inl err \<Rightarrow> LoggedError err | Inr h \<Rightarrow> ServedHTTP h)"

subsection \<open>Ports\<close>

text \<open>The options of a request only name valid ports.\<close>

lemma parsePorts_valid: "parsePorts s ps = Inr ports \<Longrightarrow> length ports = length ps \<and> (\<forall>p\<in>set ports. 1 \<le> sint p \<and> sint p \<le> 65535)"
proof (induction ps arbitrary: ports)
  case (Cons p ps)
  obtain port ports' where *: "ParseUint 16 p = Inr port" "1 \<le> port" "parsePorts s ps = Inr ports'" "ports = word_of_int port # ports'"
    using Cons.prems by (auto split: sum.split_asm if_split_asm)
  from *(1) have "port < 2 ^ 16" by (auto simp: ParseUint_def split: if_split_asm)
  then have "sint (word_of_int port :: 32 word) = port" using *(2) by (simp add: signed_of_int signed_take_bit_int_eq_self_iff)
  with * Cons.IH [OF *(3)] \<open>port < 2 ^ 16\<close> show ?case by simp
qed simp

lemma portStringsLoop_valid: "portStringsLoop qs = Inr ports \<Longrightarrow> p \<in> set ports \<Longrightarrow> 1 \<le> sint p \<and> sint p \<le> 65535"
  by (induction qs arbitrary: ports) (auto split: if_split_asm sum.split_asm dest!: parsePorts_valid)

lemma NewV4Options_valid: "NewV4Options ws query = Inr ports \<Longrightarrow> p \<in> set ports \<Longrightarrow> 1 \<le> sint p \<and> sint p \<le> 65535"
  by (auto simp: NewV4Options_def split: if_split_asm dest: portStringsLoop_valid)

text \<open>A client reads back the port that was written, up to the truncation to 16 bits.\<close>

lemma Uint16_PutUint16: "Uint16 (PutUint16 v) = v"
proof -
  have "ucast (ucast v :: 8 word) = take_bit 8 v" "push_bit 8 (ucast (ucast (drop_bit 8 v) :: 8 word)) = push_bit 8 (drop_bit 8 v)"
    by (rule bit_word_eqI; auto simp: bit_simps)+
  then show ?thesis using bits_ident [of 8 v] by (simp add: Uint16_def PutUint16_def add.commute)
qed

text \<open>The ports of a request for a URL are not checked: the client may be told another port than the one that is forwarded.\<close>

lemma other_port_announced: "Uint16 (PutUint16 (ucast (65616 :: 32 word))) = 80 \<and> sint (65616 :: 32 word) = 65616"
  by (simp add: Uint16_PutUint16)

subsection \<open>Goroutines\<close>

text \<open>Whatever the schedule, the steps of one goroutine are taken in their order: what an observer that can tell it from the others sees is a prefix.\<close>

lemma runGoroutines_project:
  assumes "runGoroutines sched gs = Some (tr, gs')" "i < length gs" "\<And>j e. j < length gs \<Longrightarrow> j \<noteq> i \<Longrightarrow> e \<in> set (gs ! j) \<Longrightarrow> \<not> P e"
  shows "filter P (gs ! i) = filter P tr @ filter P (gs' ! i) \<and> length gs' = length gs"
  using assms
proof (induction sched arbitrary: gs tr)
  case (Cons k sched)
  obtain e es tr' where k: "k < length gs" "gs ! k = e # es" "runGoroutines sched (gs[k := es]) = Some (tr', gs')" "tr = e # tr'"
    using Cons.prems(1) by (auto split: if_split_asm list.split_asm option.split_asm)
  have "\<not> P x" if "j < length (gs[k := es])" "j \<noteq> i" "x \<in> set (gs[k := es] ! j)" for j x
    using that Cons.prems(3) [of j x] k by (cases "j = k") auto
  from Cons.IH [OF k(3) _ this] have "filter P (gs[k := es] ! i) = filter P tr' @ filter P (gs' ! i) \<and> length gs' = length gs"
    using Cons.prems(2) by simp
  with k Cons.prems(2) Cons.prems(3) [of k e] show ?case by (cases "k = i") auto
qed simp

lemma streamPairsLoop_pairs:
  "fst (streamPairsLoop k ports streams) =
     map (\<lambda>i. \<lparr>wp_port = ports ! i, wp_dataStream = streams ! ((k + i) * 2), wp_errorStream = streams ! ((k + i) * 2 + 1)\<rparr>) [0..<length ports]"
proof (induction ports arbitrary: k)
  case (Cons port ports)
  show ?case by (simp add: Cons.IH case_prod_beta Let_def map_upt_Suc del: upt_Suc)
qed simp

lemma streamPairsLoop_hello:
  "snd (streamPairsLoop k ports streams) =
     concat (map (\<lambda>p. [WsWrite (wp_dataStream p) (PutUint16 (ucast (wp_port p))), WsWrite (wp_errorStream p) (PutUint16 (ucast (wp_port p)))])
       (fst (streamPairsLoop k ports streams)))"
  by (induction ports arbitrary: k) (simp_all add: case_prod_beta Let_def)

fun eventStream :: "'s wsEvent \<Rightarrow> 's" where
  "eventStream (WsWrite s b) = s"
| "eventStream (WsPrint s m) = s"
| "eventStream (WsForward p s) = s"
| "eventStream (WsClose s) = s"

lemma socketPortForward_streams:
  "e \<in> set (socketPortForward pod uid forward p) \<Longrightarrow> eventStream e = wp_dataStream p \<or> eventStream e = wp_errorStream p"
  by (auto simp: socketPortForward_def split: sum.split_asm)

lemma socketPortForward_data:
  "wp_dataStream p \<noteq> wp_errorStream p \<Longrightarrow>
     filter (\<lambda>e. eventStream e = wp_dataStream p) (socketPortForward pod uid forward p) = [WsForward (sint (wp_port p)) (wp_dataStream p), WsClose (wp_dataStream p)]"
  by (auto simp: socketPortForward_def split: sum.split)

lemma filter_pairs:
  assumes "i < length ps" "\<And>j. j < length ps \<Longrightarrow> j \<noteq> i \<Longrightarrow> filter P (f (ps ! j)) = []"
  shows "filter P (concat (map f ps)) = filter P (f (ps ! i))"
  using assms
proof (induction ps arbitrary: i)
  case (Cons p ps)
  show ?case
  proof (cases i)
    case 0
    have "filter P (f q) = []" if "q \<in> set ps" for q
      using that Cons.prems(2) [of "Suc j" for j] 0 by (auto simp: in_set_conv_nth)
    then have "filter P (concat (map f ps)) = []" by (induction ps) auto
    with 0 show ?thesis by simp
  next
    case (Suc i')
    have "filter P (f (ps ! j)) = []" if "j < length ps" "j \<noteq> i'" for j
      using Cons.prems(2) [of "Suc j"] that Suc by simp
    from Cons.IH [OF _ this, of i'] Cons.prems(1) Suc Cons.prems(2) [of 0] show ?thesis by simp
  qed
qed simp

text \<open>
  Once every goroutine has ended, each data stream has got the port first, was forwarded once, to that port, and is closed, whatever
  the order in which the goroutines ran.
\<close>

lemma sockets_done:
  assumes "handleWebSocketStreams pod uid forward sched opened ports = Some (SocketDone tr)"
    and "opened (portChannels ports) = Inr streams" "length streams = 2 * length ports" "distinct streams" "i < length ports"
  shows "filter (\<lambda>e. eventStream e = streams ! (2 * i)) tr =
     [WsWrite (streams ! (2 * i)) (PutUint16 (ucast (ports ! i))), WsForward (sint (ports ! i)) (streams ! (2 * i)), WsClose (streams ! (2 * i))]"
proof -
  let ?ps = "fst (streamPairsLoop 0 ports streams)"
  let ?P = "\<lambda>e. eventStream e = streams ! (2 * i)"
  have pair: "?ps ! j = \<lparr>wp_port = ports ! j, wp_dataStream = streams ! (j * 2), wp_errorStream = streams ! (j * 2 + 1)\<rparr>" if "j < length ports" for j
    using that by (simp add: streamPairsLoop_pairs)
  have len: "length ?ps = length ports" by (simp add: streamPairsLoop_pairs)
  have apart: "streams ! (j * 2) \<noteq> streams ! (i * 2)" "streams ! Suc (j * 2) \<noteq> streams ! (i * 2)" if "j < length ports" "j \<noteq> i" for j
    using that assms(3-5) by (auto simp: nth_eq_iff_index_eq)
  have own: "streams ! Suc (i * 2) \<noteq> streams ! (i * 2)" using assms(3-5) by (simp add: nth_eq_iff_index_eq)
  obtain tr0 gs where run: "runGoroutines sched (map (socketPortForward pod uid forward) ?ps) = Some (tr0, gs)"
      "list_all (\<lambda>g. g = []) gs" "tr = snd (streamPairsLoop 0 ports streams) @ tr0"
    using assms(1,2) by (auto simp: handleWebSocketStreams_def case_prod_beta split: option.split_asm if_split_asm)
  have "filter ?P (map (socketPortForward pod uid forward) ?ps ! i) = filter ?P tr0 @ filter ?P (gs ! i) \<and> length gs = length ports"
    using runGoroutines_project [OF run(1), of i ?P] assms(5) len pair apart
    by (fastforce dest!: socketPortForward_streams simp: mult.commute)
  moreover have "filter ?P (map (socketPortForward pod uid forward) ?ps ! i) = [WsForward (sint (ports ! i)) (streams ! (2 * i)), WsClose (streams ! (2 * i))]"
    using socketPortForward_data [of "?ps ! i" pod uid forward] assms(5) len pair own by (simp add: mult.commute)
  moreover have "filter ?P (snd (streamPairsLoop 0 ports streams)) = [WsWrite (streams ! (2 * i)) (PutUint16 (ucast (ports ! i)))]"
    unfolding streamPairsLoop_hello using assms(5) len pair own apart
    by (subst filter_pairs [of i]) (auto simp: mult.commute)
  moreover have "length gs = length ports \<Longrightarrow> gs ! i = []" using run(2) assms(5) by (simp add: list_all_length)
  ultimately show ?thesis using run(3) by simp
qed

end
