(* ===== verification/CniConfig.thy ===== *)
theory CniConfig
  imports Paths
begin

unbundle bit_operations_syntax

section \<open>Network configuration and status\<close>

text \<open>
  \<^verbatim>\<open>cni_conf_syncer.go\<close>, \<^verbatim>\<open>update_runtime_config.go\<close>, \<^verbatim>\<open>status.go\<close> and \<^verbatim>\<open>version.go\<close>. The network plugin, the watcher of the configuration directory, \<^verbatim>\<open>net.ParseCIDR\<close>
  and the template engine are arguments: what their calls return. What the loop of the syncer receives is a list of
  events, the cases that its \<^verbatim>\<open>select\<close> takes.
\<close>

subsection \<open>Reloading the configuration\<close>

text \<open>The operations of \<^verbatim>\<open>fsnotify\<close>, a bit mask.\<close>

abbreviation fsCreate :: "32 word" where "fsCreate \<equiv> 1"
abbreviation fsWrite :: "32 word" where "fsWrite \<equiv> 2"
abbreviation fsRemove :: "32 word" where "fsRemove \<equiv> 4"
abbreviation fsRename :: "32 word" where "fsRename \<equiv> 8"
abbreviation fsChmod :: "32 word" where "fsChmod \<equiv> 16"

datatype watchEvent = FsEvent "32 word" | WatchError "goerror option"

record cniNetConfSyncer =
  cn_lastSyncStatus :: "goerror option"
  cn_loads :: nat

definition updateLastStatus :: "goerror option \<Rightarrow> cniNetConfSyncer \<Rightarrow> cniNetConfSyncer" where
  "updateLastStatus err s = s\<lparr>cn_lastSyncStatus := err\<rparr>"

definition lastStatus :: "cniNetConfSyncer \<Rightarrow> goerror option" where
  "lastStatus s = cn_lastSyncStatus s"

text \<open>\<open>load n\<close> is the result of the \<open>n\<close>-th \<^verbatim>\<open>netPlugin.Load\<close>, counted from 0.\<close>

definition reloadCNI :: "(nat \<Rightarrow> goerror option) \<Rightarrow> cniNetConfSyncer \<Rightarrow> cniNetConfSyncer" where
  "reloadCNI load s = updateLastStatus (load (cn_loads s)) (s\<lparr>cn_loads := Suc (cn_loads s)\<rparr>)"

definition newCNINetConfSyncer :: "goerror option \<Rightarrow> goerror option \<Rightarrow> goerror option \<Rightarrow> (nat \<Rightarrow> goerror option) \<Rightarrow> string \<Rightarrow> cniNetConfSyncer result" where
  "newCNINetConfSyncer newWatcher mkdir watch load confDir =
     (case newWatcher of
        Some err \<Rightarrow> Inl (Wrapf err ''failed to create fsnotify watcher'' [])
      | None \<Rightarrow>
          (case mkdir of
             Some err \<Rightarrow> Inl (Wrapf err ''failed to create cni conf dir=%s for watch'' [confDir])
           | None \<Rightarrow>
               (case watch of
                  Some err \<Rightarrow> Inl (Wrapf err ''failed to watch cni conf dir %s'' [confDir])
                | None \<Rightarrow> Inr (reloadCNI load \<lparr>cn_lastSyncStatus = None, cn_loads = 0\<rparr>))))"

definition ignoredEvent :: "32 word \<Rightarrow> bool" where
  "ignoredEvent op \<longleftrightarrow> op AND (fsChmod OR fsCreate) > 0"

text \<open>The loop returns the error of the watcher; \<open>None\<close> means that it has not returned.\<close>

fun syncLoop :: "(nat \<Rightarrow> goerror option) \<Rightarrow> watchEvent list \<Rightarrow> cniNetConfSyncer \<Rightarrow> goerror option \<times> cniNetConfSyncer" where
  "syncLoop load [] s = (None, s)"
| "syncLoop load (FsEvent op # evs) s = (if ignoredEvent op then syncLoop load evs s else syncLoop load evs (reloadCNI load s))"
| "syncLoop load (WatchError err # evs) s = (case err of Some e \<Rightarrow> (Some e, s) | None \<Rightarrow> syncLoop load evs s)"

text \<open>
  \<^verbatim>\<open>stop\<close> closes the watcher, and the watcher closes its two channels. A receive from a closed channel gives the zero value at once.
\<close>

definition closedRead :: "bool \<Rightarrow> watchEvent" where
  "closedRead fromEvents = (if fromEvents then FsEvent 0 else WatchError None)"

definition isReload :: "watchEvent \<Rightarrow> bool" where
  "isReload ev = (case ev of FsEvent op \<Rightarrow> \<not> ignoredEvent op | WatchError _ \<Rightarrow> False)"

definition isFailure :: "watchEvent \<Rightarrow> bool" where
  "isFailure ev = (case ev of FsEvent _ \<Rightarrow> False | WatchError err \<Rightarrow> err \<noteq> None)"

lemma reloadCNI_simps [simp]:
  "cn_loads (reloadCNI load s) = Suc (cn_loads s)" "cn_lastSyncStatus (reloadCNI load s) = load (cn_loads s)"
  by (simp_all add: reloadCNI_def updateLastStatus_def)

lemma syncLoop_loads:
  assumes "syncLoop load evs s = (r, t)"
  shows "cn_loads t = cn_loads s + length (filter isReload (takeWhile (\<lambda>ev. \<not> isFailure ev) evs))"
    and "cn_lastSyncStatus t = (if cn_loads t = cn_loads s then cn_lastSyncStatus s else load (cn_loads t - 1))"
    and "r = (case dropWhile (\<lambda>ev. \<not> isFailure ev) evs of WatchError err # _ \<Rightarrow> err | _ \<Rightarrow> None)"
proof -
  have "cn_loads s \<le> cn_loads t \<and> cn_loads t = cn_loads s + length (filter isReload (takeWhile (\<lambda>ev. \<not> isFailure ev) evs)) \<and>
    cn_lastSyncStatus t = (if cn_loads t = cn_loads s then cn_lastSyncStatus s else load (cn_loads t - 1)) \<and>
    r = (case dropWhile (\<lambda>ev. \<not> isFailure ev) evs of WatchError err # _ \<Rightarrow> err | _ \<Rightarrow> None)"
    using assms
    by (induction load evs s rule: syncLoop.induct) (auto simp: isReload_def isFailure_def split: if_splits option.splits)
  then show "cn_loads t = cn_loads s + length (filter isReload (takeWhile (\<lambda>ev. \<not> isFailure ev) evs))"
    "cn_lastSyncStatus t = (if cn_loads t = cn_loads s then cn_lastSyncStatus s else load (cn_loads t - 1))"
    "r = (case dropWhile (\<lambda>ev. \<not> isFailure ev) evs of WatchError err # _ \<Rightarrow> err | _ \<Rightarrow> None)" by blast+
qed

lemma syncLoop_closed:
  "syncLoop load (map closedRead choices) s =
     (None, (reloadCNI load ^^ length (filter id choices)) s)"
proof (induction choices arbitrary: s)
  case (Cons c choices)
  then show ?case by (simp add: closedRead_def ignoredEvent_def funpow_swap1)
qed simp

lemma loads_reload: "cn_loads ((reloadCNI load ^^ n) s) = cn_loads s + n"
  by (induction n) simp_all



subsection \<open>Generating the configuration\<close>

record cniConfigTemplate =
  tp_PodCIDR :: string
  tp_PodCIDRRanges :: "string list"
  tp_Routes :: "string list"

abbreviation cniConfigFileName :: string where "cniConfigFileName \<equiv> ''10-containerd-net.conflist''"
abbreviation zeroCIDRv6 :: string where "zeroCIDRv6 \<equiv> ''::/0''"
abbreviation zeroCIDRv4 :: string where "zeroCIDRv4 \<equiv> ''0.0.0.0/0''"

text \<open>
  What the calls return: \<open>uc_parseCIDR\<close> whether the address is of version 4; \<open>uc_render\<close> what executing the template writes and the error it ends with.
\<close>

record runtimeConfigEnv =
  uc_parseCIDR :: "string \<Rightarrow> bool result"
  uc_netStatus :: "goerror option"
  uc_netLoad :: "goerror option"
  uc_parseFiles :: "string \<Rightarrow> goerror option"
  uc_mkdirAll :: "string \<Rightarrow> goerror option"
  uc_openFile :: "string \<Rightarrow> goerror option"
  uc_render :: "string \<Rightarrow> cniConfigTemplate \<Rightarrow> string \<times> goerror option"

fun routeLoop :: "(string \<Rightarrow> bool result) \<Rightarrow> string list \<Rightarrow> bool \<Rightarrow> bool \<Rightarrow> (bool \<times> bool) result" where
  "routeLoop parseCIDR [] hasV4 hasV6 = Inr (hasV4, hasV6)"
| "routeLoop parseCIDR (c # cs) hasV4 hasV6 =
     (case parseCIDR c of
        Inl err \<Rightarrow> Inl err
      | Inr v4 \<Rightarrow> if v4 then routeLoop parseCIDR cs True hasV6 else routeLoop parseCIDR cs hasV4 True)"

definition getRoutes :: "(string \<Rightarrow> bool result) \<Rightarrow> string list \<Rightarrow> string list result" where
  "getRoutes parseCIDR cidrs =
     (case routeLoop parseCIDR cidrs False False of
        Inl err \<Rightarrow> Inl err
      | Inr (hasV4, hasV6) \<Rightarrow> Inr ((if hasV4 then [zeroCIDRv4] else []) @ (if hasV6 then [zeroCIDRv6] else [])))"

text \<open>
  Writing to a file that was opened with \<^verbatim>\<open>O_WRONLY|O_CREATE\<close> starts at its beginning and leaves what is behind.
\<close>

definition overwrite :: "string \<Rightarrow> string option \<Rightarrow> string" where
  "overwrite out old = out @ drop (length out) (case old of None \<Rightarrow> [] | Some c \<Rightarrow> c)"

definition UpdateRuntimeConfig :: "runtimeConfigEnv \<Rightarrow> string \<Rightarrow> string \<Rightarrow> string \<Rightarrow> (string \<rightharpoonup> string, unit) act" where
  "UpdateRuntimeConfig env confTemplate confDir podCIDRs disk =
     (if podCIDRs = [] then (Inr (), disk)
      else let cidrs = map TrimSpace (Split (CHR '','') podCIDRs) in
      case getRoutes (uc_parseCIDR env) cidrs of
        Inl err \<Rightarrow> (Inl (Wrapf err ''get routes'' []), disk)
      | Inr routes \<Rightarrow>
          if confTemplate = [] then (Inr (), disk)
          else if uc_netStatus env = None then (Inr (), disk)
          else if uc_netLoad env = None then (Inr (), disk)
          else case uc_parseFiles env confTemplate of
            Some err \<Rightarrow> (Inl (Wrapf err ''failed to parse cni config template %q'' [confTemplate]), disk)
          | None \<Rightarrow>
              (case uc_mkdirAll env confDir of
                 Some err \<Rightarrow> (Inl (Wrapf err ''failed to create cni config directory: %q'' [confDir]), disk)
               | None \<Rightarrow>
                   (let confFile = PathJoin confDir cniConfigFileName in
                    case uc_openFile env confFile of
                      Some err \<Rightarrow> (Inl (Wrapf err ''failed to open cni config file %q'' [confFile]), disk)
                    | None \<Rightarrow>
                        (let (out, err) = uc_render env confTemplate \<lparr>tp_PodCIDR = hd cidrs, tp_PodCIDRRanges = cidrs, tp_Routes = routes\<rparr>;
                             disk' = disk(confFile \<mapsto> overwrite out (disk confFile))
                         in case err of
                           Some e \<Rightarrow> (Inl (Wrapf e ''failed to generate cni config file %q'' [confFile]), disk')
                         | None \<Rightarrow> (Inr (), disk')))))"

lemma routeLoop_Inr:
  "routeLoop p cs a b = Inr (v4, v6) \<longleftrightarrow>
     (\<forall>c \<in> set cs. \<exists>v. p c = Inr v) \<and> v4 = (a \<or> (\<exists>c \<in> set cs. p c = Inr True)) \<and> v6 = (b \<or> (\<exists>c \<in> set cs. p c = Inr False))"
  by (induction p cs a b rule: routeLoop.induct) (auto split: sum.splits if_splits)

lemma getRoutes_Inr:
  "getRoutes p cs = Inr routes \<longleftrightarrow> (\<forall>c \<in> set cs. \<exists>v. p c = Inr v) \<and>
     routes = (if \<exists>c \<in> set cs. p c = Inr True then [zeroCIDRv4] else []) @ (if \<exists>c \<in> set cs. p c = Inr False then [zeroCIDRv6] else [])"
proof (cases "\<forall>c \<in> set cs. \<exists>v. p c = Inr v")
  case True
  then have "routeLoop p cs False False = Inr (\<exists>c \<in> set cs. p c = Inr True, \<exists>c \<in> set cs. p c = Inr False)" by (simp add: routeLoop_Inr)
  then have "getRoutes p cs = Inr ((if \<exists>c \<in> set cs. p c = Inr True then [zeroCIDRv4] else []) @ (if \<exists>c \<in> set cs. p c = Inr False then [zeroCIDRv6] else []))"
    by (simp only: getRoutes_def sum.case prod.case)
  then show ?thesis using True by (simp only: sum.inject) blast
next
  case False
  then have "routeLoop p cs False False \<noteq> Inr x" for x by (cases x) (simp add: routeLoop_Inr)
  then obtain e where "routeLoop p cs False False = Inl e" by (metis sumE)
  with False show ?thesis by (simp add: getRoutes_def)
qed

text \<open>
  What an update of the pod address ranges does. It writes nothing but the configuration file of the plugin, and that only if a template is configured, every range can be parsed, and the network is
  neither ready nor loads from the files that are there. What it writes is the template for these ranges, with a default route for each version of the
  addresses among them. A file that was not there or was not longer than what is written is replaced; but the file is not truncated, so of a longer one
  the rest stays, and the file is not the generated configuration although the request succeeds.
\<close>

lemma UpdateRuntimeConfig_correct:
  assumes run: "UpdateRuntimeConfig env confTemplate confDir podCIDRs disk = (res, disk')"
    and fname: "confFile = PathJoin confDir cniConfigFileName"
    and cidrs: "cidrs = map TrimSpace (Split (CHR '','') podCIDRs)"
    and routes: "routes = (if \<exists>c \<in> set cidrs. uc_parseCIDR env c = Inr True then [zeroCIDRv4] else []) @
      (if \<exists>c \<in> set cidrs. uc_parseCIDR env c = Inr False then [zeroCIDRv6] else [])"
    and render: "uc_render env confTemplate \<lparr>tp_PodCIDR = hd cidrs, tp_PodCIDRRanges = cidrs, tp_Routes = routes\<rparr> = (out, err)"
  shows "(\<forall>p. p \<noteq> confFile \<longrightarrow> disk' p = disk p) \<and>
    (disk' \<noteq> disk \<longrightarrow> podCIDRs \<noteq> [] \<and> confTemplate \<noteq> [] \<and> (\<forall>c \<in> set cidrs. \<exists>v. uc_parseCIDR env c = Inr v) \<and>
       uc_netStatus env \<noteq> None \<and> uc_netLoad env \<noteq> None \<and> disk' confFile = Some (overwrite out (disk confFile))) \<and>
    (res = Inr () \<and> podCIDRs \<noteq> [] \<and> confTemplate \<noteq> [] \<and> uc_netStatus env \<noteq> None \<and> uc_netLoad env \<noteq> None \<longrightarrow>
       (case disk confFile of
          None \<Rightarrow> disk' confFile = Some out
        | Some old \<Rightarrow> if length old \<le> length out then disk' confFile = Some out else \<exists>rest. rest \<noteq> [] \<and> disk' confFile = Some (out @ rest)))"
proof -
  have r: "getRoutes (uc_parseCIDR env) cidrs = Inr routes \<longleftrightarrow> (\<forall>c \<in> set cidrs. \<exists>v. uc_parseCIDR env c = Inr v)"
    unfolding getRoutes_Inr routes by blast
  consider (same) "disk' = disk" "\<not> (res = Inr () \<and> podCIDRs \<noteq> [] \<and> confTemplate \<noteq> [] \<and> uc_netStatus env \<noteq> None \<and> uc_netLoad env \<noteq> None)"
    | (wrote) "podCIDRs \<noteq> []" "confTemplate \<noteq> []" "\<forall>c \<in> set cidrs. \<exists>v. uc_parseCIDR env c = Inr v" "uc_netStatus env \<noteq> None" "uc_netLoad env \<noteq> None"
        "disk' = disk(confFile \<mapsto> overwrite out (disk confFile))"
  proof (cases "getRoutes (uc_parseCIDR env) cidrs")
    case (Inl e)
    then show ?thesis using run same by (auto simp: UpdateRuntimeConfig_def Let_def cidrs [symmetric] split: if_splits)
  next
    case (Inr rt)
    then have "rt = routes" unfolding getRoutes_Inr routes by blast
    with Inr r run render same wrote show ?thesis
      by (auto simp: UpdateRuntimeConfig_def Let_def cidrs [symmetric] fname split: if_splits option.splits)
  qed
  then show ?thesis
  proof cases
    case wrote
    then show ?thesis by (auto simp: overwrite_def split: option.splits)
  qed auto
qed

definition demo_env :: runtimeConfigEnv where
  "demo_env = \<lparr>uc_parseCIDR = (\<lambda>c. Inr True), uc_netStatus = Some (Errorf ''cni plugin not initialized'' []), uc_netLoad = Some (Errorf ''no network config'' []),
     uc_parseFiles = (\<lambda>_. None), uc_mkdirAll = (\<lambda>_. None), uc_openFile = (\<lambda>_. None), uc_render = (\<lambda>t p. (tp_PodCIDR p, None))\<rparr>"

lemma UpdateRuntimeConfig_example:
  "let disk' = snd (UpdateRuntimeConfig demo_env ''t'' ''/etc/cni'' ''10.0.0.0/24'' [PathJoin ''/etc/cni'' cniConfigFileName \<mapsto> ''a configuration from before''])
   in \<exists>rest. rest \<noteq> [] \<and> disk' (PathJoin ''/etc/cni'' cniConfigFileName) = Some (''10.0.0.0/24'' @ rest)"
proof -
  let ?f = "PathJoin ''/etc/cni'' cniConfigFileName"
  let ?d = "[?f \<mapsto> ''a configuration from before'']"
  have c: "map TrimSpace (Split (CHR '','') ''10.0.0.0/24'') = [''10.0.0.0/24'']" by code_simp
  obtain r d where run: "UpdateRuntimeConfig demo_env ''t'' ''/etc/cni'' ''10.0.0.0/24'' ?d = (r, d)" by fastforce
  have ok: "r = Inr ()" using run unfolding UpdateRuntimeConfig_def Let_def c by (simp add: getRoutes_def demo_env_def)
  have "uc_render demo_env ''t'' p = (tp_PodCIDR p, None)" for p by (simp add: demo_env_def)
  from UpdateRuntimeConfig_correct [OF run refl refl refl this] ok run show ?thesis unfolding c by (simp add: demo_env_def)
qed

subsection \<open>Status and version\<close>

record runtimeCondition =
  cd_Type :: string
  cd_Status :: bool
  cd_Reason :: string
  cd_Message :: string

record statusResponse =
  sp_Conditions :: "runtimeCondition list"
  sp_Info :: "(string \<times> string) list"

text \<open>The four texts are \<^verbatim>\<open>json.Marshal\<close> of the configuration, the version of Go and the network configuration, and the last status of the syncer.\<close>

definition RuntimeStatus :: "goerror option \<Rightarrow> bool \<Rightarrow> string result \<Rightarrow> string result \<Rightarrow> string result \<Rightarrow> cniNetConfSyncer \<Rightarrow> statusResponse result" where
  "RuntimeStatus netStatus verbose configByt versionByt cniConfig syncer =
     (let runtimeCondition = \<lparr>cd_Type = ''RuntimeReady'', cd_Status = True, cd_Reason = [], cd_Message = []\<rparr>;
          networkCondition = (case netStatus of
              None \<Rightarrow> \<lparr>cd_Type = ''NetworkReady'', cd_Status = True, cd_Reason = [], cd_Message = []\<rparr>
            | Some err \<Rightarrow> \<lparr>cd_Type = ''NetworkReady'', cd_Status = False, cd_Reason = ''NetworkPluginNotReady'',
                cd_Message = formatMsg ''Network plugin returns error: %v'' [Error err]\<rparr>);
          conditions = [runtimeCondition, networkCondition]
      in if \<not> verbose then Inr \<lparr>sp_Conditions = conditions, sp_Info = []\<rparr>
         else case configByt of
           Inl err \<Rightarrow> Inl err
         | Inr config \<Rightarrow>
             (case versionByt of
                Inl err \<Rightarrow> Inl err
              | Inr golang \<Rightarrow>
                  Inr \<lparr>sp_Conditions = conditions,
                    sp_Info = [(''config'', config), (''golang'', golang), (''cniconfig'', case cniConfig of Inl _ \<Rightarrow> [] | Inr c \<Rightarrow> c),
                      (''lastCNILoadStatus'', case lastStatus syncer of None \<Rightarrow> ''OK'' | Some lerr \<Rightarrow> Error lerr)]\<rparr>))"

text \<open>The last load of the configuration is reported as it was.\<close>

lemma status_last_load:
  assumes "syncLoop load evs s = (r, t)" "RuntimeStatus netStatus True cfg ver cni t = Inr resp" "cn_loads s < cn_loads t"
  shows "map_of (sp_Info resp) ''lastCNILoadStatus'' = Some (case load (cn_loads t - 1) of None \<Rightarrow> ''OK'' | Some e \<Rightarrow> Error e)"
  using assms syncLoop_loads(2) [OF assms(1)] by (auto simp: RuntimeStatus_def Let_def lastStatus_def split: sum.splits option.splits)

record versionResponse =
  vr_Version :: string
  vr_RuntimeName :: string
  vr_RuntimeVersion :: string
  vr_RuntimeApiVersion :: string

definition RuntimeVersion :: "string \<Rightarrow> versionResponse" where
  "RuntimeVersion version = \<lparr>vr_Version = ''0.1.0'', vr_RuntimeName = ''containerd'', vr_RuntimeVersion = version, vr_RuntimeApiVersion = ''v1alpha2''\<rparr>"

end
