(* ===== verification/ServiceRun.thy ===== *)
theory ServiceRun
  imports Recovery Queries ImageHandlers ContainerCreate UpdateResources PodTeardown StreamServer Stats WriterGroup CniConfig
begin

section \<open>Starting, serving and stopping\<close>

text \<open>
  \<^verbatim>\<open>service.go\<close> and \<^verbatim>\<open>instrumented_service.go\<close>: how the service is made, what \<^verbatim>\<open>Run\<close> starts and in which order, how it ends, and the wrapper around every
  request that refuses it until the service is initialized and turns errors into those of gRPC. Requests come in at any time, so \<^verbatim>\<open>Run\<close> is a
  sequence of steps with requests between them. Logging and the namespace of the context are not modelled.
\<close>

subsection \<open>Requests\<close>

datatype grpcCode = CodeNotFound | CodeAlreadyExists | CodeCanceled | CodeDeadlineExceeded
datatype grpcError = GrpcStatus grpcCode string | GrpcOther goerror

text \<open>
  \<^verbatim>\<open>errdefs.ToGRPC\<close>, for the errors that the model tells apart.
\<close>

definition ToGRPC :: "goerror \<Rightarrow> grpcError" where
  "ToGRPC err =
     (if IsNotFound err then GrpcStatus CodeNotFound (Error err)
      else if IsAlreadyExists err then GrpcStatus CodeAlreadyExists (Error err)
      else if cause err = ErrCanceled then GrpcStatus CodeCanceled (Error err)
      else if cause err = ErrDeadlineExceeded then GrpcStatus CodeDeadlineExceeded (Error err)
      else GrpcOther err)"

definition checkInitialized :: "bool \<Rightarrow> unit result" where
  "checkInitialized initialized = (if initialized then Inr () else Inl (Errorf ''server is not initialized yet'' []))"

definition instrumented :: "bool \<Rightarrow> ('s, 'a) act \<Rightarrow> 's \<Rightarrow> (grpcError + 'a) \<times> 's" where
  "instrumented initialized m s =
     (case checkInitialized initialized of
        Inl err \<Rightarrow> (Inl (GrpcOther err), s)
      | Inr _ \<Rightarrow> (case m s of (Inl err, t) \<Rightarrow> (Inl (ToGRPC err), t) | (Inr x, t) \<Rightarrow> (Inr x, t)))"

definition in_RunPodSandbox where "in_RunPodSandbox ok w config h = instrumented ok (RunPodSandbox w config h)"
definition in_ListPodSandbox where "in_ListPodSandbox ok order filt = instrumented ok (getA (ListPodSandbox order filt))"
definition in_PodSandboxStatus where "in_PodSandboxStatus ok w r verbose = instrumented ok (PodSandboxStatus w r verbose)"
definition in_StopPodSandbox where "in_StopPodSandbox ok w order r = instrumented ok (StopPodSandbox w order r)"
definition in_RemovePodSandbox where "in_RemovePodSandbox ok w order order' r = instrumented ok (RemovePodSandbox w order order' r)"
definition in_PortForward where "in_PortForward ok s rnd now1 now2 i ports = instrumented ok (PortForward s rnd now1 now2 i ports)"
definition in_CreateContainer where "in_CreateContainer ok w se r config sbc = instrumented ok (CreateContainer w se r config sbc)"
definition in_StartContainer where "in_StartContainer ok w r = instrumented ok (StartContainer w r)"
definition in_ListContainers where "in_ListContainers ok order filt = instrumented ok (getA (ListContainers_handler order filt))"
definition in_ContainerStatus where "in_ContainerStatus ok w parse r verbose = instrumented ok (ContainerStatus w parse r verbose)"
definition in_StopContainer where "in_StopContainer ok w r timeout = instrumented ok (StopContainer w r timeout)"
definition in_RemoveContainer where "in_RemoveContainer ok w r = instrumented ok (RemoveContainer w r)"
definition in_ExecSync where "in_ExecSync ok env s i cmd timeout = instrumented ok (ExecSync env s i cmd timeout)"
definition in_Exec where "in_Exec ok s rnd now1 now2 i cmd so = instrumented ok (Exec s rnd now1 now2 i cmd so)"
definition in_Attach where "in_Attach ok s rnd now1 now2 i so = instrumented ok (Attach s rnd now1 now2 i so)"
definition in_UpdateContainerResources where "in_UpdateContainerResources ok w r res = instrumented ok (UpdateContainerResources w r res)"
definition in_PullImage where "in_PullImage ok w r = instrumented ok (PullImage w r)"
definition in_ListImages where "in_ListImages ok parse order = instrumented ok (getA (ImageHandlers.ListImages parse order))"
definition in_ImageStatus where "in_ImageStatus ok w parse r = instrumented ok (ImageStatus w parse r)"
definition in_RemoveImage where "in_RemoveImage ok w r = instrumented ok (RemoveImage w r)"
definition in_ImageFsInfo where "in_ImageFsInfo ok now order = instrumented ok (getA (ImageFsInfo now order))"
definition in_ContainerStats where "in_ContainerStats ok s m tasks i = instrumented ok (liftA (ContainerStats s m tasks i))"
definition in_ListContainerStats where "in_ListContainerStats ok s m tasks order filt = instrumented ok (liftA (ListContainerStats s m tasks order filt))"
definition in_Status where "in_Status ok net verbose cfg ver cni sy = instrumented ok (liftA (RuntimeStatus net verbose cfg ver cni sy))"
definition in_Version where "in_Version ok version = instrumented ok (returnA (RuntimeVersion version))"
definition in_UpdateRuntimeConfig where "in_UpdateRuntimeConfig ok env tpl dir cidrs = instrumented ok (UpdateRuntimeConfig env tpl dir cidrs)"
definition in_ReopenContainerLog where "in_ReopenContainerLog ok s loggers i = instrumented ok (ReopenContainerLog s loggers i)"

subsection \<open>Making the service\<close>

text \<open>
  The registries, stores and caches are empty, and \<^verbatim>\<open>initialized\<close> is not set. The state directory \<open>disk\<close> is what is there from before; \<open>cells0\<close> and \<open>sbCells0\<close> are the
  memory that the status objects will be allocated in.
\<close>

definition newService :: "criConfig \<Rightarrow> disk \<Rightarrow> (nat \<Rightarrow> cell) \<Rightarrow> (nat \<Rightarrow> sb_cell) \<Rightarrow> svc" where
  "newService config disk cells0 sbCells0 = \<lparr>sv_config = config, sandboxNameIndex = NewRegistrar, containerNameIndex = NewRegistrar,
     sandboxStore = Sandbox_NewStore, containerStore = NewStore, labelStore = NewLabelStore, imageStore = Image_NewStore, netPlugin = True,
     cells = cells0, sbCells = sbCells0, nextRef = 0, svDisk = disk, trace = []\<rparr>"

definition imageFSPath :: "string \<Rightarrow> string \<Rightarrow> string" where
  "imageFSPath rootDir snapshotter = PathJoin rootDir (''io.containerd.snapshotter.v1.'' @ snapshotter)"

text \<open>\<open>opened\<close> is the result of opening the file, with its content, and \<open>decode_spec\<close> that of decoding it.\<close>

definition loadOCISpec :: "(string \<Rightarrow> string result) \<Rightarrow> (string \<Rightarrow> ociSpec result) \<Rightarrow> string \<Rightarrow> ociSpec result" where
  "loadOCISpec opened decode_spec filename =
     (case opened filename of
        Inl err \<Rightarrow> Inl (Wrapf err ''failed to open base OCI spec: %s'' [filename])
      | Inr data \<Rightarrow> (case decode_spec data of Inl err \<Rightarrow> Inl (Wrapf err ''failed to parse base OCI spec file'' []) | Inr spec \<Rightarrow> Inr spec))"

fun loadBaseOCISpecs :: "(string \<Rightarrow> ociSpec result) \<Rightarrow> runtimeConfig list \<Rightarrow> (string \<rightharpoonup> ociSpec) \<Rightarrow> (string \<rightharpoonup> ociSpec) result" where
  "loadBaseOCISpecs loads [] specs = Inr specs"
| "loadBaseOCISpecs loads (cfg # cfgs) specs =
     (if rt_BaseRuntimeSpec cfg = [] then loadBaseOCISpecs loads cfgs specs
      else if specs (rt_BaseRuntimeSpec cfg) \<noteq> None then loadBaseOCISpecs loads cfgs specs
      else case loads (rt_BaseRuntimeSpec cfg) of
        Inl err \<Rightarrow> Inl (Wrapf err ''failed to load base OCI spec from file: %s'' [rt_BaseRuntimeSpec cfg])
      | Inr spec \<Rightarrow> loadBaseOCISpecs loads cfgs (specs(rt_BaseRuntimeSpec cfg \<mapsto> spec)))"

text \<open>\<^verbatim>\<open>net.JoinHostPort\<close> puts an address with colons in brackets.\<close>

definition JoinHostPort :: "string \<Rightarrow> string \<Rightarrow> string" where
  "JoinHostPort host port = (if CHR '':'' \<in> set host \<or> CHR ''%'' \<in> set host then ''['' @ host @ '']:'' @ port else host @ '':'' @ port)"

record streamServerEnv =
  se_resolve :: "string result"
  se_parseDuration :: "string \<Rightarrow> int result"
  se_loadKeyPair :: "string \<Rightarrow> string \<Rightarrow> goerror option"
  se_newTLSCert :: "goerror option"

text \<open>The idle timeout is read and checked; the time that a connection is idle is not modelled.\<close>

definition newStreamServer :: "streamServerEnv \<Rightarrow> bool \<Rightarrow> string \<Rightarrow> string \<Rightarrow> string \<Rightarrow> string \<Rightarrow> string \<Rightarrow> streamServer result" where
  "newStreamServer env enableTLS certFile keyFile addr port streamIdleTimeout =
     (case (if addr = [] then se_resolve env else Inr addr) of
        Inl err \<Rightarrow> Inl (Wrapf err ''failed to get stream server address'' [])
      | Inr host \<Rightarrow>
          (case (if streamIdleTimeout = [] then Inr 0 else se_parseDuration env streamIdleTimeout) of
             Inl err \<Rightarrow> Inl (Wrapf err ''invalid stream idle timeout'' [])
           | Inr _ \<Rightarrow>
               (case getStreamListenerMode enableTLS certFile keyFile of
                  Inl err \<Rightarrow> Inl (Wrapf err ''invalid stream server configuration'' [])
                | Inr X509KeyPairTLS \<Rightarrow>
                    (case se_loadKeyPair env certFile keyFile of
                       Some err \<Rightarrow> Inl (Wrapf err ''failed to load x509 key pair for stream server'' [])
                     | None \<Rightarrow> Inr (NewServer True (JoinHostPort host port)))
                | Inr SelfSignTLS \<Rightarrow>
                    (case se_newTLSCert env of
                       Some err \<Rightarrow> Inl (Wrapf err ''failed to generate tls certificate for stream server'' [])
                     | None \<Rightarrow> Inr (NewServer True (JoinHostPort host port)))
                | Inr WithoutTLS \<Rightarrow> Inr (NewServer False (JoinHostPort host port)))))"

record service =
  ser_svc :: svc
  ser_streamServer :: streamServer
  ser_cniSyncer :: cniNetConfSyncer
  ser_baseOCISpecs :: "string \<rightharpoonup> ociSpec"

text \<open>\<open>order\<close> is the order in which the loop visits the runtimes.\<close>

definition NewCRIService ::
    "bool \<Rightarrow> string \<Rightarrow> goerror option \<Rightarrow> streamServer result \<Rightarrow> cniNetConfSyncer result \<Rightarrow> (string \<Rightarrow> ociSpec result) \<Rightarrow> string list \<Rightarrow> svc \<Rightarrow> service result" where
  "NewCRIService hasSnapshotter snapshotter initPlatform stream syncer loads order s =
     (if \<not> hasSnapshotter then Inl (Errorf ''failed to find snapshotter %q'' [snapshotter])
      else case initPlatform of
        Some err \<Rightarrow> Inl (Wrapf err ''initialize platform'' [])
      | None \<Rightarrow>
          (case stream of
             Inl err \<Rightarrow> Inl (Wrapf err ''failed to create stream server'' [])
           | Inr srv \<Rightarrow>
               (case syncer of
                  Inl err \<Rightarrow> Inl (Wrapf err ''failed to create cni conf monitor'' [])
                | Inr sy \<Rightarrow>
                    (case loadBaseOCISpecs loads (values_in (cf_Runtimes (sv_config s)) order) Map.empty of
                       Inl err \<Rightarrow> Inl err
                     | Inr specs \<Rightarrow> Inr \<lparr>ser_svc = s, ser_streamServer = srv, ser_cniSyncer = sy, ser_baseOCISpecs = specs\<rparr>))))"

lemma loadBaseOCISpecs_Inr:
  assumes "loadBaseOCISpecs loads cfgs specs = Inr specs'" "\<forall>f spec. specs f = Some spec \<longrightarrow> loads f = Inr spec"
  shows "(\<forall>f spec. specs' f = Some spec \<longrightarrow> loads f = Inr spec) \<and>
    dom specs' = dom specs \<union> {f \<in> rt_BaseRuntimeSpec ` set cfgs. f \<noteq> []}"
  using assms
proof (induction loads cfgs specs rule: loadBaseOCISpecs.induct)
  case (2 loads cfg cfgs specs)
  let ?f = "rt_BaseRuntimeSpec cfg"
  consider (none) "?f = []" | (loaded) "?f \<noteq> []" "specs ?f \<noteq> None" | (new) "?f \<noteq> []" "specs ?f = None" by blast
  then show ?case
  proof cases
    case none
    with 2(1) [OF none] 2(4,5) show ?thesis by auto
  next
    case loaded
    then have "?f \<in> dom specs" by blast
    moreover have "loadBaseOCISpecs loads cfgs specs = Inr specs'" using 2(4) loaded by simp
    ultimately show ?thesis using 2(2) [OF loaded _ 2(5)] by auto
  next
    case new
    then obtain spec where l: "loads ?f = Inr spec" "loadBaseOCISpecs loads cfgs (specs(?f \<mapsto> spec)) = Inr specs'" using 2(4) by (auto split: sum.splits)
    have specs: "\<forall>f sp. (specs(?f \<mapsto> spec)) f = Some sp \<longrightarrow> loads f = Inr sp" using 2(5) l by auto
    have "\<not> specs ?f \<noteq> None" using new(2) by simp
    from 2(3) [OF new(1) this l(1) l(2) specs] have ih: "\<forall>f sp. specs' f = Some sp \<longrightarrow> loads f = Inr sp"
      "dom specs' = insert ?f (dom specs) \<union> {f \<in> rt_BaseRuntimeSpec ` set cfgs. f \<noteq> []}" unfolding dom_fun_upd by simp_all
    have "dom specs' = dom specs \<union> {f \<in> rt_BaseRuntimeSpec ` set (cfg # cfgs). f \<noteq> []}" unfolding ih(2) using new(1) by auto
    with ih(1) show ?thesis by blast
  qed
qed auto

text \<open>Once the service is made, every base spec that a runtime names has been read from its file.\<close>

lemma NewCRIService_specs:
  assumes "NewCRIService hasSnapshotter snapshotter initPlatform stream syncer loads order s = Inr v"
    and "enumerates (cf_Runtimes (sv_config s)) order" "cf_Runtimes (sv_config s) n = Some rt" "rt_BaseRuntimeSpec rt \<noteq> []"
  shows "\<exists>spec. ser_baseOCISpecs v (rt_BaseRuntimeSpec rt) = Some spec \<and> loads (rt_BaseRuntimeSpec rt) = Inr spec"
proof -
  have l: "loadBaseOCISpecs loads (values_in (cf_Runtimes (sv_config s)) order) Map.empty = Inr (ser_baseOCISpecs v)"
    using assms(1) by (auto simp: NewCRIService_def split: if_splits option.splits sum.splits)
  have "rt \<in> set (values_in (cf_Runtimes (sv_config s)) order)" using assms(2,3) by (force simp: values_in_def enumerates_def map_filter_def)
  with loadBaseOCISpecs_Inr [OF l] assms(4) show ?thesis by (auto simp: domIff) blast
qed

subsection \<open>Running and stopping\<close>

datatype runCall =
    RSubscribe | RRecover | RStartEventMonitor | RStartSnapshotsSyncer | RStartCNISyncer | RStartStreamServer | RSetInitialized
  | RStopCNISyncer | RStopEventMonitor | RStopStreamServer

text \<open>
  The end of \<^verbatim>\<open>Run\<close>: which channel the \<^verbatim>\<open>select\<close> receives from first, with the value; what the calls of \<^verbatim>\<open>Close\<close> return; what the channel of the event monitor holds
  afterwards; and whether the stream server stops within two seconds.
\<close>

datatype firstExit = EventMonitorExit "goerror option" | StreamServerExit "goerror option" | CNISyncerExit "goerror option"
datatype streamStop = StreamStopped "goerror option" | StreamStopTimeout

record runEnv =
  re_first :: firstExit
  re_stopCNI :: "goerror option"
  re_stopStream :: "goerror option"
  re_event :: "goerror option"
  re_stream :: streamStop

definition Service_Close :: "runEnv \<Rightarrow> (runCall list, unit) act" where
  "Service_Close env tr =
     ((case re_stopStream env of Some err \<Rightarrow> Inl (Wrapf err ''failed to stop stream server'' []) | None \<Rightarrow> Inr ()),
      RStopStreamServer # RStopEventMonitor # RStopCNISyncer # tr)"

definition runExit :: "runEnv \<Rightarrow> (runCall list, unit) act" where
  "runExit env tr =
     (let eventErr = (case re_first env of EventMonitorExit e \<Rightarrow> e | _ \<Rightarrow> None);
          streamErr = (case re_first env of StreamServerExit e \<Rightarrow> e | _ \<Rightarrow> None);
          cniErr = (case re_first env of CNISyncerExit e \<Rightarrow> e | _ \<Rightarrow> None)
      in case Service_Close env tr of
        (Inl err, tr') \<Rightarrow> (Inl (Wrapf err ''failed to stop cri service'' []), tr')
      | (Inr _, tr') \<Rightarrow>
          (let eventErr' = (case re_event env of Some e \<Rightarrow> Some e | None \<Rightarrow> eventErr);
               streamErr' = (case re_stream env of StreamStopped (Some e) \<Rightarrow> Some e | _ \<Rightarrow> streamErr)
           in (case eventErr' of
                 Some e \<Rightarrow> Inl (Wrapf e ''event monitor error'' [])
               | None \<Rightarrow>
                   (case streamErr' of
                      Some e \<Rightarrow> Inl (Wrapf e ''stream server error'' [])
                    | None \<Rightarrow> (case cniErr of Some e \<Rightarrow> Inl (Wrapf e ''cni network conf monitor error'' []) | None \<Rightarrow> Inr ())),
               tr')))"

datatype runPhase =
    NotStarted | Subscribed | Recovered | MonitorStarted | SyncerStarted | CniStarted | StreamStarted | Serving | Returned "unit result"

record server =
  rv_svc :: svc
  rv_initialized :: bool
  rv_phase :: runPhase
  rv_calls :: "runCall list"

definition newServer :: "svc \<Rightarrow> server" where
  "newServer s = \<lparr>rv_svc = s, rv_initialized = False, rv_phase = NotStarted, rv_calls = []\<rparr>"

definition runStep :: "world \<Rightarrow> runEnv \<Rightarrow> server \<Rightarrow> server option" where
  "runStep w env v =
     (case rv_phase v of
        NotStarted \<Rightarrow> Some (v\<lparr>rv_phase := Subscribed, rv_calls := RSubscribe # rv_calls v\<rparr>)
      | Subscribed \<Rightarrow>
          (case recover w (rv_svc v) of
             (Inl err, t) \<Rightarrow> Some (v\<lparr>rv_svc := t, rv_phase := Returned (Inl (Wrapf err ''failed to recover state'' [])), rv_calls := RRecover # rv_calls v\<rparr>)
           | (Inr _, t) \<Rightarrow> Some (v\<lparr>rv_svc := t, rv_phase := Recovered, rv_calls := RRecover # rv_calls v\<rparr>))
      | Recovered \<Rightarrow> Some (v\<lparr>rv_phase := MonitorStarted, rv_calls := RStartEventMonitor # rv_calls v\<rparr>)
      | MonitorStarted \<Rightarrow> Some (v\<lparr>rv_phase := SyncerStarted, rv_calls := RStartSnapshotsSyncer # rv_calls v\<rparr>)
      | SyncerStarted \<Rightarrow> Some (v\<lparr>rv_phase := CniStarted, rv_calls := RStartCNISyncer # rv_calls v\<rparr>)
      | CniStarted \<Rightarrow> Some (v\<lparr>rv_phase := StreamStarted, rv_calls := RStartStreamServer # rv_calls v\<rparr>)
      | StreamStarted \<Rightarrow> Some (v\<lparr>rv_phase := Serving, rv_initialized := True, rv_calls := RSetInitialized # rv_calls v\<rparr>)
      | Serving \<Rightarrow> (let (res, tr) = runExit env (rv_calls v) in Some (v\<lparr>rv_phase := Returned res, rv_calls := tr\<rparr>))
      | Returned _ \<Rightarrow> None)"

text \<open>
  The server with the requests that came in between the steps of \<^verbatim>\<open>Run\<close> and were handled. A request is a handler of the service, with its answer left out.
\<close>

inductive server_step :: "world \<Rightarrow> runEnv \<Rightarrow> server \<times> unit handler list \<Rightarrow> server \<times> unit handler list \<Rightarrow> bool" for w env where
  run: "runStep w env v = Some v' \<Longrightarrow> server_step w env (v, hs) (v', hs)"
| request: "instrumented (rv_initialized v) m (rv_svc v) = (res, t) \<Longrightarrow>
    server_step w env (v, hs) (v\<lparr>rv_svc := t\<rparr>, if rv_initialized v then hs @ [m] else hs)"

definition startCalls :: "runCall list" where
  "startCalls = [RSetInitialized, RStartStreamServer, RStartCNISyncer, RStartSnapshotsSyncer, RStartEventMonitor, RRecover, RSubscribe]"

definition stopCalls :: "runCall list" where
  "stopCalls = [RStopStreamServer, RStopEventMonitor, RStopCNISyncer]"

text \<open>How far \<^verbatim>\<open>Run\<close> has come, as the number of calls that are made.\<close>

definition callsAt :: "runPhase \<Rightarrow> nat" where
  "callsAt ph = (case ph of NotStarted \<Rightarrow> 0 | Subscribed \<Rightarrow> 1 | Recovered \<Rightarrow> 2 | MonitorStarted \<Rightarrow> 3 | SyncerStarted \<Rightarrow> 4 | CniStarted \<Rightarrow> 5
     | StreamStarted \<Rightarrow> 6 | Serving \<Rightarrow> 7 | Returned _ \<Rightarrow> 7)"

definition server_inv :: "world \<Rightarrow> runEnv \<Rightarrow> svc \<Rightarrow> server \<times> unit handler list \<Rightarrow> bool" where
  "server_inv w env s0 = (\<lambda>(v, hs).
     if rv_phase v \<in> {NotStarted, Subscribed} then
       \<not> rv_initialized v \<and> hs = [] \<and> rv_svc v = s0 \<and> rv_calls v = drop (7 - callsAt (rv_phase v)) startCalls
     else case recover w s0 of
       (Inl err, t) \<Rightarrow> \<not> rv_initialized v \<and> hs = [] \<and> rv_svc v = t \<and>
         rv_phase v = Returned (Inl (Wrapf err ''failed to recover state'' [])) \<and> rv_calls v = [RRecover, RSubscribe]
     | (Inr _, t) \<Rightarrow> (rv_initialized v \<longleftrightarrow> callsAt (rv_phase v) = 7) \<and> (\<not> rv_initialized v \<longrightarrow> hs = []) \<and>
         rv_svc v = fold (\<lambda>m s. snd (m s)) hs t \<and>
         (case rv_phase v of
            Returned res \<Rightarrow> rv_calls v = stopCalls @ startCalls \<and> res = fst (runExit env startCalls)
          | _ \<Rightarrow> rv_calls v = drop (7 - callsAt (rv_phase v)) startCalls))"

lemma runExit_calls: "runExit env tr = (res, tr') \<Longrightarrow> tr' = stopCalls @ tr"
  by (auto simp: runExit_def Service_Close_def stopCalls_def Let_def split: option.splits prod.splits)

lemma server_inv_run:
  assumes inv: "server_inv w env s0 (v, hs)" and run: "runStep w env v = Some v'"
  shows "server_inv w env s0 (v', hs)"
proof (cases "rv_phase v")
  case Subscribed
  then show ?thesis using assms by (auto simp: server_inv_def runStep_def callsAt_def startCalls_def numeral_eq_Suc split: prod.splits sum.splits)
next
  case Serving
  obtain res tr where e: "runExit env startCalls = (res, tr)" by fastforce
  then show ?thesis using assms Serving runExit_calls [OF e]
    by (auto simp: server_inv_def runStep_def callsAt_def split: prod.splits sum.splits)
qed (use assms in \<open>auto simp: server_inv_def runStep_def callsAt_def startCalls_def numeral_eq_Suc split: prod.splits sum.splits\<close>)

lemma server_inv_step:
  assumes inv: "server_inv w env s0 x" and s: "server_step w env x y"
  shows "server_inv w env s0 y"
  using s
proof cases
  case (run v v' hs)
  with inv server_inv_run show ?thesis by blast
next
  case (request v m res t hs)
  show ?thesis
  proof (cases "rv_initialized v")
    case False
    then have "t = rv_svc v" using request(3) by (simp add: instrumented_def checkInitialized_def)
    with inv request False show ?thesis by simp
  next
    case True
    then have t: "t = snd (m (rv_svc v))" using request(3) by (auto simp: instrumented_def checkInitialized_def split: prod.splits sum.splits)
    from inv request True obtain t0 where "recover w s0 = (Inr (), t0)" by (auto simp: server_inv_def split: if_splits prod.splits sum.splits)
    with inv request True t show ?thesis by (auto simp: server_inv_def split: if_splits runPhase.splits)
  qed
qed

interpretation srv: inv_system "\<lambda>x. x = (newServer s0, [])" "server_step w env" "server_inv w env s0" for w env s0
  by unfold_locales (simp add: server_inv_def newServer_def callsAt_def startCalls_def, rule server_inv_step)

text \<open>After a successful recovery \<^verbatim>\<open>Run\<close> gets to serving.\<close>

lemma server_serves:
  assumes "recover w s0 = (Inr (), t)"
  shows "(server_step w env)\<^sup>*\<^sup>* (newServer s0, []) (\<lparr>rv_svc = t, rv_initialized = True, rv_phase = Serving, rv_calls = startCalls\<rparr>, [])"
proof -
  let ?v = "\<lambda>ph n. \<lparr>rv_svc = t, rv_initialized = False, rv_phase = ph, rv_calls = drop n startCalls\<rparr>"
  note rtranclp.rtrancl_into_rtrancl [trans]
  have "(server_step w env)\<^sup>*\<^sup>* (newServer s0, []) ((newServer s0)\<lparr>rv_phase := Subscribed, rv_calls := [RSubscribe]\<rparr>, [])"
    by (rule r_into_rtranclp, rule server_step.run) (simp add: runStep_def newServer_def)
  also have "server_step w env ((newServer s0)\<lparr>rv_phase := Subscribed, rv_calls := [RSubscribe]\<rparr>, []) (?v Recovered 5, [])"
    by (rule server_step.run) (simp add: runStep_def newServer_def assms startCalls_def)
  also have "server_step w env (?v Recovered 5, []) (?v MonitorStarted 4, [])" by (rule server_step.run) (simp add: runStep_def startCalls_def)
  also have "server_step w env (?v MonitorStarted 4, []) (?v SyncerStarted 3, [])" by (rule server_step.run) (simp add: runStep_def startCalls_def)
  also have "server_step w env (?v SyncerStarted 3, []) (?v CniStarted 2, [])" by (rule server_step.run) (simp add: runStep_def startCalls_def)
  also have "server_step w env (?v CniStarted 2, []) (?v StreamStarted 1, [])" by (rule server_step.run) (simp add: runStep_def startCalls_def)
  also have "server_step w env (?v StreamStarted 1, []) (\<lparr>rv_svc = t, rv_initialized = True, rv_phase = Serving, rv_calls = startCalls\<rparr>, [])"
    by (rule server_step.run) (simp add: runStep_def startCalls_def)
  finally show ?thesis .
qed


definition quiet_exit :: runEnv where
  "quiet_exit = \<lparr>re_first = CNISyncerExit None, re_stopCNI = None, re_stopStream = None, re_event = None, re_stream = StreamStopTimeout\<rparr>"


end
