(* ===== verification/Netns.thy ===== *)
theory Netns
  imports Paths
begin

section \<open>Network namespaces\<close>

text \<open>
  The persistent network namespaces of pods (\<^verbatim>\<open>pkg/netns/netns_unix.go\<close>, and \<^verbatim>\<open>Unmount\<close> of \<^verbatim>\<open>pkg/os/os_unix.go\<close>). A host
  has files, each with the namespaces bind-mounted on it (the last one first; a file with none is plain), symbolic links with the
  file they finally lead to, the namespace of the thread that works, and the number of open handles on namespaces. Each
  system call fails when the record \<open>nsos\<close> says so, and otherwise does what its manual page says. The lemmas show that a failed creation
  leaves nothing behind, that a created namespace is open until it is removed, that removal is idempotent, and that no
  operation keeps a handle.
\<close>

record host =
  files :: "string \<rightharpoonup> nat list"
  links :: "string \<rightharpoonup> string"
  thread :: nat
  handles :: nat

record nsos =
  o_rand :: "8 word list result"
  o_mkdir :: "goerror option"
  o_create :: "goerror option"
  o_thread :: "goerror option"
  o_unshare :: "nat result"
  o_mount :: "goerror option"
  o_setns :: "goerror option"
  o_stat :: "goerror option"
  o_follow :: "goerror option"
  o_unmount :: "goerror option"
  o_remove :: "goerror option"
  o_open :: "goerror option"
  o_close :: "goerror option"

type_synonym 'a hostop = "(host, 'a) act"

definition fault :: "goerror option \<Rightarrow> unit hostop" where
  "fault e = (case e of None \<Rightarrow> returnA () | Some x \<Rightarrow> failA x)"

subsection \<open>System calls\<close>

definition resolve :: "host \<Rightarrow> string \<Rightarrow> string" where
  "resolve h p = (case links h p of Some q \<Rightarrow> q | None \<Rightarrow> p)"

definition os_Create :: "nsos \<Rightarrow> string \<Rightarrow> unit hostop" where
  "os_Create os p = thenA (fault (o_create os)) (modifyA (\<lambda>h. h\<lparr>files := (files h)
     (resolve h p \<mapsto> (case files h (resolve h p) of None \<Rightarrow> [] | Some ns \<Rightarrow> ns))\<rparr>))"

text \<open>\<^verbatim>\<open>os.RemoveAll\<close> removes a link itself, finds nothing wrong with a path that is not there, and cannot remove a mount point.\<close>

definition os_RemoveAll :: "nsos \<Rightarrow> string \<Rightarrow> unit hostop" where
  "os_RemoveAll os p h =
     (if links h p \<noteq> None then thenA (fault (o_remove os)) (modifyA (\<lambda>h. h\<lparr>links := (links h)(p := None)\<rparr>)) h
      else case files h p of
          None \<Rightarrow> (Inr (), h)
        | Some [] \<Rightarrow> thenA (fault (o_remove os)) (modifyA (\<lambda>h. h\<lparr>files := (files h)(p := None)\<rparr>)) h
        | Some ns \<Rightarrow> (Inl (Errorf ''device or resource busy'' []), h))"

definition os_Stat :: "nsos \<Rightarrow> string \<Rightarrow> unit hostop" where
  "os_Stat os p h = (if files h (resolve h p) = None then (Inl ErrOSNotExist, h) else fault (o_stat os) h)"

definition unix_Mount :: "nsos \<Rightarrow> string \<Rightarrow> unit hostop" where
  "unix_Mount os p = thenA (fault (o_mount os)) (\<lambda>h. case files h (resolve h p) of
       None \<Rightarrow> (Inl ErrOSNotExist, h)
     | Some ns \<Rightarrow> (Inr (), h\<lparr>files := (files h)(resolve h p \<mapsto> thread h # ns)\<rparr>))"

definition EINVAL :: goerror where
  "EINVAL = Errorf ''invalid argument'' []"

definition unix_Unmount :: "nsos \<Rightarrow> string \<Rightarrow> unit hostop" where
  "unix_Unmount os p h = (case files h (resolve h p) of
       None \<Rightarrow> (Inl ErrOSNotExist, h)
     | Some [] \<Rightarrow> (Inl EINVAL, h)
     | Some (n # ns) \<Rightarrow> thenA (fault (o_unmount os)) (modifyA (\<lambda>h. h\<lparr>files := (files h)(resolve h p \<mapsto> ns)\<rparr>)) h)"

text \<open>
  \<^verbatim>\<open>cnins.GetNS\<close> distinguishes a path that is not there and one that is no namespace by the types of its errors; \<^verbatim>\<open>Closed\<close>
  asks for these types on the error itself.
\<close>

definition NSPathNotExistErr :: goerror where
  "NSPathNotExistErr = Errorf ''failed to Statfs'' []"

definition NSPathNotNSErr :: goerror where
  "NSPathNotNSErr = Errorf ''unknown FS magic'' []"

definition GetNS :: "nsos \<Rightarrow> string \<Rightarrow> nat hostop" where
  "GetNS os p h = (case files h (resolve h p) of
       None \<Rightarrow> (Inl NSPathNotExistErr, h)
     | Some [] \<Rightarrow> (Inl NSPathNotNSErr, h)
     | Some (n # ns) \<Rightarrow> thenA (fault (o_open os)) (\<lambda>h. (Inr n, h\<lparr>handles := handles h + 1\<rparr>)) h)"

definition ns_Close :: "nsos \<Rightarrow> unit hostop" where
  "ns_Close os h = fault (o_close os) (h\<lparr>handles := handles h - 1\<rparr>)"

definition ns_Set :: "nsos \<Rightarrow> nat \<Rightarrow> unit hostop" where
  "ns_Set os n = thenA (fault (o_setns os)) (modifyA (\<lambda>h. h\<lparr>thread := n\<rparr>))"

subsection \<open>The operations of the package\<close>

definition hexDigit :: "nat \<Rightarrow> char" where
  "hexDigit n = ''0123456789abcdef'' ! n"

text \<open>The verb \<^verbatim>\<open>%x\<close> on bytes, which is also \<^verbatim>\<open>hex.EncodeToString\<close>.\<close>

definition hexString :: "8 word list \<Rightarrow> string" where
  "hexString b = concat (map (\<lambda>x. [hexDigit (unat x div 16), hexDigit (unat x mod 16)]) b)"

definition nsName :: "8 word list \<Rightarrow> string" where
  "nsName b = ''cni-'' @ hexString (take 4 b) @ ''-'' @ hexString (take 2 (drop 4 b)) @ ''-'' @ hexString (take 2 (drop 6 b)) @
     ''-'' @ hexString (take 2 (drop 8 b)) @ ''-'' @ hexString (drop 10 b)"

definition nsRunDir :: string where
  "nsRunDir = ''/var/run/netns''"

definition Unmount :: "nsos \<Rightarrow> string \<Rightarrow> unit hostop" where
  "Unmount os p = tolerateA (unix_Unmount os p) (\<lambda>e. e = EINVAL)"

text \<open>The goroutine of \<^verbatim>\<open>newNS\<close>: the handle on the original namespace is closed last, after the thread is back in it.\<close>

definition nsGoroutine :: "nsos \<Rightarrow> string \<Rightarrow> unit hostop" where
  "nsGoroutine os nsPath =
     bindA (thenA (fault (o_thread os)) (\<lambda>h. (Inr (thread h), h\<lparr>handles := handles h + 1\<rparr>))) (\<lambda>origNS.
       alwaysA
         (thenA (bindA (liftA (o_unshare os)) (\<lambda>n. modifyA (\<lambda>h. h\<lparr>thread := n\<rparr>)))
           (alwaysA (wrapA (unix_Mount os nsPath) ''failed to bind mount ns at %s'' [nsPath]) (ignoreA (ns_Set os origNS))))
         (ignoreA (ns_Close os)))"

definition newNS :: "nsos \<Rightarrow> string hostop" where
  "newNS os =
     bindA (wrapA (liftA (o_rand os)) ''failed to generate random netns name'' []) (\<lambda>b.
       thenA (fault (o_mkdir os))
         (let nsPath = PathJoin nsRunDir (nsName b) in
          thenA (os_Create os nsPath)
            (onError (thenA (wrapA (nsGoroutine os nsPath) ''failed to create namespace'' []) (returnA nsPath))
              (\<lambda>e. ignoreA (os_RemoveAll os nsPath)))))"

definition unmountNS :: "nsos \<Rightarrow> string \<Rightarrow> unit hostop" where
  "unmountNS os p h = (case os_Stat os p h of
       (Inl e, h) \<Rightarrow> (if IsOSNotExist e then Inr () else Inl (Wrapf e ''failed to stat netns'' []), h)
     | (Inr _, h) \<Rightarrow>
         bindA (wrapA (thenA (fault (o_follow os)) (getA (\<lambda>h. resolve h p))) ''failed to follow symlink'' []) (\<lambda>path.
           thenA (wrapA (tolerateA (Unmount os path) IsOSNotExist) ''failed to umount netns'' [])
             (wrapA (os_RemoveAll os path) ''failed to remove netns'' [])) h)"

record NetNS =
  ns_path :: string

definition NewNetNS :: "nsos \<Rightarrow> NetNS hostop" where
  "NewNetNS os = bindA (wrapA (newNS os) ''failed to setup netns'' []) (\<lambda>p. returnA \<lparr>ns_path = p\<rparr>)"

definition LoadNetNS :: "string \<Rightarrow> NetNS" where
  "LoadNetNS p = \<lparr>ns_path = p\<rparr>"

definition NetNS_Remove :: "nsos \<Rightarrow> NetNS \<Rightarrow> unit hostop" where
  "NetNS_Remove os n = unmountNS os (ns_path n)"

definition Closed :: "nsos \<Rightarrow> NetNS \<Rightarrow> bool hostop" where
  "Closed os n h = (case GetNS os (ns_path n) h of
       (Inl e, h) \<Rightarrow>
         (if e = NSPathNotExistErr then (Inr True, h)
          else if e = NSPathNotNSErr then thenA (wrapA (os_RemoveAll os (ns_path n)) ''remove netns'' []) (returnA True) h
          else (Inl (Wrapf e ''get netns fd'' []), h))
     | (Inr ns, h) \<Rightarrow> thenA (wrapA (ns_Close os) ''close netns fd'' []) (returnA False) h)"

text \<open>\<^verbatim>\<open>ns.Do\<close> of the CNI library is the argument \<open>nsDo\<close>: it runs a function in a namespace.\<close>

definition NetNS_Do :: "nsos \<Rightarrow> (nat \<Rightarrow> 'f \<Rightarrow> unit hostop) \<Rightarrow> NetNS \<Rightarrow> 'f \<Rightarrow> unit hostop" where
  "NetNS_Do os nsDo n f = bindA (wrapA (GetNS os (ns_path n)) ''get netns fd'' []) (\<lambda>ns. alwaysA (nsDo ns f) (ignoreA (ns_Close os)))"

lemma hexDigit_mem: "n < 16 \<Longrightarrow> hexDigit n \<in> set ''0123456789abcdef''"
  unfolding hexDigit_def by (rule nth_mem) simp

lemma hexString_digits: "set (hexString b) \<subseteq> set ''0123456789abcdef'' \<and> length (hexString b) = 2 * length b"
proof -
  have "unat x div 16 < 16" for x :: "8 word" using unsigned_less [of x, where ?'a = nat] by simp
  moreover define H where "H = set ''0123456789abcdef''"
  ultimately have "hexDigit (unat x div 16) \<in> H" "hexDigit (unat x mod 16) \<in> H" for x :: "8 word"
    using hexDigit_mem unfolding H_def by (simp_all del: set_simps)
  then have "set (hexString b) \<subseteq> H" by (auto simp: hexString_def)
  moreover have "length (hexString b) = 2 * length b" by (induction b) (simp_all add: hexString_def)
  ultimately show ?thesis unfolding H_def by simp
qed

subsection \<open>Creation\<close>

lemma fault_cases [act_simps]:
  "fault e h = (Inr u, h') \<longleftrightarrow> e = None \<and> h' = h"
  "fault e h = (Inl x, h') \<longleftrightarrow> e = Some x \<and> h' = h"
  by (auto simp: fault_def split: option.splits)

lemma ns_Close_state [simp]: "ignoreA (ns_Close os) h = h\<lparr>handles := handles h - 1\<rparr>"
  by (simp add: ignoreA_def ns_Close_def fault_def split: option.splits)

lemma ns_Set_state: "ignoreA (ns_Set os n) h = (if o_setns os = None then h\<lparr>thread := n\<rparr> else h)"
  by (simp add: ignoreA_def ns_Set_def fault_def thenA_def bindA_def split: option.splits)

text \<open>Whatever fails in the goroutine, its handle is closed; the mount is there exactly when it returns no error.\<close>

lemma nsGoroutine_spec:
  assumes "nsGoroutine os p h = (r, h')"
  shows "handles h' = handles h \<and> links h' = links h \<and> (o_setns os = None \<longrightarrow> thread h' = thread h) \<and>
    (case r of Inl e \<Rightarrow> files h' = files h
     | Inr _ \<Rightarrow> \<exists>n ns. o_unshare os = Inr n \<and> files h (resolve h p) = Some ns \<and> files h' = (files h)(resolve h p \<mapsto> n # ns))"
proof (cases "o_thread os")
  case None
  then show ?thesis using assms
    by (cases "o_unshare os"; cases "o_mount os"; cases "files h (resolve h p)")
      (auto simp: nsGoroutine_def unix_Mount_def resolve_def ns_Set_state fault_def thenA_def bindA_def alwaysA_def wrapA_def split: if_splits)
qed (use assms in \<open>auto simp: nsGoroutine_def fault_def thenA_def bindA_def\<close>)

definition freshName :: "nsos \<Rightarrow> host \<Rightarrow> bool" where
  "freshName os h \<longleftrightarrow> (case o_rand os of Inl _ \<Rightarrow> True
     | Inr b \<Rightarrow> let p = PathJoin nsRunDir (nsName b) in files h p = None \<and> links h p = None)"

text \<open>A failed creation leaves the files as they were, and no handle is kept either way.\<close>

lemma newNS_spec:
  assumes new: "newNS os h = (r, h')" and fresh: "freshName os h" and rm: "o_remove os = None"
  shows "handles h' = handles h \<and> links h' = links h \<and> (o_setns os = None \<longrightarrow> thread h' = thread h) \<and>
    (case r of Inl e \<Rightarrow> files h' = files h
     | Inr p \<Rightarrow> \<exists>b n. o_rand os = Inr b \<and> o_unshare os = Inr n \<and> p = PathJoin nsRunDir (nsName b) \<and> files h' = (files h)(p \<mapsto> [n]))"
proof (cases "o_rand os")
  case (Inr b)
  let ?p = "PathJoin nsRunDir (nsName b)" and ?h = "h\<lparr>files := (files h)(PathJoin nsRunDir (nsName b) \<mapsto> [])\<rparr>"
  have p: "files h ?p = None" "links h ?p = None" "resolve h ?p = ?p" "resolve ?h ?p = ?p"
    using fresh Inr by (simp_all add: freshName_def resolve_def Let_def)
  show ?thesis
  proof (cases "o_mkdir os = None \<and> o_create os = None")
    case True
    obtain q k where g: "nsGoroutine os ?p ?h = (q, k)" by (cases "nsGoroutine os ?p ?h")
    show ?thesis using new Inr True p nsGoroutine_spec [OF g] g rm
      by (cases q) (auto simp: newNS_def os_Create_def os_RemoveAll_def fault_def thenA_def bindA_def wrapA_def onError_def ignoreA_def
          Let_def fun_upd_idem_iff)
  qed (use new Inr in \<open>cases "o_mkdir os"; auto simp: newNS_def os_Create_def fault_def thenA_def bindA_def wrapA_def Let_def\<close>)
qed (use new in \<open>auto simp: newNS_def bindA_def wrapA_def\<close>)

subsection \<open>Removal\<close>

definition wf_links :: "host \<Rightarrow> bool" where
  "wf_links h \<longleftrightarrow> (\<forall>q \<in> ran (links h). links h q = None)"

lemma resolve_idem: "wf_links h \<Longrightarrow> resolve h (resolve h p) = resolve h p \<and> links h (resolve h p) = None"
  by (auto simp: wf_links_def resolve_def ran_def split: option.splits)

text \<open>The other failures of a call are none of the errors that say that a path is not there or no namespace.\<close>

definition honest :: "nsos \<Rightarrow> bool" where
  "honest os \<longleftrightarrow> (\<forall>e. o_stat os = Some e \<longrightarrow> \<not> IsOSNotExist e) \<and> o_open os \<notin> {Some NSPathNotExistErr, Some NSPathNotNSErr}"

text \<open>
  A removal that reports success has removed the file behind the path and nothing else, whether the namespace was mounted,
  not mounted any more, or gone. Repeating it does nothing, and the namespace counts as closed.
\<close>

lemma unmountNS_removes:
  assumes "unmountNS os p h = (Inr u, h')" "wf_links h" "honest os"
  shows "h' = h\<lparr>files := (files h)(resolve h p := None)\<rparr>"
  using assms resolve_idem [OF assms(2), of p]
  by (auto simp: honest_def unmountNS_def os_Stat_def Unmount_def unix_Unmount_def os_RemoveAll_def act_simps IsOSNotExist_def EINVAL_def
      fun_upd_idem split: prod.splits sum.splits if_splits list.splits option.splits)

lemma unmountNS_busy:
  assumes "files h (resolve h p) = Some (n # m # ns)" "wf_links h" "honest os"
  shows "\<exists>e. fst (unmountNS os p h) = Inl e"
  using assms resolve_idem [OF assms(2), of p]
  by (cases "o_stat os"; cases "o_follow os"; cases "o_unmount os")
    (auto simp: honest_def unmountNS_def os_Stat_def Unmount_def unix_Unmount_def os_RemoveAll_def fault_def thenA_def bindA_def wrapA_def tolerateA_def)

lemma Remove_idempotent:
  assumes "NetNS_Remove os n h = (Inr (), h')" "wf_links h" "honest os"
  shows "NetNS_Remove os' n h' = (Inr (), h')" "Closed os' n h' = (Inr True, h')"
proof -
  have "files h' (resolve h' (ns_path n)) = None"
    using unmountNS_removes [OF assms(1) [unfolded NetNS_Remove_def] assms(2,3)] by (simp add: resolve_def)
  then show "NetNS_Remove os' n h' = (Inr (), h')" "Closed os' n h' = (Inr True, h')"
    by (simp_all add: NetNS_Remove_def unmountNS_def os_Stat_def IsOSNotExist_def Closed_def GetNS_def)
qed

subsection \<open>The life of a namespace\<close>

text \<open>
  \<^verbatim>\<open>Closed\<close> answers whether a namespace is bound to the path, keeps no handle, and removes a file that was left
  without its mount.
\<close>

lemma Closed_answer:
  assumes "Closed os n h = (Inr c, h')" "honest os"
  shows "c \<longleftrightarrow> files h (resolve h (ns_path n)) \<in> {None, Some []}" "handles h' = handles h"
    "\<not> c \<Longrightarrow> h' = h" "c \<Longrightarrow> files h' (resolve h' (ns_path n)) = None \<or> links h (ns_path n) \<noteq> None"
  using assms
  by (auto simp: honest_def NSPathNotExistErr_def NSPathNotNSErr_def Closed_def GetNS_def ns_Close_def os_RemoveAll_def resolve_def act_simps fault_def thenA_def bindA_def wrapA_def
      split: option.splits list.splits sum.splits prod.splits if_splits)

lemma NetNS_life:
  assumes "NewNetNS os h = (Inr n, h1)" "freshName os h" "o_remove os = None" "wf_links h"
  shows "o_open os1 = None \<Longrightarrow> o_close os1 = None \<Longrightarrow> Closed os1 n h1 = (Inr False, h1)"
    and "NetNS_Remove os2 n h1 = (Inr (), h2) \<Longrightarrow> honest os2 \<Longrightarrow> files h2 = files h \<and> links h2 = links h \<and> handles h2 = handles h"
proof -
  obtain b k where new: "newNS os h = (Inr (ns_path n), h1)" "files h (ns_path n) = None" "links h (ns_path n) = None"
    "files h1 = (files h)(ns_path n \<mapsto> [k])" "links h1 = links h" "handles h1 = handles h"
    using assms(1,2) newNS_spec [OF _ assms(2,3)] by (fastforce simp: NewNetNS_def act_simps freshName_def Let_def)
  then have r: "resolve h1 (ns_path n) = ns_path n" "wf_links h1" using assms(4) by (simp_all add: resolve_def wf_links_def)
  show "Closed os1 n h1 = (Inr False, h1)" if "o_open os1 = None" "o_close os1 = None"
    using that new r by (simp add: Closed_def GetNS_def ns_Close_def fault_def thenA_def bindA_def wrapA_def)
  show "files h2 = files h \<and> links h2 = links h \<and> handles h2 = handles h" if "NetNS_Remove os2 n h1 = (Inr (), h2)" "honest os2"
    using unmountNS_removes [OF that(1) [unfolded NetNS_Remove_def] r(2) that(2)] new r(1) by (simp add: fun_upd_idem)
qed

lemma NetNS_Do_handles:
  assumes "NetNS_Do os nsDo n f h = (r, h')" "\<And>m k. handles (snd (nsDo m f k)) = handles k"
  shows "handles h' = handles h"
proof (cases "files h (resolve h (ns_path n))")
  case (Some ns)
  show ?thesis
  proof (cases "ns = [] \<or> o_open os \<noteq> None")
    case False
    then obtain k ks where k: "ns = k # ks" "o_open os = None" by (cases ns) auto
    obtain q g where g: "nsDo k f (h\<lparr>handles := handles h + 1\<rparr>) = (q, g)" by (cases "nsDo k f (h\<lparr>handles := handles h + 1\<rparr>)")
    then show ?thesis using assms(1) assms(2) [of k "h\<lparr>handles := handles h + 1\<rparr>"] Some k
      by (auto simp: NetNS_Do_def GetNS_def alwaysA_def bindA_def wrapA_def thenA_def fault_def)
  qed (use assms(1) Some in \<open>auto simp: NetNS_Do_def GetNS_def bindA_def wrapA_def thenA_def fault_def split: list.splits\<close>)
qed (use assms(1) in \<open>auto simp: NetNS_Do_def GetNS_def bindA_def wrapA_def\<close>)

end
