(* ===== verification/ServiceInvariant.thy ===== *)
theory ServiceInvariant
  imports PodTeardown ContainerCreate UpdateResources EventMonitor ImageHandlers ServiceRun Netns
begin

section \<open>The service as a whole\<close>

text \<open>
  The requests and the events of containerd as the steps of one transition system on the service state, and the
  invariant that ties the stores and the name indexes together. A request is one step here: it sees the changes of the
  others only while it waits for a task to exit, and then (\<open>stillEnv\<close>) only those that add and remove nothing. The
  interleavings inside a request are those of \<^verbatim>\<open>Lifecycle\<close>.
\<close>

definition stillEnv :: "world \<Rightarrow> bool" where
  "stillEnv w \<longleftrightarrow> (\<forall>tr s. sameStores s (w_env w tr s))"

definition keptStores :: "world \<Rightarrow> svc \<Rightarrow> svc \<Rightarrow> bool" where
  "keptStores w s t \<longleftrightarrow> (stillEnv w \<longrightarrow> sameStores s t)"

interpretation ks: quiet_rel "keptStores w" w for w
  by unfold_locales (auto simp: keptStores_def sameStores_def stillEnv_def runOthers_def)

lemma keptStoresD: "always (keptStores w) m \<Longrightarrow> stillEnv w \<Longrightarrow> m s = (r, t) \<Longrightarrow> sameStores s t"
  by (auto simp: always_def keptStores_def)

subsection \<open>Requests that change no store\<close>

lemma kept_start: "always (keptStores w) (StartContainer w r)"
proof -
  have l: "always (keptStores w) (createContainerLoggers w p tty)" for p tty
    by (auto simp: always_def createContainerLoggers_def bindA_def wrapA_def ext_def keptStores_def sameStores_def Let_def split: option.splits)
  have u: "always (keptStores w) (\<lambda>s. statusUpdateSync w (f s) c s)" for f c
    using ks.quiet_prim(3) by (simp add: always_def)
  have m: "always (keptStores w) (\<lambda>s. (Inr (), logCall (f s) s))" for f by (simp add: always_def)
  have n: "always (keptStores w) (newTask w c)" for c
    unfolding newTask_def case_prod_beta by (intro rel_intros l)
  have t: "always (keptStores w) (startTask w c)" for c
    unfolding startTask_def by (intro rel_intros u m always_ignore [OF ks.quiet_prim(1)])
  have b: "always (keptStores w) (startBody w c)" for c
    unfolding startBody_def Let_def by (intro rel_intros n t)
  show ?thesis
    unfolding StartContainer_def setContainerStarting_def resetContainerStarting_def
    by (intro rel_intros b always_ignore [OF ks.quiet_prim(3)] always_ignore [OF ks.quiet_prim(2)])
qed

lemma kept_update: "always (keptStores w) (UpdateContainerResources w r res)"
proof -
  have t: "always (keptStores w) (updateTask w i spec)" for i spec
    unfolding updateTask_def [abs_def] by (intro ks.always_fun rel_intros)
  have s: "always (keptStores w) (updateContainerSpec w i spec)" for i spec
    unfolding updateContainerSpec_def by (intro rel_intros)
  have u: "always (keptStores w) (updateContainerResources w c res st)" for c st
    unfolding updateContainerResources_def Let_def case_prod_beta by (intro rel_intros t s always_ignore [OF s])
  show ?thesis unfolding UpdateContainerResources_def by (intro rel_intros u)
qed

lemma kept_image [rel_intros]:
  "always (keptStores w) (storeUpdate w r)" "always (keptStores w) (createImageReference w n tg)" "always (keptStores w) (updateImage w r)"
  "always (keptStores w) (localResolve w r)"
proof -
  show u: "always (keptStores w) (storeUpdate w r)" for r
    by (auto simp: always_def storeUpdate_def keptStores_def sameStores_def split: prod.splits)
  show c: "always (keptStores w) (createImageReference w n tg)" for n tg
    by (auto simp: always_def createImageReference_def ext_def keptStores_def sameStores_def Let_def split: option.splits prod.splits if_splits)
  show "always (keptStores w) (localResolve w r)" by (simp add: always_def localResolve_def ks.rel_refl Let_def)
  have b: "always (keptStores w) (bindA (wrapA (thenA (modifyA (logCall (ImageConfig r))) (liftA a)) f []) (\<lambda>i.
      thenA (wrapA (createImageReference w i tg) g [i]) (thenA (wrapA (storeUpdate w i) h [i])
        (thenA (wrapA (createImageReference w r tg) k []) (wrapA (storeUpdate w r) l [r])))))" for a f g h k l tg
    by (intro rel_intros u c)
  have w: "always (keptStores w) (wrapA (storeUpdate w r) f xs)" for f xs by (intro rel_intros u)
  have "keptStores w s t" if h: "updateImage w r s = (x, t)" for s x t
  proof -
    let ?s = "logCall (GetImage r) s"
    have "keptStores w ?s t"
    proof (cases "w_image w (trace s) r")
      case (Inl e)
      then show ?thesis using h alwaysD [OF w] by (cases "IsNotFound e") (simp_all add: updateImage_def Let_def ks.rel_refl)
    next
      case (Inr img)
      then show ?thesis
        using h alwaysD [OF w] alwaysD [OF b]
        by (cases "ci_Labels img imageLabelKey = Some imageLabelValue") (simp_all add: updateImage_def Let_def)
    qed
    with ks.rel_trans [OF ks.quiet_logCall] show ?thesis .
  qed
  then show "always (keptStores w) (updateImage w r)" by (simp add: always_def)
qed

lemma kept_images: "always (keptStores w) (PullImage w r)" "always (keptStores w) (RemoveImage w r)"
proof -
  have p: "always (keptStores w) (pullReferences w tg rs)" for tg rs
  proof (induction rs)
    case Nil
    show ?case unfolding pullReferences.simps by (intro rel_intros)
  next
    case (Cons a rs)
    then show ?case unfolding pullReferences.simps by (intro rel_intros)
  qed
  have q: "always (keptStores w) (removeReferences w i rs)" for i rs
  proof (induction rs)
    case Nil
    show ?case unfolding removeReferences.simps by (intro rel_intros)
  next
    case (Cons a rs)
    then show ?case unfolding removeReferences.simps by (intro rel_intros)
  qed
  have l: "always (keptStores w) (\<lambda>s. (f s, logCall c s))" for f c by (simp add: always_def)
  show "always (keptStores w) (PullImage w r)"
    unfolding PullImage_def Let_def case_prod_beta by (intro rel_intros p l)
  have "keptStores w s t" if "RemoveImage w r s = (x, t)" for s x t
    using that alwaysD [OF q] by (auto simp: RemoveImage_def localResolve_def ks.rel_refl Let_def split: sum.splits if_splits)
  then show "always (keptStores w) (RemoveImage w r)" by (simp add: always_def)
qed

lemma kept_event: "always (keptStores w) (handleEvent w e)"
proof -
  have x: "always (keptStores w) (wrapA (handleContainerExit w e c) f [])" "always (keptStores w) (wrapA (handleSandboxExit w e sb) f [])"
    "always (keptStores w) (wrapA (statusUpdateSync w u c) f [])" for e c sb f u
    by (intro rel_intros)+
  have t: "always (keptStores w) (handleTaskExit w e)" for e
    unfolding always_def handleTaskExit_def using alwaysD [OF x(1)] alwaysD [OF x(2)]
    by (fastforce simp: ks.rel_refl split: sum.splits if_splits)
  have o: "always (keptStores w) (handleOOM w i)" for i
    unfolding always_def handleOOM_def using alwaysD [OF x(3)] by (fastforce simp: ks.rel_refl split: sum.splits if_splits)
  show ?thesis by (cases e) (auto intro: t o kept_image)
qed

lemma kept_stop: "always (keptStores w) (StopContainer w r n)" "always (keptStores w) (StopPodSandbox w order r)"
  unfolding StopContainer_def StopPodSandbox_def by (intro rel_intros)+

subsection \<open>Removing a container\<close>

definition ctrRemoved :: "string \<Rightarrow> svc \<Rightarrow> svc \<Rightarrow> bool" where
  "ctrRemoved i s t \<longleftrightarrow> keepPods s t \<and> cs_inv (containerStore t) \<and> reg_inv (containerNameIndex t) \<and>
     cs_containers (containerStore t) = (cs_containers (containerStore s))(i := None) \<and>
     reg_pairs (containerNameIndex t) = {p \<in> reg_pairs (containerNameIndex s). snd p \<noteq> i}"

lemma removeBody_removed:
  assumes "removeBody w c s = (Inr u, t)" "cs_inv (containerStore s)" "reg_inv (containerNameIndex s)"
    and "Store_Get (containerStore s) (c_ID c) = Inr c"
  shows "ctrRemoved (c_ID c) s t"
  using removeBody_frees [OF assms] by (simp add: ctrRemoved_def keepPods_def)

lemma sameStores_trans: "sameStores s t \<Longrightarrow> sameStores t u \<Longrightarrow> sameStores s u"
  by (simp add: sameStores_def)

text \<open>The part of \<^verbatim>\<open>RemoveContainer\<close> under the removing flag.\<close>

lemma flagged_removal:
  assumes "thenA (wrapA (setContainerRemoving c) f xs) (onError (removeBody w c) (\<lambda>_. ignoreA (resetContainerRemoving c))) s = (res, t)"
    and "stillEnv w" "cs_inv (containerStore s)" "reg_inv (containerNameIndex s)" "Store_Get (containerStore s) (c_ID c) = Inr c"
  shows "if res = Inr () then ctrRemoved (c_ID c) s t else sameStores s t"
proof -
  have k: "always (keptStores w) (wrapA (setContainerRemoving c) f xs)" "always (keptStores w) (resetContainerRemoving c)"
    unfolding setContainerRemoving_def resetContainerRemoving_def by (intro rel_intros)+
  obtain r1 u where u: "wrapA (setContainerRemoving c) f xs s = (r1, u)" by fastforce
  from keptStoresD [OF k(1) assms(2) u] have s: "sameStores s u" .
  show ?thesis
  proof (cases r1)
    case (Inl e)
    then show ?thesis using assms(1) u s by (auto simp: thenA_def bindA_def)
  next
    case r1: (Inr x)
    obtain r2 v where v: "removeBody w c u = (r2, v)" by fastforce
    show ?thesis
    proof (cases r2)
      case (Inl e)
      then have t: "res = Inl e" "t = ignoreA (resetContainerRemoving c) v" using assms(1) u v r1 by (auto simp: thenA_def bindA_def onError_def)
      have "sameStores u v" using ioOnly_fields [OF removeBody_Inl [OF v [unfolded Inl]]] by (simp add: sameStores_def)
      moreover have "sameStores v t" using always_ignore [OF k(2), of v] t(2) assms(2) by (simp add: keptStores_def)
      ultimately have "sameStores s t" using sameStores_trans s by blast
      then show ?thesis using t(1) by simp
    next
      case (Inr y)
      then have t: "res = Inr ()" "removeBody w c u = (Inr (), t)" using assms(1) u v r1 by (auto simp: thenA_def bindA_def onError_def)
      have su: "containerStore u = containerStore s" "containerNameIndex u = containerNameIndex s" "keepPods s u"
        using s by (simp_all add: sameStores_def keepPods_def)
      have "ctrRemoved (c_ID c) u t" using removeBody_removed [OF t(2)] assms(3-5) su by simp
      then show ?thesis using su t(1) kp.rel_trans by (auto simp: ctrRemoved_def)
    qed
  qed
qed

subsection \<open>The invariant\<close>

text \<open>
  Ids are 64 hexadecimal digits (\<^verbatim>\<open>pkg/util/id.go\<close>). The name index of the containers holds exactly the names of the stored
  containers, under their ids, and that of the pods those of the pods. A container belongs to a pod that is there.
\<close>

definition hexID :: "string \<Rightarrow> bool" where
  "hexID i \<longleftrightarrow> length i = 64 \<and> set i \<subseteq> set ''0123456789abcdef''"

text \<open>\<^verbatim>\<open>GenerateID\<close>, of the bytes that the random source returns.\<close>

definition GenerateID :: "8 word list \<Rightarrow> string" where
  "GenerateID b = hexString b"

lemma hexID_GenerateID:
  assumes "length b = 32"
  shows "hexID (GenerateID b)"
  using hexString_digits [of b] assms unfolding hexID_def GenerateID_def by simp

definition ctrs_ok :: "svc \<Rightarrow> bool" where
  "ctrs_ok s \<longleftrightarrow> cs_inv (containerStore s) \<and> reg_inv (containerNameIndex s) \<and> (\<forall>i \<in> dom (cs_containers (containerStore s)). hexID i) \<and>
     reg_pairs (containerNameIndex s) = {(m_Name (c_meta c), i) | c i. cs_containers (containerStore s) i = Some c}"

definition pods_ok :: "svc \<Rightarrow> bool" where
  "pods_ok s \<longleftrightarrow> sbs_inv (sandboxStore s) \<and> reg_inv (sandboxNameIndex s) \<and> (\<forall>i \<in> dom (ss_sandboxes (sandboxStore s)). hexID i) \<and>
     reg_pairs (sandboxNameIndex s) = {(sm_Name (sb_meta sb), i) | sb i. ss_sandboxes (sandboxStore s) i = Some sb}"

definition no_orphans :: "svc \<Rightarrow> bool" where
  "no_orphans s \<longleftrightarrow> (\<forall>c \<in> ran (cs_containers (containerStore s)). m_SandboxID (c_meta c) \<in> dom (ss_sandboxes (sandboxStore s)))"

definition svc_inv :: "svc \<Rightarrow> bool" where
  "svc_inv s \<longleftrightarrow> ctrs_ok s \<and> pods_ok s \<and> no_orphans s"

lemma svc_inv_same: "sameStores s t \<Longrightarrow> svc_inv s \<Longrightarrow> svc_inv t"
  by (simp add: svc_inv_def ctrs_ok_def pods_ok_def no_orphans_def sameStores_def)

lemma pods_ok_keep: "keepPods s t \<Longrightarrow> pods_ok s \<Longrightarrow> pods_ok t"
  by (simp add: pods_ok_def keepPods_def)

lemma hexID_chars: "hexID i \<Longrightarrow> i \<noteq> [] \<and> CHR '' '' \<notin> set i"
  by (auto simp: hexID_def)

lemma ctrs_ok_removed: "ctrs_ok s \<Longrightarrow> ctrRemoved i s t \<Longrightarrow> ctrs_ok t"
  by (fastforce simp: ctrs_ok_def ctrRemoved_def)

lemma no_orphans_removed: "no_orphans s \<Longrightarrow> ctrRemoved i s t \<Longrightarrow> no_orphans t"
  by (auto simp: no_orphans_def ctrRemoved_def keepPods_def ran_def)

lemma svc_inv_removed: "svc_inv s \<Longrightarrow> ctrRemoved i s t \<Longrightarrow> svc_inv t"
  using ctrs_ok_removed no_orphans_removed pods_ok_keep by (auto simp: svc_inv_def ctrRemoved_def)

lemma ctrs_ok_lengths: "ctrs_ok s \<Longrightarrow> i \<in> dom (cs_containers (containerStore s)) \<Longrightarrow> length i = 64"
  by (auto simp: ctrs_ok_def hexID_def)

text \<open>What the invariant says for a request: objects are found under their ids and names.\<close>

lemma pods_ok_found:
  assumes "pods_ok s"
  shows "ss_sandboxes (sandboxStore s) i = Some sb \<Longrightarrow>
      Sandbox_Get (sandboxStore s) i = Inr sb \<and> nameToKey (sandboxNameIndex s) (sm_Name (sb_meta sb)) = Some i"
    "nameToKey (sandboxNameIndex s) n = Some i \<Longrightarrow> \<exists>sb. ss_sandboxes (sandboxStore s) i = Some sb \<and> sm_Name (sb_meta sb) = n"
proof -
  have i: "sbs_inv (sandboxStore s)" "\<And>j. j \<in> dom (ss_sandboxes (sandboxStore s)) \<Longrightarrow> length j = 64"
    "(m, j) \<in> reg_pairs (sandboxNameIndex s) \<longleftrightarrow> (\<exists>sb. ss_sandboxes (sandboxStore s) j = Some sb \<and> m = sm_Name (sb_meta sb))" for m j
    using assms by (auto simp: pods_ok_def hexID_def)
  show "nameToKey (sandboxNameIndex s) n = Some i \<Longrightarrow> \<exists>sb. ss_sandboxes (sandboxStore s) i = Some sb \<and> sm_Name (sb_meta sb) = n"
    using i(3) [of n i] by (auto simp: reg_pairs_def)
  assume a: "ss_sandboxes (sandboxStore s) i = Some sb"
  then have "Sandbox_Get (sandboxStore s) i = Inr sb"
    using sbs_nonempty [OF i(1)] i(2) by (intro sbstore.get_full [OF i(1)]) (auto simp: dom_def)
  then show "Sandbox_Get (sandboxStore s) i = Inr sb \<and> nameToKey (sandboxNameIndex s) (sm_Name (sb_meta sb)) = Some i"
    using i(3) [of "sm_Name (sb_meta sb)" i] a by (simp add: reg_pairs_def)
qed

lemma ctrs_ok_found:
  assumes "ctrs_ok s"
  shows "cs_containers (containerStore s) i = Some c \<Longrightarrow>
      Store_Get (containerStore s) i = Inr c \<and> nameToKey (containerNameIndex s) (m_Name (c_meta c)) = Some i"
    "nameToKey (containerNameIndex s) n = Some i \<Longrightarrow> \<exists>c. cs_containers (containerStore s) i = Some c \<and> m_Name (c_meta c) = n"
proof -
  have i: "cs_inv (containerStore s)"
    "(m, j) \<in> reg_pairs (containerNameIndex s) \<longleftrightarrow> (\<exists>c. cs_containers (containerStore s) j = Some c \<and> m = m_Name (c_meta c))" for m j
    using assms by (auto simp: ctrs_ok_def)
  show "nameToKey (containerNameIndex s) n = Some i \<Longrightarrow> \<exists>c. cs_containers (containerStore s) i = Some c \<and> m_Name (c_meta c) = n"
    using i(2) [of n i] by (auto simp: reg_pairs_def)
  assume a: "cs_containers (containerStore s) i = Some c"
  then have "Store_Get (containerStore s) i = Inr c"
    using cs_nonempty [OF i(1)] ctrs_ok_lengths [OF assms] by (intro cstore.get_full [OF i(1)]) (auto simp: dom_def)
  then show "Store_Get (containerStore s) i = Inr c \<and> nameToKey (containerNameIndex s) (m_Name (c_meta c)) = Some i"
    using i(2) [of "m_Name (c_meta c)" i] a by (simp add: reg_pairs_def)
qed

lemma RemoveContainer_cases:
  assumes "RemoveContainer w r s = (res, t)" "stillEnv w" "ctrs_ok s"
  obtains (kept) "sameStores s t" "\<And>c. res = Inr () \<Longrightarrow> Store_Get (containerStore s) r \<noteq> Inr c"
  | (removed) c where "Store_Get (containerStore s) r = Inr c" "ctrRemoved (c_ID c) s t"
proof (cases "Store_Get (containerStore s) r")
  case (Inl err)
  then have "t = s" using assms(1) by (auto simp: RemoveContainer_def containerGet_def split: if_splits)
  then show thesis using Inl by (intro kept) (auto simp: sameStores_def)
next
  case (Inr c)
  let ?stop = "if State (statusOf c s) = RUNNING \<or> State (statusOf c s) = CONTAINER_UNKNOWN
    then wrapA (stopContainer w c 0) ''failed to forcibly stop container %q'' [c_ID c] else returnA ()"
  have ok: "cs_inv (containerStore s)" "reg_inv (containerNameIndex s)" using assms(3) by (auto simp: ctrs_ok_def)
  have full: "Store_Get (containerStore s) (c_ID c) = Inr c"
    using ctrs_ok_found(1) [OF assms(3)] cstore.get_objs [OF ok(1) Inr] by blast
  obtain r1 u where u: "?stop s = (r1, u)" by fastforce
  have "always (keptStores w) ?stop" by (intro rel_intros)
  from keptStoresD [OF this assms(2) u] have k: "sameStores s u" .
  show thesis
  proof (cases r1)
    case (Inl e)
    then have "res \<noteq> Inr ()" "t = u" using assms(1) Inr u by (auto simp: RemoveContainer_def containerGet_def Let_def thenA_def bindA_def)
    then show thesis using k kept by blast
  next
    case r1: (Inr x)
    have "thenA (wrapA (setContainerRemoving c) ''failed to set removing state for container %q'' [c_ID c])
        (onError (removeBody w c) (\<lambda>_. ignoreA (resetContainerRemoving c))) u = (res, t)"
      using assms(1) Inr u r1 by (simp add: RemoveContainer_def containerGet_def Let_def thenA_def bindA_def)
    from flagged_removal [OF this assms(2)] ok full k
    consider "res \<noteq> Inr ()" "sameStores u t" | "ctrRemoved (c_ID c) u t" by (auto simp: sameStores_def split: if_splits)
    then show thesis
    proof cases
      case 1
      then show thesis using k sameStores_trans kept by blast
    next
      case 2
      with k have "ctrRemoved (c_ID c) s t" by (simp add: ctrRemoved_def keepPods_def sameStores_def)
      with Inr show thesis by (rule removed)
    qed
  qed
qed

lemma svc_inv_RemoveContainer:
  assumes "RemoveContainer w r s = (res, t)" "stillEnv w" "svc_inv s"
  shows "svc_inv t"
proof -
  have "ctrs_ok s" using assms(3) by (simp add: svc_inv_def)
  with assms(1,2) show ?thesis by (rule RemoveContainer_cases) (use assms(3) in \<open>auto intro: svc_inv_same svc_inv_removed\<close>)
qed

text \<open>After a successful removal by the full id the container is gone.\<close>

lemma RemoveContainer_gone:
  assumes "RemoveContainer w i s = (res, t)" "stillEnv w" "svc_inv s" "length i = 64"
  shows "keepPods s t \<and> cs_containers (containerStore t) \<subseteq>\<^sub>m cs_containers (containerStore s) \<and>
    (res = Inr () \<longrightarrow> cs_containers (containerStore t) i = None)"
proof -
  have ok: "ctrs_ok s" "cs_inv (containerStore s)" using assms(3) by (auto simp: svc_inv_def ctrs_ok_def)
  from assms(1,2) ok(1) show ?thesis
  proof (cases rule: RemoveContainer_cases)
    case kept
    then show ?thesis using ctrs_ok_found(1) [OF ok(1), of i] by (fastforce simp: sameStores_def keepPods_def)
  next
    case (removed c)
    from cstore.get_objs [OF ok(2) removed(1)] ctrs_ok_lengths [OF ok(1), of "c_ID c"] assms(4)
    have "c_ID c = i" by (metis domI not_equal_is_parallel parallel_def)
    with removed(2) show ?thesis by (auto simp: ctrRemoved_def map_le_def)
  qed
qed

text \<open>A container of the list is gone after the loop, another one stays.\<close>

lemma removeContainers_inv:
  assumes "removeContainers w i cs s = (res, t)" "stillEnv w" "svc_inv s" "\<forall>c \<in> set cs. length (c_ID c) = 64"
  shows "svc_inv t \<and> keepPods s t \<and> cs_containers (containerStore t) \<subseteq>\<^sub>m cs_containers (containerStore s) \<and>
    (res = Inr () \<longrightarrow> (\<forall>c \<in> set cs. m_SandboxID (c_meta c) = i \<longrightarrow> cs_containers (containerStore t) (c_ID c) = None))"
  using assms(1,3,4)
proof (induction cs arbitrary: s res)
  case Nil
  then show ?case by (simp add: keepPods_def)
next
  case (Cons c cs)
  show ?case
  proof (cases "m_SandboxID (c_meta c) = i")
    case False
    then show ?thesis using Cons by auto
  next
    case True
    obtain r1 u where u: "RemoveContainer w (c_ID c) s = (r1, u)" by fastforce
    have step: "svc_inv u" by (rule svc_inv_RemoveContainer [OF u assms(2) Cons.prems(2)])
    have eff: "keepPods s u \<and> cs_containers (containerStore u) \<subseteq>\<^sub>m cs_containers (containerStore s) \<and>
        (r1 = Inr () \<longrightarrow> cs_containers (containerStore u) (c_ID c) = None)"
      using RemoveContainer_gone [OF u assms(2) Cons.prems(2)] Cons.prems(3) by simp
    show ?thesis
    proof (cases r1)
      case (Inl e)
      then have "t = u" "res \<noteq> Inr ()" using Cons.prems(1) True u by (auto simp: thenA_def bindA_def wrapA_def)
      then show ?thesis using step eff by simp
    next
      case (Inr x)
      then have "removeContainers w i cs u = (res, t)" using Cons.prems(1) True u by (simp add: thenA_def bindA_def wrapA_def)
      from Cons.IH [OF this step] Cons.prems(3)
      have ih: "svc_inv t" "keepPods u t" "cs_containers (containerStore t) \<subseteq>\<^sub>m cs_containers (containerStore u)"
        "res = Inr () \<longrightarrow> (\<forall>c \<in> set cs. m_SandboxID (c_meta c) = i \<longrightarrow> cs_containers (containerStore t) (c_ID c) = None)" by auto
      have "cs_containers (containerStore t) (c_ID c) = None"
        using map_le_implies_dom_le [OF ih(3)] eff Inr by (auto simp: dom_def)
      with ih kp.rel_trans [OF _ ih(2)] map_le_trans [OF ih(3)] eff show ?thesis by simp
    qed
  qed
qed

subsection \<open>Every request keeps the invariant\<close>

definition keepCtrs :: "svc \<Rightarrow> svc \<Rightarrow> bool" where
  "keepCtrs s t \<longleftrightarrow> containerStore t = containerStore s \<and> containerNameIndex t = containerNameIndex s \<and>
     (reg_inv (sandboxNameIndex s) \<longrightarrow> reg_inv (sandboxNameIndex t))"

interpretation kc: state_rel keepCtrs
  by unfold_locales (auto simp: keepCtrs_def)

lemma keepCtrs_removeBody: "always keepCtrs (removeSandboxBody w sb)"
proof -
  have e: "always keepCtrs (ext w c)" for c by (simp add: always_def ext_def keepCtrs_def)
  have d: "always keepCtrs (removeDir w d)" for d
    unfolding removeDir_def by (intro rel_intros e) (simp add: keepCtrs_def)
  have s: "keepCtrs s (sandboxDelete i s)" for s i by (auto simp: keepCtrs_def sandboxDelete_def split: prod.splits)
  have r: "keepCtrs s (s\<lparr>sandboxNameIndex := ReleaseByKey (sandboxNameIndex s) i\<rparr>)" for s i
    by (simp add: keepCtrs_def reg_inv_ReleaseByKey)
  show ?thesis unfolding removeSandboxBody_def Let_def by (intro rel_intros e d s r)
qed

text \<open>The last phase: no container of the pod is left, and the pod goes with its name or stays with it.\<close>

lemma removeSandboxBody_inv:
  assumes "removeSandboxBody w sb s = (res, t)" "svc_inv s" "ss_sandboxes (sandboxStore s) (sb_ID sb) = Some sb"
    and gone: "\<And>j c. cs_containers (containerStore s) j = Some c \<Longrightarrow> m_SandboxID (c_meta c) \<noteq> sb_ID sb"
  shows "svc_inv t"
proof -
  let ?i = "sb_ID sb"
  have inv: "pods_ok s" "sbs_inv (sandboxStore s)" "reg_inv (sandboxNameIndex s)" using assms(2) by (auto simp: svc_inv_def pods_ok_def)
  have ct: "containerStore t = containerStore s \<and> containerNameIndex t = containerNameIndex s" "reg_inv (sandboxNameIndex t)"
    using alwaysD [OF keepCtrs_removeBody assms(1)] inv(3) by (simp_all add: keepCtrs_def)
  have "Sandbox_Get (sandboxStore s) ?i = Inr sb" using pods_ok_found(1) [OF inv(1) assms(3)] by blast
  from removeSandboxBody_cases [OF assms(1) inv(2) this inv(3)]
  consider (removed) "ss_sandboxes (sandboxStore t) = (ss_sandboxes (sandboxStore s))(?i := None)" "sbs_inv (sandboxStore t)"
      "reg_pairs (sandboxNameIndex t) = {p \<in> reg_pairs (sandboxNameIndex s). snd p \<noteq> ?i}"
    | (kept) "keepPods s t" by blast
  then show ?thesis
  proof cases
    case removed
    have "pods_ok t" using inv(1) removed ct(2) by (fastforce simp: pods_ok_def)
    moreover have "no_orphans t" using assms(2) gone removed(1) ct(1) by (fastforce simp: svc_inv_def no_orphans_def ran_def)
    ultimately show ?thesis using assms(2) ct(1) by (simp add: svc_inv_def ctrs_ok_def)
  next
    case kept
    with ct(1) have "sameStores s t" by (simp add: sameStores_def keepPods_def)
    with svc_inv_same assms(2) show ?thesis by blast
  qed
qed

text \<open>The loop over the containers empties the pod.\<close>

lemma removeContainers_empties:
  assumes "removeContainers w i (Store_List order (containerStore s)) s = (res, t)" "stillEnv w" "svc_inv s"
    and "enumerates (cs_containers (containerStore s)) order"
  shows "svc_inv t" "keepPods s t" "res = Inr () \<Longrightarrow> cs_containers (containerStore t) j = Some c \<Longrightarrow> m_SandboxID (c_meta c) \<noteq> i"
proof -
  let ?cs = "Store_List order (containerStore s)"
  have ok: "ctrs_ok s" "cs_inv (containerStore s)" using assms(3) by (auto simp: svc_inv_def ctrs_ok_def)
  have all: "d \<in> set ?cs \<longleftrightarrow> (\<exists>k. cs_containers (containerStore s) k = Some d)" for d
    using values_in_enumerates [OF assms(4)] by (auto simp: Store_List_def ran_def)
  have "\<forall>d \<in> set ?cs. length (c_ID d) = 64"
    using all cstore.ok_ident [OF ok(2)] ctrs_ok_lengths [OF ok(1)] by (auto simp: dom_def)
  from removeContainers_inv [OF assms(1-3) this] have t: "svc_inv t" "keepPods s t"
    "cs_containers (containerStore t) \<subseteq>\<^sub>m cs_containers (containerStore s)"
    "res = Inr () \<Longrightarrow> \<forall>d \<in> set ?cs. m_SandboxID (c_meta d) = i \<longrightarrow> cs_containers (containerStore t) (c_ID d) = None" by auto
  show "svc_inv t" "keepPods s t" by (rule t)+
  assume r: "res = Inr ()" and c: "cs_containers (containerStore t) j = Some c"
  then have "cs_containers (containerStore s) j = Some c" using t(3) by (force simp: map_le_def dom_def)
  with t(4) [OF r] all cstore.ok_ident [OF ok(2) this] c show "m_SandboxID (c_meta c) \<noteq> i" by force
qed

lemma svc_inv_RemovePodSandbox:
  assumes "RemovePodSandbox w order order' r s = (res, t)" "stillEnv w" "svc_inv s" "enumerates (cs_containers (containerStore s)) order'"
  shows "svc_inv t"
proof (cases "Sandbox_Get (sandboxStore s) r")
  case (Inl err)
  then show ?thesis using assms(1,3) by (auto simp: RemovePodSandbox_def split: if_splits)
next
  case (Inr sb)
  have k: "always (keptStores w) (forcedStop w order sb)" "always (keptStores w) (checkNetNSClosed w sb)" by (intro rel_intros)+
  note same = keptStoresD [OF k(1) assms(2)] keptStoresD [OF k(2) assms(2)]
  have "sbs_inv (sandboxStore s)" using assms(3) by (simp add: svc_inv_def pods_ok_def)
  from sbstore.get_objs [OF this Inr] have o: "ss_sandboxes (sandboxStore s) (sb_ID sb) = Some sb" by simp
  from assms(1) Inr show ?thesis
  proof (cases rule: RemovePodSandbox_phases)
    case (loop u1 u2 r3 u3)
    have u: "sameStores s u2" using sameStores_trans [OF same(1) [OF loop(1)] same(2) [OF loop(2)]] .
    then have "svc_inv u2" "enumerates (cs_containers (containerStore u2)) order'" "ss_sandboxes (sandboxStore u2) (sb_ID sb) = Some sb"
      using svc_inv_same assms(3,4) o by (auto simp: sameStores_def)
    with removeContainers_empties [OF loop(3) assms(2)] have v: "svc_inv u3" "ss_sandboxes (sandboxStore u3) (sb_ID sb) = Some sb"
      "\<And>j c. r3 = Inr () \<Longrightarrow> cs_containers (containerStore u3) j = Some c \<Longrightarrow> m_SandboxID (c_meta c) \<noteq> sb_ID sb"
      by (auto simp: keepPods_def)
    then show ?thesis using loop(4) removeSandboxBody_inv [OF _ v(1,2)] by (auto split: if_splits)
  qed (use same svc_inv_same sameStores_trans assms(3) in blast)+
qed

text \<open>An id that no object has. That a random id is not in use is what the code relies on.\<close>

definition freshID :: "string \<Rightarrow> svc \<Rightarrow> bool" where
  "freshID i s \<longleftrightarrow> hexID i \<and> i \<notin> dom (cs_containers (containerStore s)) \<and> i \<notin> dom (ss_sandboxes (sandboxStore s))"

lemma fresh_keys:
  assumes "svc_inv s" "freshID i s"
  shows "keyToName (containerNameIndex s) i = None" "keyToName (sandboxNameIndex s) i = None"
proof -
  have "(n, i) \<notin> reg_pairs (containerNameIndex s)" "(n, i) \<notin> reg_pairs (sandboxNameIndex s)" for n
    using assms by (auto simp: svc_inv_def ctrs_ok_def pods_ok_def freshID_def dom_def)
  then show "keyToName (containerNameIndex s) i = None" "keyToName (sandboxNameIndex s) i = None"
    using assms(1) reg_key_name by (auto simp: svc_inv_def ctrs_ok_def pods_ok_def reg_pairs_def) (metis not_None_eq)+
qed

lemma svc_inv_RunPodSandbox:
  assumes "RunPodSandbox w config h s = (res, t)" "svc_inv s" "freshID (w_genID w (trace s)) s"
  shows "svc_inv t"
proof -
  let ?i = "w_genID w (trace s)"
  have pre: "reg_inv (sandboxNameIndex s)" "sbs_inv (sandboxStore s)" "?i \<noteq> []" "CHR '' '' \<notin> set ?i"
    "ss_sandboxes (sandboxStore s) ?i = None" "keyToName (sandboxNameIndex s) ?i = None"
    using assms(2,3) hexID_chars fresh_keys(2) [OF assms(2,3)] by (auto simp: svc_inv_def pods_ok_def freshID_def)
  show ?thesis
  proof (cases res)
    case (Inl e)
    with RunPodSandbox_rollback [of w config h s e t ?i] pre assms(1) have "podSame (nextRef s) s t" by simp
    then show ?thesis by (intro svc_inv_same [OF _ assms(2)]) (simp add: podSame_def sameStores_def)
  next
    case (Inr j)
    with RunPodSandbox_ready [of w config h s j t] pre assms(1) obtain sb md where
      t: "ss_sandboxes (sandboxStore t) = (ss_sandboxes (sandboxStore s))(?i \<mapsto> sb)" "sbs_inv (sandboxStore t)" "sm_Name (sb_meta sb) = makeSandboxName md"
        "Reserve (sandboxNameIndex s) (makeSandboxName md) ?i = (Inr (), sandboxNameIndex t)"
        "containerStore t = containerStore s" "containerNameIndex t = containerNameIndex s"
      unfolding podStarted_def by blast
    have "reg_pairs (sandboxNameIndex t) = insert (makeSandboxName md, ?i) (reg_pairs (sandboxNameIndex s))" "reg_inv (sandboxNameIndex t)"
      using nidx.reserve_Inr [OF pre(1) t(4)] nidx.reserve_ok [OF pre(1) t(4)] by blast+
    then have "pods_ok t" using assms(2,3) t(1-3) pre(5) by (fastforce simp: svc_inv_def pods_ok_def freshID_def)
    moreover have "no_orphans t" using assms(2) t(1,5) by (auto simp: svc_inv_def no_orphans_def)
    ultimately show ?thesis using assms(2) t(5,6) by (simp add: svc_inv_def ctrs_ok_def)
  qed
qed

lemma svc_inv_CreateContainer:
  assumes "CreateContainer w se r config sbc s = (res, t)" "svc_inv s"
    and "\<And>sb. Sandbox_Get (sandboxStore s) r = Inr sb \<Longrightarrow> freshID (w_genID w (CtrTask (sb_ID sb) # trace s)) s"
  shows "svc_inv t"
proof (cases "Sandbox_Get (sandboxStore s) r")
  case (Inl e)
  then have "t = s" using assms(1) by (auto simp: CreateContainer_def thenA_def bindA_def wrapA_def sandboxGet_def)
  then show ?thesis using assms(2) by simp
next
  case (Inr sb)
  let ?i = "w_genID w (CtrTask (sb_ID sb) # trace s)"
  note fresh = assms(3) [OF Inr]
  have pre: "reg_inv (containerNameIndex s)" "cs_inv (containerStore s)" "ctrPre ?i s" "keyToName (containerNameIndex s) ?i = None"
    using assms(2) fresh hexID_chars fresh_keys(1) [OF assms(2) fresh] by (auto simp: svc_inv_def ctrs_ok_def freshID_def ctrPre_def)
  show ?thesis
  proof (cases res)
    case l: (Inl e)
    with CreateContainer_rollback [OF _ pre(1) Inr refl pre(3,4) refl] assms(1) have "ctrSame (sv_config s) ?i s t" by simp
    then show ?thesis by (intro svc_inv_same [OF _ assms(2)]) (simp add: ctrSame_def sameStores_def)
  next
    case r: (Inr j)
    with CreateContainer_created [OF _ pre(1,2) Inr] assms(1) have "containerCreated w se config sbc sb s ?i t" by blast
    then obtain c name label cx where
      t: "cs_containers (containerStore t) = (cs_containers (containerStore s))(?i \<mapsto> c)" "cs_inv (containerStore t)"
        "c_meta c = createMeta cx label" "cx_name cx = name" "cx_sandbox cx = sb"
        "Reserve (containerNameIndex s) name ?i = (Inr (), containerNameIndex t)"
        "sandboxStore t = sandboxStore s" "sandboxNameIndex t = sandboxNameIndex s"
      unfolding containerCreated_def Let_def by (force simp: requestCtx_def)
    have "reg_pairs (containerNameIndex t) = insert (name, ?i) (reg_pairs (containerNameIndex s))" "reg_inv (containerNameIndex t)"
      using nidx.reserve_Inr [OF pre(1) t(6)] nidx.reserve_ok [OF pre(1) t(6)] by blast+
    moreover have "m_Name (c_meta c) = name" "m_SandboxID (c_meta c) = sb_ID sb" using t(3-5) by (simp_all add: createMeta_def)
    ultimately have "ctrs_ok t" "m_SandboxID (c_meta c) \<in> dom (ss_sandboxes (sandboxStore s))"
      using assms(2) fresh t(1,2) sbstore.get_objs [OF _ Inr] by (fastforce simp: svc_inv_def ctrs_ok_def pods_ok_def freshID_def)+
    moreover from this(2) have "no_orphans t" using assms(2) t(1,7) by (auto simp: svc_inv_def no_orphans_def ran_def split: if_splits)
    ultimately show ?thesis using assms(2) t(7,8) by (simp add: svc_inv_def pods_ok_def)
  qed
qed

subsection \<open>Any sequence of requests and events\<close>

inductive svc_step :: "svc \<Rightarrow> svc \<Rightarrow> bool" where
  run_pod: "RunPodSandbox w config h s = (r1, t) \<Longrightarrow> freshID (w_genID w (trace s)) s \<Longrightarrow> svc_step s t"
| stop_pod: "StopPodSandbox w order r s = (r2, t) \<Longrightarrow> stillEnv w \<Longrightarrow> svc_step s t"
| remove_pod: "RemovePodSandbox w order order' r s = (r3, t) \<Longrightarrow> stillEnv w \<Longrightarrow>
    enumerates (cs_containers (containerStore s)) order' \<Longrightarrow> svc_step s t"
| create: "CreateContainer w se r config' sbc s = (r4, t) \<Longrightarrow>
    (\<And>sb. Sandbox_Get (sandboxStore s) r = Inr sb \<Longrightarrow> freshID (w_genID w (CtrTask (sb_ID sb) # trace s)) s) \<Longrightarrow> svc_step s t"
| start: "StartContainer w r s = (r5, t) \<Longrightarrow> stillEnv w \<Longrightarrow> svc_step s t"
| stop: "StopContainer w r n s = (r6, t) \<Longrightarrow> stillEnv w \<Longrightarrow> svc_step s t"
| remove: "RemoveContainer w r s = (r7, t) \<Longrightarrow> stillEnv w \<Longrightarrow> svc_step s t"
| update: "UpdateContainerResources w r res s = (r8, t) \<Longrightarrow> stillEnv w \<Longrightarrow> svc_step s t"
| pull: "PullImage w r s = (r9, t) \<Longrightarrow> stillEnv w \<Longrightarrow> svc_step s t"
| remove_image: "RemoveImage w r s = (r10, t) \<Longrightarrow> stillEnv w \<Longrightarrow> svc_step s t"
| event: "handleEvent w e s = (r11, t) \<Longrightarrow> stillEnv w \<Longrightarrow> svc_step s t"

lemmas svc_kept = kept_stop kept_start kept_update kept_images kept_event

lemma svc_inv_step: "svc_step s t \<Longrightarrow> svc_inv s \<Longrightarrow> svc_inv t"
  by (induction rule: svc_step.induct)
     (blast intro: svc_inv_RunPodSandbox svc_inv_RemovePodSandbox svc_inv_CreateContainer svc_inv_RemoveContainer
        svc_inv_same keptStoresD [OF svc_kept(1)] keptStoresD [OF svc_kept(2)] keptStoresD [OF svc_kept(3)] keptStoresD [OF svc_kept(4)]
        keptStoresD [OF svc_kept(5)] keptStoresD [OF svc_kept(6)] keptStoresD [OF svc_kept(7)])+

lemma svc_inv_new: "svc_inv (newService cfg disk cs sbs)"
  by (simp add: svc_inv_def ctrs_ok_def pods_ok_def no_orphans_def newService_def NewStore_inv Sandbox_NewStore_inv)
     (simp add: NewStore_def Sandbox_NewStore_def NewRegistrar_def reg_pairs_def)

interpretation svcs: inv_system "\<lambda>s. \<exists>cfg disk cs sbs. s = newService cfg disk cs sbs" svc_step svc_inv
  by unfold_locales (auto intro: svc_inv_step svc_inv_new)

lemma svc_inv_found:
  assumes "svc_inv s"
  shows "\<forall>i c. cs_containers (containerStore s) i = Some c \<longrightarrow> Store_Get (containerStore s) i = Inr c \<and>
       nameToKey (containerNameIndex s) (m_Name (c_meta c)) = Some i \<and> (\<exists>sb. Sandbox_Get (sandboxStore s) (m_SandboxID (c_meta c)) = Inr sb)"
    "\<forall>i sb. ss_sandboxes (sandboxStore s) i = Some sb \<longrightarrow> Sandbox_Get (sandboxStore s) i = Inr sb \<and>
       nameToKey (sandboxNameIndex s) (sm_Name (sb_meta sb)) = Some i"
    "\<forall>n i. nameToKey (containerNameIndex s) n = Some i \<longrightarrow> (\<exists>c. cs_containers (containerStore s) i = Some c \<and> m_Name (c_meta c) = n)"
    "\<forall>n i. nameToKey (sandboxNameIndex s) n = Some i \<longrightarrow> (\<exists>sb. ss_sandboxes (sandboxStore s) i = Some sb \<and> sm_Name (sb_meta sb) = n)"
proof -
  have i: "ctrs_ok s" "pods_ok s" using assms by (simp_all add: svc_inv_def)
  have "\<exists>sb. Sandbox_Get (sandboxStore s) (m_SandboxID (c_meta c)) = Inr sb" if "cs_containers (containerStore s) j = Some c" for j c
    using assms that pods_ok_found(1) [OF i(2)] by (fastforce simp: svc_inv_def no_orphans_def ran_def)
  then show "\<forall>i c. cs_containers (containerStore s) i = Some c \<longrightarrow> Store_Get (containerStore s) i = Inr c \<and>
       nameToKey (containerNameIndex s) (m_Name (c_meta c)) = Some i \<and> (\<exists>sb. Sandbox_Get (sandboxStore s) (m_SandboxID (c_meta c)) = Inr sb)"
    using ctrs_ok_found(1) [OF i(1)] by blast
qed (use assms ctrs_ok_found(2) pods_ok_found in \<open>auto simp: svc_inv_def\<close>)

end
