(* ===== verification/StreamAttach.thy ===== *)
theory StreamAttach
  imports WriterGroup Paths
begin

section \<open>Attached clients\<close>

text \<open>
  \<^verbatim>\<open>pkg/server/io\<close>: the FIFOs of a container or an exec process (\<^verbatim>\<open>helpers.go\<close>), and the goroutines that connect a client to them, in
  any interleaving (\<^verbatim>\<open>ContainerIO.Attach\<close>, \<^verbatim>\<open>ExecIO.Attach\<close>). The bytes that a goroutine copies are not modelled, only when its copy ends:
  when the client closes its input, when the reader that wraps it is closed (\<^verbatim>\<open>pkg/ioutil/read_closer.go\<close>), or when the container's
  output ends. A writer in a group is the informer of \<^verbatim>\<open>write_closer.go\<close> around the client's stream: the channel that it closes
  is closed exactly when the calls on the writers have a \<open>WClose\<close> of it. What a goroutine does after its copy is one step.
\<close>

subsection \<open>FIFOs\<close>

record fifoSet =
  ff_Stdin :: string
  ff_Stdout :: string
  ff_Stderr :: string
  ff_Terminal :: bool

datatype pipeCall = OpenPipe string | ClosePipe string | MkdirIO string | NewFifoDir string string bool

text \<open>What the calls answer, given the calls before; \<open>p_fifos\<close> is \<^verbatim>\<open>cio.NewFIFOSetInDir\<close> of containerd.\<close>

record pipeEnv =
  p_err :: "pipeCall list \<Rightarrow> pipeCall \<Rightarrow> goerror option"
  p_fifos :: "pipeCall list \<Rightarrow> string \<Rightarrow> string \<Rightarrow> bool \<Rightarrow> fifoSet result"

definition newFifos :: "pipeEnv \<Rightarrow> string \<Rightarrow> string \<Rightarrow> bool \<Rightarrow> bool \<Rightarrow> (pipeCall list, fifoSet) act" where
  "newFifos env root i tty stdin tr =
     (let dir = PathJoin root ''io''; tr1 = MkdirIO dir # tr in
      case p_err env tr (MkdirIO dir) of
        Some e \<Rightarrow> (Inl e, tr1)
      | None \<Rightarrow>
          (case p_fifos env tr1 dir i tty of
             Inl e \<Rightarrow> (Inl e, NewFifoDir dir i tty # tr1)
           | Inr fifos \<Rightarrow> (Inr (if stdin then fifos else fifos\<lparr>ff_Stdin := ''''\<rparr>), NewFifoDir dir i tty # tr1)))"

text \<open>A pipe is known by the path of its FIFO; \<open>None\<close> is a nil stream. The set of the closer has the pipes in the order of their opening.\<close>

record stdioPipes =
  sp_stdin :: "string option"
  sp_stdout :: "string option"
  sp_stderr :: "string option"

text \<open>One of the three blocks of \<^verbatim>\<open>newStdioPipes\<close>; the state has the pipes opened so far.\<close>

definition openOne :: "pipeEnv \<Rightarrow> string \<Rightarrow> (string list \<times> pipeCall list, string option) act" where
  "openOne env fn = (\<lambda>(ps, tr).
     if fn = '''' then (Inr None, ps, tr)
     else case p_err env tr (OpenPipe fn) of
         Some e \<Rightarrow> (Inl e, ps, OpenPipe fn # tr)
       | None \<Rightarrow> (Inr (Some fn), ps @ [fn], OpenPipe fn # tr))"

definition closeAll :: "string list \<Rightarrow> pipeCall list \<Rightarrow> pipeCall list" where
  "closeAll ps tr = rev (map ClosePipe ps) @ tr"

definition newStdioPipes :: "pipeEnv \<Rightarrow> fifoSet \<Rightarrow> (pipeCall list, stdioPipes \<times> string list) act" where
  "newStdioPipes env fifos tr =
     (case onError
         (bindA (openOne env (ff_Stdin fifos)) (\<lambda>i.
          bindA (openOne env (ff_Stdout fifos)) (\<lambda>out.
          bindA (openOne env (ff_Stderr fifos)) (\<lambda>err.
            getA (\<lambda>(ps, tr). (\<lparr>sp_stdin = i, sp_stdout = out, sp_stderr = err\<rparr>, ps))))))
         (\<lambda>e (ps, tr). (ps, closeAll ps tr)) ([], tr) of
        (r, _, tr') \<Rightarrow> (r, tr'))"

record execIO =
  xi_id :: string
  xi_fifos :: fifoSet
  xi_pipes :: stdioPipes
  xi_set :: "string list"

definition NewExecIO :: "pipeEnv \<Rightarrow> string \<Rightarrow> string \<Rightarrow> bool \<Rightarrow> bool \<Rightarrow> (pipeCall list, execIO) act" where
  "NewExecIO env i root tty stdin =
     bindA (newFifos env root i tty stdin) (\<lambda>fifos.
     bindA (newStdioPipes env fifos) (\<lambda>(stdio, ps).
     returnA \<lparr>xi_id = i, xi_fifos = fifos, xi_pipes = stdio, xi_set = ps\<rparr>))"

text \<open>\<^verbatim>\<open>NewContainerIO\<close> as a whole; its groups are those of \<open>NewContainerIO\<close>.\<close>

datatype ioOpt = WithFIFOs fifoSet | WithNewFIFOs string bool bool

fun applyIOOpts :: "pipeEnv \<Rightarrow> string \<Rightarrow> ioOpt list \<Rightarrow> fifoSet option \<Rightarrow> (pipeCall list, fifoSet option) act" where
  "applyIOOpts env i [] fifos = returnA fifos"
| "applyIOOpts env i (WithFIFOs f # opts) fifos = applyIOOpts env i opts (Some f)"
| "applyIOOpts env i (WithNewFIFOs root tty stdin # opts) fifos =
     bindA (newFifos env root i tty stdin) (\<lambda>f. applyIOOpts env i opts (Some f))"

definition openContainerIO ::
    "pipeEnv \<Rightarrow> string \<Rightarrow> ioOpt list \<Rightarrow> (pipeCall list, 'w containerIO \<times> fifoSet \<times> stdioPipes \<times> string list) act" where
  "openContainerIO env i opts =
     bindA (applyIOOpts env i opts None) (\<lambda>fifos.
       case fifos of
         None \<Rightarrow> failA (Errorf ''fifos are not set'' [])
       | Some f \<Rightarrow> bindA (newStdioPipes env f) (\<lambda>(stdio, ps). returnA (NewContainerIO i, f, stdio, ps)))"

definition present :: "string \<Rightarrow> string list" where
  "present fn = (if fn = '''' then [] else [fn])"

lemma openOne_ok:
  "openOne env fn (ps, tr) = (Inr x, s') \<Longrightarrow> s' = (ps @ present fn, map OpenPipe (present fn) @ tr) \<and> x = (if fn = '''' then None else Some fn)"
  by (auto simp: openOne_def present_def split: if_splits option.splits)

lemma openOne_err: "openOne env fn (ps, tr) = (Inl e, s') \<Longrightarrow> s' = (ps, OpenPipe fn # tr)"
  by (auto simp: openOne_def split: if_splits option.splits)

text \<open>The pipes that are open afterwards: all that have a FIFO after a success, none after a failure.\<close>

lemma newStdioPipes_success:
  assumes "newStdioPipes env fifos tr = (Inr (p, st), tr')"
  shows "st = present (ff_Stdin fifos) @ present (ff_Stdout fifos) @ present (ff_Stderr fifos)"
    "tr' = rev (map OpenPipe st) @ tr"
    "p = \<lparr>sp_stdin = if ff_Stdin fifos = '''' then None else Some (ff_Stdin fifos), sp_stdout = if ff_Stdout fifos = '''' then None else Some (ff_Stdout fifos),
       sp_stderr = if ff_Stderr fifos = '''' then None else Some (ff_Stderr fifos)\<rparr>"
  using assms
  by (auto simp: newStdioPipes_def onError_def bindA_def getA_def present_def split: prod.splits sum.splits dest!: openOne_ok)

lemma newStdioPipes_failure:
  assumes "newStdioPipes env fifos tr = (Inl e, tr')"
  obtains ps fn where "tr' = closeAll ps (OpenPipe fn # rev (map OpenPipe ps) @ tr)"
proof -
  let ?i = "present (ff_Stdin fifos)" and ?o = "present (ff_Stdout fifos)"
  have r: "rev (map OpenPipe (present f)) = map OpenPipe (present f)" for f by (simp add: present_def)
  from assms have "\<exists>fn. tr' = closeAll [] (OpenPipe fn # tr) \<or> tr' = closeAll ?i (OpenPipe fn # map OpenPipe ?i @ tr) \<or>
      tr' = closeAll (?i @ ?o) (OpenPipe fn # map OpenPipe ?o @ map OpenPipe ?i @ tr)"
    by (auto simp: newStdioPipes_def onError_def bindA_def getA_def split: prod.splits sum.splits dest!: openOne_ok openOne_err)
  then show ?thesis using that [of "[]"] that [of ?i] that [of "?i @ ?o"] r by auto
qed

text \<open>A container that takes no input has no pipe for it.\<close>

lemma openContainerIO_stdin:
  assumes "openContainerIO env i [WithNewFIFOs root tty False] tr = (Inr (io, f, stdio, ps), tr')"
  shows "sp_stdin stdio = None \<and> io = NewContainerIO i"
proof -
  obtain t where t: "newFifos env root i tty False tr = (Inr f, t)" "newStdioPipes env f t = (Inr (stdio, ps), tr')" "io = NewContainerIO i"
    using assms by (auto simp: openContainerIO_def act_simps)
  then have "ff_Stdin f = ''''" by (auto simp: newFifos_def Let_def split: option.splits sum.splits)
  then show ?thesis using newStdioPipes_success(3) [OF t(2)] t(3) by simp
qed

subsection \<open>Attaching to a container\<close>

text \<open>\<^verbatim>\<open>CloseStdin\<close> may fail, which is only logged; its calls are counted.\<close>

record 'w attachOptions =
  ao_Stdin :: bool
  ao_Stdout :: "'w option"
  ao_Stderr :: "'w option"
  ao_Tty :: bool
  ao_StdinOnce :: bool

datatype goroutine = NotStarted | Running | Ended

datatype attachPoint = AddStdoutPoint | AddStderrPoint | WaitPoint | ReturnedPoint

record 'w attachment =
  at_io :: "'w containerIO"
  at_calls :: "'w wcall list"
  at_point :: attachPoint
  at_stdinGo :: goroutine
  at_stdoutGo :: goroutine
  at_stderrGo :: goroutine
  at_wg :: nat
  at_readerClosed :: bool
  at_stdinClosed :: bool
  at_closeStdin :: nat

definition attachKey :: "string \<Rightarrow> string \<Rightarrow> 'w containerIO \<Rightarrow> string" where
  "attachKey key stream io = streamKey (io_id io) (''attach-'' @ key) stream"

text \<open>The body of \<^verbatim>\<open>Attach\<close> up to the goroutine for the input, then the two blocks for the outputs.\<close>

definition attachBegin :: "bool \<Rightarrow> 'w attachOptions \<Rightarrow> 'w containerIO \<Rightarrow> 'w wcall list \<Rightarrow> 'w attachment" where
  "attachBegin hasStdin opts io tr =
     (let go = hasStdin \<and> ao_Stdin opts in
      \<lparr>at_io = io, at_calls = tr, at_point = AddStdoutPoint, at_stdinGo = if go then Running else NotStarted, at_stdoutGo = NotStarted,
       at_stderrGo = NotStarted, at_wg = if go then 1 else 0, at_readerClosed = False, at_stdinClosed = False, at_closeStdin = 0\<rparr>)"

definition onStdout :: "('w writerGroup \<times> 'w wcall list \<Rightarrow> 'w writerGroup \<times> 'w wcall list) \<Rightarrow> 'w attachment \<Rightarrow> 'w attachment" where
  "onStdout f s = (let (g, tr) = f (io_stdout (at_io s), at_calls s) in s\<lparr>at_io := (at_io s)\<lparr>io_stdout := g\<rparr>, at_calls := tr\<rparr>)"

definition onStderr :: "('w writerGroup \<times> 'w wcall list \<Rightarrow> 'w writerGroup \<times> 'w wcall list) \<Rightarrow> 'w attachment \<Rightarrow> 'w attachment" where
  "onStderr f s = (let (g, tr) = f (io_stderr (at_io s), at_calls s) in s\<lparr>at_io := (at_io s)\<lparr>io_stderr := g\<rparr>, at_calls := tr\<rparr>)"

definition attachStdout :: "string \<Rightarrow> 'w attachOptions \<Rightarrow> 'w attachment \<Rightarrow> 'w attachment" where
  "attachStdout key opts s =
     (case ao_Stdout opts of
        None \<Rightarrow> s\<lparr>at_point := AddStderrPoint\<rparr>
      | Some w \<Rightarrow> (onStdout (Group_Add (attachKey key ''stdout'' (at_io s)) w) s)\<lparr>at_wg := at_wg s + 1, at_stdoutGo := Running, at_point := AddStderrPoint\<rparr>)"

text \<open>Standard error is left out on a terminal.\<close>

definition attachedStderr :: "'w attachOptions \<Rightarrow> 'w option" where
  "attachedStderr opts = (if ao_Tty opts then None else ao_Stderr opts)"

definition attachStderr :: "string \<Rightarrow> 'w attachOptions \<Rightarrow> 'w attachment \<Rightarrow> 'w attachment" where
  "attachStderr key opts s =
     (case attachedStderr opts of
        None \<Rightarrow> s\<lparr>at_point := WaitPoint\<rparr>
      | Some w \<Rightarrow> (onStderr (Group_Add (attachKey key ''stderr'' (at_io s)) w) s)\<lparr>at_wg := at_wg s + 1, at_stderrGo := Running, at_point := WaitPoint\<rparr>)"

text \<open>What the goroutine for the input does when its copy has ended, and \<^verbatim>\<open>attachStream\<close> once the channel is closed.\<close>

definition closesStdin :: "'w attachOptions \<Rightarrow> bool" where
  "closesStdin opts \<longleftrightarrow> ao_StdinOnce opts \<and> \<not> ao_Tty opts"

definition stdinEnds :: "string \<Rightarrow> 'w attachOptions \<Rightarrow> 'w attachment \<Rightarrow> 'w attachment" where
  "stdinEnds key opts s =
     (let t = (if closesStdin opts then s\<lparr>at_stdinClosed := True, at_closeStdin := at_closeStdin s + 1\<rparr>
               else (let t = if ao_Stdout opts \<noteq> None then onStdout (Group_Remove (attachKey key ''stdout'' (at_io s))) s else s in
                     if ao_Stderr opts \<noteq> None then onStderr (Group_Remove (attachKey key ''stderr'' (at_io s))) t else t))
      in t\<lparr>at_stdinGo := Ended, at_wg := at_wg s - 1\<rparr>)"

definition streamEnds :: "'w attachment \<Rightarrow> 'w attachment" where
  "streamEnds s = s\<lparr>at_readerClosed := at_readerClosed s \<or> at_stdinGo s \<noteq> NotStarted, at_wg := at_wg s - 1\<rparr>"

definition informed :: "'w option \<Rightarrow> 'w attachment \<Rightarrow> bool" where
  "informed w s \<longleftrightarrow> (\<exists>x. w = Some x \<and> WClose x \<in> set (at_calls s))"

text \<open>The steps that the goroutines of the session take by themselves.\<close>

inductive attach_run :: "string \<Rightarrow> 'w attachOptions \<Rightarrow> 'w attachment \<Rightarrow> 'w attachment \<Rightarrow> bool" for key opts where
  add_stdout: "at_point s = AddStdoutPoint \<Longrightarrow> attach_run key opts s (attachStdout key opts s)"
| add_stderr: "at_point s = AddStderrPoint \<Longrightarrow> attach_run key opts s (attachStderr key opts s)"
| stdout_ends: "at_stdoutGo s = Running \<Longrightarrow> informed (ao_Stdout opts) s \<Longrightarrow> attach_run key opts s ((streamEnds s)\<lparr>at_stdoutGo := Ended\<rparr>)"
| stderr_ends: "at_stderrGo s = Running \<Longrightarrow> informed (attachedStderr opts) s \<Longrightarrow> attach_run key opts s ((streamEnds s)\<lparr>at_stderrGo := Ended\<rparr>)"
| reader_closed: "at_stdinGo s = Running \<Longrightarrow> at_readerClosed s \<Longrightarrow> attach_run key opts s (stdinEnds key opts s)"
| returned: "at_point s = WaitPoint \<Longrightarrow> at_wg s = 0 \<Longrightarrow> attach_run key opts s (s\<lparr>at_point := ReturnedPoint\<rparr>)"

text \<open>What others do to a group: the container writes, its output ends, and other clients and the log come and go under other keys.\<close>

inductive group_step :: "string \<Rightarrow> 'w writerGroup \<times> 'w wcall list \<Rightarrow> 'w writerGroup \<times> 'w wcall list \<Rightarrow> bool" for key where
  "enumerates (wg_writers (fst s)) order \<Longrightarrow> group_step key s (snd (Group_Write wr order p s))"
| "enumerates (wg_writers (fst s)) order \<Longrightarrow> group_step key s (Group_Close order s)"
| "k \<noteq> key \<Longrightarrow> group_step key s (Group_Add k w s)"
| "k \<noteq> key \<Longrightarrow> group_step key s (Group_Remove k s)"

text \<open>All steps: the client may also end its input at any moment.\<close>

inductive attach_step :: "string \<Rightarrow> 'w attachOptions \<Rightarrow> 'w attachment \<Rightarrow> 'w attachment \<Rightarrow> bool" for key opts where
  session: "attach_run key opts s t \<Longrightarrow> attach_step key opts s t"
| client_ends: "at_stdinGo s = Running \<Longrightarrow> attach_step key opts s (stdinEnds key opts s)"
| stdout_group: "group_step (attachKey key ''stdout'' (at_io s)) (io_stdout (at_io s), at_calls s) x \<Longrightarrow> attach_step key opts s (onStdout (\<lambda>_. x) s)"
| stderr_group: "group_step (attachKey key ''stderr'' (at_io s)) (io_stderr (at_io s), at_calls s) x \<Longrightarrow> attach_step key opts s (onStderr (\<lambda>_. x) s)"

subsection \<open>The session keeps track of its streams\<close>

lemma writeLoop_facts:
  "set (snd s) \<subseteq> set (snd (writeLoop wr p ks s))"
  "wg_closed (fst (writeLoop wr p ks s)) = wg_closed (fst s)"
  "wg_writers (fst s) k = None \<Longrightarrow> wg_writers (fst (writeLoop wr p ks s)) k = None"
  "wg_writers (fst s) k = Some x \<Longrightarrow> wg_writers (fst (writeLoop wr p ks s)) k = Some x \<or> WClose x \<in> set (snd (writeLoop wr p ks s))"
proof -
  have "set (snd s) \<subseteq> set (snd (writeLoop wr p ks s)) \<and> wg_closed (fst (writeLoop wr p ks s)) = wg_closed (fst s) \<and>
    (wg_writers (fst s) k = None \<longrightarrow> wg_writers (fst (writeLoop wr p ks s)) k = None) \<and>
    (\<forall>x. wg_writers (fst s) k = Some x \<longrightarrow> wg_writers (fst (writeLoop wr p ks s)) k = Some x \<or> WClose x \<in> set (snd (writeLoop wr p ks s)))"
  proof (induction ks arbitrary: s)
    case (Cons a ks)
    obtain g tr where s: "s = (g, tr)" by (cases s)
    show ?case
    proof (cases "wg_writers g a")
      case (Some w)
      obtain n failed where wr: "wr tr w p = (n, failed)" by (cases "wr tr w p")
      show ?thesis
        using Some s wr Cons.IH [of "(g, WWrite w p # tr)"] Cons.IH [of "(g\<lparr>wg_writers := (wg_writers g)(a := None)\<rparr>, WClose w # WWrite w p # tr)"]
        by (cases "\<not> failed \<and> length p = n") (auto split: if_split_asm)
    qed (use s Cons.IH [of s] in simp)
  qed simp
  then show "set (snd s) \<subseteq> set (snd (writeLoop wr p ks s))" "wg_closed (fst (writeLoop wr p ks s)) = wg_closed (fst s)"
    "wg_writers (fst s) k = None \<Longrightarrow> wg_writers (fst (writeLoop wr p ks s)) k = None"
    "wg_writers (fst s) k = Some x \<Longrightarrow> wg_writers (fst (writeLoop wr p ks s)) k = Some x \<or> WClose x \<in> set (snd (writeLoop wr p ks s))"
    by blast+
qed

text \<open>A stream whose goroutine runs is in its group, or its channel is closed; a group that is closed has no writers.\<close>

definition watched :: "string \<Rightarrow> 'w option \<Rightarrow> goroutine \<Rightarrow> 'w writerGroup \<times> 'w wcall list \<Rightarrow> bool" where
  "watched key w go = (\<lambda>(g, tr). (wg_closed g \<longrightarrow> wg_writers g = Map.empty) \<and>
     (go \<noteq> NotStarted \<longrightarrow> (\<exists>x. w = Some x \<and> (WClose x \<in> set tr \<or> go = Running \<and> wg_writers g key = Some x))))"

lemma watched_mono: "watched key w go (g, tr) \<Longrightarrow> set tr \<subseteq> set tr' \<Longrightarrow> watched key w go (g, tr')"
  by (auto simp: watched_def)

lemma group_step_watched:
  assumes "group_step key s t" "watched key w go s"
  shows "watched key w go t" "set (snd s) \<subseteq> set (snd t)"
proof -
  have "watched key w go t \<and> set (snd s) \<subseteq> set (snd t)" using assms
  proof (induction rule: group_step.induct)
    case (1 s order wr p)
    note f = writeLoop_facts [where s = s and wr = wr and p = p and ks = order]
    have "snd (Group_Write wr order p s) = writeLoop wr p order s" by (simp add: Group_Write_def case_prod_beta Let_def)
    moreover have "wg_writers (fst s) = Map.empty \<Longrightarrow> wg_writers (fst (writeLoop wr p order s)) = Map.empty" using f(3) by fastforce
    moreover have "watched key w go (writeLoop wr p order s)"
      unfolding watched_def case_prod_beta
    proof (intro conjI impI)
      show "wg_writers (fst (writeLoop wr p order s)) = Map.empty" if "wg_closed (fst (writeLoop wr p order s))"
        using that f(2) calculation(2) 1(2) by (simp add: watched_def case_prod_beta)
      show "\<exists>x. w = Some x \<and> (WClose x \<in> set (snd (writeLoop wr p order s)) \<or> go = Running \<and> wg_writers (fst (writeLoop wr p order s)) key = Some x)"
        if "go \<noteq> NotStarted" using that 1(2) f(1) f(4) [of key] by (auto simp: watched_def case_prod_beta)
    qed
    ultimately show ?case using f(1) by simp
  next
    case (2 s order)
    have "WClose x \<in> set (rev (map WClose (values_in (wg_writers (fst s)) order)))" if "wg_writers (fst s) key = Some x" for x
      using 2(1) that by (auto simp: set_values_in enumerates_def)
    then show ?case using 2(2) by (force simp: watched_def Group_Close_def case_prod_beta)
  qed (auto simp: watched_def Group_Add_def Group_Remove_def split: option.splits if_split_asm)
  then show "watched key w go t" "set (snd s) \<subseteq> set (snd t)" by simp_all
qed

lemma watched_add: "watched key w NotStarted s \<Longrightarrow> watched key (Some x) Running (Group_Add key x s) \<and> set (snd s) \<subseteq> set (snd (Group_Add key x s))"
  by (cases s) (auto simp: watched_def Group_Add_def)

lemma watched_remove: "watched key w go s \<Longrightarrow> watched key w go (Group_Remove key s) \<and> set (snd s) \<subseteq> set (snd (Group_Remove key s))"
  by (auto simp: watched_def Group_Remove_def split: option.splits)

lemma on_groups [simp]:
  "io_stdout (at_io (onStdout f s)) = fst (f (io_stdout (at_io s), at_calls s))" "at_calls (onStdout f s) = snd (f (io_stdout (at_io s), at_calls s))"
  "io_stderr (at_io (onStdout f s)) = io_stderr (at_io s)" "io_id (at_io (onStdout f s)) = io_id (at_io s)"
  "io_stderr (at_io (onStderr f s)) = fst (f (io_stderr (at_io s), at_calls s))" "at_calls (onStderr f s) = snd (f (io_stderr (at_io s), at_calls s))"
  "io_stdout (at_io (onStderr f s)) = io_stdout (at_io s)" "io_id (at_io (onStderr f s)) = io_id (at_io s)"
  by (simp_all add: onStdout_def onStderr_def case_prod_beta Let_def)

lemma on_rest [simp]:
  "at_point (onStdout f s) = at_point s" "at_stdinGo (onStdout f s) = at_stdinGo s" "at_stdoutGo (onStdout f s) = at_stdoutGo s"
  "at_stderrGo (onStdout f s) = at_stderrGo s" "at_wg (onStdout f s) = at_wg s" "at_readerClosed (onStdout f s) = at_readerClosed s"
  "at_stdinClosed (onStdout f s) = at_stdinClosed s" "at_closeStdin (onStdout f s) = at_closeStdin s"
  "at_point (onStderr f s) = at_point s" "at_stdinGo (onStderr f s) = at_stdinGo s" "at_stdoutGo (onStderr f s) = at_stdoutGo s"
  "at_stderrGo (onStderr f s) = at_stderrGo s" "at_wg (onStderr f s) = at_wg s" "at_readerClosed (onStderr f s) = at_readerClosed s"
  "at_stdinClosed (onStderr f s) = at_stdinClosed s" "at_closeStdin (onStderr f s) = at_closeStdin s"
  by (simp_all add: onStdout_def onStderr_def case_prod_beta Let_def)

text \<open>The part of the state that the groups have a hand in.\<close>

definition streams_ok :: "string \<Rightarrow> 'w attachOptions \<Rightarrow> 'w attachment \<Rightarrow> bool" where
  "streams_ok key opts s \<longleftrightarrow>
     watched (attachKey key ''stdout'' (at_io s)) (ao_Stdout opts) (at_stdoutGo s) (io_stdout (at_io s), at_calls s) \<and>
     watched (attachKey key ''stderr'' (at_io s)) (attachedStderr opts) (at_stderrGo s) (io_stderr (at_io s), at_calls s)"

lemma streams_onStdout:
  assumes "streams_ok key opts s" "f (io_stdout (at_io s), at_calls s) = x" "set (at_calls s) \<subseteq> set (snd x)"
    and "watched (attachKey key ''stdout'' (at_io s)) (ao_Stdout opts) go x"
  shows "streams_ok key opts ((onStdout f s)\<lparr>at_stdoutGo := go\<rparr>)"
  using assms watched_mono [of _ _ _ "io_stderr (at_io s)" "at_calls s" "snd x"] by (simp add: streams_ok_def attachKey_def)

lemma streams_onStderr:
  assumes "streams_ok key opts s" "f (io_stderr (at_io s), at_calls s) = x" "set (at_calls s) \<subseteq> set (snd x)"
    and "watched (attachKey key ''stderr'' (at_io s)) (attachedStderr opts) go x"
  shows "streams_ok key opts ((onStderr f s)\<lparr>at_stderrGo := go\<rparr>)"
  using assms watched_mono [of _ _ _ "io_stdout (at_io s)" "at_calls s" "snd x"] by (simp add: streams_ok_def attachKey_def)

definition counted :: "goroutine \<Rightarrow> nat" where
  "counted go = (if go = Running then 1 else 0)"

text \<open>The program counter, the wait group and the goroutines agree.\<close>

definition session_ok :: "'w attachOptions \<Rightarrow> 'w attachment \<Rightarrow> bool" where
  "session_ok opts s \<longleftrightarrow>
     at_wg s = counted (at_stdinGo s) + counted (at_stdoutGo s) + counted (at_stderrGo s) \<and>
     (at_stdoutGo s = NotStarted \<longleftrightarrow> at_point s = AddStdoutPoint \<or> ao_Stdout opts = None) \<and>
     (at_stderrGo s = NotStarted \<longleftrightarrow> at_point s \<in> {AddStdoutPoint, AddStderrPoint} \<or> attachedStderr opts = None) \<and>
     (at_stdoutGo s = Ended \<or> at_stderrGo s = Ended \<longrightarrow> at_stdinGo s \<noteq> NotStarted \<longrightarrow> at_readerClosed s) \<and>
     (at_point s = ReturnedPoint \<longrightarrow> at_wg s = 0) \<and>
     (at_stdinClosed s \<longleftrightarrow> at_stdinGo s = Ended \<and> closesStdin opts) \<and>
     at_closeStdin s = (if at_stdinGo s = Ended \<and> closesStdin opts then 1 else 0)"

lemma session_ok_groups [simp]: "session_ok opts (onStdout f s) = session_ok opts s" "session_ok opts (onStderr f s) = session_ok opts s"
  by (simp_all add: session_ok_def)

definition attach_inv :: "string \<Rightarrow> 'w attachOptions \<Rightarrow> 'w attachment \<Rightarrow> bool" where
  "attach_inv key opts s \<longleftrightarrow> streams_ok key opts s \<and> session_ok opts s"

definition groups_ok :: "'w containerIO \<Rightarrow> bool" where
  "groups_ok io \<longleftrightarrow> (wg_closed (io_stdout io) \<longrightarrow> wg_writers (io_stdout io) = Map.empty) \<and> (wg_closed (io_stderr io) \<longrightarrow> wg_writers (io_stderr io) = Map.empty)"

lemma attach_inv_begin: "groups_ok io \<Longrightarrow> attach_inv key opts (attachBegin hasStdin opts io tr)"
  by (auto simp: attach_inv_def groups_ok_def streams_ok_def session_ok_def attachBegin_def watched_def counted_def Let_def)

lemma streams_remove:
  assumes "streams_ok key opts s"
  shows "streams_ok key opts (onStdout (Group_Remove (attachKey key ''stdout'' (at_io s))) s)"
    and "streams_ok key opts (onStderr (Group_Remove (attachKey key ''stderr'' (at_io s))) s)"
proof -
  have w: "watched (attachKey key ''stdout'' (at_io s)) (ao_Stdout opts) (at_stdoutGo s) (io_stdout (at_io s), at_calls s)"
    "watched (attachKey key ''stderr'' (at_io s)) (attachedStderr opts) (at_stderrGo s) (io_stderr (at_io s), at_calls s)"
    using assms by (simp_all add: streams_ok_def)
  show "streams_ok key opts (onStdout (Group_Remove (attachKey key ''stdout'' (at_io s))) s)"
    using streams_onStdout [OF assms refl, of _ "at_stdoutGo s"] watched_remove [OF w(1)] by (simp add: streams_ok_def)
  show "streams_ok key opts (onStderr (Group_Remove (attachKey key ''stderr'' (at_io s))) s)"
    using streams_onStderr [OF assms refl, of _ "at_stderrGo s"] watched_remove [OF w(2)] by (simp add: streams_ok_def)
qed

lemma stdinEnds_rest [simp]:
  "at_point (stdinEnds key opts s) = at_point s" "at_stdoutGo (stdinEnds key opts s) = at_stdoutGo s" "at_stderrGo (stdinEnds key opts s) = at_stderrGo s"
  "at_stdinGo (stdinEnds key opts s) = Ended" "at_wg (stdinEnds key opts s) = at_wg s - 1" "at_readerClosed (stdinEnds key opts s) = at_readerClosed s"
  "at_stdinClosed (stdinEnds key opts s) = (closesStdin opts \<or> at_stdinClosed s)"
  "at_closeStdin (stdinEnds key opts s) = (if closesStdin opts then at_closeStdin s + 1 else at_closeStdin s)"
  by (simp_all add: stdinEnds_def Let_def)

lemma attach_inv_stdinEnds:
  assumes "attach_inv key opts s" "at_stdinGo s = Running"
  shows "attach_inv key opts (stdinEnds key opts s)"
proof -
  let ?out = "onStdout (Group_Remove (attachKey key ''stdout'' (at_io s)))" and ?err = "onStderr (Group_Remove (attachKey key ''stderr'' (at_io s)))"
  have s: "streams_ok key opts s" using assms(1) by (simp add: attach_inv_def)
  have k: "attachKey key ''stderr'' (at_io (?out s)) = attachKey key ''stderr'' (at_io s)" by (simp add: attachKey_def)
  have "streams_ok key opts (t\<lparr>at_stdinGo := go, at_wg := n\<rparr>) = streams_ok key opts t"
    "streams_ok key opts (t\<lparr>at_stdinClosed := b, at_closeStdin := m\<rparr>) = streams_ok key opts t" for t go n b m
    by (simp_all add: streams_ok_def)
  then have "streams_ok key opts (stdinEnds key opts s)"
    using s streams_remove [OF s] streams_remove(2) [OF streams_remove(1) [OF s], unfolded k] by (auto simp: stdinEnds_def Let_def)
  moreover have "session_ok opts (stdinEnds key opts s)"
    using assms by (auto simp: attach_inv_def session_ok_def counted_def split: if_splits)
  ultimately show ?thesis by (simp add: attach_inv_def)
qed

lemma attach_inv_attachStdout:
  assumes "attach_inv key opts s" "at_point s = AddStdoutPoint"
  shows "attach_inv key opts (attachStdout key opts s)"
proof (cases "ao_Stdout opts")
  case None
  then show ?thesis using assms by (auto simp: attachStdout_def attach_inv_def session_ok_def streams_ok_def)
next
  case (Some w)
  have "at_stdoutGo s = NotStarted" using assms by (simp add: attach_inv_def session_ok_def)
  then have "watched (attachKey key ''stdout'' (at_io s)) (ao_Stdout opts) NotStarted (io_stdout (at_io s), at_calls s)"
    using assms(1) by (simp add: attach_inv_def streams_ok_def)
  note watched_add [OF this, of w]
  then have "streams_ok key opts ((onStdout (Group_Add (attachKey key ''stdout'' (at_io s)) w) s)\<lparr>at_stdoutGo := Running\<rparr>)"
    using assms(1) Some by (intro streams_onStdout [OF _ refl]) (auto simp: attach_inv_def)
  then have "streams_ok key opts (attachStdout key opts s)" using Some by (simp add: attachStdout_def streams_ok_def)
  moreover have "session_ok opts (attachStdout key opts s)"
    using assms Some by (auto simp: attachStdout_def attach_inv_def session_ok_def counted_def)
  ultimately show ?thesis by (simp add: attach_inv_def)
qed

lemma attach_inv_attachStderr:
  assumes "attach_inv key opts s" "at_point s = AddStderrPoint"
  shows "attach_inv key opts (attachStderr key opts s)"
proof (cases "attachedStderr opts")
  case None
  then show ?thesis using assms by (auto simp: attachStderr_def attach_inv_def session_ok_def streams_ok_def)
next
  case (Some w)
  have "at_stderrGo s = NotStarted" using assms by (simp add: attach_inv_def session_ok_def)
  then have "watched (attachKey key ''stderr'' (at_io s)) (attachedStderr opts) NotStarted (io_stderr (at_io s), at_calls s)"
    using assms(1) by (simp add: attach_inv_def streams_ok_def)
  note watched_add [OF this, of w]
  then have "streams_ok key opts ((onStderr (Group_Add (attachKey key ''stderr'' (at_io s)) w) s)\<lparr>at_stderrGo := Running\<rparr>)"
    using assms(1) Some by (intro streams_onStderr [OF _ refl]) (auto simp: attach_inv_def)
  then have "streams_ok key opts (attachStderr key opts s)" using Some by (simp add: attachStderr_def streams_ok_def)
  moreover have "session_ok opts (attachStderr key opts s)"
    using assms Some by (auto simp: attachStderr_def attach_inv_def session_ok_def counted_def)
  ultimately show ?thesis by (simp add: attach_inv_def)
qed

lemma attach_inv_streamEnds:
  assumes "attach_inv key opts s"
  shows "at_stdoutGo s = Running \<Longrightarrow> informed (ao_Stdout opts) s \<Longrightarrow> attach_inv key opts ((streamEnds s)\<lparr>at_stdoutGo := Ended\<rparr>)"
    and "at_stderrGo s = Running \<Longrightarrow> informed (attachedStderr opts) s \<Longrightarrow> attach_inv key opts ((streamEnds s)\<lparr>at_stderrGo := Ended\<rparr>)"
proof -
  have i: "streams_ok key opts s" "session_ok opts s" using assms by (simp_all add: attach_inv_def)
  show "attach_inv key opts ((streamEnds s)\<lparr>at_stdoutGo := Ended\<rparr>)" if "at_stdoutGo s = Running" "informed (ao_Stdout opts) s"
    unfolding attach_inv_def
  proof
    show "streams_ok key opts ((streamEnds s)\<lparr>at_stdoutGo := Ended\<rparr>)" using i(1) that by (auto simp: streams_ok_def streamEnds_def informed_def watched_def)
    show "session_ok opts ((streamEnds s)\<lparr>at_stdoutGo := Ended\<rparr>)" using i(2) that(1) by (auto simp: session_ok_def streamEnds_def counted_def split: if_splits)
  qed
  show "attach_inv key opts ((streamEnds s)\<lparr>at_stderrGo := Ended\<rparr>)" if "at_stderrGo s = Running" "informed (attachedStderr opts) s"
    unfolding attach_inv_def
  proof
    show "streams_ok key opts ((streamEnds s)\<lparr>at_stderrGo := Ended\<rparr>)" using i(1) that by (auto simp: streams_ok_def streamEnds_def informed_def watched_def)
    show "session_ok opts ((streamEnds s)\<lparr>at_stderrGo := Ended\<rparr>)" using i(2) that(1) by (auto simp: session_ok_def streamEnds_def counted_def split: if_splits)
  qed
qed

lemma attach_inv_returned: "attach_inv key opts s \<Longrightarrow> at_point s = WaitPoint \<Longrightarrow> at_wg s = 0 \<Longrightarrow> attach_inv key opts (s\<lparr>at_point := ReturnedPoint\<rparr>)"
  by (simp add: attach_inv_def session_ok_def streams_ok_def)

lemma attach_inv_run: "attach_run key opts s t \<Longrightarrow> attach_inv key opts s \<Longrightarrow> attach_inv key opts t"
  by (induction rule: attach_run.induct)
    (auto intro: attach_inv_attachStdout attach_inv_attachStderr attach_inv_streamEnds attach_inv_stdinEnds attach_inv_returned)

lemma attach_inv_step: "attach_step key opts s t \<Longrightarrow> attach_inv key opts s \<Longrightarrow> attach_inv key opts t"
proof (induction rule: attach_step.induct)
  case (stdout_group s x)
  have s: "streams_ok key opts s" "session_ok opts s" using stdout_group(2) by (simp_all add: attach_inv_def)
  then have "watched (attachKey key ''stdout'' (at_io s)) (ao_Stdout opts) (at_stdoutGo s) (io_stdout (at_io s), at_calls s)"
    by (simp add: streams_ok_def)
  from group_step_watched [OF stdout_group(1) this] have "streams_ok key opts ((onStdout (\<lambda>_. x) s)\<lparr>at_stdoutGo := at_stdoutGo s\<rparr>)"
    by (intro streams_onStdout [OF s(1)]) simp_all
  then show ?case using s(2) by (simp add: attach_inv_def streams_ok_def)
next
  case (stderr_group s x)
  have s: "streams_ok key opts s" "session_ok opts s" using stderr_group(2) by (simp_all add: attach_inv_def)
  then have "watched (attachKey key ''stderr'' (at_io s)) (attachedStderr opts) (at_stderrGo s) (io_stderr (at_io s), at_calls s)"
    by (simp add: streams_ok_def)
  from group_step_watched [OF stderr_group(1) this] have "streams_ok key opts ((onStderr (\<lambda>_. x) s)\<lparr>at_stderrGo := at_stderrGo s\<rparr>)"
    by (intro streams_onStderr [OF s(1)]) simp_all
  then show ?case using s(2) by (simp add: attach_inv_def streams_ok_def)
qed (auto intro: attach_inv_run attach_inv_stdinEnds)

interpretation attach: inv_system "\<lambda>s. \<exists>hasStdin io tr. groups_ok io \<and> s = attachBegin hasStdin opts io tr" "attach_step key opts" "attach_inv key opts" for key opts
  by unfold_locales (auto intro: attach_inv_begin attach_inv_step)

subsection \<open>How a session ends\<close>

text \<open>\<^verbatim>\<open>Attach\<close> returns only when every stream of the client is closed, and the input of the container was closed when it had to be, once.\<close>

lemma attach_returned:
  assumes "groups_ok io" "(attach_step key opts)\<^sup>*\<^sup>* (attachBegin hasStdin opts io tr) s" "at_point s = ReturnedPoint"
  shows "ao_Stdout opts = Some w \<Longrightarrow> WClose w \<in> set (at_calls s)" "attachedStderr opts = Some w \<Longrightarrow> WClose w \<in> set (at_calls s)"
    "at_stdinGo s \<noteq> Running" "at_closeStdin s = (if at_stdinGo s = Ended \<and> closesStdin opts then 1 else 0)"
proof -
  have i: "streams_ok key opts s" "session_ok opts s"
    using attach.inv_reachable [OF _ assms(2)] assms(1) by (auto simp: attach_inv_def)
  from i(2) assms(3) have "counted (at_stdinGo s) = 0" "counted (at_stdoutGo s) = 0" "counted (at_stderrGo s) = 0"
      "at_stdoutGo s = NotStarted \<longleftrightarrow> ao_Stdout opts = None" "at_stderrGo s = NotStarted \<longleftrightarrow> attachedStderr opts = None"
    by (auto simp: session_ok_def)
  then show "ao_Stdout opts = Some w \<Longrightarrow> WClose w \<in> set (at_calls s)" "attachedStderr opts = Some w \<Longrightarrow> WClose w \<in> set (at_calls s)"
      "at_stdinGo s \<noteq> Running"
    using i(1) by (auto simp: streams_ok_def watched_def counted_def split: if_splits)
  show "at_closeStdin s = (if at_stdinGo s = Ended \<and> closesStdin opts then 1 else 0)" using i(2) by (simp add: session_ok_def)
qed

definition outputEnded :: "'w attachment \<Rightarrow> bool" where
  "outputEnded s \<longleftrightarrow> wg_closed (io_stdout (at_io s)) \<and> wg_closed (io_stderr (at_io s))"

lemma attach_run_progress:
  assumes "attach_inv key opts s" "outputEnded s" "at_point s \<noteq> ReturnedPoint"
    and "ao_Stdout opts \<noteq> None \<or> attachedStderr opts \<noteq> None \<or> at_stdinGo s \<noteq> Running"
  shows "\<exists>t. attach_run key opts s t"
proof (cases "at_point s = WaitPoint \<and> at_wg s \<noteq> 0")
  case True
  have i: "streams_ok key opts s" "session_ok opts s" using assms(1) by (simp_all add: attach_inv_def)
  have "at_stdoutGo s = Running \<Longrightarrow> informed (ao_Stdout opts) s" "at_stderrGo s = Running \<Longrightarrow> informed (attachedStderr opts) s"
    using i(1) assms(2) by (auto simp: streams_ok_def watched_def outputEnded_def informed_def)
  moreover have "at_stdinGo s = Running \<and> at_readerClosed s" if "at_stdoutGo s \<noteq> Running" "at_stderrGo s \<noteq> Running"
    using i(2) that True assms(4) by (cases "at_stdoutGo s"; cases "at_stderrGo s"; cases "at_stdinGo s") (auto simp: session_ok_def counted_def)
  ultimately show ?thesis using attach_run.intros(3-5) [of s] by blast
next
  case False
  then show ?thesis using assms(3) attach_run.intros(1,2,6) [of s] by (cases "at_point s") blast+
qed

fun pointLoad :: "attachPoint \<Rightarrow> nat" where
  "pointLoad AddStdoutPoint = 6"
| "pointLoad AddStderrPoint = 4"
| "pointLoad WaitPoint = 2"
| "pointLoad ReturnedPoint = 0"

definition attachLoad :: "'w attachment \<Rightarrow> nat" where
  "attachLoad s = pointLoad (at_point s) + at_wg s"

lemma attach_run_keeps:
  assumes "attach_run key opts s t" "attach_inv key opts s"
  shows "attachLoad t < attachLoad s" "outputEnded s \<Longrightarrow> outputEnded t" "at_stdinGo s \<noteq> Running \<Longrightarrow> at_stdinGo t \<noteq> Running"
proof -
  have w: "at_stdinGo s = Running \<or> at_stdoutGo s = Running \<or> at_stderrGo s = Running \<Longrightarrow> 0 < at_wg s"
    using assms(2) by (auto simp: attach_inv_def session_ok_def counted_def)
  have "wg_closed (fst (Group_Add k x y)) = wg_closed (fst y)" "wg_closed (fst (Group_Remove k y)) = wg_closed (fst y)" for k x and y :: "'a writerGroup \<times> 'a wcall list"
    by (auto simp: Group_Add_def Group_Remove_def case_prod_beta split: option.splits)
  with w show "attachLoad t < attachLoad s" "outputEnded s \<Longrightarrow> outputEnded t" "at_stdinGo s \<noteq> Running \<Longrightarrow> at_stdinGo t \<noteq> Running"
    using assms(1)
    by (auto elim!: attach_run.cases
        simp: attachLoad_def outputEnded_def attachStdout_def attachStderr_def streamEnds_def stdinEnds_def Let_def split: option.splits)
qed

text \<open>
  Once the container's output has ended the session ends too, whatever the client does: every run of the goroutines is shorter than
  \<open>attachLoad\<close>, and only the return of \<^verbatim>\<open>Attach\<close> stops it. The exception is a client that gave its input and no
  output, which is not told.
\<close>

lemma attach_ends:
  assumes "attach_inv key opts s" "outputEnded s"
    and "ao_Stdout opts \<noteq> None \<or> attachedStderr opts \<noteq> None \<or> at_stdinGo s \<noteq> Running"
  shows "\<exists>t. (attach_run key opts)\<^sup>*\<^sup>* s t \<and> at_point t = ReturnedPoint"
  using assms
proof (induction "attachLoad s" arbitrary: s rule: less_induct)
  case less
  show ?case
  proof (cases "at_point s = ReturnedPoint")
    case False
    then obtain t where t: "attach_run key opts s t" using attach_run_progress less.prems by blast
    have "attach_inv key opts t" by (rule attach_inv_run [OF t less.prems(1)])
    from less.hyps [OF _ this] show ?thesis
      using attach_run_keeps [OF t less.prems(1)] less.prems t by (meson converse_rtranclp_into_rtranclp)
  qed blast
qed

text \<open>A client that ends its input after its streams were added is detached from them, unless the input is closed instead.\<close>

lemma stdinEnds_detaches:
  assumes "attach_inv key opts s" "at_stdoutGo s = Running" "\<not> closesStdin opts"
  shows "informed (ao_Stdout opts) (stdinEnds key opts s)"
proof -
  obtain w where w: "ao_Stdout opts = Some w" "WClose w \<in> set (at_calls s) \<or> wg_writers (io_stdout (at_io s)) (attachKey key ''stdout'' (at_io s)) = Some w"
    using assms(1,2) by (auto simp: attach_inv_def streams_ok_def watched_def)
  have "set (snd x) \<subseteq> set (snd (Group_Remove k x))" "wg_writers (fst x) k = Some w \<Longrightarrow> WClose w \<in> set (snd (Group_Remove k x))"
    for k and x :: "'a writerGroup \<times> 'a wcall list"
    by (auto simp: Group_Remove_def case_prod_beta split: option.splits)
  note g = this
  show ?thesis
    unfolding informed_def
  proof (intro exI conjI)
    let ?o = "Group_Remove (attachKey key ''stdout'' (at_io s)) (io_stdout (at_io s), at_calls s)"
    have "WClose w \<in> set (snd ?o)" using w(2) g [where x = "(io_stdout (at_io s), at_calls s)" and k = "attachKey key ''stdout'' (at_io s)"] by auto
    moreover have "set (snd ?o) \<subseteq> set (at_calls (stdinEnds key opts s))"
      using w(1) assms(3) g(1) [of "(io_stderr (at_io s), snd ?o)"] by (simp add: stdinEnds_def Let_def)
    ultimately show "WClose w \<in> set (at_calls (stdinEnds key opts s))" by blast
  qed (rule w(1))
qed

text \<open>
  The goroutine of the input starts before the outputs are added. When it ends in between, it finds nothing to remove: the session then stays
  attached, with no goroutine that could end it, until the container's output ends.
\<close>

lemma early_end_stays_attached:
  assumes "opts = \<lparr>ao_Stdin = True, ao_Stdout = Some w, ao_Stderr = None, ao_Tty = True, ao_StdinOnce = False\<rparr>" "WClose w \<notin> set tr"
  shows "\<exists>s. (attach_step key opts)\<^sup>*\<^sup>* (attachBegin True opts (NewContainerIO i) tr) s \<and> at_stdinGo s = Ended \<and>
    wg_writers (io_stdout (at_io s)) (attachKey key ''stdout'' (at_io s)) = Some w \<and> (\<forall>t. \<not> attach_run key opts s t)"
proof (intro exI conjI allI notI)
  let ?b = "attachBegin True opts (NewContainerIO i) tr"
  let ?e = "stdinEnds key opts ?b"
  let ?s = "attachStderr key opts (attachStdout key opts ?e)"
  have e: "at_io ?e = NewContainerIO i" "at_calls ?e = tr" "at_point ?e = AddStdoutPoint" "at_stdinGo ?e = Ended" "at_stdoutGo ?e = NotStarted"
      "at_stderrGo ?e = NotStarted" "at_wg ?e = 0"
    using assms(1) by (simp_all add: stdinEnds_def closesStdin_def attachBegin_def onStdout_def Group_Remove_def NewContainerIO_def NewWriterGroup_def Let_def)
  have o: "ao_Stdout opts = Some w" "attachedStderr opts = None" using assms(1) by (simp_all add: attachedStderr_def)
  have n: "io_stdout (NewContainerIO i) = NewWriterGroup" "\<not> wg_closed NewWriterGroup" by (simp_all add: NewContainerIO_def NewWriterGroup_def)
  note s = attachStdout_def attachStderr_def o e n Group_Add_def
  have "attach_step key opts ?b ?e" by (rule attach_step.client_ends) (simp add: attachBegin_def assms(1) Let_def)
  moreover have "attach_step key opts ?e (attachStdout key opts ?e)" by (intro session add_stdout e)
  moreover have "attach_step key opts (attachStdout key opts ?e) ?s" by (intro session add_stderr) (simp add: s)
  ultimately show "(attach_step key opts)\<^sup>*\<^sup>* ?b ?s" by (meson converse_rtranclp_into_rtranclp rtranclp.rtrancl_refl)
  show "at_stdinGo ?s = Ended" "wg_writers (io_stdout (at_io ?s)) (attachKey key ''stdout'' (at_io ?s)) = Some w" by (simp_all add: s attachKey_def)
  show False if "attach_run key opts ?s t" for t
    using that assms(2) by (cases rule: attach_run.cases) (auto simp: s informed_def)
qed

subsection \<open>Attaching to an exec process\<close>

text \<open>
  \<^verbatim>\<open>ExecIO.Attach\<close> copies each output of the process to the client itself. A copy ends when the process closes its end of the
  pipe (\<open>xa_outEnded\<close>, \<open>xa_errEnded\<close>), when the pipe is closed here, or when the client cannot be written to, at any moment. The flags \<open>xa_outClosed\<close> and
  \<open>xa_errClosed\<close> are the pipes, \<open>xa_streams\<close> the client's streams that were closed. The goroutine that closes the channel
  \<^verbatim>\<open>done\<close> waits for \<open>xa_wg\<close>; the closer of the pipes waits for \<open>xa_closerWg\<close>.
\<close>

record 'w execAttachment =
  xa_stdinGo :: goroutine
  xa_stdoutGo :: goroutine
  xa_stderrGo :: goroutine
  xa_wg :: nat
  xa_closerWg :: nat
  xa_readerClosed :: bool
  xa_closeStdin :: nat
  xa_outClosed :: bool
  xa_errClosed :: bool
  xa_outEnded :: bool
  xa_errEnded :: bool
  xa_streams :: "'w list"
  xa_done :: bool

definition goroutineFor :: "bool \<Rightarrow> goroutine" where
  "goroutineFor b = (if b then Running else NotStarted)"

definition Exec_Attach :: "stdioPipes \<Rightarrow> 'w attachOptions \<Rightarrow> 'w execAttachment" where
  "Exec_Attach pipes opts =
     (let inp = sp_stdin pipes \<noteq> None \<and> ao_Stdin opts; out = ao_Stdout opts \<noteq> None; err = attachedStderr opts \<noteq> None in
      \<lparr>xa_stdinGo = goroutineFor inp, xa_stdoutGo = goroutineFor out, xa_stderrGo = goroutineFor err, xa_wg = of_bool inp + of_bool out + of_bool err,
       xa_closerWg = of_bool out + of_bool err, xa_readerClosed = False, xa_closeStdin = 0, xa_outClosed = False, xa_errClosed = False,
       xa_outEnded = False, xa_errEnded = False, xa_streams = [], xa_done = False\<rparr>)"

definition execStdinEnds :: "stdioPipes \<Rightarrow> 'w attachOptions \<Rightarrow> 'w execAttachment \<Rightarrow> 'w execAttachment" where
  "execStdinEnds pipes opts s =
     (let t = (if closesStdin opts then s\<lparr>xa_closeStdin := xa_closeStdin s + 1\<rparr>
               else s\<lparr>xa_outClosed := xa_outClosed s \<or> sp_stdout pipes \<noteq> None, xa_errClosed := xa_errClosed s \<or> sp_stderr pipes \<noteq> None\<rparr>)
      in t\<lparr>xa_stdinGo := Ended, xa_wg := xa_wg s - 1\<rparr>)"

text \<open>\<^verbatim>\<open>attachOutput\<close> after its copy, for the client's stream \<open>w\<close>.\<close>

definition attachOutput :: "'w option \<Rightarrow> 'w execAttachment \<Rightarrow> 'w execAttachment" where
  "attachOutput w s = s\<lparr>xa_streams := (case w of None \<Rightarrow> [] | Some x \<Rightarrow> [x]) @ xa_streams s,
     xa_readerClosed := xa_readerClosed s \<or> xa_stdinGo s \<noteq> NotStarted, xa_closerWg := xa_closerWg s - 1, xa_wg := xa_wg s - 1\<rparr>"

inductive exec_run :: "stdioPipes \<Rightarrow> 'w attachOptions \<Rightarrow> 'w execAttachment \<Rightarrow> 'w execAttachment \<Rightarrow> bool" for pipes opts where
  out_ends: "xa_stdoutGo s = Running \<Longrightarrow> xa_outEnded s \<or> xa_outClosed s \<Longrightarrow>
    exec_run pipes opts s ((attachOutput (ao_Stdout opts) s)\<lparr>xa_stdoutGo := Ended, xa_outClosed := True\<rparr>)"
| err_ends: "xa_stderrGo s = Running \<Longrightarrow> xa_errEnded s \<or> xa_errClosed s \<Longrightarrow>
    exec_run pipes opts s ((attachOutput (attachedStderr opts) s)\<lparr>xa_stderrGo := Ended, xa_errClosed := True\<rparr>)"
| input_ends: "xa_stdinGo s = Running \<Longrightarrow> xa_readerClosed s \<Longrightarrow> exec_run pipes opts s (execStdinEnds pipes opts s)"
| all_done: "xa_wg s = 0 \<Longrightarrow> \<not> xa_done s \<Longrightarrow> exec_run pipes opts s (s\<lparr>xa_done := True\<rparr>)"

inductive exec_step :: "stdioPipes \<Rightarrow> 'w attachOptions \<Rightarrow> 'w execAttachment \<Rightarrow> 'w execAttachment \<Rightarrow> bool" for pipes opts where
  "exec_run pipes opts s t \<Longrightarrow> exec_step pipes opts s t"
| "xa_stdinGo s = Running \<Longrightarrow> exec_step pipes opts s (execStdinEnds pipes opts s)"
| "exec_step pipes opts s (s\<lparr>xa_outEnded := True\<rparr>)"
| "exec_step pipes opts s (s\<lparr>xa_errEnded := True\<rparr>)"
| "xa_stdoutGo s = Running \<Longrightarrow> exec_step pipes opts s ((attachOutput (ao_Stdout opts) s)\<lparr>xa_stdoutGo := Ended, xa_outClosed := True\<rparr>)"
| "xa_stderrGo s = Running \<Longrightarrow> exec_step pipes opts s ((attachOutput (attachedStderr opts) s)\<lparr>xa_stderrGo := Ended, xa_errClosed := True\<rparr>)"

definition exec_counts :: "'w execAttachment \<Rightarrow> bool" where
  "exec_counts s \<longleftrightarrow> xa_wg s = counted (xa_stdinGo s) + xa_closerWg s \<and>
     xa_closerWg s = counted (xa_stdoutGo s) + counted (xa_stderrGo s) \<and> (xa_done s \<longrightarrow> xa_wg s = 0)"

definition exec_flags :: "stdioPipes \<Rightarrow> 'w attachOptions \<Rightarrow> 'w execAttachment \<Rightarrow> bool" where
  "exec_flags pipes opts s \<longleftrightarrow>
     (xa_stdoutGo s = NotStarted \<longleftrightarrow> ao_Stdout opts = None) \<and> (xa_stderrGo s = NotStarted \<longleftrightarrow> attachedStderr opts = None) \<and>
     (xa_stdoutGo s = Ended \<or> xa_stderrGo s = Ended \<longrightarrow> xa_stdinGo s \<noteq> NotStarted \<longrightarrow> xa_readerClosed s) \<and>
     (xa_stdoutGo s = Ended \<longrightarrow> set_option (ao_Stdout opts) \<subseteq> set (xa_streams s)) \<and>
     (xa_stderrGo s = Ended \<longrightarrow> set_option (attachedStderr opts) \<subseteq> set (xa_streams s)) \<and>
     (xa_stdinGo s = Ended \<and> \<not> closesStdin opts \<longrightarrow> (sp_stdout pipes \<noteq> None \<longrightarrow> xa_outClosed s) \<and> (sp_stderr pipes \<noteq> None \<longrightarrow> xa_errClosed s)) \<and>
     xa_closeStdin s = (if xa_stdinGo s = Ended \<and> closesStdin opts then 1 else 0)"

definition exec_inv :: "stdioPipes \<Rightarrow> 'w attachOptions \<Rightarrow> 'w execAttachment \<Rightarrow> bool" where
  "exec_inv pipes opts s \<longleftrightarrow> exec_counts s \<and> exec_flags pipes opts s"

lemma exec_inv_init: "exec_inv pipes opts (Exec_Attach pipes opts)"
  by (auto simp: exec_inv_def exec_counts_def exec_flags_def Exec_Attach_def goroutineFor_def counted_def Let_def)

lemma exec_counts_ends:
  assumes "exec_counts s"
  shows "xa_stdoutGo s = Running \<Longrightarrow> exec_counts ((attachOutput w s)\<lparr>xa_stdoutGo := Ended, xa_outClosed := True\<rparr>)"
    "xa_stderrGo s = Running \<Longrightarrow> exec_counts ((attachOutput w s)\<lparr>xa_stderrGo := Ended, xa_errClosed := True\<rparr>)"
    "xa_stdinGo s = Running \<Longrightarrow> exec_counts (execStdinEnds pipes opts s)"
  using assms by (auto simp: exec_counts_def attachOutput_def execStdinEnds_def counted_def Let_def)

lemma exec_flags_ends:
  assumes "exec_flags pipes opts s"
  shows "xa_stdoutGo s = Running \<Longrightarrow> exec_flags pipes opts ((attachOutput (ao_Stdout opts) s)\<lparr>xa_stdoutGo := Ended, xa_outClosed := True\<rparr>)"
    "xa_stderrGo s = Running \<Longrightarrow> exec_flags pipes opts ((attachOutput (attachedStderr opts) s)\<lparr>xa_stderrGo := Ended, xa_errClosed := True\<rparr>)"
    "xa_stdinGo s = Running \<Longrightarrow> exec_flags pipes opts (execStdinEnds pipes opts s)"
  using assms by (auto simp: exec_flags_def attachOutput_def execStdinEnds_def Let_def split: option.split)

lemmas exec_inv_ends = exec_counts_ends exec_flags_ends

lemma exec_inv_set:
  "exec_inv pipes opts (s\<lparr>xa_outEnded := b\<rparr>) = exec_inv pipes opts s" "exec_inv pipes opts (s\<lparr>xa_errEnded := b\<rparr>) = exec_inv pipes opts s"
  "xa_wg s = 0 \<Longrightarrow> exec_inv pipes opts s \<Longrightarrow> exec_inv pipes opts (s\<lparr>xa_done := True\<rparr>)"
  by (simp_all add: exec_inv_def exec_counts_def exec_flags_def)

lemma exec_inv_run: "exec_run pipes opts s t \<Longrightarrow> exec_inv pipes opts s \<Longrightarrow> exec_inv pipes opts t"
  by (induction rule: exec_run.induct) (use exec_inv_set(3) in \<open>simp_all add: exec_inv_def exec_inv_ends\<close>)

lemma exec_inv_step: "exec_step pipes opts s t \<Longrightarrow> exec_inv pipes opts s \<Longrightarrow> exec_inv pipes opts t"
  by (induction rule: exec_step.induct) (auto simp: exec_inv_set intro: exec_inv_run, auto simp: exec_inv_def exec_inv_ends)

interpretation exec_attach: inv_system "\<lambda>s. s = Exec_Attach pipes opts" "exec_step pipes opts" "exec_inv pipes opts" for pipes opts
  by unfold_locales (auto intro: exec_inv_init exec_inv_step)

text \<open>The channel is closed only when every stream of the client is; from then on the closer of the pipes waits for nothing.\<close>

lemma exec_attach_done:
  assumes "(exec_step pipes opts)\<^sup>*\<^sup>* (Exec_Attach pipes opts) s" "xa_done s"
  shows "set_option (ao_Stdout opts) \<union> set_option (attachedStderr opts) \<subseteq> set (xa_streams s)" "xa_closerWg s = 0" "xa_stdinGo s \<noteq> Running"
    "xa_closeStdin s = (if xa_stdinGo s = Ended \<and> closesStdin opts then 1 else 0)"
proof -
  have i: "exec_inv pipes opts s" using exec_attach.inv_reachable [OF refl assms(1)] .
  then have "counted (xa_stdinGo s) = 0" "counted (xa_stdoutGo s) = 0" "counted (xa_stderrGo s) = 0" using assms(2) by (auto simp: exec_inv_def exec_counts_def exec_flags_def)
  with i show "set_option (ao_Stdout opts) \<union> set_option (attachedStderr opts) \<subseteq> set (xa_streams s)" "xa_closerWg s = 0" "xa_stdinGo s \<noteq> Running"
    "xa_closeStdin s = (if xa_stdinGo s = Ended \<and> closesStdin opts then 1 else 0)"
    by (cases "xa_stdoutGo s"; cases "xa_stderrGo s"; simp add: exec_inv_def exec_counts_def exec_flags_def counted_def split: if_splits)+
qed

text \<open>
  A session ends by itself once the process has ended its output, and also once the client has ended its input, unless the input of the process is
  closed instead. The pipes stay closed, so here it does not matter when the input ends.
\<close>

lemma exec_run_progress:
  assumes "exec_inv pipes opts s" "\<not> xa_done s" "ao_Stdout opts \<noteq> None \<or> attachedStderr opts \<noteq> None \<or> xa_stdinGo s \<noteq> Running"
    and "xa_outEnded s \<and> xa_errEnded s \<or>
      xa_stdinGo s = Ended \<and> \<not> closesStdin opts \<and> (ao_Stdout opts \<noteq> None \<longrightarrow> sp_stdout pipes \<noteq> None) \<and> (attachedStderr opts \<noteq> None \<longrightarrow> sp_stderr pipes \<noteq> None)"
  shows "\<exists>t. exec_run pipes opts s t"
proof (cases "xa_wg s = 0")
  case False
  have "xa_stdoutGo s = Running \<Longrightarrow> xa_outEnded s \<or> xa_outClosed s" "xa_stderrGo s = Running \<Longrightarrow> xa_errEnded s \<or> xa_errClosed s"
    using assms(1,4) by (auto simp: exec_inv_def exec_counts_def exec_flags_def)
  moreover have "xa_stdinGo s = Running \<and> xa_readerClosed s" if "xa_stdoutGo s \<noteq> Running" "xa_stderrGo s \<noteq> Running"
    using assms(1,3) that False by (cases "xa_stdoutGo s"; cases "xa_stderrGo s"; cases "xa_stdinGo s") (auto simp: exec_inv_def exec_counts_def exec_flags_def counted_def)
  ultimately show ?thesis using exec_run.intros(1-3) [of s] by blast
qed (use assms(2) all_done in blast)

end
