(* ===== verification/Spec2Isabelle.thy ===== *)
theory Spec2Isabelle
  imports Lifecycle ImageHandlers EventMonitor PodTeardown SpecSecurity UpdateResources ContainerCreate RecoveryState Logger RemoveAll
    RequestCache Queries ExecSync Config StreamServer WriterGroup Stats PortForwardSockets CniConfig ServiceInvariant StreamAttach
begin

text \<open>
  \<^bold>\<open>A model of the containerd CRI plugin\<close>

  The plugin lets the kubelet run pods on containerd. A request of the kubelet (run, stop and remove a pod; create, start, stop, remove, update, query
  a container; pull and remove an image; exec, attach and port forwarding) is a method of \<^verbatim>\<open>criService\<close> under \<^verbatim>\<open>src/pkg/server\<close>. The
  methods share in-memory stores, which containerd and checkpoint files on disk can rebuild after a restart, and a monitor applies the events of
  containerd to them. The development models that program, Linux build, from the stores up to the requests and proves what each part promises.

  \<^bold>\<open>How code becomes definitions\<close>

  A Go function is a definition of the same name; a method whose name another type has too carries the type's name (\<open>Store_Add\<close>,
  \<open>Sandbox_Add\<close>, \<open>Image_Get\<close>, \<open>Group_Write\<close>). A Go error is a \<open>goerror\<close>, a fallible result \<open>'a result\<close>, a request a
  \<open>(svc, 'a) act\<close>: a function of the service state to a result and the new state (theory Prelude). Deferred functions are the combinators
  \<open>onError\<close> and \<open>alwaysA\<close> around the rest of the function. Objects that several goroutines share through pointers are cells of a heap in the
  state. Calls to containerd, the kernel, CNI and the file system are entries of a trace, newest first, and what they answer is a record of
  functions of the trace (\<open>world\<close>, \<open>osEnv\<close>, \<open>execEnv\<close>, \<open>removeEnv\<close>, \<open>forwardEnv\<close>), so a theorem about a request holds for
  every behaviour of these systems, failures included. The order in which a map is ranged over is an argument. Machine integers are words where the
  width matters; products of durations are \<open>mul64\<close>, which wraps.

  \<^bold>\<open>Theories\<close>

  \<^item> Foundations. \<^verbatim>\<open>Prelude\<close>: errors, actions, enumerations of maps, the locale \<open>inv_system\<close> of a transition system with an invariant.
    \<^verbatim>\<open>GoStrings\<close>, \<^verbatim>\<open>Paths\<close>, \<^verbatim>\<open>GoJson\<close>: what the code uses of Go's string, path, number and JSON packages, and \<^verbatim>\<open>pkg/util/strings.go\<close>.
    \<^verbatim>\<open>CriApi\<close>, \<^verbatim>\<open>OciSpec\<close>: the messages of the CRI and the OCI runtime spec. \<^verbatim>\<open>Frames\<close>: the locale \<open>state_rel\<close>, which derives the rules
    for actions that keep a relation between start and end state, and the notion of a clean failure (what was acquired is given back).
  \<^item> Stores. \<^verbatim>\<open>Registrar\<close> (\<^verbatim>\<open>pkg/registrar\<close>, locale \<open>name_index\<close>), \<^verbatim>\<open>LabelStore\<close> (\<^verbatim>\<open>pkg/store/label\<close>), \<^verbatim>\<open>TruncIndex\<close> (the
    vendored index of abbreviated ids, locale \<open>id_index\<close>), \<^verbatim>\<open>ContainerStatus\<close> (status, state and checkpoint, locale \<open>status_storage\<close>),
    \<^verbatim>\<open>ObjectStore\<close> (the contract \<open>object_store\<close> of the two stores), \<^verbatim>\<open>ContainerStore\<close>, \<^verbatim>\<open>SandboxStore\<close>, \<^verbatim>\<open>DigestSet\<close> (vendored)
    and \<^verbatim>\<open>ImageStore\<close>. Each locale is interpreted on the definitions of the store that provides it, and the properties rest on these
    interpretations. C2, C5, C7, C8, C9, C11.
  \<^item> Service and containers. \<^verbatim>\<open>Service\<close>: the state \<open>svc\<close> and the environment \<open>world\<close>. \<^verbatim>\<open>ContainerHandlers\<close> and \<^verbatim>\<open>StopRemove\<close>:
    start, stop, removal and exit of a container (C13, C15 to C18). \<^verbatim>\<open>Lifecycle\<close>: any interleaving of requests and events on one container, with its state machine (C19).
    \<^verbatim>\<open>ContainerCreate\<close>: creation with its roll-back (C37). \<^verbatim>\<open>UpdateResources\<close> (C36). \<^verbatim>\<open>OciOpts\<close>, \<^verbatim>\<open>SpecGen\<close>, \<^verbatim>\<open>SpecSecurity\<close>: the
    options of \<^verbatim>\<open>pkg/containerd/opts\<close> and the spec of a container; mounts (C34) and isolation (C35), the latter by a homomorphism from options to an
    abstract view of the security-relevant parts of the spec.
  \<^item> Pods. \<^verbatim>\<open>PodNetwork\<close>, \<^verbatim>\<open>SandboxHandlers\<close>, \<^verbatim>\<open>PodLifecycle\<close>, \<^verbatim>\<open>PodTeardown\<close>: \<^verbatim>\<open>sandbox_run.go\<close>, \<^verbatim>\<open>sandbox_stop.go\<close>, \<^verbatim>\<open>sandbox_remove.go\<close> (C27,
    C29, C31 to C33): the runtime of a pod, roll-back of a failed run and readiness after a successful one, existence of a successful run, and the
    order of a teardown. What CNI is asked for is the lemma \<open>cniNamespaceOpts_correct\<close>. \<^verbatim>\<open>Netns\<close> (\<^verbatim>\<open>pkg/netns\<close>): creation and removal of network
    namespaces on a host with files, links and mounts; a failed creation leaves nothing behind and removal is idempotent.
  \<^item> Images. \<^verbatim>\<open>ImageHandlers\<close>, \<^verbatim>\<open>Registry\<close>: the image requests, the registries and credentials of a pull, the annotations of layers (C21, C22, and the
    lemma \<open>appendInfo_correct\<close>).
  \<^item> Configuration. \<^verbatim>\<open>Config\<close>: validation, migration of deprecated sections, runtime options (C26).
  \<^item> Events and restart. \<^verbatim>\<open>EventMonitor\<close>: no event is lost or reordered (C24). \<^verbatim>\<open>Recovery\<close>, \<^verbatim>\<open>RecoveryState\<close>: the stores rebuilt by \<^verbatim>\<open>restart.go\<close> (C12, C39).
  \<^item> Streams. \<^verbatim>\<open>Logger\<close> (the log of a container, C4), \<^verbatim>\<open>WriterGroup\<close> (the writers of its output, C38), \<^verbatim>\<open>ExecSync\<close> (C6), \<^verbatim>\<open>RequestCache\<close> (C3) and
    \<^verbatim>\<open>StreamServer\<close> (sessions from the request to the HTTP client, C25). \<^verbatim>\<open>HttpStream\<close>: headers, numbers and the protocol handshake.
    \<^verbatim>\<open>PortForwardStreams\<close> (\<^verbatim>\<open>portforward/httpstream.go\<close>): the loop, the monitors and the forwarders of a connection as a transition system with its
    invariant (C28). \<^verbatim>\<open>PortForwardSockets\<close>: the same over a WebSocket, in lemmas. \<^verbatim>\<open>RemoteCommand\<close> (\<^verbatim>\<open>pkg/streaming/remotecommand\<close>): the four
    protocol versions, the WebSocket channels and the status that an exec or attach reports (C30). \<^verbatim>\<open>StreamAttach\<close> (\<^verbatim>\<open>pkg/server/io\<close>): opening the
    FIFOs, and the goroutines that attach a client to a container or an exec process as transition systems; in lemmas, a session returns only when
    the client's streams are closed, and it ends when the container's output does.
  \<^item> The server. \<^verbatim>\<open>CniConfig\<close>: the syncer of the CNI configuration (C23), \<^verbatim>\<open>UpdateRuntimeConfig\<close>, \<^verbatim>\<open>Status\<close> and \<^verbatim>\<open>Version\<close>. \<^verbatim>\<open>ServiceRun\<close>:
    \<^verbatim>\<open>instrumented_service.go\<close> with a definition for every request, \<^verbatim>\<open>NewCRIService\<close>, and \<^verbatim>\<open>Run\<close> as the steps of a transition system beside
    the requests that arrive (C20). \<^verbatim>\<open>ServiceInvariant\<close>: the state-changing requests and the events as steps of one transition system, and the invariant of
    stores and name indexes that each keeps (C1, below). The locale \<open>quiet_rel\<close> (\<^verbatim>\<open>PodTeardown\<close>) gives the frame rules for the handlers that
    stop something, for every relation that holds between states with the same stores.
  \<^item> Queries. \<^verbatim>\<open>Queries\<close> (status and list requests, C40), \<^verbatim>\<open>Stats\<close> (the snapshot cache and statistics, C14).
  \<^item> Files. \<^verbatim>\<open>RemoveAll\<close>: removal of directories with mounts in them (C10).

  \<^bold>\<open>Loops and bounds\<close>

  Loops over lists and maps are structural recursions. \<^verbatim>\<open>redirectLogs\<close> and the matcher of \<^verbatim>\<open>path.Match\<close> are functions with a termination proof.
  \<^verbatim>\<open>ensureRemoveAll\<close> has no bound of its own and is a \<open>partial_function (option)\<close>; C10 proves that it returns, with the number of attempts, when finitely
  many paths below the directory are ever reported. The retries for a token (\<^verbatim>\<open>uniqueToken\<close>) are the ten of the code. No definition uses fuel.

  \<^bold>\<open>Simplifications\<close>

  An operation under a lock is one atomic step. In C1 a request is one step, and while it waits for a task the others add and remove nothing. The text of JSON is not modelled, its documents are. The trie of the id index is the list of its keys. In
  the requests \<^verbatim>\<open>ensureRemoveAll\<close> is one call, whose inside is \<^verbatim>\<open>RemoveAll\<close>, and the spec of a pod sandbox is one call that yields the process label, whereas a
  container's spec is generated by the modelled options. \<^verbatim>\<open>url.Parse\<close>, \<^verbatim>\<open>time.ParseDuration\<close>, the TOML decoder, the grammar of image references and sorting
  are arguments, with hypotheses only where a property needs them. Log messages, metrics and contexts are left out, except where a context ends a wait.

  \<^bold>\<open>Not modelled\<close>

  Windows code; the command line, the integration tests and the plugin registration (\<^verbatim>\<open>cri.go\<close>); the generated API; the platform set-up in
  \<^verbatim>\<open>service_unix.go\<close> and the gRPC registration; the HTTP router and the libraries below the streams; the bytes that goroutines move between FIFOs and
  clients; the traffic shaper of \<^verbatim>\<open>pkg/server/bandwidth/linux.go\<close>, which the server never uses; and the wrappers around system calls in
  \<^verbatim>\<open>pkg/os\<close>, except \<^verbatim>\<open>Unmount\<close>, which appear as calls of the environment.

  \<^bold>\<open>Findings\<close>

  Lemmas that state where the code does not do what it or its documentation says: \<open>short_limit_panics\<close> (Logger), \<open>privileged_label_kept\<close> (ContainerCreate),
  \<open>returns_not_exist\<close> (RemoveAll), \<open>Store_Add_leak\<close> (ContainerStore), \<open>case_insensitive_delete\<close> (ImageStore), \<open>zero_time_unnoticed\<close> (Queries),
  \<open>default_endpoint_twice\<close> (Registry), \<open>stats_unfiltered\<close> (Stats), \<open>repeated_stream_panics\<close> (RemoteCommand),
  \<open>other_port_announced\<close> (PortForwardSockets); \<open>UpdateRuntimeConfig_correct\<close> (CniConfig); and in C6, C17 and C23.
\<close>

section \<open>The service as a whole\<close>


text \<open>A node without pods on which one is run.\<close>

definition node_svc :: svc where
  "node_svc = pod_svc\<lparr>sandboxStore := Sandbox_NewStore, containerStore := NewStore, sandboxNameIndex := NewRegistrar, containerNameIndex := NewRegistrar\<rparr>"

definition node_world :: world where
  "node_world = pod_world\<lparr>w_genID := (\<lambda>_. replicate 64 (CHR ''a''))\<rparr>"

lemma node_inv: "svc_inv node_svc" "freshID (w_genID node_world (trace node_svc)) node_svc"
  using svc_inv_new [unfolded svc_inv_def ctrs_ok_def pods_ok_def no_orphans_def newService_def]
  by (simp_all add: svc_inv_def ctrs_ok_def pods_ok_def no_orphans_def node_svc_def)
     (simp_all add: freshID_def hexID_def node_world_def NewStore_def Sandbox_NewStore_def)

lemma node_runs: "fst (RunPodSandbox node_world pod_config [] node_svc) = Inr (replicate 64 (CHR ''a''))"
proof -
  have w: "noFailures node_world" "\<And>tr r. \<exists>x. w_image node_world tr r = Inr x" "\<And>tr. w_processLabel node_world tr = []"
    "w_genID node_world tr = replicate 64 (CHR ''a'')" for tr
    by (simp_all add: noFailures_def node_world_def pod_world_def example_world_def)
  have img: "fst (localResolve node_world (cf_SandboxImage (sv_config node_svc)) node_svc) = Inr (example_image ''repo:v1'')" by code_simp
  have s: "netPlugin node_svc" "sandboxNameIndex node_svc = NewRegistrar" "sandboxStore node_svc = Sandbox_NewStore"
    "labelStore node_svc = NewLabelStore" using pod_svc_ready by (simp_all add: node_svc_def)
  have net: "networkOk node_world pod_config node_svc"
    using s(1)
    by (auto simp: networkOk_def pod_config_def net_config_def toCNIBandWidth_def ExtractPodBandwidthResources_def extractBandwidth_def
        node_world_def pod_world_def dual_stack_def)
  have rt: "getSandboxRuntime (sv_config node_svc) pod_config [] = Inr runc_runtime"
    by (simp add: getSandboxRuntime_def untrustedWorkload_def lookupRuntime_def pod_config_def node_svc_def pod_svc_def example_config_def)
  have "fst (RunPodSandbox node_world pod_config [] node_svc) = Inr (w_genID node_world (trace node_svc))"
    by (rule RunPodSandbox_total [OF w(1) _ _ _ _ _ _ img _ w(2) rt net])
       (use Sandbox_NewStore_inv in \<open>simp_all add: s w(3,4) pod_config_def example_image_def dnsOk_def net_config_def makeSandboxName_def
          NewRegistrar_def Label_Reserve_def NewContext_def ctx_level_def Let_def reg_inv_def podPre_def Sandbox_NewStore_def\<close>)
  then show ?thesis by (simp add: w(4))
qed


end
